(* ===== verification/Prelude.thy ===== *)
theory Prelude
  imports Main "HOL-Library.Word" "HOL-Library.Char_ord" "HOL-Library.List_Lexorder"
    "HOL-Library.Sublist"
begin

text \<open>
  Shared vocabulary of the development: machine integers with the checked and saturating
  operations the Rust code calls, byte strings with the \<open>str\<close> methods the code uses,
  results (\<open>Inl\<close> an error, \<open>Inr\<close> a value) and the generic lemmas the component theories
  share. A Rust \<open>String\<close> is its UTF-8 byte sequence, a HOL \<open>string\<close>. \<open>usize\<close> counts that
  only count elements of a collection are \<open>nat\<close>; \<open>u64\<close> and \<open>u32\<close> fields are words.
\<close>

named_theorems result_simps "unfolding of the result combinators"
named_theorems str_simps "unfolding of the string methods on closed strings"

section \<open>Machine integers\<close>

type_synonym u8 = "8 word"
type_synonym u32 = "32 word"
type_synonym u64 = "64 word"
type_synonym i32 = "32 word"

definition saturating_add :: "u64 \<Rightarrow> u64 \<Rightarrow> u64" where
  "saturating_add a b = (if unat a + unat b < 2 ^ 64 then a + b else - 1)"

definition checked_add :: "u64 \<Rightarrow> u64 \<Rightarrow> u64 option" where
  "checked_add a b = (if unat a + unat b < 2 ^ 64 then Some (a + b) else None)"

lemma unat_max_u64: "unat (- 1 :: u64) = 2 ^ 64 - 1"
  by (simp add: unsigned_minus_1_eq_mask mask_eq_exp_minus_1)

lemma unat_u64_less: "unat (a :: u64) < 2 ^ 64"
  using unsigned_less [of a] by simp

lemma unat_saturating_add: "unat (saturating_add a b) = min (unat a + unat b) (2 ^ 64 - 1)"
proof (cases "unat a + unat b < 2 ^ 64")
  case True
  then have "unat (a + b) = unat a + unat b"
    by (simp add: unat_word_ariths)
  with True show ?thesis by (simp add: saturating_add_def)
next
  case False
  then show ?thesis by (simp add: saturating_add_def unsigned_minus_1_eq_mask mask_eq_exp_minus_1)
qed

lemma saturating_add_mono: "unat a \<le> unat (saturating_add a b)"
  using unat_u64_less [of a] by (simp add: unat_saturating_add)

lemma checked_add_Some: "checked_add a b = Some c \<Longrightarrow> unat c = unat a + unat b"
  by (auto simp: checked_add_def unat_word_ariths split: if_splits)

text \<open>The sum fits iff the wrapped sum is not below a summand: the test the code generator uses.\<close>

lemma unat_add_less_iff: "unat (a :: u64) + unat b < 2 ^ 64 \<longleftrightarrow> \<not> a + b < a"
  using unat_u64_less [of a] unat_u64_less [of b]
  by (auto simp: word_less_nat_alt unat_word_ariths not_less mod_if)

lemma saturating_add_code [code]: "saturating_add a b = (if a + b < a then - 1 else a + b)"
  unfolding saturating_add_def unat_add_less_iff by simp

lemma checked_add_code [code]: "checked_add a b = (if a + b < a then None else Some (a + b))"
  unfolding checked_add_def unat_add_less_iff by simp

lemma unat_Suc_u64: "unat (n :: u64) + 1 < 2 ^ 64 \<Longrightarrow> unat (n + 1) = Suc (unat n)"
  by (simp add: unat_word_ariths)

section \<open>Results\<close>

definition rbind :: "'e + 'a \<Rightarrow> ('a \<Rightarrow> 'e + 'b) \<Rightarrow> 'e + 'b" where
  "rbind r f = (case r of Inl e \<Rightarrow> Inl e | Inr a \<Rightarrow> f a)"

lemma rbind_simps [simp, result_simps]:
  "rbind (Inl e) f = Inl e"
  "rbind (Inr a) f = f a"
  by (simp_all add: rbind_def)

lemma rbind_eq_Inr: "rbind r f = Inr b \<longleftrightarrow> (\<exists>a. r = Inr a \<and> f a = Inr b)"
  by (cases r) auto

lemma rbind_eq_Inl: "rbind r f = Inl e \<longleftrightarrow> r = Inl e \<or> (\<exists>a. r = Inr a \<and> f a = Inl e)"
  by (cases r) auto

text \<open>\<open>iter().map(f).collect::<Result<_>>()\<close>: the first error wins.\<close>

fun try_map :: "('a \<Rightarrow> 'e + 'b) \<Rightarrow> 'a list \<Rightarrow> 'e + 'b list" where
  "try_map f [] = Inr []"
| "try_map f (x # xs) =
     (case f x of Inl e \<Rightarrow> Inl e
      | Inr y \<Rightarrow> (case try_map f xs of Inl e \<Rightarrow> Inl e | Inr ys \<Rightarrow> Inr (y # ys)))"

lemma try_map_Inr:
  "try_map f xs = Inr ys \<longleftrightarrow> list_all2 (\<lambda>x y. f x = Inr y) xs ys"
proof (induction xs arbitrary: ys)
  case Nil
  then show ?case by auto
next
  case (Cons x xs)
  show ?case
  proof (cases "f x")
    case (Inl e)
    then show ?thesis by (auto simp: list_all2_Cons1)
  next
    case (Inr y)
    then show ?thesis
      by (cases "try_map f xs") (auto simp: list_all2_Cons1 Cons.IH [symmetric])
  qed
qed

lemma try_map_length: "try_map f xs = Inr ys \<Longrightarrow> length ys = length xs"
  by (auto simp: try_map_Inr dest: list_all2_lengthD)

lemma set_map_filter: "set (List.map_filter f xs) = {y. \<exists>x \<in> set xs. f x = Some y}"
  by (induction xs) (auto simp: List.map_filter_simps split: option.splits)

section \<open>Bytes and characters\<close>

definition char_code :: "char \<Rightarrow> nat" where
  "char_code c = of_char c"

definition is_ascii_digit :: "char \<Rightarrow> bool" where
  "is_ascii_digit c \<longleftrightarrow> 48 \<le> char_code c \<and> char_code c \<le> 57"

definition is_ascii_uppercase :: "char \<Rightarrow> bool" where
  "is_ascii_uppercase c \<longleftrightarrow> 65 \<le> char_code c \<and> char_code c \<le> 90"

definition is_ascii_lowercase :: "char \<Rightarrow> bool" where
  "is_ascii_lowercase c \<longleftrightarrow> 97 \<le> char_code c \<and> char_code c \<le> 122"

definition is_ascii_alphabetic :: "char \<Rightarrow> bool" where
  "is_ascii_alphabetic c \<longleftrightarrow> is_ascii_uppercase c \<or> is_ascii_lowercase c"

definition is_ascii_alphanumeric :: "char \<Rightarrow> bool" where
  "is_ascii_alphanumeric c \<longleftrightarrow> is_ascii_alphabetic c \<or> is_ascii_digit c"

definition to_ascii_lowercase_char :: "char \<Rightarrow> char" where
  "to_ascii_lowercase_char c =
     (if is_ascii_uppercase c then char_of (char_code c + 32) else c)"

definition to_ascii_lowercase :: "string \<Rightarrow> string" where
  "to_ascii_lowercase s = map to_ascii_lowercase_char s"

lemmas char_class_defs [str_simps] =
  char_code_def is_ascii_digit_def is_ascii_uppercase_def is_ascii_lowercase_def
  is_ascii_alphabetic_def is_ascii_alphanumeric_def to_ascii_lowercase_char_def

lemma char_code_lt: "char_code c < 256"
  by (simp add: char_code_def)

lemma char_code_char_of: "n < 256 \<Longrightarrow> char_code (char_of n) = n"
  by (simp add: char_code_def)

lemma lowercase_not_upper: "\<not> is_ascii_uppercase (to_ascii_lowercase_char c)"
  by (auto simp: to_ascii_lowercase_char_def is_ascii_uppercase_def char_code_char_of)

lemma to_ascii_lowercase_char_idem [simp]:
  "to_ascii_lowercase_char (to_ascii_lowercase_char c) = to_ascii_lowercase_char c"
  using lowercase_not_upper [of c] by (simp add: to_ascii_lowercase_char_def)

lemma to_ascii_lowercase_idem [simp]:
  "to_ascii_lowercase (to_ascii_lowercase s) = to_ascii_lowercase s"
  by (simp add: to_ascii_lowercase_def)

lemma length_to_ascii_lowercase [simp]: "length (to_ascii_lowercase s) = length s"
  by (simp add: to_ascii_lowercase_def)

section \<open>Prefixes, suffixes and substrings\<close>

fun strip_prefix :: "string \<Rightarrow> string \<Rightarrow> string option" where
  "strip_prefix [] s = Some s"
| "strip_prefix (p # ps) [] = None"
| "strip_prefix (p # ps) (c # cs) = (if p = c then strip_prefix ps cs else None)"

definition starts_with :: "string \<Rightarrow> string \<Rightarrow> bool" where
  "starts_with p s \<longleftrightarrow> strip_prefix p s \<noteq> None"

definition strip_suffix :: "string \<Rightarrow> string \<Rightarrow> string option" where
  "strip_suffix p s = map_option rev (strip_prefix (rev p) (rev s))"

definition ends_with :: "string \<Rightarrow> string \<Rightarrow> bool" where
  "ends_with p s \<longleftrightarrow> strip_suffix p s \<noteq> None"

fun contains :: "string \<Rightarrow> string \<Rightarrow> bool" where
  "contains p [] \<longleftrightarrow> p = []"
| "contains p (c # cs) \<longleftrightarrow> starts_with p (c # cs) \<or> contains p cs"

lemma strip_prefix_Some: "strip_prefix p s = Some r \<longleftrightarrow> s = p @ r"
  by (induction p s rule: strip_prefix.induct) auto

lemma strip_prefix_None: "strip_prefix p s = None \<longleftrightarrow> \<not> prefix p s"
  by (induction p s rule: strip_prefix.induct) auto

lemma starts_with_prefix: "starts_with p s \<longleftrightarrow> prefix p s"
  by (simp add: starts_with_def strip_prefix_None)

lemma strip_suffix_Some: "strip_suffix p s = Some r \<longleftrightarrow> s = r @ p"
proof -
  have "strip_suffix p s = Some r \<longleftrightarrow> strip_prefix (rev p) (rev s) = Some (rev r)"
    by (auto simp: strip_suffix_def)
  also have "\<dots> \<longleftrightarrow> s = r @ p"
    by (metis strip_prefix_Some rev_append rev_rev_ident)
  finally show ?thesis .
qed

lemma contains_sublist: "contains p s \<longleftrightarrow> sublist p s"
  by (induction s) (auto simp: starts_with_prefix sublist_Cons_right)

section \<open>Trimming\<close>

text \<open>
  \<open>str::trim\<close> removes the Unicode \<open>White_Space\<close> characters at both ends. The table holds
  their UTF-8 encodings: U+0009 to U+000D, U+0020, U+0085, U+00A0, U+1680, U+2000 to
  U+200A, U+2028, U+2029, U+202F, U+205F and U+3000. UTF-8 is self-synchronising, so on
  encoded text a byte sequence of the table is at the end exactly where the character is.
\<close>

definition utf8_whitespace :: "string list" where
  "utf8_whitespace =
     [[CHR 0x20], [CHR 0x09], [CHR 0x0A], [CHR 0x0B], [CHR 0x0C], [CHR 0x0D],
      [CHR 0xC2, CHR 0x85], [CHR 0xC2, CHR 0xA0], [CHR 0xE1, CHR 0x9A, CHR 0x80]] @
     map (\<lambda>b. [CHR 0xE2, CHR 0x80, b])
       [CHR 0x80, CHR 0x81, CHR 0x82, CHR 0x83, CHR 0x84, CHR 0x85, CHR 0x86, CHR 0x87,
        CHR 0x88, CHR 0x89, CHR 0x8A, CHR 0xA8, CHR 0xA9, CHR 0xAF] @
     [[CHR 0xE2, CHR 0x81, CHR 0x9F], [CHR 0xE3, CHR 0x80, CHR 0x80]]"

fun strip_any :: "string list \<Rightarrow> string \<Rightarrow> string option" where
  "strip_any [] s = None"
| "strip_any (p # ps) s =
     (case strip_prefix p s of Some r \<Rightarrow> Some r | None \<Rightarrow> strip_any ps s)"

fun trim_any :: "string list \<Rightarrow> string \<Rightarrow> string" where
  "trim_any ps s =
     (case strip_any ps s of
        None \<Rightarrow> s
      | Some r \<Rightarrow> if length r < length s then trim_any ps r else s)"

declare trim_any.simps [simp del]

definition trim_start :: "string \<Rightarrow> string" where
  "trim_start s = trim_any utf8_whitespace s"

definition trim_end :: "string \<Rightarrow> string" where
  "trim_end s = rev (trim_any (map rev utf8_whitespace) (rev s))"

definition trim :: "string \<Rightarrow> string" where
  "trim s = trim_end (trim_start s)"

lemmas trim_defs [str_simps] =
  trim_def trim_start_def trim_end_def utf8_whitespace_def

lemma strip_any_None: "strip_any ps s = None \<longleftrightarrow> (\<forall>p \<in> set ps. \<not> prefix p s)"
  by (induction ps) (auto simp: strip_prefix_None strip_prefix_Some split: option.splits)

lemma strip_any_Some: "strip_any ps s = Some r \<Longrightarrow> \<exists>p \<in> set ps. s = p @ r"
  by (induction ps) (auto simp: strip_prefix_Some split: option.splits)

lemma trim_any_None: "[] \<notin> set ps \<Longrightarrow> strip_any ps (trim_any ps s) = None"
proof (induction ps s rule: trim_any.induct)
  case (1 ps s)
  show ?case
  proof (cases "strip_any ps s")
    case None
    then show ?thesis by (simp add: trim_any.simps [of ps s])
  next
    case (Some r)
    then obtain p where "p \<in> set ps" "s = p @ r" by (blast dest: strip_any_Some)
    with 1(2) have "length r < length s" by auto
    with 1 Some show ?thesis by (simp add: trim_any.simps [of ps s])
  qed
qed

lemma trim_any_suffix: "\<exists>q. s = q @ trim_any ps s"
proof (induction ps s rule: trim_any.induct)
  case (1 ps s)
  show ?case
  proof (cases "strip_any ps s")
    case None
    then show ?thesis by (simp add: trim_any.simps [of ps s])
  next
    case (Some r)
    then obtain p where p: "s = p @ r" by (blast dest: strip_any_Some)
    show ?thesis
    proof (cases "length r < length s")
      case True
      with 1 Some obtain q where "r = q @ trim_any ps r" by blast
      with p have "s = (p @ q) @ trim_any ps r" by simp
      moreover have "trim_any ps s = trim_any ps r"
        using Some True by (simp add: trim_any.simps [of ps s])
      ultimately show ?thesis by metis
    next
      case False
      with Some show ?thesis by (simp add: trim_any.simps [of ps s])
    qed
  qed
qed

lemma trim_any_id: "strip_any ps s = None \<Longrightarrow> trim_any ps s = s"
  by (simp add: trim_any.simps)

lemma Nil_notin_whitespace:
  "[] \<notin> set utf8_whitespace" "[] \<notin> set (map rev utf8_whitespace)"
  by (auto simp: utf8_whitespace_def)

lemma trim_start_idem [simp]: "trim_start (trim_start s) = trim_start s"
  by (simp add: trim_start_def trim_any_None trim_any_id Nil_notin_whitespace)

lemma trim_end_idem [simp]: "trim_end (trim_end s) = trim_end s"
  using trim_any_None [OF Nil_notin_whitespace(2)]
  by (simp add: trim_end_def trim_any_id)

lemma trim_start_of_trim_end:
  assumes "trim_start s = s"
  shows "trim_start (trim_end s) = trim_end s"
proof -
  obtain q where "rev s = q @ rev (trim_end s)"
    using trim_any_suffix [of "rev s"] by (auto simp: trim_end_def)
  then have s: "s = trim_end s @ rev q"
    by (metis rev_append rev_rev_ident)
  have "strip_any utf8_whitespace s = None"
    using trim_any_None [OF Nil_notin_whitespace(1), of s] assms by (simp add: trim_start_def)
  then have "strip_any utf8_whitespace (trim_end s) = None"
    by (subst (asm) s) (auto simp: strip_any_None)
  then show ?thesis by (simp add: trim_start_def trim_any_id)
qed

lemma trim_idem [simp]: "trim (trim s) = trim s"
  by (simp add: trim_def trim_start_of_trim_end)

section \<open>Trim, skip the empty ones, keep first occurrences\<close>

text \<open>
  The loop \<open>for v in values { let v = v.trim(); if v.is_empty() { continue; }
  if seen.insert(v) { out.push(v); } }\<close>, which several components share.
\<close>

fun push_unique_trimmed :: "string set \<Rightarrow> string list \<Rightarrow> string list" where
  "push_unique_trimmed seen [] = []"
| "push_unique_trimmed seen (v # vs) =
     (let t = trim v in
        if t = [] then push_unique_trimmed seen vs
        else if t \<in> seen then push_unique_trimmed seen vs
        else t # push_unique_trimmed (insert t seen) vs)"

lemma set_push_unique_trimmed:
  "set (push_unique_trimmed seen vs) = (trim ` set vs - {[]}) - seen"
  by (induction seen vs rule: push_unique_trimmed.induct) (auto simp: Let_def)

lemma distinct_push_unique_trimmed: "distinct (push_unique_trimmed seen vs)"
  by (induction seen vs rule: push_unique_trimmed.induct)
    (auto simp: Let_def set_push_unique_trimmed)

lemma push_unique_trimmed_id:
  "distinct vs \<Longrightarrow> (\<forall>v \<in> set vs. trim v = v \<and> v \<noteq> [] \<and> v \<notin> seen) \<Longrightarrow>
     push_unique_trimmed seen vs = vs"
proof (induction vs arbitrary: seen)
  case Nil
  then show ?case by simp
next
  case (Cons v vs)
  then have "push_unique_trimmed (insert v seen) vs = vs" by (intro Cons.IH) auto
  with Cons.prems show ?case by (simp add: Let_def)
qed

lemma push_unique_trimmed_trimmed:
  "v \<in> set (push_unique_trimmed seen vs) \<Longrightarrow> trim v = v \<and> v \<noteq> [] \<and> v \<notin> seen"
  by (auto simp: set_push_unique_trimmed)

section \<open>Reducers: folding a fallible step over a log\<close>

text \<open>
  The contract between a step that may fail and the loop that runs it over a list of
  events with early return. What a client needs of such a loop is proved once here; every
  reducer of the development interprets it on its own step and loop.
\<close>

locale fallible_fold =
  fixes step :: "'e \<Rightarrow> 's \<Rightarrow> 'err + 's"
    and run :: "'e list \<Rightarrow> 's \<Rightarrow> 'err + 's"
  assumes run_Nil: "run [] s = Inr s"
    and run_Cons: "run (x # xs) s = rbind (step x s) (run xs)"
begin

lemma run_append: "run (xs @ ys) s = rbind (run xs s) (run ys)"
proof (induction xs arbitrary: s)
  case Nil
  then show ?case by (simp add: run_Nil)
next
  case (Cons x xs)
  then show ?case by (cases "step x s") (simp_all add: run_Cons)
qed

lemma run_appendD:
  "run (xs @ ys) s = Inr s' \<Longrightarrow> \<exists>m. run xs s = Inr m \<and> run ys m = Inr s'"
  by (simp add: run_append rbind_eq_Inr)

lemma run_snoc: "run (xs @ [x]) s = rbind (run xs s) (step x)"
  by (cases "run xs s"; cases "step x (projr (run xs s))") (simp_all add: run_append run_Cons run_Nil)

lemma run_invariant:
  assumes "run xs s = Inr s'" and "P s"
    and "\<And>x s s'. x \<in> set xs \<Longrightarrow> P s \<Longrightarrow> step x s = Inr s' \<Longrightarrow> P s'"
  shows "P s'"
  using assms
proof (induction xs arbitrary: s)
  case Nil
  then show ?case by (simp add: run_Nil)
next
  case (Cons x xs)
  from Cons.prems(1) obtain m where m: "step x s = Inr m" "run xs m = Inr s'"
    by (auto simp: run_Cons rbind_eq_Inr)
  have "P m" by (rule Cons.prems(3) [OF _ Cons.prems(2) m(1)]) simp
  then show ?case by (rule Cons.IH [OF m(2)]) (rule Cons.prems(3), auto)
qed

lemma run_error_iff:
  "run xs s = Inl e \<longleftrightarrow>
     (\<exists>ys x zs m. xs = ys @ x # zs \<and> run ys s = Inr m \<and> step x m = Inl e)"
proof
  assume "run xs s = Inl e"
  then show "\<exists>ys x zs m. xs = ys @ x # zs \<and> run ys s = Inr m \<and> step x m = Inl e"
  proof (induction xs arbitrary: s)
    case Nil
    then show ?case by (simp add: run_Nil)
  next
    case (Cons x xs)
    show ?case
    proof (cases "step x s")
      case (Inl e')
      with Cons.prems have "step x s = Inl e" by (simp add: run_Cons)
      then show ?thesis using run_Nil by (metis append_Nil)
    next
      case (Inr m)
      with Cons.prems have "run xs m = Inl e" by (simp add: run_Cons)
      from Cons.IH [OF this] obtain ys y zs m' where
        "xs = ys @ y # zs" "run ys m = Inr m'" "step y m' = Inl e" by blast
      moreover from this Inr have "run (x # ys) s = Inr m'" by (simp add: run_Cons)
      ultimately show ?thesis by (metis append_Cons)
    qed
  qed
next
  assume "\<exists>ys x zs m. xs = ys @ x # zs \<and> run ys s = Inr m \<and> step x m = Inl e"
  then show "run xs s = Inl e" by (auto simp: run_append run_Cons)
qed

end

section \<open>Sets maintained by a log\<close>

text \<open>
  A set from which each event removes some elements and to which it then adds some. An
  element is in the set at the end iff its last addition is not followed by a removal.
\<close>

fun track :: "('e \<Rightarrow> 'a set) \<Rightarrow> ('e \<Rightarrow> 'a set) \<Rightarrow> 'e list \<Rightarrow> 'a set \<Rightarrow> 'a set" where
  "track adds removes [] A = A"
| "track adds removes (e # es) A = track adds removes es ((A - removes e) \<union> adds e)"

definition opened :: "('e \<Rightarrow> 'a set) \<Rightarrow> ('e \<Rightarrow> 'a set) \<Rightarrow> 'e list \<Rightarrow> 'a \<Rightarrow> bool" where
  "opened adds removes es x \<longleftrightarrow>
     (\<exists>ys e zs. es = ys @ e # zs \<and> x \<in> adds e \<and> (\<forall>z \<in> set zs. x \<notin> removes z))"

lemma track_append: "track adds removes (xs @ ys) A = track adds removes ys (track adds removes xs A)"
  by (induction xs arbitrary: A) auto

lemma track_iff_opened:
  "x \<in> track adds removes es A \<longleftrightarrow>
     opened adds removes es x \<or> x \<in> A \<and> (\<forall>z \<in> set es. x \<notin> removes z)"
proof (induction es arbitrary: A rule: rev_induct)
  case Nil
  then show ?case by (simp add: opened_def)
next
  case (snoc e es)
  have "opened adds removes (es @ [e]) x \<longleftrightarrow>
      x \<in> adds e \<or> opened adds removes es x \<and> x \<notin> removes e" (is "?L \<longleftrightarrow> ?R")
  proof
    assume ?L
    then obtain ys f zs where f: "es @ [e] = ys @ f # zs" "x \<in> adds f" "\<forall>z \<in> set zs. x \<notin> removes z"
      by (auto simp: opened_def)
    show ?R
    proof (cases zs rule: rev_cases)
      case Nil
      with f show ?thesis by simp
    next
      case (snoc zs' z)
      with f have "es = ys @ f # zs'" "z = e" by auto
      with f snoc have "opened adds removes es x" "x \<notin> removes e" by (auto simp: opened_def)
      then show ?thesis by simp
    qed
  next
    assume ?R
    then show ?L
    proof
      assume "x \<in> adds e"
      then have "es @ [e] = es @ e # []" "x \<in> adds e" "\<forall>z \<in> set []. x \<notin> removes z" by auto
      then show ?L unfolding opened_def by blast
    next
      assume "opened adds removes es x \<and> x \<notin> removes e"
      then obtain ys f zs where "es = ys @ f # zs" "x \<in> adds f" "\<forall>z \<in> set zs. x \<notin> removes z"
        "x \<notin> removes e" by (auto simp: opened_def)
      then have "es @ [e] = ys @ f # (zs @ [e])" "\<forall>z \<in> set (zs @ [e]). x \<notin> removes z" by auto
      with \<open>x \<in> adds f\<close> show ?L unfolding opened_def by blast
    qed
  qed
  with snoc show ?case by (auto simp: track_append)
qed

section \<open>Operations on a state\<close>

text \<open>
  An operation takes a state to a result and the state after it, so an error keeps the effects
  before it.
\<close>

type_synonym ('s, 'e, 'a) state_action = "'s \<Rightarrow> ('e + 'a) \<times> 's"

definition act_return :: "'a \<Rightarrow> ('s, 'e, 'a) state_action" where
  "act_return a s = (Inr a, s)"

definition act_fail :: "'e \<Rightarrow> ('s, 'e, 'a) state_action" where
  "act_fail e s = (Inl e, s)"

definition act_bind ::
  "('s, 'e, 'a) state_action \<Rightarrow> ('a \<Rightarrow> ('s, 'e, 'b) state_action) \<Rightarrow> ('s, 'e, 'b) state_action" where
  "act_bind m f s = (case m s of (Inl e, s') \<Rightarrow> (Inl e, s') | (Inr a, s') \<Rightarrow> f a s')"

definition act_lift :: "'e + 'a \<Rightarrow> ('s, 'e, 'a) state_action" where
  "act_lift r s = (r, s)"

text \<open>Look at the state without changing it.\<close>

definition act_look :: "('s \<Rightarrow> 'e + 'a) \<Rightarrow> ('s, 'e, 'a) state_action" where
  "act_look f s = (f s, s)"

definition act_map_error :: "('e \<Rightarrow> 'f) \<Rightarrow> ('s, 'e, 'a) state_action \<Rightarrow> ('s, 'f, 'a) state_action" where
  "act_map_error h m s = (case m s of (Inl e, s') \<Rightarrow> (Inl (h e), s') | (Inr a, s') \<Rightarrow> (Inr a, s'))"

named_theorems action_simps "the combinators of operations"

lemma act_simps [action_simps]:
  "act_return a s = (Inr a, s)"
  "act_fail e s = (Inl e, s)"
  "act_lift r s = (r, s)"
  "act_look f s = (f s, s)"
  by (simp_all add: act_return_def act_fail_def act_lift_def act_look_def)

lemma act_bind_eq:
  "act_bind m f s = (r, s'') \<longleftrightarrow>
     (\<exists>e s'. m s = (Inl e, s') \<and> r = Inl e \<and> s'' = s') \<or>
     (\<exists>a s'. m s = (Inr a, s') \<and> f a s' = (r, s''))"
  by (auto simp: act_bind_def split: prod.splits sum.splits)

lemma act_bind_Inr:
  "act_bind m f s = (Inr b, s'') \<longleftrightarrow> (\<exists>a s'. m s = (Inr a, s') \<and> f a s' = (Inr b, s''))"
  by (auto simp: act_bind_eq)

lemma act_map_error_eq [action_simps]:
  "act_map_error h m s = (Inr a, s') \<longleftrightarrow> m s = (Inr a, s')"
  "act_map_error h m s = (Inl f, s') \<longleftrightarrow> (\<exists>e. m s = (Inl e, s') \<and> f = h e)"
  by (auto simp: act_map_error_def split: prod.splits sum.splits)

lemma act_bind_step [action_simps]:
  "m s = (Inr a, s') \<Longrightarrow> act_bind m f s = f a s'"
  "m s = (Inl e, s') \<Longrightarrow> act_bind m f s = (Inl e, s')"
  by (simp_all add: act_bind_def)

text \<open>Running an action and keeping its error as a value.\<close>

definition act_attempt :: "('s, 'e, 'a) state_action \<Rightarrow> ('s, 'f, 'e + 'a) state_action" where
  "act_attempt m s = (case m s of (r, s') \<Rightarrow> (Inr r, s'))"

lemma act_attempt_eq: "act_attempt m s = (r, s') \<longleftrightarrow> (\<exists>a. m s = (a, s') \<and> r = Inr a)"
  by (auto simp: act_attempt_def split: prod.splits)

section \<open>What an action does to the state\<close>

text \<open>However an action ends, it relates the state before it to the state after it.\<close>

definition act_within :: "('s \<Rightarrow> 's \<Rightarrow> bool) \<Rightarrow> ('s, 'e, 'a) state_action \<Rightarrow> bool" where
  "act_within R m \<longleftrightarrow> (\<forall>s r s'. m s = (r, s') \<longrightarrow> R s s')"

lemma act_withinI: "(\<And>s r s'. m s = (r, s') \<Longrightarrow> R s s') \<Longrightarrow> act_within R m"
  by (simp add: act_within_def)

lemma act_withinD: "act_within R m \<Longrightarrow> m s = (r, s') \<Longrightarrow> R s s'"
  by (simp add: act_within_def)

text \<open>
  A relation that every step can be composed with: an operation built from actions within it
  is within it.
\<close>

locale action_relation =
  fixes R :: "'s \<Rightarrow> 's \<Rightarrow> bool"
  assumes R_refl: "R s s"
    and R_trans: "R s t \<Longrightarrow> R t u \<Longrightarrow> R s u"
begin

lemma within_same_state: "(\<And>s. snd (m s) = s) \<Longrightarrow> act_within R m"
  by (intro act_withinI) (metis R_refl snd_conv)

lemma within_return: "act_within R (act_return a)"
  by (rule within_same_state) (simp add: act_simps)

lemma within_fail: "act_within R (act_fail e)"
  by (rule within_same_state) (simp add: act_simps)

lemma within_lift: "act_within R (act_lift r)"
  by (rule within_same_state) (simp add: act_simps)

lemma within_look: "act_within R (act_look f)"
  by (rule within_same_state) (simp add: act_simps)

lemma within_bind:
  assumes "act_within R m" and "\<And>a. act_within R (f a)"
  shows "act_within R (act_bind m f)"
proof (rule act_withinI)
  fix s r s'' assume "act_bind m f s = (r, s'')"
  with act_withinD [OF assms(1)] act_withinD [OF assms(2)] show "R s s''"
    unfolding act_bind_eq by (blast intro: R_trans)
qed

lemma within_map_error: "act_within R m \<Longrightarrow> act_within R (act_map_error h m)"
  by (auto simp: act_within_def act_map_error_def split: prod.splits sum.splits)

lemma within_attempt: "act_within R m \<Longrightarrow> act_within R (act_attempt m)"
  by (auto simp: act_within_def act_attempt_eq)

lemmas within_intros =
  within_return within_fail within_lift within_look within_bind within_map_error within_attempt

end

end
