(* ===== verification/Json.thy ===== *)
theory Json
  imports Prelude
begin

text \<open>
  The \<open>serde_json::Value\<close> the sources pass around, with the accessors they call. An object
  is the list of its entries in the map's iteration order; \<open>json_wf\<close> says the keys are
  distinct, which the library's map type guarantees. A number is a \<open>u64\<close>, a negative
  \<open>i64\<close> or a float (its bits), as the library stores it.
\<close>

datatype json_number = PosInt u64 | NegInt u64 | Float u64

datatype json =
    JNull
  | JBool bool
  | JNumber json_number
  | JString string
  | JArray "json list"
  | JObject "(string \<times> json) list"

fun as_object :: "json \<Rightarrow> (string \<times> json) list option" where
  "as_object (JObject m) = Some m"
| "as_object _ = None"

fun as_array :: "json \<Rightarrow> json list option" where
  "as_array (JArray xs) = Some xs"
| "as_array _ = None"

fun as_str :: "json \<Rightarrow> string option" where
  "as_str (JString s) = Some s"
| "as_str _ = None"

fun as_bool :: "json \<Rightarrow> bool option" where
  "as_bool (JBool b) = Some b"
| "as_bool _ = None"

fun as_u64 :: "json \<Rightarrow> u64 option" where
  "as_u64 (JNumber (PosInt n)) = Some n"
| "as_u64 _ = None"

text \<open>\<open>Value::get(key)\<close>: \<open>None\<close> unless the value is an object that has the key.\<close>

definition json_get :: "string \<Rightarrow> json \<Rightarrow> json option" where
  "json_get k v = Option.bind (as_object v) (\<lambda>m. map_of m k)"

lemma json_get_object [simp]: "json_get k (JObject m) = map_of m k"
  by (simp add: json_get_def)

fun json_wf :: "json \<Rightarrow> bool" where
  "json_wf (JArray xs) \<longleftrightarrow> (\<forall>x \<in> set xs. json_wf x)"
| "json_wf (JObject m) \<longleftrightarrow> distinct (map fst m) \<and> (\<forall>e \<in> set m. json_wf (snd e))"
| "json_wf _ \<longleftrightarrow> True"

end
