(* ===== verification/Protocol.thy ===== *)
theory Protocol
  imports Json
begin

text \<open>
  The data model of \<open>crates/agent-protocol/src/lib.rs\<close>: identifiers, status enums, the
  event kinds a thread's log holds and their tags. Identifiers wrap a 128-bit UUID; a
  timestamp is the instant of an \<open>OffsetDateTime\<close>. \<open>structured_text_protocol\<close> and
  \<open>policy_meta\<close> are not in the repository; of their types only the constructors the
  sources match on appear here.
\<close>

section \<open>Identifiers\<close>

type_synonym uuid = "128 word"
type_synonym timestamp = int

datatype thread_id = ThreadId (thread_uuid: uuid)
datatype turn_id = TurnId (turn_uuid: uuid)
datatype process_id = ProcessId (process_uuid: uuid)
datatype tool_id = ToolId (tool_uuid: uuid)
datatype approval_id = ApprovalId (approval_uuid: uuid)
datatype artifact_id = ArtifactId (artifact_uuid: uuid)
datatype checkpoint_id = CheckpointId (checkpoint_uuid: uuid)

type_synonym event_seq = u64

definition event_seq_zero :: event_seq where
  "event_seq_zero = 0"

text \<open>The derived \<open>Ord\<close> of the identifiers that index ordered maps or are sorted.\<close>

instantiation thread_id :: linorder
begin
definition less_eq_thread_id :: "thread_id \<Rightarrow> thread_id \<Rightarrow> bool" where
  "less_eq_thread_id a b \<longleftrightarrow> thread_uuid a \<le> thread_uuid b"
definition less_thread_id :: "thread_id \<Rightarrow> thread_id \<Rightarrow> bool" where
  "less_thread_id a b \<longleftrightarrow> thread_uuid a < thread_uuid b"
instance
  by standard (auto simp: less_eq_thread_id_def less_thread_id_def thread_id.expand)
end

instantiation approval_id :: linorder
begin
definition less_eq_approval_id :: "approval_id \<Rightarrow> approval_id \<Rightarrow> bool" where
  "less_eq_approval_id a b \<longleftrightarrow> approval_uuid a \<le> approval_uuid b"
definition less_approval_id :: "approval_id \<Rightarrow> approval_id \<Rightarrow> bool" where
  "less_approval_id a b \<longleftrightarrow> approval_uuid a < approval_uuid b"
instance
  by standard (auto simp: less_eq_approval_id_def less_approval_id_def approval_id.expand)
end

instantiation tool_id :: linorder
begin
definition less_eq_tool_id :: "tool_id \<Rightarrow> tool_id \<Rightarrow> bool" where
  "less_eq_tool_id a b \<longleftrightarrow> tool_uuid a \<le> tool_uuid b"
definition less_tool_id :: "tool_id \<Rightarrow> tool_id \<Rightarrow> bool" where
  "less_tool_id a b \<longleftrightarrow> tool_uuid a < tool_uuid b"
instance
  by standard (auto simp: less_eq_tool_id_def less_tool_id_def tool_id.expand)
end

section \<open>Status enums\<close>

datatype turn_status =
  TurnStatusCompleted | TurnStatusInterrupted | TurnStatusFailed | TurnStatusCancelled
| TurnStatusStuck

datatype turn_priority = Foreground | Background

datatype tool_status =
  ToolStatusCompleted | ToolStatusFailed | ToolStatusDenied | ToolStatusCancelled

datatype checkpoint_restore_status = RestoreOk | RestoreFailed

datatype attention_marker_kind =
  PlanReady | DiffReady | TestFailed | FanOutLinkageIssue | FanOutAutoApplyError
| TokenBudgetWarning | TokenBudgetExceeded

datatype approval_policy = AutoApprove | Manual | UnlessTrusted | AutoDeny

datatype sandbox_network_access = NetworkDeny | NetworkAllow

datatype model_routing_rule_source =
  RuleSubagent | RuleProjectOverride | RuleKeywordRule | RuleRoleDefault
| RuleGlobalDefault

datatype approval_decision = Approved | Denied

text \<open>\<open>policy_meta::WriteScope\<close>: the three variants the sources name, and the others.\<close>

datatype write_scope = ReadOnly | WorkspaceWrite | FullAccess | OtherScope string

section \<open>Payload structures\<close>

record context_ref_file =
  crf_path :: string
  crf_start_line :: "u64 option"
  crf_end_line :: "u64 option"
  crf_max_bytes :: "u64 option"

record context_ref_diff =
  crd_max_bytes :: "u64 option"

datatype context_ref = CtxFile context_ref_file | CtxDiff context_ref_diff

datatype attachment_source = SourcePath string | SourceUrl string

record turn_attachment_image =
  img_source :: attachment_source
  img_media_type :: "string option"

record turn_attachment_file =
  att_source :: attachment_source
  att_media_type :: string
  att_filename :: "string option"

datatype turn_attachment =
  AttachImage turn_attachment_image | AttachFile turn_attachment_file

datatype turn_directive = DirectivePlan

record agent_step_tool_call =
  call_name :: string
  call_id :: string
  call_arguments :: string

record agent_step_tool_result =
  result_call_id :: string
  result_output :: string

text \<open>\<open>structured_text_protocol\<close>: a catalog message with named arguments, or free text.\<close>

datatype structured_text =
    Catalog string "(string \<times> catalog_arg) list"
  | Freeform string
and catalog_arg =
    ArgText string
  | ArgSigned string
  | ArgUnsigned string
  | ArgBool bool
  | ArgNestedText structured_text
  | ArgUnsupported

record config_update =
  cu_approval_policy :: approval_policy
  cu_sandbox_policy :: "write_scope option"
  cu_sandbox_writable_roots :: "string list option"
  cu_sandbox_network_access :: "sandbox_network_access option"
  cu_mode :: "string option"
  cu_role :: "string option"
  cu_model :: "string option"
  cu_clear_model :: bool
  cu_thinking :: "string option"
  cu_clear_thinking :: bool
  cu_show_thinking :: "bool option"
  cu_clear_show_thinking :: bool
  cu_openai_base_url :: "string option"
  cu_clear_openai_base_url :: bool
  cu_allowed_tools :: "string list option option"
  cu_execpolicy_rules :: "string list option"
  cu_clear_execpolicy_rules :: bool

record turn_started_payload =
  tsp_turn_id :: turn_id
  tsp_input :: string
  tsp_context_refs :: "context_ref list option"
  tsp_attachments :: "turn_attachment list option"
  tsp_directives :: "turn_directive list option"
  tsp_priority :: turn_priority

record agent_step_payload =
  asp_turn_id :: turn_id
  asp_step :: u32
  asp_model :: string
  asp_response_id :: string
  asp_text :: "string option"
  asp_tool_calls :: "agent_step_tool_call list"
  asp_tool_results :: "agent_step_tool_result list"
  asp_token_usage :: "json option"
  asp_warnings_count :: "u32 option"

record assistant_message_payload =
  amp_turn_id :: "turn_id option"
  amp_text :: string
  amp_model :: "string option"
  amp_response_id :: "string option"
  amp_token_usage :: "json option"

record process_started_payload =
  psp_process_id :: process_id
  psp_turn_id :: "turn_id option"
  psp_os_pid :: "u32 option"
  psp_argv :: "string list"
  psp_cwd :: string
  psp_stdout_path :: string
  psp_stderr_path :: string

record attention_marker_payload =
  atm_marker :: attention_marker_kind
  atm_turn_id :: "turn_id option"
  atm_artifact_id :: "artifact_id option"
  atm_artifact_type :: "string option"
  atm_process_id :: "process_id option"
  atm_exit_code :: "i32 option"
  atm_command :: "string option"

section \<open>Thread events\<close>

text \<open>The fields of a variant stand in the order the source declares them.\<close>

datatype thread_event_kind =
    ThreadCreated string
  | ThreadSystemPromptSnapshot string string "string option"
  | ThreadArchived "string option"
  | ThreadUnarchived "string option"
  | ThreadPaused "string option"
  | ThreadUnpaused "string option"
  | TurnStarted turn_started_payload
  | ModelRouted turn_id string model_routing_rule_source "string option" "string option"
  | TurnInterruptRequested turn_id "string option"
  | TurnCompleted turn_id turn_status "string option"
  | ThreadConfigUpdated config_update
  | ApprovalRequested approval_id "turn_id option" string json
  | ApprovalDecided approval_id approval_decision bool "string option"
  | ToolStarted tool_id "turn_id option" string "json option"
  | ToolCompleted tool_id tool_status "structured_text option" "string option" "json option"
  | AgentStep agent_step_payload
  | AssistantMessage assistant_message_payload
  | ProcessStarted process_started_payload
  | ProcessInterruptRequested process_id "string option"
  | ProcessKillRequested process_id "string option"
  | ProcessExited process_id "i32 option" "string option"
  | AttentionMarkerSet attention_marker_payload
  | AttentionMarkerCleared attention_marker_kind "turn_id option" "string option"
  | CheckpointCreated checkpoint_id "turn_id option" "string option" string
  | CheckpointRestored checkpoint_id "turn_id option" checkpoint_restore_status
      "string option" "artifact_id option"

record thread_event =
  ev_seq :: event_seq
  ev_timestamp :: timestamp
  ev_thread_id :: thread_id
  ev_kind :: thread_event_kind

end
