(* ===== verification/EventTags.thy ===== *)
theory EventTags
  imports Protocol
begin

text \<open>
  The event kind tags of \<open>crates/agent-protocol/src/lib.rs\<close>: the tag of an event kind, its
  printed name, the parser of names and the filter that an events query takes.
\<close>

datatype thread_event_kind_tag =
  TagThreadCreated
| TagThreadSystemPromptSnapshot
| TagThreadArchived
| TagThreadUnarchived
| TagThreadPaused
| TagThreadUnpaused
| TagTurnStarted
| TagModelRouted
| TagTurnInterruptRequested
| TagTurnCompleted
| TagThreadConfigUpdated
| TagApprovalRequested
| TagApprovalDecided
| TagToolStarted
| TagToolCompleted
| TagAgentStep
| TagAssistantMessage
| TagProcessStarted
| TagProcessInterruptRequested
| TagProcessKillRequested
| TagProcessExited
| TagAttentionMarkerSet
| TagAttentionMarkerCleared
| TagCheckpointCreated
| TagCheckpointRestored

fun tag_as_str :: "thread_event_kind_tag \<Rightarrow> string" where
  "tag_as_str TagThreadCreated = ''thread_created''"
| "tag_as_str TagThreadSystemPromptSnapshot = ''thread_system_prompt_snapshot''"
| "tag_as_str TagThreadArchived = ''thread_archived''"
| "tag_as_str TagThreadUnarchived = ''thread_unarchived''"
| "tag_as_str TagThreadPaused = ''thread_paused''"
| "tag_as_str TagThreadUnpaused = ''thread_unpaused''"
| "tag_as_str TagTurnStarted = ''turn_started''"
| "tag_as_str TagModelRouted = ''model_routed''"
| "tag_as_str TagTurnInterruptRequested = ''turn_interrupt_requested''"
| "tag_as_str TagTurnCompleted = ''turn_completed''"
| "tag_as_str TagThreadConfigUpdated = ''thread_config_updated''"
| "tag_as_str TagApprovalRequested = ''approval_requested''"
| "tag_as_str TagApprovalDecided = ''approval_decided''"
| "tag_as_str TagToolStarted = ''tool_started''"
| "tag_as_str TagToolCompleted = ''tool_completed''"
| "tag_as_str TagAgentStep = ''agent_step''"
| "tag_as_str TagAssistantMessage = ''assistant_message''"
| "tag_as_str TagProcessStarted = ''process_started''"
| "tag_as_str TagProcessInterruptRequested = ''process_interrupt_requested''"
| "tag_as_str TagProcessKillRequested = ''process_kill_requested''"
| "tag_as_str TagProcessExited = ''process_exited''"
| "tag_as_str TagAttentionMarkerSet = ''attention_marker_set''"
| "tag_as_str TagAttentionMarkerCleared = ''attention_marker_cleared''"
| "tag_as_str TagCheckpointCreated = ''checkpoint_created''"
| "tag_as_str TagCheckpointRestored = ''checkpoint_restored''"

definition tag_from_str :: "string \<Rightarrow> string + thread_event_kind_tag" where
  "tag_from_str s =
     (if s = ''thread_created'' then Inr TagThreadCreated
      else if s = ''thread_system_prompt_snapshot'' then Inr TagThreadSystemPromptSnapshot
      else if s = ''thread_archived'' then Inr TagThreadArchived
      else if s = ''thread_unarchived'' then Inr TagThreadUnarchived
      else if s = ''thread_paused'' then Inr TagThreadPaused
      else if s = ''thread_unpaused'' then Inr TagThreadUnpaused
      else if s = ''turn_started'' then Inr TagTurnStarted
      else if s = ''model_routed'' then Inr TagModelRouted
      else if s = ''turn_interrupt_requested'' then Inr TagTurnInterruptRequested
      else if s = ''turn_completed'' then Inr TagTurnCompleted
      else if s = ''thread_config_updated'' then Inr TagThreadConfigUpdated
      else if s = ''approval_requested'' then Inr TagApprovalRequested
      else if s = ''approval_decided'' then Inr TagApprovalDecided
      else if s = ''tool_started'' then Inr TagToolStarted
      else if s = ''tool_completed'' then Inr TagToolCompleted
      else if s = ''agent_step'' then Inr TagAgentStep
      else if s = ''assistant_message'' then Inr TagAssistantMessage
      else if s = ''process_started'' then Inr TagProcessStarted
      else if s = ''process_interrupt_requested'' then Inr TagProcessInterruptRequested
      else if s = ''process_kill_requested'' then Inr TagProcessKillRequested
      else if s = ''process_exited'' then Inr TagProcessExited
      else if s = ''attention_marker_set'' then Inr TagAttentionMarkerSet
      else if s = ''attention_marker_cleared'' then Inr TagAttentionMarkerCleared
      else if s = ''checkpoint_created'' then Inr TagCheckpointCreated
      else if s = ''checkpoint_restored'' then Inr TagCheckpointRestored
      else Inl (''unknown thread event kind tag: '' @ s))"

definition thread_event_kind_tags :: "string list" where
  "thread_event_kind_tags =
     [''thread_created'',
      ''thread_system_prompt_snapshot'',
      ''thread_archived'',
      ''thread_unarchived'',
      ''thread_paused'',
      ''thread_unpaused'',
      ''turn_started'',
      ''model_routed'',
      ''turn_interrupt_requested'',
      ''turn_completed'',
      ''thread_config_updated'',
      ''approval_requested'',
      ''approval_decided'',
      ''tool_started'',
      ''tool_completed'',
      ''agent_step'',
      ''assistant_message'',
      ''process_started'',
      ''process_interrupt_requested'',
      ''process_kill_requested'',
      ''process_exited'',
      ''attention_marker_set'',
      ''attention_marker_cleared'',
      ''checkpoint_created'',
      ''checkpoint_restored'']"

fun tag_enum :: "thread_event_kind \<Rightarrow> thread_event_kind_tag" where
  "tag_enum (ThreadCreated _) = TagThreadCreated"
| "tag_enum (ThreadSystemPromptSnapshot _ _ _) = TagThreadSystemPromptSnapshot"
| "tag_enum (ThreadArchived _) = TagThreadArchived"
| "tag_enum (ThreadUnarchived _) = TagThreadUnarchived"
| "tag_enum (ThreadPaused _) = TagThreadPaused"
| "tag_enum (ThreadUnpaused _) = TagThreadUnpaused"
| "tag_enum (TurnStarted _) = TagTurnStarted"
| "tag_enum (ModelRouted _ _ _ _ _) = TagModelRouted"
| "tag_enum (TurnInterruptRequested _ _) = TagTurnInterruptRequested"
| "tag_enum (TurnCompleted _ _ _) = TagTurnCompleted"
| "tag_enum (ThreadConfigUpdated _) = TagThreadConfigUpdated"
| "tag_enum (ApprovalRequested _ _ _ _) = TagApprovalRequested"
| "tag_enum (ApprovalDecided _ _ _ _) = TagApprovalDecided"
| "tag_enum (ToolStarted _ _ _ _) = TagToolStarted"
| "tag_enum (ToolCompleted _ _ _ _ _) = TagToolCompleted"
| "tag_enum (AgentStep _) = TagAgentStep"
| "tag_enum (AssistantMessage _) = TagAssistantMessage"
| "tag_enum (ProcessStarted _) = TagProcessStarted"
| "tag_enum (ProcessInterruptRequested _ _) = TagProcessInterruptRequested"
| "tag_enum (ProcessKillRequested _ _) = TagProcessKillRequested"
| "tag_enum (ProcessExited _ _ _) = TagProcessExited"
| "tag_enum (AttentionMarkerSet _) = TagAttentionMarkerSet"
| "tag_enum (AttentionMarkerCleared _ _ _) = TagAttentionMarkerCleared"
| "tag_enum (CheckpointCreated _ _ _ _) = TagCheckpointCreated"
| "tag_enum (CheckpointRestored _ _ _ _ _) = TagCheckpointRestored"

definition event_tag :: "thread_event_kind \<Rightarrow> string" where
  "event_tag k = tag_as_str (tag_enum k)"

definition is_known_thread_event_kind_tag :: "string \<Rightarrow> bool" where
  "is_known_thread_event_kind_tag s \<longleftrightarrow> (case tag_from_str s of Inr _ \<Rightarrow> True | Inl _ \<Rightarrow> False)"

definition normalize_kind :: "string \<Rightarrow> string" where
  "normalize_kind kind = to_ascii_lowercase (trim kind)"

text \<open>The loop over the requested kinds: the set of tags found and the names rejected.\<close>

fun collect_kinds ::
  "string list \<Rightarrow> thread_event_kind_tag set \<Rightarrow> string list \<Rightarrow>
     thread_event_kind_tag set \<times> string list" where
  "collect_kinds [] requested invalid = (requested, invalid)"
| "collect_kinds (kind # kinds) requested invalid =
     (let normalized = normalize_kind kind in
        if normalized = [] then collect_kinds kinds requested invalid
        else case tag_from_str normalized of
               Inr t \<Rightarrow> collect_kinds kinds (insert t requested) invalid
             | Inl _ \<Rightarrow> collect_kinds kinds requested (invalid @ [normalized]))"

text \<open>\<open>sort_unstable\<close> then \<open>dedup\<close>, which drops equal neighbours.\<close>

definition normalize_thread_event_kind_filter ::
  "string list \<Rightarrow> string list + thread_event_kind_tag set" where
  "normalize_thread_event_kind_filter kinds =
     (let (requested, invalid) = collect_kinds kinds {} [];
          invalid = remdups_adj (sort invalid)
      in if invalid = [] then Inr requested else Inl invalid)"

section \<open>Names and tags\<close>

lemma tag_from_str_as_str: "tag_from_str (tag_as_str t) = Inr t"
  by (cases t) (simp_all add: tag_from_str_def)

lemma tag_from_str_Inr: "tag_from_str s = Inr t \<Longrightarrow> s = tag_as_str t"
  unfolding tag_from_str_def by (auto split: if_splits)

lemma tag_as_str_inject: "tag_as_str s = tag_as_str t \<Longrightarrow> s = t"
  by (metis tag_from_str_as_str sum.inject(2))

lemma tag_from_str_Inl: "tag_from_str s = Inl e \<Longrightarrow> e = ''unknown thread event kind tag: '' @ s"
  unfolding tag_from_str_def by (auto split: if_splits)

lemma tag_as_str_in_list: "tag_as_str t \<in> set thread_event_kind_tags"
  by (cases t) (simp_all add: thread_event_kind_tags_def)

lemma known_tag_iff: "is_known_thread_event_kind_tag s \<longleftrightarrow> (\<exists>t. s = tag_as_str t)"
  by (auto simp: is_known_thread_event_kind_tag_def tag_from_str_as_str
      dest: tag_from_str_Inr split: sum.splits)

section \<open>The filter\<close>

lemma collect_kinds_spec:
  "collect_kinds kinds requested invalid =
     (requested \<union> {t. tag_as_str t \<in> normalize_kind ` set kinds},
      invalid @ filter (\<lambda>n. n \<noteq> [] \<and> \<not> is_known_thread_event_kind_tag n)
        (map normalize_kind kinds))"
proof (induction kinds requested invalid rule: collect_kinds.induct)
  case (1 requested invalid)
  then show ?case by simp
next
  case (2 kind kinds requested invalid)
  let ?n = "normalize_kind kind"
  have nonempty: "tag_as_str t \<noteq> []" for t by (cases t) simp_all
  show ?case
  proof (cases "?n = []")
    case True
    with 2(1) nonempty show ?thesis by (auto simp: Let_def)
  next
    case n: False
    show ?thesis
    proof (cases "tag_from_str ?n")
      case (Inl e)
      then have unknown: "\<not> is_known_thread_event_kind_tag ?n"
        by (simp add: is_known_thread_event_kind_tag_def)
      then have "tag_as_str t \<noteq> ?n" for t by (metis known_tag_iff)
      with unknown 2(2) [OF refl n Inl] n Inl show ?thesis
        by (auto simp: Let_def)
    next
      case (Inr t)
      then have "?n = tag_as_str t" by (rule tag_from_str_Inr)
      with 2(3) [OF refl n Inr] n Inr show ?thesis
        by (auto simp: Let_def known_tag_iff dest: tag_as_str_inject)
    qed
  qed
qed

lemma sorted_distinct_remdups_adj:
  fixes xs :: "'a :: linorder list"
  shows "sorted xs \<Longrightarrow> distinct (remdups_adj xs)"
proof (induction xs rule: remdups_adj.induct)
  case (3 x y xs)
  then show ?case by (cases "x = y") (auto dest: antisym)
qed simp_all

lemma sort_dedup: "remdups_adj (sort xs) = sorted_list_of_set (set xs)"
  by (rule sorted_distinct_set_unique)
    (simp_all add: sorted_remdups_adj remdups_adj_set sorted_distinct_remdups_adj)

text \<open>
  The events filter accepts exactly the requests all of whose non-empty names, trimmed
  and lower-cased, are tag names, and then yields the tags named; otherwise it reports the
  unknown names, sorted and without repetition.
\<close>

theorem normalize_filter_correct:
  "normalize_thread_event_kind_filter kinds =
     (let names = normalize_kind ` set kinds;
          bad = {n \<in> names. n \<noteq> [] \<and> \<not> is_known_thread_event_kind_tag n}
      in if bad = {} then Inr {t. tag_as_str t \<in> names} else Inl (sorted_list_of_set bad))"
proof -
  let ?names = "normalize_kind ` set kinds"
  let ?bad = "{n \<in> ?names. n \<noteq> [] \<and> \<not> is_known_thread_event_kind_tag n}"
  let ?invalid = "filter (\<lambda>n. n \<noteq> [] \<and> \<not> is_known_thread_event_kind_tag n)
    (map normalize_kind kinds)"
  have "set ?invalid = ?bad" by auto
  then have dedup: "remdups_adj (sort ?invalid) = sorted_list_of_set ?bad"
    by (simp only: sort_dedup)
  have "finite ?bad" by simp
  then have "sorted_list_of_set ?bad = [] \<longleftrightarrow> ?bad = {}"
    by (rule sorted_list_of_set_eq_Nil_iff)
  with dedup show ?thesis
    by (simp only: normalize_thread_event_kind_filter_def collect_kinds_spec Let_def
        prod.case append_Nil Un_empty_left)
qed

text \<open>
  Printing a tag and parsing it back gives the tag, only printed tags parse, and the
  published list of tag names is exactly the set of printed tags, each once.
\<close>

theorem event_tag_roundtrip:
  "tag_from_str (tag_as_str t) = Inr t \<and>
   (tag_from_str s = Inr t \<longleftrightarrow> s = tag_as_str t) \<and>
   set thread_event_kind_tags = range tag_as_str \<and> distinct thread_event_kind_tags"
proof (intro conjI)
  show "tag_from_str (tag_as_str t) = Inr t" by (rule tag_from_str_as_str)
  show "tag_from_str s = Inr t \<longleftrightarrow> s = tag_as_str t"
    by (auto simp: tag_from_str_as_str dest: tag_from_str_Inr)
  have "is_known_thread_event_kind_tag s" if "s \<in> set thread_event_kind_tags" for s
    using that
    by (auto simp: thread_event_kind_tags_def is_known_thread_event_kind_tag_def
        tag_from_str_def)
  then show "set thread_event_kind_tags = range tag_as_str"
    by (auto simp: tag_as_str_in_list known_tag_iff)
  show "distinct thread_event_kind_tags"
    by (simp add: thread_event_kind_tags_def)
qed

end
