(* ===== verification/ThreadReplay.thy ===== *)
theory ThreadReplay
  imports ThreadState
begin

text \<open>
  What a replayed thread state says about the log it was replayed from
  (\<open>ThreadState::apply\<close> of \<open>crates/eventlog/src/lib.rs\<close>): the invariant of the state,
  contiguity of the log, the discipline of turns, the pending approvals and running
  processes as functions of the history, and exact token accounting.
\<close>

interpretation rp: fallible_fold apply_event replay
  by unfold_locales simp_all

section \<open>The invariant of a thread state\<close>

definition flags_wf :: "thread_state \<Rightarrow> bool" where
  "flags_wf s \<longleftrightarrow>
     st_archived s = (st_archived_at s \<noteq> None) \<and>
     (st_archived_at s = None \<longrightarrow> st_archived_reason s = None) \<and>
     st_paused s = (st_paused_at s \<noteq> None) \<and>
     (st_paused_at s = None \<longrightarrow> st_paused_reason s = None)"

definition turn_wf :: "thread_state \<Rightarrow> bool" where
  "turn_wf s \<longleftrightarrow>
     (st_active_turn_id s = None \<longrightarrow> \<not> st_interrupt_requested s) \<and>
     (\<not> st_interrupt_requested s \<longrightarrow> st_interrupt_reason s = None)"

definition last_turn_wf :: "thread_state \<Rightarrow> bool" where
  "last_turn_wf s \<longleftrightarrow>
     (st_last_turn_id s = None) = (st_last_turn_status s = None) \<and>
     (st_last_turn_id s = None \<longrightarrow> st_last_turn_reason s = None)"

definition prompt_wf :: "thread_state \<Rightarrow> bool" where
  "prompt_wf s \<longleftrightarrow> (st_system_prompt_sha256 s = None) = (st_system_prompt_text s = None)"

definition processes_wf :: "thread_state \<Rightarrow> bool" where
  "processes_wf s \<longleftrightarrow> st_running_processes s \<inter> st_failed_processes s = {}"

definition usage_wf :: "thread_state \<Rightarrow> bool" where
  "usage_wf s \<longleftrightarrow> (\<forall>rid \<in> st_counted_usage_response_ids s. trim rid = rid \<and> rid \<noteq> [])"

definition state_wf :: "thread_state \<Rightarrow> bool" where
  "state_wf s \<longleftrightarrow> flags_wf s \<and> turn_wf s \<and> last_turn_wf s \<and> prompt_wf s \<and>
     processes_wf s \<and> usage_wf s"

lemmas state_wf_defs =
  flags_wf_def turn_wf_def last_turn_wf_def prompt_wf_def processes_wf_def

lemma new_state_wf: "state_wf (new_state tid)"
  by (simp add: state_wf_def state_wf_defs usage_wf_def new_state_def)

text \<open>Token accounting writes the usage fields only, a configuration update the configuration.\<close>

lemma record_token_usage_other [simp]:
  "st_thread_id (record_token_usage s rid u) = st_thread_id s"
  "st_last_seq (record_token_usage s rid u) = st_last_seq s"
  "st_archived (record_token_usage s rid u) = st_archived s"
  "st_archived_at (record_token_usage s rid u) = st_archived_at s"
  "st_archived_reason (record_token_usage s rid u) = st_archived_reason s"
  "st_paused (record_token_usage s rid u) = st_paused s"
  "st_paused_at (record_token_usage s rid u) = st_paused_at s"
  "st_paused_reason (record_token_usage s rid u) = st_paused_reason s"
  "st_active_turn_id (record_token_usage s rid u) = st_active_turn_id s"
  "st_interrupt_requested (record_token_usage s rid u) = st_interrupt_requested s"
  "st_interrupt_reason (record_token_usage s rid u) = st_interrupt_reason s"
  "st_last_turn_id (record_token_usage s rid u) = st_last_turn_id s"
  "st_last_turn_status (record_token_usage s rid u) = st_last_turn_status s"
  "st_last_turn_reason (record_token_usage s rid u) = st_last_turn_reason s"
  "st_pending_approvals (record_token_usage s rid u) = st_pending_approvals s"
  "st_running_processes (record_token_usage s rid u) = st_running_processes s"
  "st_failed_processes (record_token_usage s rid u) = st_failed_processes s"
  "st_system_prompt_sha256 (record_token_usage s rid u) = st_system_prompt_sha256 s"
  "st_system_prompt_text (record_token_usage s rid u) = st_system_prompt_text s"
  by (simp_all add: record_token_usage_def add_usage_def split: option.split)

lemma apply_config_other [simp]:
  "st_thread_id (apply_config c s) = st_thread_id s"
  "st_last_seq (apply_config c s) = st_last_seq s"
  "st_archived (apply_config c s) = st_archived s"
  "st_archived_at (apply_config c s) = st_archived_at s"
  "st_archived_reason (apply_config c s) = st_archived_reason s"
  "st_paused (apply_config c s) = st_paused s"
  "st_paused_at (apply_config c s) = st_paused_at s"
  "st_paused_reason (apply_config c s) = st_paused_reason s"
  "st_active_turn_id (apply_config c s) = st_active_turn_id s"
  "st_interrupt_requested (apply_config c s) = st_interrupt_requested s"
  "st_interrupt_reason (apply_config c s) = st_interrupt_reason s"
  "st_last_turn_id (apply_config c s) = st_last_turn_id s"
  "st_last_turn_status (apply_config c s) = st_last_turn_status s"
  "st_last_turn_reason (apply_config c s) = st_last_turn_reason s"
  "st_pending_approvals (apply_config c s) = st_pending_approvals s"
  "st_running_processes (apply_config c s) = st_running_processes s"
  "st_failed_processes (apply_config c s) = st_failed_processes s"
  "st_system_prompt_sha256 (apply_config c s) = st_system_prompt_sha256 s"
  "st_system_prompt_text (apply_config c s) = st_system_prompt_text s"
  "st_total_tokens_used (apply_config c s) = st_total_tokens_used s"
  "st_input_tokens_used (apply_config c s) = st_input_tokens_used s"
  "st_output_tokens_used (apply_config c s) = st_output_tokens_used s"
  "st_cache_input_tokens_used (apply_config c s) = st_cache_input_tokens_used s"
  "st_cache_creation_input_tokens_used (apply_config c s) = st_cache_creation_input_tokens_used s"
  "st_counted_usage_response_ids (apply_config c s) = st_counted_usage_response_ids s"
  by (simp_all add: apply_config_def)

text \<open>A prompt snapshot is accepted exactly when it repeats what is already recorded.\<close>

lemma apply_kind_snapshot [simp]:
  "apply_kind t (ThreadSystemPromptSnapshot sha txt src) s = Inr s' \<longleftrightarrow>
     st_system_prompt_sha256 s \<in> {None, Some sha} \<and> st_system_prompt_text s \<in> {None, Some txt} \<and>
     s' = s\<lparr>st_system_prompt_sha256 := Some sha, st_system_prompt_text := Some txt\<rparr>"
  by (cases "st_system_prompt_sha256 s"; cases "st_system_prompt_text s") auto

declare apply_kind.simps(2) [simp del]

lemma record_token_usage_usage_wf: "usage_wf s \<Longrightarrow> usage_wf (record_token_usage s rid u)"
  by (auto simp: record_token_usage_def add_usage_def usable_response_id_def usage_wf_def
      split: option.splits if_splits)

lemma apply_kind_flags_wf: "flags_wf s \<Longrightarrow> apply_kind t k s = Inr s' \<Longrightarrow> flags_wf s'"
  by (cases k) (clarsimp simp: flags_wf_def split: if_splits)+

lemma apply_kind_turn_wf: "turn_wf s \<Longrightarrow> apply_kind t k s = Inr s' \<Longrightarrow> turn_wf s'"
  by (cases k) (auto simp: turn_wf_def split: option.splits if_splits)

lemma apply_kind_last_turn_wf: "last_turn_wf s \<Longrightarrow> apply_kind t k s = Inr s' \<Longrightarrow> last_turn_wf s'"
  by (cases k) (auto simp: last_turn_wf_def split: option.splits if_splits)

lemma apply_kind_prompt_wf: "prompt_wf s \<Longrightarrow> apply_kind t k s = Inr s' \<Longrightarrow> prompt_wf s'"
  by (cases k) (auto simp: prompt_wf_def split: if_splits)

lemma apply_kind_processes_wf: "processes_wf s \<Longrightarrow> apply_kind t k s = Inr s' \<Longrightarrow> processes_wf s'"
  by (cases k) (auto simp: processes_wf_def split: option.splits if_splits)

lemma apply_kind_usage_wf: "usage_wf s \<Longrightarrow> apply_kind t k s = Inr s' \<Longrightarrow> usage_wf s'"
proof (cases k)
  case (AgentStep p)
  then show "usage_wf s \<Longrightarrow> apply_kind t k s = Inr s' \<Longrightarrow> usage_wf s'"
    by (auto simp: record_token_usage_usage_wf)
next
  case (AssistantMessage p)
  then show "usage_wf s \<Longrightarrow> apply_kind t k s = Inr s' \<Longrightarrow> usage_wf s'"
    by (auto simp: record_token_usage_usage_wf)
qed (clarsimp simp: usage_wf_def split: if_splits)+

lemma apply_kind_wf: "state_wf s \<Longrightarrow> apply_kind t k s = Inr s' \<Longrightarrow> state_wf s'"
  unfolding state_wf_def
  by (blast intro: apply_kind_flags_wf apply_kind_turn_wf apply_kind_last_turn_wf
      apply_kind_prompt_wf apply_kind_processes_wf apply_kind_usage_wf)

lemma last_seq_wf [simp]: "state_wf (s\<lparr>st_last_seq := n\<rparr>) = state_wf s"
  by (simp only: state_wf_def) (simp add: state_wf_defs usage_wf_def)

lemma apply_event_Inr:
  "apply_event e s = Inr s' \<longleftrightarrow>
     ev_thread_id e = st_thread_id s \<and> ev_seq e = st_last_seq s + 1 \<and>
     (\<exists>m. apply_kind (ev_timestamp e) (ev_kind e) s = Inr m \<and> s' = m\<lparr>st_last_seq := ev_seq e\<rparr>)"
  by (auto simp: apply_event_def rbind_eq_Inr)

lemma apply_event_wf: "apply_event e s = Inr s' \<Longrightarrow> state_wf s \<Longrightarrow> state_wf s'"
  by (auto simp: apply_event_Inr intro: apply_kind_wf)

text \<open>
  C39: every state that a replay of events reaches from a well-formed state is well-formed:
  the archive and pause flags agree with their timestamps and reasons, an interrupt is only
  pending for an active turn, the last turn's status is present with its id, prompt hash and
  text come together, and no process is both running and failed.
\<close>

theorem replay_preserves_wf:
  assumes "state_wf s" and "replay es s = Inr s'"
  shows "state_wf s'"
  by (rule rp.run_invariant [OF assms(2), of state_wf]) (auto simp: assms(1) dest: apply_event_wf)

section \<open>Contiguity\<close>

lemma apply_kind_thread_id [simp]:
  "apply_kind t k s = Inr s' \<Longrightarrow> st_thread_id s' = st_thread_id s"
  by (cases k) (auto split: option.splits if_splits)

lemma apply_event_ids:
  assumes "apply_event e s = Inr s'"
  shows "st_thread_id s' = st_thread_id s" "st_last_seq s' = ev_seq e"
    "ev_thread_id e = st_thread_id s" "ev_seq e = st_last_seq s + 1"
  using assms by (auto simp: apply_event_Inr)

lemma replay_ids:
  assumes "replay es s = Inr s'"
  shows "st_thread_id s' = st_thread_id s \<and> st_last_seq s' = st_last_seq s + of_nat (length es) \<and>
    (\<forall>i < length es. ev_seq (es ! i) = st_last_seq s + of_nat (Suc i) \<and>
       ev_thread_id (es ! i) = st_thread_id s)"
  using assms
proof (induction es arbitrary: s)
  case Nil
  then show ?case by simp
next
  case (Cons e es)
  then obtain m where m: "apply_event e s = Inr m" "replay es m = Inr s'"
    by (auto simp: rbind_eq_Inr)
  note ids = apply_event_ids [OF m(1)]
  note IH = Cons.IH [OF m(2)]
  have "ev_seq ((e # es) ! i) = st_last_seq s + of_nat (Suc i) \<and>
      ev_thread_id ((e # es) ! i) = st_thread_id s" if "i < length (e # es)" for i
    using that IH ids by (cases i) (auto simp: algebra_simps)
  with IH ids show ?case by (auto simp: algebra_simps)
qed

text \<open>
  A log that replays from an empty thread is numbered 1, 2, 3 and so on without a gap,
  every event belongs to the thread, and the state's last sequence number is the number of
  events. (The bound says the 64-bit counter has not wrapped.)
\<close>

theorem replay_contiguous:
  assumes "replay es (new_state tid) = Inr s" and "length es < 2 ^ 64"
  shows "unat (st_last_seq s) = length es \<and>
    (\<forall>i < length es. unat (ev_seq (es ! i)) = Suc i \<and> ev_thread_id (es ! i) = tid)"
proof -
  have "unat (of_nat n :: u64) = n" if "n \<le> length es" for n
    using that assms(2) by (simp add: unsigned_of_nat take_bit_nat_eq_self)
  with replay_ids [OF assms(1)] show ?thesis
    by (auto simp: new_state_def event_seq_zero_def simp del: of_nat_Suc)
qed

section \<open>Turns\<close>

fun started_turn :: "thread_event_kind \<Rightarrow> turn_id option" where
  "started_turn (TurnStarted p) = Some (tsp_turn_id p)"
| "started_turn _ = None"

fun completed_turn :: "thread_event_kind \<Rightarrow> turn_id option" where
  "completed_turn (TurnCompleted tid _ _) = Some tid"
| "completed_turn _ = None"

definition turn_step :: "turn_id option \<Rightarrow> thread_event_kind \<Rightarrow> turn_id option" where
  "turn_step active k =
     (case started_turn k of Some t \<Rightarrow> Some t
      | None \<Rightarrow> if completed_turn k = None then active else None)"

lemma apply_kind_turn:
  assumes "apply_kind t k s = Inr s'"
  shows "st_active_turn_id s' = turn_step (st_active_turn_id s) k \<and>
    (started_turn k \<noteq> None \<longrightarrow> st_active_turn_id s = None) \<and>
    (\<forall>tid. completed_turn k = Some tid \<longrightarrow> st_active_turn_id s = Some tid)"
  using assms
  by (cases k) (auto simp: turn_step_def split: option.splits if_splits)

lemma apply_event_turn:
  assumes "apply_event e s = Inr s'"
  shows "st_active_turn_id s' = turn_step (st_active_turn_id s) (ev_kind e)"
    "started_turn (ev_kind e) \<noteq> None \<Longrightarrow> st_active_turn_id s = None"
    "completed_turn (ev_kind e) = Some tid \<Longrightarrow> st_active_turn_id s = Some tid"
  using assms by (auto simp: apply_event_Inr dest: apply_kind_turn)

lemma active_turn_kept:
  assumes "replay es s = Inr s'" and "st_active_turn_id s = Some t"
    and "\<forall>e \<in> set es. completed_turn (ev_kind e) \<noteq> Some t"
  shows "st_active_turn_id s' = Some t"
proof (rule rp.run_invariant [OF assms(1), of "\<lambda>s. st_active_turn_id s = Some t"])
  fix e s s'
  assume e: "e \<in> set es" "st_active_turn_id s = Some t" "apply_event e s = Inr s'"
  note T = apply_event_turn [OF e(3)]
  have "started_turn (ev_kind e) = None"
    using T(2) e(2) by (cases "started_turn (ev_kind e)") auto
  moreover have "completed_turn (ev_kind e) = None"
    using T(3) e(1,2) assms(3) by (cases "completed_turn (ev_kind e)") auto
  ultimately show "st_active_turn_id s' = Some t"
    using T(1) e(2) by (simp add: turn_step_def)
qed (rule assms(2))

text \<open>
  Turns never overlap. In a log that replays, between two turn starts there is a
  completion of the first of the two turns.
\<close>

theorem turns_do_not_overlap:
  assumes "replay (xs @ e1 # ys @ e2 # zs) s = Inr s'"
    and "started_turn (ev_kind e1) = Some t1" and "started_turn (ev_kind e2) = Some t2"
  shows "\<exists>y \<in> set ys. completed_turn (ev_kind y) = Some t1"
proof (rule ccontr)
  assume none: "\<not> ?thesis"
  from rp.run_appendD [OF assms(1)] obtain a where "replay (e1 # ys @ e2 # zs) a = Inr s'"
    by blast
  then obtain b where b: "apply_event e1 a = Inr b" "replay (ys @ e2 # zs) b = Inr s'"
    by (auto simp: rbind_eq_Inr)
  from rp.run_appendD [OF b(2)] obtain c d where
    c: "replay ys b = Inr c" and d: "apply_event e2 c = Inr d"
    by (auto simp: rbind_eq_Inr)
  have "st_active_turn_id b = Some t1"
    using apply_event_turn(1) [OF b(1)] assms(2) by (simp add: turn_step_def)
  with c none have "st_active_turn_id c = Some t1"
    using active_turn_kept by blast
  moreover have "st_active_turn_id c = None"
    using apply_event_turn(2) [OF d] assms(3) by simp
  ultimately show False by simp
qed

section \<open>Pending approvals and running processes\<close>

fun requested_approvals :: "thread_event_kind \<Rightarrow> approval_id set" where
  "requested_approvals (ApprovalRequested aid _ _ _) = {aid}"
| "requested_approvals _ = {}"

fun decided_approvals :: "thread_event_kind \<Rightarrow> approval_id set" where
  "decided_approvals (ApprovalDecided aid _ _ _) = {aid}"
| "decided_approvals _ = {}"

fun started_processes :: "thread_event_kind \<Rightarrow> process_id set" where
  "started_processes (ProcessStarted p) = {psp_process_id p}"
| "started_processes _ = {}"

fun exited_processes :: "thread_event_kind \<Rightarrow> process_id set" where
  "exited_processes (ProcessExited pid _ _) = {pid}"
| "exited_processes _ = {}"

lemma apply_kind_tracked:
  assumes "apply_kind t k s = Inr s'"
  shows "st_pending_approvals s' =
      (st_pending_approvals s - decided_approvals k) \<union> requested_approvals k"
    "st_running_processes s' =
      (st_running_processes s - exited_processes k) \<union> started_processes k"
  using assms by (cases k; clarsimp split: if_splits)+

lemma replay_tracked:
  assumes "replay es s = Inr s'"
  shows "st_pending_approvals s' =
      track (requested_approvals \<circ> ev_kind) (decided_approvals \<circ> ev_kind) es
        (st_pending_approvals s) \<and>
    st_running_processes s' =
      track (started_processes \<circ> ev_kind) (exited_processes \<circ> ev_kind) es
        (st_running_processes s)"
  using assms
proof (induction es arbitrary: s)
  case Nil
  then show ?case by simp
next
  case (Cons e es)
  then obtain m where m: "apply_event e s = Inr m" "replay es m = Inr s'"
    by (auto simp: rbind_eq_Inr)
  then obtain n where "apply_kind (ev_timestamp e) (ev_kind e) s = Inr n"
    "m = n\<lparr>st_last_seq := ev_seq e\<rparr>" by (auto simp: apply_event_Inr)
  with apply_kind_tracked [of "ev_timestamp e" "ev_kind e" s n] Cons.IH [OF m(2)]
  show ?case by simp
qed

text \<open>
  C32: after a replay from an empty thread an approval is pending iff the log requests it and
  no later event decides it, and a process is running iff the log starts it and no later
  event reports its exit.
\<close>

theorem pending_iff_undecided:
  assumes "replay es (new_state tid) = Inr s"
  shows "(aid \<in> st_pending_approvals s \<longleftrightarrow>
      opened (requested_approvals \<circ> ev_kind) (decided_approvals \<circ> ev_kind) es aid) \<and>
    (pid \<in> st_running_processes s \<longleftrightarrow>
      opened (started_processes \<circ> ev_kind) (exited_processes \<circ> ev_kind) es pid)"
  using replay_tracked [OF assms] by (simp add: track_iff_opened new_state_def)

section \<open>The system prompt\<close>

lemma apply_kind_prompt_kept:
  assumes "apply_kind t k s = Inr s'"
  shows "st_system_prompt_sha256 s = Some h \<Longrightarrow> st_system_prompt_sha256 s' = Some h"
    "st_system_prompt_text s = Some x \<Longrightarrow> st_system_prompt_text s' = Some x"
  using assms by (cases k; clarsimp split: if_splits)+

text \<open>
  The system prompt is written once: all prompt snapshots of a log that replays agree in
  hash and text, and the final state holds them.
\<close>

theorem system_prompt_write_once:
  assumes "replay (xs @ e # ys) s = Inr s'"
    and "ev_kind e = ThreadSystemPromptSnapshot sha txt src"
  shows "st_system_prompt_sha256 s' = Some sha \<and> st_system_prompt_text s' = Some txt"
proof -
  from rp.run_appendD [OF assms(1)] obtain a b where
    b: "apply_event e a = Inr b" "replay ys b = Inr s'"
    by (auto simp: rbind_eq_Inr)
  let ?P = "\<lambda>s. st_system_prompt_sha256 s = Some sha \<and> st_system_prompt_text s = Some txt"
  have "?P b" using b(1) assms(2) by (auto simp: apply_event_Inr)
  then show ?thesis
    by (rule rp.run_invariant [OF b(2), of ?P])
      (auto simp: apply_event_Inr dest: apply_kind_prompt_kept)
qed

section \<open>Token accounting\<close>

definition sample_of :: "string option \<Rightarrow> json option \<Rightarrow> (string option \<times> json) list" where
  "sample_of rid u =
     (case u of
        Some v \<Rightarrow> if usage_is_empty v then [] else [(usable_response_id rid, v)]
      | None \<Rightarrow> [])"

fun usage_sample :: "thread_event_kind \<Rightarrow> (string option \<times> json) list" where
  "usage_sample (AgentStep p) = sample_of (Some (asp_response_id p)) (asp_token_usage p)"
| "usage_sample (AssistantMessage p) = sample_of (amp_response_id p) (amp_token_usage p)"
| "usage_sample _ = []"

text \<open>The samples that count: all without a response id, the first of each response id.\<close>

fun counted_samples :: "string set \<Rightarrow> (string option \<times> json) list \<Rightarrow> json list" where
  "counted_samples seen [] = []"
| "counted_samples seen ((None, u) # xs) = u # counted_samples seen xs"
| "counted_samples seen ((Some rid, u) # xs) =
     (if rid \<in> seen then counted_samples seen xs else u # counted_samples (insert rid seen) xs)"

text \<open>The five counters of the state, each with the usage field it adds up.\<close>

definition usage_counters :: "((thread_state \<Rightarrow> u64) \<times> (json \<Rightarrow> u64 option)) list" where
  "usage_counters =
     [(st_total_tokens_used, usage_total_tokens), (st_input_tokens_used, usage_input_tokens),
      (st_output_tokens_used, usage_output_tokens),
      (st_cache_input_tokens_used, usage_cache_input_tokens),
      (st_cache_creation_input_tokens_used, usage_cache_creation_input_tokens)]"

definition tokens_of :: "u64 option \<Rightarrow> nat" where
  "tokens_of n = (case n of None \<Rightarrow> 0 | Some k \<Rightarrow> unat k)"

lemma unat_add_tokens: "unat (add_tokens used n) = min (unat used + tokens_of n) (2 ^ 64 - 1)"
  using unat_u64_less [of used]
  by (auto simp: add_tokens_def tokens_of_def unat_saturating_add split: option.splits)

lemma unat_fold_add_tokens:
  "unat (fold (\<lambda>u n. add_tokens n (fld u)) us used) =
     min (unat used + sum_list (map (\<lambda>u. tokens_of (fld u)) us)) (2 ^ 64 - 1)"
proof (induction us arbitrary: used)
  case Nil
  then show ?case using unat_u64_less [of used] by simp
next
  case (Cons u us)
  then show ?case by (simp add: unat_add_tokens min_def)
qed

definition sample_ids :: "(string option \<times> json) list \<Rightarrow> string set" where
  "sample_ids xs = {rid. Some rid \<in> fst ` set xs}"

lemma counted_samples_append:
  "counted_samples seen (xs @ ys) =
     counted_samples seen xs @ counted_samples (seen \<union> sample_ids xs) ys"
  by (induction seen xs rule: counted_samples.induct)
    (auto simp: sample_ids_def image_iff insert_absorb insert_commute
      intro!: arg_cong [where f = "\<lambda>s. counted_samples s ys"])

lemma record_token_usage_ids:
  "st_counted_usage_response_ids (record_token_usage s rid u) =
     st_counted_usage_response_ids s \<union> sample_ids (sample_of rid u)"
proof (cases u)
  case (Some v)
  then show ?thesis
    by (cases "usage_is_empty v"; cases "usable_response_id rid")
      (auto simp: record_token_usage_def add_usage_def sample_ids_def sample_of_def)
qed (simp add: record_token_usage_def sample_ids_def sample_of_def)

lemma record_token_usage_counter:
  assumes "(get, fld) \<in> set usage_counters"
  shows "get (record_token_usage s rid u) = fold (\<lambda>u n. add_tokens n (fld u))
      (counted_samples (st_counted_usage_response_ids s) (sample_of rid u)) (get s)"
proof (cases u)
  case (Some v)
  have "get (add_usage v (s\<lparr>st_counted_usage_response_ids := A\<rparr>)) = add_tokens (get s) (fld v)"
    "get (add_usage v s) = add_tokens (get s) (fld v)" for A
    using assms by (auto simp: usage_counters_def add_usage_def)
  with Some show ?thesis
    by (cases "usage_is_empty v"; cases "usable_response_id rid")
      (simp_all add: record_token_usage_def sample_of_def)
qed (simp add: record_token_usage_def sample_of_def)

lemma apply_kind_counters_kept:
  assumes "apply_kind t k s = Inr s'" and "\<forall>p. k \<noteq> AgentStep p" and "\<forall>p. k \<noteq> AssistantMessage p"
  shows "st_total_tokens_used s' = st_total_tokens_used s"
    "st_input_tokens_used s' = st_input_tokens_used s"
    "st_output_tokens_used s' = st_output_tokens_used s"
    "st_cache_input_tokens_used s' = st_cache_input_tokens_used s"
    "st_cache_creation_input_tokens_used s' = st_cache_creation_input_tokens_used s"
  using assms by (cases k; clarsimp split: if_splits)+

lemma apply_kind_counter:
  assumes "(get, fld) \<in> set usage_counters" and "apply_kind t k s = Inr s'"
  shows "get s' = fold (\<lambda>u n. add_tokens n (fld u))
      (counted_samples (st_counted_usage_response_ids s) (usage_sample k)) (get s)"
proof -
  consider p where "k = AgentStep p" | p where "k = AssistantMessage p"
    | "\<forall>p. k \<noteq> AgentStep p" "\<forall>p. k \<noteq> AssistantMessage p" by blast
  then show ?thesis
  proof cases
    case 3
    then have "usage_sample k = []" by (cases k) simp_all
    with apply_kind_counters_kept [OF assms(2) 3] assms(1) show ?thesis
      by (auto simp: usage_counters_def)
  qed (use assms record_token_usage_counter [OF assms(1)] in auto)
qed

lemma apply_kind_ids:
  assumes "apply_kind t k s = Inr s'"
  shows "st_counted_usage_response_ids s' =
      st_counted_usage_response_ids s \<union> sample_ids (usage_sample k)"
  using assms
  by (cases k) (clarsimp simp: sample_ids_def record_token_usage_ids split: if_splits)+

definition usage_samples :: "thread_event list \<Rightarrow> (string option \<times> json) list" where
  "usage_samples es = concat (map (usage_sample \<circ> ev_kind) es)"

lemma replay_counter:
  assumes "(get, fld) \<in> set usage_counters" and "replay es s = Inr s'"
  shows "get s' = fold (\<lambda>u n. add_tokens n (fld u))
      (counted_samples (st_counted_usage_response_ids s) (usage_samples es)) (get s)"
  using assms(2)
proof (induction es arbitrary: s)
  case Nil
  then show ?case by (simp add: usage_samples_def)
next
  case (Cons e es)
  then obtain m where m: "apply_event e s = Inr m" "replay es m = Inr s'"
    by (auto simp: rbind_eq_Inr)
  then obtain n where n: "apply_kind (ev_timestamp e) (ev_kind e) s = Inr n"
    "m = n\<lparr>st_last_seq := ev_seq e\<rparr>" by (auto simp: apply_event_Inr)
  have "get m = get n" using assms(1) n(2) by (auto simp: usage_counters_def)
  with Cons.IH [OF m(2)] apply_kind_counter [OF assms(1) n(1)] apply_kind_ids [OF n(1)] n(2)
  show ?case by (simp add: usage_samples_def counted_samples_append)
qed

text \<open>
  Token accounting is exact and counts every response once: after a replay from an empty
  thread each of the five counters is the sum of its usage field over the counted samples of
  the log (all samples without a response id, and the first sample of each trimmed response
  id), saturated at the largest 64-bit value.
\<close>

theorem token_totals_exact:
  assumes "replay es (new_state tid) = Inr s" and "(get, fld) \<in> set usage_counters"
  shows "unat (get s) =
    min (\<Sum>u\<leftarrow>counted_samples {} (usage_samples es). tokens_of (fld u)) (2 ^ 64 - 1)"
proof -
  have "get (new_state tid) = 0" "st_counted_usage_response_ids (new_state tid) = {}"
    using assms(2) by (auto simp: usage_counters_def new_state_def)
  with replay_counter [OF assms(2,1)] show ?thesis
    by (simp add: unat_fold_add_tokens)
qed

section \<open>A sample log\<close>

definition sample_thread :: thread_id where
  "sample_thread = ThreadId 7"

definition sample_event :: "event_seq \<Rightarrow> thread_event_kind \<Rightarrow> thread_event" where
  "sample_event n k =
     \<lparr>ev_seq = n, ev_timestamp = 1000, ev_thread_id = sample_thread, ev_kind = k\<rparr>"

definition sample_turn :: "turn_id \<Rightarrow> thread_event_kind" where
  "sample_turn t = TurnStarted \<lparr>tsp_turn_id = t, tsp_input = ''hi'', tsp_context_refs = None,
     tsp_attachments = None, tsp_directives = None, tsp_priority = Foreground\<rparr>"

definition sample_step :: "string \<Rightarrow> u64 \<Rightarrow> thread_event_kind" where
  "sample_step rid n = AgentStep \<lparr>asp_turn_id = TurnId 1, asp_step = 0, asp_model = ''m'',
     asp_response_id = rid, asp_text = None, asp_tool_calls = [], asp_tool_results = [],
     asp_token_usage = Some (JObject [(''total_tokens'', JNumber (PosInt n))]),
     asp_warnings_count = None\<rparr>"

definition sample_prefix :: "thread_event list" where
  "sample_prefix =
     [sample_event 1 (ThreadCreated ''/w''),
      sample_event 2 (ThreadSystemPromptSnapshot ''h'' ''p'' None)]"

definition sample_middle :: "thread_event list" where
  "sample_middle =
     [sample_event 4 (ApprovalRequested (ApprovalId 5) (Some (TurnId 1)) ''a'' JNull),
      sample_event 5 (sample_step ''r1'' 40),
      sample_event 6 (sample_step '' r1 '' 40),
      sample_event 7 (TurnCompleted (TurnId 1) TurnStatusCompleted None)]"

definition sample_suffix :: "thread_event list" where
  "sample_suffix =
     [sample_event 9 (sample_step ''r2'' 2),
      sample_event 10 (ThreadSystemPromptSnapshot ''h'' ''p'' None)]"

definition sample_log :: "thread_event list" where
  "sample_log =
     sample_prefix @ sample_event 3 (sample_turn (TurnId 1)) # sample_middle @
     sample_event 8 (sample_turn (TurnId 2)) # sample_suffix"

definition sample_state :: thread_state where
  "sample_state = projr (replay sample_log (new_state sample_thread))"

lemma sample_log_replays: "replay sample_log (new_state sample_thread) = Inr sample_state"
proof -
  have "\<not> isl (replay sample_log (new_state sample_thread))"
    by code_simp
  then show ?thesis by (simp add: sample_state_def)
qed

theorem replay_preserves_wf_witness: "state_wf sample_state"
  by (rule replay_preserves_wf [OF new_state_wf sample_log_replays])

theorem replay_contiguous_witness:
  "unat (st_last_seq sample_state) = 10 \<and> ev_thread_id (sample_log ! 9) = sample_thread"
proof -
  have n: "length sample_log = 10" by code_simp
  with replay_contiguous [OF sample_log_replays] show ?thesis by auto
qed

theorem turns_do_not_overlap_witness:
  "\<exists>y \<in> set sample_middle. completed_turn (ev_kind y) = Some (TurnId 1)"
  by (rule turns_do_not_overlap [OF sample_log_replays [unfolded sample_log_def],
        where ?t2.0 = "TurnId 2"])
    (simp_all add: sample_event_def sample_turn_def)

theorem pending_iff_undecided_witness:
  "opened (requested_approvals \<circ> ev_kind) (decided_approvals \<circ> ev_kind) sample_log (ApprovalId 5)"
proof -
  have "ApprovalId 5 \<in> st_pending_approvals sample_state"
    by code_simp
  with pending_iff_undecided [OF sample_log_replays] show ?thesis by blast
qed

theorem system_prompt_write_once_witness:
  "st_system_prompt_text sample_state = Some ''p''"
proof -
  have "\<exists>ys. sample_log = [sample_event 1 (ThreadCreated ''/w'')] @
      sample_event 2 (ThreadSystemPromptSnapshot ''h'' ''p'' None) # ys"
    by (simp add: sample_log_def sample_prefix_def)
  then obtain ys where log: "sample_log = [sample_event 1 (ThreadCreated ''/w'')] @
      sample_event 2 (ThreadSystemPromptSnapshot ''h'' ''p'' None) # ys" by blast
  have "ev_kind (sample_event 2 (ThreadSystemPromptSnapshot ''h'' ''p'' None)) =
      ThreadSystemPromptSnapshot ''h'' ''p'' None"
    by (simp add: sample_event_def)
  from system_prompt_write_once [OF sample_log_replays [unfolded log] this]
  show ?thesis by blast
qed

theorem token_totals_exact_witness:
  "unat (st_total_tokens_used sample_state) = 42"
proof -
  have c: "(st_total_tokens_used, usage_total_tokens) \<in> set usage_counters"
    by (simp add: usage_counters_def)
  have "(\<Sum>u\<leftarrow>counted_samples {} (usage_samples sample_log). tokens_of (usage_total_tokens u)) = 42"
    by code_simp
  with token_totals_exact [OF sample_log_replays c] show ?thesis by simp
qed

end
