(* ===== verification/EventLog.thy ===== *)
theory EventLog
  imports ThreadReplay
begin

text \<open>
  The log file of \<open>crates/eventlog/src/lib.rs\<close> at the level of its bytes: the two readers,
  the repair that opening a writer makes, and the append. A log file is absent or a byte
  string. \<open>serde_json\<close> is a pair of parameters: \<open>ser\<close>, which may fail, and \<open>de\<close>, which
  rejects what does not parse as an event. Directory creation, permissions and the file lock
  have no effect on the content; other input/output errors are not modelled.
\<close>

type_synonym log_file = "string option"
type_synonym serializer = "thread_event \<Rightarrow> string option"
type_synonym deserializer = "string \<Rightarrow> thread_event option"

datatype log_error =
    EventParseError
  | LogThreadIdMismatch thread_id thread_id
  | LogSeqNotContiguous event_seq event_seq
  | LogThreadIdMismatchAt nat thread_id thread_id
  | LogSeqNotContiguousAt nat event_seq event_seq
  | LogStateError state_error
  | EventSerializeError

definition newline :: char where
  "newline = CHR 0x0A"

text \<open>\<open>bytes.split(|b| *b == b'\n')\<close>: one piece more than there are newlines.\<close>

fun split_lines :: "string \<Rightarrow> string list" where
  "split_lines [] = [[]]"
| "split_lines (c # cs) =
     (if c = newline then [] # split_lines cs
      else (case split_lines cs of [] \<Rightarrow> [[c]] | l # ls \<Rightarrow> (c # l) # ls))"

definition ends_with_newline :: "string \<Rightarrow> bool" where
  "ends_with_newline bytes \<longleftrightarrow> bytes \<noteq> [] \<and> last bytes = newline"

section \<open>Readers\<close>

text \<open>The loop of \<open>read_events_since\<close>; \<open>complete\<close> is \<open>bytes.last() == Some(&b'\n')\<close>.\<close>

fun read_loop ::
  "deserializer \<Rightarrow> thread_id \<Rightarrow> event_seq \<Rightarrow> bool \<Rightarrow> string list \<Rightarrow> event_seq \<Rightarrow>
     thread_event list \<Rightarrow> log_error + thread_event list" where
  "read_loop de tid since complete [] expected out = Inr out"
| "read_loop de tid since complete (line # ls) expected out =
     (if line = [] then read_loop de tid since complete ls expected out
      else case de line of
        None \<Rightarrow> if \<not> complete then Inr out else Inl EventParseError
      | Some event \<Rightarrow>
          if ev_thread_id event \<noteq> tid
          then Inl (LogThreadIdMismatch tid (ev_thread_id event))
          else if ev_seq event \<noteq> expected
          then Inl (LogSeqNotContiguous expected (ev_seq event))
          else read_loop de tid since complete ls (ev_seq event + 1)
            (if since < ev_seq event then out @ [event] else out))"

definition read_events_since ::
  "deserializer \<Rightarrow> thread_id \<Rightarrow> log_file \<Rightarrow> event_seq \<Rightarrow> log_error + thread_event list" where
  "read_events_since de tid file since =
     (case file of
        None \<Rightarrow> Inr []
      | Some bytes \<Rightarrow>
          read_loop de tid since (ends_with_newline bytes) (split_lines bytes) 1 [])"

fun state_loop ::
  "deserializer \<Rightarrow> thread_id \<Rightarrow> bool \<Rightarrow> string list \<Rightarrow> event_seq \<Rightarrow> thread_state \<Rightarrow>
     log_error + thread_state" where
  "state_loop de tid complete [] expected s = Inr s"
| "state_loop de tid complete (line # ls) expected s =
     (if line = [] then state_loop de tid complete ls expected s
      else case de line of
        None \<Rightarrow> if \<not> complete then Inr s else Inl EventParseError
      | Some event \<Rightarrow>
          if ev_thread_id event \<noteq> tid
          then Inl (LogThreadIdMismatch tid (ev_thread_id event))
          else if ev_seq event \<noteq> expected
          then Inl (LogSeqNotContiguous expected (ev_seq event))
          else (case apply_event event s of
                  Inl e \<Rightarrow> Inl (LogStateError e)
                | Inr s' \<Rightarrow> state_loop de tid complete ls (ev_seq event + 1) s'))"

definition read_state :: "deserializer \<Rightarrow> thread_id \<Rightarrow> log_file \<Rightarrow> log_error + thread_state" where
  "read_state de tid file =
     (case file of
        None \<Rightarrow> Inr (new_state tid)
      | Some bytes \<Rightarrow>
          state_loop de tid (ends_with_newline bytes) (split_lines bytes) 1 (new_state tid))"

section \<open>Opening a writer\<close>

text \<open>The loop of \<open>sanitize_and_read_events\<close>: the events and \<open>last_good_len\<close>.\<close>

fun sanitize_loop ::
  "deserializer \<Rightarrow> thread_id \<Rightarrow> nat \<Rightarrow> bool \<Rightarrow> string list \<Rightarrow> nat \<Rightarrow> event_seq \<Rightarrow>
     thread_event list \<Rightarrow> log_error + thread_event list \<times> nat" where
  "sanitize_loop de tid nbytes complete [] idx expected events = Inr (events, nbytes)"
| "sanitize_loop de tid nbytes complete (line # ls) idx expected events =
     (if line = [] then sanitize_loop de tid nbytes complete ls (idx + 1) expected events
      else case de line of
        Some event \<Rightarrow>
          if ev_thread_id event \<noteq> tid
          then Inl (LogThreadIdMismatchAt (idx + 1) tid (ev_thread_id event))
          else if ev_seq event \<noteq> expected
          then Inl (LogSeqNotContiguousAt (idx + 1) expected (ev_seq event))
          else sanitize_loop de tid nbytes complete ls (idx + 1) (ev_seq event + 1)
            (events @ [event])
      | None \<Rightarrow>
          if \<not> complete then Inr (events, nbytes - length line) else Inl EventParseError)"

definition sanitize_and_read_events ::
  "deserializer \<Rightarrow> thread_id \<Rightarrow> log_file \<Rightarrow> log_error + thread_event list \<times> log_file" where
  "sanitize_and_read_events de tid file =
     (case file of
        None \<Rightarrow> Inr ([], None)
      | Some bytes \<Rightarrow>
          rbind (sanitize_loop de tid (length bytes) (ends_with_newline bytes)
              (split_lines bytes) 0 1 [])
            (\<lambda>(events, last_good_len).
               Inr (events,
                 Some (if last_good_len \<noteq> length bytes then take last_good_len bytes else bytes))))"

definition ensure_jsonl_record_boundary :: "log_file \<Rightarrow> log_file" where
  "ensure_jsonl_record_boundary file =
     (case file of
        None \<Rightarrow> None
      | Some bytes \<Rightarrow>
          if bytes = [] then Some bytes
          else if last bytes = newline then Some bytes
          else Some (bytes @ [newline]))"

record event_log_writer =
  w_thread_id :: thread_id
  w_next_seq :: u64

definition create_if_missing :: "log_file \<Rightarrow> log_file" where
  "create_if_missing file = (case file of None \<Rightarrow> Some [] | Some bytes \<Rightarrow> Some bytes)"

definition open_internal ::
  "deserializer \<Rightarrow> thread_id \<Rightarrow> log_file \<Rightarrow> bool \<Rightarrow>
     log_error + event_log_writer \<times> thread_event list option \<times> log_file" where
  "open_internal de tid file return_events =
     rbind (sanitize_and_read_events de tid file) (\<lambda>(events, sanitized).
       let bounded = ensure_jsonl_record_boundary sanitized;
           last_seq = (if events = [] then event_seq_zero else ev_seq (last events));
           created = create_if_missing bounded;
           writer = \<lparr>w_thread_id = tid, w_next_seq = last_seq + 1\<rparr>
       in Inr (writer, (if return_events then Some events else None), created))"

definition open_writer ::
  "deserializer \<Rightarrow> thread_id \<Rightarrow> log_file \<Rightarrow> log_error + event_log_writer \<times> log_file" where
  "open_writer de tid file =
     rbind (open_internal de tid file False) (\<lambda>(writer, _, file'). Inr (writer, file'))"

definition open_with_events ::
  "deserializer \<Rightarrow> thread_id \<Rightarrow> log_file \<Rightarrow>
     log_error + event_log_writer \<times> thread_event list \<times> log_file" where
  "open_with_events de tid file =
     rbind (open_internal de tid file True) (\<lambda>(writer, events, file').
       Inr (writer, (case events of Some es \<Rightarrow> es | None \<Rightarrow> []), file'))"

section \<open>Appending\<close>

definition file_bytes :: "log_file \<Rightarrow> string" where
  "file_bytes file = (case file of None \<Rightarrow> [] | Some bytes \<Rightarrow> bytes)"

text \<open>\<open>now\<close> is the clock's value. The file is open for append: bytes go to its end.\<close>

definition append_event ::
  "serializer \<Rightarrow> event_log_writer \<Rightarrow> timestamp \<Rightarrow> thread_event_kind \<Rightarrow> log_file \<Rightarrow>
     log_error + thread_event \<times> event_log_writer \<times> log_file" where
  "append_event ser w now kind file =
     (let event = \<lparr>ev_seq = w_next_seq w, ev_timestamp = now, ev_thread_id = w_thread_id w,
                   ev_kind = kind\<rparr>
      in case ser event of
           None \<Rightarrow> Inl EventSerializeError
         | Some line \<Rightarrow>
             Inr (event, w\<lparr>w_next_seq := w_next_seq w + 1\<rparr>,
                  Some (file_bytes file @ line @ [newline])))"

text \<open>
  The same append cut off by a crash after \<open>n\<close> of the bytes it writes (the line, then the
  newline): what the next process finds.
\<close>

definition torn_append ::
  "serializer \<Rightarrow> event_log_writer \<Rightarrow> timestamp \<Rightarrow> thread_event_kind \<Rightarrow> nat \<Rightarrow> log_file \<Rightarrow> log_file" where
  "torn_append ser w now kind n file =
     (let event = \<lparr>ev_seq = w_next_seq w, ev_timestamp = now, ev_thread_id = w_thread_id w,
                   ev_kind = kind\<rparr>
      in case ser event of
           None \<Rightarrow> file
         | Some line \<Rightarrow> Some (file_bytes file @ take n (line @ [newline])))"

section \<open>Encoded logs\<close>

text \<open>
  What the code relies on of the JSON library, for the events of a set: a serialized event
  is one non-empty line that parses back to it, and a line cut short does not parse.
\<close>

definition codec_ok :: "serializer \<Rightarrow> deserializer \<Rightarrow> thread_event set \<Rightarrow> bool" where
  "codec_ok ser de E \<longleftrightarrow>
     (\<forall>e \<in> E. \<exists>line. ser e = Some line \<and> line \<noteq> [] \<and> newline \<notin> set line \<and>
        de line = Some e \<and> (\<forall>n < length line. de (take n line) = None))"

definition event_line :: "serializer \<Rightarrow> thread_event \<Rightarrow> string" where
  "event_line ser e = the (ser e)"

definition encode_log :: "serializer \<Rightarrow> thread_event list \<Rightarrow> string" where
  "encode_log ser es = concat (map (\<lambda>e. event_line ser e @ [newline]) es)"

fun numbered :: "thread_id \<Rightarrow> event_seq \<Rightarrow> thread_event list \<Rightarrow> bool" where
  "numbered tid n [] \<longleftrightarrow> True"
| "numbered tid n (e # es) \<longleftrightarrow> ev_thread_id e = tid \<and> ev_seq e = n \<and> numbered tid (n + 1) es"

text \<open>The file holds exactly the events, and the writer is positioned after them.\<close>

definition log_holds ::
  "serializer \<Rightarrow> event_log_writer \<Rightarrow> log_file \<Rightarrow> thread_event list \<Rightarrow> bool" where
  "log_holds ser w file es \<longleftrightarrow>
     file_bytes file = encode_log ser es \<and> numbered (w_thread_id w) 1 es \<and>
     w_next_seq w = of_nat (length es) + 1"

lemma codec_okD:
  assumes "codec_ok ser de E" and "e \<in> E"
  shows "ser e = Some (event_line ser e)" "event_line ser e \<noteq> []"
    "newline \<notin> set (event_line ser e)" "de (event_line ser e) = Some e"
    "n < length (event_line ser e) \<Longrightarrow> de (take n (event_line ser e)) = None"
  using assms by (auto simp: codec_ok_def event_line_def)

lemma encode_log_simps [simp]:
  "encode_log ser [] = []"
  "encode_log ser (e # es) = event_line ser e @ newline # encode_log ser es"
  "encode_log ser (es @ fs) = encode_log ser es @ encode_log ser fs"
  by (simp_all add: encode_log_def)

lemma numbered_append:
  "numbered tid n (es @ fs) \<longleftrightarrow> numbered tid n es \<and> numbered tid (n + of_nat (length es)) fs"
  by (induction es arbitrary: n) (auto simp: algebra_simps)

lemma numbered_last: "numbered tid n es \<Longrightarrow> es \<noteq> [] \<Longrightarrow> ev_seq (last es) + 1 = n + of_nat (length es)"
  by (cases es rule: rev_cases) (auto simp: numbered_append algebra_simps)

lemma split_lines_newline: "newline \<notin> set l \<Longrightarrow> split_lines (l @ newline # r) = l # split_lines r"
  by (induction l) auto

lemma split_lines_no_newline: "newline \<notin> set l \<Longrightarrow> split_lines l = [l]"
  by (induction l) auto

lemma split_lines_encode:
  assumes "codec_ok ser de E" and "set es \<subseteq> E"
  shows "split_lines (encode_log ser es @ r) = map (event_line ser) es @ split_lines r"
  using assms(2) by (induction es) (auto simp: split_lines_newline codec_okD [OF assms(1)])

lemma ends_with_newline_snoc [simp]:
  "ends_with_newline (s @ [c]) \<longleftrightarrow> c = newline"
  "ends_with_newline [] \<longleftrightarrow> False"
  by (simp_all add: ends_with_newline_def)

lemma encode_log_last: "es \<noteq> [] \<Longrightarrow> last (encode_log ser es) = newline \<and> encode_log ser es \<noteq> []"
  by (cases es rule: rev_cases) auto

lemma read_loop_encoded:
  assumes "codec_ok ser de E" and "set es \<subseteq> E" and "numbered tid n es"
  shows "read_loop de tid since c (map (event_line ser) es @ ls) n out =
    read_loop de tid since c ls (n + of_nat (length es)) (out @ filter (\<lambda>e. since < ev_seq e) es)"
  using assms(2,3)
  by (induction es arbitrary: n out) (simp_all add: codec_okD [OF assms(1)] algebra_simps)

lemma sanitize_loop_encoded:
  assumes "codec_ok ser de E" and "set es \<subseteq> E" and "numbered tid n es"
  shows "sanitize_loop de tid k c (map (event_line ser) es @ ls) i n out =
    sanitize_loop de tid k c ls (i + length es) (n + of_nat (length es)) (out @ es)"
  using assms(2,3)
  by (induction es arbitrary: n i out) (simp_all add: codec_okD [OF assms(1)] algebra_simps)

section \<open>Appending and reading back\<close>

lemma append_event_Inr:
  "append_event ser w now k file = Inr (e, w', file') \<longleftrightarrow>
     e = \<lparr>ev_seq = w_next_seq w, ev_timestamp = now, ev_thread_id = w_thread_id w, ev_kind = k\<rparr> \<and>
     w' = w\<lparr>w_next_seq := w_next_seq w + 1\<rparr> \<and>
     (\<exists>line. ser e = Some line \<and> file' = Some (file_bytes file @ line @ [newline]))"
  by (auto simp: append_event_def Let_def split: option.splits)

lemma append_holds:
  assumes "log_holds ser w file es" and "append_event ser w now k file = Inr (e, w', file')"
  shows "log_holds ser w' file' (es @ [e]) \<and> ev_kind e = k \<and> ev_timestamp e = now"
  using assms
  by (auto simp: append_event_Inr log_holds_def numbered_append file_bytes_def event_line_def
      algebra_simps)

lemma read_holds:
  assumes "codec_ok ser de E" and "set es \<subseteq> E" and "log_holds ser w file es"
  shows "read_events_since de (w_thread_id w) file since = Inr (filter (\<lambda>e. since < ev_seq e) es)"
proof (cases "file")
  case None
  with assms(3) have "es = []" by (cases es) (auto simp: log_holds_def file_bytes_def)
  with None show ?thesis by (simp add: read_events_since_def)
next
  case (Some bytes)
  with assms(3) have "bytes = encode_log ser es @ []" "numbered (w_thread_id w) 1 es"
    by (simp_all add: log_holds_def file_bytes_def)
  with Some read_loop_encoded [OF assms(1,2), of "w_thread_id w" 1 since _ "[[]]"] show ?thesis
    by (simp add: read_events_since_def split_lines_encode [OF assms(1,2)] del: append_Nil2)
qed

text \<open>
  C35: appending an event and reading back returns it: if the file holds a thread's events
  and the writer stands after them, an append yields a file that holds these events and the
  new one, the writer stands after it, and reading since any sequence number returns exactly
  the events with a greater number, in order.
\<close>

theorem append_then_read:
  assumes "codec_ok ser de E" and "set es \<subseteq> E" and "e \<in> E"
    and "log_holds ser w file es"
    and "append_event ser w now k file = Inr (e, w', file')"
  shows "log_holds ser w' file' (es @ [e]) \<and> ev_kind e = k \<and>
    read_events_since de (w_thread_id w) file' since =
      Inr (filter (\<lambda>e. since < ev_seq e) (es @ [e]))"
proof -
  have "w_thread_id w' = w_thread_id w" using assms(5) by (auto simp: append_event_Inr)
  moreover have "set (es @ [e]) \<subseteq> E" using assms(2,3) by simp
  ultimately show ?thesis
    using append_holds [OF assms(4,5)] read_holds [OF assms(1)] by metis
qed

section \<open>Opening after a crash\<close>

text \<open>What opening a writer makes of a file that holds events and a cut-off last line.\<close>

lemma sanitize_clean:
  assumes "codec_ok ser de E" and "set es \<subseteq> E" and "numbered tid 1 es"
    and "file_bytes file = encode_log ser es"
  shows "sanitize_and_read_events de tid file = Inr (es, file)"
proof (cases "file")
  case None
  with assms(4) have "es = []" by (cases es) (auto simp: file_bytes_def)
  with None show ?thesis by (simp add: sanitize_and_read_events_def)
next
  case (Some bytes)
  with assms(4) have b: "bytes = encode_log ser es @ []" by (simp add: file_bytes_def)
  show ?thesis
    unfolding Some b
    by (simp add: sanitize_and_read_events_def split_lines_encode [OF assms(1,2)]
        sanitize_loop_encoded [OF assms(1,2,3)] del: append_Nil2)
qed

lemma sanitize_torn:
  assumes "codec_ok ser de E" and "set es \<subseteq> E" and "numbered tid 1 es"
    and "newline \<notin> set r" and "r \<noteq> []" and "de r = None"
  shows "sanitize_and_read_events de tid (Some (encode_log ser es @ r)) =
    Inr (es, Some (encode_log ser es))"
proof -
  have "\<not> ends_with_newline (encode_log ser es @ r)"
    using assms(4,5) by (metis ends_with_newline_def last_appendR last_in_set)
  with assms(4-6) show ?thesis
    by (simp add: sanitize_and_read_events_def split_lines_encode [OF assms(1,2)]
        sanitize_loop_encoded [OF assms(1,2,3)] split_lines_no_newline)
qed

lemma sanitize_unterminated:
  assumes "codec_ok ser de E" and "set es \<subseteq> E" and "e \<in> E" and "numbered tid 1 (es @ [e])"
  shows "sanitize_and_read_events de tid (Some (encode_log ser es @ event_line ser e)) =
    Inr (es @ [e], Some (encode_log ser es @ event_line ser e))"
  using assms(4)
  by (simp add: sanitize_and_read_events_def split_lines_encode [OF assms(1,2)]
      sanitize_loop_encoded [OF assms(1,2)] split_lines_no_newline codec_okD [OF assms(1,3)]
      numbered_append)

lemma open_with_events_eq:
  assumes "sanitize_and_read_events de tid file = Inr (es, file1)"
    and "numbered tid 1 es" and "ensure_jsonl_record_boundary file1 = file2"
    and "file_bytes file2 = encode_log ser es"
  shows "\<exists>w file'. open_with_events de tid file = Inr (w, es, file') \<and>
    w_thread_id w = tid \<and> log_holds ser w file' es"
  using assms numbered_last [OF assms(2)]
  by (auto simp: open_with_events_def open_internal_def Let_def log_holds_def event_seq_zero_def
      create_if_missing_def file_bytes_def split: option.splits)

lemma boundary_clean: "file_bytes file = encode_log ser es \<Longrightarrow>
  ensure_jsonl_record_boundary file = file"
  using encode_log_last [of es ser]
  by (cases "es = []") (auto simp: ensure_jsonl_record_boundary_def file_bytes_def split: option.splits)

lemma open_clean:
  assumes "codec_ok ser de E" and "set es \<subseteq> E" and "numbered tid 1 es"
    and "file_bytes file = encode_log ser es"
  shows "\<exists>w file'. open_with_events de tid file = Inr (w, es, file') \<and>
    w_thread_id w = tid \<and> log_holds ser w file' es"
  using open_with_events_eq [OF sanitize_clean [OF assms] assms(3)
      boundary_clean [OF assms(4)] assms(4)] .

lemma open_torn:
  assumes "codec_ok ser de E" and "set es \<subseteq> E" and "numbered tid 1 es"
    and "newline \<notin> set r" and "r \<noteq> []" and "de r = None"
  shows "\<exists>w file'. open_with_events de tid (Some (encode_log ser es @ r)) = Inr (w, es, file') \<and>
    w_thread_id w = tid \<and> log_holds ser w file' es"
  by (rule open_with_events_eq [OF sanitize_torn [OF assms] assms(3)])
    (rule boundary_clean, simp_all add: file_bytes_def)

lemma open_unterminated:
  assumes "codec_ok ser de E" and "set es \<subseteq> E" and "e \<in> E" and "numbered tid 1 (es @ [e])"
  shows "\<exists>w file'. open_with_events de tid (Some (encode_log ser es @ event_line ser e)) =
      Inr (w, es @ [e], file') \<and> w_thread_id w = tid \<and> log_holds ser w file' (es @ [e])"
  using codec_okD(2,3) [OF assms(1,3)]
  by (intro open_with_events_eq [OF sanitize_unterminated [OF assms] assms(4) refl])
    (auto simp: file_bytes_def ensure_jsonl_record_boundary_def dest: last_in_set)

lemma torn_append_spec:
  assumes "codec_ok ser de E" and "set es \<subseteq> E" and "log_holds ser w file es"
    and "append_event ser w now k file = Inr (e, w', file')" and "e \<in> E"
  shows "\<exists>v crashed. open_with_events de (w_thread_id w) (torn_append ser w now k n file) =
      Inr (v, (if n < length (event_line ser e) then es else es @ [e]), crashed) \<and>
    w_thread_id v = w_thread_id w \<and>
    log_holds ser v crashed (if n < length (event_line ser e) then es else es @ [e])"
proof -
  let ?line = "event_line ser e"
  have torn: "torn_append ser w now k n file = Some (encode_log ser es @ take n (?line @ [newline]))"
    using assms(3,4) by (auto simp: torn_append_def append_event_Inr log_holds_def event_line_def Let_def)
  have holds: "log_holds ser w' file' (es @ [e])" "w_thread_id w' = w_thread_id w"
    using append_holds [OF assms(3,4)] assms(4) by (auto simp: append_event_Inr)
  then have nums: "numbered (w_thread_id w) 1 es" "numbered (w_thread_id w) 1 (es @ [e])"
    using assms(3) by (simp_all add: log_holds_def)
  note ok = codec_okD [OF assms(1,5)]
  consider "n = 0" | "0 < n" "n < length ?line" | "n = length ?line" | "length ?line < n" by linarith
  then show ?thesis
  proof cases
    case 1
    with ok(2) torn open_clean [OF assms(1,2) nums(1), of "Some (encode_log ser es)"] show ?thesis
      by (auto simp: file_bytes_def)
  next
    case 2
    with ok(2,3) have "take n ?line \<noteq> []" "newline \<notin> set (take n ?line)"
      by (auto dest: in_set_takeD)
    with 2 torn ok(5) [of n] open_torn [OF assms(1,2) nums(1)] show ?thesis by auto
  next
    case 3
    with torn open_unterminated [OF assms(1,2,5) nums(2)] show ?thesis by auto
  next
    case 4
    moreover have "set (es @ [e]) \<subseteq> E" using assms(2,5) by simp
    ultimately show ?thesis
      using torn open_clean [OF assms(1) _ nums(2), of "Some (encode_log ser (es @ [e]))"]
      by (auto simp: file_bytes_def)
  qed
qed

text \<open>
  Opening a writer repairs an append that a crash cut off. Wherever among the bytes it
  writes the append stopped, the next open succeeds and yields either the events before it
  or, exactly when the whole line had been written, these and the new event; the file then
  holds exactly the events returned and the writer stands after them.
\<close>

theorem torn_append_recovered:
  assumes "codec_ok ser de E" and "set es \<subseteq> E" and "log_holds ser w file es"
    and "append_event ser w now k file = Inr (e, w', file')" and "e \<in> E"
  shows "\<exists>v crashed. open_with_events de (w_thread_id w) (torn_append ser w now k n file) =
      Inr (v, (if n < length (event_line ser e) then es else es @ [e]), crashed) \<and>
    w_thread_id v = w_thread_id w \<and>
    log_holds ser v crashed (if n < length (event_line ser e) then es else es @ [e])"
  using assms by (rule torn_append_spec)

section \<open>The three scans of a log agree\<close>

lemma read_loop_prefix: "read_loop de tid since c ls n out = Inr es \<Longrightarrow> \<exists>fs. es = out @ fs"
  by (induction de tid since c ls n out rule: read_loop.induct)
    (auto split: if_splits option.splits)

lemma state_loop_read_loop:
  assumes "read_loop de tid 0 c ls n out = Inr es" and "st_thread_id s = tid"
    and "n = st_last_seq s + 1" and "unat (st_last_seq s) = length out" and "length es + 1 < 2 ^ 64"
  shows "\<exists>fs. es = out @ fs \<and> state_loop de tid c ls n s =
    (case replay fs s of Inl e \<Rightarrow> Inl (LogStateError e) | Inr s' \<Rightarrow> Inr s')"
  using assms
proof (induction ls arbitrary: n out s)
  case Nil
  then show ?case by simp
next
  case (Cons l ls)
  show ?case
  proof (cases "l = [] \<or> de l = None")
    case True
    with Cons show ?thesis by (auto split: if_splits)
  next
    case False
    then obtain e where e: "l \<noteq> []" "de l = Some e" by auto
    with Cons.prems(1) have hd: "ev_thread_id e = tid" "ev_seq e = n"
      and rest: "read_loop de tid 0 c ls (n + 1) (if 0 < n then out @ [e] else out) = Inr es"
      by (auto split: if_splits)
    have "length out \<le> length es" using read_loop_prefix [OF Cons.prems(1)] by auto
    with Cons.prems(3-5) have n: "unat n = Suc (length out)"
      by (simp add: unat_Suc_u64)
    then have pos: "0 < n" by (simp add: word_less_nat_alt)
    with rest obtain gs where gs: "es = (out @ [e]) @ gs"
      and rest': "read_loop de tid 0 c ls (n + 1) (out @ [e]) = Inr es"
      by (auto dest: read_loop_prefix)
    show ?thesis
    proof (cases "apply_event e s")
      case (Inl err)
      with e hd gs show ?thesis by simp
    next
      case (Inr s')
      note ids = apply_event_ids [OF this]
      obtain fs where "es = (out @ [e]) @ fs" "state_loop de tid c ls (n + 1) s' =
          (case replay fs s' of Inl e \<Rightarrow> Inl (LogStateError e) | Inr s' \<Rightarrow> Inr s')"
        using Cons.IH [OF rest', of s'] ids n hd Cons.prems(2,5) by auto
      with e hd Inr show ?thesis by simp
    qed
  qed
qed

text \<open>
  Deriving the state from the file is the same as reading the events and replaying
  them: whenever the events of a file read successfully, \<open>read_state\<close> returns the replay of
  exactly these events, or its error. (The bound keeps the 64-bit counter from wrapping.)
\<close>

theorem read_state_replays:
  assumes "read_events_since de tid file 0 = Inr es" and "length es + 1 < 2 ^ 64"
  shows "read_state de tid file =
    (case replay es (new_state tid) of Inl e \<Rightarrow> Inl (LogStateError e) | Inr s \<Rightarrow> Inr s)"
proof (cases "file")
  case None
  with assms(1) show ?thesis by (simp add: read_state_def read_events_since_def)
next
  case (Some bytes)
  with assms(1) have "read_loop de tid 0 (ends_with_newline bytes) (split_lines bytes) 1 [] = Inr es"
    by (simp add: read_events_since_def)
  from state_loop_read_loop [OF this, of "new_state tid"] assms(2) Some show ?thesis
    by (auto simp: read_state_def new_state_def event_seq_zero_def)
qed

lemma sanitize_loop_prefix:
  "sanitize_loop de tid k c ls i n out = Inr (es, m) \<Longrightarrow> \<exists>fs. es = out @ fs"
  by (induction de tid k c ls i n out rule: sanitize_loop.induct)
    (auto split: if_splits option.splits)

lemma sanitize_loop_read_loop:
  assumes "sanitize_loop de tid k c ls i n out = Inr (es, m)"
    and "unat n = Suc (length out)" and "length es + 1 < 2 ^ 64"
  shows "read_loop de tid 0 c ls n out = Inr es \<and> (\<exists>fs. es = out @ fs \<and> numbered tid n fs) \<and>
    (m = k \<or> \<not> c \<and> (\<exists>l \<in> set ls. l \<noteq> [] \<and> de l = None \<and> m = k - length l))"
  using assms
proof (induction ls arbitrary: i n out)
  case Nil
  then show ?case by simp
next
  case (Cons l ls)
  show ?case
  proof (cases "l = [] \<or> de l = None")
    case True
    with Cons show ?thesis by (cases "l = []") (fastforce split: if_splits)+
  next
    case False
    then obtain e where e: "l \<noteq> []" "de l = Some e" by auto
    with Cons.prems(1) have hd: "ev_thread_id e = tid" "ev_seq e = n"
      and rest: "sanitize_loop de tid k c ls (i + 1) (n + 1) (out @ [e]) = Inr (es, m)"
      by (auto split: if_splits)
    from sanitize_loop_prefix [OF rest] have "length out < length es" by auto
    with Cons.prems(2,3) have n: "0 < n" "unat (n + 1) = Suc (Suc (length out))"
      by (simp_all add: word_less_nat_alt unat_Suc_u64)
    with Cons.IH [OF rest _ Cons.prems(3)] e hd show ?thesis by auto
  qed
qed

lemma open_with_events_Inr:
  "open_with_events de tid file = Inr (w, es, file') \<longleftrightarrow>
     (\<exists>file1. sanitize_and_read_events de tid file = Inr (es, file1) \<and>
       file' = create_if_missing (ensure_jsonl_record_boundary file1) \<and>
       w = \<lparr>w_thread_id = tid,
            w_next_seq = (if es = [] then event_seq_zero else ev_seq (last es)) + 1\<rparr>)"
  by (cases "sanitize_and_read_events de tid file")
    (auto simp: open_with_events_def open_internal_def Let_def split: prod.splits)

text \<open>
  The events that opening a writer reports are those that reading the same file from
  the start returns, for every file content; they are numbered 1, 2, 3 and so on, belong to
  the thread, and the writer continues with the next number.
\<close>

theorem open_reports_what_readers_see:
  assumes "open_with_events de tid file = Inr (w, es, file')" and "length es + 1 < 2 ^ 64"
  shows "read_events_since de tid file 0 = Inr es \<and> numbered tid 1 es \<and>
    w_thread_id w = tid \<and> unat (w_next_seq w) = length es + 1"
proof -
  have read: "read_events_since de tid file 0 = Inr es \<and> numbered tid 1 es"
  proof (cases "file")
    case None
    with assms(1) show ?thesis
      by (auto simp: open_with_events_Inr sanitize_and_read_events_def read_events_since_def)
  next
    case (Some bytes)
    with assms(1) obtain m where "sanitize_loop de tid (length bytes) (ends_with_newline bytes)
        (split_lines bytes) 0 1 [] = Inr (es, m)"
      by (auto simp: open_with_events_Inr sanitize_and_read_events_def rbind_eq_Inr)
    from sanitize_loop_read_loop [OF this _ assms(2)] Some show ?thesis
      by (simp add: read_events_since_def)
  qed
  have w: "w_thread_id w = tid" "w_next_seq w = of_nat (length es) + 1"
    using assms(1) numbered_last [of tid 1 es] read
    by (auto simp: open_with_events_Inr event_seq_zero_def add.commute)
  have "unat (of_nat (length es) + 1 :: u64) = length es + 1"
    using assms(2) by (simp add: unat_Suc_u64 unsigned_of_nat take_bit_nat_eq_self)
  with read w show ?thesis by simp
qed

section \<open>An unparsable line that is not the last\<close>

lemma read_loop_bad:
  assumes "codec_ok ser de E" and "set es \<subseteq> E" and "numbered tid 1 es"
    and "bad \<noteq> []" and "newline \<notin> set bad" and "de bad = None"
  shows "read_events_since de tid (Some (encode_log ser es @ bad @ newline # r @ [newline])) since =
    Inl EventParseError"
proof -
  have "ends_with_newline (encode_log ser es @ bad @ newline # r @ [newline])"
    by (simp add: ends_with_newline_def)
  with assms(4-6) show ?thesis
    by (simp add: read_events_since_def split_lines_encode [OF assms(1,2)]
        read_loop_encoded [OF assms(1,2,3)] split_lines_newline)
qed

text \<open>
  C40: in a file without a final newline the repair assumes that the unparsable line is the
  last one. When it is an earlier line, shorter than the text after it, opening succeeds,
  the truncation removes bytes of the tail and leaves the bad line, and from then on every
  read of the file, before and after an append through the new writer, fails.
\<close>

theorem interior_bad_line_breaks_log:
  assumes "codec_ok ser de E" and "set es \<subseteq> E" and "numbered tid 1 es"
    and "bad \<noteq> []" and "newline \<notin> set bad" and "de bad = None"
    and "length bad < length r" and "last r \<noteq> newline"
  shows "\<exists>w file'.
    open_with_events de tid (Some (encode_log ser es @ bad @ newline # r)) = Inr (w, es, file') \<and>
    (\<forall>since. read_events_since de tid file' since = Inl EventParseError) \<and>
    (\<forall>e w' file'' since. append_event ser w now k file' = Inr (e, w', file'') \<longrightarrow>
       read_events_since de tid file'' since = Inl EventParseError)"
proof -
  let ?bytes = "encode_log ser es @ bad @ newline # r"
  let ?cut = "encode_log ser es @ bad @ newline # take (length r - length bad) r"
  have r: "r \<noteq> []" using assms(7) by auto
  with assms(8) have "\<not> ends_with_newline ?bytes" by (simp add: ends_with_newline_def)
  then have s: "sanitize_and_read_events de tid (Some ?bytes) = Inr (es, Some ?cut)"
    using assms(4-7)
    by (simp add: sanitize_and_read_events_def split_lines_encode [OF assms(1,2)]
        sanitize_loop_encoded [OF assms(1,2,3)] split_lines_newline take_Cons')
  obtain q where q: "create_if_missing (ensure_jsonl_record_boundary (Some ?cut)) =
      Some (encode_log ser es @ bad @ newline # q @ [newline])"
  proof (cases "last ?cut = newline")
    case True
    obtain q0 c where qc: "take (length r - length bad) r = q0 @ [c]"
      using assms(7) r by (cases "take (length r - length bad) r" rule: rev_cases) auto
    with True have "c = newline" by simp
    with qc True show ?thesis
      by (intro that [of q0]) (simp add: ensure_jsonl_record_boundary_def create_if_missing_def)
  next
    case False
    then show ?thesis
      by (intro that [of "take (length r - length bad) r"])
        (simp add: ensure_jsonl_record_boundary_def create_if_missing_def)
  qed
  note bad = read_loop_bad [OF assms(1-6)]
  have "read_events_since de tid file'' since = Inl EventParseError"
    if "append_event ser w now k (Some (encode_log ser es @ bad @ newline # q @ [newline])) =
      Inr (e, w', file'')" for e w w' file'' since
    using that bad [of "q @ newline # event_line ser e" since]
    by (auto simp: append_event_Inr file_bytes_def event_line_def)
  with s q bad show ?thesis by (auto simp: open_with_events_Inr)
qed

section \<open>A concrete codec\<close>

text \<open>
  An instance of the JSON parameters for one kind of event, the number of the event written
  in unary between braces: the hypotheses about the library can hold.
\<close>

definition unpaused_event :: "event_seq \<Rightarrow> thread_event" where
  "unpaused_event n = sample_event n (ThreadUnpaused None)"

definition unary_line :: "event_seq \<Rightarrow> string" where
  "unary_line n = CHR ''{'' # replicate (unat n) (CHR ''x'') @ ''}''"

lemma unary_line_values:
  "unary_line 1 = ''{x}''" "unary_line 2 = ''{xx}''"
  by code_simp+

definition unary_ser :: serializer where
  "unary_ser e = (if e = unpaused_event (ev_seq e) then Some (unary_line (ev_seq e)) else None)"

definition unary_de :: deserializer where
  "unary_de s =
     (if s \<noteq> [] \<and> last s = CHR ''}'' \<and> s = unary_line (of_nat (length s - 2))
      then Some (unpaused_event (of_nat (length s - 2))) else None)"

lemma unary_codec_ok: "codec_ok unary_ser unary_de (range unpaused_event)"
proof -
  have "ev_seq (unpaused_event n) = n" for n
    by (simp add: unpaused_event_def sample_event_def)
  then have ser: "unary_ser (unpaused_event n) = Some (unary_line n)" for n
    by (simp add: unary_ser_def)
  have full: "unary_de (unary_line n) = Some (unpaused_event n)" for n
    by (simp add: unary_de_def unary_line_def)
  have cut: "unary_de (take i (unary_line n)) = None" if "i < length (unary_line n)" for i n
  proof -
    have "take i (unary_line n) = take i (CHR ''{'' # replicate (unat n) (CHR ''x''))"
      using that by (simp add: unary_line_def take_Cons')
    then have "CHR ''}'' \<notin> set (take i (unary_line n))"
      by (auto dest: in_set_takeD)
    then show ?thesis by (metis last_in_set unary_de_def)
  qed
  have "unary_line n \<noteq> [] \<and> newline \<notin> set (unary_line n)" for n
    by (auto simp: unary_line_def newline_def)
  with ser full cut show ?thesis by (fastforce simp: codec_ok_def)
qed

definition sample_writer :: event_log_writer where
  "sample_writer = \<lparr>w_thread_id = sample_thread, w_next_seq = 2\<rparr>"

lemma sample_writer_holds:
  "log_holds unary_ser sample_writer (Some ''{x}\<newline>'') [unpaused_event 1]"
  by (simp add: log_holds_def sample_writer_def file_bytes_def event_line_def unary_ser_def
      unpaused_event_def sample_event_def unary_line_values newline_def)

lemma sample_append:
  "append_event unary_ser sample_writer 1000 (ThreadUnpaused None) (Some ''{x}\<newline>'') =
     Inr (unpaused_event 2, sample_writer\<lparr>w_next_seq := 3\<rparr>, Some ''{x}\<newline>{xx}\<newline>'')"
  by (simp add: append_event_def sample_writer_def file_bytes_def unary_ser_def
      unpaused_event_def sample_event_def unary_line_values newline_def)

theorem append_then_read_witness:
  "read_events_since unary_de sample_thread (Some ''{x}\<newline>{xx}\<newline>'') 1 = Inr [unpaused_event 2]"
  using append_then_read [OF unary_codec_ok _ _ sample_writer_holds sample_append, of 1]
  by (simp add: sample_writer_def unpaused_event_def sample_event_def)

theorem torn_append_recovered_witness:
  "\<exists>v crashed. open_with_events unary_de sample_thread (Some ''{x}\<newline>{x'') =
     Inr (v, [unpaused_event 1], crashed)"
proof -
  have line: "event_line unary_ser (unpaused_event 2) = ''{xx}''"
    by (simp add: event_line_def unary_ser_def unpaused_event_def sample_event_def
        unary_line_values)
  have torn: "torn_append unary_ser sample_writer 1000 (ThreadUnpaused None) 2 (Some ''{x}\<newline>'') =
      Some ''{x}\<newline>{x''"
    by (simp add: torn_append_def sample_writer_def file_bytes_def unary_ser_def
        unpaused_event_def sample_event_def unary_line_values)
  from torn_append_recovered [OF unary_codec_ok _ sample_writer_holds sample_append, of 2] line torn
  show ?thesis by (auto simp: sample_writer_def)
qed

lemma sample_read:
  "read_events_since unary_de sample_thread (Some ''{x}\<newline>'') 0 = Inr [unpaused_event 1]"
  using read_holds [OF unary_codec_ok _ sample_writer_holds, of 0]
  by (simp add: sample_writer_def unpaused_event_def sample_event_def)

theorem read_state_replays_witness:
  "\<exists>s. read_state unary_de sample_thread (Some ''{x}\<newline>'') = Inr s \<and> st_last_seq s = 1"
  using read_state_replays [OF sample_read]
  by (simp add: apply_event_def unpaused_event_def sample_event_def new_state_def
      event_seq_zero_def)

theorem open_reports_what_readers_see_witness:
  "read_events_since unary_de sample_thread (Some ''{x}\<newline>{x'') 0 = Inr [unpaused_event 1]"
proof -
  from open_torn [OF unary_codec_ok, of "[unpaused_event 1]" sample_thread "''{x''"]
  obtain w f where "open_with_events unary_de sample_thread (Some ''{x}\<newline>{x'') =
      Inr (w, [unpaused_event 1], f)"
    by (auto simp: unpaused_event_def sample_event_def event_line_def unary_ser_def
        unary_line_values newline_def unary_de_def)
  from open_reports_what_readers_see [OF this] show ?thesis by simp
qed

theorem interior_bad_line_breaks_log_witness:
  "\<exists>w file'. open_with_events unary_de sample_thread (Some ''{x}\<newline>{\<newline>{xx}'') =
     Inr (w, [unpaused_event 1], file') \<and>
     read_events_since unary_de sample_thread file' 0 = Inl EventParseError"
proof -
  have "unary_de ''{'' = None" by (simp add: unary_de_def)
  with interior_bad_line_breaks_log [OF unary_codec_ok, of "[unpaused_event 1]" sample_thread
      "''{''" "''{xx}''"]
  show ?thesis
    by (simp add: unpaused_event_def sample_event_def event_line_def unary_ser_def
        unary_line_values newline_def) blast
qed

end
