(* ===== verification/Redaction.thy ===== *)
theory Redaction
  imports ThreadState
begin

text \<open>
  \<open>crates/core/src/redaction.rs\<close>: the secrets removed from an event before it is logged.
  The regular expressions run in the \<open>regex\<close> crate, which is the parameter
  \<open>replace_all pattern replacement text\<close>. In-place mutation is a function to the new value.
\<close>

type_synonym replacer = "string \<Rightarrow> string \<Rightarrow> string \<Rightarrow> string"

definition redacted :: string where
  "redacted = ''<REDACTED>''"

definition patterns :: "(string \<times> string) list" where
  "patterns =
     [(''(?s)-----BEGIN [A-Z ]+ PRIVATE KEY-----.*?-----END [A-Z ]+ PRIVATE KEY-----'',
       ''<REDACTED PRIVATE KEY>''),
      (''sk-[A-Za-z0-9]{20,}'', ''sk-<REDACTED>''),
      (''ghp_[A-Za-z0-9]{20,}'', ''ghp_<REDACTED>''),
      (''github_pat_[A-Za-z0-9_]{20,}'', ''github_pat_<REDACTED>''),
      (''AIza[0-9A-Za-z_-]{35}'', ''AIza<REDACTED>''),
      (''AKIA[0-9A-Z]{16}'', ''AKIA<REDACTED>''),
      (''(?i)'' @ [CHR 0x5C] @ ''bbearer'' @ [CHR 0x5C] @ ''s+[A-Za-z0-9._-]{20,}'',
       ''Bearer <REDACTED>'')]"

definition redact_text :: "replacer \<Rightarrow> string \<Rightarrow> string" where
  "redact_text replace_all input = fold (\<lambda>(pat, rep) out. replace_all pat rep out) patterns input"

definition sensitive_needles :: "string list" where
  "sensitive_needles =
     [''api_key'', ''apikey'', ''access_key'', ''secret_access_key'', ''client_secret'',
      ''private_key'', ''password'', ''passwd'', ''token'', ''refresh_token'',
      ''authorization'', ''cookie'', ''session'']"

definition is_sensitive_key :: "string \<Rightarrow> bool" where
  "is_sensitive_key key \<longleftrightarrow>
     (let k = to_ascii_lowercase (dropWhile (\<lambda>c. c = CHR ''-'') (trim key))
      in list_ex (\<lambda>needle. contains needle k) sensitive_needles)"

fun redact_json_value :: "replacer \<Rightarrow> json \<Rightarrow> json" where
  "redact_json_value ra (JString s) = JString (redact_text ra s)"
| "redact_json_value ra (JArray items) = JArray (map (redact_json_value ra) items)"
| "redact_json_value ra (JObject m) =
     JObject (map (\<lambda>e. (fst e,
       if is_sensitive_key (fst e) then JString redacted else redact_json_value ra (snd e))) m)"
| "redact_json_value ra v = v"

definition usage_counter_keys :: "string list" where
  "usage_counter_keys =
     [''total_tokens'', ''input_tokens'', ''output_tokens'', ''cache_input_tokens'',
      ''cache_creation_input_tokens'']"

definition is_usage_counter_key :: "string \<Rightarrow> bool" where
  "is_usage_counter_key key \<longleftrightarrow> to_ascii_lowercase (trim key) \<in> set usage_counter_keys"

fun redact_token_usage_value :: "replacer \<Rightarrow> json \<Rightarrow> json" where
  "redact_token_usage_value ra (JString s) = JString (redact_text ra s)"
| "redact_token_usage_value ra (JArray items) =
     JArray (map (redact_token_usage_value ra) items)"
| "redact_token_usage_value ra (JObject m) =
     JObject (map (\<lambda>e. (fst e,
       if is_usage_counter_key (fst e) then
         (case snd e of JNull \<Rightarrow> snd e | JNumber _ \<Rightarrow> snd e | _ \<Rightarrow> redact_json_value ra (snd e))
       else if is_sensitive_key (fst e) then JString redacted
       else redact_token_usage_value ra (snd e))) m)"
| "redact_token_usage_value ra v = v"

fun redact_structured_message :: "replacer \<Rightarrow> structured_text \<Rightarrow> structured_text"
  and redact_catalog_arg_value :: "replacer \<Rightarrow> catalog_arg \<Rightarrow> catalog_arg" where
  "redact_structured_message ra (Catalog code args) =
     Catalog code (map (\<lambda>arg. (fst arg,
       if is_sensitive_key (fst arg) then ArgText redacted
       else redact_catalog_arg_value ra (snd arg))) args)"
| "redact_structured_message ra (Freeform text) = Freeform (redact_text ra text)"
| "redact_catalog_arg_value ra (ArgText text) = ArgText (redact_text ra text)"
| "redact_catalog_arg_value ra (ArgSigned text) = ArgSigned (redact_text ra text)"
| "redact_catalog_arg_value ra (ArgUnsigned text) = ArgUnsigned (redact_text ra text)"
| "redact_catalog_arg_value ra (ArgBool b) = ArgBool b"
| "redact_catalog_arg_value ra (ArgNestedText message) =
     ArgNestedText (redact_structured_message ra message)"
| "redact_catalog_arg_value ra ArgUnsupported = ArgUnsupported"

section \<open>Command lines\<close>

definition next_token_flags :: "string list" where
  "next_token_flags =
     [''--api-key'', ''--api_key'', ''--access-token'', ''--access_token'', ''--token'',
      ''--password'', ''--passwd'', ''--secret'', ''--client-secret'', ''--client_secret'',
      ''--authorization'', ''--cookie'']"

text \<open>\<open>token.split_once('=')\<close>\<close>

fun split_once :: "char \<Rightarrow> string \<Rightarrow> (string \<times> string) option" where
  "split_once d [] = None"
| "split_once d (c # cs) =
     (if c = d then Some ([], cs)
      else map_option (\<lambda>(k, v). (c # k, v)) (split_once d cs))"

definition redact_arg :: "replacer \<Rightarrow> string \<Rightarrow> string" where
  "redact_arg ra arg =
     (case split_once (CHR ''='') arg of
        Some (k, _) \<Rightarrow> if is_sensitive_key k then k @ ''='' @ redacted else redact_text ra arg
      | None \<Rightarrow> redact_text ra arg)"

text \<open>The second loop, from index \<open>i\<close> on: the value after a flag is replaced and skipped.\<close>

fun redact_flag_values :: "string list \<Rightarrow> string list" where
  "redact_flag_values (a # b # rest) =
     (if a \<in> set next_token_flags then a # redacted # redact_flag_values rest
      else a # redact_flag_values (b # rest))"
| "redact_flag_values argv = argv"

definition redact_argv :: "replacer \<Rightarrow> string list \<Rightarrow> string list" where
  "redact_argv ra argv = redact_flag_values (map (redact_arg ra) argv)"

definition redact_command_argv :: "replacer \<Rightarrow> string list \<Rightarrow> string list" where
  "redact_command_argv ra argv = redact_argv ra argv"

section \<open>Events\<close>

fun redact_attachment_source :: "replacer \<Rightarrow> attachment_source \<Rightarrow> attachment_source" where
  "redact_attachment_source ra (SourcePath path) = SourcePath (redact_text ra path)"
| "redact_attachment_source ra (SourceUrl url) = SourceUrl (redact_text ra url)"

fun redact_attachment :: "replacer \<Rightarrow> turn_attachment \<Rightarrow> turn_attachment" where
  "redact_attachment ra (AttachImage img) =
     AttachImage (img\<lparr>img_source := redact_attachment_source ra (img_source img),
       img_media_type := map_option (redact_text ra) (img_media_type img)\<rparr>)"
| "redact_attachment ra (AttachFile f) =
     AttachFile (f\<lparr>att_source := redact_attachment_source ra (att_source f),
       att_media_type := redact_text ra (att_media_type f),
       att_filename := map_option (redact_text ra) (att_filename f)\<rparr>)"

fun redact_context_ref :: "replacer \<Rightarrow> context_ref \<Rightarrow> context_ref" where
  "redact_context_ref ra (CtxFile f) = CtxFile (f\<lparr>crf_path := redact_text ra (crf_path f)\<rparr>)"
| "redact_context_ref ra (CtxDiff d) = CtxDiff d"

definition redact_tool_call :: "replacer \<Rightarrow> agent_step_tool_call \<Rightarrow> agent_step_tool_call" where
  "redact_tool_call ra call =
     \<lparr>call_name = redact_text ra (call_name call), call_id = redact_text ra (call_id call),
      call_arguments = redact_text ra (call_arguments call)\<rparr>"

definition redact_tool_result ::
  "replacer \<Rightarrow> agent_step_tool_result \<Rightarrow> agent_step_tool_result" where
  "redact_tool_result ra result =
     \<lparr>result_call_id = redact_text ra (result_call_id result),
      result_output = redact_text ra (result_output result)\<rparr>"

definition redact_config :: "replacer \<Rightarrow> config_update \<Rightarrow> config_update" where
  "redact_config ra c =
     c\<lparr>cu_model := map_option (redact_text ra) (cu_model c),
       cu_openai_base_url := map_option (redact_text ra) (cu_openai_base_url c),
       cu_sandbox_writable_roots :=
         map_option (map (redact_text ra)) (cu_sandbox_writable_roots c),
       cu_allowed_tools := map_option (map_option (map (redact_text ra))) (cu_allowed_tools c),
       cu_execpolicy_rules := map_option (map (redact_text ra)) (cu_execpolicy_rules c)\<rparr>"

fun redact_thread_event_kind :: "replacer \<Rightarrow> thread_event_kind \<Rightarrow> thread_event_kind" where
  "redact_thread_event_kind ra (ThreadCreated cwd) = ThreadCreated (redact_text ra cwd)"
| "redact_thread_event_kind ra (ThreadSystemPromptSnapshot sha txt src) =
     ThreadSystemPromptSnapshot sha (redact_text ra txt) (map_option (redact_text ra) src)"
| "redact_thread_event_kind ra (ThreadArchived reason) =
     ThreadArchived (map_option (redact_text ra) reason)"
| "redact_thread_event_kind ra (ThreadUnarchived reason) =
     ThreadUnarchived (map_option (redact_text ra) reason)"
| "redact_thread_event_kind ra (ThreadPaused reason) =
     ThreadPaused (map_option (redact_text ra) reason)"
| "redact_thread_event_kind ra (ThreadUnpaused reason) =
     ThreadUnpaused (map_option (redact_text ra) reason)"
| "redact_thread_event_kind ra (TurnStarted p) =
     TurnStarted (p\<lparr>tsp_input := redact_text ra (tsp_input p),
       tsp_context_refs := map_option (map (redact_context_ref ra)) (tsp_context_refs p),
       tsp_attachments := map_option (map (redact_attachment ra)) (tsp_attachments p)\<rparr>)"
| "redact_thread_event_kind ra (ModelRouted tid selected source reason rule) =
     ModelRouted tid (redact_text ra selected) source (map_option (redact_text ra) reason)
       (map_option (redact_text ra) rule)"
| "redact_thread_event_kind ra (TurnInterruptRequested tid reason) =
     TurnInterruptRequested tid (map_option (redact_text ra) reason)"
| "redact_thread_event_kind ra (TurnCompleted tid status reason) =
     TurnCompleted tid status (map_option (redact_text ra) reason)"
| "redact_thread_event_kind ra (ThreadConfigUpdated c) = ThreadConfigUpdated (redact_config ra c)"
| "redact_thread_event_kind ra (ApprovalRequested aid tid action params) =
     ApprovalRequested aid tid action (redact_json_value ra params)"
| "redact_thread_event_kind ra (ApprovalDecided aid decision remember reason) =
     ApprovalDecided aid decision remember (map_option (redact_text ra) reason)"
| "redact_thread_event_kind ra (ToolStarted tool tid name params) =
     ToolStarted tool tid name (map_option (redact_json_value ra) params)"
| "redact_thread_event_kind ra (ToolCompleted tool status structured err result) =
     ToolCompleted tool status (map_option (redact_structured_message ra) structured)
       (map_option (redact_text ra) err) (map_option (redact_json_value ra) result)"
| "redact_thread_event_kind ra (AgentStep p) =
     AgentStep (p\<lparr>asp_model := redact_text ra (asp_model p),
       asp_response_id := redact_text ra (asp_response_id p),
       asp_text := map_option (redact_text ra) (asp_text p),
       asp_tool_calls := map (redact_tool_call ra) (asp_tool_calls p),
       asp_tool_results := map (redact_tool_result ra) (asp_tool_results p),
       asp_token_usage := map_option (redact_token_usage_value ra) (asp_token_usage p)\<rparr>)"
| "redact_thread_event_kind ra (AssistantMessage p) =
     AssistantMessage (p\<lparr>amp_text := redact_text ra (amp_text p)\<rparr>)"
| "redact_thread_event_kind ra (ProcessStarted p) =
     ProcessStarted (p\<lparr>psp_argv := redact_argv ra (psp_argv p),
       psp_cwd := redact_text ra (psp_cwd p)\<rparr>)"
| "redact_thread_event_kind ra (ProcessInterruptRequested pid reason) =
     ProcessInterruptRequested pid (map_option (redact_text ra) reason)"
| "redact_thread_event_kind ra (ProcessKillRequested pid reason) =
     ProcessKillRequested pid (map_option (redact_text ra) reason)"
| "redact_thread_event_kind ra (ProcessExited pid code reason) =
     ProcessExited pid code (map_option (redact_text ra) reason)"
| "redact_thread_event_kind ra (AttentionMarkerSet p) =
     AttentionMarkerSet (p\<lparr>atm_artifact_type := map_option (redact_text ra) (atm_artifact_type p),
       atm_command := map_option (redact_text ra) (atm_command p)\<rparr>)"
| "redact_thread_event_kind ra (AttentionMarkerCleared marker tid reason) =
     AttentionMarkerCleared marker tid (map_option (redact_text ra) reason)"
| "redact_thread_event_kind ra (CheckpointCreated cid tid label snapshot) =
     CheckpointCreated cid tid (map_option (redact_text ra) label) (redact_text ra snapshot)"
| "redact_thread_event_kind ra (CheckpointRestored cid tid status reason report) =
     CheckpointRestored cid tid status (map_option (redact_text ra) reason) report"

section \<open>What redaction guarantees\<close>

text \<open>
  A redacted value: every string is an output of the text redaction or the marker, and the
  value under a sensitive key is the marker.
\<close>

fun json_redacted :: "(string \<Rightarrow> bool) \<Rightarrow> json \<Rightarrow> bool" where
  "json_redacted ok (JString s) \<longleftrightarrow> ok s"
| "json_redacted ok (JArray items) \<longleftrightarrow> (\<forall>v \<in> set items. json_redacted ok v)"
| "json_redacted ok (JObject m) \<longleftrightarrow>
     (\<forall>e \<in> set m. if is_sensitive_key (fst e) then snd e = JString redacted
                  else json_redacted ok (snd e))"
| "json_redacted ok _ \<longleftrightarrow> True"

text \<open>The same keys at the same places, and arrays as long as before.\<close>

fun json_shape :: "json \<Rightarrow> json \<Rightarrow> bool" where
  "json_shape (JArray xs) (JArray ys) \<longleftrightarrow> list_all2 json_shape xs ys"
| "json_shape (JObject m) (JObject n) \<longleftrightarrow>
     list_all2 (\<lambda>e f. fst e = fst f \<and> (is_sensitive_key (fst e) \<or> json_shape (snd e) (snd f))) m n"
| "json_shape (JString _) (JString _) \<longleftrightarrow> True"
| "json_shape v w \<longleftrightarrow> v = w"

text \<open>
  Redacting a JSON value leaves no secret under a sensitive key at any depth, runs every
  other string through the text redaction, and keeps numbers, booleans, keys and structure.
\<close>

theorem redact_json_value_correct:
  "json_redacted (\<lambda>s. \<exists>t. s = redact_text ra t) (redact_json_value ra v) \<and>
   json_shape v (redact_json_value ra v)"
  by (induction ra v rule: redact_json_value.induct)
    (auto simp: list_all2_conv_all_nth list_all2_map2 intro!: list_all2_refl list.rel_refl)

lemma map_of_map_entries:
  "map_of (map (\<lambda>e. (fst e, g (fst e) (snd e))) m) k = map_option (g k) (map_of m k)"
  by (induction m) auto

lemma usage_counter_keys_counted:
  "k \<in> set usage_counter_keys \<Longrightarrow> is_usage_counter_key k"
proof -
  have "list_all is_usage_counter_key usage_counter_keys" by code_simp
  then show "k \<in> set usage_counter_keys \<Longrightarrow> is_usage_counter_key k" by (simp add: list_all_iff)
qed

lemma as_u64_redact_json_value:
  "as_u64 (case v of JNull \<Rightarrow> v | JNumber _ \<Rightarrow> v | _ \<Rightarrow> redact_json_value ra v) = as_u64 v"
  by (cases v) simp_all

lemma usage_field_redacted:
  assumes "k \<in> set usage_counter_keys"
  shows "usage_field k (redact_token_usage_value ra u) = usage_field k u"
proof (cases u)
  case (JObject m)
  let ?g = "\<lambda>k v. if is_usage_counter_key k then
      (case v of JNull \<Rightarrow> v | JNumber _ \<Rightarrow> v | _ \<Rightarrow> redact_json_value ra v)
    else if is_sensitive_key k then JString redacted else redact_token_usage_value ra v"
  have "map_of (map (\<lambda>e. (fst e, ?g (fst e) (snd e))) m) k = map_option (?g k) (map_of m k)"
    by (rule map_of_map_entries)
  with JObject usage_counter_keys_counted [OF assms] show ?thesis
    by (cases "map_of m k") (simp_all add: usage_field_def as_u64_redact_json_value)
qed (simp_all add: usage_field_def json_get_def)

text \<open>
  Redaction does not disturb the token accounting: although the counter names contain
  the sensitive word "token", every usage figure the reducer reads is the same before and
  after redaction.
\<close>

theorem redaction_keeps_usage:
  "usage_total_tokens (redact_token_usage_value ra u) = usage_total_tokens u \<and>
   usage_input_tokens (redact_token_usage_value ra u) = usage_input_tokens u \<and>
   usage_output_tokens (redact_token_usage_value ra u) = usage_output_tokens u \<and>
   usage_cache_input_tokens (redact_token_usage_value ra u) = usage_cache_input_tokens u \<and>
   usage_cache_creation_input_tokens (redact_token_usage_value ra u) =
     usage_cache_creation_input_tokens u"
proof -
  have keys:
    "usage_total_tokens_field (redact_token_usage_value ra u) = usage_total_tokens_field u"
    "usage_input_tokens (redact_token_usage_value ra u) = usage_input_tokens u"
    "usage_output_tokens (redact_token_usage_value ra u) = usage_output_tokens u"
    "usage_cache_input_tokens (redact_token_usage_value ra u) = usage_cache_input_tokens u"
    "usage_cache_creation_input_tokens (redact_token_usage_value ra u) =
      usage_cache_creation_input_tokens u"
    by (simp_all add: usage_total_tokens_field_def usage_input_tokens_def
      usage_output_tokens_def usage_cache_input_tokens_def usage_cache_creation_input_tokens_def
      usage_field_redacted usage_counter_keys_def)
  then show ?thesis by (simp only: usage_total_tokens_def simp_thms)
qed

lemma redacted_not_flag: "redacted \<notin> set next_token_flags"
  by (simp add: redacted_def next_token_flags_def)

lemma length_redact_flag_values [simp]: "length (redact_flag_values argv) = length argv"
  by (induction argv rule: redact_flag_values.induct) auto

lemma redact_flag_values_hd:
  "redact_flag_values argv \<noteq> [] \<Longrightarrow> hd (redact_flag_values argv) = hd argv"
  by (induction argv rule: redact_flag_values.induct) auto

lemma redact_flag_values_next:
  "Suc i < length argv \<Longrightarrow> redact_flag_values argv ! i \<in> set next_token_flags \<Longrightarrow>
     redact_flag_values argv ! Suc i = redacted"
proof (induction argv arbitrary: i rule: redact_flag_values.induct)
  case (1 a b rest)
  show ?case
  proof (cases "a \<in> set next_token_flags")
    case True
    show ?thesis
    proof (cases i)
      case 0
      with True show ?thesis by simp
    next
      case (Suc j)
      show ?thesis
      proof (cases j)
        case 0
        with Suc True 1(4) redacted_not_flag show ?thesis by simp
      next
        case (Suc l)
        with \<open>i = Suc j\<close> True 1(1) [OF True, of l] 1(3,4) show ?thesis by simp
      qed
    qed
  next
    case False
    show ?thesis
    proof (cases i)
      case 0
      with False 1(4) show ?thesis by simp
    next
      case (Suc j)
      with False 1(2) [OF False, of j] 1(3,4) show ?thesis by simp
    qed
  qed
qed simp_all

lemma redact_flag_values_nth:
  "i < length argv \<Longrightarrow> redact_flag_values argv ! i = redacted \<or> redact_flag_values argv ! i = argv ! i"
proof (induction argv arbitrary: i rule: redact_flag_values.induct)
  case (1 a b rest)
  consider "i = 0" | "i = 1" | j where "i = Suc (Suc j)" by (metis One_nat_def not0_implies_Suc)
  then show ?case
    using 1(1) 1(2) [of "i - 1"] 1(3) by cases (auto split: if_splits)
qed simp_all

text \<open>
  A redacted command line has as many arguments, no value of a sensitive
  \<open>key=value\<close> argument survives, and an argument that follows a secret flag is the marker,
  so no flag of the list is followed by a readable value.
\<close>

theorem redact_argv_correct:
  assumes "i < length argv"
  shows "length (redact_argv ra argv) = length argv \<and>
    (Suc i < length argv \<longrightarrow> redact_argv ra argv ! i \<in> set next_token_flags \<longrightarrow>
       redact_argv ra argv ! Suc i = redacted) \<and>
    (\<forall>k v. split_once (CHR ''='') (argv ! i) = Some (k, v) \<longrightarrow> is_sensitive_key k \<longrightarrow>
       redact_argv ra argv ! i \<in> {redacted, k @ ''='' @ redacted})"
  using assms redact_flag_values_next [of i "map (redact_arg ra) argv"]
    redact_flag_values_nth [of i "map (redact_arg ra) argv"]
  by (auto simp: redact_argv_def redact_arg_def)

theorem redact_argv_correct_witness:
  "redact_argv (\<lambda>pat rep s. s) [''curl'', ''--token'', ''t0p''] ! 2 = redacted"
proof -
  have "redact_argv (\<lambda>pat rep s. s) [''curl'', ''--token'', ''t0p''] ! 1 = ''--token''"
    by code_simp
  with redact_argv_correct [of 1 "[''curl'', ''--token'', ''t0p'']" "\<lambda>pat rep s. s"]
  show ?thesis by (simp add: next_token_flags_def numeral_2_eq_2)
qed

end
