(* ===== verification/Threads.thy ===== *)
theory Threads
  imports EventLog Redaction
begin

text \<open>
  \<open>crates/core/src/threads.rs\<close>: the handle of a thread, which keeps the replayed state and
  the active processes and tools beside the log writer, and the store that opens handles.
  \<open>append\<close> reads the clock twice, once for the event it applies to its own state and once in
  the writer; both instants are arguments. The readable history is a list of JSON records;
  the formatting of instants and identifiers is a parameter.
\<close>

section \<open>Handles\<close>

record thread_handle =
  h_thread_id :: thread_id
  h_writer :: event_log_writer
  h_state :: thread_state
  h_active_processes :: "process_id set"
  h_active_tools :: "tool_id set"

fun apply_runtime_event_tracking ::
  "thread_event_kind \<Rightarrow> process_id set \<times> tool_id set \<Rightarrow> process_id set \<times> tool_id set" where
  "apply_runtime_event_tracking (ProcessStarted p) (ps, ts) = (insert (psp_process_id p) ps, ts)"
| "apply_runtime_event_tracking (ProcessExited pid _ _) (ps, ts) = (ps - {pid}, ts)"
| "apply_runtime_event_tracking (ToolStarted tool _ _ _) (ps, ts) = (ps, insert tool ts)"
| "apply_runtime_event_tracking (ToolCompleted tool _ _ _ _) (ps, ts) = (ps, ts - {tool})"
| "apply_runtime_event_tracking _ (ps, ts) = (ps, ts)"

definition open_new ::
  "deserializer \<Rightarrow> thread_id \<Rightarrow> log_file \<Rightarrow> log_error + thread_handle \<times> log_file" where
  "open_new de tid file =
     rbind (open_writer de tid file) (\<lambda>(writer, file').
       Inr (\<lparr>h_thread_id = tid, h_writer = writer, h_state = new_state tid,
             h_active_processes = {}, h_active_tools = {}\<rparr>, file'))"

text \<open>The loop over the events of an existing log.\<close>

fun recover ::
  "thread_event list \<Rightarrow> thread_state \<times> process_id set \<times> tool_id set \<Rightarrow>
     state_error + thread_state \<times> process_id set \<times> tool_id set" where
  "recover [] (s, active) = Inr (s, active)"
| "recover (e # es) (s, active) =
     rbind (apply_event e s) (\<lambda>s'.
       recover es (s', apply_runtime_event_tracking (ev_kind e) active))"

definition open_existing ::
  "deserializer \<Rightarrow> thread_id \<Rightarrow> log_file \<Rightarrow> log_error + thread_handle \<times> log_file" where
  "open_existing de tid file =
     rbind (open_with_events de tid file) (\<lambda>(writer, events, file').
       case recover events (new_state tid, {}, {}) of
         Inl e \<Rightarrow> Inl (LogStateError e)
       | Inr (s, ps, ts) \<Rightarrow>
           Inr (\<lparr>h_thread_id = tid, h_writer = writer, h_state = s,
                 h_active_processes = ps, h_active_tools = ts\<rparr>, file'))"

definition handle_append ::
  "replacer \<Rightarrow> serializer \<Rightarrow> timestamp \<Rightarrow> timestamp \<Rightarrow> thread_event_kind \<Rightarrow>
     thread_handle \<Rightarrow> log_file \<Rightarrow> log_error + thread_event \<times> thread_handle \<times> log_file" where
  "handle_append ra ser now1 now2 kind0 h file =
     (let kind = redact_thread_event_kind ra kind0;
          event = \<lparr>ev_seq = w_next_seq (h_writer h), ev_timestamp = now1,
                   ev_thread_id = h_thread_id h, ev_kind = kind\<rparr>
      in case apply_event event (h_state h) of
           Inl e \<Rightarrow> Inl (LogStateError e)
         | Inr next_state \<Rightarrow>
             let (ps, ts) = apply_runtime_event_tracking kind
                              (h_active_processes h, h_active_tools h)
             in rbind (append_event ser (h_writer h) now2 kind file) (\<lambda>(written, writer, file').
                  Inr (written,
                    h\<lparr>h_writer := writer, h_state := next_state,
                      h_active_processes := ps, h_active_tools := ts\<rparr>, file')))"

definition events_since ::
  "deserializer \<Rightarrow> event_seq \<Rightarrow> thread_handle \<Rightarrow> log_file \<Rightarrow> log_error + thread_event list" where
  "events_since de since h file = read_events_since de (h_thread_id h) file since"

definition take_active_process_ids :: "thread_handle \<Rightarrow> process_id set \<times> thread_handle" where
  "take_active_process_ids h =
     (h_active_processes h,
      h\<lparr>h_active_processes := {},
        h_state := (h_state h)\<lparr>st_running_processes :=
          st_running_processes (h_state h) - h_active_processes h\<rparr>\<rparr>)"

section \<open>The readable history\<close>

definition opt_json :: "('a \<Rightarrow> json) \<Rightarrow> 'a option \<Rightarrow> json" where
  "opt_json f x = (case x of None \<Rightarrow> JNull | Some y \<Rightarrow> f y)"

fun readable_history_record ::
  "(timestamp \<Rightarrow> string) \<Rightarrow> (uuid \<Rightarrow> string) \<Rightarrow> thread_event \<Rightarrow> json option" where
  "readable_history_record fmt uuid_str e =
     (case ev_kind e of
        TurnStarted p \<Rightarrow>
          Some (JObject [(''seq'', JNumber (PosInt (ev_seq e))),
            (''timestamp'', JString (fmt (ev_timestamp e))),
            (''turn_id'', JString (uuid_str (turn_uuid (tsp_turn_id p)))),
            (''role'', JString ''user''), (''text'', JString (tsp_input p))])
      | AssistantMessage p \<Rightarrow>
          Some (JObject [(''seq'', JNumber (PosInt (ev_seq e))),
            (''timestamp'', JString (fmt (ev_timestamp e))),
            (''turn_id'', opt_json (\<lambda>t. JString (uuid_str (turn_uuid t))) (amp_turn_id p)),
            (''role'', JString ''assistant''), (''text'', JString (amp_text p)),
            (''model'', opt_json JString (amp_model p)),
            (''response_id'', opt_json JString (amp_response_id p)),
            (''token_usage'', opt_json (\<lambda>u. u) (amp_token_usage p))])
      | _ \<Rightarrow> None)"

text \<open>\<open>written\<close> says whether the history file took the record; a failure is only logged.\<close>

definition append_readable_history_event ::
  "(timestamp \<Rightarrow> string) \<Rightarrow> (uuid \<Rightarrow> string) \<Rightarrow> bool \<Rightarrow> thread_event \<Rightarrow> json list \<Rightarrow> json list" where
  "append_readable_history_event fmt uuid_str written e history =
     (case readable_history_record fmt uuid_str e of
        None \<Rightarrow> history
      | Some r \<Rightarrow> if written then history @ [r] else history)"

section \<open>The store\<close>

datatype thread_dir = DirMissing | NotADirectory | ThreadDir log_file

datatype store_error = DirNotADirectory | CwdNotCanonical | StoreLogError log_error

definition log_result :: "log_error + 'a \<Rightarrow> store_error + 'a" where
  "log_result r = map_sum StoreLogError id r"

record dir_entry =
  de_name :: "string option"
  de_is_dir :: bool

text \<open>
  \<open>list_threads\<close>: \<open>None\<close> as the name of an entry stands for a name that is not UTF-8.
\<close>

definition list_threads :: "(string \<Rightarrow> thread_id option) \<Rightarrow> dir_entry list option \<Rightarrow> thread_id list" where
  "list_threads parse_id dir =
     (case dir of
        None \<Rightarrow> []
      | Some entries \<Rightarrow>
          sort (List.map_filter
            (\<lambda>entry. if \<not> de_is_dir entry then None
                     else Option.bind (de_name entry) parse_id) entries))"

definition open_thread_without_recovery ::
  "deserializer \<Rightarrow> thread_id \<Rightarrow> thread_dir \<Rightarrow>
     store_error + (thread_handle \<times> log_file) option" where
  "open_thread_without_recovery de tid dir =
     (case dir of
        DirMissing \<Rightarrow> Inr None
      | NotADirectory \<Rightarrow> Inl DirNotADirectory
      | ThreadDir file \<Rightarrow>
          rbind (log_result (open_existing de tid file)) (\<lambda>r. Inr (Some r)))"

definition resume_thread ::
  "deserializer \<Rightarrow> thread_id \<Rightarrow> thread_dir \<Rightarrow>
     store_error + (thread_handle \<times> log_file) option" where
  "resume_thread de tid dir = open_thread_without_recovery de tid dir"

definition store_read_events_since ::
  "deserializer \<Rightarrow> thread_id \<Rightarrow> event_seq \<Rightarrow> thread_dir \<Rightarrow>
     store_error + thread_event list option" where
  "store_read_events_since de tid since dir =
     (case dir of
        DirMissing \<Rightarrow> Inr None
      | NotADirectory \<Rightarrow> Inl DirNotADirectory
      | ThreadDir file \<Rightarrow>
          rbind (log_result (read_events_since de tid file since)) (\<lambda>es. Inr (Some es)))"

definition store_read_state ::
  "deserializer \<Rightarrow> thread_id \<Rightarrow> thread_dir \<Rightarrow> store_error + thread_state option" where
  "store_read_state de tid dir =
     (case dir of
        DirMissing \<Rightarrow> Inr None
      | NotADirectory \<Rightarrow> Inl DirNotADirectory
      | ThreadDir file \<Rightarrow> rbind (log_result (read_state de tid file)) (\<lambda>s. Inr (Some s)))"

text \<open>\<open>tid\<close> is the fresh identifier, \<open>canonicalize\<close> the file system's answer for the path.\<close>

definition create_thread ::
  "replacer \<Rightarrow> serializer \<Rightarrow> deserializer \<Rightarrow> (string \<Rightarrow> string option) \<Rightarrow> thread_id \<Rightarrow>
     timestamp \<Rightarrow> timestamp \<Rightarrow> string \<Rightarrow> log_file \<Rightarrow> store_error + thread_handle \<times> log_file" where
  "create_thread ra ser de canonicalize tid now1 now2 cwd file =
     (case canonicalize cwd of
        None \<Rightarrow> Inl CwdNotCanonical
      | Some dir \<Rightarrow>
          rbind (log_result (open_new de tid file)) (\<lambda>(h, file1).
            rbind (log_result (handle_append ra ser now1 now2 (ThreadCreated dir) h file1))
              (\<lambda>(_, h', file2). Inr (h', file2))))"

section \<open>States up to the archive and pause instants\<close>

text \<open>
  The handle applies an event stamped by the first clock reading and logs it stamped by the
  second, so its state and the replayed one may differ in the two instants a state keeps.
\<close>

definition forget_times :: "thread_state \<Rightarrow> thread_state" where
  "forget_times s =
     s\<lparr>st_archived_at := map_option (\<lambda>_. 0) (st_archived_at s),
       st_paused_at := map_option (\<lambda>_. 0) (st_paused_at s)\<rparr>"

lemma forget_times_simps [simp]:
  "st_thread_id (forget_times s) = st_thread_id s"
  "st_last_seq (forget_times s) = st_last_seq s"
  "st_active_turn_id (forget_times s) = st_active_turn_id s"
  "st_system_prompt_sha256 (forget_times s) = st_system_prompt_sha256 s"
  "st_system_prompt_text (forget_times s) = st_system_prompt_text s"
  "st_pending_approvals (forget_times s) = st_pending_approvals s"
  "st_running_processes (forget_times s) = st_running_processes s"
  "st_failed_processes (forget_times s) = st_failed_processes s"
  "st_counted_usage_response_ids (forget_times s) = st_counted_usage_response_ids s"
  "forget_times (s\<lparr>st_last_seq := n\<rparr>) = forget_times s\<lparr>st_last_seq := n\<rparr>"
  by (simp_all add: forget_times_def)

lemma forget_times_idem [simp]: "forget_times (forget_times s) = forget_times s"
  by (simp add: forget_times_def option.map_comp comp_def)

lemma forget_times_record_token_usage:
  "forget_times (record_token_usage s rid u) = record_token_usage (forget_times s) rid u"
  by (simp add: forget_times_def record_token_usage_def add_usage_def split: option.split)

lemma forget_times_apply_config:
  "forget_times (apply_config c s) = apply_config c (forget_times s)"
  by (simp add: forget_times_def apply_config_def cong: option.case_cong)

lemma apply_kind_forget:
  "map_sum id forget_times (apply_kind t k s) =
     map_sum id forget_times (apply_kind u k (forget_times s))"
proof (cases k)
  case (ThreadSystemPromptSnapshot sha x src)
  then show ?thesis
    by (simp add: apply_kind.simps(2) forget_times_def option.map_comp comp_def split: option.split)
next
  case (ThreadConfigUpdated c)
  then show ?thesis by (simp add: forget_times_apply_config)
next
  case (AgentStep p)
  then show ?thesis by (simp add: forget_times_record_token_usage)
next
  case (AssistantMessage p)
  then show ?thesis by (simp add: forget_times_record_token_usage)
next
  case (ProcessExited pid code reason)
  then show ?thesis by (cases code) (simp_all add: forget_times_def option.map_comp comp_def)
qed (simp_all add: forget_times_def option.map_comp comp_def)

lemma apply_event_forget:
  assumes "forget_times u = forget_times s" and "apply_event e u = Inr u'"
    and "ev_seq f = ev_seq e" and "ev_thread_id f = ev_thread_id e" and "ev_kind f = ev_kind e"
  shows "\<exists>s'. apply_event f s = Inr s' \<and> forget_times u' = forget_times s'"
proof -
  have ids: "st_thread_id u = st_thread_id s" "st_last_seq u = st_last_seq s"
    using assms(1) by (metis forget_times_simps(1,2))+
  from assms(2) obtain m where m: "apply_kind (ev_timestamp e) (ev_kind e) u = Inr m"
    and u': "u' = m\<lparr>st_last_seq := ev_seq e\<rparr>" by (auto simp: apply_event_Inr)
  have "map_sum id forget_times (apply_kind (ev_timestamp e) (ev_kind e) u) =
      map_sum id forget_times (apply_kind (ev_timestamp f) (ev_kind e) s)"
    by (metis apply_kind_forget assms(1))
  with m obtain n where "apply_kind (ev_timestamp f) (ev_kind e) s = Inr n"
    "forget_times n = forget_times m"
    by (cases "apply_kind (ev_timestamp f) (ev_kind e) s") auto
  with assms(2-5) ids u' show ?thesis by (auto simp: apply_event_Inr)
qed

section \<open>The writer's contract\<close>

text \<open>
  What a handle relies on of its writer: a successful \<open>put\<close> extends the stored events by
  one event, numbered next, of the writer's thread and of the kind and instant given.
\<close>

locale event_store =
  fixes holds :: "'w \<Rightarrow> thread_event list \<Rightarrow> bool"
    and put :: "timestamp \<Rightarrow> thread_event_kind \<Rightarrow> 'w \<Rightarrow> log_error + thread_event \<times> 'w"
    and owner :: "'w \<Rightarrow> thread_id"
  assumes put_holds: "holds w es \<Longrightarrow> put t k w = Inr (e, w') \<Longrightarrow> holds w' (es @ [e])"
    and put_event: "holds w es \<Longrightarrow> put t k w = Inr (e, w') \<Longrightarrow>
      e = \<lparr>ev_seq = of_nat (length es) + 1, ev_timestamp = t, ev_thread_id = owner w, ev_kind = k\<rparr>"
    and put_owner: "put t k w = Inr (e, w') \<Longrightarrow> owner w' = owner w"
begin

lemma put_replays:
  assumes "holds w es" and "replay es s0 = Inr s" and "forget_times u = forget_times s"
    and "apply_event \<lparr>ev_seq = of_nat (length es) + 1, ev_timestamp = t1,
           ev_thread_id = owner w, ev_kind = k\<rparr> u = Inr u'"
    and "put t2 k w = Inr (e, w')"
  shows "\<exists>s'. replay (es @ [e]) s0 = Inr s' \<and> forget_times u' = forget_times s'"
  using apply_event_forget [OF assms(3,4), of e] put_event [OF assms(1,5)] assms(2)
  by (auto simp: rp.run_snoc)

end

definition put_log ::
  "serializer \<Rightarrow> timestamp \<Rightarrow> thread_event_kind \<Rightarrow> event_log_writer \<times> log_file \<Rightarrow>
     log_error + thread_event \<times> event_log_writer \<times> log_file" where
  "put_log ser t k log = append_event ser (fst log) t k (snd log)"

interpretation log: event_store "\<lambda>log. log_holds ser (fst log) (snd log)" "put_log ser"
    "\<lambda>log. w_thread_id (fst log)" for ser
proof unfold_locales
  fix w t k e w' and es :: "thread_event list"
  show "w_thread_id (fst w') = w_thread_id (fst w)" if "put_log ser t k w = Inr (e, w')"
    using that by (cases w') (auto simp: put_log_def append_event_Inr)
  assume es: "log_holds ser (fst w) (snd w) es" "put_log ser t k w = Inr (e, w')"
  from append_holds [OF es(1)] es(2) show "log_holds ser (fst w') (snd w') (es @ [e])"
    by (cases w') (auto simp: put_log_def)
  from es show "e = \<lparr>ev_seq = of_nat (length es) + 1, ev_timestamp = t,
      ev_thread_id = w_thread_id (fst w), ev_kind = k\<rparr>"
    by (cases w') (auto simp: put_log_def append_event_Inr log_holds_def)
qed

section \<open>The handle and its log\<close>

fun started_tools :: "thread_event_kind \<Rightarrow> tool_id set" where
  "started_tools (ToolStarted tool _ _ _) = {tool}"
| "started_tools _ = {}"

fun completed_tools :: "thread_event_kind \<Rightarrow> tool_id set" where
  "completed_tools (ToolCompleted tool _ _ _ _) = {tool}"
| "completed_tools _ = {}"

lemma apply_runtime_event_tracking_eq:
  "apply_runtime_event_tracking k (ps, ts) =
     ((ps - exited_processes k) \<union> started_processes k, (ts - completed_tools k) \<union> started_tools k)"
  by (cases k) auto

lemma recover_eq:
  "recover es (s, ps, ts) =
     rbind (replay es s) (\<lambda>s'. Inr (s',
       track (started_processes \<circ> ev_kind) (exited_processes \<circ> ev_kind) es ps,
       track (started_tools \<circ> ev_kind) (completed_tools \<circ> ev_kind) es ts))"
proof (induction es arbitrary: s ps ts)
  case (Cons e es)
  then show ?case
    by (cases "apply_event e s") (simp_all add: apply_runtime_event_tracking_eq)
qed simp

text \<open>The handle is in step with the file, which holds exactly the events \<open>es\<close>.\<close>

definition handle_ok :: "serializer \<Rightarrow> thread_handle \<Rightarrow> log_file \<Rightarrow> thread_event list \<Rightarrow> bool" where
  "handle_ok ser h file es \<longleftrightarrow>
     log_holds ser (h_writer h) file es \<and> w_thread_id (h_writer h) = h_thread_id h \<and>
     (\<exists>s. replay es (new_state (h_thread_id h)) = Inr s \<and> forget_times (h_state h) = forget_times s) \<and>
     h_active_processes h =
       track (started_processes \<circ> ev_kind) (exited_processes \<circ> ev_kind) es {} \<and>
     h_active_tools h = track (started_tools \<circ> ev_kind) (completed_tools \<circ> ev_kind) es {}"

lemma handle_append_Inr:
  "handle_append ra ser t1 t2 k h file = Inr (e, h', file') \<longleftrightarrow>
     (\<exists>s writer.
       apply_event \<lparr>ev_seq = w_next_seq (h_writer h), ev_timestamp = t1,
         ev_thread_id = h_thread_id h, ev_kind = redact_thread_event_kind ra k\<rparr> (h_state h) = Inr s \<and>
       append_event ser (h_writer h) t2 (redact_thread_event_kind ra k) file = Inr (e, writer, file') \<and>
       h' = h\<lparr>h_writer := writer, h_state := s,
         h_active_processes := fst (apply_runtime_event_tracking (redact_thread_event_kind ra k)
           (h_active_processes h, h_active_tools h)),
         h_active_tools := snd (apply_runtime_event_tracking (redact_thread_event_kind ra k)
           (h_active_processes h, h_active_tools h))\<rparr>)"
  by (auto simp: handle_append_def Let_def rbind_eq_Inr split: sum.splits prod.splits)

lemma append_in_step:
  assumes "handle_ok ser h file es"
    and "handle_append ra ser t1 t2 k h file = Inr (e, h', file')"
  shows "handle_ok ser h' file' (es @ [e]) \<and> ev_kind e = redact_thread_event_kind ra k \<and>
    ev_timestamp e = t2 \<and> h_thread_id h' = h_thread_id h"
proof -
  let ?k = "redact_thread_event_kind ra k"
  from assms(2) obtain s writer where
    s: "apply_event \<lparr>ev_seq = w_next_seq (h_writer h), ev_timestamp = t1,
      ev_thread_id = h_thread_id h, ev_kind = ?k\<rparr> (h_state h) = Inr s"
    and w: "append_event ser (h_writer h) t2 ?k file = Inr (e, writer, file')"
    and h': "h' = h\<lparr>h_writer := writer, h_state := s,
         h_active_processes := fst (apply_runtime_event_tracking ?k
           (h_active_processes h, h_active_tools h)),
         h_active_tools := snd (apply_runtime_event_tracking ?k
           (h_active_processes h, h_active_tools h))\<rparr>"
    by (auto simp: handle_append_Inr)
  from assms(1) obtain r where holds: "log_holds ser (h_writer h) file es"
    and tid: "w_thread_id (h_writer h) = h_thread_id h"
    and r: "replay es (new_state (h_thread_id h)) = Inr r" "forget_times (h_state h) = forget_times r"
    by (auto simp: handle_ok_def)
  have seq: "w_next_seq (h_writer h) = of_nat (length es) + 1" using holds by (simp add: log_holds_def)
  have put: "put_log ser t2 ?k (h_writer h, file) = Inr (e, writer, file')"
    using w by (simp add: put_log_def)
  have "\<exists>s'. replay (es @ [e]) (new_state (h_thread_id h)) = Inr s' \<and> forget_times s = forget_times s'"
    using log.put_replays [of ser "(h_writer h, file)" es, OF _ r _ put] holds s tid seq by simp
  moreover have e: "ev_kind e = ?k" "ev_timestamp e = t2" and "log_holds ser writer file' (es @ [e])"
    using append_holds [OF holds w] by auto
  moreover have "w_thread_id writer = h_thread_id h" using w tid by (auto simp: append_event_Inr)
  ultimately show ?thesis
    using assms(1) h' by (simp add: handle_ok_def track_append apply_runtime_event_tracking_eq)
qed

text \<open>
  A handle stays in step with its log. If the file holds a thread's events and the
  handle's state is their replay (up to the instants of archiving and pausing) with the
  processes and tools these events leave active, then a successful append logs exactly one
  redacted event after them and the handle is in step with the longer log.
\<close>

theorem append_keeps_handle_in_step:
  assumes "handle_ok ser h file es"
    and "handle_append ra ser t1 t2 k h file = Inr (e, h', file')"
  shows "handle_ok ser h' file' (es @ [e]) \<and> ev_kind e = redact_thread_event_kind ra k \<and>
    ev_timestamp e = t2 \<and> h_thread_id h' = h_thread_id h"
  using assms by (rule append_in_step)

lemma open_existing_Inr:
  "open_existing de tid file = Inr (h, file') \<longleftrightarrow>
     (\<exists>w es s. open_with_events de tid file = Inr (w, es, file') \<and>
       replay es (new_state tid) = Inr s \<and>
       h = \<lparr>h_thread_id = tid, h_writer = w, h_state = s,
            h_active_processes = track (started_processes \<circ> ev_kind) (exited_processes \<circ> ev_kind) es {},
            h_active_tools = track (started_tools \<circ> ev_kind) (completed_tools \<circ> ev_kind) es {}\<rparr>)"
proof (cases "open_with_events de tid file")
  case (Inl e)
  then show ?thesis by (simp add: open_existing_def)
next
  case (Inr r)
  obtain w es f where "r = (w, es, f)" by (cases r)
  with Inr show ?thesis
    by (cases "replay es (new_state tid)") (auto simp: open_existing_def recover_eq)
qed

lemma open_existing_ok:
  assumes "open_with_events de tid file = Inr (w, es, file')" and "log_holds ser w file' es"
    and "w_thread_id w = tid" and "replay es (new_state tid) = Inr s"
  shows "\<exists>h. open_existing de tid file = Inr (h, file') \<and> handle_ok ser h file' es \<and>
    h_thread_id h = tid \<and> h_state h = s"
  using assms by (simp add: open_existing_Inr handle_ok_def)

text \<open>
  C1: nothing acknowledged is lost and nothing half-written survives. When the process stops
  during an append, after any number of bytes, reopening the thread gives a handle in step
  with the file, which holds the events before the append or these and the appended one; and
  the state recovered from a complete append is, up to the two instants, the state the
  running handle would have had.
\<close>

theorem crash_during_append_recovers:
  assumes "codec_ok ser de E" and "set es \<subseteq> E" and "e \<in> E" and "handle_ok ser h file es"
    and "handle_append ra ser t1 t2 k h file = Inr (e, h', file')"
  shows "\<exists>r crashed fs.
    open_existing de (h_thread_id h)
      (torn_append ser (h_writer h) t2 (redact_thread_event_kind ra k) n file) = Inr (r, crashed) \<and>
    handle_ok ser r crashed fs \<and>
    (if n < length (event_line ser e) then fs = es
     else fs = es @ [e] \<and> forget_times (h_state r) = forget_times (h_state h'))"
proof -
  let ?fs = "if n < length (event_line ser e) then es else es @ [e]"
  let ?torn = "torn_append ser (h_writer h) t2 (redact_thread_event_kind ra k) n file"
  from assms(4) have h: "log_holds ser (h_writer h) file es" "w_thread_id (h_writer h) = h_thread_id h"
    by (auto simp: handle_ok_def)
  from assms(5) obtain w' where "append_event ser (h_writer h) t2 (redact_thread_event_kind ra k) file =
      Inr (e, w', file')" by (auto simp: handle_append_Inr)
  from torn_append_spec [OF assms(1,2) h(1) this assms(3), of n] h(2)
  obtain v crashed where v: "open_with_events de (h_thread_id h) ?torn = Inr (v, ?fs, crashed)"
      "w_thread_id v = h_thread_id h" "log_holds ser v crashed ?fs" by auto
  have ok: "handle_ok ser h' file' (es @ [e])" "h_thread_id h' = h_thread_id h"
    using append_in_step [OF assms(4,5)] by auto
  from assms(4) ok obtain s s' where s: "replay es (new_state (h_thread_id h)) = Inr s"
    "replay (es @ [e]) (new_state (h_thread_id h)) = Inr s'" "forget_times (h_state h') = forget_times s'"
    by (auto simp: handle_ok_def)
  then have "\<exists>u. replay ?fs (new_state (h_thread_id h)) = Inr u" by auto
  then obtain u where u: "replay ?fs (new_state (h_thread_id h)) = Inr u" by blast
  from open_existing_ok [OF v(1,3,2) u] obtain r where
    r: "open_existing de (h_thread_id h) ?torn = Inr (r, crashed)" "handle_ok ser r crashed ?fs"
      "h_state r = u" by blast
  from u s r(3) have "\<not> n < length (event_line ser e) \<Longrightarrow> forget_times (h_state r) = forget_times (h_state h')"
    by simp
  with r(1,2) show ?thesis by (metis (full_types))
qed

text \<open>
  A refused event changes nothing and is refused exactly when the reducer refuses it or
  it cannot be serialized: an event the log could not replay is never written.
\<close>

theorem append_refused_iff:
  assumes "handle_ok ser h file es"
  shows "(\<exists>err. handle_append ra ser t1 t2 k h file = Inl err) \<longleftrightarrow>
    (\<exists>err. replay (es @ [\<lparr>ev_seq = w_next_seq (h_writer h), ev_timestamp = t2,
        ev_thread_id = h_thread_id h, ev_kind = redact_thread_event_kind ra k\<rparr>])
        (new_state (h_thread_id h)) = Inl err) \<or>
    ser \<lparr>ev_seq = w_next_seq (h_writer h), ev_timestamp = t2,
        ev_thread_id = h_thread_id h, ev_kind = redact_thread_event_kind ra k\<rparr> = None"
proof -
  let ?e = "\<lambda>t. \<lparr>ev_seq = w_next_seq (h_writer h), ev_timestamp = t,
        ev_thread_id = h_thread_id h, ev_kind = redact_thread_event_kind ra k\<rparr>"
  from assms obtain s where s: "replay es (new_state (h_thread_id h)) = Inr s"
    "forget_times (h_state h) = forget_times s" and w: "w_thread_id (h_writer h) = h_thread_id h"
    by (auto simp: handle_ok_def)
  have rep: "replay (es @ [?e t2]) (new_state (h_thread_id h)) = apply_event (?e t2) s"
    using s(1) by (simp add: rp.run_snoc)
  have "(\<exists>s'. apply_event (?e t1) (h_state h) = Inr s') \<longleftrightarrow> (\<exists>s'. apply_event (?e t2) s = Inr s')"
    using apply_event_forget [OF s(2), of "?e t1" _ "?e t2"]
      apply_event_forget [OF s(2) [symmetric], of "?e t2" _ "?e t1"] by auto
  then have app: "(\<exists>err. apply_event (?e t1) (h_state h) = Inl err) \<longleftrightarrow> (\<exists>err. apply_event (?e t2) s = Inl err)"
    by (cases "apply_event (?e t1) (h_state h)"; cases "apply_event (?e t2) s") auto
  have "(\<exists>err. handle_append ra ser t1 t2 k h file = Inl err) \<longleftrightarrow>
      (\<exists>err. apply_event (?e t1) (h_state h) = Inl err) \<or> ser (?e t2) = None"
    using w by (auto simp: handle_append_def append_event_def Let_def split: sum.split prod.split option.split)
  with app rep show ?thesis by simp
qed

text \<open>
  A running handle and a reopened one disagree on when a thread was archived whenever
  the two clock readings of the append differ: the handle keeps the first, the log the
  second.
\<close>

theorem archived_at_diverges:
  assumes "handle_ok ser h file es"
    and "handle_append ra ser t1 t2 (ThreadArchived reason) h file = Inr (e, h', file')"
  shows "st_archived_at (h_state h') = Some t1 \<and>
    (\<exists>s. replay (es @ [e]) (new_state (h_thread_id h)) = Inr s \<and> st_archived_at s = Some t2)"
proof -
  from append_in_step [OF assms] obtain s where
    s: "replay (es @ [e]) (new_state (h_thread_id h)) = Inr s"
    and e: "ev_kind e = ThreadArchived (map_option (redact_text ra) reason)" "ev_timestamp e = t2"
    by (auto simp: handle_ok_def)
  then have "st_archived_at s = Some t2"
    by (auto simp: rp.run_snoc rbind_eq_Inr apply_event_Inr)
  moreover have "st_archived_at (h_state h') = Some t1"
    using assms(2) by (auto simp: handle_append_Inr apply_event_Inr)
  ultimately show ?thesis using s by blast
qed

text \<open>
  Taking the active processes of a recovered handle returns exactly the processes whose
  start is logged without a later exit, and leaves neither active nor running ones.
\<close>

theorem take_active_processes_correct:
  assumes "handle_ok ser h file es" and "take_active_process_ids h = (taken, h')"
  shows "(pid \<in> taken \<longleftrightarrow>
      opened (started_processes \<circ> ev_kind) (exited_processes \<circ> ev_kind) es pid) \<and>
    h_active_processes h' = {} \<and> st_running_processes (h_state h') = {}"
proof -
  from assms(1) obtain s where s: "replay es (new_state (h_thread_id h)) = Inr s"
      "forget_times (h_state h) = forget_times s"
    and act: "h_active_processes h =
       track (started_processes \<circ> ev_kind) (exited_processes \<circ> ev_kind) es {}"
    by (auto simp: handle_ok_def)
  from s(2) have "st_running_processes (h_state h) = st_running_processes s"
    by (metis forget_times_simps(7))
  with replay_tracked [OF s(1)] act have "st_running_processes (h_state h) = h_active_processes h"
    by (simp add: new_state_def)
  with assms(2) act show ?thesis
    by (auto simp: take_active_process_ids_def track_iff_opened)
qed

text \<open>
  Listing the threads returns, sorted, the identifiers of exactly the directories whose
  name is the text of an identifier; a missing directory lists nothing.
\<close>

theorem list_threads_correct:
  "sorted (list_threads parse_id dir) \<and>
   set (list_threads parse_id dir) =
     {tid. \<exists>entries entry name. dir = Some entries \<and> entry \<in> set entries \<and> de_is_dir entry \<and>
        de_name entry = Some name \<and> parse_id name = Some tid}"
  by (fastforce simp: list_threads_def set_map_filter bind_eq_Some_conv split: option.splits if_splits)

section \<open>Witnesses\<close>

definition sample_handle :: thread_handle where
  "sample_handle =
     \<lparr>h_thread_id = sample_thread, h_writer = \<lparr>w_thread_id = sample_thread, w_next_seq = 1\<rparr>,
      h_state = new_state sample_thread, h_active_processes = {}, h_active_tools = {}\<rparr>"

abbreviation (input) no_redaction :: replacer where
  "no_redaction pat rep s \<equiv> s"

lemma sample_handle_ok: "handle_ok ser sample_handle None []"
  by (simp add: handle_ok_def sample_handle_def log_holds_def file_bytes_def)

lemma sample_handle_append:
  assumes "ser \<lparr>ev_seq = 1, ev_timestamp = 1000, ev_thread_id = sample_thread, ev_kind = k\<rparr> = Some line"
    and "k = ThreadUnpaused None \<or> k = ThreadArchived None"
  shows "\<exists>h'. handle_append no_redaction ser t 1000 k sample_handle None =
    Inr (\<lparr>ev_seq = 1, ev_timestamp = 1000, ev_thread_id = sample_thread, ev_kind = k\<rparr>, h',
      Some (line @ [newline]))"
  using assms
  by (auto simp: handle_append_Inr append_event_Inr sample_handle_def apply_event_Inr
      new_state_def event_seq_zero_def file_bytes_def)

theorem append_keeps_handle_in_step_witness:
  "\<exists>h' e. handle_ok (\<lambda>_. Some ''x'') h' (Some ''x\<newline>'') [e] \<and> ev_timestamp e = 1000"
proof -
  obtain h' where "handle_append no_redaction (\<lambda>_. Some ''x'') 999 1000 (ThreadUnpaused None)
      sample_handle None = Inr (\<lparr>ev_seq = 1, ev_timestamp = 1000, ev_thread_id = sample_thread,
        ev_kind = ThreadUnpaused None\<rparr>, h', Some (''x'' @ [newline]))"
    using sample_handle_append [of "\<lambda>_. Some ''x''" "ThreadUnpaused None" "''x''" 999] by auto
  from append_keeps_handle_in_step [OF sample_handle_ok this] show ?thesis
    unfolding newline_def append_Nil append_Cons by blast
qed

theorem crash_during_append_recovers_witness:
  "\<exists>r crashed. open_existing unary_de sample_thread (Some ''{'') = Inr (r, crashed) \<and>
     handle_ok unary_ser r crashed []"
proof -
  let ?e = "unpaused_event 1"
  have e: "?e = \<lparr>ev_seq = 1, ev_timestamp = 1000, ev_thread_id = sample_thread,
      ev_kind = ThreadUnpaused None\<rparr>"
    by (simp add: unpaused_event_def sample_event_def)
  have ser: "unary_ser ?e = Some ''{x}''"
    by (simp add: unary_ser_def e [symmetric] unary_line_values) (simp add: e unary_line_values)
  obtain h' where "handle_append no_redaction unary_ser 999 1000 (ThreadUnpaused None)
      sample_handle None = Inr (?e, h', Some (''{x}'' @ [newline]))"
    using sample_handle_append [of unary_ser "ThreadUnpaused None" "''{x}''" 999] ser e by auto
  from crash_during_append_recovers [OF unary_codec_ok _ _ sample_handle_ok this, of 1] ser
  show ?thesis
    by (auto simp: event_line_def torn_append_def sample_handle_def e [symmetric] file_bytes_def)
qed

theorem append_refused_iff_witness:
  "\<exists>err. handle_append no_redaction (\<lambda>_. None) 999 1000 (ThreadUnpaused None) sample_handle None = Inl err"
  using append_refused_iff [OF sample_handle_ok, where ser = "\<lambda>_. None" and ra = no_redaction and ?t1.0 = 999
      and ?t2.0 = 1000 and k = "ThreadUnpaused None"]
  by blast

theorem archived_at_diverges_witness:
  "\<exists>h' e s. handle_append no_redaction (\<lambda>_. Some ''x'') 999 1000 (ThreadArchived None)
     sample_handle None = Inr (e, h', Some ''x\<newline>'') \<and>
     st_archived_at (h_state h') = Some 999 \<and>
     replay [e] (new_state sample_thread) = Inr s \<and> st_archived_at s = Some 1000"
proof -
  obtain h' e where h: "handle_append no_redaction (\<lambda>_. Some ''x'') 999 1000 (ThreadArchived None)
      sample_handle None = Inr (e, h', Some (''x'' @ [newline]))"
    using sample_handle_append [of "\<lambda>_. Some ''x''" "ThreadArchived None" "''x''" 999] by auto
  from archived_at_diverges [OF sample_handle_ok this] h show ?thesis
    by (auto simp: newline_def sample_handle_def)
qed

theorem take_active_processes_correct_witness:
  "fst (take_active_process_ids sample_handle) = {}"
  using take_active_processes_correct [OF sample_handle_ok surjective_pairing]
  by (simp add: take_active_process_ids_def sample_handle_def)

end
