(* ===== verification/ExecPolicy.thy ===== *)
theory ExecPolicy
  imports Prelude
begin

text \<open>
  The command policy of \<open>crates/execpolicy/src\<close>: decisions, prefix rules, policies and their
  evaluation, the \<open>prefix_rule\<close> builtin and the loading of policy files. The Starlark
  evaluator and the shell splitter are parameters; a Starlark value is a string, a list or
  something else, known by the name of its type.
\<close>

section \<open>Decisions\<close>

datatype exec_decision = ExecAllow | ExecPrompt | ExecPromptStrict | ExecForbidden

fun exec_rank :: "exec_decision \<Rightarrow> nat" where
  "exec_rank ExecAllow = 0"
| "exec_rank ExecPrompt = 1"
| "exec_rank ExecPromptStrict = 2"
| "exec_rank ExecForbidden = 3"

lemma exec_rank_inject [simp]: "exec_rank a = exec_rank b \<longleftrightarrow> a = b"
  by (cases a; cases b) simp_all

text \<open>The derived \<open>Ord\<close>: the order of the variants.\<close>

instantiation exec_decision :: linorder
begin
definition less_eq_exec_decision :: "exec_decision \<Rightarrow> exec_decision \<Rightarrow> bool" where
  "less_eq_exec_decision a b \<longleftrightarrow> exec_rank a \<le> exec_rank b"
definition less_exec_decision :: "exec_decision \<Rightarrow> exec_decision \<Rightarrow> bool" where
  "less_exec_decision a b \<longleftrightarrow> exec_rank a < exec_rank b"
instance
  by standard (auto simp: less_eq_exec_decision_def less_exec_decision_def)
end

text \<open>An order by strictness, and the choice of the stricter of two decisions.\<close>

locale strictest =
  fixes rank :: "'d \<Rightarrow> nat" and stricter :: "'d \<Rightarrow> 'd \<Rightarrow> 'd"
  assumes rank_inject: "rank a = rank b \<Longrightarrow> a = b"
    and rank_stricter: "rank (stricter a b) = max (rank a) (rank b)"
begin

lemma stricter_cases: "stricter a b = a \<or> stricter a b = b"
  using rank_stricter [of a b] by (cases "rank a \<le> rank b") (auto simp: max_def dest: rank_inject)

lemma stricter_idem: "stricter a a = a"
  using stricter_cases by blast

lemma stricter_comm: "stricter a b = stricter b a"
  by (rule rank_inject) (simp add: rank_stricter max.commute)

lemma stricter_assoc: "stricter (stricter a b) c = stricter a (stricter b c)"
  by (rule rank_inject) (simp add: rank_stricter max.assoc)

lemma fold_stricter_rank: "rank (fold stricter ds d) = Max (insert (rank d) (rank ` set ds))"
proof (induction ds arbitrary: d)
  case Nil
  then show ?case by simp
next
  case (Cons e ds)
  have "Max (insert (rank (stricter e d)) (rank ` set ds)) =
      Max (insert (rank d) (rank ` set (e # ds)))"
  proof (cases "ds = []")
    case True
    then show ?thesis by (simp add: rank_stricter max.commute)
  next
    case False
    then show ?thesis by (simp add: rank_stricter max.assoc max.left_commute max.commute)
  qed
  with Cons show ?case by simp
qed

lemma fold_stricter_in: "fold stricter ds d \<in> insert d (set ds)"
proof (induction ds arbitrary: d)
  case (Cons e ds)
  from Cons [of "stricter e d"] stricter_cases [of e d] show ?case by auto
qed simp

lemma fold_stricter_upper: "x \<in> insert d (set ds) \<Longrightarrow> rank x \<le> rank (fold stricter ds d)"
  unfolding fold_stricter_rank by (rule Max_ge) auto

end

interpretation exec: strictest exec_rank "max :: exec_decision \<Rightarrow> _"
  by unfold_locales (auto simp: max_def less_eq_exec_decision_def)

definition decision_parse :: "string \<Rightarrow> string + exec_decision" where
  "decision_parse raw =
     (if raw = ''allow'' then Inr ExecAllow
      else if raw = ''prompt'' then Inr ExecPrompt
      else if raw = ''prompt_strict'' \<or> raw = ''promptStrict'' then Inr ExecPromptStrict
      else if raw = ''forbidden'' then Inr ExecForbidden
      else Inl raw)"

section \<open>Rules\<close>

datatype pattern_token = Single string | Alts "string list"

fun token_matches :: "pattern_token \<Rightarrow> string \<Rightarrow> bool" where
  "token_matches (Single expected) token = (expected = token)"
| "token_matches (Alts alternatives) token = list_ex (\<lambda>alt. alt = token) alternatives"

fun alternatives :: "pattern_token \<Rightarrow> string list" where
  "alternatives (Single expected) = [expected]"
| "alternatives (Alts alts) = alts"

record prefix_pattern =
  pp_first :: string
  pp_rest :: "pattern_token list"

fun tokens_match :: "pattern_token list \<Rightarrow> string list \<Rightarrow> bool" where
  "tokens_match (p # ps) (t # ts) = (if \<not> token_matches p t then False else tokens_match ps ts)"
| "tokens_match _ _ = True"

definition matches_prefix :: "prefix_pattern \<Rightarrow> string list \<Rightarrow> string list option" where
  "matches_prefix pattern cmd =
     (let pattern_length = length (pp_rest pattern) + 1 in
        if length cmd < pattern_length \<or> hd cmd \<noteq> pp_first pattern then None
        else if \<not> tokens_match (pp_rest pattern) (take (pattern_length - 1) (tl cmd)) then None
        else Some (take pattern_length cmd))"

datatype rule_match =
    PrefixRuleMatch (matched_prefix: "string list") exec_decision "string option"
  | HeuristicsRuleMatch "string list" exec_decision

fun match_decision :: "rule_match \<Rightarrow> exec_decision" where
  "match_decision (PrefixRuleMatch _ d _) = d"
| "match_decision (HeuristicsRuleMatch _ d) = d"

record prefix_rule =
  pr_pattern :: prefix_pattern
  pr_decision :: exec_decision
  pr_justification :: "string option"

definition rule_program :: "prefix_rule \<Rightarrow> string" where
  "rule_program rule = pp_first (pr_pattern rule)"

definition rule_matches :: "prefix_rule \<Rightarrow> string list \<Rightarrow> rule_match option" where
  "rule_matches rule cmd =
     map_option (\<lambda>prefix. PrefixRuleMatch prefix (pr_decision rule) (pr_justification rule))
       (matches_prefix (pr_pattern rule) cmd)"

section \<open>Policies\<close>

type_synonym policy = "string \<Rightarrow> prefix_rule list option"

definition empty_policy :: policy where
  "empty_policy = Map.empty"

definition add_rule :: "prefix_rule \<Rightarrow> policy \<Rightarrow> policy" where
  "add_rule rule policy =
     policy(rule_program rule \<mapsto>
       (case policy (rule_program rule) of Some rules \<Rightarrow> rules | None \<Rightarrow> []) @ [rule])"

definition add_prefix_rule :: "string list \<Rightarrow> exec_decision \<Rightarrow> policy \<Rightarrow> string + policy" where
  "add_prefix_rule pre decision policy =
     (case pre of
        [] \<Rightarrow> Inl ''prefix cannot be empty''
      | first_token # rest \<Rightarrow>
          Inr (add_rule
            \<lparr>pr_pattern = \<lparr>pp_first = first_token, pp_rest = map Single rest\<rparr>,
             pr_decision = decision, pr_justification = None\<rparr> policy))"

definition matches_for_command ::
  "policy \<Rightarrow> string list \<Rightarrow> (string list \<Rightarrow> exec_decision) option \<Rightarrow> rule_match list" where
  "matches_for_command policy cmd heuristics_fallback =
     (let matched_rules =
        (case cmd of
           first # _ \<Rightarrow>
             (case policy first of
                Some rules \<Rightarrow> List.map_filter (\<lambda>rule. rule_matches rule cmd) rules
              | None \<Rightarrow> [])
         | [] \<Rightarrow> [])
      in case heuristics_fallback of
           Some fallback \<Rightarrow>
             if matched_rules = [] then [HeuristicsRuleMatch cmd (fallback cmd)] else matched_rules
         | None \<Rightarrow> matched_rules)"

record evaluation =
  eval_decision :: exec_decision
  eval_matched_rules :: "rule_match list"

text \<open>\<open>iter().map(RuleMatch::decision).max()\<close>\<close>

fun max_decision :: "rule_match list \<Rightarrow> exec_decision option" where
  "max_decision [] = None"
| "max_decision (m # ms) = Some (fold max (map match_decision ms) (match_decision m))"

definition from_matches :: "rule_match list \<Rightarrow> evaluation" where
  "from_matches matched_rules =
     \<lparr>eval_decision = (case max_decision matched_rules of Some d \<Rightarrow> d | None \<Rightarrow> ExecPrompt),
      eval_matched_rules = matched_rules\<rparr>"

definition policy_check ::
  "policy \<Rightarrow> string list \<Rightarrow> (string list \<Rightarrow> exec_decision) \<Rightarrow> evaluation" where
  "policy_check policy cmd fallback = from_matches (matches_for_command policy cmd (Some fallback))"

definition check_multiple ::
  "policy \<Rightarrow> string list list \<Rightarrow> (string list \<Rightarrow> exec_decision) \<Rightarrow> evaluation" where
  "check_multiple policy commands fallback =
     from_matches (concat (map (\<lambda>cmd. matches_for_command policy cmd (Some fallback)) commands))"

section \<open>The prefix_rule builtin\<close>

datatype exec_policy_error =
    InvalidDecision string
  | InvalidPattern string
  | InvalidExample string
  | InvalidRule string
  | ExampleDidNotMatch "prefix_rule list" "string list"
  | ExampleDidMatch prefix_rule string
  | StarlarkError string

datatype star_value = StarStr string | StarList "star_value list" | StarOther string

fun get_type :: "star_value \<Rightarrow> string" where
  "get_type (StarStr _) = ''string''"
| "get_type (StarList _) = ''list''"
| "get_type (StarOther ty) = ty"

fun unpack_str :: "star_value \<Rightarrow> string option" where
  "unpack_str (StarStr s) = Some s"
| "unpack_str _ = None"

definition str_or :: "(string \<Rightarrow> exec_policy_error) \<Rightarrow> star_value \<Rightarrow> exec_policy_error + string" where
  "str_or err v = (case unpack_str v of Some s \<Rightarrow> Inr s | None \<Rightarrow> Inl (err (get_type v)))"

fun parse_pattern_token :: "star_value \<Rightarrow> exec_policy_error + pattern_token" where
  "parse_pattern_token (StarStr s) = Inr (Single s)"
| "parse_pattern_token (StarList items) =
     rbind (try_map (str_or (\<lambda>ty. InvalidPattern
         (''pattern alternative must be a string (got '' @ ty @ '')''))) items)
       (\<lambda>tokens. case tokens of
          [] \<Rightarrow> Inl (InvalidPattern ''pattern alternatives cannot be empty'')
        | [single] \<Rightarrow> Inr (Single single)
        | _ \<Rightarrow> Inr (Alts tokens))"
| "parse_pattern_token (StarOther ty) =
     Inl (InvalidPattern (''pattern element must be a string or list of strings (got '' @ ty @ '')''))"

definition parse_pattern :: "star_value list \<Rightarrow> exec_policy_error + pattern_token list" where
  "parse_pattern items =
     rbind (try_map parse_pattern_token items) (\<lambda>tokens.
       if tokens = [] then Inl (InvalidPattern ''pattern cannot be empty'') else Inr tokens)"

definition parse_string_example ::
  "(string \<Rightarrow> string list option) \<Rightarrow> string \<Rightarrow> exec_policy_error + string list" where
  "parse_string_example shlex_split raw =
     (case shlex_split raw of
        None \<Rightarrow> Inl (InvalidExample ''example string has invalid shell syntax'')
      | Some tokens \<Rightarrow>
          if tokens = [] then Inl (InvalidExample ''example cannot be an empty string'')
          else Inr tokens)"

definition parse_list_example :: "star_value list \<Rightarrow> exec_policy_error + string list" where
  "parse_list_example items =
     rbind (try_map (str_or (\<lambda>ty. InvalidExample
         (''example tokens must be strings (got '' @ ty @ '')''))) items)
       (\<lambda>tokens. if tokens = [] then Inl (InvalidExample ''example cannot be an empty list'')
                 else Inr tokens)"

fun parse_example ::
  "(string \<Rightarrow> string list option) \<Rightarrow> star_value \<Rightarrow> exec_policy_error + string list" where
  "parse_example shlex_split (StarStr raw) = parse_string_example shlex_split raw"
| "parse_example shlex_split (StarList items) = parse_list_example items"
| "parse_example shlex_split (StarOther ty) =
     Inl (InvalidExample (''example must be a string or list of strings (got '' @ ty @ '')''))"

definition parse_examples ::
  "(string \<Rightarrow> string list option) \<Rightarrow> star_value list \<Rightarrow> exec_policy_error + string list list" where
  "parse_examples shlex_split items = try_map (parse_example shlex_split) items"

definition render_example :: "(string list \<Rightarrow> string option) \<Rightarrow> string list \<Rightarrow> string" where
  "render_example try_join example =
     (case try_join example of Some s \<Rightarrow> s | None \<Rightarrow> ''unable to render example'')"

definition validate_match_examples ::
  "(string list \<Rightarrow> string option) \<Rightarrow> prefix_rule list \<Rightarrow> string list list \<Rightarrow>
     exec_policy_error + unit" where
  "validate_match_examples try_join rules examples =
     (let unmatched = map (render_example try_join)
            (filter (\<lambda>example. \<not> list_ex (\<lambda>rule. rule_matches rule example \<noteq> None) rules) examples)
      in if unmatched = [] then Inr () else Inl (ExampleDidNotMatch rules unmatched))"

fun validate_not_match_examples ::
  "(string list \<Rightarrow> string option) \<Rightarrow> prefix_rule list \<Rightarrow> string list list \<Rightarrow>
     exec_policy_error + unit" where
  "validate_not_match_examples try_join rules [] = Inr ()"
| "validate_not_match_examples try_join rules (example # examples) =
     (case List.find (\<lambda>rule. rule_matches rule example \<noteq> None) rules of
        Some rule \<Rightarrow> Inl (ExampleDidMatch rule (render_example try_join example))
      | None \<Rightarrow> validate_not_match_examples try_join rules examples)"

record rule_call =
  rc_pattern :: "star_value list"
  rc_decision :: "string option"
  rc_match :: "star_value list option"
  rc_not_match :: "star_value list option"
  rc_justification :: "string option"

definition optional_examples ::
  "(string \<Rightarrow> string list option) \<Rightarrow> star_value list option \<Rightarrow>
     exec_policy_error + string list list" where
  "optional_examples shlex_split items =
     (case items of None \<Rightarrow> Inr [] | Some xs \<Rightarrow> parse_examples shlex_split xs)"

definition head_rules ::
  "pattern_token list \<Rightarrow> exec_decision \<Rightarrow> string option \<Rightarrow> prefix_rule list" where
  "head_rules tokens decision justification =
     (case tokens of
        [] \<Rightarrow> []
      | first_token # remaining \<Rightarrow>
          map (\<lambda>head. \<lparr>pr_pattern = \<lparr>pp_first = head, pp_rest = remaining\<rparr>,
                        pr_decision = decision, pr_justification = justification\<rparr>)
            (alternatives first_token))"

definition prefix_rule_builtin ::
  "(string \<Rightarrow> string list option) \<Rightarrow> (string list \<Rightarrow> string option) \<Rightarrow> rule_call \<Rightarrow> policy \<Rightarrow>
     exec_policy_error + policy" where
  "prefix_rule_builtin shlex_split try_join call builder =
     rbind (case rc_decision call of
              Some raw \<Rightarrow> map_sum InvalidDecision id (decision_parse raw)
            | None \<Rightarrow> Inr ExecAllow) (\<lambda>decision.
     rbind (case rc_justification call of
              Some raw \<Rightarrow> if trim raw = [] then Inl (InvalidRule ''justification cannot be empty'')
                          else Inr (Some raw)
            | None \<Rightarrow> Inr None) (\<lambda>justification.
     rbind (parse_pattern (rc_pattern call)) (\<lambda>pattern_tokens.
     rbind (optional_examples shlex_split (rc_match call)) (\<lambda>matches.
     rbind (optional_examples shlex_split (rc_not_match call)) (\<lambda>not_matches.
       if pattern_tokens = [] then Inl (InvalidPattern ''pattern cannot be empty'')
       else let rules = head_rules pattern_tokens decision justification in
         rbind (validate_not_match_examples try_join rules not_matches) (\<lambda>_.
         rbind (validate_match_examples try_join rules matches) (\<lambda>_.
           Inr (fold add_rule rules builder))))))))"

section \<open>Loading policy files\<close>

text \<open>
  Evaluating a policy file yields the calls of \<open>prefix_rule\<close> it makes in order, and the
  error of the evaluator it ends with, if any; the builtin always returns \<open>None\<close>, so the
  calls do not depend on the builder. A failing call ends the evaluation.
\<close>

type_synonym evaluator = "string \<Rightarrow> string \<Rightarrow> string + rule_call list \<times> string option"

fun run_calls ::
  "(string \<Rightarrow> string list option) \<Rightarrow> (string list \<Rightarrow> string option) \<Rightarrow> rule_call list \<Rightarrow> policy \<Rightarrow>
     exec_policy_error + policy" where
  "run_calls split join [] builder = Inr builder"
| "run_calls split join (c # cs) builder =
     rbind (prefix_rule_builtin split join c builder) (run_calls split join cs)"

definition parser_parse ::
  "(string \<Rightarrow> string list option) \<Rightarrow> (string list \<Rightarrow> string option) \<Rightarrow> evaluator \<Rightarrow>
     string \<Rightarrow> string \<Rightarrow> policy \<Rightarrow> exec_policy_error + policy" where
  "parser_parse split join evaluate ident contents builder =
     (case evaluate ident contents of
        Inl e \<Rightarrow> Inl (StarlarkError e)
      | Inr (calls, failure) \<Rightarrow>
          rbind (run_calls split join calls builder) (\<lambda>builder'.
            case failure of Some e \<Rightarrow> Inl (StarlarkError e) | None \<Rightarrow> Inr builder'))"

datatype load_error = PolicyUnreadable string | PolicyUnparsable string exec_policy_error

fun load_policies_from ::
  "(string \<Rightarrow> string list option) \<Rightarrow> (string list \<Rightarrow> string option) \<Rightarrow> evaluator \<Rightarrow>
     (string \<Rightarrow> string option) \<Rightarrow> string list \<Rightarrow> policy \<Rightarrow> load_error + policy" where
  "load_policies_from split join evaluate read_file [] builder = Inr builder"
| "load_policies_from split join evaluate read_file (path # paths) builder =
     (case read_file path of
        None \<Rightarrow> Inl (PolicyUnreadable path)
      | Some contents \<Rightarrow>
          (case parser_parse split join evaluate path contents builder of
             Inl e \<Rightarrow> Inl (PolicyUnparsable path e)
           | Inr builder' \<Rightarrow> load_policies_from split join evaluate read_file paths builder'))"

definition load_policies ::
  "(string \<Rightarrow> string list option) \<Rightarrow> (string list \<Rightarrow> string option) \<Rightarrow> evaluator \<Rightarrow>
     (string \<Rightarrow> string option) \<Rightarrow> string list \<Rightarrow> load_error + policy" where
  "load_policies split join evaluate read_file paths =
     load_policies_from split join evaluate read_file paths empty_policy"

text \<open>\<open>merge_exec_policies\<close> of the app server: the rules of the second policy, program by
  program in some order of its map, after those of the first.\<close>

definition merge_exec_policies :: "policy \<Rightarrow> policy \<Rightarrow> string list \<Rightarrow> policy" where
  "merge_exec_policies global mode programs =
     fold (\<lambda>program combined.
         (case mode program of Some rules \<Rightarrow> fold add_rule rules combined | None \<Rightarrow> combined))
       programs global"

section \<open>What a rule matches\<close>

text \<open>The command begins with the program and one token for each pattern of the rest.\<close>

definition covers :: "prefix_pattern \<Rightarrow> string list \<Rightarrow> bool" where
  "covers pattern cmd \<longleftrightarrow>
     (\<exists>ts rest. cmd = pp_first pattern # ts @ rest \<and> list_all2 token_matches (pp_rest pattern) ts)"

lemma tokens_match_iff:
  "length ts = length ps \<Longrightarrow> tokens_match ps ts \<longleftrightarrow> list_all2 token_matches ps ts"
  by (induction ps ts rule: tokens_match.induct) auto

lemma matches_prefix_None: "matches_prefix pattern cmd = None \<longleftrightarrow> \<not> covers pattern cmd"
proof (cases cmd)
  case Nil
  then show ?thesis by (simp add: matches_prefix_def covers_def)
next
  case (Cons first ts)
  let ?n = "length (pp_rest pattern)"
  have "covers pattern cmd \<longleftrightarrow>
      first = pp_first pattern \<and> ?n \<le> length ts \<and> list_all2 token_matches (pp_rest pattern) (take ?n ts)"
  proof
    assume "covers pattern cmd"
    then obtain us rest where "cmd = pp_first pattern # us @ rest"
      "list_all2 token_matches (pp_rest pattern) us" by (auto simp: covers_def)
    moreover from this have "?n = length us" by (simp add: list_all2_lengthD)
    ultimately show "first = pp_first pattern \<and> ?n \<le> length ts \<and>
        list_all2 token_matches (pp_rest pattern) (take ?n ts)"
      using Cons by auto
  next
    assume "first = pp_first pattern \<and> ?n \<le> length ts \<and>
        list_all2 token_matches (pp_rest pattern) (take ?n ts)"
    with Cons show "covers pattern cmd"
      unfolding covers_def by (metis append_take_drop_id)
  qed
  with Cons show ?thesis
    by (auto simp: matches_prefix_def Let_def tokens_match_iff)
qed

lemma matches_prefix_Some:
  "matches_prefix pattern cmd = Some pre \<Longrightarrow>
     covers pattern cmd \<and> pre = take (Suc (length (pp_rest pattern))) cmd"
proof -
  assume m: "matches_prefix pattern cmd = Some pre"
  then have "covers pattern cmd" using matches_prefix_None [of pattern cmd] by simp
  with m show ?thesis by (simp add: matches_prefix_def Let_def split: if_splits)
qed

lemma rule_matches_Some:
  "rule_matches rule cmd \<noteq> None \<longleftrightarrow> covers (pr_pattern rule) cmd"
  using matches_prefix_None [of "pr_pattern rule" cmd] by (auto simp: rule_matches_def)

lemma rule_matches_decision: "rule_matches rule cmd = Some m \<Longrightarrow> match_decision m = pr_decision rule"
  by (auto simp: rule_matches_def)

section \<open>Evaluation\<close>

definition policy_rules :: "policy \<Rightarrow> prefix_rule set" where
  "policy_rules policy =
     {rule. \<exists>rules. policy (rule_program rule) = Some rules \<and> rule \<in> set rules}"

text \<open>The decisions of the rules that match a command.\<close>

definition verdicts :: "policy \<Rightarrow> string list \<Rightarrow> exec_decision set" where
  "verdicts policy cmd = pr_decision ` {rule \<in> policy_rules policy. covers (pr_pattern rule) cmd}"

lemma finite_exec_decisions: "finite (D :: exec_decision set)"
proof -
  have "(UNIV :: exec_decision set) = {ExecAllow, ExecPrompt, ExecPromptStrict, ExecForbidden}"
    using exec_decision.exhaust by auto
  then show ?thesis by (metis finite.emptyI finite.insertI finite_subset subset_UNIV)
qed

lemma map_filter_decisions:
  "match_decision ` set (List.map_filter (\<lambda>rule. rule_matches rule cmd) rules) =
     pr_decision ` {rule \<in> set rules. covers (pr_pattern rule) cmd}"
proof (induction rules)
  case (Cons r rules)
  then show ?case
    using rule_matches_Some [of r cmd]
    by (cases "rule_matches r cmd") (auto simp: List.map_filter_simps dest: rule_matches_decision)
qed (simp add: List.map_filter_simps)

lemma matched_verdicts:
  "match_decision ` set (matches_for_command policy cmd None) = verdicts policy cmd"
proof (cases cmd)
  case Nil
  then show ?thesis by (simp add: matches_for_command_def verdicts_def covers_def)
next
  case (Cons first ts)
  have first: "rule_program rule = first" if "covers (pr_pattern rule) cmd" for rule
    using that Cons by (auto simp: covers_def rule_program_def)
  show ?thesis
  proof (cases "policy first")
    case None
    then have "verdicts policy cmd = {}"
      using first by (auto simp: verdicts_def policy_rules_def)
    with None Cons show ?thesis by (simp add: matches_for_command_def)
  next
    case (Some rules)
    then have "{rule \<in> set rules. covers (pr_pattern rule) cmd} =
        {rule \<in> policy_rules policy. covers (pr_pattern rule) cmd}"
      using first by (auto simp: policy_rules_def)
    with Some Cons map_filter_decisions [of cmd rules] show ?thesis
      by (simp add: matches_for_command_def verdicts_def)
  qed
qed

lemma matches_with_fallback:
  "matches_for_command policy cmd (Some fallback) =
     (let ms = matches_for_command policy cmd None in
        if ms = [] then [HeuristicsRuleMatch cmd (fallback cmd)] else ms)"
  by (simp add: matches_for_command_def Let_def)

lemma max_decision_None: "max_decision ms = None \<longleftrightarrow> ms = []"
  by (cases ms) auto

lemma max_decision_Max: "ms \<noteq> [] \<Longrightarrow> max_decision ms = Some (Max (match_decision ` set ms))"
proof (cases ms)
  case (Cons m ms')
  have "fold max (map match_decision ms') (match_decision m) =
      Max (set (match_decision m # map match_decision ms'))"
    by (simp only: Max.set_eq_fold)
  with Cons show ?thesis by simp
qed simp

lemma max_decision_verdicts:
  "max_decision (matches_for_command policy cmd None) =
     (if verdicts policy cmd = {} then None else Some (Max (verdicts policy cmd)))"
  using matched_verdicts [of policy cmd] max_decision_Max [of "matches_for_command policy cmd None"]
  by (cases "matches_for_command policy cmd None = []") (auto simp: max_decision_None)

lemma policy_check_spec:
  "eval_decision (policy_check policy cmd fallback) =
     (if verdicts policy cmd = {} then fallback cmd else Max (verdicts policy cmd)) \<and>
   (ExecForbidden \<in> verdicts policy cmd \<longrightarrow>
      eval_decision (policy_check policy cmd fallback) = ExecForbidden)"
proof -
  have d: "eval_decision (policy_check policy cmd fallback) =
     (if verdicts policy cmd = {} then fallback cmd else Max (verdicts policy cmd))"
    using max_decision_verdicts [of policy cmd] matched_verdicts [of policy cmd]
    by (auto simp: policy_check_def from_matches_def matches_with_fallback Let_def)
  moreover have "Max (verdicts policy cmd) = ExecForbidden" if "ExecForbidden \<in> verdicts policy cmd"
  proof (rule Max_eqI [OF finite_exec_decisions _ that])
    fix x :: exec_decision
    show "x \<le> ExecForbidden" by (cases x) (simp_all add: less_eq_exec_decision_def)
  qed
  ultimately show ?thesis by auto
qed

text \<open>
  C12: the decision on a command is the strictest decision among all rules of the policy
  whose pattern the command begins with, whatever their order, and the fallback's decision
  when no rule matches; in particular one matching rule that forbids the command forbids it.
\<close>

theorem policy_check_strictest:
  "eval_decision (policy_check policy cmd fallback) =
     (if verdicts policy cmd = {} then fallback cmd else Max (verdicts policy cmd)) \<and>
   (ExecForbidden \<in> verdicts policy cmd \<longrightarrow>
      eval_decision (policy_check policy cmd fallback) = ExecForbidden)"
  by (rule policy_check_spec)

lemma policy_rules_add_rule: "policy_rules (add_rule rule policy) = insert rule (policy_rules policy)"
  by (auto simp: policy_rules_def add_rule_def split: option.splits if_splits)

lemma policy_rules_fold_add_rule:
  "policy_rules (fold add_rule rules policy) = policy_rules policy \<union> set rules"
  by (induction rules arbitrary: policy) (auto simp: policy_rules_add_rule)

lemma policy_rules_empty: "policy_rules empty_policy = {}"
  by (simp add: policy_rules_def empty_policy_def)

definition policy_wf :: "policy \<Rightarrow> bool" where
  "policy_wf policy \<longleftrightarrow>
     (\<forall>program rules. policy program = Some rules \<longrightarrow> (\<forall>rule \<in> set rules. rule_program rule = program))"

lemma policy_wf_add_rule: "policy_wf policy \<Longrightarrow> policy_wf (add_rule rule policy)"
  by (cases "policy (rule_program rule)") (auto simp: policy_wf_def add_rule_def)

lemma policy_wf_fold_add_rule: "policy_wf policy \<Longrightarrow> policy_wf (fold add_rule rules policy)"
  by (induction rules arbitrary: policy) (auto simp: policy_wf_add_rule)

lemma policy_rules_merge:
  assumes "policy_wf mode" and "dom mode \<subseteq> set programs"
  shows "policy_rules (merge_exec_policies global mode programs) =
    policy_rules global \<union> policy_rules mode"
proof -
  have "policy_rules (merge_exec_policies global mode ps) =
      policy_rules global \<union> {rule \<in> policy_rules mode. rule_program rule \<in> set ps}" for ps
  proof (induction ps arbitrary: global)
    case Nil
    then show ?case by (simp add: merge_exec_policies_def)
  next
    case (Cons p ps)
    let ?g = "case mode p of Some rules \<Rightarrow> fold add_rule rules global | None \<Rightarrow> global"
    have "merge_exec_policies global mode (p # ps) = merge_exec_policies ?g mode ps"
      by (simp add: merge_exec_policies_def)
    moreover have "policy_rules ?g =
        policy_rules global \<union> {rule \<in> policy_rules mode. rule_program rule = p}"
    proof (cases "mode p")
      case None
      then have "{rule \<in> policy_rules mode. rule_program rule = p} = {}"
        by (auto simp: policy_rules_def)
      with None show ?thesis by (simp only: option.case Un_empty_right)
    next
      case (Some rules)
      with assms(1) have prog: "rule_program r = p" if "r \<in> set rules" for r
        using that unfolding policy_wf_def by blast
      have "{rule \<in> policy_rules mode. rule_program rule = p} = set rules"
      proof (intro set_eqI iffI)
        fix r assume "r \<in> {rule \<in> policy_rules mode. rule_program rule = p}"
        then have "\<exists>rs. mode p = Some rs \<and> r \<in> set rs" unfolding policy_rules_def by blast
        with Some show "r \<in> set rules" by simp
      next
        fix r assume "r \<in> set rules"
        with prog Some show "r \<in> {rule \<in> policy_rules mode. rule_program rule = p}"
          by (simp add: policy_rules_def)
      qed
      with Some show ?thesis by (simp only: option.case policy_rules_fold_add_rule)
    qed
    ultimately show ?case by (auto simp: Cons)
  qed
  moreover have "{rule \<in> policy_rules mode. rule_program rule \<in> set programs} = policy_rules mode"
    using assms(2) by (auto simp: policy_rules_def)
  ultimately show ?thesis by simp
qed

text \<open>
  Merging the rules of a mode or of a thread into the global policy can only tighten the
  decision on a command that the global policy already decides, and can only tighten what
  the merged-in rules decide.
\<close>

theorem merge_only_tightens:
  assumes "policy_wf mode" and "dom mode \<subseteq> set programs"
    and "verdicts global cmd \<noteq> {}"
  shows "eval_decision (policy_check global cmd fallback) \<le>
      eval_decision (policy_check (merge_exec_policies global mode programs) cmd fallback) \<and>
    (verdicts mode cmd \<noteq> {} \<longrightarrow> eval_decision (policy_check mode cmd fallback) \<le>
      eval_decision (policy_check (merge_exec_policies global mode programs) cmd fallback))"
proof -
  have "verdicts (merge_exec_policies global mode programs) cmd = verdicts global cmd \<union> verdicts mode cmd"
    by (auto simp: verdicts_def policy_rules_merge [OF assms(1,2)])
  with assms(3) show ?thesis
    by (auto simp: policy_check_spec Max_mono finite_exec_decisions)
qed

text \<open>
  A compound command is as restricted as its most restricted part: checking several
  commands decides the strictest of the decisions on each.
\<close>

theorem check_multiple_strictest:
  assumes "commands \<noteq> []"
  shows "eval_decision (check_multiple policy commands fallback) =
    Max ((\<lambda>cmd. eval_decision (policy_check policy cmd fallback)) ` set commands)"
proof -
  let ?ms = "\<lambda>cmd. matches_for_command policy cmd (Some fallback)"
  have ne: "?ms cmd \<noteq> []" for cmd by (simp add: matches_with_fallback Let_def)
  then have each: "eval_decision (policy_check policy cmd fallback) = Max (match_decision ` set (?ms cmd))" for cmd
    by (simp add: policy_check_def from_matches_def max_decision_Max)
  from assms ne have "concat (map ?ms commands) \<noteq> []" by (cases commands) auto
  then have "eval_decision (check_multiple policy commands fallback) =
      Max (\<Union>cmd \<in> set commands. match_decision ` set (?ms cmd))"
    by (simp add: check_multiple_def from_matches_def max_decision_Max image_UN)
  also have "\<dots> = Max ((\<lambda>cmd. Max (match_decision ` set (?ms cmd))) ` set commands)"
  proof (rule Max_eqI [OF finite_exec_decisions])
    fix y assume "y \<in> (\<Union>cmd \<in> set commands. match_decision ` set (?ms cmd))"
    then obtain cmd where c: "cmd \<in> set commands" "y \<in> match_decision ` set (?ms cmd)" by auto
    then have "y \<le> Max (match_decision ` set (?ms cmd))" by simp
    also have "\<dots> \<le> Max ((\<lambda>cmd. Max (match_decision ` set (?ms cmd))) ` set commands)"
      using c(1) by (intro Max_ge) auto
    finally show "y \<le> Max ((\<lambda>cmd. Max (match_decision ` set (?ms cmd))) ` set commands)" .
  next
    have "Max ((\<lambda>cmd. Max (match_decision ` set (?ms cmd))) ` set commands) \<in>
        (\<lambda>cmd. Max (match_decision ` set (?ms cmd))) ` set commands"
      using assms by (intro Max_in) auto
    then obtain cmd where c: "cmd \<in> set commands"
      "Max ((\<lambda>cmd. Max (match_decision ` set (?ms cmd))) ` set commands) =
        Max (match_decision ` set (?ms cmd))" by blast
    have "Max (match_decision ` set (?ms cmd)) \<in> match_decision ` set (?ms cmd)"
      using ne [of cmd] by (intro Max_in) auto
    with c show "Max ((\<lambda>cmd. Max (match_decision ` set (?ms cmd))) ` set commands) \<in>
        (\<Union>cmd \<in> set commands. match_decision ` set (?ms cmd))"
      by (simp only: UN_iff) blast
  qed
  finally show ?thesis by (simp add: each)
qed

section \<open>Loaded policies honour their examples\<close>

text \<open>
  What a successful call of \<open>prefix_rule\<close> says of the rules it added: each is of the decision
  the call names (allow when it names none), its \<open>match\<close> examples are matched by one of them
  and its \<open>not_match\<close> examples by none.
\<close>

definition call_ok ::
  "(string \<Rightarrow> string list option) \<Rightarrow> rule_call \<Rightarrow> prefix_rule set \<Rightarrow> bool" where
  "call_ok split call rules \<longleftrightarrow>
     (\<exists>ms nms d. optional_examples split (rc_match call) = Inr ms \<and>
        optional_examples split (rc_not_match call) = Inr nms \<and>
        (case rc_decision call of None \<Rightarrow> d = ExecAllow | Some raw \<Rightarrow> decision_parse raw = Inr d) \<and>
        rules \<noteq> {} \<and> (\<forall>rule \<in> rules. pr_decision rule = d) \<and>
        (\<forall>cmd \<in> set ms. \<exists>rule \<in> rules. covers (pr_pattern rule) cmd) \<and>
        (\<forall>cmd \<in> set nms. \<forall>rule \<in> rules. \<not> covers (pr_pattern rule) cmd))"

lemma validate_match_examples_Inr:
  "validate_match_examples join rules examples = Inr u \<Longrightarrow> cmd \<in> set examples \<Longrightarrow>
     \<exists>rule \<in> set rules. covers (pr_pattern rule) cmd"
proof -
  assume "validate_match_examples join rules examples = Inr u" "cmd \<in> set examples"
  then have "list_ex (\<lambda>rule. rule_matches rule cmd \<noteq> None) rules"
    by (auto simp: validate_match_examples_def Let_def filter_empty_conv split: if_splits)
  then show ?thesis unfolding list_ex_iff rule_matches_Some .
qed

lemma validate_not_match_examples_Inr:
  "validate_not_match_examples join rules examples = Inr u \<Longrightarrow> cmd \<in> set examples \<Longrightarrow>
     rule \<in> set rules \<Longrightarrow> \<not> covers (pr_pattern rule) cmd"
proof (induction join rules examples rule: validate_not_match_examples.induct)
  case (2 join rules example examples)
  from 2(2) have f: "List.find (\<lambda>rule. rule_matches rule example \<noteq> None) rules = None"
    by (auto split: option.splits)
  then have "\<not> covers (pr_pattern rule) example"
    using 2(4) rule_matches_Some [of rule example] unfolding find_None_iff by blast
  with 2(1) [OF f] 2(2-4) f show ?case by auto
qed simp

lemma try_map_nonempty: "try_map f xs = Inr ys \<Longrightarrow> ys \<noteq> [] \<longleftrightarrow> xs \<noteq> []"
  by (auto dest: try_map_length)

lemma parse_pattern_token_alternatives: "parse_pattern_token v = Inr tok \<Longrightarrow> alternatives tok \<noteq> []"
proof (cases v)
  case (StarList items)
  assume "parse_pattern_token v = Inr tok"
  with StarList obtain tokens where "(case tokens of
      [] \<Rightarrow> Inl (InvalidPattern ''pattern alternatives cannot be empty'')
    | [single] \<Rightarrow> Inr (Single single) | _ \<Rightarrow> Inr (Alts tokens)) = Inr tok"
    by (auto simp only: parse_pattern_token.simps rbind_eq_Inr)
  then show ?thesis by (cases tokens rule: remdups_adj.cases) auto
qed auto

lemma prefix_rule_builtin_ok:
  assumes "prefix_rule_builtin split join call builder = Inr builder'"
  shows "\<exists>rules. call_ok split call (set rules) \<and> builder' = fold add_rule rules builder"
proof -
  from assms obtain d j tokens ms nms where
    d: "case rc_decision call of None \<Rightarrow> d = ExecAllow | Some raw \<Rightarrow> decision_parse raw = Inr d"
    and tokens: "parse_pattern (rc_pattern call) = Inr tokens" "tokens \<noteq> []"
    and ms: "optional_examples split (rc_match call) = Inr ms"
      "optional_examples split (rc_not_match call) = Inr nms"
    and valid: "validate_not_match_examples join (head_rules tokens d j) nms = Inr ()"
      "validate_match_examples join (head_rules tokens d j) ms = Inr ()"
    and b: "builder' = fold add_rule (head_rules tokens d j) builder"
    unfolding prefix_rule_builtin_def rbind_eq_Inr
    by (auto simp: Let_def rbind_eq_Inr map_sum_def split: if_splits option.splits sum.splits)
  from tokens obtain first rest where f: "tokens = first # rest" by (cases tokens) auto
  from tokens(1) f have "list_all2 (\<lambda>v t. parse_pattern_token v = Inr t) (rc_pattern call) (first # rest)"
    by (auto simp: parse_pattern_def rbind_eq_Inr try_map_Inr split: if_splits)
  then have "alternatives first \<noteq> []"
    by (auto simp: list_all2_Cons2 dest: parse_pattern_token_alternatives)
  with f have "set (head_rules tokens d j) \<noteq> {}" by (simp add: head_rules_def)
  moreover have "\<forall>rule \<in> set (head_rules tokens d j). pr_decision rule = d"
    by (auto simp: head_rules_def split: list.splits)
  ultimately have "call_ok split call (set (head_rules tokens d j))"
    using d ms valid unfolding call_ok_def
    by (blast dest: validate_match_examples_Inr validate_not_match_examples_Inr)
  with b show ?thesis by blast
qed

interpretation calls: fallible_fold "prefix_rule_builtin split join" "run_calls split join"
    for split join
  by unfold_locales simp_all

lemma run_calls_ok:
  assumes "run_calls split join cs builder = Inr builder'"
  shows "policy_rules builder \<subseteq> policy_rules builder' \<and>
    (\<forall>c \<in> set cs. \<exists>rules \<subseteq> policy_rules builder'. call_ok split c rules)"
  using assms
proof (induction cs arbitrary: builder' rule: rev_induct)
  case (snoc c cs)
  then obtain m where m: "run_calls split join cs builder = Inr m"
    "prefix_rule_builtin split join c m = Inr builder'"
    by (auto simp: calls.run_snoc rbind_eq_Inr)
  from prefix_rule_builtin_ok [OF m(2)] obtain rules where
    "call_ok split c (set rules)" "policy_rules builder' = policy_rules m \<union> set rules"
    by (auto simp: policy_rules_fold_add_rule)
  with snoc.IH [OF m(1)] show ?case by (auto 4 4)
qed simp

lemma load_policies_from_ok:
  assumes "load_policies_from split join evaluate read_file paths builder = Inr builder'"
  shows "policy_rules builder \<subseteq> policy_rules builder' \<and>
    (\<forall>path \<in> set paths. \<exists>contents cs.
       read_file path = Some contents \<and> evaluate path contents = Inr (cs, None) \<and>
       (\<forall>c \<in> set cs. \<exists>rules \<subseteq> policy_rules builder'. call_ok split c rules))"
  using assms
proof (induction paths arbitrary: builder)
  case (Cons path paths)
  then obtain contents m where m: "read_file path = Some contents"
    "parser_parse split join evaluate path contents builder = Inr m"
    "load_policies_from split join evaluate read_file paths m = Inr builder'"
    by (auto split: option.splits sum.splits)
  then obtain cs where cs: "evaluate path contents = Inr (cs, None)"
    "run_calls split join cs builder = Inr m"
    by (auto simp: parser_parse_def rbind_eq_Inr split: sum.splits option.splits prod.splits)
  have "policy_rules builder \<subseteq> policy_rules builder'"
    using run_calls_ok [OF cs(2)] Cons.IH [OF m(3)] by blast
  moreover have "\<exists>rules \<subseteq> policy_rules builder'. call_ok split c rules" if "c \<in> set cs" for c
    using run_calls_ok [OF cs(2)] Cons.IH [OF m(3)] that by (meson subset_trans)
  ultimately show ?case using m(1) cs(1) Cons.IH [OF m(3)] by auto
qed simp

text \<open>
  A policy that loads is complete and honours its own examples: every file was read and
  evaluated to its end, and for each call of \<open>prefix_rule\<close> the policy contains rules of the
  named decision such that every \<open>match\<close> example is matched by one of them and no
  \<open>not_match\<close> example by any.
\<close>

theorem load_policies_sound:
  assumes "load_policies split join evaluate read_file paths = Inr policy"
    and "path \<in> set paths"
  shows "\<exists>contents cs. read_file path = Some contents \<and> evaluate path contents = Inr (cs, None) \<and>
    (\<forall>c \<in> set cs. \<exists>rules \<subseteq> policy_rules policy. call_ok split c rules)"
  using load_policies_from_ok [of split join evaluate read_file paths empty_policy policy] assms
  by (simp add: load_policies_def)

section \<open>Witnesses\<close>

definition sample_policy :: policy where
  "sample_policy = add_rule
     \<lparr>pr_pattern = \<lparr>pp_first = ''rm'', pp_rest = [Single ''-rf'']\<rparr>,
      pr_decision = ExecForbidden, pr_justification = None\<rparr>
     (add_rule \<lparr>pr_pattern = \<lparr>pp_first = ''rm'', pp_rest = []\<rparr>,
        pr_decision = ExecAllow, pr_justification = None\<rparr> empty_policy)"

lemma sample_policy_verdicts:
  "verdicts sample_policy [''rm'', ''-rf'', ''x''] = {ExecForbidden, ExecAllow}"
  "verdicts empty_policy cmd = {}"
  unfolding matched_verdicts [symmetric]
  by (auto simp: matches_for_command_def sample_policy_def add_rule_def rule_program_def
      empty_policy_def rule_matches_def matches_prefix_def List.map_filter_simps split: list.splits)

theorem policy_check_strictest_witness:
  "eval_decision (policy_check sample_policy [''rm'', ''-rf'', ''x''] (\<lambda>_. ExecPrompt)) = ExecForbidden"
  using policy_check_strictest [of sample_policy "[''rm'', ''-rf'', ''x'']" "\<lambda>_. ExecPrompt"]
  by (simp add: sample_policy_verdicts max_def less_eq_exec_decision_def)

theorem merge_only_tightens_witness:
  "eval_decision (policy_check sample_policy [''rm'', ''-rf'', ''x''] (\<lambda>_. ExecPrompt)) \<le>
   eval_decision (policy_check (merge_exec_policies sample_policy empty_policy [])
     [''rm'', ''-rf'', ''x''] (\<lambda>_. ExecPrompt))"
  using merge_only_tightens [of empty_policy "[]" sample_policy "[''rm'', ''-rf'', ''x'']" "\<lambda>_. ExecPrompt"]
  by (simp add: sample_policy_verdicts policy_wf_def empty_policy_def)

theorem check_multiple_strictest_witness:
  "eval_decision (check_multiple sample_policy [[''ls''], [''rm'', ''-rf'', ''x'']] (\<lambda>_. ExecPrompt)) =
   Max ((\<lambda>cmd. eval_decision (policy_check sample_policy cmd (\<lambda>_. ExecPrompt))) `
     {[''ls''], [''rm'', ''-rf'', ''x'']})"
  using check_multiple_strictest [of "[[''ls''], [''rm'', ''-rf'', ''x'']]" sample_policy "\<lambda>_. ExecPrompt"]
  by simp

theorem load_policies_sound_witness:
  "\<exists>policy rules. rules \<subseteq> policy_rules policy \<and>
     call_ok (\<lambda>_. None)
       \<lparr>rc_pattern = [StarStr ''git''], rc_decision = Some ''prompt'',
        rc_match = Some [StarList [StarStr ''git'', StarStr ''push'']], rc_not_match = None,
        rc_justification = None\<rparr> rules"
proof -
  let ?call = "\<lparr>rc_pattern = [StarStr ''git''], rc_decision = Some ''prompt'',
      rc_match = Some [StarList [StarStr ''git'', StarStr ''push'']], rc_not_match = None,
      rc_justification = None\<rparr>"
  have "\<exists>policy. load_policies (\<lambda>_. None) (\<lambda>_. None) (\<lambda>_ _. Inr ([?call], None)) (\<lambda>_. Some []) [''p''] =
      Inr policy"
    by (simp add: load_policies_def parser_parse_def prefix_rule_builtin_def decision_parse_def
        parse_pattern_def optional_examples_def parse_examples_def parse_list_example_def str_or_def
        head_rules_def validate_match_examples_def rule_matches_def matches_prefix_def)
  then obtain policy where "load_policies (\<lambda>_. None) (\<lambda>_. None) (\<lambda>_ _. Inr ([?call], None))
      (\<lambda>_. Some []) [''p''] = Inr policy" by blast
  from load_policies_sound [OF this, of "''p''"] show ?thesis by auto
qed

end
