(* ===== verification/Modes.thy ===== *)
theory Modes
  imports Prelude ExecPolicy
begin

text \<open>
  The modes of \<open>crates/core/src/modes.rs\<close>: decisions and permissions, the path rules of edit
  permissions, the builtin catalog, the checks on configured modes and the loading of the
  catalog, and the normalisation of relative paths. The glob library and the config loader
  are parameters; an ordered map is a function with finite domain.
\<close>

section \<open>Decisions\<close>

datatype mode_decision = Allow | Prompt | Deny

fun mode_rank :: "mode_decision \<Rightarrow> nat" where
  "mode_rank Allow = 0"
| "mode_rank Prompt = 1"
| "mode_rank Deny = 2"

lemma mode_rank_inject [simp]: "mode_rank a = mode_rank b \<longleftrightarrow> a = b"
  by (cases a; cases b) simp_all

instantiation mode_decision :: linorder
begin
definition less_eq_mode_decision :: "mode_decision \<Rightarrow> mode_decision \<Rightarrow> bool" where
  "less_eq_mode_decision a b \<longleftrightarrow> mode_rank a \<le> mode_rank b"
definition less_mode_decision :: "mode_decision \<Rightarrow> mode_decision \<Rightarrow> bool" where
  "less_mode_decision a b \<longleftrightarrow> mode_rank a < mode_rank b"
instance
  by standard (auto simp: less_eq_mode_decision_def less_mode_decision_def)
end

definition combine :: "mode_decision \<Rightarrow> mode_decision \<Rightarrow> mode_decision" where
  "combine a b = max a b"

interpretation mode: strictest mode_rank combine
  by unfold_locales (auto simp: combine_def max_def less_eq_mode_decision_def)

lemma combine_Deny [simp]: "combine a b = Deny \<longleftrightarrow> a = Deny \<or> b = Deny"
  by (cases a; cases b) (simp_all add: combine_def max_def less_eq_mode_decision_def)

section \<open>Edit permissions\<close>

text \<open>
  \<open>globset\<close>: which patterns compile, which lists of compiled patterns build, and which paths
  a pattern matches. A built set is the list of its patterns and matches a path when one of
  them does.
\<close>

record glob_lib =
  gl_new :: "string \<Rightarrow> bool"
  gl_build :: "string list \<Rightarrow> bool"
  gl_match :: "string \<Rightarrow> string \<Rightarrow> bool"

type_synonym globset = "string list"

definition is_match :: "glob_lib \<Rightarrow> globset \<Rightarrow> string \<Rightarrow> bool" where
  "is_match gl globs path \<longleftrightarrow> list_ex (\<lambda>p. gl_match gl p path) globs"

datatype mode_error =
    InvalidGlob string
  | GlobSetBuild
  | InteractMustBeDeny string
  | MaxThreadsTooLarge

fun add_globs :: "glob_lib \<Rightarrow> string list \<Rightarrow> string list \<Rightarrow> mode_error + string list" where
  "add_globs gl [] builder = Inr builder"
| "add_globs gl (p # ps) builder =
     (if gl_new gl p then add_globs gl ps (builder @ [p]) else Inl (InvalidGlob p))"

definition compile_globset :: "glob_lib \<Rightarrow> string list \<Rightarrow> mode_error + globset" where
  "compile_globset gl pats =
     rbind (add_globs gl pats []) (\<lambda>builder.
       if gl_build gl builder then Inr builder else Inl GlobSetBuild)"

record edit_permissions =
  ed_decision :: mode_decision
  ed_allow_globs :: "string list"
  ed_deny_globs :: "string list"
  ed_allow :: "globset option"
  ed_deny :: globset

definition edit_permissions_new ::
  "glob_lib \<Rightarrow> mode_decision \<Rightarrow> string list \<Rightarrow> string list \<Rightarrow> mode_error + edit_permissions" where
  "edit_permissions_new gl decision allow_globs deny_globs =
     rbind (if allow_globs = [] then Inr None
            else map_sum id Some (compile_globset gl allow_globs)) (\<lambda>allow.
     rbind (compile_globset gl deny_globs) (\<lambda>deny.
       Inr \<lparr>ed_decision = decision, ed_allow_globs = allow_globs, ed_deny_globs = deny_globs,
            ed_allow = allow, ed_deny = deny\<rparr>))"

definition decision_for_path :: "glob_lib \<Rightarrow> edit_permissions \<Rightarrow> string \<Rightarrow> mode_decision" where
  "decision_for_path gl edit rel_path =
     (if ed_decision edit = Deny then Deny
      else if is_match gl (ed_deny edit) rel_path then Deny
      else case ed_allow edit of
             Some allow \<Rightarrow> if \<not> is_match gl allow rel_path then Deny else ed_decision edit
           | None \<Rightarrow> ed_decision edit)"

definition is_denied :: "glob_lib \<Rightarrow> edit_permissions \<Rightarrow> string \<Rightarrow> bool" where
  "is_denied gl edit rel_path = is_match gl (ed_deny edit) rel_path"

definition builtin_edit_permissions ::
  "glob_lib \<Rightarrow> mode_decision \<Rightarrow> string list \<Rightarrow> string list \<Rightarrow> edit_permissions" where
  "builtin_edit_permissions gl decision allow_globs deny_globs =
     (case edit_permissions_new gl decision allow_globs deny_globs of
        Inr edit \<Rightarrow> edit
      | Inl _ \<Rightarrow> \<lparr>ed_decision = Deny, ed_allow_globs = [], ed_deny_globs = [],
                  ed_allow = None, ed_deny = []\<rparr>)"

section \<open>Permissions and modes\<close>

record process_permissions =
  proc_inspect :: mode_decision
  proc_kill :: mode_decision
  proc_interact :: mode_decision

record subagent_spawn_permissions =
  sp_decision :: mode_decision
  sp_allowed_modes :: "string list option"
  sp_max_threads :: "nat option"

definition default_spawn :: subagent_spawn_permissions where
  "default_spawn = \<lparr>sp_decision = Deny, sp_allowed_modes = None, sp_max_threads = None\<rparr>"

record mode_permissions =
  mp_read :: mode_decision
  mp_edit :: edit_permissions
  mp_command :: mode_decision
  mp_process :: process_permissions
  mp_artifact :: mode_decision
  mp_browser :: mode_decision
  mp_subagent_spawn :: subagent_spawn_permissions

record mode_def =
  md_description :: string
  md_permissions :: mode_permissions
  md_show_thinking :: "bool option"
  md_command_execpolicy_rules :: "string list"
  md_tool_overrides :: "string \<Rightarrow> mode_decision option"

definition builtin_mode :: "string \<Rightarrow> mode_permissions \<Rightarrow> mode_def" where
  "builtin_mode description permissions =
     \<lparr>md_description = description, md_permissions = permissions, md_show_thinking = None,
      md_command_execpolicy_rules = [], md_tool_overrides = Map.empty\<rparr>"

section \<open>The builtin catalog\<close>

definition default_deny_globs :: "string list" where
  "default_deny_globs =
     [''.git/**'', ''.omne/**'', ''.omne/**'', ''**/.env'',
      ''.omne_data/config_local.toml'', ''.omne_data/config.toml'',
      ''.omne_data/spec/**'', ''.omne_data/tmp/**'', ''.omne_data/threads/**'',
      ''.omne_data/locks/**'', ''.omne_data/logs/**'', ''.omne_data/data/**'',
      ''.omne_data/repos/**'', ''.omne_data/reference/**'']"

definition coder_spawn_allowed_modes :: "string list option" where
  "coder_spawn_allowed_modes =
     Some [''architect'', ''reviewer'', ''builder'', ''code'', ''chat'',
           ''roleplay'', ''author'', ''doc_organizer'', ''chatter'', ''default'',
           ''codder'', ''coder'']"

definition builtin_architect :: "glob_lib \<Rightarrow> mode_def" where
  "builtin_architect gl = builtin_mode
     ''Read code/docs; edits require approvals and are limited to docs + a few root files.''
     \<lparr>mp_read = Allow,
      mp_edit = builtin_edit_permissions gl Prompt
        [''docs/**'', ''AGENTS.md'', ''CHANGELOG.md''] default_deny_globs,
      mp_command = Prompt,
      mp_process = \<lparr>proc_inspect = Allow, proc_kill = Prompt, proc_interact = Deny\<rparr>,
      mp_artifact = Allow, mp_browser = Deny,
      mp_subagent_spawn = \<lparr>sp_decision = Prompt, sp_allowed_modes = coder_spawn_allowed_modes,
          sp_max_threads = None\<rparr>\<rparr>"

definition builtin_code :: "glob_lib \<Rightarrow> mode_def" where
  "builtin_code gl = builtin_mode
     ''Coding scenario mode; same permissions as coder.''
     \<lparr>mp_read = Allow,
      mp_edit = builtin_edit_permissions gl Prompt
        [] default_deny_globs,
      mp_command = Prompt,
      mp_process = \<lparr>proc_inspect = Allow, proc_kill = Prompt, proc_interact = Deny\<rparr>,
      mp_artifact = Allow, mp_browser = Prompt,
      mp_subagent_spawn = \<lparr>sp_decision = Prompt, sp_allowed_modes = coder_spawn_allowed_modes,
          sp_max_threads = None\<rparr>\<rparr>"

definition builtin_chat :: "glob_lib \<Rightarrow> mode_def" where
  "builtin_chat gl = builtin_mode
     ''Chat scenario mode; no code execution or file edits.''
     \<lparr>mp_read = Allow,
      mp_edit = builtin_edit_permissions gl Deny
        [] default_deny_globs,
      mp_command = Deny,
      mp_process = \<lparr>proc_inspect = Deny, proc_kill = Deny, proc_interact = Deny\<rparr>,
      mp_artifact = Allow, mp_browser = Allow,
      mp_subagent_spawn = default_spawn\<rparr>"

definition builtin_roleplay :: "glob_lib \<Rightarrow> mode_def" where
  "builtin_roleplay gl = builtin_mode
     ''Roleplay scenario mode; conversational with no execution/edit permissions.''
     \<lparr>mp_read = Allow,
      mp_edit = builtin_edit_permissions gl Deny
        [] default_deny_globs,
      mp_command = Deny,
      mp_process = \<lparr>proc_inspect = Deny, proc_kill = Deny, proc_interact = Deny\<rparr>,
      mp_artifact = Allow, mp_browser = Allow,
      mp_subagent_spawn = default_spawn\<rparr>"

definition builtin_author :: "glob_lib \<Rightarrow> mode_def" where
  "builtin_author gl = builtin_mode
     ''Author scenario mode; focused writing permissions for docs/markdown.''
     \<lparr>mp_read = Allow,
      mp_edit = builtin_edit_permissions gl Prompt
        [''docs/**'', ''**/*.md'', ''**/*.mdx'', ''README.md'', ''CHANGELOG.md''] default_deny_globs,
      mp_command = Deny,
      mp_process = \<lparr>proc_inspect = Deny, proc_kill = Deny, proc_interact = Deny\<rparr>,
      mp_artifact = Allow, mp_browser = Allow,
      mp_subagent_spawn = default_spawn\<rparr>"

definition builtin_doc_organizer :: "glob_lib \<Rightarrow> mode_def" where
  "builtin_doc_organizer gl = builtin_mode
     ''Documentation organizer mode; docs-focused editing with prompts.''
     \<lparr>mp_read = Allow,
      mp_edit = builtin_edit_permissions gl Prompt
        [''docs/**'', ''**/*.md'', ''**/*.mdx'', ''README.md'', ''CHANGELOG.md'',
         ''AGENTS.md''] default_deny_globs,
      mp_command = Deny,
      mp_process = \<lparr>proc_inspect = Deny, proc_kill = Deny, proc_interact = Deny\<rparr>,
      mp_artifact = Allow, mp_browser = Allow,
      mp_subagent_spawn = default_spawn\<rparr>"

definition builtin_chatter :: "glob_lib \<Rightarrow> mode_def" where
  "builtin_chatter gl = builtin_mode
     ''Role profile for light conversation and browsing; no edits or commands.''
     \<lparr>mp_read = Allow,
      mp_edit = builtin_edit_permissions gl Deny
        [] default_deny_globs,
      mp_command = Deny,
      mp_process = \<lparr>proc_inspect = Deny, proc_kill = Deny, proc_interact = Deny\<rparr>,
      mp_artifact = Allow, mp_browser = Allow,
      mp_subagent_spawn = default_spawn\<rparr>"

definition builtin_default :: "glob_lib \<Rightarrow> mode_def" where
  "builtin_default gl = builtin_mode
     ''Role profile for balanced assistance; edits and commands require approvals.''
     \<lparr>mp_read = Allow,
      mp_edit = builtin_edit_permissions gl Prompt
        [] default_deny_globs,
      mp_command = Prompt,
      mp_process = \<lparr>proc_inspect = Allow, proc_kill = Deny, proc_interact = Deny\<rparr>,
      mp_artifact = Allow, mp_browser = Prompt,
      mp_subagent_spawn = default_spawn\<rparr>"

definition builtin_codder :: "glob_lib \<Rightarrow> mode_def" where
  "builtin_codder gl = builtin_mode
     ''Role profile for implementation-heavy work; broad coding permissions.''
     \<lparr>mp_read = Allow,
      mp_edit = builtin_edit_permissions gl Prompt
        [] default_deny_globs,
      mp_command = Prompt,
      mp_process = \<lparr>proc_inspect = Allow, proc_kill = Prompt, proc_interact = Deny\<rparr>,
      mp_artifact = Allow, mp_browser = Prompt,
      mp_subagent_spawn = \<lparr>sp_decision = Prompt, sp_allowed_modes = coder_spawn_allowed_modes,
          sp_max_threads = None\<rparr>\<rparr>"

definition builtin_coder :: "glob_lib \<Rightarrow> mode_def" where
  "builtin_coder gl = builtin_mode
     ''Implement changes; edits and commands require approvals by default.''
     \<lparr>mp_read = Allow,
      mp_edit = builtin_edit_permissions gl Prompt
        [] default_deny_globs,
      mp_command = Prompt,
      mp_process = \<lparr>proc_inspect = Allow, proc_kill = Prompt, proc_interact = Deny\<rparr>,
      mp_artifact = Allow, mp_browser = Prompt,
      mp_subagent_spawn = \<lparr>sp_decision = Prompt, sp_allowed_modes = Some [''architect'', ''reviewer'', ''builder''],
          sp_max_threads = None\<rparr>\<rparr>"

definition builtin_reviewer :: "glob_lib \<Rightarrow> mode_def" where
  "builtin_reviewer gl = builtin_mode
     ''Read-only review; commands require approvals; no edits.''
     \<lparr>mp_read = Allow,
      mp_edit = builtin_edit_permissions gl Deny
        [] default_deny_globs,
      mp_command = Prompt,
      mp_process = \<lparr>proc_inspect = Allow, proc_kill = Prompt, proc_interact = Deny\<rparr>,
      mp_artifact = Allow, mp_browser = Deny,
      mp_subagent_spawn = default_spawn\<rparr>"

definition builtin_builder :: "glob_lib \<Rightarrow> mode_def" where
  "builtin_builder gl = builtin_mode
     ''Run checks/tests; no edits; commands require approvals.''
     \<lparr>mp_read = Allow,
      mp_edit = builtin_edit_permissions gl Deny
        [] default_deny_globs,
      mp_command = Prompt,
      mp_process = \<lparr>proc_inspect = Allow, proc_kill = Prompt, proc_interact = Deny\<rparr>,
      mp_artifact = Allow, mp_browser = Deny,
      mp_subagent_spawn = default_spawn\<rparr>"

definition builtin_debugger :: "glob_lib \<Rightarrow> mode_def" where
  "builtin_debugger gl = builtin_mode
     ''Debug failures; inspect state and patch with approvals.''
     \<lparr>mp_read = Allow,
      mp_edit = builtin_edit_permissions gl Prompt
        [] default_deny_globs,
      mp_command = Prompt,
      mp_process = \<lparr>proc_inspect = Allow, proc_kill = Prompt, proc_interact = Deny\<rparr>,
      mp_artifact = Allow, mp_browser = Prompt,
      mp_subagent_spawn = default_spawn\<rparr>"

definition builtin_merger :: "glob_lib \<Rightarrow> mode_def" where
  "builtin_merger gl = builtin_mode
     ''Integrate and finalize changes; edits and commands require approvals.''
     \<lparr>mp_read = Allow,
      mp_edit = builtin_edit_permissions gl Prompt
        [] default_deny_globs,
      mp_command = Prompt,
      mp_process = \<lparr>proc_inspect = Allow, proc_kill = Prompt, proc_interact = Deny\<rparr>,
      mp_artifact = Allow, mp_browser = Deny,
      mp_subagent_spawn = default_spawn\<rparr>"

datatype mode_catalog_source = SourceBuiltin | SourceEnv string | SourceProject string

datatype catalog_error =
    ParseModesConfig string
  | LoadModesConfig string
  | UnsupportedVersion u32
  | ModeErrors "mode_error list"

record mode_catalog =
  mc_source :: mode_catalog_source
  mc_load_error :: "catalog_error option"
  mc_modes :: "string \<Rightarrow> mode_def option"

text \<open>The two Chinese aliases, as UTF-8.\<close>

definition author_alias :: string where
  "author_alias = [CHR 0xE4, CHR 0xBD, CHR 0x9C, CHR 0xE8, CHR 0x80, CHR 0x85]"

definition doc_organizer_alias :: string where
  "doc_organizer_alias =
     [CHR 0xE6, CHR 0x96, CHR 0x87, CHR 0xE6, CHR 0xA1, CHR 0xA3, CHR 0xE6, CHR 0x95, CHR 0xB4,
      CHR 0xE7, CHR 0x90, CHR 0x86, CHR 0xE8, CHR 0x80, CHR 0x85]"

definition insert_alias ::
  "string \<Rightarrow> string \<Rightarrow> (string \<Rightarrow> mode_def option) \<Rightarrow> (string \<Rightarrow> mode_def option)" where
  "insert_alias alias name modes =
     (case modes name of Some mode \<Rightarrow> modes(alias \<mapsto> mode) | None \<Rightarrow> modes)"

definition builtin_modes :: "glob_lib \<Rightarrow> string \<Rightarrow> mode_def option" where
  "builtin_modes gl =
     (insert_alias doc_organizer_alias ''doc_organizer'' (insert_alias author_alias ''author''
       (Map.empty
         (''architect'' \<mapsto> builtin_architect gl, ''code'' \<mapsto> builtin_code gl,
          ''chat'' \<mapsto> builtin_chat gl, ''roleplay'' \<mapsto> builtin_roleplay gl,
          ''author'' \<mapsto> builtin_author gl, ''doc_organizer'' \<mapsto> builtin_doc_organizer gl))))
       (''chatter'' \<mapsto> builtin_chatter gl, ''default'' \<mapsto> builtin_default gl,
        ''codder'' \<mapsto> builtin_codder gl, ''coder'' \<mapsto> builtin_coder gl,
        ''reviewer'' \<mapsto> builtin_reviewer gl, ''builder'' \<mapsto> builtin_builder gl,
        ''debugger'' \<mapsto> builtin_debugger gl, ''merger'' \<mapsto> builtin_merger gl)"

definition builtin_catalog :: "glob_lib \<Rightarrow> mode_catalog" where
  "builtin_catalog gl =
     \<lparr>mc_source = SourceBuiltin, mc_load_error = None, mc_modes = builtin_modes gl\<rparr>"

definition catalog_mode :: "mode_catalog \<Rightarrow> string \<Rightarrow> mode_def option" where
  "catalog_mode catalog name = mc_modes catalog name"

definition mode_names :: "mode_catalog \<Rightarrow> string list" where
  "mode_names catalog = sorted_list_of_set (dom (mc_modes catalog))"

section \<open>Configured modes\<close>

record raw_command =
  rw_command_decision :: mode_decision
  rw_execpolicy_rules :: "string list"

record raw_edit =
  rw_edit_decision :: mode_decision
  rw_allow_globs :: "string list"
  rw_deny_globs :: "string list"

record raw_process =
  rw_inspect :: "mode_decision option"
  rw_kill :: "mode_decision option"
  rw_interact :: "mode_decision option"

record raw_subagent_spawn =
  rw_spawn_decision :: mode_decision
  rw_allowed_modes :: "string list option"
  rw_max_threads :: "nat option"

record raw_permissions =
  rw_read :: "mode_decision option"
  rw_edit :: "raw_edit option"
  rw_command :: "raw_command option"
  rw_process :: "raw_process option"
  rw_artifact :: "mode_decision option"
  rw_browser :: "mode_decision option"
  rw_subagent :: "raw_subagent_spawn option option"

record raw_tool_override =
  rw_tool :: string
  rw_tool_decision :: mode_decision

record raw_mode_def =
  rw_description :: "string option"
  rw_permissions :: raw_permissions
  rw_ui :: "bool option option"
  rw_tool_overrides :: "raw_tool_override list option"

record raw_modes_file =
  rw_version :: u32
  rw_modes :: "(string \<times> raw_mode_def) list"

definition or_deny :: "mode_decision option \<Rightarrow> mode_decision" where
  "or_deny d = (case d of Some x \<Rightarrow> x | None \<Rightarrow> Deny)"

definition spawn_try_from_raw :: "raw_subagent_spawn \<Rightarrow> mode_error + subagent_spawn_permissions" where
  "spawn_try_from_raw raw =
     (let allowed_modes = map_option (push_unique_trimmed {}) (rw_allowed_modes raw) in
        if (case rw_max_threads raw of Some value \<Rightarrow> value > 64 | None \<Rightarrow> False)
        then Inl MaxThreadsTooLarge
        else Inr \<lparr>sp_decision = rw_spawn_decision raw, sp_allowed_modes = allowed_modes,
                  sp_max_threads = rw_max_threads raw\<rparr>)"

definition subagent_try_from_raw ::
  "raw_subagent_spawn option \<Rightarrow> mode_error + subagent_spawn_permissions" where
  "subagent_try_from_raw raw =
     (case raw of None \<Rightarrow> Inr default_spawn | Some spawn \<Rightarrow> spawn_try_from_raw spawn)"

definition process_try_from_raw ::
  "string \<Rightarrow> raw_process option \<Rightarrow> mode_error + process_permissions" where
  "process_try_from_raw mode_name raw =
     (case raw of
        None \<Rightarrow> Inr \<lparr>proc_inspect = Deny, proc_kill = Deny, proc_interact = Deny\<rparr>
      | Some p \<Rightarrow>
          if or_deny (rw_interact p) \<noteq> Deny then Inl (InteractMustBeDeny mode_name)
          else Inr \<lparr>proc_inspect = or_deny (rw_inspect p), proc_kill = or_deny (rw_kill p),
                    proc_interact = or_deny (rw_interact p)\<rparr>)"

definition permissions_try_from_raw ::
  "glob_lib \<Rightarrow> string \<Rightarrow> raw_permissions \<Rightarrow> mode_error + mode_permissions" where
  "permissions_try_from_raw gl mode_name raw =
     rbind (case rw_edit raw of
              Some edit \<Rightarrow> edit_permissions_new gl (rw_edit_decision edit) (rw_allow_globs edit)
                             (rw_deny_globs edit)
            | None \<Rightarrow> edit_permissions_new gl Deny [] []) (\<lambda>edit.
     rbind (process_try_from_raw mode_name (rw_process raw)) (\<lambda>process.
     rbind (case rw_subagent raw of
              Some subagent \<Rightarrow> subagent_try_from_raw subagent
            | None \<Rightarrow> Inr default_spawn) (\<lambda>subagent.
       Inr \<lparr>mp_read = or_deny (rw_read raw), mp_edit = edit,
            mp_command = or_deny (map_option rw_command_decision (rw_command raw)),
            mp_process = process, mp_artifact = or_deny (rw_artifact raw),
            mp_browser = or_deny (rw_browser raw), mp_subagent_spawn = subagent\<rparr>)))"

text \<open>\<open>filter(...).map(...).collect::<BTreeMap>()\<close>: a later entry replaces an earlier one.\<close>

definition collect_overrides :: "raw_tool_override list \<Rightarrow> string \<Rightarrow> mode_decision option" where
  "collect_overrides overrides =
     fold (\<lambda>o' m. m(rw_tool o' \<mapsto> rw_tool_decision o'))
       (filter (\<lambda>o'. trim (rw_tool o') \<noteq> []) overrides) Map.empty"

definition mode_try_from_raw :: "glob_lib \<Rightarrow> string \<Rightarrow> raw_mode_def \<Rightarrow> mode_error + mode_def" where
  "mode_try_from_raw gl name raw =
     rbind (permissions_try_from_raw gl name (rw_permissions raw)) (\<lambda>permissions.
       Inr \<lparr>md_description = (case rw_description raw of Some d \<Rightarrow> d | None \<Rightarrow> []),
            md_permissions = permissions,
            md_show_thinking = (case rw_ui raw of Some ui \<Rightarrow> ui | None \<Rightarrow> None),
            md_command_execpolicy_rules =
              (case rw_command (rw_permissions raw) of
                 Some command \<Rightarrow> rw_execpolicy_rules command | None \<Rightarrow> []),
            md_tool_overrides =
              collect_overrides
                (case rw_tool_overrides raw of Some os \<Rightarrow> os | None \<Rightarrow> [])\<rparr>)"

section \<open>Loading the catalog\<close>

definition is_absolute :: "string \<Rightarrow> bool" where
  "is_absolute path \<longleftrightarrow> starts_with ''/'' path"

text \<open>\<open>Path::join\<close> of a relative path.\<close>

definition path_join :: "string \<Rightarrow> string \<Rightarrow> string" where
  "path_join root path =
     (if is_absolute path then path
      else if root = [] \<or> last root = CHR ''/'' then root @ path
      else root @ ''/'' @ path)"

datatype config_source = ConfigEnv | ConfigProject

fun with_path :: "config_source \<Rightarrow> string \<Rightarrow> mode_catalog_source" where
  "with_path ConfigEnv path = SourceEnv path"
| "with_path ConfigProject path = SourceProject path"

definition select_config_path ::
  "string option \<Rightarrow> (string \<Rightarrow> bool) \<Rightarrow> string \<Rightarrow> (config_source \<times> string) option" where
  "select_config_path env exists thread_root =
     (let spec_dir = path_join (path_join thread_root ''.omne_data'') ''spec'';
          yaml = path_join spec_dir ''modes.yaml'';
          yml = path_join spec_dir ''modes.yml''
      in case Option.bind env (\<lambda>s. if trim s = [] then None else Some (trim s)) of
           Some path \<Rightarrow>
             Some (ConfigEnv, if is_absolute path then path else path_join thread_root path)
         | None \<Rightarrow>
             if exists yaml then Some (ConfigProject, yaml)
             else if exists yml then Some (ConfigProject, yml)
             else None)"

text \<open>The loader's answer: the file, or an error that is one of the parser or another.\<close>

datatype config_error = ConfigParse string | ConfigFormatNotAllowed string | ConfigOther string

fun config_error_context :: "config_error \<Rightarrow> catalog_error" where
  "config_error_context (ConfigParse e) = ParseModesConfig e"
| "config_error_context (ConfigFormatNotAllowed e) = ParseModesConfig e"
| "config_error_context (ConfigOther e) = LoadModesConfig e"

fun insert_modes ::
  "glob_lib \<Rightarrow> (string \<times> raw_mode_def) list \<Rightarrow> (string \<Rightarrow> mode_def option) \<Rightarrow> mode_error list \<Rightarrow>
     (string \<Rightarrow> mode_def option) \<times> mode_error list" where
  "insert_modes gl [] modes errors = (modes, errors)"
| "insert_modes gl ((name, raw) # rest) modes errors =
     (case mode_try_from_raw gl name raw of
        Inr mode \<Rightarrow> insert_modes gl rest (modes(name \<mapsto> mode)) errors
      | Inl err \<Rightarrow> insert_modes gl rest modes (errors @ [err]))"

definition load_catalog ::
  "glob_lib \<Rightarrow> (string \<Rightarrow> config_error + raw_modes_file) \<Rightarrow> string option \<Rightarrow> (string \<Rightarrow> bool) \<Rightarrow>
     string \<Rightarrow> mode_catalog" where
  "load_catalog gl load_file env exists thread_root =
     (let out = builtin_catalog gl in
        case select_config_path env exists thread_root of
          None \<Rightarrow> out
        | Some (source, path) \<Rightarrow>
            (case load_file path of
               Inl err \<Rightarrow>
                 out\<lparr>mc_source := with_path source path,
                     mc_load_error := Some (config_error_context err)\<rparr>
             | Inr parsed \<Rightarrow>
                 if rw_version parsed \<noteq> 1
                 then out\<lparr>mc_source := with_path source path,
                          mc_load_error := Some (UnsupportedVersion (rw_version parsed))\<rparr>
                 else
                   let (modes, errors) = insert_modes gl (rw_modes parsed) (mc_modes out) []
                   in out\<lparr>mc_source := with_path source path,
                          mc_load_error := (if errors = [] then None else Some (ModeErrors errors)),
                          mc_modes := modes\<rparr>))"

section \<open>Relative paths\<close>

text \<open>
  \<open>Path::components\<close> on Unix: a leading slash is the root, empty pieces vanish, and a
  single dot is a component only at the start of a relative path.
\<close>

datatype path_component = RootDir | CurDir | ParentDir | Normal string

fun split_on :: "char \<Rightarrow> string \<Rightarrow> string list" where
  "split_on d [] = [[]]"
| "split_on d (c # cs) =
     (if c = d then [] # split_on d cs
      else (case split_on d cs of [] \<Rightarrow> [[c]] | l # ls \<Rightarrow> (c # l) # ls))"

definition piece_component :: "string \<Rightarrow> path_component option" where
  "piece_component piece =
     (if piece = [] \<or> piece = ''.'' then None
      else if piece = ''..'' then Some ParentDir else Some (Normal piece))"

definition components :: "string \<Rightarrow> path_component list" where
  "components path =
     (let pieces = split_on (CHR ''/'') path;
          lead = (if is_absolute path then [RootDir]
                  else if hd pieces = ''.'' then [CurDir] else [])
      in lead @ List.map_filter piece_component pieces)"

datatype path_error = ExpectedRelative string | ParentTraversal string | OutsideRoot string

fun component_str :: "path_component \<Rightarrow> string" where
  "component_str RootDir = ''/''"
| "component_str CurDir = ''.''"
| "component_str ParentDir = ''..''"
| "component_str (Normal name) = name"

text \<open>The loop that pushes every component but \<open>CurDir\<close> onto an empty path.\<close>

definition push_component :: "path_component \<Rightarrow> string \<Rightarrow> string" where
  "push_component c out =
     (if c = CurDir then out
      else if out = [] then component_str c else path_join out (component_str c))"

definition normalize_components :: "string \<Rightarrow> path_component list \<Rightarrow> path_error + string" where
  "normalize_components input cs =
     (if cs \<noteq> [] \<and> hd cs = RootDir then Inl (ExpectedRelative input)
      else if ParentDir \<in> set cs then Inl (ParentTraversal input)
      else Inr (fold push_component cs []))"

definition normalize_relative_path :: "string \<Rightarrow> path_error + string" where
  "normalize_relative_path input = normalize_components input (components input)"

fun strip_component_prefix ::
  "path_component list \<Rightarrow> path_component list \<Rightarrow> path_component list option" where
  "strip_component_prefix [] cs = Some cs"
| "strip_component_prefix (r # rs) [] = None"
| "strip_component_prefix (r # rs) (c # cs) =
     (if r = c then strip_component_prefix rs cs else None)"

definition relative_path_under_root :: "string \<Rightarrow> string \<Rightarrow> path_error + string" where
  "relative_path_under_root root input =
     (if is_absolute input then
        (case strip_component_prefix (components root) (components input) of
           None \<Rightarrow> Inl (OutsideRoot input)
         | Some rel \<Rightarrow> normalize_components input rel)
      else normalize_relative_path input)"

section \<open>Edit decisions\<close>

lemma decision_for_path_spec:
  assumes "edit_permissions_new gl decision allow_globs deny_globs = Inr edit"
  shows "decision_for_path gl edit path =
    (if decision \<noteq> Deny \<and> \<not> is_denied gl edit path \<and>
        (allow_globs = [] \<or> (\<exists>p. p \<in> set allow_globs \<and> gl_match gl p path))
     then decision else Deny) \<and>
    (is_denied gl edit path \<longleftrightarrow> (\<exists>p. p \<in> set deny_globs \<and> gl_match gl p path))"
proof -
  have add: "add_globs gl ps b = Inr globs \<Longrightarrow> globs = b @ ps" for ps b globs
    by (induction ps arbitrary: b) (simp, force split: if_splits)
  have compiled: "compile_globset gl ps = Inr globs \<Longrightarrow> globs = ps" for ps globs
    by (auto simp: compile_globset_def rbind_eq_Inr dest: add split: if_splits)
  from assms have "edit = \<lparr>ed_decision = decision, ed_allow_globs = allow_globs,
      ed_deny_globs = deny_globs,
      ed_allow = (if allow_globs = [] then None else Some allow_globs), ed_deny = deny_globs\<rparr>"
    by (auto simp: edit_permissions_new_def rbind_eq_Inr map_sum_def dest!: compiled
        split: if_splits sum.splits)
  then show ?thesis
    by (auto simp: decision_for_path_def is_denied_def is_match_def list_ex_iff)
qed

text \<open>
  An edit is possible under a mode's edit permissions exactly when the mode does not deny
  edits, no deny pattern matches the path, and some allow pattern does when any is given; it
  then gets the mode's own decision.
\<close>

theorem decision_for_path_correct:
  assumes "edit_permissions_new gl decision allow_globs deny_globs = Inr edit"
  shows "decision_for_path gl edit path =
    (if decision \<noteq> Deny \<and> \<not> is_denied gl edit path \<and>
        (allow_globs = [] \<or> (\<exists>p. p \<in> set allow_globs \<and> gl_match gl p path))
     then decision else Deny) \<and>
    (is_denied gl edit path \<longleftrightarrow> (\<exists>p. p \<in> set deny_globs \<and> gl_match gl p path))"
  using assms by (rule decision_for_path_spec)

section \<open>The builtin modes\<close>

definition builtin_list :: "glob_lib \<Rightarrow> mode_def list" where
  "builtin_list gl =
     [builtin_architect gl, builtin_code gl, builtin_chat gl, builtin_roleplay gl,
      builtin_author gl, builtin_doc_organizer gl, builtin_chatter gl, builtin_default gl,
      builtin_codder gl, builtin_coder gl, builtin_reviewer gl, builtin_builder gl,
      builtin_debugger gl, builtin_merger gl]"

lemmas builtin_mode_defs =
  builtin_architect_def builtin_code_def builtin_chat_def builtin_roleplay_def
  builtin_author_def builtin_doc_organizer_def builtin_chatter_def builtin_default_def
  builtin_codder_def builtin_coder_def builtin_reviewer_def builtin_builder_def
  builtin_debugger_def builtin_merger_def

lemma builtin_modes_list: "builtin_modes gl name = Some mode \<Longrightarrow> mode \<in> set (builtin_list gl)"
  by (auto simp: builtin_modes_def insert_alias_def builtin_list_def split: if_splits option.splits)

lemma builtin_edit_protects:
  assumes "g \<in> set deny" and "gl_match gl g path"
  shows "decision_for_path gl (builtin_edit_permissions gl d allow deny) path = Deny"
proof (cases "edit_permissions_new gl d allow deny")
  case (Inl e)
  then show ?thesis by (simp add: builtin_edit_permissions_def decision_for_path_def)
next
  case (Inr edit)
  with decision_for_path_spec [OF Inr, of path] assms show ?thesis
    by (auto simp: builtin_edit_permissions_def)
qed

text \<open>
  No builtin mode lets an agent edit the protected paths. Whatever the glob library
  answers, a path matched by one of the protected patterns (the version control directory,
  the agent's own data and configuration, environment files) is denied in every builtin
  mode, also when the patterns do not compile.
\<close>

theorem builtin_modes_protect:
  assumes "catalog_mode (builtin_catalog gl) name = Some mode"
    and "g \<in> set default_deny_globs" and "gl_match gl g path"
  shows "decision_for_path gl (mp_edit (md_permissions mode)) path = Deny"
proof -
  have "list_all (\<lambda>m. decision_for_path gl (mp_edit (md_permissions m)) path = Deny) (builtin_list gl)"
    unfolding builtin_list_def list.pred_inject builtin_mode_defs builtin_mode_def
    by (simp add: builtin_edit_protects [OF assms(2,3)])
  with builtin_modes_list [of gl name mode] assms(1) show ?thesis
    by (simp add: list_all_iff catalog_mode_def builtin_catalog_def)
qed

section \<open>Loaded catalogs\<close>

definition mode_wf :: "mode_def \<Rightarrow> bool" where
  "mode_wf mode \<longleftrightarrow>
     proc_interact (mp_process (md_permissions mode)) = Deny \<and>
     (case sp_max_threads (mp_subagent_spawn (md_permissions mode)) of
        None \<Rightarrow> True | Some n \<Rightarrow> n \<le> 64)"

lemma builtin_modes_wf: "builtin_modes gl name = Some mode \<Longrightarrow> mode_wf mode"
proof -
  have "list_all mode_wf (builtin_list gl)"
    unfolding builtin_list_def builtin_mode_defs builtin_mode_def
    by (simp add: mode_wf_def default_spawn_def)
  then show "builtin_modes gl name = Some mode \<Longrightarrow> mode_wf mode"
    using builtin_modes_list by (auto simp: list_all_iff)
qed

lemma process_try_from_raw_wf: "process_try_from_raw name raw = Inr p \<Longrightarrow> proc_interact p = Deny"
  by (auto simp: process_try_from_raw_def split: option.splits if_splits)

lemma spawn_try_from_raw_wf:
  "spawn_try_from_raw raw = Inr s \<Longrightarrow> (case sp_max_threads s of None \<Rightarrow> True | Some n \<Rightarrow> n \<le> 64)"
  by (auto simp: spawn_try_from_raw_def Let_def split: option.splits if_splits)

lemma subagent_try_from_raw_wf:
  "subagent_try_from_raw raw = Inr s \<Longrightarrow> (case sp_max_threads s of None \<Rightarrow> True | Some n \<Rightarrow> n \<le> 64)"
  by (cases raw) (auto simp: subagent_try_from_raw_def default_spawn_def dest: spawn_try_from_raw_wf)

lemma permissions_try_from_raw_parts:
  "permissions_try_from_raw gl name raw = Inr ps \<Longrightarrow>
     process_try_from_raw name (rw_process raw) = Inr (mp_process ps) \<and>
     (case rw_subagent raw of Some subagent \<Rightarrow> subagent_try_from_raw subagent
      | None \<Rightarrow> Inr default_spawn) = Inr (mp_subagent_spawn ps)"
  by (auto simp: permissions_try_from_raw_def rbind_eq_Inr)

lemma mode_try_from_raw_wf: "mode_try_from_raw gl name raw = Inr mode \<Longrightarrow> mode_wf mode"
proof -
  assume "mode_try_from_raw gl name raw = Inr mode"
  then have "permissions_try_from_raw gl name (rw_permissions raw) = Inr (md_permissions mode)"
    by (auto simp: mode_try_from_raw_def rbind_eq_Inr)
  note parts = permissions_try_from_raw_parts [OF this]
  have "(case rs of Some r \<Rightarrow> subagent_try_from_raw r | None \<Rightarrow> Inr default_spawn) = Inr s \<Longrightarrow>
      (case sp_max_threads s of None \<Rightarrow> True | Some n \<Rightarrow> n \<le> 64)" for rs s
    by (cases rs) (auto simp: default_spawn_def dest: subagent_try_from_raw_wf)
  with parts show "mode_wf mode"
    unfolding mode_wf_def by (blast dest: process_try_from_raw_wf)
qed

lemma insert_modes_eq:
  "insert_modes gl raws modes errors =
     (fold (\<lambda>(name, raw) m. case mode_try_from_raw gl name raw of
        Inr mode \<Rightarrow> m(name \<mapsto> mode) | Inl _ \<Rightarrow> m) raws modes,
      errors @ concat (map (\<lambda>(name, raw). case mode_try_from_raw gl name raw of
        Inr _ \<Rightarrow> [] | Inl err \<Rightarrow> [err]) raws))"
proof (induction raws arbitrary: modes errors)
  case (Cons r raws)
  obtain n raw where "r = (n, raw)" by (cases r)
  then show ?case by (cases "mode_try_from_raw gl n raw") (simp_all add: Cons.IH fun_upd_def)
qed simp

lemma fold_modes_lookup:
  assumes "distinct (map fst raws)"
  shows "fold (\<lambda>(name, raw) m. case mode_try_from_raw gl name raw of
        Inr mode \<Rightarrow> m(name \<mapsto> mode) | Inl _ \<Rightarrow> m) raws modes name =
    (case map_of raws name of
       None \<Rightarrow> modes name
     | Some raw \<Rightarrow> (case mode_try_from_raw gl name raw of
         Inr mode \<Rightarrow> Some mode | Inl _ \<Rightarrow> modes name))"
  using assms
proof (induction raws arbitrary: modes)
  case (Cons r raws)
  obtain n raw where r: "r = (n, raw)" by (cases r)
  show ?case
  proof (cases "n = name")
    case True
    with Cons.prems r have "map_of raws name = None" by (force simp: map_of_eq_None_iff)
    with Cons r True show ?thesis by (cases "mode_try_from_raw gl n raw") simp_all
  next
    case False
    with Cons r show ?thesis
      by (cases "mode_try_from_raw gl n raw") (simp_all split: option.split sum.split)
  qed
qed simp

text \<open>
  Whatever the configuration says, a catalog that was loaded only holds modes without
  interactive processes and with at most 64 subagent threads; and a configuration can only
  replace a builtin mode by a valid mode of that name: a file that cannot be used, and an
  entry that is invalid, leave the builtin modes in place.
\<close>

theorem load_catalog_correct:
  assumes "\<And>path parsed. load_file path = Inr parsed \<Longrightarrow> distinct (map fst (rw_modes parsed))"
    and catalog_def: "catalog = load_catalog gl load_file env exists root"
  shows "(catalog_mode catalog name = Some mode \<longrightarrow> mode_wf mode) \<and>
    (catalog_mode catalog name = builtin_modes gl name \<or>
     (\<exists>source path parsed raw mode. select_config_path env exists root = Some (source, path) \<and>
        load_file path = Inr parsed \<and> rw_version parsed = 1 \<and>
        map_of (rw_modes parsed) name = Some raw \<and>
        mode_try_from_raw gl name raw = Inr mode \<and> catalog_mode catalog name = Some mode))"
proof -
  have second: "catalog_mode catalog name = builtin_modes gl name \<or>
     (\<exists>source path parsed raw mode. select_config_path env exists root = Some (source, path) \<and>
        load_file path = Inr parsed \<and> rw_version parsed = 1 \<and>
        map_of (rw_modes parsed) name = Some raw \<and>
        mode_try_from_raw gl name raw = Inr mode \<and> catalog_mode catalog name = Some mode)"
  proof (cases "select_config_path env exists root")
    case None
    then show ?thesis
      by (simp add: catalog_def load_catalog_def catalog_mode_def builtin_catalog_def)
  next
    case (Some sp)
    obtain source path where sp: "sp = (source, path)" by (cases sp)
    show ?thesis
    proof (cases "load_file path")
      case (Inl e)
      with Some sp show ?thesis
        by (simp add: catalog_def load_catalog_def catalog_mode_def builtin_catalog_def)
    next
      case (Inr parsed)
      show ?thesis
      proof (cases "rw_version parsed = 1")
        case False
        with Some sp Inr show ?thesis
          by (simp add: catalog_def load_catalog_def catalog_mode_def builtin_catalog_def)
      next
        case True
        with Some sp Inr have "catalog_mode catalog name =
            (case map_of (rw_modes parsed) name of
               None \<Rightarrow> builtin_modes gl name
             | Some raw \<Rightarrow> (case mode_try_from_raw gl name raw of
                 Inr mode \<Rightarrow> Some mode | Inl _ \<Rightarrow> builtin_modes gl name))"
          by (simp add: catalog_def load_catalog_def catalog_mode_def builtin_catalog_def
              insert_modes_eq fold_modes_lookup [OF assms(1) [OF Inr]])
        with Some sp Inr True show ?thesis by (auto split: option.splits sum.splits)
      qed
    qed
  qed
  moreover from second have "mode_wf mode" if "catalog_mode catalog name = Some mode"
    using that builtin_modes_wf [of gl name mode] by (auto dest: mode_try_from_raw_wf)
  ultimately show ?thesis by blast
qed

text \<open>
  The description of the builtin mode \<open>code\<close> promises the permissions of \<open>coder\<close>, but
  the two differ in the modes a spawned subagent may have.
\<close>

theorem code_is_not_coder:
  "mp_subagent_spawn (md_permissions (builtin_code gl)) \<noteq>
     mp_subagent_spawn (md_permissions (builtin_coder gl)) \<and>
   md_description (builtin_code gl) = ''Coding scenario mode; same permissions as coder.'' \<and>
   mp_subagent_spawn (md_permissions (builtin_code gl)) =
     (mp_subagent_spawn (md_permissions (builtin_coder gl)))
       \<lparr>sp_allowed_modes := coder_spawn_allowed_modes\<rparr>"
  by (simp add: builtin_code_def builtin_coder_def builtin_mode_def coder_spawn_allowed_modes_def)

section \<open>Normalised paths\<close>

definition plain_name :: "string \<Rightarrow> bool" where
  "plain_name name \<longleftrightarrow> name \<noteq> [] \<and> name \<noteq> ''.'' \<and> name \<noteq> ''..'' \<and> CHR ''/'' \<notin> set name"

fun join_names :: "string list \<Rightarrow> string" where
  "join_names [] = []"
| "join_names [n] = n"
| "join_names (n # ns) = n @ CHR ''/'' # join_names ns"

lemma split_on_pieces: "p \<in> set (split_on d s) \<Longrightarrow> d \<notin> set p"
  by (induction s arbitrary: p) (auto split: if_splits list.splits)

lemma split_on_plain: "d \<notin> set n \<Longrightarrow> split_on d n = [n]"
  by (induction n) auto

lemma split_on_append: "d \<notin> set n \<Longrightarrow> split_on d (n @ d # r) = n # split_on d r"
  by (induction n) auto

lemma split_on_join: "list_all plain_name ns \<Longrightarrow> ns \<noteq> [] \<Longrightarrow> split_on (CHR ''/'') (join_names ns) = ns"
  by (induction ns rule: join_names.induct) (auto simp: plain_name_def split_on_plain split_on_append)

lemma piece_component_Some:
  "piece_component p = Some c \<Longrightarrow> CHR ''/'' \<notin> set p \<Longrightarrow> c = ParentDir \<or> (\<exists>n. c = Normal n \<and> plain_name n)"
  by (auto simp: piece_component_def plain_name_def split: if_splits)

lemma components_cases:
  "c \<in> set (components s) \<Longrightarrow> c = RootDir \<or> c = CurDir \<or> c = ParentDir \<or> (\<exists>n. c = Normal n \<and> plain_name n)"
proof -
  have "c = ParentDir \<or> (\<exists>n. c = Normal n \<and> plain_name n)"
    if "c \<in> set (List.map_filter piece_component (split_on (CHR ''/'') s))" for c
    using that by (auto simp: set_map_filter dest!: piece_component_Some dest: split_on_pieces)
  then show "c \<in> set (components s) \<Longrightarrow> ?thesis"
    by (auto simp: components_def Let_def split: if_splits)
qed

lemma is_absolute_hd: "is_absolute s \<longleftrightarrow> s \<noteq> [] \<and> hd s = CHR ''/''"
  by (cases s) (auto simp: is_absolute_def starts_with_def)

lemma join_names_hd: "list_all plain_name ns \<Longrightarrow> ns \<noteq> [] \<Longrightarrow>
    join_names ns \<noteq> [] \<and> hd (join_names ns) \<noteq> CHR ''/'' \<and> last (join_names ns) \<noteq> CHR ''/''"
  by (induction ns rule: join_names.induct)
    (auto simp: plain_name_def dest: hd_in_set last_in_set)

lemma components_join:
  assumes "list_all plain_name ns"
  shows "components (join_names ns) = map Normal ns"
proof (cases "ns = []")
  case True
  then show ?thesis
    by (simp add: components_def is_absolute_hd piece_component_def map_filter_def)
next
  case False
  have "List.map_filter piece_component ns = map Normal ns"
    using assms by (induction ns) (auto simp: List.map_filter_simps piece_component_def plain_name_def)
  moreover have "hd ns \<noteq> ''.''" using assms False by (cases ns) (auto simp: plain_name_def)
  ultimately show ?thesis
    using False assms join_names_hd [OF assms False] split_on_join [OF assms False]
    by (simp add: components_def is_absolute_hd)
qed

lemma join_names_snoc: "ns \<noteq> [] \<Longrightarrow> join_names (ns @ [n]) = join_names ns @ CHR ''/'' # n"
  by (induction ns rule: join_names.induct) auto

lemma fold_push_component:
  assumes "list_all plain_name ns"
  shows "fold push_component (map Normal ns) [] = join_names ns"
  using assms
proof (induction ns rule: rev_induct)
  case (snoc n ns)
  then have n: "\<not> is_absolute n" and IH: "fold push_component (map Normal ns) [] = join_names ns"
    by (auto simp: plain_name_def is_absolute_hd dest: hd_in_set)
  show ?case
  proof (cases "ns = []")
    case True
    then show ?thesis by (simp add: push_component_def)
  next
    case False
    with snoc.prems join_names_hd [of ns] n join_names_snoc [OF False]
    have "push_component (Normal n) (join_names ns) = join_names (ns @ [n])"
      by (simp add: push_component_def path_join_def)
    with IH show ?thesis by simp
  qed
qed simp

lemma push_filter: "fold push_component cs out = fold push_component (filter (\<lambda>c. c \<noteq> CurDir) cs) out"
  by (induction cs arbitrary: out) (auto simp: push_component_def)

lemma normal_names:
  "\<forall>c \<in> set cs. \<exists>n. c = Normal n \<and> plain_name n \<Longrightarrow> \<exists>ns. cs = map Normal ns \<and> list_all plain_name ns"
proof (induction cs)
  case (Cons c cs)
  then obtain n ns where "c = Normal n" "plain_name n" "cs = map Normal ns" "list_all plain_name ns"
    by auto
  then have "c # cs = map Normal (n # ns) \<and> list_all plain_name (n # ns)" by simp
  then show ?case by (rule exI)
qed simp

lemma components_root: "c = RootDir \<Longrightarrow> c \<in> set (components s) \<Longrightarrow> is_absolute s"
proof -
  have "RootDir \<notin> set (List.map_filter piece_component ps)" for ps
    by (induction ps) (auto simp: List.map_filter_simps piece_component_def split: option.splits)
  then show "c = RootDir \<Longrightarrow> c \<in> set (components s) \<Longrightarrow> is_absolute s"
    by (auto simp: components_def Let_def split: if_splits)
qed

lemma normalize_relative_names:
  assumes "\<not> is_absolute input" and "ParentDir \<notin> set (components input)"
  shows "\<exists>ns. filter (\<lambda>c. c \<noteq> CurDir) (components input) = map Normal ns \<and> list_all plain_name ns \<and>
    normalize_relative_path input = Inr (join_names ns)"
proof -
  have "\<forall>c \<in> set (filter (\<lambda>c. c \<noteq> CurDir) (components input)). \<exists>n. c = Normal n \<and> plain_name n"
    using components_cases assms components_root by fastforce
  from normal_names [OF this] obtain ns where
    ns: "filter (\<lambda>c. c \<noteq> CurDir) (components input) = map Normal ns" "list_all plain_name ns" by blast
  have "components input \<noteq> [] \<longrightarrow> hd (components input) \<noteq> RootDir"
    using assms(1) components_root hd_in_set by blast
  with assms(2) have "normalize_relative_path input = Inr (join_names ns)"
    using ns fold_push_component [OF ns(2)]
    by (auto simp: normalize_relative_path_def normalize_components_def push_filter [of "components input"])
  with ns show ?thesis by blast
qed

lemma absolute_components: "is_absolute s \<Longrightarrow> \<exists>cs. components s = RootDir # cs"
  by (simp add: components_def)

lemma normalize_relative_accepts:
  "(\<exists>out. normalize_relative_path input = Inr out) \<longleftrightarrow>
     \<not> is_absolute input \<and> ParentDir \<notin> set (components input)"
proof
  assume "\<exists>out. normalize_relative_path input = Inr out"
  then show "\<not> is_absolute input \<and> ParentDir \<notin> set (components input)"
    using absolute_components [of input]
    by (auto simp: normalize_relative_path_def normalize_components_def split: if_splits)
qed (use normalize_relative_names in blast)

text \<open>
  A path normalises exactly when it is relative and never steps to a parent directory;
  the result consists of the same names without dots and doubled slashes, so it cannot leave
  the directory it is joined to, and normalising it again changes nothing.
\<close>

theorem normalize_relative_path_correct:
  assumes "normalize_relative_path input = r"
  shows "(\<not> isl r \<longleftrightarrow> \<not> is_absolute input \<and> ParentDir \<notin> set (components input)) \<and>
    (\<not> isl r \<longrightarrow>
       components (projr r) = filter (\<lambda>c. c \<noteq> CurDir) (components input) \<and>
       set (components (projr r)) \<subseteq> range Normal \<and> normalize_relative_path (projr r) = r)"
proof (cases r)
  case (Inl e)
  with assms normalize_relative_accepts [of input] show ?thesis by auto
next
  case (Inr out)
  with assms normalize_relative_accepts [of input]
  have ok: "\<not> is_absolute input" "ParentDir \<notin> set (components input)" by auto
  from normalize_relative_names [OF this] assms Inr obtain ns where
    ns: "filter (\<lambda>c. c \<noteq> CurDir) (components input) = map Normal ns" "list_all plain_name ns"
      "out = join_names ns" by auto
  have c: "components out = map Normal ns" using ns components_join by simp
  have "\<not> is_absolute out"
    using ns(2,3) join_names_hd [of ns] by (cases "ns = []") (auto simp: is_absolute_hd)
  moreover have "ParentDir \<notin> set (components out)" using c by auto
  ultimately obtain ms where "filter (\<lambda>c. c \<noteq> CurDir) (components out) = map Normal ms"
      "normalize_relative_path out = Inr (join_names ms)"
    using normalize_relative_names by blast
  with c have "map Normal ns = map Normal ms" by (simp add: filter_map comp_def)
  then have "ns = ms" by (rule map_injective) (auto intro: injI)
  with \<open>normalize_relative_path out = _\<close> ns c ok Inr show ?thesis by auto
qed

section \<open>Witnesses\<close>

definition sample_globs :: glob_lib where
  "sample_globs = \<lparr>gl_new = (\<lambda>_. True), gl_build = (\<lambda>_. True), gl_match = (\<lambda>p path. p = path)\<rparr>"

theorem decision_for_path_correct_witness:
  "\<exists>edit. edit_permissions_new sample_globs Prompt [''a''] [''b''] = Inr edit \<and>
     decision_for_path sample_globs edit ''a'' = Prompt"
proof -
  have "edit_permissions_new sample_globs Prompt [''a''] [''b''] =
      Inr \<lparr>ed_decision = Prompt, ed_allow_globs = [''a''], ed_deny_globs = [''b''],
        ed_allow = Some [''a''], ed_deny = [''b'']\<rparr>"
    by (simp add: edit_permissions_new_def compile_globset_def sample_globs_def)
  with decision_for_path_correct [OF this, of "''a''"] show ?thesis
    by (simp add: sample_globs_def)
qed

theorem builtin_modes_protect_witness:
  "decision_for_path sample_globs (mp_edit (md_permissions (builtin_coder sample_globs))) ''**/.env'' = Deny"
  by (rule builtin_modes_protect [of _ "''coder''" _ "''**/.env''"])
    (simp_all add: catalog_mode_def builtin_catalog_def builtin_modes_def default_deny_globs_def
      sample_globs_def)

theorem load_catalog_correct_witness:
  "catalog_mode (load_catalog sample_globs (\<lambda>_. Inr \<lparr>rw_version = 1, rw_modes = []\<rparr>) (Some ''m.yaml'')
     (\<lambda>_. False) ''/w'') ''coder'' = builtin_modes sample_globs ''coder''"
  using load_catalog_correct [of "\<lambda>_. Inr \<lparr>rw_version = 1, rw_modes = []\<rparr>" _ sample_globs "Some ''m.yaml''"
      "\<lambda>_. False" "''/w''" "''coder''", OF _ refl]
  by auto

theorem normalize_relative_path_correct_witness:
  "components (projr (normalize_relative_path ''./a//b'')) = [Normal ''a'', Normal ''b'']"
proof -
  have c: "components ''./a//b'' = [CurDir, Normal ''a'', Normal ''b'']"
    by code_simp
  have "\<not> is_absolute ''./a//b''" by code_simp
  with normalize_relative_path_correct [of "''./a//b''", OF refl] c show ?thesis by simp
qed

end
