(* ===== verification/ToolGate.thy ===== *)
theory ToolGate
  imports Modes
begin

text \<open>
  What a thread may do with a tool: the roles of \<open>crates/core/src/roles.rs\<close>, the tool lists
  and decisions of \<open>crates/core/src/allowed_tools.rs\<close> and the gate of
  \<open>crates/app-server/src/main/mode_gate.rs\<close>, which combines mode, tool override and role.
\<close>

section \<open>Roles\<close>

definition builtin_roles :: "string \<Rightarrow> string option" where
  "builtin_roles = Map.empty
     (''architect'' \<mapsto> ''architect'', ''reviewer'' \<mapsto> ''reviewer'', ''builder'' \<mapsto> ''builder'',
      ''code'' \<mapsto> ''code'', ''coder'' \<mapsto> ''coder'', ''codder'' \<mapsto> ''codder'',
      ''default'' \<mapsto> ''default'', ''chatter'' \<mapsto> ''chatter'', ''chat'' \<mapsto> ''chat'',
      ''roleplay'' \<mapsto> ''roleplay'', ''author'' \<mapsto> ''author'',
      ''doc_organizer'' \<mapsto> ''doc_organizer'', ''doc-organizer'' \<mapsto> ''doc_organizer'',
      author_alias \<mapsto> ''author'', doc_organizer_alias \<mapsto> ''doc_organizer'')"

definition permission_mode_name :: "string \<Rightarrow> string option" where
  "permission_mode_name role_name = builtin_roles role_name"

section \<open>Allowed tools\<close>

definition known_allowed_tools :: "string list" where
  "known_allowed_tools =
     [''facade/workspace'', ''facade/process'', ''facade/thread'',
      ''facade/artifact'', ''facade/integration'', ''file/read'', ''file/glob'',
      ''file/grep'', ''file/write'', ''file/patch'', ''file/edit'', ''file/delete'',
      ''fs/mkdir'', ''repo/search'', ''repo/index'', ''repo/symbols'',
      ''repo/goto_definition'', ''repo/find_references'', ''mcp/list_servers'',
      ''mcp/list_tools'', ''mcp/list_resources'', ''mcp/call'', ''artifact/write'',
      ''artifact/list'', ''artifact/read'', ''artifact/delete'',
      ''thread/request_user_input'', ''thread/diff'', ''thread/state'',
      ''thread/usage'', ''thread/events'', ''thread/hook_run'', ''web/search'',
      ''web/fetch'', ''web/view_image'', ''subagent/spawn'', ''subagent/send_input'',
      ''subagent/wait'', ''subagent/close'', ''process/start'', ''process/list'',
      ''process/inspect'', ''process/kill'', ''process/interrupt'', ''process/tail'',
      ''process/follow'']"

definition is_known_allowed_tool :: "string \<Rightarrow> bool" where
  "is_known_allowed_tool tool \<longleftrightarrow> tool \<in> set known_allowed_tools"

text \<open>The loop of \<open>normalize_allowed_tools\<close>; the error is the unknown tool's name.\<close>

fun normalize_tools :: "string set \<Rightarrow> string list \<Rightarrow> string list \<Rightarrow> string + string list" where
  "normalize_tools seen [] out = Inr out"
| "normalize_tools seen (tool # tools) out =
     (let trimmed = trim tool in
        if trimmed = [] then normalize_tools seen tools out
        else if \<not> is_known_allowed_tool trimmed then Inl trimmed
        else if trimmed \<in> seen then normalize_tools seen tools out
        else normalize_tools (insert trimmed seen) tools (out @ [trimmed]))"

definition normalize_allowed_tools :: "string list \<Rightarrow> string + string list" where
  "normalize_allowed_tools tools = normalize_tools {} tools []"

definition base_mode_decision_for_tool :: "mode_def \<Rightarrow> string \<Rightarrow> mode_decision option" where
  "base_mode_decision_for_tool mode tool =
     (let p = md_permissions mode;
          read = mp_read p;
          edit = ed_decision (mp_edit p);
          command = mp_command p;
          inspect = proc_inspect (mp_process p);
          kill = proc_kill (mp_process p);
          artifact = mp_artifact p;
          browser = mp_browser p;
          spawn = sp_decision (mp_subagent_spawn p)
      in if tool = ''facade/workspace'' then Some (combine (combine read edit) artifact)
         else if tool = ''facade/process'' then Some (combine (combine command inspect) kill)
         else if tool = ''facade/thread''
         then Some (combine (combine (combine read command) inspect) spawn)
         else if tool = ''facade/artifact'' then Some artifact
         else if tool = ''facade/integration''
         then Some (combine (combine (combine browser command) artifact) read)
         else if tool \<in> {''file/read'', ''file/glob'', ''file/grep''} then Some read
         else if tool \<in> {''file/write'', ''file/patch'', ''file/edit'', ''file/delete'', ''fs/mkdir''}
         then Some edit
         else if tool \<in> {''repo/search'', ''repo/index'', ''repo/symbols'',
                         ''repo/goto_definition'', ''repo/find_references''}
         then Some (combine read artifact)
         else if tool = ''mcp/list_servers'' then Some read
         else if tool \<in> {''mcp/list_tools'', ''mcp/list_resources'', ''mcp/call''}
         then Some (combine command artifact)
         else if tool \<in> {''artifact/write'', ''artifact/list'', ''artifact/read'', ''artifact/delete''}
         then Some artifact
         else if tool \<in> {''thread/request_user_input'', ''thread/state'', ''thread/usage'',
                         ''thread/events''}
         then Some read
         else if tool = ''thread/diff'' then Some (combine command artifact)
         else if tool = ''thread/hook_run'' then Some (combine command inspect)
         else if tool \<in> {''web/search'', ''web/fetch'', ''web/view_image''} then Some browser
         else if tool \<in> {''subagent/spawn'', ''subagent/send_input''} then Some spawn
         else if tool = ''subagent/wait'' then Some read
         else if tool = ''subagent/close'' then Some (combine spawn kill)
         else if tool = ''process/start'' then Some command
         else if tool \<in> {''process/list'', ''process/inspect'', ''process/tail'', ''process/follow''}
         then Some inspect
         else if tool \<in> {''process/kill'', ''process/interrupt''} then Some kill
         else None)"

definition with_override :: "mode_def \<Rightarrow> string \<Rightarrow> mode_decision \<Rightarrow> mode_decision" where
  "with_override mode tool base =
     (case md_tool_overrides mode tool of
        Some override_decision \<Rightarrow> combine base override_decision | None \<Rightarrow> base)"

definition effective_mode_decision_for_tool :: "mode_def \<Rightarrow> string \<Rightarrow> mode_decision option" where
  "effective_mode_decision_for_tool mode tool =
     map_option (with_override mode tool) (base_mode_decision_for_tool mode tool)"

definition effective_mode_and_role_decision_for_tool ::
  "mode_def \<Rightarrow> mode_def \<Rightarrow> string \<Rightarrow> mode_decision option" where
  "effective_mode_and_role_decision_for_tool mode role_permission_mode tool =
     Option.bind (effective_mode_decision_for_tool mode tool) (\<lambda>mode_decision.
     Option.bind (effective_mode_decision_for_tool role_permission_mode tool) (\<lambda>role_decision.
       Some (combine mode_decision role_decision)))"

definition effective_permissions_for_mode_and_role ::
  "mode_def \<Rightarrow> mode_def \<Rightarrow> string list option \<Rightarrow> string list" where
  "effective_permissions_for_mode_and_role mode role_permission_mode allowed_tools =
     filter (\<lambda>tool.
         (case effective_mode_and_role_decision_for_tool mode role_permission_mode tool of
            Some decision \<Rightarrow> decision \<noteq> Deny | None \<Rightarrow> False))
       (case allowed_tools of Some tools \<Rightarrow> tools | None \<Rightarrow> known_allowed_tools)"

section \<open>The mode gate\<close>

datatype decision_source = FromToolOverride | FromModePermission | FromRolePermissionMode

record mode_decision_audit =
  audit_decision :: mode_decision
  audit_source :: decision_source
  audit_override_hit :: bool

definition resolve_mode_decision_audit ::
  "mode_def \<Rightarrow> string \<Rightarrow> mode_decision \<Rightarrow> mode_decision_audit" where
  "resolve_mode_decision_audit mode action base_decision =
     (let tool_override_hit = md_tool_overrides mode action \<noteq> None in
        \<lparr>audit_decision = with_override mode action base_decision,
         audit_source = (if tool_override_hit then FromToolOverride else FromModePermission),
         audit_override_hit = tool_override_hit\<rparr>)"

definition usable_role :: "string option \<Rightarrow> string option" where
  "usable_role role_name =
     (case role_name of None \<Rightarrow> None | Some r \<Rightarrow> if trim r = [] then None else Some (trim r))"

definition resolve_mode_and_role_decision_audit ::
  "mode_catalog \<Rightarrow> mode_def \<Rightarrow> string option \<Rightarrow> string \<Rightarrow> (mode_def \<Rightarrow> mode_decision) \<Rightarrow>
     mode_decision_audit" where
  "resolve_mode_and_role_decision_audit catalog mode role_name action base_decision_for_mode =
     (let mode_audit = resolve_mode_decision_audit mode action (base_decision_for_mode mode) in
        case usable_role role_name of
          None \<Rightarrow> mode_audit
        | Some role \<Rightarrow>
            (case permission_mode_name role of
               None \<Rightarrow> mode_audit
             | Some mode_name \<Rightarrow>
                 (case catalog_mode catalog mode_name of
                    None \<Rightarrow> mode_audit
                  | Some role_mode \<Rightarrow>
                      let role_audit =
                            resolve_mode_decision_audit role_mode action
                              (base_decision_for_mode role_mode);
                          combined = combine (audit_decision mode_audit) (audit_decision role_audit);
                          role_tightened = combined \<noteq> audit_decision mode_audit
                      in \<lparr>audit_decision = combined,
                          audit_source = (if role_tightened then FromRolePermissionMode
                                          else audit_source mode_audit),
                          audit_override_hit =
                            audit_override_hit mode_audit \<or> audit_override_hit role_audit\<rparr>)))"

section \<open>Tool lists\<close>

lemma normalize_tools_eq:
  "normalize_tools seen tools out =
     (case List.find (\<lambda>t. t \<noteq> [] \<and> \<not> is_known_allowed_tool t) (map trim tools) of
        Some t \<Rightarrow> Inl t
      | None \<Rightarrow> Inr (out @ push_unique_trimmed seen tools))"
  by (induction seen tools out rule: normalize_tools.induct)
    (auto simp: Let_def split: option.split)

text \<open>
  A list of allowed tools is accepted exactly when every non-empty entry, trimmed, is a
  known tool; the result holds each named tool once, in the order of first mention, and is a
  fixed point. Otherwise the first unknown name is reported.
\<close>

theorem normalize_allowed_tools_correct:
  "normalize_allowed_tools tools =
     (case List.find (\<lambda>t. t \<noteq> [] \<and> \<not> is_known_allowed_tool t) (map trim tools) of
        Some t \<Rightarrow> Inl t
      | None \<Rightarrow> Inr (push_unique_trimmed {} tools)) \<and>
   distinct (push_unique_trimmed {} tools) \<and>
   set (push_unique_trimmed {} tools) = trim ` set tools - {[]} \<and>
   push_unique_trimmed {} (push_unique_trimmed {} tools) = push_unique_trimmed {} tools"
proof -
  have "push_unique_trimmed {} (push_unique_trimmed {} tools) = push_unique_trimmed {} tools"
    by (rule push_unique_trimmed_id [OF distinct_push_unique_trimmed])
      (auto dest: push_unique_trimmed_trimmed)
  then show ?thesis
    by (simp add: normalize_allowed_tools_def normalize_tools_eq distinct_push_unique_trimmed
        set_push_unique_trimmed split: option.split)
qed

section \<open>Decisions\<close>

lemma base_decision_known:
  "base_mode_decision_for_tool mode tool \<noteq> None \<longleftrightarrow> is_known_allowed_tool tool"
  by (simp add: base_mode_decision_for_tool_def is_known_allowed_tool_def known_allowed_tools_def
      Let_def)

lemma effective_decision_known:
  "effective_mode_decision_for_tool mode tool \<noteq> None \<longleftrightarrow> is_known_allowed_tool tool"
  using base_decision_known [of mode tool] by (simp add: effective_mode_decision_for_tool_def)

text \<open>
  A tool is offered to a thread exactly when it is a known tool, is on the thread's list
  when there is one, and neither the mode nor the role's mode denies it, by permission or by
  override; so a role or a list can only take tools away.
\<close>

theorem effective_permissions_correct:
  "tool \<in> set (effective_permissions_for_mode_and_role mode role_mode allowed) \<longleftrightarrow>
     is_known_allowed_tool tool \<and>
     (case allowed of None \<Rightarrow> True | Some tools \<Rightarrow> tool \<in> set tools) \<and>
     effective_mode_decision_for_tool mode tool \<noteq> Some Deny \<and>
     effective_mode_decision_for_tool role_mode tool \<noteq> Some Deny"
  using effective_decision_known [of mode tool] effective_decision_known [of role_mode tool]
  by (cases "effective_mode_decision_for_tool mode tool";
      cases "effective_mode_decision_for_tool role_mode tool")
    (auto simp: effective_permissions_for_mode_and_role_def is_known_allowed_tool_def
      effective_mode_and_role_decision_for_tool_def split: option.splits)

lemma with_override_ge: "base \<le> with_override mode tool base"
  by (simp add: with_override_def combine_def split: option.split)

text \<open>
  The gate never weakens a decision. The result is at least as strict as the mode's base
  decision for the action, as its override, and, when the role names a mode of the catalog,
  as that mode's base decision and override; it is one of these decisions; and the audit
  names the role as its source exactly when the role made it stricter.
\<close>

theorem mode_gate_never_weakens:
  assumes "a = resolve_mode_and_role_decision_audit catalog mode role_name action base"
    and "role_mode = Option.bind (Option.bind (usable_role role_name) permission_mode_name)
      (catalog_mode catalog)"
  shows "base mode \<le> audit_decision a \<and>
    (\<forall>d. md_tool_overrides mode action = Some d \<longrightarrow> d \<le> audit_decision a) \<and>
    (\<forall>m. role_mode = Some m \<longrightarrow> base m \<le> audit_decision a \<and>
       (\<forall>d. md_tool_overrides m action = Some d \<longrightarrow> d \<le> audit_decision a)) \<and>
    audit_decision a \<in> set_option (md_tool_overrides mode action) \<union> {base mode} \<union>
      (case role_mode of None \<Rightarrow> {} | Some m \<Rightarrow> insert (base m) (set_option (md_tool_overrides m action))) \<and>
    (audit_source a = FromRolePermissionMode \<longleftrightarrow>
       audit_decision a \<noteq> with_override mode action (base mode))"
proof -
  have a: "audit_decision a =
      (case role_mode of None \<Rightarrow> with_override mode action (base mode)
       | Some m \<Rightarrow> combine (with_override mode action (base mode)) (with_override m action (base m)))"
    "audit_source a = FromRolePermissionMode \<longleftrightarrow>
       audit_decision a \<noteq> with_override mode action (base mode)"
    using assms
    by (auto simp: resolve_mode_and_role_decision_audit_def resolve_mode_decision_audit_def Let_def
        split: option.splits)
  have w: "base m \<le> with_override m action (base m)"
      "md_tool_overrides m action = Some d \<Longrightarrow> d \<le> with_override m action (base m)"
      "with_override m action (base m) \<in> insert (base m) (set_option (md_tool_overrides m action))"
    for m d
    by (auto simp: with_override_def combine_def max_def split: option.splits)
  show ?thesis
  proof (cases role_mode)
    case None
    with a w [of mode] show ?thesis by auto
  next
    case (Some m)
    let ?x = "with_override mode action (base mode)" and ?y = "with_override m action (base m)"
    have d: "audit_decision a = max ?x ?y"
      using a(1) Some by (simp add: combine_def)
    have le: "?x \<le> audit_decision a" "?y \<le> audit_decision a"
      and eq: "audit_decision a = ?x \<or> audit_decision a = ?y"
      unfolding d by (auto simp: max_def)
    have "base mode \<le> audit_decision a" "base m \<le> audit_decision a"
      using le w(1) order_trans by blast+
    moreover have "md_tool_overrides mode action = Some d \<Longrightarrow> d \<le> audit_decision a"
      "md_tool_overrides m action = Some d \<Longrightarrow> d \<le> audit_decision a" for d
      using le w(2) order_trans by blast+
    moreover have "audit_decision a \<in> insert (base mode) (set_option (md_tool_overrides mode action)) \<union>
        insert (base m) (set_option (md_tool_overrides m action))"
      using eq w(3) [of mode] w(3) [of m] by (elim disjE) auto
    ultimately show ?thesis using a(2) Some by simp
  qed
qed

theorem mode_gate_never_weakens_witness:
  "audit_decision (resolve_mode_and_role_decision_audit (builtin_catalog sample_globs)
     (builtin_coder sample_globs) (Some '' chat '') ''process/start'' (mp_command \<circ> md_permissions)) = Deny"
proof -
  let ?a = "resolve_mode_and_role_decision_audit (builtin_catalog sample_globs)
     (builtin_coder sample_globs) (Some '' chat '') ''process/start'' (mp_command \<circ> md_permissions)"
  have role: "usable_role (Some '' chat '') = Some ''chat''" by code_simp
  have "Some (builtin_chat sample_globs) =
      Option.bind (Option.bind (usable_role (Some '' chat '')) permission_mode_name)
        (catalog_mode (builtin_catalog sample_globs))"
    by (simp add: role permission_mode_name_def builtin_roles_def catalog_mode_def
        builtin_catalog_def builtin_modes_def insert_alias_def author_alias_def
        doc_organizer_alias_def)
  from mode_gate_never_weakens [OF refl this, where mode = "builtin_coder sample_globs"
      and action = "''process/start''" and base = "mp_command \<circ> md_permissions"]
  have "Deny \<le> audit_decision ?a"
    by (simp add: builtin_chat_def builtin_mode_def)
  then show ?thesis
    by (cases "audit_decision ?a") (simp_all add: less_eq_mode_decision_def)
qed

end
