(* ===== verification/Server.thy ===== *)
theory Server
  imports Threads
begin

text \<open>
  The server's threads (\<open>crates/app-server/src/main/preamble/server.rs\<close>): appending an event
  to a thread, the token budget markers that may follow it, and loading a thread with the
  recovery of what a previous process left open. An operation is a function from the server
  to a result and the server after it, so an error keeps the appends made before it.

  A thread's log is the list of events its file holds; \<open>Threads\<close> shows that a handle's state
  is the replay of that list and when its append is refused. A server record keeps the logs,
  the threads loaded in this process and the markers last seen. Loads by concurrent requests
  wait for each other, so a load is one step; invalidated runtimes are not modelled.
\<close>

section \<open>State and environment\<close>

record budget_marks =
  bm_warning_active :: "bool option"
  bm_exceeded_active :: "bool option"

record server =
  sv_logs :: "thread_id \<Rightarrow> thread_event list option"
  sv_loaded :: "thread_id set"
  sv_budget :: "thread_id \<Rightarrow> budget_marks"

text \<open>
  What the server takes from outside: the text redaction, the clock at the n-th event of a
  thread, which writes fail, the token limit and the comparison of the used share with the
  warning ratio, in floating point.
\<close>

record server_env =
  env_redact :: replacer
  env_now :: "thread_id \<Rightarrow> nat \<Rightarrow> timestamp"
  env_write_fails :: "thread_id \<Rightarrow> nat \<Rightarrow> bool"
  env_token_limit :: "u64 option"
  env_at_warning_ratio :: "u64 \<Rightarrow> u64 \<Rightarrow> bool"

datatype server_error =
    ThreadNotFound thread_id
  | EventRefused state_error
  | WriteFailed
  | TimestampFormat
  | ApprovalNotRequested approval_id
  | ApprovalAlreadyDecided approval_id
  | ApprovalActionMismatch string string
  | ApprovalParamsMismatch approval_id
  | ApprovalWasDenied approval_id
  | ApprovalNotDecided approval_id
  | FingerprintFailed

type_synonym 'a action = "(server, server_error, 'a) state_action"

section \<open>Token budget markers\<close>

datatype budget_transition = SetWarning | ClearWarning | SetExceeded | ClearExceeded

definition token_budget_warning_active :: "server_env \<Rightarrow> u64 \<Rightarrow> bool" where
  "token_budget_warning_active env used =
     (case env_token_limit env of
        None \<Rightarrow> False
      | Some limit \<Rightarrow> if used > limit then False else env_at_warning_ratio env used limit)"

definition token_budget_exceeded_active :: "server_env \<Rightarrow> u64 \<Rightarrow> bool" where
  "token_budget_exceeded_active env used =
     (case env_token_limit env of None \<Rightarrow> False | Some limit \<Rightarrow> used > limit)"

definition marker_transitions :: "server_env \<Rightarrow> u64 \<Rightarrow> budget_marks \<Rightarrow> budget_transition list" where
  "marker_transitions env used marks =
     (let warning = token_budget_warning_active env used;
          exceeded = token_budget_exceeded_active env used
      in (case bm_warning_active marks of
            Some previous \<Rightarrow>
              if previous \<noteq> warning then [if warning then SetWarning else ClearWarning] else []
          | None \<Rightarrow> []) @
         (case bm_exceeded_active marks of
            Some previous \<Rightarrow>
              if previous \<noteq> exceeded then [if exceeded then SetExceeded else ClearExceeded] else []
          | None \<Rightarrow> []))"

definition marker_set :: "attention_marker_kind \<Rightarrow> thread_event_kind" where
  "marker_set marker = AttentionMarkerSet
     \<lparr>atm_marker = marker, atm_turn_id = None, atm_artifact_id = None, atm_artifact_type = None,
      atm_process_id = None, atm_exit_code = None, atm_command = None\<rparr>"

fun marker_event_kind :: "budget_transition \<Rightarrow> thread_event_kind" where
  "marker_event_kind SetWarning = marker_set TokenBudgetWarning"
| "marker_event_kind ClearWarning =
     AttentionMarkerCleared TokenBudgetWarning None (Some ''token budget warning cleared'')"
| "marker_event_kind SetExceeded = marker_set TokenBudgetExceeded"
| "marker_event_kind ClearExceeded =
     AttentionMarkerCleared TokenBudgetExceeded None (Some ''token budget exceeded cleared'')"

section \<open>Appending\<close>

definition next_event ::
  "server_env \<Rightarrow> thread_id \<Rightarrow> thread_event list \<Rightarrow> thread_event_kind \<Rightarrow> thread_event" where
  "next_event env tid es kind =
     \<lparr>ev_seq = of_nat (length es) + 1, ev_timestamp = env_now env tid (length es),
      ev_thread_id = tid, ev_kind = redact_thread_event_kind (env_redact env) kind\<rparr>"

definition append_event_and_emit ::
  "server_env \<Rightarrow> thread_id \<Rightarrow> thread_event_kind \<Rightarrow> (thread_event \<times> u64) action" where
  "append_event_and_emit env tid kind s =
     (case sv_logs s tid of
        None \<Rightarrow> (Inl (ThreadNotFound tid), s)
      | Some es \<Rightarrow>
          (case replay (es @ [next_event env tid es kind]) (new_state tid) of
             Inl e \<Rightarrow> (Inl (EventRefused e), s)
           | Inr state \<Rightarrow>
               if env_write_fails env tid (length es) then (Inl WriteFailed, s)
               else (Inr (next_event env tid es kind, st_total_tokens_used state),
                     s\<lparr>sv_logs := (sv_logs s)(tid \<mapsto> es @ [next_event env tid es kind])\<rparr>)))"

text \<open>The loop over the transitions: a failed append is only logged.\<close>

fun append_markers :: "server_env \<Rightarrow> thread_id \<Rightarrow> budget_transition list \<Rightarrow> server \<Rightarrow> server" where
  "append_markers env tid [] s = s"
| "append_markers env tid (t # ts) s =
     append_markers env tid ts (snd (append_event_and_emit env tid (marker_event_kind t) s))"

definition sync_token_budget_attention_markers ::
  "server_env \<Rightarrow> thread_id \<Rightarrow> u64 \<Rightarrow> server \<Rightarrow> server" where
  "sync_token_budget_attention_markers env tid used s =
     append_markers env tid (marker_transitions env used (sv_budget s tid))
       (s\<lparr>sv_budget := (sv_budget s)(tid :=
            \<lparr>bm_warning_active = Some (token_budget_warning_active env used),
             bm_exceeded_active = Some (token_budget_exceeded_active env used)\<rparr>)\<rparr>)"

definition rt_append_event :: "server_env \<Rightarrow> thread_id \<Rightarrow> thread_event_kind \<Rightarrow> thread_event action" where
  "rt_append_event env tid kind =
     act_bind (append_event_and_emit env tid kind) (\<lambda>(event, used) s.
       (Inr event, sync_token_budget_attention_markers env tid used s))"

fun append_all :: "server_env \<Rightarrow> thread_id \<Rightarrow> thread_event_kind list \<Rightarrow> unit action" where
  "append_all env tid [] s = (Inr (), s)"
| "append_all env tid (k # ks) s =
     act_bind (rt_append_event env tid k) (\<lambda>_. append_all env tid ks) s"

section \<open>Loading and recovery\<close>

definition recovery_events :: "thread_event list \<Rightarrow> thread_state \<Rightarrow> thread_event_kind list" where
  "recovery_events es state =
     (case st_active_turn_id state of
        Some turn_id \<Rightarrow>
          [TurnCompleted turn_id
             (if st_interrupt_requested state then TurnStatusInterrupted else TurnStatusFailed)
             (Some ''recovered incomplete turn on resume'')]
      | None \<Rightarrow> []) @
     map (\<lambda>approval_id. ApprovalDecided approval_id Denied False
            (Some ''recovered incomplete approval on resume''))
       (sorted_list_of_set (st_pending_approvals state)) @
     map (\<lambda>tool_id. ToolCompleted tool_id ToolStatusCancelled None
            (Some ''recovered incomplete tool on resume'') None)
       (sorted_list_of_set
          (track (started_tools \<circ> ev_kind) (completed_tools \<circ> ev_kind) es {}))"

definition get_or_load_thread :: "server_env \<Rightarrow> thread_id \<Rightarrow> unit action" where
  "get_or_load_thread env tid s =
     (if tid \<in> sv_loaded s then (Inr (), s)
      else case sv_logs s tid of
             None \<Rightarrow> (Inl (ThreadNotFound tid), s)
           | Some es \<Rightarrow>
               (case replay es (new_state tid) of
                  Inl e \<Rightarrow> (Inl (EventRefused e), s)
                | Inr state \<Rightarrow>
                    act_bind (append_all env tid (recovery_events es state)) (\<lambda>_ s'.
                      (Inr (), s'\<lparr>sv_loaded := insert tid (sv_loaded s')\<rparr>)) s))"

text \<open>\<open>thread_store.read_events_since(thread_id, ZERO)\<close>, with the caller's error.\<close>

definition read_log :: "thread_id \<Rightarrow> thread_event list action" where
  "read_log tid s =
     (case sv_logs s tid of
        None \<Rightarrow> (Inl (ThreadNotFound tid), s)
      | Some es \<Rightarrow> (Inr es, s))"

section \<open>Logs only grow and keep replaying\<close>

text \<open>Every log replays, and is numbered as a log is.\<close>

definition server_ok :: "server \<Rightarrow> bool" where
  "server_ok s \<longleftrightarrow>
     (\<forall>tid es. sv_logs s tid = Some es \<longrightarrow> (\<exists>state. replay es (new_state tid) = Inr state))"

text \<open>The logs of the second server continue those of the first; no thread comes or goes.\<close>

definition logs_grow :: "server \<Rightarrow> server \<Rightarrow> bool" where
  "logs_grow s s' \<longleftrightarrow> (\<forall>tid. rel_option prefix (sv_logs s tid) (sv_logs s' tid))"

lemma logs_grow_refl: "logs_grow s s"
  by (simp add: logs_grow_def option.rel_refl)

lemma logs_grow_trans: "logs_grow s s' \<Longrightarrow> logs_grow s' s'' \<Longrightarrow> logs_grow s s''"
  unfolding logs_grow_def
  by (metis option.rel_transp prefix_order.order_trans transpD transpI)

lemma logs_grow_Some: "logs_grow s s' \<Longrightarrow> sv_logs s tid = Some es \<Longrightarrow> \<exists>fs. sv_logs s' tid = Some (es @ fs)"
  unfolding logs_grow_def
  by (drule spec [of _ tid]) (auto simp: option_rel_Some1 prefix_def)

text \<open>An operation is safe when it only extends logs and keeps them replaying.\<close>

definition safe_step :: "server \<Rightarrow> server \<Rightarrow> bool" where
  "safe_step s s' \<longleftrightarrow> logs_grow s s' \<and> (server_ok s \<longrightarrow> server_ok s')"

interpretation sv: action_relation safe_step
  by unfold_locales (auto simp: safe_step_def intro: logs_grow_refl logs_grow_trans)

abbreviation safe_action :: "'a action \<Rightarrow> bool" where
  "safe_action m \<equiv> act_within safe_step m"

named_theorems safe_intros "safety of server operations"

lemmas safe_action_intros [safe_intros] = sv.within_intros

lemma safe_action_def: "safe_action m \<longleftrightarrow>
    (\<forall>s r s'. m s = (r, s') \<longrightarrow> logs_grow s s' \<and> (server_ok s \<longrightarrow> server_ok s'))"
  by (simp add: act_within_def safe_step_def)

lemma safe_actionD:
  "safe_action m \<Longrightarrow> m s = (r, s') \<Longrightarrow> logs_grow s s'"
  "safe_action m \<Longrightarrow> m s = (r, s') \<Longrightarrow> server_ok s \<Longrightarrow> server_ok s'"
  by (auto simp: safe_action_def)

lemma safe_read_log [safe_intros]: "safe_action (read_log tid)"
  by (rule sv.within_same_state) (simp add: read_log_def split: option.split)

lemma safe_same_logs:
  "(\<And>s. sv_logs (snd (m s)) = sv_logs s) \<Longrightarrow> safe_action m"
  unfolding safe_action_def logs_grow_def server_ok_def
  by (metis option.rel_refl prefix_order.order_refl snd_conv)

lemma safe_append_event_and_emit [safe_intros]: "safe_action (append_event_and_emit env tid kind)"
proof -
  have "logs_grow s s' \<and> (server_ok s \<longrightarrow> server_ok s')"
    if app: "append_event_and_emit env tid kind s = (r, s')" for s r s'
  proof (cases "s' = s")
    case False
    with app obtain es st where es: "sv_logs s tid = Some es"
      "replay (es @ [next_event env tid es kind]) (new_state tid) = Inr st"
      "s' = s\<lparr>sv_logs := (sv_logs s)(tid \<mapsto> es @ [next_event env tid es kind])\<rparr>"
      by (auto simp: append_event_and_emit_def split: option.splits sum.splits if_splits)
    have "logs_grow s s'"
      using es by (simp add: logs_grow_def option.rel_refl)
    moreover have "server_ok s \<longrightarrow> server_ok s'"
      using es by (auto simp: server_ok_def)
    ultimately show ?thesis ..
  qed (simp add: logs_grow_refl)
  then show ?thesis unfolding safe_action_def by blast
qed

lemma append_markers_safe:
  "logs_grow s (append_markers env tid ts s) \<and> (server_ok s \<longrightarrow> server_ok (append_markers env tid ts s))"
proof (induction ts arbitrary: s)
  case Nil
  then show ?case by (simp add: logs_grow_refl)
next
  case (Cons t ts)
  obtain r s' where s': "append_event_and_emit env tid (marker_event_kind t) s = (r, s')"
    by (cases "append_event_and_emit env tid (marker_event_kind t) s")
  from safe_actionD [OF safe_append_event_and_emit s'] Cons [of s'] s' logs_grow_trans
  show ?case by auto
qed

lemma safe_append_event [safe_intros]: "safe_action (rt_append_event env tid kind)"
proof -
  have "logs_grow s (sync_token_budget_attention_markers env tid used s) \<and>
      (server_ok s \<longrightarrow> server_ok (sync_token_budget_attention_markers env tid used s))" for used s
    using append_markers_safe [of "s\<lparr>sv_budget := (sv_budget s)(tid :=
            \<lparr>bm_warning_active = Some (token_budget_warning_active env used),
             bm_exceeded_active = Some (token_budget_exceeded_active env used)\<rparr>)\<rparr>"]
    by (simp add: sync_token_budget_attention_markers_def logs_grow_def server_ok_def)
  then show ?thesis
    unfolding rt_append_event_def
    by (intro sv.within_bind safe_append_event_and_emit) (auto simp: safe_action_def split: prod.splits)
qed

lemma safe_append_all [safe_intros]: "safe_action (append_all env tid ks)"
proof (induction ks)
  case Nil
  then show ?case by (intro sv.within_same_state) simp
next
  case (Cons k ks)
  have "append_all env tid (k # ks) = act_bind (rt_append_event env tid k) (\<lambda>_. append_all env tid ks)"
    by (rule ext) simp
  then show ?case using Cons by (simp add: sv.within_bind safe_append_event)
qed

lemma safe_get_or_load_thread [safe_intros]: "safe_action (get_or_load_thread env tid)"
proof -
  have mark: "safe_action (\<lambda>s'. (Inr (), s'\<lparr>sv_loaded := insert tid (sv_loaded s')\<rparr>))"
    by (rule safe_same_logs) simp
  have "logs_grow s s' \<and> (server_ok s \<longrightarrow> server_ok s')"
    if g: "get_or_load_thread env tid s = (r, s')" for s r s'
  proof (cases "tid \<in> sv_loaded s \<or> sv_logs s tid = None \<or>
      (\<exists>e. replay (the (sv_logs s tid)) (new_state tid) = Inl e)")
    case True
    with g have "s' = s" by (auto simp: get_or_load_thread_def split: option.splits if_splits)
    then show ?thesis by (simp add: logs_grow_refl)
  next
    case False
    with g obtain es st where "act_bind (append_all env tid (recovery_events es st)) (\<lambda>_ s'.
        (Inr (), s'\<lparr>sv_loaded := insert tid (sv_loaded s')\<rparr>)) s = (r, s')"
      by (auto simp: get_or_load_thread_def split: option.splits sum.splits)
    then show ?thesis
      using safe_actionD [OF sv.within_bind [OF safe_append_all mark]] by blast
  qed
  then show ?thesis unfolding safe_action_def by blast
qed

text \<open>
  Whatever an append or a load does, and however it ends, no event is ever lost or
  rewritten: every log keeps its events in place and stays replayable, and no thread appears
  or vanishes.
\<close>

theorem server_logs_append_only:
  assumes "rt_append_event env tid kind s = (r, s') \<or> get_or_load_thread env tid s = (r', s')"
    and "server_ok s"
  shows "server_ok s' \<and>
    (\<forall>u. rel_option prefix (sv_logs s u) (sv_logs s' u))"
proof -
  have "logs_grow s s' \<and> server_ok s'"
    using assms(1)
  proof
    assume "rt_append_event env tid kind s = (r, s')"
    with assms(2) show ?thesis using safe_actionD [OF safe_append_event] by blast
  next
    assume "get_or_load_thread env tid s = (r', s')"
    with assms(2) show ?thesis using safe_actionD [OF safe_get_or_load_thread] by blast
  qed
  then show ?thesis by (simp add: logs_grow_def)
qed

section \<open>What an append adds\<close>

fun is_marker :: "thread_event_kind \<Rightarrow> bool" where
  "is_marker (AttentionMarkerSet _) \<longleftrightarrow> True"
| "is_marker (AttentionMarkerCleared _ _ _) \<longleftrightarrow> True"
| "is_marker _ \<longleftrightarrow> False"

text \<open>The kinds of a log without its attention markers.\<close>

definition core :: "thread_event list \<Rightarrow> thread_event_kind list" where
  "core es = filter (\<lambda>k. \<not> is_marker k) (map ev_kind es)"

definition log_of :: "server \<Rightarrow> thread_id \<Rightarrow> thread_event list" where
  "log_of s tid = (case sv_logs s tid of Some es \<Rightarrow> es | None \<Rightarrow> [])"

lemma core_append [simp]: "core (es @ fs) = core es @ core fs"
  by (simp add: core_def)

lemma is_marker_redact [simp]: "is_marker (redact_thread_event_kind ra k) = is_marker k"
  by (cases k) simp_all

lemma is_marker_event_kind [simp]: "is_marker (marker_event_kind t)"
  by (cases t) (simp_all add: marker_set_def)

lemma append_event_and_emit_Inr:
  "append_event_and_emit env tid kind s = (Inr (e, used), s') \<Longrightarrow>
     sv_logs s tid = Some (log_of s tid) \<and> e = next_event env tid (log_of s tid) kind \<and>
     s' = s\<lparr>sv_logs := (sv_logs s)(tid \<mapsto> log_of s tid @ [e])\<rparr>"
  by (auto simp: append_event_and_emit_def log_of_def split: option.splits sum.splits if_splits)

lemma append_event_and_emit_Inl: "append_event_and_emit env tid kind s = (Inl e, s') \<Longrightarrow> s' = s"
  by (auto simp: append_event_and_emit_def split: option.splits sum.splits if_splits)

lemma append_markers_core:
  "core (log_of (append_markers env tid ts s) tid) = core (log_of s tid) \<and>
   (u \<noteq> tid \<longrightarrow> sv_logs (append_markers env tid ts s) u = sv_logs s u) \<and>
   sv_loaded (append_markers env tid ts s) = sv_loaded s"
proof (induction ts arbitrary: s)
  case (Cons t ts)
  obtain r s' where s': "append_event_and_emit env tid (marker_event_kind t) s = (r, s')"
    by (cases "append_event_and_emit env tid (marker_event_kind t) s")
  have "core (log_of s' tid) = core (log_of s tid) \<and> (u \<noteq> tid \<longrightarrow> sv_logs s' u = sv_logs s u) \<and>
      sv_loaded s' = sv_loaded s"
  proof (cases r)
    case (Inl e)
    with s' have "s' = s" by (auto dest: append_event_and_emit_Inl)
    then show ?thesis by simp
  next
    case (Inr eu)
    obtain e used where "eu = (e, used)" by (cases eu)
    with Inr s' have "s' = s\<lparr>sv_logs := (sv_logs s)(tid \<mapsto> log_of s tid @ [e])\<rparr>"
      "e = next_event env tid (log_of s tid) (marker_event_kind t)"
      by (auto dest: append_event_and_emit_Inr)
    then show ?thesis by (simp add: log_of_def core_def next_event_def)
  qed
  with Cons [of s'] s' show ?case by simp
qed simp

text \<open>
  A successful append adds its redacted event to the log, and attention markers after it;
  a failed one changes nothing.
\<close>

lemma rt_append_event_Inr:
  assumes "rt_append_event env tid kind s = (Inr e, s')"
  shows "sv_logs s tid = Some (log_of s tid)" "e = next_event env tid (log_of s tid) kind"
    "core (log_of s' tid) = core (log_of s tid) @ core [e]"
    "u \<noteq> tid \<Longrightarrow> sv_logs s' u = sv_logs s u" "sv_loaded s' = sv_loaded s"
proof -
  from assms obtain used m where m: "append_event_and_emit env tid kind s = (Inr (e, used), m)"
    "s' = sync_token_budget_attention_markers env tid used m"
    by (auto simp: rt_append_event_def act_bind_eq split: prod.splits)
  note app = append_event_and_emit_Inr [OF m(1)]
  let ?n = "m\<lparr>sv_budget := (sv_budget m)(tid :=
            \<lparr>bm_warning_active = Some (token_budget_warning_active env used),
             bm_exceeded_active = Some (token_budget_exceeded_active env used)\<rparr>)\<rparr>"
  have "log_of ?n tid = log_of s tid @ [e]" "sv_loaded ?n = sv_loaded s"
    "u \<noteq> tid \<Longrightarrow> sv_logs ?n u = sv_logs s u"
    using app by (simp_all add: log_of_def)
  with append_markers_core [of env tid _ ?n u] m(2)
  show "core (log_of s' tid) = core (log_of s tid) @ core [e]"
    "u \<noteq> tid \<Longrightarrow> sv_logs s' u = sv_logs s u" "sv_loaded s' = sv_loaded s"
    by (simp_all add: sync_token_budget_attention_markers_def)
  show "sv_logs s tid = Some (log_of s tid)" "e = next_event env tid (log_of s tid) kind"
    using app by simp_all
qed

lemma rt_append_event_Inl: "rt_append_event env tid kind s = (Inl err, s') \<Longrightarrow> s' = s"
  by (auto simp: rt_append_event_def act_bind_eq split: prod.splits dest: append_event_and_emit_Inl)

lemma core_event: "\<not> is_marker k \<Longrightarrow> core [next_event env tid es k] = [redact_thread_event_kind (env_redact env) k]"
  by (simp add: core_def next_event_def)

lemma append_all_Inr:
  assumes "append_all env tid ks s = (Inr u, s')" and "list_all (\<lambda>k. \<not> is_marker k) ks"
  shows "core (log_of s' tid) =
      core (log_of s tid) @ map (redact_thread_event_kind (env_redact env)) ks \<and>
    (\<forall>v. v \<noteq> tid \<longrightarrow> sv_logs s' v = sv_logs s v) \<and> sv_loaded s' = sv_loaded s"
  using assms
proof (induction ks arbitrary: s)
  case (Cons k ks)
  then obtain e m where m: "rt_append_event env tid k s = (Inr e, m)"
    "append_all env tid ks m = (Inr u, s')" by (auto simp: act_bind_eq)
  note app = rt_append_event_Inr [OF m(1)]
  from app(2) Cons.prems(2) have "core [e] = [redact_thread_event_kind (env_redact env) k]"
    by (simp add: core_event)
  with Cons.IH [OF m(2)] Cons.prems(2) app(3-5) show ?case by simp
qed simp

section \<open>Recovery\<close>

lemma track_core:
  assumes "\<And>k. is_marker k \<Longrightarrow> adds k = {} \<and> removes k = {}"
  shows "track (adds \<circ> ev_kind) (removes \<circ> ev_kind) es A = track adds removes (core es) A"
  using assms by (induction es arbitrary: A) (auto simp: core_def)

lemma tracked_markers:
  "is_marker k \<Longrightarrow> requested_approvals k = {} \<and> decided_approvals k = {}"
  "is_marker k \<Longrightarrow> started_tools k = {} \<and> completed_tools k = {}"
  by (cases k; simp)+

lemma turn_core:
  "replay es s = Inr s' \<Longrightarrow> st_active_turn_id s' = foldl turn_step (st_active_turn_id s) (core es)"
proof (induction es arbitrary: s)
  case (Cons e es)
  then obtain m where m: "apply_event e s = Inr m" "replay es m = Inr s'"
    by (auto simp: rbind_eq_Inr)
  have "is_marker (ev_kind e) \<Longrightarrow> turn_step a (ev_kind e) = a" for a
    by (cases "ev_kind e") (simp_all add: turn_step_def)
  with Cons.IH [OF m(2)] apply_event_turn(1) [OF m(1)] show ?case by (simp add: core_def)
qed (simp add: core_def)

lemma recovery_events_core: "list_all (\<lambda>k. \<not> is_marker k) (recovery_events es st)"
  by (auto simp: recovery_events_def list_all_iff split: option.splits)

text \<open>What a thread's log leaves open: its turn, its approvals and its tools.\<close>

definition open_turn :: "thread_event_kind list \<Rightarrow> turn_id option" where
  "open_turn ks = foldl turn_step None ks"

definition open_approvals :: "thread_event_kind list \<Rightarrow> approval_id set" where
  "open_approvals ks = track requested_approvals decided_approvals ks {}"

definition open_tools :: "thread_event_kind list \<Rightarrow> tool_id set" where
  "open_tools ks = track started_tools completed_tools ks {}"

lemma replay_open:
  assumes "replay es (new_state tid) = Inr st"
  shows "st_active_turn_id st = open_turn (core es)"
    "st_pending_approvals st = open_approvals (core es)"
    "track (started_tools \<circ> ev_kind) (completed_tools \<circ> ev_kind) es {} = open_tools (core es)"
  using turn_core [OF assms] replay_tracked [OF assms]
  by (simp_all add: open_turn_def open_approvals_def open_tools_def new_state_def
      track_core tracked_markers)

lemma track_removes_all:
  assumes "\<And>k. k \<in> set ks \<Longrightarrow> adds k = {}" and "finite A"
    and "A \<subseteq> (\<Union>k \<in> set ks. removes k)"
  shows "track adds removes ks A = {}"
proof -
  have "track adds removes ks A = A - (\<Union>k \<in> set ks. removes k)"
    using assms(1) by (induction ks arbitrary: A) (auto 0 3)
  with assms(3) show ?thesis by auto
qed

lemma finite_track:
  "finite A \<Longrightarrow> (\<And>k. finite (adds k)) \<Longrightarrow> finite (track adds removes ks A)"
  by (induction ks arbitrary: A) auto

lemma finite_open: "finite (open_approvals ks)" "finite (open_tools ks)"
proof -
  have "finite (requested_approvals k)" "finite (started_tools k)" for k by (cases k; simp)+
  then show "finite (open_approvals ks)" "finite (open_tools ks)"
    by (simp_all add: open_approvals_def open_tools_def finite_track)
qed

lemma redact_keeps_tracking [simp]:
  "requested_approvals (redact_thread_event_kind ra k) = requested_approvals k"
  "decided_approvals (redact_thread_event_kind ra k) = decided_approvals k"
  "started_tools (redact_thread_event_kind ra k) = started_tools k"
  "completed_tools (redact_thread_event_kind ra k) = completed_tools k"
  "started_turn (redact_thread_event_kind ra k) = started_turn k"
  "completed_turn (redact_thread_event_kind ra k) = completed_turn k"
  by (cases k; simp)+

lemma foldl_turn_step:
  "list_all (\<lambda>k. started_turn k = None) ks \<Longrightarrow>
     foldl turn_step a ks = (if list_ex (\<lambda>k. completed_turn k \<noteq> None) ks then None else a)"
proof (induction ks arbitrary: a)
  case (Cons k ks)
  from Cons.prems have "foldl turn_step b ks =
      (if list_ex (\<lambda>k. completed_turn k \<noteq> None) ks then None else b)" for b
    by (intro Cons.IH) simp
  moreover have "turn_step a k = (if completed_turn k = None then a else None)"
    using Cons.prems by (simp add: turn_step_def)
  ultimately show ?case by simp
qed simp

lemma recovery_closes:
  fixes es :: "thread_event list" and ra :: replacer
  assumes "replay es (new_state tid) = Inr st"
  defines "ks \<equiv> core es @ map (redact_thread_event_kind ra) (recovery_events es st)"
  shows "open_turn ks = None" "open_approvals ks = {}" "open_tools ks = {}"
proof -
  let ?rec = "map (redact_thread_event_kind ra) (recovery_events es st)"
  note op = replay_open [OF assms(1)]
  have fin: "finite (open_approvals (core es))" "finite (open_tools (core es))"
    by (rule finite_open)+
  have none: "\<And>k. k \<in> set ?rec \<Longrightarrow> requested_approvals k = {}"
    "\<And>k. k \<in> set ?rec \<Longrightarrow> started_tools k = {}"
    "list_all (\<lambda>k. started_turn k = None) ?rec"
    by (auto simp: recovery_events_def list_all_iff split: option.splits)
  have "open_approvals (core es) \<subseteq> (\<Union>k \<in> set ?rec. decided_approvals k)"
    using op(2) fin(1) by (auto simp: recovery_events_def)
  then have "track requested_approvals decided_approvals ?rec (open_approvals (core es)) = {}"
    by (intro track_removes_all none(1) fin(1))
  then show "open_approvals ks = {}"
    unfolding ks_def open_approvals_def track_append .
  have "open_tools (core es) \<subseteq> (\<Union>k \<in> set ?rec. completed_tools k)"
    using op(3) fin(2) by (auto simp: recovery_events_def)
  then have "track started_tools completed_tools ?rec (open_tools (core es)) = {}"
    by (intro track_removes_all none(2) fin(2))
  then show "open_tools ks = {}"
    unfolding ks_def open_tools_def track_append .
  have "open_turn (core es) \<noteq> None \<Longrightarrow> list_ex (\<lambda>k. completed_turn k \<noteq> None) ?rec"
    using op(1) by (auto simp: recovery_events_def)
  then show "open_turn ks = None"
    using foldl_turn_step [OF none(3), of "open_turn (core es)"]
    by (cases "open_turn (core es) = None") (simp_all add: ks_def open_turn_def)
qed


section \<open>Progress\<close>

text \<open>No write fails.\<close>

definition env_writes :: "server_env \<Rightarrow> bool" where
  "env_writes env \<longleftrightarrow> (\<forall>tid n. \<not> env_write_fails env tid n)"

text \<open>Events that every state accepts.\<close>

fun harmless :: "thread_event_kind \<Rightarrow> bool" where
  "harmless (ApprovalRequested _ _ _ _) \<longleftrightarrow> True"
| "harmless (ApprovalDecided _ _ _ _) \<longleftrightarrow> True"
| "harmless (ToolStarted _ _ _ _) \<longleftrightarrow> True"
| "harmless (ToolCompleted _ _ _ _ _) \<longleftrightarrow> True"
| "harmless _ \<longleftrightarrow> False"

lemma harmless_accepted: "harmless k \<Longrightarrow> \<exists>m. apply_kind t (redact_thread_event_kind ra k) st = Inr m"
  by (cases k) simp_all

lemma append_succeeds:
  assumes "env_writes env" and "sv_logs s tid = Some es" and "replay es (new_state tid) = Inr st"
    and "\<exists>m. apply_kind (env_now env tid (length es)) (redact_thread_event_kind (env_redact env) k) st = Inr m"
  shows "\<exists>e s'. rt_append_event env tid k s = (Inr e, s')"
proof -
  from assms(4) obtain m where m:
    "apply_kind (env_now env tid (length es)) (redact_thread_event_kind (env_redact env) k) st = Inr m" by blast
  have ids: "st_thread_id st = tid" "st_last_seq st = of_nat (length es)"
    using replay_ids [OF assms(3)] by (simp_all add: new_state_def event_seq_zero_def)
  have "apply_event (next_event env tid es k) st = Inr (m\<lparr>st_last_seq := of_nat (length es) + 1\<rparr>)"
    using m ids by (simp add: apply_event_def next_event_def)
  then have "replay (es @ [next_event env tid es k]) (new_state tid) = Inr (m\<lparr>st_last_seq := of_nat (length es) + 1\<rparr>)"
    using assms(3) by (simp add: rp.run_snoc)
  with assms(1,2) show ?thesis
    by (auto simp: rt_append_event_def act_bind_def append_event_and_emit_def env_writes_def)
qed

lemma harmless_append_succeeds:
  assumes "env_writes env" and "server_ok s" and "sv_logs s tid \<noteq> None" and "harmless k"
  obtains e s' where "rt_append_event env tid k s = (Inr e, s')" "server_ok s'" "sv_logs s' tid \<noteq> None"
proof -
  from assms(2,3) obtain es st where es: "sv_logs s tid = Some es" "replay es (new_state tid) = Inr st"
    unfolding server_ok_def by blast
  from append_succeeds [OF assms(1) es harmless_accepted [OF assms(4)]] obtain e s' where
    s': "rt_append_event env tid k s = (Inr e, s')" by blast
  from safe_actionD [OF safe_append_event s'] assms(2) have "logs_grow s s'" "server_ok s'" by blast+
  with logs_grow_Some [OF this(1) es(1)] s' that show ?thesis by auto
qed

lemma harmless_append_all_succeeds:
  "env_writes env \<Longrightarrow> server_ok s \<Longrightarrow> sv_logs s tid \<noteq> None \<Longrightarrow> list_all harmless ks \<Longrightarrow>
     \<exists>s'. append_all env tid ks s = (Inr (), s')"
proof (induction ks arbitrary: s)
  case (Cons k ks)
  from Cons.prems obtain e m where m: "rt_append_event env tid k s = (Inr e, m)" "server_ok m"
    "sv_logs m tid \<noteq> None" by (auto elim: harmless_append_succeeds)
  with Cons.IH [OF Cons.prems(1) m(2,3)] Cons.prems(4) show ?case by (auto simp: act_bind_def)
qed simp

lemma append_all_Cons_succeeds:
  assumes "rt_append_event env tid k s = (Inr e, m)" and "append_all env tid ks m = (Inr (), s')"
  shows "append_all env tid (k # ks) s = (Inr (), s')"
  using assms by (simp add: act_bind_def)

lemma load_succeeds:
  assumes "env_writes env" and "server_ok s" and "sv_logs s tid \<noteq> None"
  shows "\<exists>s'. get_or_load_thread env tid s = (Inr (), s') \<and> server_ok s' \<and> (\<forall>v. sv_logs s v \<noteq> None \<longrightarrow> sv_logs s' v \<noteq> None)"
proof -
  from assms(2,3) obtain es st where es: "sv_logs s tid = Some es" "replay es (new_state tid) = Inr st"
    unfolding server_ok_def by blast
  let ?rest = "map (\<lambda>approval_id. ApprovalDecided approval_id Denied False
        (Some ''recovered incomplete approval on resume'')) (sorted_list_of_set (st_pending_approvals st)) @
     map (\<lambda>tool_id. ToolCompleted tool_id ToolStatusCancelled None
        (Some ''recovered incomplete tool on resume'') None)
       (sorted_list_of_set (track (started_tools \<circ> ev_kind) (completed_tools \<circ> ev_kind) es {}))"
  have rest: "list_all harmless ?rest" by (auto simp: list_all_iff)
  have "\<exists>m. append_all env tid (recovery_events es st) s = (Inr (), m)"
  proof (cases "st_active_turn_id st")
    case None
    with harmless_append_all_succeeds [OF assms rest] show ?thesis by (simp add: recovery_events_def)
  next
    case (Some turn)
    let ?k = "TurnCompleted turn (if st_interrupt_requested st then TurnStatusInterrupted else TurnStatusFailed)
        (Some ''recovered incomplete turn on resume'')"
    have ev: "recovery_events es st = ?k # ?rest" using Some by (simp add: recovery_events_def)
    have "\<exists>m. apply_kind (env_now env tid (length es)) (redact_thread_event_kind (env_redact env) ?k) st = Inr m"
      using Some by simp
    from append_succeeds [OF assms(1) es this] obtain e m where m: "rt_append_event env tid ?k s = (Inr e, m)" by blast
    from safe_actionD [OF safe_append_event m] assms(2) have g: "logs_grow s m" "server_ok m" by blast+
    from logs_grow_Some [OF g(1) es(1)] have "sv_logs m tid \<noteq> None" by auto
    from harmless_append_all_succeeds [OF assms(1) g(2) this rest]
    obtain m' where "append_all env tid ?rest m = (Inr (), m')" by blast
    from append_all_Cons_succeeds [OF m this] show ?thesis unfolding ev by (rule exI)
  qed
  then obtain m where m: "append_all env tid (recovery_events es st) s = (Inr (), m)" by blast
  then obtain s' where s': "get_or_load_thread env tid s = (Inr (), s')"
    using es by (cases "tid \<in> sv_loaded s") (auto simp: get_or_load_thread_def act_bind_def)
  from safe_actionD [OF safe_get_or_load_thread s'] assms(2) have g: "logs_grow s s'" "server_ok s'" by blast+
  have "sv_logs s v \<noteq> None \<longrightarrow> sv_logs s' v \<noteq> None" for v
    using g(1) by (auto simp: logs_grow_def dest!: spec [of _ v] split: option.splits) (auto simp: option_rel_Some1)
  with s' g show ?thesis by blast
qed

section \<open>Witnesses\<close>

definition sample_env :: server_env where
  "sample_env = \<lparr>env_redact = no_redaction, env_now = (\<lambda>_ _. 1000), env_write_fails = (\<lambda>_ _. False),
     env_token_limit = None, env_at_warning_ratio = (\<lambda>_ _. False)\<rparr>"

definition sample_server :: server where
  "sample_server = \<lparr>sv_logs = [sample_thread \<mapsto>
       [sample_event 1 (ThreadCreated ''/w''),
        sample_event 2 (ApprovalRequested (ApprovalId 5) None ''fs/mkdir'' JNull)]],
     sv_loaded = {}, sv_budget = (\<lambda>_. \<lparr>bm_warning_active = None, bm_exceeded_active = None\<rparr>)\<rparr>"

lemma sample_server_replays:
  "\<exists>st. replay [sample_event 1 (ThreadCreated ''/w''),
        sample_event 2 (ApprovalRequested (ApprovalId 5) None ''fs/mkdir'' JNull)] (new_state sample_thread)
     = Inr st \<and> st_active_turn_id st = None \<and> st_pending_approvals st = {ApprovalId 5} \<and> st_last_seq st = 2 \<and>
     st_thread_id st = sample_thread"
  by (simp add: apply_event_def sample_event_def new_state_def event_seq_zero_def)

lemma sample_server_ok: "server_ok sample_server"
  using sample_server_replays by (auto simp: server_ok_def sample_server_def)

lemma sample_server_load: "\<exists>s'. get_or_load_thread sample_env sample_thread sample_server = (Inr (), s')"
  using load_succeeds [OF _ sample_server_ok, of sample_env sample_thread]
  by (auto simp: env_writes_def sample_env_def sample_server_def)

theorem server_logs_append_only_witness:
  "\<exists>s'. get_or_load_thread sample_env sample_thread sample_server = (Inr (), s') \<and> server_ok s'"
  using sample_server_load server_logs_append_only [OF disjI2 sample_server_ok] by blast


end
