(* ===== verification/Approval.thy ===== *)
theory Approval
  imports Server ExecPolicy
begin

text \<open>
  Approvals (\<open>crates/app-server/src/main/approval.rs\<close>): the index of a thread's requests and
  decisions, deciding a request and forwarding the decision to a subagent, listing, the gate
  every tool that needs approval passes, and the remembered decisions it consults. The
  identifier a gate creates is an argument.

  Taken from outside: the formatting of timestamps, the parsing and printing of identifiers,
  the JSON text of a value and SHA-256.
\<close>

record approval_lib =
  al_format :: "timestamp \<Rightarrow> string option"
  al_parse_thread :: "string \<Rightarrow> thread_id option"
  al_parse_turn :: "string \<Rightarrow> turn_id option"
  al_parse_approval :: "string \<Rightarrow> approval_id option"
  al_process_of_json :: "json \<Rightarrow> process_id option"
  al_show_thread :: "thread_id \<Rightarrow> string"
  al_show_approval :: "approval_id \<Rightarrow> string"
  al_json_text :: "json \<Rightarrow> string option"
  al_sha256 :: "string \<Rightarrow> string"

section \<open>The index of requests and decisions\<close>

record approval_request_record =
  rq_turn_id :: "turn_id option"
  rq_action :: string
  rq_params :: json
  rq_requested_at :: string

record approval_decision_record =
  dr_decision :: approval_decision
  dr_remember :: bool
  dr_reason :: "string option"
  dr_decided_at :: string

record approval_event_index =
  ix_requested :: "approval_id \<Rightarrow> approval_request_record option"
  ix_decided :: "approval_id \<Rightarrow> approval_decision_record option"

definition empty_index :: approval_event_index where
  "empty_index = \<lparr>ix_requested = (\<lambda>_. None), ix_decided = (\<lambda>_. None)\<rparr>"

fun index_kind :: "string \<Rightarrow> thread_event_kind \<Rightarrow> approval_event_index \<Rightarrow> approval_event_index" where
  "index_kind ts (ApprovalRequested approval_id turn_id action params) ix =
     ix\<lparr>ix_requested := (ix_requested ix)(approval_id \<mapsto>
       \<lparr>rq_turn_id = turn_id, rq_action = action, rq_params = params, rq_requested_at = ts\<rparr>)\<rparr>"
| "index_kind ts (ApprovalDecided approval_id decision remember reason) ix =
     ix\<lparr>ix_decided := (ix_decided ix)(approval_id \<mapsto>
       \<lparr>dr_decision = decision, dr_remember = remember, dr_reason = reason, dr_decided_at = ts\<rparr>)\<rparr>"
| "index_kind ts _ ix = ix"

definition index_event ::
  "approval_lib \<Rightarrow> thread_event \<Rightarrow> approval_event_index \<Rightarrow> server_error + approval_event_index" where
  "index_event lib event ix =
     (case al_format lib (ev_timestamp event) of
        None \<Rightarrow> Inl TimestampFormat
      | Some ts \<Rightarrow> Inr (index_kind ts (ev_kind event) ix))"

fun index_events ::
  "approval_lib \<Rightarrow> thread_event list \<Rightarrow> approval_event_index \<Rightarrow> server_error + approval_event_index" where
  "index_events lib [] ix = Inr ix"
| "index_events lib (event # events) ix = rbind (index_event lib event ix) (index_events lib events)"

definition index_from_events :: "approval_lib \<Rightarrow> thread_event list \<Rightarrow> server_error + approval_event_index" where
  "index_from_events lib events = index_events lib events empty_index"

definition ensure_pending :: "approval_event_index \<Rightarrow> approval_id \<Rightarrow> server_error + unit" where
  "ensure_pending ix approval_id =
     (if ix_requested ix approval_id = None then Inl (ApprovalNotRequested approval_id)
      else if ix_decided ix approval_id \<noteq> None then Inl (ApprovalAlreadyDecided approval_id)
      else Inr ())"

section \<open>Deciding\<close>

record subagent_approval_proxy =
  px_child_thread_id :: thread_id
  px_child_approval_id :: approval_id

definition parse_subagent_approval_proxy :: "approval_lib \<Rightarrow> json \<Rightarrow> subagent_approval_proxy option" where
  "parse_subagent_approval_proxy lib params =
     (case Option.bind (json_get ''subagent_proxy'' params) as_object of
        None \<Rightarrow> None
      | Some proxy \<Rightarrow>
          if Option.bind (map_of proxy ''kind'') as_str \<noteq> Some ''approval'' then None
          else case Option.bind (Option.bind (map_of proxy ''child_thread_id'') as_str) (al_parse_thread lib) of
            None \<Rightarrow> None
          | Some child_thread_id \<Rightarrow>
              (case Option.bind (Option.bind (map_of proxy ''child_approval_id'') as_str)
                      (al_parse_approval lib) of
                 None \<Rightarrow> None
               | Some child_approval_id \<Rightarrow>
                   Some \<lparr>px_child_thread_id = child_thread_id, px_child_approval_id = child_approval_id\<rparr>))"

fun last_proxy ::
  "approval_lib \<Rightarrow> approval_id \<Rightarrow> thread_event list \<Rightarrow> subagent_approval_proxy option \<Rightarrow>
     subagent_approval_proxy option" where
  "last_proxy lib approval_id [] proxy = proxy"
| "last_proxy lib approval_id (event # events) proxy =
     (case ev_kind event of
        ApprovalRequested got _ _ params \<Rightarrow>
          if got \<noteq> approval_id then last_proxy lib approval_id events proxy
          else last_proxy lib approval_id events (parse_subagent_approval_proxy lib params)
      | _ \<Rightarrow> last_proxy lib approval_id events proxy)"

definition resolve_pending_approval_proxy ::
  "approval_lib \<Rightarrow> thread_id \<Rightarrow> approval_id \<Rightarrow> subagent_approval_proxy option action" where
  "resolve_pending_approval_proxy lib tid approval_id =
     act_bind (read_log tid) (\<lambda>events.
     act_bind (act_lift (index_from_events lib events)) (\<lambda>ix.
     act_bind (act_lift (ensure_pending ix approval_id)) (\<lambda>_.
     act_return (last_proxy lib approval_id events None))))"

definition ensure_pending_approval :: "approval_lib \<Rightarrow> thread_id \<Rightarrow> approval_id \<Rightarrow> unit action" where
  "ensure_pending_approval lib tid approval_id =
     act_bind (read_log tid) (\<lambda>events.
     act_bind (act_lift (index_from_events lib events)) (\<lambda>ix.
     act_lift (ensure_pending ix approval_id)))"

definition decorate_subagent_proxy_forwarded_reason :: "string option \<Rightarrow> string" where
  "decorate_subagent_proxy_forwarded_reason reason =
     (let suffix = trim (case reason of Some r \<Rightarrow> r | None \<Rightarrow> [])
      in if suffix = [] then ''[subagent_proxy_forwarded]''
         else ''[subagent_proxy_forwarded] '' @ suffix)"

record approval_decide_params =
  dp_thread_id :: thread_id
  dp_approval_id :: approval_id
  dp_decision :: approval_decision
  dp_remember :: bool
  dp_reason :: "string option"

record approval_decide_response =
  dc_forwarded :: bool
  dc_child_thread_id :: "thread_id option"
  dc_child_approval_id :: "approval_id option"

definition decided_event :: "approval_decide_params \<Rightarrow> thread_event_kind" where
  "decided_event params =
     ApprovalDecided (dp_approval_id params) (dp_decision params) (dp_remember params) (dp_reason params)"

definition handle_approval_decide ::
  "server_env \<Rightarrow> approval_lib \<Rightarrow> approval_decide_params \<Rightarrow> approval_decide_response action" where
  "handle_approval_decide env lib params =
     act_bind (resolve_pending_approval_proxy lib (dp_thread_id params) (dp_approval_id params)) (\<lambda>proxy_route.
     case proxy_route of
       Some proxy_route \<Rightarrow>
         act_bind (ensure_pending_approval lib (px_child_thread_id proxy_route)
                     (px_child_approval_id proxy_route)) (\<lambda>_.
         act_bind (get_or_load_thread env (px_child_thread_id proxy_route)) (\<lambda>_.
         act_bind (rt_append_event env (px_child_thread_id proxy_route)
                     (ApprovalDecided (px_child_approval_id proxy_route) (dp_decision params)
                        (dp_remember params)
                        (Some (decorate_subagent_proxy_forwarded_reason (dp_reason params))))) (\<lambda>_.
         act_bind (get_or_load_thread env (dp_thread_id params)) (\<lambda>_.
         act_bind (rt_append_event env (dp_thread_id params) (decided_event params)) (\<lambda>_.
         act_return \<lparr>dc_forwarded = True,
                     dc_child_thread_id = Some (px_child_thread_id proxy_route),
                     dc_child_approval_id = Some (px_child_approval_id proxy_route)\<rparr>)))))
     | None \<Rightarrow>
         act_bind (get_or_load_thread env (dp_thread_id params)) (\<lambda>_.
         act_bind (rt_append_event env (dp_thread_id params) (decided_event params)) (\<lambda>_.
         act_return \<lparr>dc_forwarded = False, dc_child_thread_id = None, dc_child_approval_id = None\<rparr>)))"

section \<open>Checking and remembering\<close>

definition ensure_approval ::
  "approval_lib \<Rightarrow> thread_id \<Rightarrow> approval_id \<Rightarrow> string \<Rightarrow> json \<Rightarrow> unit action" where
  "ensure_approval lib tid approval_id expected_action expected_params =
     act_bind (read_log tid) (\<lambda>events.
     act_bind (act_lift (index_from_events lib events)) (\<lambda>ix.
     case ix_requested ix approval_id of
       None \<Rightarrow> act_fail (ApprovalNotRequested approval_id)
     | Some request \<Rightarrow>
         if rq_action request \<noteq> expected_action then
           act_fail (ApprovalActionMismatch expected_action (rq_action request))
         else if rq_params request \<noteq> expected_params then
           act_fail (ApprovalParamsMismatch approval_id)
         else case map_option dr_decision (ix_decided ix approval_id) of
           Some Approved \<Rightarrow> act_return ()
         | Some Denied \<Rightarrow> act_fail (ApprovalWasDenied approval_id)
         | None \<Rightarrow> act_fail (ApprovalNotDecided approval_id)))"

datatype approval_requirement_kind = RequirePrompt | RequirePromptStrict

definition approval_requirement :: "json \<Rightarrow> approval_requirement_kind" where
  "approval_requirement params =
     (let requirement =
        (case Option.bind (Option.bind (Option.bind (json_get ''approval'' params) as_object)
                (\<lambda>approval. map_of approval ''requirement'')) as_str of
           Some r \<Rightarrow> trim r
         | None \<Rightarrow> ''prompt'')
      in if requirement = ''prompt_strict'' \<or> requirement = ''promptStrict'' then RequirePromptStrict
         else RequirePrompt)"

definition bool_text :: "bool \<Rightarrow> string" where
  "bool_text b = (if b then ''true'' else ''false'')"

definition str_field :: "string \<Rightarrow> json \<Rightarrow> string" where
  "str_field k params = (case Option.bind (json_get k params) as_str of Some s \<Rightarrow> s | None \<Rightarrow> [])"

definition bool_field :: "string \<Rightarrow> bool \<Rightarrow> json \<Rightarrow> bool" where
  "bool_field k d params = (case Option.bind (json_get k params) as_bool of Some b \<Rightarrow> b | None \<Rightarrow> d)"

definition json_text :: "approval_lib \<Rightarrow> json \<Rightarrow> server_error + string" where
  "json_text lib v = (case al_json_text lib v of Some s \<Rightarrow> Inr s | None \<Rightarrow> Inl FingerprintFailed)"

definition fingerprint_value :: "approval_lib \<Rightarrow> json \<Rightarrow> server_error + string" where
  "fingerprint_value lib v = rbind (json_text lib v) (\<lambda>s. Inr (al_sha256 lib s))"

definition approval_rule_key :: "approval_lib \<Rightarrow> string \<Rightarrow> json \<Rightarrow> server_error + string" where
  "approval_rule_key lib action params =
     (if action = ''file/write'' then
        Inr (''file/write|path='' @ str_field ''path'' params @
             ''|create_parent_dirs='' @ bool_text (bool_field ''create_parent_dirs'' True params) @
             ''|text_sha256='' @ al_sha256 lib (str_field ''text'' params))
      else if action = ''file/delete'' then
        Inr (''file/delete|path='' @ str_field ''path'' params @
             ''|recursive='' @ bool_text (bool_field ''recursive'' False params))
      else if action = ''fs/mkdir'' then
        Inr (''fs/mkdir|path='' @ str_field ''path'' params @
             ''|recursive='' @ bool_text (bool_field ''recursive'' False params))
      else if action = ''file/edit'' then
        rbind (fingerprint_value lib
                 (case json_get ''edits'' params of Some edits \<Rightarrow> edits | None \<Rightarrow> JNull)) (\<lambda>edits.
          Inr (''file/edit|path='' @ str_field ''path'' params @ ''|edits_sha256='' @ edits))
      else if action = ''file/patch'' then
        Inr (''file/patch|path='' @ str_field ''path'' params @
             ''|patch_sha256='' @ al_sha256 lib (str_field ''patch'' params))
      else rbind (json_text lib params) (\<lambda>serialized. Inr (action @ ''|'' @ serialized)))"

fun remembered_loop ::
  "approval_lib \<Rightarrow> thread_event list \<Rightarrow> (approval_id \<Rightarrow> (string \<times> json) option) \<Rightarrow>
     (string \<Rightarrow> approval_decision option) \<Rightarrow>
     server_error + (string \<Rightarrow> approval_decision option)" where
  "remembered_loop lib [] requested remembered = Inr remembered"
| "remembered_loop lib (event # events) requested remembered =
     (case ev_kind event of
        ApprovalRequested approval_id _ action params \<Rightarrow>
          remembered_loop lib events (requested(approval_id \<mapsto> (action, params))) remembered
      | ApprovalDecided approval_id decision remember _ \<Rightarrow>
          if \<not> remember then remembered_loop lib events requested remembered
          else (case requested approval_id of
                  None \<Rightarrow> remembered_loop lib events requested remembered
                | Some (action, params) \<Rightarrow>
                    if approval_requirement params = RequirePromptStrict then
                      remembered_loop lib events requested remembered
                    else rbind (approval_rule_key lib action params) (\<lambda>key.
                           remembered_loop lib events requested (remembered(key \<mapsto> decision))))
      | _ \<Rightarrow> remembered_loop lib events requested remembered)"

definition remembered_approval_decision ::
  "approval_lib \<Rightarrow> thread_id \<Rightarrow> string \<Rightarrow> json \<Rightarrow> approval_decision option action" where
  "remembered_approval_decision lib tid expected_action expected_params =
     act_bind (act_lift (approval_rule_key lib expected_action expected_params)) (\<lambda>expected_key.
     act_bind (read_log tid) (\<lambda>events.
     act_bind (act_lift (remembered_loop lib events (\<lambda>_. None) (\<lambda>_. None))) (\<lambda>remembered.
     act_return (remembered expected_key))))"

section \<open>The gate\<close>

datatype approval_gate = GateApproved | GateDenied bool | GateNeedsApproval approval_id

record approval_request =
  ar_approval_id :: "approval_id option"
  ar_action :: string
  ar_params :: json

definition approval_denied_error :: "bool \<Rightarrow> string" where
  "approval_denied_error remembered =
     (if remembered then ''approval denied (remembered)'' else ''approval denied'')"

definition request_approval ::
  "server_env \<Rightarrow> thread_id \<Rightarrow> approval_id \<Rightarrow> turn_id option \<Rightarrow> approval_request \<Rightarrow> thread_event action" where
  "request_approval env tid approval_id turn_id request =
     rt_append_event env tid
       (ApprovalRequested approval_id turn_id (ar_action request) (ar_params request))"

definition request_and_decide ::
  "server_env \<Rightarrow> thread_id \<Rightarrow> approval_id \<Rightarrow> turn_id option \<Rightarrow> approval_request \<Rightarrow>
     approval_decision \<Rightarrow> string \<Rightarrow> approval_gate \<Rightarrow> approval_gate action" where
  "request_and_decide env tid approval_id turn_id request decision reason gate =
     act_bind (request_approval env tid approval_id turn_id request) (\<lambda>_.
     act_bind (rt_append_event env tid (ApprovalDecided approval_id decision False (Some reason))) (\<lambda>_.
     act_return gate))"

definition request_only ::
  "server_env \<Rightarrow> thread_id \<Rightarrow> approval_id \<Rightarrow> turn_id option \<Rightarrow> approval_request \<Rightarrow> approval_gate action" where
  "request_only env tid approval_id turn_id request =
     act_bind (request_approval env tid approval_id turn_id request) (\<lambda>_.
     act_return (GateNeedsApproval approval_id))"

definition trusted_command :: "policy \<Rightarrow> approval_request \<Rightarrow> bool" where
  "trusted_command exec_policy request \<longleftrightarrow>
     (if ar_action request = ''process/start'' then
        let argv = (case Option.bind (json_get ''argv'' (ar_params request)) as_array of
                      Some arr \<Rightarrow> List.map_filter as_str arr | None \<Rightarrow> [])
        in if argv = [] then False
           else (case max_decision (matches_for_command exec_policy argv None) of
                   Some d \<Rightarrow> d | None \<Rightarrow> ExecPrompt) = ExecAllow
      else False)"

definition gate_approval_with_deps ::
  "server_env \<Rightarrow> approval_lib \<Rightarrow> policy \<Rightarrow> approval_id \<Rightarrow> thread_id \<Rightarrow> turn_id option \<Rightarrow>
     approval_policy \<Rightarrow> approval_request \<Rightarrow> approval_gate action" where
  "gate_approval_with_deps env lib exec_policy fresh tid turn_id approval_policy request =
     (case ar_approval_id request of
        Some approval_id \<Rightarrow>
          act_bind (ensure_approval lib tid approval_id (ar_action request) (ar_params request)) (\<lambda>_.
          act_return GateApproved)
      | None \<Rightarrow>
          if approval_requirement (ar_params request) = RequirePromptStrict then
            (case approval_policy of
               AutoDeny \<Rightarrow>
                 request_and_decide env tid fresh turn_id request Denied ''auto-denied by policy''
                   (GateDenied False)
             | _ \<Rightarrow> request_only env tid fresh turn_id request)
          else
            act_bind (remembered_approval_decision lib tid (ar_action request) (ar_params request)) (\<lambda>r.
            case r of
              Some Approved \<Rightarrow>
                request_and_decide env tid fresh turn_id request Approved
                  ''auto-approved by remembered decision'' GateApproved
            | Some Denied \<Rightarrow>
                request_and_decide env tid fresh turn_id request Denied
                  ''auto-denied by remembered decision'' (GateDenied True)
            | None \<Rightarrow>
                (case approval_policy of
                   AutoApprove \<Rightarrow>
                     request_and_decide env tid fresh turn_id request Approved
                       ''auto-approved by policy'' GateApproved
                 | Manual \<Rightarrow> request_only env tid fresh turn_id request
                 | UnlessTrusted \<Rightarrow>
                     if trusted_command exec_policy request then
                       request_and_decide env tid fresh turn_id request Approved
                         ''auto-approved by policy (unless_trusted)'' GateApproved
                     else request_only env tid fresh turn_id request
                 | AutoDeny \<Rightarrow>
                     request_and_decide env tid fresh turn_id request Denied
                       ''auto-denied by policy'' (GateDenied False))))"

section \<open>What the index holds\<close>

text \<open>The requests and the decisions of a log, in order; the last one of an approval counts.\<close>

fun request_of :: "thread_event_kind \<Rightarrow> (approval_id \<times> (string \<times> json)) option" where
  "request_of (ApprovalRequested approval_id _ action params) = Some (approval_id, (action, params))"
| "request_of _ = None"

fun decision_of :: "thread_event_kind \<Rightarrow> (approval_id \<times> approval_decision) option" where
  "decision_of (ApprovalDecided approval_id decision _ _) = Some (approval_id, decision)"
| "decision_of _ = None"

definition last_request :: "thread_event_kind list \<Rightarrow> approval_id \<Rightarrow> (string \<times> json) option" where
  "last_request ks = map_of (rev (List.map_filter request_of ks))"

definition last_decision :: "thread_event_kind list \<Rightarrow> approval_id \<Rightarrow> approval_decision option" where
  "last_decision ks = map_of (rev (List.map_filter decision_of ks))"

definition pending :: "thread_event_kind list \<Rightarrow> approval_id \<Rightarrow> bool" where
  "pending ks approval_id \<longleftrightarrow> last_request ks approval_id \<noteq> None \<and> last_decision ks approval_id = None"

lemma last_Nil [simp]: "last_request [] = (\<lambda>_. None)" "last_decision [] = (\<lambda>_. None)"
  by (simp_all add: last_request_def last_decision_def map_filter_def)

lemma last_append [simp]:
  "last_request (ks @ ls) = last_request ks ++ last_request ls"
  "last_decision (ks @ ls) = last_decision ks ++ last_decision ls"
  by (simp_all add: last_request_def last_decision_def map_filter_def)

lemma last_single [simp]:
  "last_request [k] = (case request_of k of Some (i, r) \<Rightarrow> [i \<mapsto> r] | None \<Rightarrow> (\<lambda>_. None))"
  "last_decision [k] = (case decision_of k of Some (i, d) \<Rightarrow> [i \<mapsto> d] | None \<Rightarrow> (\<lambda>_. None))"
  by (simp_all add: last_request_def last_decision_def map_filter_def split: option.split prod.split)

lemma last_Cons_Cons [simp]:
  "last_request (k # l # ks) = last_request [k] ++ last_request (l # ks)"
  "last_decision (k # l # ks) = last_decision [k] ++ last_decision (l # ks)"
  using last_append [of "[k]" "l # ks"] by simp_all

lemma last_core:
  "last_request (core es) = last_request (map ev_kind es)"
  "last_decision (core es) = last_decision (map ev_kind es)"
proof -
  have mk: "is_marker k \<Longrightarrow> request_of k = None \<and> decision_of k = None" for k by (cases k; simp)
  have "List.map_filter request_of (core es) = List.map_filter request_of (map ev_kind es)"
    "List.map_filter decision_of (core es) = List.map_filter decision_of (map ev_kind es)"
    by (induction es) (simp_all add: core_def map_filter_simps mk split: option.split)
  then show "last_request (core es) = last_request (map ev_kind es)"
    "last_decision (core es) = last_decision (map ev_kind es)"
    by (simp_all add: last_request_def last_decision_def)
qed

lemma no_requests: "list_all (\<lambda>k. request_of k = None) ks \<Longrightarrow> last_request ks = (\<lambda>_. None)"
  by (induction ks) (simp_all add: last_request_def map_filter_simps)

interpretation ax: fallible_fold "index_event lib" "index_events lib"
  by unfold_locales simp_all

definition index_agrees :: "approval_event_index \<Rightarrow> thread_event_kind list \<Rightarrow> bool" where
  "index_agrees ix ks \<longleftrightarrow>
     (\<forall>i. map_option (\<lambda>r. (rq_action r, rq_params r)) (ix_requested ix i) = last_request ks i \<and>
          map_option dr_decision (ix_decided ix i) = last_decision ks i)"

lemma index_kind_agrees: "index_agrees ix ks \<Longrightarrow> index_agrees (index_kind ts k ix) (ks @ [k])"
  by (cases k) (simp_all add: index_agrees_def)

text \<open>The index agrees with the log, and building it only fails on a timestamp.\<close>

lemma index_from_events_agrees:
  "index_from_events lib es = Inr ix \<Longrightarrow> index_agrees ix (core es)"
proof (induction es arbitrary: ix rule: rev_induct)
  case Nil
  then have "ix = empty_index" by (simp add: index_from_events_def)
  then show ?case by (simp add: empty_index_def index_agrees_def core_def)
next
  case (snoc e es)
  then obtain m where m: "index_from_events lib es = Inr m" "index_event lib e m = Inr ix"
    by (auto simp: index_from_events_def ax.run_snoc rbind_eq_Inr)
  from m(2) obtain ts where "ix = index_kind ts (ev_kind e) m"
    by (auto simp: index_event_def split: option.splits)
  with index_kind_agrees [OF snoc.IH [OF m(1)]] show ?case
    by (auto simp: index_agrees_def last_core)
qed

lemma index_from_events_total:
  assumes "\<And>t. al_format lib t \<noteq> None"
  shows "\<exists>ix. index_from_events lib es = Inr ix"
proof (cases "index_from_events lib es")
  case (Inl err)
  then obtain e m where "index_event lib e m = Inl err"
    by (auto simp: index_from_events_def ax.run_error_iff)
  with assms [of "ev_timestamp e"] show ?thesis by (auto simp: index_event_def)
qed simp

lemma ensure_pending_iff:
  assumes "index_agrees ix ks"
  shows "ensure_pending ix i = Inr () \<longleftrightarrow> pending ks i"
proof -
  have "ix_requested ix i = None \<longleftrightarrow> last_request ks i = None"
    "ix_decided ix i = None \<longleftrightarrow> last_decision ks i = None"
    using assms by (metis index_agrees_def map_option_is_None)+
  then show ?thesis by (simp add: ensure_pending_def pending_def)
qed

lemma pending_open: "pending ks i \<Longrightarrow> i \<in> open_approvals ks"
  unfolding pending_def open_approvals_def
proof (induction ks rule: rev_induct)
  case (snoc k ks)
  then show ?case
    by (cases k) (auto simp: track_append map_add_def split: if_splits option.splits)
qed simp

section \<open>What deciding does to the logs\<close>

definition recovered_denial :: "server_env \<Rightarrow> approval_id \<Rightarrow> thread_event_kind" where
  "recovered_denial env i = redact_thread_event_kind (env_redact env)
     (ApprovalDecided i Denied False (Some ''recovered incomplete approval on resume''))"

text \<open>Loading adds no request, leaves other threads alone and denies what was pending.\<close>

lemma get_or_load_outcome:
  assumes "get_or_load_thread env tid s = (Inr u, s')"
  shows "\<exists>ks. core (log_of s' tid) = core (log_of s tid) @ ks \<and> last_request ks = (\<lambda>_. None) \<and>
      (tid \<notin> sv_loaded s \<longrightarrow> (\<forall>i \<in> open_approvals (core (log_of s tid)). recovered_denial env i \<in> set ks))"
    and "tid \<in> sv_loaded s \<Longrightarrow> s' = s" and "tid \<in> sv_loaded s'"
    and "v \<noteq> tid \<Longrightarrow> sv_logs s' v = sv_logs s v"
proof -
  have "(\<exists>ks. core (log_of s' tid) = core (log_of s tid) @ ks \<and> last_request ks = (\<lambda>_. None) \<and>
      (tid \<notin> sv_loaded s \<longrightarrow> (\<forall>i \<in> open_approvals (core (log_of s tid)). recovered_denial env i \<in> set ks))) \<and>
    (tid \<in> sv_loaded s \<longrightarrow> s' = s) \<and> tid \<in> sv_loaded s' \<and> (\<forall>v. v \<noteq> tid \<longrightarrow> sv_logs s' v = sv_logs s v)"
  proof (cases "tid \<in> sv_loaded s")
    case True
    with assms have "s' = s" by (simp add: get_or_load_thread_def)
    with True show ?thesis by (intro conjI exI [of _ "[]"]) simp_all
  next
    case False
    with assms obtain es st m where m: "sv_logs s tid = Some es" "replay es (new_state tid) = Inr st"
      "append_all env tid (recovery_events es st) s = (Inr (), m)"
      "s' = m\<lparr>sv_loaded := insert tid (sv_loaded m)\<rparr>"
      by (auto simp: get_or_load_thread_def act_bind_eq split: option.splits sum.splits)
    let ?ks = "map (redact_thread_event_kind (env_redact env)) (recovery_events es st)"
    note app = append_all_Inr [OF m(3) recovery_events_core]
    have "log_of s tid = es" "log_of s' tid = log_of m tid"
      using m(1,4) by (simp_all add: log_of_def)
    moreover have "last_request ?ks = (\<lambda>_. None)"
      by (rule no_requests) (auto simp: recovery_events_def list_all_iff split: option.splits)
    moreover have "recovered_denial env i \<in> set ?ks" if "i \<in> open_approvals (core es)" for i
    proof -
      from that replay_open(2) [OF m(2)] have "i \<in> set (sorted_list_of_set (st_pending_approvals st))"
        by (simp add: finite_open)
      then have "ApprovalDecided i Denied False (Some ''recovered incomplete approval on resume'')
          \<in> set (recovery_events es st)" by (auto simp: recovery_events_def)
      then show ?thesis unfolding recovered_denial_def set_map by (rule imageI)
    qed
    ultimately show ?thesis using app m(4) False by auto
  qed
  then show "\<exists>ks. core (log_of s' tid) = core (log_of s tid) @ ks \<and> last_request ks = (\<lambda>_. None) \<and>
      (tid \<notin> sv_loaded s \<longrightarrow> (\<forall>i \<in> open_approvals (core (log_of s tid)). recovered_denial env i \<in> set ks))"
    and "tid \<in> sv_loaded s \<Longrightarrow> s' = s" and "tid \<in> sv_loaded s'"
    and "v \<noteq> tid \<Longrightarrow> sv_logs s' v = sv_logs s v" by blast+
qed

lemma append_decision_outcome:
  assumes "rt_append_event env tid (ApprovalDecided i d remember reason) s = (Inr e, s')"
  shows "core (log_of s' tid) = core (log_of s tid) @
      [ApprovalDecided i d remember (map_option (redact_text (env_redact env)) reason)]"
    "v \<noteq> tid \<Longrightarrow> sv_logs s' v = sv_logs s v" "sv_loaded s' = sv_loaded s"
  using rt_append_event_Inr [OF assms] by (simp_all add: core_event)

lemma append_request_outcome:
  assumes "rt_append_event env tid (ApprovalRequested i turn action params) s = (Inr e, s')"
  shows "core (log_of s' tid) = core (log_of s tid) @
      [ApprovalRequested i turn action (redact_json_value (env_redact env) params)]"
    "v \<noteq> tid \<Longrightarrow> sv_logs s' v = sv_logs s v" "sv_loaded s' = sv_loaded s"
  using rt_append_event_Inr [OF assms] by (simp_all add: core_event)

text \<open>Every operation that consults the index reads the log first, without changing anything.\<close>

lemma read_index_cases:
  assumes "act_bind (read_log tid) (\<lambda>es. act_bind (act_lift (index_from_events lib es)) (f es)) s = (r, s')"
  obtains e where "r = Inl e" "s' = s"
  | es ix where "sv_logs s tid = Some es" "log_of s tid = es"
    "index_agrees ix (core es)" "f es ix s = (r, s')"
proof (cases "sv_logs s tid")
  case None
  with assms have "r = Inl (ThreadNotFound tid)" "s' = s" by (simp_all add: act_bind_def read_log_def)
  then show ?thesis by (rule that(1))
next
  case (Some es)
  with assms have "act_bind (act_lift (index_from_events lib es)) (f es) s = (r, s')"
    by (simp add: act_bind_def read_log_def)
  note run = this
  show ?thesis
  proof (cases "index_from_events lib es")
    case (Inl e)
    with run have "r = Inl e" "s' = s" by (simp_all add: act_bind_def act_lift_def)
    then show ?thesis by (rule that(1))
  next
    case (Inr ix)
    with run have "f es ix s = (r, s')" by (simp add: act_bind_def act_lift_def)
    with Some Inr index_from_events_agrees [OF Inr] that(2) show ?thesis
      by (simp add: log_of_def)
  qed
qed

lemma ensure_pending_outcome:
  assumes "act_bind (act_lift (ensure_pending ix i)) f s = (r, s')" and "index_agrees ix ks"
  obtains e where "r = Inl e" "s' = s" | "pending ks i" "f () s = (r, s')"
proof (cases "ensure_pending ix i")
  case (Inl e)
  with assms(1) have "r = Inl e" "s' = s" by (simp_all add: act_bind_def act_lift_def)
  then show ?thesis by (rule that(1))
next
  case (Inr u)
  with assms(1) have "f () s = (r, s')" by (simp add: act_bind_def act_lift_def)
  with Inr assms(2) that(2) show ?thesis by (simp add: ensure_pending_iff)
qed

lemma resolve_outcome:
  assumes "resolve_pending_approval_proxy lib tid i s = (r, s')"
  shows "s' = s \<and> (\<forall>p. r = Inr p \<longrightarrow> pending (core (log_of s tid)) i)"
  using assms unfolding resolve_pending_approval_proxy_def
proof (rule read_index_cases)
  fix es ix assume ix: "index_agrees ix (core es)" and es: "log_of s tid = es"
    and "act_bind (act_lift (ensure_pending ix i)) (\<lambda>_. act_return (last_proxy lib i es None)) s = (r, s')"
  from this(3,1) show ?thesis
    by (rule ensure_pending_outcome) (use es in \<open>auto simp: act_return_def\<close>)
qed simp

lemma ensure_pending_approval_outcome:
  assumes "ensure_pending_approval lib tid i s = (r, s')"
  shows "s' = s \<and> (\<forall>u. r = Inr u \<longrightarrow> pending (core (log_of s tid)) i)"
  using assms unfolding ensure_pending_approval_def
proof (rule read_index_cases)
  fix es ix assume ix: "index_agrees ix (core es)" "log_of s tid = es"
    and "act_lift (ensure_pending ix i) s = (r, s')"
  then show ?thesis
    using ensure_pending_iff [OF ix(1), of i] by (auto simp: act_lift_def)
qed simp

text \<open>Loading a thread and appending a decision to it: the two steps that record a decision.\<close>

definition record_decision ::
  "server_env \<Rightarrow> thread_id \<Rightarrow> thread_event_kind \<Rightarrow> thread_event action" where
  "record_decision env tid k = act_bind (get_or_load_thread env tid) (\<lambda>_. rt_append_event env tid k)"

lemma record_decision_outcome:
  assumes "record_decision env tid (ApprovalDecided i d remember reason) s = (Inr e, s')"
  shows "\<exists>ks. core (log_of s' tid) = core (log_of s tid) @ ks @
        [ApprovalDecided i d remember (map_option (redact_text (env_redact env)) reason)] \<and>
      last_request ks = (\<lambda>_. None) \<and> (tid \<in> sv_loaded s \<longrightarrow> ks = []) \<and>
      (tid \<notin> sv_loaded s \<longrightarrow> (\<forall>j \<in> open_approvals (core (log_of s tid)). recovered_denial env j \<in> set ks))"
    "\<forall>v. v \<noteq> tid \<longrightarrow> sv_logs s' v = sv_logs s v" "tid \<in> sv_loaded s'"
proof -
  from assms obtain m where m: "get_or_load_thread env tid s = (Inr (), m)"
    "rt_append_event env tid (ApprovalDecided i d remember reason) m = (Inr e, s')"
    by (auto simp: record_decision_def act_bind_eq)
  note load = get_or_load_outcome [OF m(1)] and app = append_decision_outcome [OF m(2)]
  show "\<exists>ks. core (log_of s' tid) = core (log_of s tid) @ ks @
        [ApprovalDecided i d remember (map_option (redact_text (env_redact env)) reason)] \<and>
      last_request ks = (\<lambda>_. None) \<and> (tid \<in> sv_loaded s \<longrightarrow> ks = []) \<and>
      (tid \<notin> sv_loaded s \<longrightarrow> (\<forall>j \<in> open_approvals (core (log_of s tid)). recovered_denial env j \<in> set ks))"
    using load(1,2) app(1) by (cases "tid \<in> sv_loaded s") auto
  show "\<forall>v. v \<noteq> tid \<longrightarrow> sv_logs s' v = sv_logs s v" "tid \<in> sv_loaded s'"
    using load(3,4) app(2,3) by auto
qed

lemma decide_cases:
  assumes "handle_approval_decide env lib p s = (Inr resp, s')"
  obtains e where "pending (core (log_of s (dp_thread_id p))) (dp_approval_id p)" "\<not> dc_forwarded resp"
      "record_decision env (dp_thread_id p) (decided_event p) s = (Inr e, s')"
  | child cid reason f e m where "pending (core (log_of s (dp_thread_id p))) (dp_approval_id p)"
      "dc_forwarded resp" "dc_child_thread_id resp = Some child" "dc_child_approval_id resp = Some cid"
      "pending (core (log_of s child)) cid"
      "record_decision env child (ApprovalDecided cid (dp_decision p) (dp_remember p) (Some reason)) s = (Inr f, m)"
      "record_decision env (dp_thread_id p) (decided_event p) m = (Inr e, s')"
proof -
  from assms obtain route m where m: "resolve_pending_approval_proxy lib (dp_thread_id p) (dp_approval_id p) s = (Inr route, m)"
    unfolding handle_approval_decide_def by (auto simp: act_bind_eq)
  from resolve_outcome [OF m] have s: "m = s" and pend: "pending (core (log_of s (dp_thread_id p))) (dp_approval_id p)"
    by auto
  note rest = assms [unfolded handle_approval_decide_def act_bind_step(1) [where ?m.0 = "resolve_pending_approval_proxy _ _ _", OF m] s]
  show ?thesis
  proof (cases route)
    case None
    with rest show ?thesis
      by (auto intro!: that(1) [OF pend] simp: record_decision_def act_bind_eq act_return_def)
  next
    case (Some px)
    let ?child = "px_child_thread_id px" and ?cid = "px_child_approval_id px"
    from rest Some obtain f m1 e m2 m3 m4 where
      "ensure_pending_approval lib ?child ?cid s = (Inr (), m1)"
      "get_or_load_thread env ?child m1 = (Inr (), m2)"
      "rt_append_event env ?child (ApprovalDecided ?cid (dp_decision p) (dp_remember p)
         (Some (decorate_subagent_proxy_forwarded_reason (dp_reason p)))) m2 = (Inr f, m3)"
      "get_or_load_thread env (dp_thread_id p) m3 = (Inr (), m4)"
      "rt_append_event env (dp_thread_id p) (decided_event p) m4 = (Inr e, s')"
      "resp = \<lparr>dc_forwarded = True, dc_child_thread_id = Some ?child, dc_child_approval_id = Some ?cid\<rparr>"
      by (auto simp: act_bind_eq act_return_def)
    moreover from this(1) have "m1 = s" "pending (core (log_of s ?child)) ?cid"
      using ensure_pending_approval_outcome by blast+
    ultimately show ?thesis
      by (intro that(2) [of ?child ?cid "decorate_subagent_proxy_forwarded_reason (dp_reason p)" f m3 e] pend)
        (simp_all add: record_decision_def act_bind_def)
  qed
qed

section \<open>Deciding is recorded\<close>

lemma not_pending_refused:
  assumes "handle_approval_decide env lib p s = (r, s')"
    and "\<not> pending (core (log_of s (dp_thread_id p))) (dp_approval_id p)"
  shows "(\<exists>e. r = Inl e) \<and> s' = s"
proof -
  obtain q m where m: "resolve_pending_approval_proxy lib (dp_thread_id p) (dp_approval_id p) s = (q, m)"
    by (cases "resolve_pending_approval_proxy lib (dp_thread_id p) (dp_approval_id p) s")
  from resolve_outcome [OF m] assms(2) obtain e where "q = Inl e" "m = s" by (cases q) auto
  with assms(1) m show ?thesis by (auto simp: handle_approval_decide_def act_bind_def)
qed

lemma last_decision_snoc [simp]: "last_decision (ks @ [ApprovalDecided i d remember reason]) i = Some d"
  by simp

lemma last_request_decided [simp]: "last_request [ApprovalDecided i d remember reason] = (\<lambda>_. None)"
  by simp

lemma record_decision_last:
  assumes "record_decision env tid (ApprovalDecided i d remember reason) s = (Inr e, s')"
  shows "last_decision (core (log_of s' tid)) i = Some d"
    "last_request (core (log_of s' tid)) = last_request (core (log_of s tid))"
    "prefix (core (log_of s tid)) (core (log_of s' tid))"
  using record_decision_outcome(1) [OF assms] by (auto simp del: last_append(2) simp flip: append_assoc)

lemma decided_counts:
  assumes "handle_approval_decide env lib p s = (Inr resp, s')"
  shows "last_decision (core (log_of s' (dp_thread_id p))) (dp_approval_id p) = Some (dp_decision p)"
  using assms by (cases rule: decide_cases) (simp_all add: decided_event_def record_decision_last(1))


text \<open>
  C37: the request is checked to be pending before the thread is loaded, and loading a thread
  that this process has not loaded denies its pending requests. The decision is then appended
  to a request that is already decided: the log holds two decisions, and the user's overrules
  the denial.
\<close>

theorem decide_after_restart_decides_twice:
  assumes "handle_approval_decide env lib p s = (Inr resp, s')"
    and "\<not> dc_forwarded resp" and "dp_thread_id p \<notin> sv_loaded s"
  shows "(\<exists>xs ys. core (log_of s' (dp_thread_id p)) =
       xs @ recovered_denial env (dp_approval_id p) # ys @
       [redact_thread_event_kind (env_redact env) (decided_event p)]) \<and>
    last_decision (core (log_of s' (dp_thread_id p))) (dp_approval_id p) = Some (dp_decision p)"
  using assms(1)
proof (cases rule: decide_cases)
  case (1 e)
  note rec = 1(3) [unfolded decided_event_def]
  from record_decision_outcome(1) [OF rec] assms(3) obtain ks where
    "core (log_of s' (dp_thread_id p)) = core (log_of s (dp_thread_id p)) @ ks @
      [redact_thread_event_kind (env_redact env) (decided_event p)]"
    "recovered_denial env (dp_approval_id p) \<in> set ks"
    using pending_open [OF 1(1)] by (auto simp: decided_event_def)
  moreover from this(2) obtain xs ys where "ks = xs @ recovered_denial env (dp_approval_id p) # ys"
    by (meson split_list)
  ultimately have "core (log_of s' (dp_thread_id p)) =
      (core (log_of s (dp_thread_id p)) @ xs) @ recovered_denial env (dp_approval_id p) # ys @
      [redact_thread_event_kind (env_redact env) (decided_event p)]" by simp
  with record_decision_last(1) [OF rec] show ?thesis by blast
qed (use assms(2) in blast)

section \<open>Remembered decisions\<close>

text \<open>
  An event is remembered under a key when it decides, to be remembered, a request before it
  that is not strict and has the key.
\<close>

definition remembers ::
  "approval_lib \<Rightarrow> thread_event_kind list \<Rightarrow> thread_event_kind \<Rightarrow> string \<Rightarrow> approval_decision \<Rightarrow> bool" where
  "remembers lib before k key d \<longleftrightarrow>
     (\<exists>i reason action params. k = ApprovalDecided i d True reason \<and>
        last_request before i = Some (action, params) \<and>
        approval_requirement params = RequirePrompt \<and> approval_rule_key lib action params = Inr key)"

definition forgets :: "approval_lib \<Rightarrow> thread_event_kind list \<Rightarrow> thread_event_kind list \<Rightarrow> string \<Rightarrow> bool" where
  "forgets lib before ks key \<longleftrightarrow>
     (\<forall>xs k ys d. ks = xs @ k # ys \<longrightarrow> \<not> remembers lib (before @ xs) k key d)"

definition newest_remembered ::
  "approval_lib \<Rightarrow> thread_event_kind list \<Rightarrow> thread_event_kind list \<Rightarrow> string \<Rightarrow> approval_decision \<Rightarrow> bool" where
  "newest_remembered lib before ks key d \<longleftrightarrow>
     (\<exists>xs k ys. ks = xs @ k # ys \<and> remembers lib (before @ xs) k key d \<and>
        forgets lib (before @ xs @ [k]) ys key)"

lemma forgets_simps [simp]:
  "forgets lib before [] key"
  "forgets lib before (k # ks) key \<longleftrightarrow>
     (\<forall>d. \<not> remembers lib before k key d) \<and> forgets lib (before @ [k]) ks key"
proof -
  show "forgets lib before [] key" by (simp add: forgets_def)
  have "(\<forall>xs l ys d. k # ks = xs @ l # ys \<longrightarrow> \<not> remembers lib (before @ xs) l key d) \<longleftrightarrow>
      (\<forall>d. \<not> remembers lib before k key d) \<and>
      (\<forall>xs l ys d. ks = xs @ l # ys \<longrightarrow> \<not> remembers lib (before @ k # xs) l key d)"
    by (auto simp: Cons_eq_append_conv)
  then show "forgets lib before (k # ks) key \<longleftrightarrow>
     (\<forall>d. \<not> remembers lib before k key d) \<and> forgets lib (before @ [k]) ks key"
    by (simp add: forgets_def)
qed

lemma ex_split_Cons:
  "(\<exists>xs l ys. k # ks = xs @ l # ys \<and> P xs l ys) \<longleftrightarrow>
     P [] k ks \<or> (\<exists>xs l ys. ks = xs @ l # ys \<and> P (k # xs) l ys)" (is "?l \<longleftrightarrow> ?r")
proof
  assume ?l
  then obtain xs l ys where s: "k # ks = xs @ l # ys" "P xs l ys" by blast
  then show ?r by (cases xs) auto
next
  assume ?r
  then show ?l
  proof
    assume "P [] k ks"
    then show ?l by (metis append_Nil)
  next
    assume "\<exists>xs l ys. ks = xs @ l # ys \<and> P (k # xs) l ys"
    then show ?l by (metis append_Cons)
  qed
qed

lemma newest_remembered_simps [simp]:
  "\<not> newest_remembered lib before [] key d"
  "newest_remembered lib before (k # ks) key d \<longleftrightarrow>
     newest_remembered lib (before @ [k]) ks key d \<or>
     remembers lib before k key d \<and> forgets lib (before @ [k]) ks key"
  unfolding newest_remembered_def ex_split_Cons by auto

lemma remembered_step:
  assumes "remembered_loop lib (e # es) (last_request before) rem = Inr r"
  shows "\<exists>rem'. remembered_loop lib es (last_request (before @ [ev_kind e])) rem' = Inr r \<and>
    (\<forall>key d. rem' key = Some d \<longleftrightarrow> remembers lib before (ev_kind e) key d \<or>
       (\<forall>d. \<not> remembers lib before (ev_kind e) key d) \<and> rem key = Some d)"
proof (cases "\<exists>i d reason action params. ev_kind e = ApprovalDecided i d True reason \<and>
      last_request before i = Some (action, params) \<and> approval_requirement params = RequirePrompt")
  case True
  then obtain i d reason action params where k: "ev_kind e = ApprovalDecided i d True reason"
    "last_request before i = Some (action, params)" "approval_requirement params = RequirePrompt" by blast
  with assms obtain key where "approval_rule_key lib action params = Inr key"
    "remembered_loop lib es (last_request before) (rem(key \<mapsto> d)) = Inr r"
    by (auto simp: rbind_eq_Inr)
  with k show ?thesis by (intro exI [of _ "rem(key \<mapsto> d)"]) (auto simp: remembers_def)
next
  case False
  then have "\<not> remembers lib before (ev_kind e) key d" for key d by (auto simp: remembers_def)
  moreover have "remembered_loop lib es (last_request (before @ [ev_kind e])) rem = Inr r"
  proof (cases "ev_kind e")
    case (ApprovalDecided i d remember reason)
    with False have "remember \<Longrightarrow> last_request before i = Some (action, params) \<Longrightarrow>
        approval_requirement params = RequirePromptStrict" for action params
      by (cases "approval_requirement params") auto
    with ApprovalDecided assms show ?thesis by (auto split: if_splits option.splits prod.splits)
  qed (use assms in simp_all)
  ultimately show ?thesis by blast
qed

lemma remembered_loop_correct:
  "remembered_loop lib es (last_request before) rem = Inr r \<Longrightarrow>
     r key = Some d \<longleftrightarrow> newest_remembered lib before (map ev_kind es) key d \<or>
       forgets lib before (map ev_kind es) key \<and> rem key = Some d"
proof (induction es arbitrary: before rem)
  case (Cons e es)
  from remembered_step [OF Cons.prems] obtain rem' where rem':
    "remembered_loop lib es (last_request (before @ [ev_kind e])) rem' = Inr r"
    "\<forall>key d. rem' key = Some d \<longleftrightarrow> remembers lib before (ev_kind e) key d \<or>
       (\<forall>d. \<not> remembers lib before (ev_kind e) key d) \<and> rem key = Some d" by blast
  from Cons.IH [OF rem'(1)] rem'(2) show ?case by auto
qed simp

lemma remembered_decision_same_state:
  "remembered_approval_decision lib tid action params s = (r, s') \<Longrightarrow> s' = s"
  by (auto simp: remembered_approval_decision_def act_bind_eq action_simps read_log_def
      split: option.splits)

lemma remembered_decision_spec:
  assumes "remembered_approval_decision lib tid action params s = (Inr r, s')"
  shows "\<exists>key. approval_rule_key lib action params = Inr key \<and>
    (\<forall>d. r = Some d \<longleftrightarrow> newest_remembered lib [] (map ev_kind (log_of s tid)) key d)"
proof -
  from assms obtain key es rem where key: "approval_rule_key lib action params = Inr key"
    "sv_logs s tid = Some es" "remembered_loop lib es (\<lambda>_. None) (\<lambda>_. None) = Inr rem" "r = rem key" "s' = s"
    by (auto simp: remembered_approval_decision_def act_bind_eq action_simps read_log_def split: option.splits)
  from remembered_loop_correct [of lib es "[]" "\<lambda>_. None" rem key] key show ?thesis
    by (simp add: log_of_def)
qed

text \<open>
  A remembered decision is applied exactly when the log holds one for the same key: the
  newest decision to be remembered of a request with that key that is not strict. Strict
  requests are never remembered, and reading changes nothing.
\<close>

theorem remembered_decision_correct:
  assumes "remembered_approval_decision lib tid action params s = (Inr r, s')"
  shows "s' = s \<and> (\<exists>key. approval_rule_key lib action params = Inr key \<and>
    (\<forall>d. r = Some d \<longleftrightarrow> newest_remembered lib [] (map ev_kind (log_of s tid)) key d))"
  using remembered_decision_same_state [OF assms] remembered_decision_spec [OF assms] by simp

section \<open>The gate's verdicts\<close>

definition command_argv :: "json \<Rightarrow> string list" where
  "command_argv params =
     (case Option.bind (json_get ''argv'' params) as_array of
        Some arr \<Rightarrow> List.map_filter as_str arr | None \<Rightarrow> [])"

lemma max_decision_allow:
  "max_decision ms = Some ExecAllow \<longleftrightarrow> ms \<noteq> [] \<and> (\<forall>m \<in> set ms. match_decision m = ExecAllow)"
proof (cases ms)
  case (Cons m rest)
  have low: "x \<le> ExecAllow \<longleftrightarrow> x = ExecAllow" for x :: exec_decision
    by (cases x) (simp_all add: less_eq_exec_decision_def)
  have "fold max xs a = ExecAllow \<longleftrightarrow> a = ExecAllow \<and> (\<forall>x \<in> set xs. x = ExecAllow)" for xs a
  proof (induction xs arbitrary: a)
    case (Cons x xs)
    have "max x a = ExecAllow \<longleftrightarrow> x = ExecAllow \<and> a = ExecAllow"
      using low [of x] low [of a] by (auto simp: max_def)
    with Cons show ?case by auto
  qed simp
  with Cons show ?thesis by auto
qed simp

lemma trusted_command_iff:
  "trusted_command exec_policy request \<longleftrightarrow>
     ar_action request = ''process/start'' \<and> command_argv (ar_params request) \<noteq> [] \<and>
     (let ms = matches_for_command exec_policy (command_argv (ar_params request)) None
      in ms \<noteq> [] \<and> (\<forall>m \<in> set ms. match_decision m = ExecAllow))"
proof -
  have "(case max_decision ms of Some d \<Rightarrow> d | None \<Rightarrow> ExecPrompt) = ExecAllow \<longleftrightarrow>
      ms \<noteq> [] \<and> (\<forall>m \<in> set ms. match_decision m = ExecAllow)" for ms
    using max_decision_allow [of ms] by (cases "max_decision ms") auto
  then show ?thesis by (simp add: trusted_command_def command_argv_def Let_def)
qed

definition requested_event :: "server_env \<Rightarrow> approval_id \<Rightarrow> turn_id option \<Rightarrow> approval_request \<Rightarrow> thread_event_kind" where
  "requested_event env fresh turn_id request =
     ApprovalRequested fresh turn_id (ar_action request) (redact_json_value (env_redact env) (ar_params request))"

lemma request_only_outcome:
  assumes "request_only env tid fresh turn_id request s = (Inr g, s')"
  shows "g = GateNeedsApproval fresh"
    "core (log_of s' tid) = core (log_of s tid) @ [requested_event env fresh turn_id request]"
    "\<forall>v. v \<noteq> tid \<longrightarrow> sv_logs s' v = sv_logs s v" "sv_loaded s' = sv_loaded s"
proof -
  from assms obtain e where e: "g = GateNeedsApproval fresh" "rt_append_event env tid
      (ApprovalRequested fresh turn_id (ar_action request) (ar_params request)) s = (Inr e, s')"
    by (auto simp: request_only_def request_approval_def act_bind_eq act_return_def)
  with append_request_outcome [OF e(2)] show "g = GateNeedsApproval fresh"
    "core (log_of s' tid) = core (log_of s tid) @ [requested_event env fresh turn_id request]"
    "\<forall>v. v \<noteq> tid \<longrightarrow> sv_logs s' v = sv_logs s v" "sv_loaded s' = sv_loaded s"
    by (simp_all add: requested_event_def)
qed

lemma request_and_decide_outcome:
  assumes "request_and_decide env tid fresh turn_id request d reason gate s = (Inr g, s')"
  shows "g = gate"
    "\<exists>reason. core (log_of s' tid) = core (log_of s tid) @
      [requested_event env fresh turn_id request, ApprovalDecided fresh d False (Some reason)]"
    "\<forall>v. v \<noteq> tid \<longrightarrow> sv_logs s' v = sv_logs s v"
proof -
  from assms obtain e f m where m: "g = gate" "rt_append_event env tid
      (ApprovalRequested fresh turn_id (ar_action request) (ar_params request)) s = (Inr e, m)"
    "rt_append_event env tid (ApprovalDecided fresh d False (Some reason)) m = (Inr f, s')"
    by (auto simp: request_and_decide_def request_approval_def act_bind_eq act_return_def)
  note req = append_request_outcome [OF m(2)] and dec = append_decision_outcome [OF m(3)]
  from m(1) req dec show "g = gate"
    "\<exists>reason. core (log_of s' tid) = core (log_of s tid) @
      [requested_event env fresh turn_id request, ApprovalDecided fresh d False (Some reason)]"
    "\<forall>v. v \<noteq> tid \<longrightarrow> sv_logs s' v = sv_logs s v"
    by (simp_all add: requested_event_def)
qed

lemma ensure_approval_outcome:
  assumes "ensure_approval lib tid i action params s = (r, s')"
  shows "s' = s \<and> (\<forall>u. r = Inr u \<longrightarrow>
    last_request (core (log_of s tid)) i = Some (action, params) \<and>
    last_decision (core (log_of s tid)) i = Some Approved)"
  using assms unfolding ensure_approval_def
proof (rule read_index_cases)
  fix es ix assume "index_agrees ix (core es)" and es: "log_of s tid = es"
    and run: "(case ix_requested ix i of
       None \<Rightarrow> act_fail (ApprovalNotRequested i)
     | Some request \<Rightarrow>
         if rq_action request \<noteq> action then act_fail (ApprovalActionMismatch action (rq_action request))
         else if rq_params request \<noteq> params then act_fail (ApprovalParamsMismatch i)
         else case map_option dr_decision (ix_decided ix i) of
           Some Approved \<Rightarrow> act_return ()
         | Some Denied \<Rightarrow> act_fail (ApprovalWasDenied i)
         | None \<Rightarrow> act_fail (ApprovalNotDecided i)) s = (r, s')"
  then have "last_request (core es) i = map_option (\<lambda>r. (rq_action r, rq_params r)) (ix_requested ix i)"
    "last_decision (core es) i = map_option dr_decision (ix_decided ix i)"
    by (simp_all add: index_agrees_def)
  with run es show ?thesis
    by (auto simp: act_fail_def act_return_def
        split: option.splits if_splits approval_decision.splits)
qed simp

text \<open>What the gate decides for a request without an approval.\<close>

definition gate_verdict ::
  "policy \<Rightarrow> approval_policy \<Rightarrow> approval_request \<Rightarrow> approval_decision option \<Rightarrow> approval_decision option" where
  "gate_verdict exec_policy approval_policy request remembered =
     (if approval_requirement (ar_params request) = RequirePromptStrict then
        if approval_policy = AutoDeny then Some Denied else None
      else if remembered \<noteq> None then remembered
      else if approval_policy = AutoDeny then Some Denied
      else if approval_policy = AutoApprove \<or>
              approval_policy = UnlessTrusted \<and> trusted_command exec_policy request then Some Approved
      else None)"

lemma gate_outcome:
  assumes "gate_approval_with_deps env lib exec_policy fresh tid turn_id approval_policy request s = (Inr g, s')"
    and "ar_approval_id request = None"
  shows "\<exists>remembered. (approval_requirement (ar_params request) = RequirePrompt \<longrightarrow>
        remembered_approval_decision lib tid (ar_action request) (ar_params request) s = (Inr remembered, s)) \<and>
      (case gate_verdict exec_policy approval_policy request remembered of
         None \<Rightarrow> request_only env tid fresh turn_id request s = (Inr g, s')
       | Some d \<Rightarrow> \<exists>reason.
           request_and_decide env tid fresh turn_id request d reason
             (if d = Approved then GateApproved
              else GateDenied (approval_requirement (ar_params request) = RequirePrompt \<and> remembered = Some Denied))
             s = (Inr g, s'))"
proof (cases "approval_requirement (ar_params request)")
  case RequirePromptStrict
  with assms show ?thesis
    by (cases approval_policy) (auto simp: gate_approval_with_deps_def gate_verdict_def)
next
  case RequirePrompt
  with assms obtain r m where rm: "remembered_approval_decision lib tid (ar_action request) (ar_params request) s = (Inr r, m)"
    and run: "(case r of
              Some Approved \<Rightarrow> request_and_decide env tid fresh turn_id request Approved
                  ''auto-approved by remembered decision'' GateApproved
            | Some Denied \<Rightarrow> request_and_decide env tid fresh turn_id request Denied
                  ''auto-denied by remembered decision'' (GateDenied True)
            | None \<Rightarrow>
                (case approval_policy of
                   AutoApprove \<Rightarrow> request_and_decide env tid fresh turn_id request Approved
                       ''auto-approved by policy'' GateApproved
                 | Manual \<Rightarrow> request_only env tid fresh turn_id request
                 | UnlessTrusted \<Rightarrow>
                     if trusted_command exec_policy request then
                       request_and_decide env tid fresh turn_id request Approved
                         ''auto-approved by policy (unless_trusted)'' GateApproved
                     else request_only env tid fresh turn_id request
                 | AutoDeny \<Rightarrow> request_and_decide env tid fresh turn_id request Denied
                       ''auto-denied by policy'' (GateDenied False))) m = (Inr g, s')"
    by (auto simp: gate_approval_with_deps_def act_bind_eq)
  have m: "m = s" using rm by (rule remembered_decision_same_state)
  note r = rm [unfolded m]
  show ?thesis
  proof (intro exI [of _ r] conjI impI r)
    show "case gate_verdict exec_policy approval_policy request r of
         None \<Rightarrow> request_only env tid fresh turn_id request s = (Inr g, s')
       | Some d \<Rightarrow> \<exists>reason.
           request_and_decide env tid fresh turn_id request d reason
             (if d = Approved then GateApproved
              else GateDenied (approval_requirement (ar_params request) = RequirePrompt \<and> r = Some Denied))
             s = (Inr g, s')"
      using run [unfolded m] RequirePrompt
      by (cases r; cases approval_policy; cases "the r") (auto simp: gate_verdict_def split: if_splits)
  qed
qed

lemma gate_with_id:
  "ar_approval_id request = Some i \<Longrightarrow>
   gate_approval_with_deps env lib exec_policy fresh tid turn_id approval_policy request s =
     act_bind (ensure_approval lib tid i (ar_action request) (ar_params request)) (\<lambda>_. act_return GateApproved) s"
  by (simp add: gate_approval_with_deps_def)

text \<open>
  C5: nothing runs unapproved. When the gate approves a request that names an approval, the
  log holds a request with that action and those parameters whose last decision approves it.
  Otherwise the request is not strict and either the newest remembered decision for its key
  approves it, or the policy approves everything, or it is a process start all of whose
  matching rules allow it and that some rule matches; and the approval is on record.
\<close>

theorem gate_approved_sound:
  assumes "gate_approval_with_deps env lib exec_policy fresh tid turn_id approval_policy request s =
    (Inr GateApproved, s')"
  shows "case ar_approval_id request of
      Some i \<Rightarrow> s' = s \<and> last_request (core (log_of s tid)) i = Some (ar_action request, ar_params request) \<and>
        last_decision (core (log_of s tid)) i = Some Approved
    | None \<Rightarrow> approval_requirement (ar_params request) = RequirePrompt \<and>
        ((\<exists>key. approval_rule_key lib (ar_action request) (ar_params request) = Inr key \<and>
            newest_remembered lib [] (map ev_kind (log_of s tid)) key Approved) \<or>
         approval_policy = AutoApprove \<or>
         approval_policy = UnlessTrusted \<and> ar_action request = ''process/start'' \<and>
           (let ms = matches_for_command exec_policy (command_argv (ar_params request)) None
            in ms \<noteq> [] \<and> (\<forall>m \<in> set ms. match_decision m = ExecAllow))) \<and>
        (\<exists>reason. core (log_of s' tid) = core (log_of s tid) @
           [requested_event env fresh turn_id request, ApprovalDecided fresh Approved False (Some reason)])"
proof (cases "ar_approval_id request")
  case (Some i)
  with assms have "ensure_approval lib tid i (ar_action request) (ar_params request) s = (Inr (), s')"
    by (auto simp: gate_with_id act_bind_eq act_return_def)
  with ensure_approval_outcome [OF this] Some show ?thesis by simp
next
  case None
  obtain r where r: "approval_requirement (ar_params request) = RequirePrompt \<longrightarrow>
        remembered_approval_decision lib tid (ar_action request) (ar_params request) s = (Inr r, s)"
    "case gate_verdict exec_policy approval_policy request r of
         None \<Rightarrow> request_only env tid fresh turn_id request s = (Inr GateApproved, s')
       | Some d \<Rightarrow> \<exists>reason.
           request_and_decide env tid fresh turn_id request d reason
             (if d = Approved then GateApproved
              else GateDenied (approval_requirement (ar_params request) = RequirePrompt \<and> r = Some Denied))
             s = (Inr GateApproved, s')"
    using gate_outcome [OF assms None] by blast
  have verdict: "gate_verdict exec_policy approval_policy request r = Some Approved"
    using r(2) by (auto dest: request_only_outcome(1) request_and_decide_outcome(1)
        split: option.splits if_splits)
  with r(2) have "\<exists>reason. core (log_of s' tid) = core (log_of s tid) @
      [requested_event env fresh turn_id request, ApprovalDecided fresh Approved False (Some reason)]"
    by (auto dest: request_and_decide_outcome(2))
  moreover have prompt: "approval_requirement (ar_params request) = RequirePrompt"
    using verdict by (cases "approval_requirement (ar_params request)") (auto simp: gate_verdict_def split: if_splits)
  moreover have "r = Some Approved \<or> approval_policy = AutoApprove \<or>
      approval_policy = UnlessTrusted \<and> trusted_command exec_policy request"
    using verdict prompt by (auto simp: gate_verdict_def split: if_splits)
  moreover obtain key where "approval_rule_key lib (ar_action request) (ar_params request) = Inr key"
    "\<forall>d. r = Some d \<longleftrightarrow> newest_remembered lib [] (map ev_kind (log_of s tid)) key d"
    using remembered_decision_spec [OF r(1) [THEN mp, OF prompt]] by blast
  ultimately show ?thesis
    using None unfolding trusted_command_iff by (auto simp: Let_def)
qed

lemma decide_keeps_requests:
  assumes "handle_approval_decide env lib p s = (Inr resp, s')"
  shows "last_request (core (log_of s' v)) = last_request (core (log_of s v))"
proof -
  have rec: "last_request (core (log_of s' v)) = last_request (core (log_of s v))"
    if "record_decision env tid (ApprovalDecided i d remember reason) s = (Inr e, s')"
    for tid i d remember reason s e s'
    using record_decision_outcome(2) [OF that] record_decision_last(2) [OF that]
    by (cases "v = tid") (simp_all add: log_of_def)
  from assms show ?thesis
  proof (cases rule: decide_cases)
    case (1 e)
    from rec [OF this(3) [unfolded decided_event_def]] show ?thesis .
  next
    case (2 child cid reason f e m)
    from rec [OF this(7) [unfolded decided_event_def]] rec [OF 2(6)] show ?thesis by simp
  qed
qed

lemma ensure_approval_eq:
  assumes "\<And>t. al_format lib t \<noteq> None" and "last_request (core (log_of s tid)) i = Some (action, params)"
  shows "ensure_approval lib tid i action expected s =
    ((if params \<noteq> expected then Inl (ApprovalParamsMismatch i)
      else case last_decision (core (log_of s tid)) i of
        Some Approved \<Rightarrow> Inr ()
      | Some Denied \<Rightarrow> Inl (ApprovalWasDenied i)
      | None \<Rightarrow> Inl (ApprovalNotDecided i)), s)"
proof -
  obtain es where es: "sv_logs s tid = Some es" "log_of s tid = es"
    using assms(2) by (cases "sv_logs s tid") (simp_all add: log_of_def core_def)
  obtain ix where ix: "index_from_events lib es = Inr ix"
    using index_from_events_total [OF assms(1)] by blast
  have "last_request (core es) i = map_option (\<lambda>r. (rq_action r, rq_params r)) (ix_requested ix i)"
    "last_decision (core es) i = map_option dr_decision (ix_decided ix i)"
    using index_from_events_agrees [OF ix] by (simp_all add: index_agrees_def)
  with assms(2) es ix show ?thesis
    by (auto simp: ensure_approval_def act_bind_def read_log_def act_lift_def act_fail_def act_return_def
        split: option.splits approval_decision.splits)
qed

text \<open>
  C34: asking, deciding and retrying. When the gate asked for an approval, the approval was
  decided, and the same call is retried with the approval, the gate follows the decision, but
  only if redaction leaves the parameters unchanged: the log holds the redacted parameters
  and the retry compares them with the original ones, so a request whose parameters hold
  anything that is redacted can never be carried out, however often it is approved.
\<close>

theorem ask_decide_retry:
  assumes "gate_approval_with_deps env lib exec_policy fresh tid turn_id approval_policy request s =
      (Inr (GateNeedsApproval i), s1)"
    and "ar_approval_id request = None"
    and "handle_approval_decide env lib p s1 = (Inr resp, s2)"
    and "dp_thread_id p = tid" and "dp_approval_id p = i"
    and "\<And>t. al_format lib t \<noteq> None"
  shows "gate_approval_with_deps env lib exec_policy fresh' tid turn_id' approval_policy'
      (request\<lparr>ar_approval_id := Some i\<rparr>) s2 =
    ((if redact_json_value (env_redact env) (ar_params request) \<noteq> ar_params request
      then Inl (ApprovalParamsMismatch i)
      else if dp_decision p = Approved then Inr GateApproved
      else Inl (ApprovalWasDenied i)), s2)"
proof -
  obtain r where "case gate_verdict exec_policy approval_policy request r of
         None \<Rightarrow> request_only env tid fresh turn_id request s = (Inr (GateNeedsApproval i), s1)
       | Some d \<Rightarrow> \<exists>reason.
           request_and_decide env tid fresh turn_id request d reason
             (if d = Approved then GateApproved
              else GateDenied (approval_requirement (ar_params request) = RequirePrompt \<and> r = Some Denied))
             s = (Inr (GateNeedsApproval i), s1)"
    using gate_outcome [OF assms(1,2)] by blast
  then have "request_only env tid fresh turn_id request s = (Inr (GateNeedsApproval i), s1)"
    by (auto dest: request_and_decide_outcome(1) split: option.splits if_splits)
  from request_only_outcome(1,2) [OF this]
  have "last_request (core (log_of s1 tid)) i =
      Some (ar_action request, redact_json_value (env_redact env) (ar_params request))"
    by (simp add: requested_event_def)
  with decide_keeps_requests [OF assms(3)]
  have req: "last_request (core (log_of s2 tid)) i =
      Some (ar_action request, redact_json_value (env_redact env) (ar_params request))" by simp
  have "last_decision (core (log_of s2 tid)) i = Some (dp_decision p)"
    using decided_counts [OF assms(3)] assms(4,5) by simp
  with ensure_approval_eq [OF assms(6) req, of "ar_params request"] show ?thesis
    by (cases "dp_decision p") (simp_all add: gate_with_id act_bind_def act_return_def)
qed

section \<open>Keys of remembered decisions\<close>

lemma approval_rule_key_head:
  assumes "approval_rule_key lib action params = Inr key" and "CHR ''|'' \<notin> set action"
  shows "takeWhile (\<lambda>c. c \<noteq> CHR ''|'') key = action"
proof -
  have head: "takeWhile (\<lambda>c. c \<noteq> CHR ''|'') (action @ CHR ''|'' # rest) = action" for rest
    using assms(2) by (induction action) auto
  from assms(1) obtain rest where "key = action @ CHR ''|'' # rest"
    by (auto simp: approval_rule_key_def rbind_eq_Inr split: if_splits)
  with head show ?thesis by simp
qed

lemma bool_text_suffix:
  assumes "xs @ bool_text b @ t = ys @ bool_text c @ u" and "length t = length u"
  shows "xs = ys \<and> b = c \<and> t = u"
proof -
  have split: "(xs @ bool_text b) @ t = (ys @ bool_text c) @ u" using assms(1) by simp
  then have eq: "xs @ bool_text b = ys @ bool_text c" "t = u"
    using assms(2) by (simp_all del: append_assoc)
  from arg_cong [OF eq(1), of rev] have "b = c"
    by (cases b; cases c) (simp_all add: bool_text_def)
  with eq show ?thesis by simp
qed

lemma edit_key:
  "approval_rule_key lib ''file/edit'' params = Inr key \<Longrightarrow>
     \<exists>x. key = ''file/edit|path='' @ str_field ''path'' params @ ''|edits_sha256='' @ al_sha256 lib x"
  by (auto simp: approval_rule_key_def rbind_eq_Inr fingerprint_value_def)

text \<open>
  Two requests share the key of a remembered decision only when they are the same action
  on the same path, with the same flags and the same fingerprint of the contents the key is
  given; other actions only share a key when their parameters have the same JSON text.
\<close>

theorem rule_key_separates:
  assumes "approval_rule_key lib action params = Inr key" and "approval_rule_key lib action' params' = Inr key"
    and "CHR ''|'' \<notin> set action" and "CHR ''|'' \<notin> set action'"
    and "\<And>x. length (al_sha256 lib x) = 64"
  shows "action = action' \<and>
    (if action \<in> {''file/write'', ''file/delete'', ''fs/mkdir'', ''file/edit'', ''file/patch''} then
       str_field ''path'' params = str_field ''path'' params' \<and>
       (action = ''file/write'' \<longrightarrow>
          al_sha256 lib (str_field ''text'' params) = al_sha256 lib (str_field ''text'' params') \<and>
          bool_field ''create_parent_dirs'' True params = bool_field ''create_parent_dirs'' True params') \<and>
       (action = ''file/delete'' \<or> action = ''fs/mkdir'' \<longrightarrow>
          bool_field ''recursive'' False params = bool_field ''recursive'' False params') \<and>
       (action = ''file/patch'' \<longrightarrow>
          al_sha256 lib (str_field ''patch'' params) = al_sha256 lib (str_field ''patch'' params'))
     else al_json_text lib params = al_json_text lib params')"
proof -
  have same: "action = action'"
    using approval_rule_key_head [OF assms(1,3)] approval_rule_key_head [OF assms(2,4)] by simp
  note keys = assms(1) assms(2) [folded same]
  note eq = trans [OF keys(1) keys(2) [symmetric]]
  consider (w) "action = ''file/write''" | (d) "action = ''file/delete''" | (m) "action = ''fs/mkdir''"
    | (e) "action = ''file/edit''" | (p) "action = ''file/patch''"
    | (o) "action \<notin> {''file/write'', ''file/delete'', ''fs/mkdir'', ''file/edit'', ''file/patch''}" by auto
  then show ?thesis
  proof cases
    case w
    from eq w have "(str_field ''path'' params @ ''|create_parent_dirs='') @
        bool_text (bool_field ''create_parent_dirs'' True params) @
        ''|text_sha256='' @ al_sha256 lib (str_field ''text'' params) =
      (str_field ''path'' params' @ ''|create_parent_dirs='') @
        bool_text (bool_field ''create_parent_dirs'' True params') @
        ''|text_sha256='' @ al_sha256 lib (str_field ''text'' params')"
      by (simp add: approval_rule_key_def)
    from bool_text_suffix [OF this] assms(5) show ?thesis unfolding same [symmetric] w by simp
  next
    case d
    from eq d have "(str_field ''path'' params @ ''|recursive='') @
        bool_text (bool_field ''recursive'' False params) @ [] =
      (str_field ''path'' params' @ ''|recursive='') @ bool_text (bool_field ''recursive'' False params') @ []"
      by (simp add: approval_rule_key_def)
    from bool_text_suffix [OF this] show ?thesis unfolding same [symmetric] d by simp
  next
    case m
    from eq m have "(str_field ''path'' params @ ''|recursive='') @
        bool_text (bool_field ''recursive'' False params) @ [] =
      (str_field ''path'' params' @ ''|recursive='') @ bool_text (bool_field ''recursive'' False params') @ []"
      by (simp add: approval_rule_key_def)
    from bool_text_suffix [OF this] show ?thesis unfolding same [symmetric] m by simp
  next
    case e
    obtain x y where "key = ''file/edit|path='' @ str_field ''path'' params @ ''|edits_sha256='' @ al_sha256 lib x"
      "key = ''file/edit|path='' @ str_field ''path'' params' @ ''|edits_sha256='' @ al_sha256 lib y"
      using edit_key keys unfolding e by blast
    then have "''file/edit|path='' @ (str_field ''path'' params @ ''|edits_sha256='') @ al_sha256 lib x =
       ''file/edit|path='' @ (str_field ''path'' params' @ ''|edits_sha256='') @ al_sha256 lib y" by simp
    then have "(str_field ''path'' params @ ''|edits_sha256='') @ al_sha256 lib x =
       (str_field ''path'' params' @ ''|edits_sha256='') @ al_sha256 lib y"
      unfolding append_same_eq same_append_eq .
    then have "str_field ''path'' params @ ''|edits_sha256='' = str_field ''path'' params' @ ''|edits_sha256=''"
      using assms(5) by (simp del: append_assoc)
    then show ?thesis unfolding same [symmetric] e by simp
  next
    case p
    from eq p have
      "(str_field ''path'' params @ ''|patch_sha256='') @ al_sha256 lib (str_field ''patch'' params) =
       (str_field ''path'' params' @ ''|patch_sha256='') @ al_sha256 lib (str_field ''patch'' params')"
      by (simp add: approval_rule_key_def)
    then have "str_field ''path'' params @ ''|patch_sha256='' = str_field ''path'' params' @ ''|patch_sha256='' \<and>
        al_sha256 lib (str_field ''patch'' params) = al_sha256 lib (str_field ''patch'' params')"
      using assms(5) by (simp del: append_assoc)
    then show ?thesis unfolding same [symmetric] p by simp
  next
    case o
    with keys same show ?thesis
      by (auto simp: approval_rule_key_def rbind_eq_Inr json_text_def split: option.splits)
  qed
qed

section \<open>Deciding succeeds\<close>

lemma resolve_pending_succeeds:
  assumes "\<And>t. al_format lib t \<noteq> None" and "sv_logs s tid = Some es" and "pending (core es) i"
  shows "resolve_pending_approval_proxy lib tid i s = (Inr (last_proxy lib i es None), s)"
    "ensure_pending_approval lib tid i s = (Inr (), s)"
proof -
  obtain ix where ix: "index_from_events lib es = Inr ix"
    using index_from_events_total [OF assms(1)] by blast
  from index_from_events_agrees [OF ix] assms(3) have "ensure_pending ix i = Inr ()"
    by (simp add: ensure_pending_iff)
  with ix assms(2) show "resolve_pending_approval_proxy lib tid i s = (Inr (last_proxy lib i es None), s)"
    "ensure_pending_approval lib tid i s = (Inr (), s)"
    by (simp_all add: resolve_pending_approval_proxy_def ensure_pending_approval_def act_bind_def
        read_log_def act_lift_def act_return_def)
qed

lemma record_decision_succeeds:
  assumes "env_writes env" and "server_ok s" and "sv_logs s tid \<noteq> None"
  obtains e s' where "record_decision env tid (ApprovalDecided i d remember reason) s = (Inr e, s')"
    "server_ok s'" "\<And>v. sv_logs s v \<noteq> None \<Longrightarrow> sv_logs s' v \<noteq> None"
proof -
  obtain m where m: "get_or_load_thread env tid s = (Inr (), m)" "server_ok m"
    "\<forall>v. sv_logs s v \<noteq> None \<longrightarrow> sv_logs m v \<noteq> None"
    using load_succeeds [OF assms] by blast
  from m(3) assms(3) have "sv_logs m tid \<noteq> None" by blast
  then obtain e s' where s': "rt_append_event env tid (ApprovalDecided i d remember reason) m = (Inr e, s')"
    "server_ok s'" "sv_logs s' tid \<noteq> None"
    by (rule harmless_append_succeeds [OF assms(1) m(2)]) auto
  have "record_decision env tid (ApprovalDecided i d remember reason) s = (Inr e, s')"
    using m(1) s'(1) by (simp add: record_decision_def act_bind_def)
  moreover have "sv_logs s' v \<noteq> None" if "sv_logs s v \<noteq> None" for v
    using that m(3) s'(3) append_decision_outcome(2) [OF s'(1), of v] by (cases "v = tid") auto
  ultimately show ?thesis using s'(2) that by blast
qed

lemma decide_eq:
  assumes "\<And>t. al_format lib t \<noteq> None" and "sv_logs s (dp_thread_id p) = Some es"
    and "pending (core es) (dp_approval_id p)"
  shows "last_proxy lib (dp_approval_id p) es None = None \<Longrightarrow>
      record_decision env (dp_thread_id p) (decided_event p) s = (Inr e, s') \<Longrightarrow>
      handle_approval_decide env lib p s =
        (Inr \<lparr>dc_forwarded = False, dc_child_thread_id = None, dc_child_approval_id = None\<rparr>, s')"
    "last_proxy lib (dp_approval_id p) es None = Some px \<Longrightarrow>
      pending (core (log_of s (px_child_thread_id px))) (px_child_approval_id px) \<Longrightarrow>
      sv_logs s (px_child_thread_id px) \<noteq> None \<Longrightarrow>
      record_decision env (px_child_thread_id px) (ApprovalDecided (px_child_approval_id px) (dp_decision p)
        (dp_remember p) (Some (decorate_subagent_proxy_forwarded_reason (dp_reason p)))) s = (Inr f, m) \<Longrightarrow>
      record_decision env (dp_thread_id p) (decided_event p) m = (Inr e, s') \<Longrightarrow>
      \<exists>resp. handle_approval_decide env lib p s = (Inr resp, s')"
proof -
  note resolved = resolve_pending_succeeds(1) [OF assms]
  show "last_proxy lib (dp_approval_id p) es None = None \<Longrightarrow>
      record_decision env (dp_thread_id p) (decided_event p) s = (Inr e, s') \<Longrightarrow>
      handle_approval_decide env lib p s =
        (Inr \<lparr>dc_forwarded = False, dc_child_thread_id = None, dc_child_approval_id = None\<rparr>, s')"
    using resolved by (auto simp: handle_approval_decide_def record_decision_def act_bind_def act_return_def
        split: prod.splits sum.splits)
  show "last_proxy lib (dp_approval_id p) es None = Some px \<Longrightarrow>
      pending (core (log_of s (px_child_thread_id px))) (px_child_approval_id px) \<Longrightarrow>
      sv_logs s (px_child_thread_id px) \<noteq> None \<Longrightarrow>
      record_decision env (px_child_thread_id px) (ApprovalDecided (px_child_approval_id px) (dp_decision p)
        (dp_remember p) (Some (decorate_subagent_proxy_forwarded_reason (dp_reason p)))) s = (Inr f, m) \<Longrightarrow>
      record_decision env (dp_thread_id p) (decided_event p) m = (Inr e, s') \<Longrightarrow>
      \<exists>resp. handle_approval_decide env lib p s = (Inr resp, s')"
  proof -
    assume px: "last_proxy lib (dp_approval_id p) es None = Some px"
      "pending (core (log_of s (px_child_thread_id px))) (px_child_approval_id px)"
      "sv_logs s (px_child_thread_id px) \<noteq> None"
      and rec: "record_decision env (px_child_thread_id px) (ApprovalDecided (px_child_approval_id px) (dp_decision p)
        (dp_remember p) (Some (decorate_subagent_proxy_forwarded_reason (dp_reason p)))) s = (Inr f, m)"
      "record_decision env (dp_thread_id p) (decided_event p) m = (Inr e, s')"
    from px(3) obtain fs where fs: "sv_logs s (px_child_thread_id px) = Some fs" by blast
    with px(2) have "ensure_pending_approval lib (px_child_thread_id px) (px_child_approval_id px) s = (Inr (), s)"
      using resolve_pending_succeeds(2) [OF assms(1) fs] by (simp add: log_of_def)
    with resolved px(1) rec show ?thesis
      by (auto simp: handle_approval_decide_def record_decision_def act_bind_def act_return_def
        split: prod.splits sum.splits)
  qed
qed

lemma decide_progress:
  assumes "env_writes env" and "server_ok s" and "\<And>t. al_format lib t \<noteq> None"
    and "pending (core (log_of s (dp_thread_id p))) (dp_approval_id p)"
    and "case last_proxy lib (dp_approval_id p) (log_of s (dp_thread_id p)) None of
      None \<Rightarrow> True
    | Some px \<Rightarrow> pending (core (log_of s (px_child_thread_id px))) (px_child_approval_id px)"
  shows "\<exists>resp s'. handle_approval_decide env lib p s = (Inr resp, s') \<and> server_ok s'"
proof -
  have log: "pending (core (log_of s v)) i \<Longrightarrow> sv_logs s v = Some (log_of s v)" for v i
    by (cases "sv_logs s v") (simp_all add: log_of_def core_def pending_def)
  note es = log [OF assms(4)]
  show ?thesis
  proof (cases "last_proxy lib (dp_approval_id p) (log_of s (dp_thread_id p)) None")
    case None
    obtain e s' where "record_decision env (dp_thread_id p) (decided_event p) s = (Inr e, s')" "server_ok s'"
      unfolding decided_event_def
      by (rule record_decision_succeeds [OF assms(1,2)]) (use es in simp, blast)
    with decide_eq(1) [OF assms(3) es assms(4) None this(1)] show ?thesis by blast
  next
    case (Some px)
    with assms(5) have child: "pending (core (log_of s (px_child_thread_id px))) (px_child_approval_id px)" by simp
    note present = log [OF child]
    obtain f m where m: "record_decision env (px_child_thread_id px) (ApprovalDecided (px_child_approval_id px)
        (dp_decision p) (dp_remember p) (Some (decorate_subagent_proxy_forwarded_reason (dp_reason p)))) s = (Inr f, m)"
      "server_ok m" "\<And>v. sv_logs s v \<noteq> None \<Longrightarrow> sv_logs m v \<noteq> None"
      by (rule record_decision_succeeds [OF assms(1,2), where tid = "px_child_thread_id px"
            and i = "px_child_approval_id px" and d = "dp_decision p" and remember = "dp_remember p"
            and reason = "Some (decorate_subagent_proxy_forwarded_reason (dp_reason p))"])
        (use present in simp, blast)
    have "sv_logs m (dp_thread_id p) \<noteq> None" using m(3) es by simp
    then obtain e s' where "record_decision env (dp_thread_id p) (decided_event p) m = (Inr e, s')" "server_ok s'"
      unfolding decided_event_def by (rule record_decision_succeeds [OF assms(1) m(2)]) blast
    with decide_eq(2) [OF assms(3) es assms(4) Some child _ m(1)] present show ?thesis by fastforce
  qed
qed

text \<open>
  A pending request can always be decided: when no write fails and the timestamps can be
  printed, deciding it succeeds, whether or not the thread is loaded and whatever recovery its
  loading needs; for a request that stands for a subagent's, the subagent's must be pending.
\<close>

theorem decide_succeeds:
  assumes "env_writes env" and "server_ok s" and "\<And>t. al_format lib t \<noteq> None"
    and "pending (core (log_of s (dp_thread_id p))) (dp_approval_id p)"
    and "case last_proxy lib (dp_approval_id p) (log_of s (dp_thread_id p)) None of
      None \<Rightarrow> True
    | Some px \<Rightarrow> pending (core (log_of s (px_child_thread_id px))) (px_child_approval_id px)"
  shows "\<exists>resp s'. handle_approval_decide env lib p s = (Inr resp, s') \<and> server_ok s'"
  using assms by (rule decide_progress)

section \<open>Witnesses\<close>

definition sample_lib :: approval_lib where
  "sample_lib = \<lparr>al_format = (\<lambda>_. Some []), al_parse_thread = (\<lambda>_. None), al_parse_turn = (\<lambda>_. None),
     al_parse_approval = (\<lambda>_. None), al_process_of_json = (\<lambda>_. None), al_show_thread = (\<lambda>_. []),
     al_show_approval = (\<lambda>_. []), al_json_text = (\<lambda>_. Some []), al_sha256 = (\<lambda>_. replicate 64 (CHR ''0''))\<rparr>"

definition sample_decide :: approval_decide_params where
  "sample_decide = \<lparr>dp_thread_id = sample_thread, dp_approval_id = ApprovalId 5, dp_decision = Approved,
     dp_remember = True, dp_reason = None\<rparr>"

lemma sample_pending: "pending (core (log_of sample_server sample_thread)) (ApprovalId 5)"
  by (simp add: sample_server_def log_of_def core_def sample_event_def pending_def)

lemma sample_writes: "env_writes sample_env"
  by (simp add: env_writes_def sample_env_def)

lemma sample_no_proxy:
  "last_proxy sample_lib (ApprovalId 5) (log_of sample_server sample_thread) None = None"
  by (simp add: sample_server_def log_of_def sample_event_def parse_subagent_approval_proxy_def json_get_def)

theorem decide_succeeds_witness:
  "\<exists>resp s'. handle_approval_decide sample_env sample_lib sample_decide sample_server = (Inr resp, s') \<and> server_ok s'"
proof (rule decide_succeeds)
  show "env_writes sample_env" "server_ok sample_server" by (rule sample_writes sample_server_ok)+
  show "al_format sample_lib t \<noteq> None" for t by (simp add: sample_lib_def)
  show "pending (core (log_of sample_server (dp_thread_id sample_decide))) (dp_approval_id sample_decide)"
    using sample_pending by (simp add: sample_decide_def)
  show "case last_proxy sample_lib (dp_approval_id sample_decide) (log_of sample_server (dp_thread_id sample_decide)) None of
      None \<Rightarrow> True
    | Some px \<Rightarrow> pending (core (log_of sample_server (px_child_thread_id px))) (px_child_approval_id px)"
    using sample_no_proxy by (simp add: sample_decide_def)
qed

lemma sample_decided:
  obtains s' where "handle_approval_decide sample_env sample_lib sample_decide sample_server =
    (Inr \<lparr>dc_forwarded = False, dc_child_thread_id = None, dc_child_approval_id = None\<rparr>, s')" "server_ok s'"
proof -
  have log: "sv_logs sample_server (dp_thread_id sample_decide) = Some (log_of sample_server sample_thread)"
    by (simp add: sample_decide_def sample_server_def log_of_def)
  obtain e s' where s': "record_decision sample_env (dp_thread_id sample_decide) (decided_event sample_decide) sample_server = (Inr e, s')"
    "server_ok s'"
    unfolding decided_event_def
    by (rule record_decision_succeeds [OF sample_writes sample_server_ok]) (use log in simp, blast)
  have "handle_approval_decide sample_env sample_lib sample_decide sample_server =
      (Inr \<lparr>dc_forwarded = False, dc_child_thread_id = None, dc_child_approval_id = None\<rparr>, s')"
    by (rule decide_eq(1) [OF _ log _ _ s'(1)])
      (use sample_pending sample_no_proxy in \<open>simp_all add: sample_lib_def sample_decide_def\<close>)
  with s'(2) that show ?thesis by blast
qed


theorem decide_after_restart_decides_twice_witness:
  "\<exists>s' xs ys. core (log_of s' sample_thread) =
     xs @ recovered_denial sample_env (ApprovalId 5) # ys @ [ApprovalDecided (ApprovalId 5) Approved True None]"
proof -
  obtain s' where s': "handle_approval_decide sample_env sample_lib sample_decide sample_server =
    (Inr \<lparr>dc_forwarded = False, dc_child_thread_id = None, dc_child_approval_id = None\<rparr>, s')" "server_ok s'"
    by (rule sample_decided)
  from decide_after_restart_decides_twice [OF s'(1)] show ?thesis
    by (auto simp: sample_decide_def sample_server_def decided_event_def)
qed

definition sample_request :: approval_request where
  "sample_request = \<lparr>ar_approval_id = None, ar_action = ''fs/mkdir'', ar_params = JNull\<rparr>"

lemma sample_remembered:
  "remembered_approval_decision sample_lib sample_thread ''fs/mkdir'' JNull sample_server = (Inr None, sample_server)"
  by (simp add: remembered_approval_decision_def act_bind_def act_lift_def act_return_def read_log_def
      sample_server_def sample_event_def approval_rule_key_def)

theorem remembered_decision_correct_witness:
  "\<forall>d. \<not> newest_remembered sample_lib [] (map ev_kind (log_of sample_server sample_thread)) ''fs/mkdir|path=|recursive=false'' d"
  using remembered_decision_correct [OF sample_remembered]
  by (simp add: approval_rule_key_def str_field_def bool_field_def bool_text_def json_get_def)

lemma sample_requirement: "approval_requirement JNull = RequirePrompt"
  by (simp add: approval_requirement_def json_get_def)

lemma harmless_kinds: "harmless (ApprovalRequested i turn action params)" "harmless (ApprovalDecided i d remember reason)"
  by simp_all

lemma request_and_decide_succeeds:
  assumes "env_writes env" and "server_ok s" and "sv_logs s tid \<noteq> None"
  obtains s' where "request_and_decide env tid fresh turn request d reason gate s = (Inr gate, s')"
proof -
  obtain e m where m: "rt_append_event env tid (ApprovalRequested fresh turn (ar_action request) (ar_params request)) s = (Inr e, m)"
    "server_ok m" "sv_logs m tid \<noteq> None"
    using harmless_append_succeeds [OF assms harmless_kinds(1)] by metis
  obtain f s' where "rt_append_event env tid (ApprovalDecided fresh d False (Some reason)) m = (Inr f, s')"
    using harmless_append_succeeds [OF assms(1) m(2,3) harmless_kinds(2)] by metis
  with m(1) that show ?thesis
    by (simp add: request_and_decide_def request_approval_def act_bind_def act_return_def)
qed

lemma request_only_succeeds:
  assumes "env_writes env" and "server_ok s" and "sv_logs s tid \<noteq> None"
  obtains s' where "request_only env tid fresh turn request s = (Inr (GateNeedsApproval fresh), s')" "server_ok s'"
proof -
  obtain e m where m: "rt_append_event env tid (ApprovalRequested fresh turn (ar_action request) (ar_params request)) s = (Inr e, m)"
    "server_ok m" "sv_logs m tid \<noteq> None"
    using harmless_append_succeeds [OF assms harmless_kinds(1)] by metis
  with that show ?thesis
    by (simp add: request_only_def request_approval_def act_bind_def act_return_def)
qed

lemma sample_present: "sv_logs sample_server sample_thread \<noteq> None"
  by (simp add: sample_server_def)

theorem gate_approved_sound_witness:
  "\<exists>s' reason. core (log_of s' sample_thread) = core (log_of sample_server sample_thread) @
     [requested_event sample_env (ApprovalId 9) None sample_request, ApprovalDecided (ApprovalId 9) Approved False (Some reason)]"
proof -
  obtain s' where "request_and_decide sample_env sample_thread (ApprovalId 9) None sample_request Approved
      ''auto-approved by policy'' GateApproved sample_server = (Inr GateApproved, s')"
    using request_and_decide_succeeds [OF sample_writes sample_server_ok sample_present] by metis
  then have "gate_approval_with_deps sample_env sample_lib empty_policy (ApprovalId 9) sample_thread None AutoApprove
      sample_request sample_server = (Inr GateApproved, s')"
    using sample_remembered sample_requirement
    by (simp add: gate_approval_with_deps_def sample_request_def act_bind_def)
  from gate_approved_sound [OF this] show ?thesis by (auto simp: sample_request_def)
qed

theorem ask_decide_retry_witness:
  "\<exists>s2. gate_approval_with_deps sample_env sample_lib empty_policy (ApprovalId 10) sample_thread None Manual
     (sample_request\<lparr>ar_approval_id := Some (ApprovalId 9)\<rparr>) s2 = (Inr GateApproved, s2)"
proof -
  obtain s1 where s1: "request_only sample_env sample_thread (ApprovalId 9) None sample_request sample_server =
      (Inr (GateNeedsApproval (ApprovalId 9)), s1)" "server_ok s1"
    by (rule request_only_succeeds [OF sample_writes sample_server_ok sample_present])
  then have ask: "gate_approval_with_deps sample_env sample_lib empty_policy (ApprovalId 9) sample_thread None Manual
      sample_request sample_server = (Inr (GateNeedsApproval (ApprovalId 9)), s1)"
    using sample_remembered sample_requirement
    by (simp add: gate_approval_with_deps_def sample_request_def act_bind_def)
  let ?p = "sample_decide\<lparr>dp_approval_id := ApprovalId 9\<rparr>"
  have core: "core (log_of s1 sample_thread) = core (log_of sample_server sample_thread) @
      [requested_event sample_env (ApprovalId 9) None sample_request]"
    by (rule request_only_outcome(2) [OF s1(1)])
  have pend: "pending (core (log_of s1 sample_thread)) (ApprovalId 9)"
    unfolding core
    by (simp add: pending_def requested_event_def sample_server_def log_of_def core_def sample_event_def)
  then have log: "sv_logs s1 (dp_thread_id ?p) = Some (log_of s1 sample_thread)"
    by (cases "sv_logs s1 sample_thread") (simp_all add: log_of_def core_def pending_def sample_decide_def)
  have "last_proxy sample_lib i (log_of s1 sample_thread) None = None" for i
  proof -
    have "parse_subagent_approval_proxy sample_lib v = None" for v
      by (auto simp: parse_subagent_approval_proxy_def sample_lib_def split: option.split)
    then have "last_proxy sample_lib i es None = None" for es
      by (induction es) (auto split: thread_event_kind.split)
    then show ?thesis .
  qed
  note proxy = this
  have format: "al_format sample_lib t \<noteq> None" for t by (simp add: sample_lib_def)
  have "\<exists>resp s2. handle_approval_decide sample_env sample_lib ?p s1 = (Inr resp, s2) \<and> server_ok s2"
    by (rule decide_progress [OF sample_writes s1(2) format])
      (use pend proxy in \<open>simp_all add: sample_decide_def\<close>)
  then obtain resp s2 where s2: "handle_approval_decide sample_env sample_lib ?p s1 = (Inr resp, s2)" by blast
  have "gate_approval_with_deps sample_env sample_lib empty_policy (ApprovalId 10) sample_thread None Manual
      (sample_request\<lparr>ar_approval_id := Some (ApprovalId 9)\<rparr>) s2 = (Inr GateApproved, s2)"
    using ask_decide_retry [OF ask _ s2]
    by (simp add: sample_request_def sample_decide_def sample_lib_def)
  then show ?thesis ..
qed

theorem rule_key_separates_witness:
  "str_field ''path'' JNull = str_field ''path'' (JBool True)"
proof -
  have "approval_rule_key sample_lib ''fs/mkdir'' (JBool True) = approval_rule_key sample_lib ''fs/mkdir'' JNull"
    by (simp add: approval_rule_key_def str_field_def bool_field_def json_get_def)
  then obtain key where "approval_rule_key sample_lib ''fs/mkdir'' JNull = Inr key"
    "approval_rule_key sample_lib ''fs/mkdir'' (JBool True) = Inr key"
    by (simp add: approval_rule_key_def)
  from rule_key_separates [OF this] show ?thesis by (simp add: sample_lib_def)
qed

end
