(* ===== verification/ApprovalList.thy ===== *)
theory ApprovalList
  imports Approval
begin

text \<open>
  Listing approvals: \<open>handle_approval_list\<close> of \<open>crates/app-server/src/main/approval.rs\<close> and the
  summaries of \<open>crates/app-server/src/main/thread_observe/attention_and_subscribe.rs\<close>.
\<close>

section \<open>Action identifiers\<close>

datatype thread_approval_action_id =
    ActArtifactWrite | ActArtifactList | ActArtifactRead | ActArtifactVersions | ActArtifactDelete
  | ActFileRead | ActFileWrite | ActFileEdit | ActFilePatch | ActFileDelete | ActFileGlob | ActFileGrep
  | ActFsMkdir
  | ActProcessStart | ActProcessKill | ActProcessInterrupt | ActProcessTail | ActProcessFollow
  | ActProcessInspect | ActProcessExecve
  | ActRepoSearch | ActRepoIndex | ActRepoSymbols | ActRepoGotoDefinition | ActRepoFindReferences
  | ActMcpListServers | ActMcpListTools | ActMcpListResources | ActMcpCall
  | ActThreadCheckpointRestore | ActSubagentProxyApproval | ActUnknown

definition action_ids :: "(string \<times> thread_approval_action_id) list" where
  "action_ids =
    [(''artifact/write'', ActArtifactWrite),
     (''artifact/list'', ActArtifactList),
     (''artifact/read'', ActArtifactRead),
     (''artifact/versions'', ActArtifactVersions),
     (''artifact/delete'', ActArtifactDelete),
     (''file/read'', ActFileRead),
     (''file/write'', ActFileWrite),
     (''file/edit'', ActFileEdit),
     (''file/patch'', ActFilePatch),
     (''file/delete'', ActFileDelete),
     (''file/glob'', ActFileGlob),
     (''file/grep'', ActFileGrep),
     (''fs/mkdir'', ActFsMkdir),
     (''process/start'', ActProcessStart),
     (''process/kill'', ActProcessKill),
     (''process/interrupt'', ActProcessInterrupt),
     (''process/tail'', ActProcessTail),
     (''process/follow'', ActProcessFollow),
     (''process/inspect'', ActProcessInspect),
     (''process/execve'', ActProcessExecve),
     (''repo/search'', ActRepoSearch),
     (''repo/index'', ActRepoIndex),
     (''repo/symbols'', ActRepoSymbols),
     (''repo/goto_definition'', ActRepoGotoDefinition),
     (''repo/find_references'', ActRepoFindReferences),
     (''mcp/list_servers'', ActMcpListServers),
     (''mcp/list_tools'', ActMcpListTools),
     (''mcp/list_resources'', ActMcpListResources),
     (''mcp/call'', ActMcpCall),
     (''thread/checkpoint/restore'', ActThreadCheckpointRestore),
     (''subagent/proxy_approval'', ActSubagentProxyApproval)]"

definition parse_thread_approval_action_id :: "string \<Rightarrow> thread_approval_action_id" where
  "parse_thread_approval_action_id action =
     (case map_of action_ids action of Some i \<Rightarrow> i | None \<Rightarrow> ActUnknown)"

section \<open>Summaries\<close>

record pending_approval_summary =
  ps_requirement :: "string option"
  ps_argv :: "string list option"
  ps_cwd :: "string option"
  ps_process_id :: "process_id option"
  ps_artifact_type :: "string option"
  ps_path :: "string option"
  ps_server :: "string option"
  ps_tool :: "string option"
  ps_hook :: "string option"
  ps_child_thread_id :: "thread_id option"
  ps_child_turn_id :: "turn_id option"
  ps_child_approval_id :: "approval_id option"
  ps_child_attention_state :: "string option"
  ps_child_last_turn_status :: "turn_status option"
  ps_approve_cmd :: "string option"
  ps_deny_cmd :: "string option"

definition empty_summary :: pending_approval_summary where
  "empty_summary =
     \<lparr>ps_requirement = None, ps_argv = None, ps_cwd = None, ps_process_id = None,
      ps_artifact_type = None, ps_path = None, ps_server = None, ps_tool = None, ps_hook = None,
      ps_child_thread_id = None, ps_child_turn_id = None, ps_child_approval_id = None,
      ps_child_attention_state = None, ps_child_last_turn_status = None,
      ps_approve_cmd = None, ps_deny_cmd = None\<rparr>"

definition get_str :: "string \<Rightarrow> (string \<times> json) list \<Rightarrow> string option" where
  "get_str k m = Option.bind (map_of m k) as_str"

definition or_else :: "'a option \<Rightarrow> 'a option \<Rightarrow> 'a option" where
  "or_else a b = (case a of Some x \<Rightarrow> Some x | None \<Rightarrow> b)"

definition summarize_pending_approval_with_context ::
  "approval_lib \<Rightarrow> thread_id option \<Rightarrow> approval_id option \<Rightarrow> string option \<Rightarrow> json \<Rightarrow>
     pending_approval_summary option" where
  "summarize_pending_approval_with_context lib tid approval_id action params =
     (case as_object params of
        None \<Rightarrow> None
      | Some obj \<Rightarrow>
          let child_request = Option.bind (map_of obj ''child_request'') as_object;
              child_params = Option.bind (Option.bind child_request (\<lambda>child. map_of child ''params'')) as_object;
              proxy = Option.bind (map_of obj ''subagent_proxy'') as_object;
              source = (case child_params of Some m \<Rightarrow> m | None \<Rightarrow> obj);
              argv = Option.bind (map_option (List.map_filter as_str)
                        (Option.bind (map_of source ''argv'') as_array))
                      (\<lambda>values. if values = [] then None else Some values);
              approve_cmd = (case (tid, approval_id, action) of
                  (Some tid, Some approval_id, Some action) \<Rightarrow>
                    if action = ''subagent/proxy_approval'' then
                      Some (''omne approval decide '' @ al_show_thread lib tid @ '' '' @
                            al_show_approval lib approval_id @ '' --approve'')
                    else None
                | _ \<Rightarrow> None);
              deny_cmd = map_option (\<lambda>base. base @ '' --deny'')
                (Option.bind approve_cmd (strip_suffix '' --approve''));
              summary =
                \<lparr>ps_requirement = Option.bind (Option.bind (map_of source ''approval'')
                                    (json_get ''requirement'')) as_str,
                 ps_argv = argv,
                 ps_cwd = get_str ''cwd'' source,
                 ps_process_id = Option.bind (map_of source ''process_id'') (al_process_of_json lib),
                 ps_artifact_type = get_str ''artifact_type'' source,
                 ps_path = Option.bind (or_else (map_of source ''path'') (map_of source ''target_path'')) as_str,
                 ps_server = get_str ''server'' source,
                 ps_tool = Option.bind (or_else (map_of source ''tool'')
                             (Option.bind child_request (\<lambda>child. map_of child ''action''))) as_str,
                 ps_hook = get_str ''hook'' source,
                 ps_child_thread_id = Option.bind (Option.bind proxy (get_str ''child_thread_id'')) (al_parse_thread lib),
                 ps_child_turn_id = Option.bind (Option.bind proxy (get_str ''child_turn_id'')) (al_parse_turn lib),
                 ps_child_approval_id = Option.bind (Option.bind proxy (get_str ''child_approval_id''))
                                          (al_parse_approval lib),
                 ps_child_attention_state = None, ps_child_last_turn_status = None,
                 ps_approve_cmd = approve_cmd, ps_deny_cmd = deny_cmd\<rparr>
          in if summary = empty_summary then None else Some summary)"

definition summarize_pending_approval :: "approval_lib \<Rightarrow> json \<Rightarrow> pending_approval_summary option" where
  "summarize_pending_approval lib params = summarize_pending_approval_with_context lib None None None params"

section \<open>The list\<close>

record approval_request_info =
  ri_approval_id :: approval_id
  ri_turn_id :: "turn_id option"
  ri_action :: string
  ri_action_id :: thread_approval_action_id
  ri_params :: json
  ri_summary :: "pending_approval_summary option"
  ri_requested_at :: string

record approval_list_item =
  li_request :: approval_request_info
  li_decision :: "approval_decision_record option"

definition request_info :: "approval_lib \<Rightarrow> approval_id \<Rightarrow> approval_request_record \<Rightarrow> approval_request_info" where
  "request_info lib i req =
     \<lparr>ri_approval_id = i, ri_turn_id = rq_turn_id req, ri_action = rq_action req,
      ri_action_id = parse_thread_approval_action_id (rq_action req), ri_params = rq_params req,
      ri_summary = summarize_pending_approval lib (rq_params req),
      ri_requested_at = rq_requested_at req\<rparr>"

fun list_items ::
  "approval_lib \<Rightarrow> bool \<Rightarrow> approval_event_index \<Rightarrow> approval_id list \<Rightarrow> approval_list_item list" where
  "list_items lib include_decided ix [] = []"
| "list_items lib include_decided ix (i # ids) =
     (case ix_requested ix i of
        None \<Rightarrow> []
      | Some req \<Rightarrow>
          (case ix_decided ix i of
             Some decision \<Rightarrow>
               if include_decided then [\<lparr>li_request = request_info lib i req, li_decision = Some decision\<rparr>]
               else []
           | None \<Rightarrow> [\<lparr>li_request = request_info lib i req, li_decision = None\<rparr>])) @
     list_items lib include_decided ix ids"

text \<open>The map of requests is sorted by approval.\<close>

definition handle_approval_list ::
  "approval_lib \<Rightarrow> thread_id \<Rightarrow> bool \<Rightarrow> approval_list_item list action" where
  "handle_approval_list lib tid include_decided =
     act_bind (read_log tid) (\<lambda>events.
     act_bind (act_lift (index_from_events lib events)) (\<lambda>ix.
     act_return (list_items lib include_decided ix (sorted_list_of_set (dom (ix_requested ix))))))"

lemma request_info_id [simp]: "ri_approval_id (request_info lib i req) = i"
  by (simp add: request_info_def)

lemma list_items_ids:
  "map (ri_approval_id \<circ> li_request) (list_items lib include_decided ix ids) =
     filter (\<lambda>i. ix_requested ix i \<noteq> None \<and> (include_decided \<or> ix_decided ix i = None)) ids"
  by (induction ids) (auto split: option.split)

lemma list_items_elem:
  assumes "item \<in> set (list_items lib include_decided ix ids)"
  shows "\<exists>i req. ix_requested ix i = Some req \<and> li_request item = request_info lib i req \<and>
    li_decision item = ix_decided ix i"
  using assms
proof (induction ids)
  case (Cons i ids)
  then consider "item \<in> set (list_items lib include_decided ix ids)"
    | req where "ix_requested ix i = Some req"
      "item = \<lparr>li_request = request_info lib i req, li_decision = ix_decided ix i\<rparr>"
    by (cases "ix_requested ix i"; cases "ix_decided ix i") (auto split: if_splits)
  then show ?case using Cons.IH by cases auto
qed simp

lemma finite_requested:
  assumes "index_agrees ix ks"
  shows "finite (dom (ix_requested ix))"
proof -
  have "dom (ix_requested ix) = dom (last_request ks)"
    using assms by (auto simp: index_agrees_def dom_def) (metis map_option_eq_Some)+
  then show ?thesis by (simp add: last_request_def finite_dom_map_of)
qed

text \<open>
  The list holds each requested approval once, in the order of the identifiers, without
  the decided ones unless they are asked for; each item shows the action and the parameters
  of the last request and the decision that counts.
\<close>

theorem approval_list_correct:
  assumes "handle_approval_list lib tid include_decided s = (Inr items, s')"
  shows "s' = s \<and> sorted (map (ri_approval_id \<circ> li_request) items) \<and>
    distinct (map (ri_approval_id \<circ> li_request) items) \<and>
    (\<forall>i. i \<in> set (map (ri_approval_id \<circ> li_request) items) \<longleftrightarrow>
       last_request (core (log_of s tid)) i \<noteq> None \<and>
       (include_decided \<or> last_decision (core (log_of s tid)) i = None)) \<and>
    (\<forall>item \<in> set items. last_request (core (log_of s tid)) (ri_approval_id (li_request item)) =
         Some (ri_action (li_request item), ri_params (li_request item)) \<and>
       map_option dr_decision (li_decision item) =
         last_decision (core (log_of s tid)) (ri_approval_id (li_request item)))"
  using assms unfolding handle_approval_list_def
proof (rule read_index_cases)
  fix es ix assume ix: "index_agrees ix (core es)" and es: "log_of s tid = es"
    and "act_return (list_items lib include_decided ix (sorted_list_of_set (dom (ix_requested ix)))) s = (Inr items, s')"
  then have items: "items = list_items lib include_decided ix (sorted_list_of_set (dom (ix_requested ix)))"
    and s: "s' = s" by (simp_all add: act_return_def)
  have agree: "ix_requested ix i = None \<longleftrightarrow> last_request (core es) i = None"
    "ix_decided ix i = None \<longleftrightarrow> last_decision (core es) i = None" for i
    using ix by (metis index_agrees_def map_option_is_None)+
  note fin = finite_requested [OF ix]
  have ids: "map (ri_approval_id \<circ> li_request) items =
      filter (\<lambda>i. ix_requested ix i \<noteq> None \<and> (include_decided \<or> ix_decided ix i = None))
        (sorted_list_of_set (dom (ix_requested ix)))"
    unfolding items by (rule list_items_ids)
  have "\<forall>item \<in> set items. last_request (core es) (ri_approval_id (li_request item)) =
         Some (ri_action (li_request item), ri_params (li_request item)) \<and>
       map_option dr_decision (li_decision item) =
         last_decision (core es) (ri_approval_id (li_request item))"
  proof
    fix item assume "item \<in> set items"
    from list_items_elem [OF this [unfolded items]] obtain i req where
      "ix_requested ix i = Some req" "li_request item = request_info lib i req"
      "li_decision item = ix_decided ix i" by blast
    with ix [unfolded index_agrees_def, THEN spec, of i]
    show "last_request (core es) (ri_approval_id (li_request item)) =
         Some (ri_action (li_request item), ri_params (li_request item)) \<and>
       map_option dr_decision (li_decision item) =
         last_decision (core es) (ri_approval_id (li_request item))"
      by (simp add: request_info_def)
  qed
  moreover have "i \<in> set (filter (\<lambda>i. ix_requested ix i \<noteq> None \<and> (include_decided \<or> ix_decided ix i = None))
        (sorted_list_of_set (dom (ix_requested ix)))) \<longleftrightarrow>
      last_request (core es) i \<noteq> None \<and> (include_decided \<or> last_decision (core es) i = None)" for i
    by (simp add: fin domIff agree del: not_None_eq)
  ultimately show ?thesis
    unfolding ids es s by (simp add: sorted_wrt_filter)
qed simp

section \<open>Witness\<close>

lemma distinct_singleton: "set xs = {x} \<Longrightarrow> distinct xs \<Longrightarrow> xs = [x]"
proof (cases xs)
  case (Cons y ys)
  assume "set xs = {x}" "distinct xs"
  with Cons have "y = x" "set ys \<subseteq> {x}" "x \<notin> set ys" by auto
  then show ?thesis using Cons by (cases ys) auto
qed simp

theorem approval_list_correct_witness:
  "\<exists>items. handle_approval_list sample_lib sample_thread False sample_server = (Inr items, sample_server) \<and>
     map (ri_approval_id \<circ> li_request) items = [ApprovalId 5]"
proof -
  obtain items where items: "handle_approval_list sample_lib sample_thread False sample_server = (Inr items, sample_server)"
  proof -
    have "al_format sample_lib t \<noteq> None" for t by (simp add: sample_lib_def)
    from index_from_events_total [OF this] obtain ix where
      "index_from_events sample_lib (log_of sample_server sample_thread) = Inr ix" by blast
    moreover have "read_log sample_thread sample_server = (Inr (log_of sample_server sample_thread), sample_server)"
      by (simp add: read_log_def sample_server_def log_of_def)
    ultimately have "handle_approval_list sample_lib sample_thread False sample_server =
        (Inr (list_items sample_lib False ix (sorted_list_of_set (dom (ix_requested ix)))), sample_server)"
      by (simp only: handle_approval_list_def act_bind_step act_lift_def act_return_def)
    with that show ?thesis by blast
  qed
  note list = approval_list_correct [OF items]
  have log: "core (log_of sample_server sample_thread) =
      [ThreadCreated ''/w'', ApprovalRequested (ApprovalId 5) None ''fs/mkdir'' JNull]"
    by (simp add: sample_server_def log_of_def core_def sample_event_def)
  have "i \<in> set (map (ri_approval_id \<circ> li_request) items) \<longleftrightarrow> i = ApprovalId 5" for i
    using list by (auto simp: log split: if_splits)
  then have "set (map (ri_approval_id \<circ> li_request) items) = {ApprovalId 5}" by blast
  moreover have "distinct (map (ri_approval_id \<circ> li_request) items)" using list by blast
  ultimately have "map (ri_approval_id \<circ> li_request) items = [ApprovalId 5]"
    by (rule distinct_singleton)
  from conjI [OF items this] show ?thesis by (rule exI)
qed

end
