(* ===== verification/Sandbox.thy ===== *)
theory Sandbox
  imports Modes Protocol
begin

text \<open>
  Where file tools may write: the protected names of \<open>crates/fs-policy/src/lib.rs\<close>, the path
  resolution of \<open>crates/core/src/sandbox.rs\<close> and the choice of the root a write is checked
  against in \<open>crates/app-server/src/main/approval.rs\<close>.

  A path is the list of its components, which is how Rust compares, joins and pops paths. The
  file system is a record of the operations the code calls, on a world it may change.
\<close>

section \<open>Protected names\<close>

definition is_blocked_env_style_name :: "string \<Rightarrow> bool" where
  "is_blocked_env_style_name file_name =
     (let file_name = to_ascii_lowercase file_name
      in if \<not> starts_with ''.env'' file_name then False
         else let suffix = drop 4 file_name
              in if suffix \<noteq> [] \<and> \<not> starts_with ''.'' suffix \<and> \<not> starts_with ''_'' suffix \<and>
                    \<not> starts_with ''-'' suffix then False
                 else \<not> (contains ''example'' file_name \<or> contains ''template'' file_name))"

type_synonym path = "path_component list"

definition file_name :: "path \<Rightarrow> string option" where
  "file_name p = (if p = [] then None else case last p of Normal name \<Rightarrow> Some name | _ \<Rightarrow> None)"

definition path_parent :: "path \<Rightarrow> path option" where
  "path_parent p = (if p = [] \<or> last p = RootDir then None else Some (butlast p))"

definition path_is_absolute :: "path \<Rightarrow> bool" where
  "path_is_absolute p \<longleftrightarrow> (case p of RootDir # _ \<Rightarrow> True | _ \<Rightarrow> False)"

definition strip_cur_dir_components :: "path \<Rightarrow> path" where
  "strip_cur_dir_components p = filter (\<lambda>c. c \<noteq> CurDir) p"

text \<open>\<open>PathBuf::join\<close>: an absolute path replaces, an inner dot vanishes.\<close>

definition join_path :: "path \<Rightarrow> path \<Rightarrow> path" where
  "join_path base p =
     (if path_is_absolute p \<or> base = [] then p else base @ strip_cur_dir_components p)"

text \<open>The text of a path without dots, as it is displayed and matched.\<close>

definition path_string :: "path \<Rightarrow> string" where
  "path_string p = fold push_component p []"

definition is_secret_rel_path :: "path \<Rightarrow> bool" where
  "is_secret_rel_path rel_path =
     (case file_name rel_path of Some name \<Rightarrow> is_blocked_env_style_name name | None \<Rightarrow> False)"

definition is_read_blocked_rel_path :: "path \<Rightarrow> bool" where
  "is_read_blocked_rel_path rel_path =
     (case file_name rel_path of Some name \<Rightarrow> is_blocked_env_style_name name | None \<Rightarrow> False)"

definition repo_tool_hidden_components :: "string list" where
  "repo_tool_hidden_components =
    [''.git'', ''.omne'', ''.omne_data'', ''target'', ''node_modules'', ''example'']"

definition is_repo_tool_hidden_rel_path :: "path \<Rightarrow> bool" where
  "is_repo_tool_hidden_rel_path rel_path \<longleftrightarrow>
     is_read_blocked_rel_path rel_path \<or>
     list_ex (\<lambda>c. case c of Normal name \<Rightarrow> name \<in> set repo_tool_hidden_components | _ \<Rightarrow> False) rel_path"

section \<open>The file system\<close>

datatype io_error = NotFound | OtherIo string

datatype file_kind = KindDir | KindFile | KindSymlink

record 'w fs_ops =
  fs_canonicalize :: "'w \<Rightarrow> path \<Rightarrow> io_error + path"
  fs_metadata :: "'w \<Rightarrow> path \<Rightarrow> io_error + file_kind"
  fs_symlink_metadata :: "'w \<Rightarrow> path \<Rightarrow> io_error + file_kind"
  fs_create_dir :: "path \<Rightarrow> ('w, io_error, unit) state_action"
  fs_create_dir_all :: "path \<Rightarrow> ('w, io_error, unit) state_action"

datatype sandbox_error =
    CanonicalizeFailed path io_error
  | StatFailed path io_error
  | CreateFailed path io_error
  | ParentTraversalRefused path
  | EscapesRoot path path
  | EscapesRoots path
  | NotADirectory path
  | NoParent path
  | NoFileName path
  | SymlinkRefused path
  | UnexpectedComponent path

definition canonicalize :: "'w fs_ops \<Rightarrow> 'w \<Rightarrow> path \<Rightarrow> sandbox_error + path" where
  "canonicalize fs w p =
     (case fs_canonicalize fs w p of Inl e \<Rightarrow> Inl (CanonicalizeFailed p e) | Inr c \<Rightarrow> Inr c)"

definition require_dir :: "'w fs_ops \<Rightarrow> 'w \<Rightarrow> path \<Rightarrow> sandbox_error + path" where
  "require_dir fs w p =
     (case fs_metadata fs w p of
        Inl e \<Rightarrow> Inl (StatFailed p e)
      | Inr k \<Rightarrow> if k = KindDir then Inr p else Inl (NotADirectory p))"

definition reject_parent_components :: "path \<Rightarrow> sandbox_error + unit" where
  "reject_parent_components p = (if ParentDir \<in> set p then Inl (ParentTraversalRefused p) else Inr ())"

text \<open>The path that a request names below a base directory.\<close>

definition candidate_path :: "path \<Rightarrow> path \<Rightarrow> path" where
  "candidate_path base p = strip_cur_dir_components (if path_is_absolute p then p else join_path base p)"

section \<open>Paths that need not exist\<close>

text \<open>
  The loop of \<open>canonicalize_nonexistent_path\<close>, and of \<open>canonicalize_with_missing_tail\<close>: the
  longest prefix that exists is made canonical, and the missing components follow it.
\<close>

function canonicalize_loop ::
  "'w fs_ops \<Rightarrow> 'w \<Rightarrow> path \<Rightarrow> path_component list \<Rightarrow> sandbox_error + path" where
  "canonicalize_loop fs w cursor missing =
     (case fs_canonicalize fs w cursor of
        Inr canon \<Rightarrow> Inr (canon @ missing)
      | Inl (OtherIo e) \<Rightarrow> Inl (CanonicalizeFailed cursor (OtherIo e))
      | Inl NotFound \<Rightarrow>
          (case file_name cursor of
             None \<Rightarrow> Inl (CanonicalizeFailed cursor NotFound)
           | Some name \<Rightarrow> canonicalize_loop fs w (butlast cursor) (Normal name # missing)))"
  by pat_completeness auto

termination
  by (relation "measure (\<lambda>(fs, w, cursor, missing). length cursor)")
    (auto simp: file_name_def split: if_splits)

definition canonicalize_nonexistent_path :: "'w fs_ops \<Rightarrow> 'w \<Rightarrow> path \<Rightarrow> sandbox_error + path" where
  "canonicalize_nonexistent_path fs w p = canonicalize_loop fs w p []"

definition canonicalize_with_missing_tail :: "'w fs_ops \<Rightarrow> 'w \<Rightarrow> path \<Rightarrow> sandbox_error + path" where
  "canonicalize_with_missing_tail fs w p =
     (case canonicalize_loop fs w p [] of
        Inl (CanonicalizeFailed _ NotFound) \<Rightarrow> Inl (CanonicalizeFailed p NotFound)
      | r \<Rightarrow> r)"

definition canonicalize_nonexistent_file_path :: "'w fs_ops \<Rightarrow> 'w \<Rightarrow> path \<Rightarrow> sandbox_error + path" where
  "canonicalize_nonexistent_file_path fs w p =
     (case path_parent p of
        None \<Rightarrow> Inl (NoParent p)
      | Some parent \<Rightarrow>
          (case file_name p of
             None \<Rightarrow> Inl (NoFileName p)
           | Some name \<Rightarrow>
               rbind (canonicalize_nonexistent_path fs w parent) (\<lambda>parent.
               Inr (join_path parent [Normal name]))))"

section \<open>Resolution\<close>

datatype path_access = AccessRead | AccessWrite

definition resolve_dir :: "'w fs_ops \<Rightarrow> 'w \<Rightarrow> path \<Rightarrow> path \<Rightarrow> sandbox_error + path" where
  "resolve_dir fs w root input =
     rbind (canonicalize fs w root) (\<lambda>root.
     rbind (reject_parent_components input) (\<lambda>_.
     rbind (canonicalize fs w (candidate_path root input)) (\<lambda>canon.
     if \<not> prefix root canon then Inl (EscapesRoot root canon)
     else require_dir fs w canon)))"

text \<open>The loop of \<open>ensure_dir_tree_no_symlink\<close> over the components below the root.\<close>

fun ensure_dirs ::
  "'w fs_ops \<Rightarrow> path \<Rightarrow> path_component list \<Rightarrow> 'w \<Rightarrow> (sandbox_error + unit) \<times> 'w" where
  "ensure_dirs fs current [] w = (Inr (), w)"
| "ensure_dirs fs current (c # cs) w =
     (case c of
        Normal name \<Rightarrow>
          (let current = join_path current [Normal name]
           in case fs_symlink_metadata fs w current of
                Inr k \<Rightarrow>
                  if k = KindSymlink then (Inl (SymlinkRefused current), w)
                  else if k \<noteq> KindDir then (Inl (NotADirectory current), w)
                  else ensure_dirs fs current cs w
              | Inl NotFound \<Rightarrow>
                  act_bind (act_map_error (CreateFailed current) (fs_create_dir fs current))
                    (\<lambda>_. ensure_dirs fs current cs) w
              | Inl (OtherIo e) \<Rightarrow> (Inl (StatFailed current (OtherIo e)), w))
      | _ \<Rightarrow> (Inl (UnexpectedComponent current), w))"

definition ensure_dir_tree_no_symlink ::
  "'w fs_ops \<Rightarrow> path \<Rightarrow> path \<Rightarrow> ('w, sandbox_error, unit) state_action" where
  "ensure_dir_tree_no_symlink fs root dir =
     (case strip_component_prefix root dir of
        None \<Rightarrow> act_fail (EscapesRoot root dir)
      | Some relative \<Rightarrow> ensure_dirs fs root relative)"

definition resolve_file ::
  "'w fs_ops \<Rightarrow> path \<Rightarrow> path \<Rightarrow> path_access \<Rightarrow> bool \<Rightarrow> ('w, sandbox_error, path) state_action" where
  "resolve_file fs root input access create_parent_dirs =
     act_bind (act_look (\<lambda>w. canonicalize fs w root)) (\<lambda>root.
     act_bind (act_lift (reject_parent_components input)) (\<lambda>_.
     let candidate = candidate_path root input
     in if \<not> prefix root candidate then act_fail (EscapesRoot root candidate)
        else case path_parent candidate of
          None \<Rightarrow> act_fail (NoParent candidate)
        | Some parent \<Rightarrow>
            act_bind (if create_parent_dirs then ensure_dir_tree_no_symlink fs root parent
                      else act_return ()) (\<lambda>_.
            act_bind (act_look (\<lambda>w. canonicalize fs w parent)) (\<lambda>canon_parent.
            if \<not> prefix root canon_parent then act_fail (EscapesRoot root canon_parent)
            else case access of
              AccessRead \<Rightarrow>
                act_bind (act_look (\<lambda>w. canonicalize fs w candidate)) (\<lambda>canon.
                if \<not> prefix root canon then act_fail (EscapesRoot root canon) else act_return canon)
            | AccessWrite \<Rightarrow>
                act_look (\<lambda>w. if fs_symlink_metadata fs w candidate = Inr KindSymlink
                                then Inl (SymlinkRefused candidate) else Inr candidate)))))"

fun canonical_roots :: "'w fs_ops \<Rightarrow> 'w \<Rightarrow> path list \<Rightarrow> sandbox_error + path list" where
  "canonical_roots fs w [] = Inr []"
| "canonical_roots fs w (r # rs) =
     rbind (canonicalize fs w r) (\<lambda>canon.
     rbind (require_dir fs w canon) (\<lambda>canon.
     rbind (canonical_roots fs w rs) (\<lambda>canons. Inr (canon # canons))))"

text \<open>\<open>max_by_key\<close> on the number of components: the last of the longest.\<close>

fun longest_path :: "path list \<Rightarrow> path option" where
  "longest_path [] = None"
| "longest_path (p # ps) =
     (case longest_path ps of
        None \<Rightarrow> Some p
      | Some q \<Rightarrow> if length p > length q then Some p else Some q)"

definition select_root :: "path list \<Rightarrow> path \<Rightarrow> path option" where
  "select_root roots p = longest_path (filter (\<lambda>root. prefix root p) roots)"

definition resolve_file_with_writable_roots ::
  "'w fs_ops \<Rightarrow> path \<Rightarrow> path list \<Rightarrow> path \<Rightarrow> path_access \<Rightarrow> bool \<Rightarrow> ('w, sandbox_error, path) state_action" where
  "resolve_file_with_writable_roots fs root writable_roots input access create_parent_dirs =
     (if access = AccessRead \<or> writable_roots = [] \<or> \<not> path_is_absolute input then
        resolve_file fs root input access create_parent_dirs
      else
        act_bind (act_look (\<lambda>w. canonicalize fs w root)) (\<lambda>root.
        act_bind (act_look (\<lambda>w. canonical_roots fs w writable_roots)) (\<lambda>roots.
        act_bind (act_lift (reject_parent_components input)) (\<lambda>_.
        act_bind (act_look (\<lambda>w. canonicalize_nonexistent_file_path fs w (strip_cur_dir_components input))) (\<lambda>candidate.
        case select_root (root # roots) candidate of
          None \<Rightarrow> act_fail (EscapesRoots candidate)
        | Some selected \<Rightarrow> resolve_file fs selected candidate access create_parent_dirs)))))"

definition resolve_dir_unrestricted :: "'w fs_ops \<Rightarrow> 'w \<Rightarrow> path \<Rightarrow> path \<Rightarrow> sandbox_error + path" where
  "resolve_dir_unrestricted fs w base input =
     rbind (canonicalize fs w base) (\<lambda>base.
     rbind (reject_parent_components input) (\<lambda>_.
     rbind (canonicalize fs w (candidate_path base input)) (\<lambda>canon. require_dir fs w canon)))"

definition resolve_file_unrestricted ::
  "'w fs_ops \<Rightarrow> path \<Rightarrow> path \<Rightarrow> path_access \<Rightarrow> bool \<Rightarrow> ('w, sandbox_error, path) state_action" where
  "resolve_file_unrestricted fs base input access create_parent_dirs =
     act_bind (act_look (\<lambda>w. canonicalize fs w base)) (\<lambda>base.
     act_bind (act_lift (reject_parent_components input)) (\<lambda>_.
     let candidate = candidate_path base input
     in case path_parent candidate of
          None \<Rightarrow> act_fail (NoParent candidate)
        | Some parent \<Rightarrow>
            act_bind (if create_parent_dirs
                      then act_map_error (CreateFailed parent) (fs_create_dir_all fs parent)
                      else act_return ()) (\<lambda>_.
            case access of
              AccessRead \<Rightarrow> act_look (\<lambda>w. canonicalize fs w candidate)
            | AccessWrite \<Rightarrow> act_return candidate)))"

definition resolve_dir_for_sandbox ::
  "'w fs_ops \<Rightarrow> 'w \<Rightarrow> path \<Rightarrow> write_scope \<Rightarrow> path \<Rightarrow> sandbox_error + path" where
  "resolve_dir_for_sandbox fs w thread_root sandbox_policy input =
     (if sandbox_policy = FullAccess then resolve_dir_unrestricted fs w thread_root input
      else resolve_dir fs w thread_root input)"

definition resolve_file_for_sandbox ::
  "'w fs_ops \<Rightarrow> path \<Rightarrow> write_scope \<Rightarrow> string list \<Rightarrow> path \<Rightarrow> path_access \<Rightarrow> bool \<Rightarrow>
     ('w, sandbox_error, path) state_action" where
  "resolve_file_for_sandbox fs thread_root sandbox_policy sandbox_writable_roots input access create_parent_dirs =
     (if sandbox_policy = FullAccess then
        resolve_file_unrestricted fs thread_root input access create_parent_dirs
      else if access = AccessWrite \<and> sandbox_writable_roots \<noteq> [] then
        resolve_file_with_writable_roots fs thread_root (map components sandbox_writable_roots) input access
          create_parent_dirs
      else resolve_file fs thread_root input access create_parent_dirs)"

section \<open>Previews and write targets\<close>

definition preview_file :: "'w fs_ops \<Rightarrow> 'w \<Rightarrow> path \<Rightarrow> path \<Rightarrow> sandbox_error + path" where
  "preview_file fs w root input =
     rbind (canonicalize fs w root) (\<lambda>root.
     rbind (reject_parent_components input) (\<lambda>_.
     rbind (canonicalize_nonexistent_file_path fs w (candidate_path root input)) (\<lambda>preview.
     if \<not> prefix root preview then Inl (EscapesRoot root preview) else Inr preview)))"

definition preview_file_with_writable_roots ::
  "'w fs_ops \<Rightarrow> 'w \<Rightarrow> path \<Rightarrow> path list \<Rightarrow> path \<Rightarrow> sandbox_error + path" where
  "preview_file_with_writable_roots fs w root writable_roots input =
     rbind (canonicalize fs w root) (\<lambda>root.
     rbind (canonical_roots fs w writable_roots) (\<lambda>roots.
     rbind (reject_parent_components input) (\<lambda>_.
     rbind (canonicalize_nonexistent_file_path fs w (strip_cur_dir_components input)) (\<lambda>candidate.
     case select_root (root # roots) candidate of
       None \<Rightarrow> Inl (EscapesRoots candidate)
     | Some _ \<Rightarrow> Inr candidate))))"

definition preview_file_for_sandbox_write ::
  "'w fs_ops \<Rightarrow> 'w \<Rightarrow> path \<Rightarrow> write_scope \<Rightarrow> string list \<Rightarrow> path \<Rightarrow> sandbox_error + path" where
  "preview_file_for_sandbox_write fs w thread_root sandbox_policy sandbox_writable_roots input =
     (if sandbox_policy = FullAccess then
        rbind (canonicalize fs w thread_root) (\<lambda>base.
        rbind (reject_parent_components input) (\<lambda>_.
        canonicalize_nonexistent_file_path fs w (candidate_path base input)))
      else if sandbox_writable_roots \<noteq> [] \<and> path_is_absolute input then
        preview_file_with_writable_roots fs w thread_root (map components sandbox_writable_roots) input
      else preview_file fs w thread_root input)"

record sandbox_write_target =
  wt_root :: path
  wt_rel_path :: path

fun canonicalize_all :: "'w fs_ops \<Rightarrow> 'w \<Rightarrow> path list \<Rightarrow> sandbox_error + path list" where
  "canonicalize_all fs w [] = Inr []"
| "canonicalize_all fs w (r # rs) =
     rbind (canonicalize fs w r) (\<lambda>canon. rbind (canonicalize_all fs w rs) (\<lambda>canons. Inr (canon # canons)))"

definition select_sandbox_write_root ::
  "'w fs_ops \<Rightarrow> 'w \<Rightarrow> path \<Rightarrow> string list \<Rightarrow> path \<Rightarrow> sandbox_error + path" where
  "select_sandbox_write_root fs w thread_root sandbox_writable_roots p =
     rbind (canonicalize_all fs w (thread_root # map components sandbox_writable_roots)) (\<lambda>roots.
     case select_root roots p of None \<Rightarrow> Inl (EscapesRoots p) | Some root \<Rightarrow> Inr root)"

definition resolve_sandbox_write_target ::
  "'w fs_ops \<Rightarrow> 'w \<Rightarrow> path \<Rightarrow> string list \<Rightarrow> path \<Rightarrow> sandbox_error + sandbox_write_target" where
  "resolve_sandbox_write_target fs w thread_root sandbox_writable_roots p =
     (case path_parent p of
        None \<Rightarrow> Inl (NoParent p)
      | Some parent \<Rightarrow>
          (case file_name p of
             None \<Rightarrow> Inl (NoFileName p)
           | Some name \<Rightarrow>
               rbind (canonicalize_with_missing_tail fs w parent) (\<lambda>canon_parent.
               let resolved_path = join_path canon_parent [Normal name]
               in rbind (select_sandbox_write_root fs w thread_root sandbox_writable_roots resolved_path) (\<lambda>root.
                  case strip_component_prefix root resolved_path of
                    None \<Rightarrow> Inl (EscapesRoot root resolved_path)
                  | Some rel_path \<Rightarrow> Inr \<lparr>wt_root = root, wt_rel_path = rel_path\<rparr>))))"

definition preview_sandbox_write_target ::
  "'w fs_ops \<Rightarrow> 'w \<Rightarrow> path \<Rightarrow> write_scope \<Rightarrow> string list \<Rightarrow> path \<Rightarrow> sandbox_error + sandbox_write_target" where
  "preview_sandbox_write_target fs w thread_root sandbox_policy sandbox_writable_roots input =
     rbind (preview_file_for_sandbox_write fs w thread_root sandbox_policy sandbox_writable_roots input) (\<lambda>preview.
     resolve_sandbox_write_target fs w thread_root sandbox_writable_roots preview)"

section \<open>Confinement\<close>

lemma strip_component_prefix_iff: "strip_component_prefix r p = Some q \<longleftrightarrow> p = r @ q"
  by (induction r p rule: strip_component_prefix.induct) auto

lemma longest_path_in: "longest_path ps = Some p \<Longrightarrow> p \<in> set ps"
  by (induction ps arbitrary: p) (auto split: option.splits if_splits)

lemma longest_path_None: "longest_path ps = None \<longleftrightarrow> ps = []"
  by (cases ps) (auto split: option.splits if_splits)

lemma longest_path_max: "longest_path ps = Some p \<Longrightarrow> q \<in> set ps \<Longrightarrow> length q \<le> length p"
proof (induction ps arbitrary: p)
  case (Cons a ps)
  show ?case
  proof (cases "longest_path ps")
    case None
    with Cons.prems show ?thesis by (auto simp: longest_path_None)
  next
    case (Some r)
    from Cons.IH [OF Some] Cons.prems Some show ?thesis by (auto split: if_splits)
  qed
qed simp

lemma select_root_Some:
  "select_root roots p = Some r \<Longrightarrow> r \<in> set roots \<and> prefix r p \<and>
     (\<forall>q \<in> set roots. prefix q p \<longrightarrow> prefix q r)"
  unfolding select_root_def
  using longest_path_in longest_path_max prefix_length_prefix by fastforce

lemma canonicalize_Inr [simp]: "canonicalize fs w p = Inr c \<longleftrightarrow> fs_canonicalize fs w p = Inr c"
  by (auto simp: canonicalize_def split: sum.splits)

lemma require_dir_Inr: "require_dir fs w p = Inr q \<longleftrightarrow> q = p \<and> fs_metadata fs w p = Inr KindDir"
  by (auto simp: require_dir_def split: sum.splits)

lemma reject_parent_Inr [simp]: "reject_parent_components p = Inr u \<longleftrightarrow> ParentDir \<notin> set p"
  by (auto simp: reject_parent_components_def)

text \<open>What a successful resolution below a root guarantees.\<close>

lemma resolve_file_confined:
  assumes "resolve_file fs root input access create w = (Inr p, w')"
  obtains r where "fs_canonicalize fs w root = Inr r" "prefix r p" "ParentDir \<notin> set input"
    "access = AccessWrite \<Longrightarrow> p = candidate_path r input \<and> fs_symlink_metadata fs w' p \<noteq> Inr KindSymlink"
    "access = AccessWrite \<Longrightarrow> \<exists>parent c. path_parent p = Some parent \<and>
       fs_canonicalize fs w' parent = Inr c \<and> prefix r c"
    "access = AccessRead \<Longrightarrow> fs_canonicalize fs w' (candidate_path r input) = Inr p"
    "\<not> create \<Longrightarrow> w' = w"
proof -
  from assms obtain r parent c where r: "fs_canonicalize fs w root = Inr r" "ParentDir \<notin> set input"
    "prefix r (candidate_path r input)" "path_parent (candidate_path r input) = Some parent"
    "fs_canonicalize fs w' parent = Inr c" "prefix r c" "\<not> create \<longrightarrow> w' = w"
    "case access of
       AccessRead \<Rightarrow> fs_canonicalize fs w' (candidate_path r input) = Inr p \<and> prefix r p
     | AccessWrite \<Rightarrow> p = candidate_path r input \<and> fs_symlink_metadata fs w' p \<noteq> Inr KindSymlink"
    unfolding resolve_file_def
    by (cases access) (auto simp: act_bind_eq action_simps Let_def split: option.splits if_splits)
  then show ?thesis by (intro that) (auto split: path_access.splits)
qed

section \<open>Canonical paths\<close>

definition all_normal :: "path \<Rightarrow> bool" where
  "all_normal p \<longleftrightarrow> list_all (\<lambda>c. case c of Normal _ \<Rightarrow> True | _ \<Rightarrow> False) p"

lemma all_normal_simps [simp]:
  "all_normal []" "all_normal (c # p) \<longleftrightarrow> (\<exists>n. c = Normal n) \<and> all_normal p"
  "all_normal (p @ q) \<longleftrightarrow> all_normal p \<and> all_normal q"
  by (auto simp: all_normal_def split: path_component.splits)

lemma all_normal_map: "all_normal p \<Longrightarrow> \<exists>ns. p = map Normal ns"
proof (induction p)
  case (Cons c p)
  then show ?case by (metis all_normal_simps(2) list.map(2))
qed simp

text \<open>
  What \<open>realpath\<close> documents: a canonical path is absolute and has no dots, and the names after
  a path are looked up below its canonical form.
\<close>

definition fs_lawful :: "'w fs_ops \<Rightarrow> 'w \<Rightarrow> bool" where
  "fs_lawful fs w \<longleftrightarrow> (\<forall>p c. fs_canonicalize fs w p = Inr c \<longrightarrow>
     (\<exists>names. c = RootDir # map Normal names) \<and>
     (\<forall>q. all_normal q \<longrightarrow> fs_canonicalize fs w (p @ q) = fs_canonicalize fs w (c @ q)))"

lemma fs_lawfulD:
  assumes "fs_lawful fs w" and "fs_canonicalize fs w p = Inr c"
  shows "\<exists>names. c = RootDir # map Normal names"
    "all_normal q \<Longrightarrow> fs_canonicalize fs w (p @ q) = fs_canonicalize fs w (c @ q)"
    "fs_canonicalize fs w c = Inr c"
proof -
  show "\<exists>names. c = RootDir # map Normal names"
    "all_normal q \<Longrightarrow> fs_canonicalize fs w (p @ q) = fs_canonicalize fs w (c @ q)" for q
    using assms unfolding fs_lawful_def by blast+
  from this(2) [of "[]"] assms(2) show "fs_canonicalize fs w c = Inr c" by simp
qed

declare canonicalize_loop.simps [simp del]

lemma file_name_Some: "file_name p = Some n \<longleftrightarrow> p = butlast p @ [Normal n]"
proof
  assume "file_name p = Some n"
  then have "p \<noteq> []" "last p = Normal n"
    by (auto simp: file_name_def split: if_splits path_component.splits)
  then show "p = butlast p @ [Normal n]" by (metis append_butlast_last_id)
next
  assume "p = butlast p @ [Normal n]"
  then have "p \<noteq> []" "last p = Normal n" by (metis append_is_Nil_conv not_Cons_self2, metis last_snoc)
  then show "file_name p = Some n" by (simp add: file_name_def)
qed

lemma file_name_snoc [simp]: "file_name (p @ [Normal n]) = Some n"
  by (simp add: file_name_def)

lemma path_parent_snoc [simp]: "path_parent (p @ [Normal n]) = Some p"
  by (simp add: path_parent_def)

lemma canonicalize_loop_step:
  "fs_canonicalize fs w (p @ [Normal n]) = Inl NotFound \<Longrightarrow>
     canonicalize_loop fs w (p @ [Normal n]) missing = canonicalize_loop fs w p (Normal n # missing)"
  by (subst canonicalize_loop.simps) (simp add: file_name_def)

lemma canonicalize_loop_found:
  "fs_canonicalize fs w p = Inr c \<Longrightarrow> canonicalize_loop fs w p missing = Inr (c @ missing)"
  by (subst canonicalize_loop.simps) simp

lemma canonicalize_loop_missing:
  "all_normal rest \<Longrightarrow> fs_canonicalize fs w d = Inr c \<Longrightarrow>
     (\<And>i. 0 < i \<Longrightarrow> i \<le> length rest \<Longrightarrow> fs_canonicalize fs w (d @ take i rest) = Inl NotFound) \<Longrightarrow>
     canonicalize_loop fs w (d @ rest) missing = Inr (c @ rest @ missing)"
proof (induction rest arbitrary: missing rule: rev_induct)
  case (snoc x rest)
  then obtain n where x: "x = Normal n" by auto
  have "fs_canonicalize fs w ((d @ rest) @ [Normal n]) = Inl NotFound"
    using snoc.prems(3) [of "length (rest @ [x])"] x by simp
  note step = canonicalize_loop_step [OF this, of missing]
  have "canonicalize_loop fs w (d @ rest) (x # missing) = Inr (c @ rest @ x # missing)"
  proof (rule snoc.IH)
    show "fs_canonicalize fs w (d @ take i rest) = Inl NotFound" if "0 < i" "i \<le> length rest" for i
      using snoc.prems(3) [of i] that by simp
  qed (use snoc.prems in simp_all)
  with step x show ?case by simp
qed (simp add: canonicalize_loop_found)

lemma canonicalize_loop_Inr:
  "canonicalize_loop fs w p missing = Inr q \<Longrightarrow>
     \<exists>d rest c. p = d @ rest \<and> all_normal rest \<and> fs_canonicalize fs w d = Inr c \<and>
       q = c @ rest @ missing \<and>
       (\<forall>i. 0 < i \<and> i \<le> length rest \<longrightarrow> fs_canonicalize fs w (d @ take i rest) = Inl NotFound)"
proof (induction "length p" arbitrary: p missing)
  case (0 p)
  then show ?case
    by (subst (asm) canonicalize_loop.simps)
      (auto simp: file_name_def split: sum.splits io_error.splits)
next
  case (Suc l p)
  show ?case
  proof (cases "fs_canonicalize fs w p")
    case (Inr c)
    with Suc.prems show ?thesis
      by - (rule exI [of _ p], rule exI [of _ "[]"], rule exI [of _ c], auto simp: canonicalize_loop_found)
  next
    case (Inl e)
    with Suc.prems have e: "e = NotFound"
      by (subst (asm) canonicalize_loop.simps) (auto split: io_error.splits)
    with Suc.prems Inl obtain n where n: "file_name p = Some n"
      by (subst (asm) canonicalize_loop.simps) (auto split: option.splits)
    then have p: "p = butlast p @ [Normal n]"
      using file_name_Some by simp
    have nf: "fs_canonicalize fs w (butlast p @ [Normal n]) = Inl NotFound" using Inl e p by simp
    from Suc.prems canonicalize_loop_step [OF nf, of missing] p
    have "canonicalize_loop fs w (butlast p) (Normal n # missing) = Inr q" by simp
    moreover have "l = length (butlast p)" using Suc.hyps(2) by simp
    ultimately obtain d rest c where d: "butlast p = d @ rest" "all_normal rest"
      "fs_canonicalize fs w d = Inr c" "q = c @ rest @ Normal n # missing"
      "\<forall>i. 0 < i \<and> i \<le> length rest \<longrightarrow> fs_canonicalize fs w (d @ take i rest) = Inl NotFound"
      using Suc.hyps(1) by blast
    have "fs_canonicalize fs w (d @ take i (rest @ [Normal n])) = Inl NotFound"
      if "0 < i" "i \<le> length (rest @ [Normal n])" for i
    proof (cases "i = length (rest @ [Normal n])")
      case True
      with nf d(1) show ?thesis by simp
    next
      case False
      with that d(5) show ?thesis by simp
    qed
    with d p show ?thesis
      by - (rule exI [of _ d], rule exI [of _ "rest @ [Normal n]"], rule exI [of _ c], simp)
  qed
qed

lemma canonicalize_loop_idem:
  assumes "fs_lawful fs w" and "canonicalize_loop fs w p [] = Inr q"
  shows "canonicalize_loop fs w q [] = Inr q"
proof -
  from canonicalize_loop_Inr [OF assms(2)] obtain d rest c where d: "p = d @ rest" "all_normal rest"
    "fs_canonicalize fs w d = Inr c" "q = c @ rest"
    "\<forall>i. 0 < i \<and> i \<le> length rest \<longrightarrow> fs_canonicalize fs w (d @ take i rest) = Inl NotFound" by auto
  have "all_normal (take i rest)" for i
    using d(2) by (metis all_normal_simps(3) append_take_drop_id)
  then have "fs_canonicalize fs w (c @ take i rest) = Inl NotFound" if "0 < i" "i \<le> length rest" for i
    using d(5) that fs_lawfulD(2) [OF assms(1) d(3)] by metis
  from canonicalize_loop_missing [OF d(2) fs_lawfulD(3) [OF assms(1) d(3)] this, of "[]"]
  show ?thesis by (simp add: d(4))
qed

text \<open>
  C36: the loop over a path that need not exist always ends, and succeeds exactly when some
  prefix of the path exists, nothing of the rest does, and the rest has names only; the result
  is the canonical form of the longest such prefix followed by the rest. On a lawful file
  system the result is a fixed point.
\<close>

theorem canonicalize_nonexistent_path_correct:
  "(canonicalize_nonexistent_path fs w p = Inr q \<longleftrightarrow>
     (\<exists>d rest c. p = d @ rest \<and> all_normal rest \<and> fs_canonicalize fs w d = Inr c \<and> q = c @ rest \<and>
       (\<forall>i. 0 < i \<and> i \<le> length rest \<longrightarrow> fs_canonicalize fs w (d @ take i rest) = Inl NotFound))) \<and>
   (fs_lawful fs w \<longrightarrow> canonicalize_nonexistent_path fs w p = Inr q \<longrightarrow>
      canonicalize_nonexistent_path fs w q = Inr q)"
proof (intro conjI impI)
  show "canonicalize_nonexistent_path fs w p = Inr q \<longleftrightarrow>
     (\<exists>d rest c. p = d @ rest \<and> all_normal rest \<and> fs_canonicalize fs w d = Inr c \<and> q = c @ rest \<and>
       (\<forall>i. 0 < i \<and> i \<le> length rest \<longrightarrow> fs_canonicalize fs w (d @ take i rest) = Inl NotFound))"
    using canonicalize_loop_Inr [of fs w p "[]" q] canonicalize_loop_missing [of _ fs w _ _ "[]"]
    unfolding canonicalize_nonexistent_path_def by auto
next
  assume "fs_lawful fs w" "canonicalize_nonexistent_path fs w p = Inr q"
  then show "canonicalize_nonexistent_path fs w q = Inr q"
    unfolding canonicalize_nonexistent_path_def by (rule canonicalize_loop_idem)
qed

section \<open>Writes stay below the allowed roots\<close>

lemma canonical_roots_set:
  "canonical_roots fs w rs = Inr cs \<Longrightarrow> c \<in> set cs \<Longrightarrow> \<exists>r \<in> set rs. fs_canonicalize fs w r = Inr c"
  by (induction rs arbitrary: cs) (auto simp: rbind_eq_Inr require_dir_Inr)

text \<open>
  Outside of full access no tool writes outside the sandbox. A path resolved for writing
  lies below the canonical form of the thread's root or of a configured writable root, the
  request has no parent step, the directory the file is in is really below that root, all
  symbolic links followed, and the file itself is no symbolic link.
\<close>

theorem resolve_write_confined:
  assumes "resolve_file_for_sandbox fs thread_root policy writable input AccessWrite create w = (Inr p, w')"
    and "policy \<noteq> FullAccess" and "fs_lawful fs w"
  shows "ParentDir \<notin> set input \<and> fs_symlink_metadata fs w' p \<noteq> Inr KindSymlink \<and>
    (\<exists>r root. r \<in> set (thread_root # map components writable) \<and> fs_canonicalize fs w r = Inr root \<and>
       prefix root p \<and>
       (\<exists>parent c. path_parent p = Some parent \<and> fs_canonicalize fs w' parent = Inr c \<and> prefix root c))"
proof (cases "writable = [] \<or> \<not> path_is_absolute input")
  case True
  with assms(1,2) have "resolve_file fs thread_root input AccessWrite create w = (Inr p, w')"
    by (auto simp: resolve_file_for_sandbox_def resolve_file_with_writable_roots_def split: if_splits)
  then show ?thesis by (rule resolve_file_confined) auto
next
  case False
  with assms(1,2) have "resolve_file_with_writable_roots fs thread_root (map components writable) input
      AccessWrite create w = (Inr p, w')" by (simp add: resolve_file_for_sandbox_def)
  with False obtain r roots candidate selected where r: "fs_canonicalize fs w thread_root = Inr r"
    "canonical_roots fs w (map components writable) = Inr roots" "ParentDir \<notin> set input"
    "select_root (r # roots) candidate = Some selected"
    "resolve_file fs selected candidate AccessWrite create w = (Inr p, w')"
    by (auto simp: resolve_file_with_writable_roots_def act_bind_eq action_simps split: option.splits)
  have sel: "selected \<in> set (r # roots)" using select_root_Some [OF r(4)] by simp
  then obtain q where q: "q \<in> set (thread_root # map components writable)" "fs_canonicalize fs w q = Inr selected"
    using r(1) canonical_roots_set [OF r(2)] by auto
  have fixed: "fs_canonicalize fs w selected = Inr selected" using fs_lawfulD(3) [OF assms(3) q(2)] .
  from r(5) show ?thesis
  proof (rule resolve_file_confined)
    fix root assume "fs_canonicalize fs w selected = Inr root" "prefix root p"
      and "AccessWrite = AccessWrite \<Longrightarrow> p = candidate_path root candidate \<and> fs_symlink_metadata fs w' p \<noteq> Inr KindSymlink"
      and "AccessWrite = AccessWrite \<Longrightarrow> \<exists>parent c. path_parent p = Some parent \<and>
       fs_canonicalize fs w' parent = Inr c \<and> prefix root c"
    with q fixed r(3) show ?thesis by auto
  qed
qed

section \<open>What is checked is what is written\<close>

lemma canonicalize_loop_normal:
  assumes "fs_lawful fs w" and "canonicalize_loop fs w p [] = Inr q"
  shows "\<exists>names. q = RootDir # map Normal names"
proof -
  from canonicalize_loop_Inr [OF assms(2)] obtain d rest c where
    rest: "all_normal rest" "fs_canonicalize fs w d = Inr c" "q = c @ rest" by auto
  from all_normal_map [OF rest(1)] fs_lawfulD(1) [OF assms(1) rest(2)] obtain ns ms where
    "rest = map Normal ns" "c = RootDir # map Normal ms" by blast
  with rest(3) have "q = RootDir # map Normal (ms @ ns)" by simp
  then show ?thesis by blast
qed

lemma join_normal [simp]: "p \<noteq> [] \<Longrightarrow> join_path p [Normal n] = p @ [Normal n]"
  by (simp add: join_path_def path_is_absolute_def strip_cur_dir_components_def)

lemma canonicalize_file_Inr:
  assumes "fs_lawful fs w" and "canonicalize_nonexistent_file_path fs w p = Inr q"
  shows "\<exists>parent c name. path_parent p = Some parent \<and> file_name p = Some name \<and>
    canonicalize_loop fs w parent [] = Inr c \<and> c \<noteq> [] \<and> q = c @ [Normal name]"
proof -
  from assms(2) obtain parent c name where "path_parent p = Some parent" "file_name p = Some name"
    "canonicalize_loop fs w parent [] = Inr c" "q = join_path c [Normal name]"
    by (auto simp: canonicalize_nonexistent_file_path_def canonicalize_nonexistent_path_def rbind_eq_Inr
        split: option.splits)
  moreover from canonicalize_loop_normal [OF assms(1) this(3)] have "c \<noteq> []" by auto
  ultimately show ?thesis by auto
qed

lemma missing_tail_Inr: "canonicalize_loop fs w p [] = Inr c \<Longrightarrow> canonicalize_with_missing_tail fs w p = Inr c"
  by (simp add: canonicalize_with_missing_tail_def)

lemma resolve_target_of_canonical:
  assumes "fs_lawful fs w" and "canonicalize_nonexistent_file_path fs w p = Inr q"
  shows "resolve_sandbox_write_target fs w root writable q = resolve_sandbox_write_target fs w root writable p"
proof -
  from canonicalize_file_Inr [OF assms] obtain parent c name where p: "path_parent p = Some parent"
    "file_name p = Some name" "canonicalize_loop fs w parent [] = Inr c" "q = c @ [Normal name]" by blast
  have "canonicalize_loop fs w c [] = Inr c" using canonicalize_loop_idem [OF assms(1) p(3)] .
  with p missing_tail_Inr [of fs w] show ?thesis by (simp add: resolve_sandbox_write_target_def)
qed

lemma candidate_of_canonical:
  assumes "fs_lawful fs w" and "canonicalize_nonexistent_file_path fs w p = Inr q"
  shows "candidate_path root q = q"
proof -
  from canonicalize_file_Inr [OF assms] obtain parent c name where p:
    "canonicalize_loop fs w parent [] = Inr c" "q = c @ [Normal name]" by blast
  with canonicalize_loop_normal [OF assms(1) p(1)] show ?thesis
    by (auto simp: candidate_path_def path_is_absolute_def strip_cur_dir_components_def)
qed

lemma preview_candidate:
  assumes "preview_file_for_sandbox_write fs w thread_root policy writable input = Inr q"
  shows "\<exists>r candidate. fs_canonicalize fs w thread_root = Inr r \<and> candidate = candidate_path r input \<and>
    canonicalize_nonexistent_file_path fs w candidate = Inr q"
  using assms
  by (auto simp: preview_file_for_sandbox_write_def preview_file_with_writable_roots_def preview_file_def
      rbind_eq_Inr candidate_path_def split: if_splits option.splits)

lemma resolved_candidate:
  assumes "resolve_file_for_sandbox fs thread_root policy writable input AccessWrite create w = (Inr p, w')"
    and "fs_lawful fs w"
  shows "\<exists>r. fs_canonicalize fs w thread_root = Inr r \<and>
    (p = candidate_path r input \<or> canonicalize_nonexistent_file_path fs w (candidate_path r input) = Inr p)"
proof (cases "policy = FullAccess")
  case True
  with assms(1) show ?thesis
    by (auto simp: resolve_file_for_sandbox_def resolve_file_unrestricted_def act_bind_eq action_simps Let_def
        split: option.splits)
next
  case False
  show ?thesis
  proof (cases "writable = [] \<or> \<not> path_is_absolute input")
    case True
    with assms(1) False have "resolve_file fs thread_root input AccessWrite create w = (Inr p, w')"
      by (auto simp: resolve_file_for_sandbox_def resolve_file_with_writable_roots_def split: if_splits)
    then show ?thesis by (rule resolve_file_confined) auto
  next
    case abs: False
    with assms(1) False obtain r roots candidate selected where r: "fs_canonicalize fs w thread_root = Inr r"
      "canonicalize_nonexistent_file_path fs w (strip_cur_dir_components input) = Inr candidate"
      "resolve_file fs selected candidate AccessWrite create w = (Inr p, w')"
      by (auto simp: resolve_file_for_sandbox_def resolve_file_with_writable_roots_def act_bind_eq action_simps
          split: option.splits)
    from r(3) obtain root where "p = candidate_path root candidate" by (rule resolve_file_confined) auto
    with candidate_of_canonical [OF assms(2) r(2)] r(1,2) abs show ?thesis
      by (auto simp: candidate_path_def)
  qed
qed

text \<open>
  The target that is previewed, and checked by the mode and by the user's approval, is
  the target that is written: as long as the file system does not change in between, the root
  and the relative path computed from the resolved path are the previewed ones, under every
  policy, with writable roots or without, whether or not the file and its directories exist.
\<close>

theorem previewed_target_is_written:
  assumes "preview_sandbox_write_target fs w thread_root policy writable input = Inr target"
    and "resolve_file_for_sandbox fs thread_root policy writable input AccessWrite False w = (Inr p, w')"
    and "fs_lawful fs w"
  shows "resolve_sandbox_write_target fs w thread_root writable p = Inr target"
proof -
  from assms(1) obtain q where q: "preview_file_for_sandbox_write fs w thread_root policy writable input = Inr q"
    "resolve_sandbox_write_target fs w thread_root writable q = Inr target"
    by (auto simp: preview_sandbox_write_target_def rbind_eq_Inr)
  from preview_candidate [OF q(1)] resolved_candidate [OF assms(2,3)] obtain r where
    r: "canonicalize_nonexistent_file_path fs w (candidate_path r input) = Inr q"
      "p = candidate_path r input \<or> canonicalize_nonexistent_file_path fs w (candidate_path r input) = Inr p"
    by auto
  note target = resolve_target_of_canonical [OF assms(3) r(1), of thread_root writable]
  from r show ?thesis using q(2) target by auto
qed

section \<open>Witnesses\<close>

text \<open>A file system that holds the root, the directory \<open>/w\<close> and nothing else.\<close>

definition sample_fs :: "'w fs_ops" where
  "sample_fs = \<lparr>fs_canonicalize = (\<lambda>_ p. if p = [RootDir] \<or> p = [RootDir, Normal ''w''] then Inr p else Inl NotFound),
     fs_metadata = (\<lambda>_ _. Inr KindDir), fs_symlink_metadata = (\<lambda>_ _. Inl NotFound),
     fs_create_dir = (\<lambda>_ w. (Inl (OtherIo []), w)), fs_create_dir_all = (\<lambda>_ w. (Inl (OtherIo []), w))\<rparr>"

lemma sample_fs_lawful: "fs_lawful sample_fs w"
  unfolding fs_lawful_def sample_fs_def
  by (auto intro: exI [of _ "[]"] exI [of _ "[''w'']"] split: if_splits)

lemma sample_resolve:
  "resolve_file_for_sandbox sample_fs [RootDir, Normal ''w''] WorkspaceWrite [] [Normal ''a''] AccessWrite False w =
     (Inr [RootDir, Normal ''w'', Normal ''a''], w)"
  by (simp add: resolve_file_for_sandbox_def resolve_file_def act_bind_def action_simps sample_fs_def canonicalize_def candidate_path_def
      path_is_absolute_def join_path_def strip_cur_dir_components_def path_parent_def reject_parent_components_def Let_def)

theorem canonicalize_nonexistent_path_correct_witness:
  "canonicalize_nonexistent_path sample_fs () [RootDir, Normal ''w'', Normal ''a''] =
     Inr [RootDir, Normal ''w'', Normal ''a'']"
proof -
  have "all_normal [Normal ''a'']" "fs_canonicalize sample_fs () [RootDir, Normal ''w''] = Inr [RootDir, Normal ''w'']"
    "\<forall>i. 0 < i \<and> i \<le> length [Normal ''a''] \<longrightarrow>
       fs_canonicalize sample_fs () ([RootDir, Normal ''w''] @ take i [Normal ''a'']) = Inl NotFound"
    by (auto simp: sample_fs_def le_Suc_eq)
  then have "\<exists>d rest c. [RootDir, Normal ''w'', Normal ''a''] = d @ rest \<and> all_normal rest \<and>
      fs_canonicalize sample_fs () d = Inr c \<and> [RootDir, Normal ''w'', Normal ''a''] = c @ rest \<and>
      (\<forall>i. 0 < i \<and> i \<le> length rest \<longrightarrow> fs_canonicalize sample_fs () (d @ take i rest) = Inl NotFound)"
    by - (rule exI [of _ "[RootDir, Normal ''w'']"], rule exI [of _ "[Normal ''a'']"],
      rule exI [of _ "[RootDir, Normal ''w'']"], simp)
  with conjunct1 [OF canonicalize_nonexistent_path_correct [of sample_fs "()" "[RootDir, Normal ''w'', Normal ''a'']"
        "[RootDir, Normal ''w'', Normal ''a'']"]] show ?thesis by (rule iffD2)
qed

theorem resolve_write_confined_witness:
  "\<exists>root. fs_canonicalize sample_fs () [RootDir, Normal ''w''] = Inr root \<and>
     prefix root [RootDir, Normal ''w'', Normal ''a'']"
  using resolve_write_confined [OF sample_resolve _ sample_fs_lawful, of "()"] by auto

lemma sample_loop: "canonicalize_loop sample_fs w [RootDir, Normal ''w''] [] = Inr [RootDir, Normal ''w'']"
  by (simp add: canonicalize_loop_found sample_fs_def)

lemma sample_preview:
  "preview_sandbox_write_target sample_fs w [RootDir, Normal ''w''] WorkspaceWrite [] [Normal ''a''] =
     Inr \<lparr>wt_root = [RootDir, Normal ''w''], wt_rel_path = [Normal ''a'']\<rparr>"
proof -
  have "fs_canonicalize sample_fs w [RootDir, Normal ''w''] = Inr [RootDir, Normal ''w'']"
    by (simp add: sample_fs_def)
  then show ?thesis
    by (simp add: preview_sandbox_write_target_def preview_file_for_sandbox_write_def preview_file_def
      canonicalize_def candidate_path_def path_is_absolute_def join_path_def strip_cur_dir_components_def
      path_parent_def file_name_def reject_parent_components_def canonicalize_nonexistent_file_path_def
      canonicalize_nonexistent_path_def sample_loop resolve_sandbox_write_target_def missing_tail_Inr
      select_sandbox_write_root_def select_root_def)
qed

theorem previewed_target_is_written_witness:
  "resolve_sandbox_write_target sample_fs () [RootDir, Normal ''w''] [] [RootDir, Normal ''w'', Normal ''a''] =
     Inr \<lparr>wt_root = [RootDir, Normal ''w''], wt_rel_path = [Normal ''a'']\<rparr>"
  by (rule previewed_target_is_written [OF sample_preview sample_resolve sample_fs_lawful])

end
