(* ===== verification/FsRuntime.thy ===== *)
theory FsRuntime
  imports Sandbox Json
begin

text \<open>
  The file operations of the tools (\<open>crates/fs-runtime/src/lib.rs\<close>): every call builds a
  context that grants one root and the permissions the operation needs, and hands the request
  to the library \<open>omne_fs\<close>, which is a record of functions here. The replacement of text is
  done by this crate and is modelled on bytes.
\<close>

section \<open>Contexts\<close>

text \<open>A permission that is granted beyond the defaults, and a limit that is set.\<close>

datatype fs_permission = PermRead | PermGlob | PermGrep | PermWrite | PermPatch | PermDelete | PermMkdir

record fs_limits =
  lm_max_read_bytes :: "u64 option"
  lm_max_patch_bytes :: "u64 option"
  lm_max_write_bytes :: "u64 option"
  lm_max_results :: "u64 option"
  lm_max_line_bytes :: "u64 option"
  lm_max_walk_files :: "u64 option"
  lm_max_walk_entries :: "u64 option"

definition default_limits :: fs_limits where
  "default_limits = \<lparr>lm_max_read_bytes = None, lm_max_patch_bytes = None, lm_max_write_bytes = None,
     lm_max_results = None, lm_max_line_bytes = None, lm_max_walk_files = None, lm_max_walk_entries = None\<rparr>"

record fs_context =
  cx_root_id :: string
  cx_root :: path
  cx_write_scope :: write_scope
  cx_permissions :: "fs_permission set"
  cx_limits :: fs_limits
  cx_deny_globs :: "string list"
  cx_skip_globs :: "string list"

record fs_write_response =
  wr_path :: path
  wr_bytes_written :: u64
  wr_created :: bool

record fs_grep_match =
  gm_path :: path
  gm_line_number :: u64
  gm_line :: string
  gm_line_truncated :: bool

record fs_grep_response =
  gr_matches :: "fs_grep_match list"
  gr_truncated :: bool
  gr_scanned_files :: u64
  gr_skipped_too_large_files :: u64
  gr_skipped_non_utf8_files :: u64

record 'w omne_fs =
  of_deny_globs :: "string list"
  of_skip_globs :: "string list"
  of_max_write_bytes :: u64
  of_context :: "fs_context \<Rightarrow> string option"
  of_read :: "fs_context \<Rightarrow> path \<Rightarrow> 'w \<Rightarrow> string + (path \<times> u64 \<times> string)"
  of_glob :: "fs_context \<Rightarrow> string \<Rightarrow> 'w \<Rightarrow> string + (path list \<times> bool)"
  of_grep :: "fs_context \<Rightarrow> string \<Rightarrow> bool \<Rightarrow> string option \<Rightarrow> 'w \<Rightarrow> string + fs_grep_response"
  of_write :: "fs_context \<Rightarrow> path \<Rightarrow> string \<Rightarrow> bool \<Rightarrow> ('w, string, fs_write_response) state_action"
  of_patch :: "fs_context \<Rightarrow> path \<Rightarrow> string \<Rightarrow> ('w, string, path \<times> u64) state_action"
  of_delete :: "fs_context \<Rightarrow> path \<Rightarrow> bool \<Rightarrow> bool \<Rightarrow> ('w, string, path \<times> bool) state_action"
  of_mkdir :: "fs_context \<Rightarrow> path \<Rightarrow> bool \<Rightarrow> bool \<Rightarrow> ('w, string, path \<times> bool) state_action"

definition extra_deny_globs :: "string list" where
  "extra_deny_globs =
    [''.omne_data/**'', ''**/.omne_data/**'', ''.omne/**'', ''**/.omne/**'', ''target/**'', ''**/target/**'',
     ''node_modules/**'', ''**/node_modules/**'', ''example/**'', ''**/example/**'']"

definition extra_skip_globs :: "string list" where
  "extra_skip_globs =
    [''.omne_data/**'', ''**/.omne_data/**'', ''.omne/**'', ''**/.omne/**'', ''target/**'', ''**/target/**'',
     ''node_modules/**'', ''**/node_modules/**'', ''example/**'', ''**/example/**'']"

definition build_context ::
  "'w omne_fs \<Rightarrow> string \<Rightarrow> path \<Rightarrow> write_scope \<Rightarrow> fs_permission set \<Rightarrow> fs_limits \<Rightarrow> bool \<Rightarrow> string + fs_context" where
  "build_context lib root_id root write_scope permissions limits allow_reading_env_examples =
     (let deny = (if allow_reading_env_examples
                  then filter (\<lambda>p. p \<noteq> ''.env.*'' \<and> p \<noteq> ''**/.env.*'') (of_deny_globs lib)
                  else of_deny_globs lib) @ extra_deny_globs;
          cx = \<lparr>cx_root_id = root_id, cx_root = root, cx_write_scope = write_scope,
                cx_permissions = permissions, cx_limits = limits, cx_deny_globs = deny,
                cx_skip_globs = of_skip_globs lib @ extra_skip_globs\<rparr>
      in case of_context lib cx of Some e \<Rightarrow> Inl e | None \<Rightarrow> Inr cx)"

section \<open>Operations\<close>

definition max_write_bytes_hard_cap :: u64 where
  "max_write_bytes_hard_cap = 256 * 1024 * 1024"

definition read_text_read_only ::
  "'w omne_fs \<Rightarrow> string \<Rightarrow> path \<Rightarrow> path \<Rightarrow> u64 \<Rightarrow> 'w \<Rightarrow> string + (path \<times> u64 \<times> string)" where
  "read_text_read_only lib root_id root p max_read_bytes w =
     rbind (build_context lib root_id root ReadOnly {PermRead}
              (default_limits\<lparr>lm_max_read_bytes := Some max_read_bytes\<rparr>) True) (\<lambda>cx.
     of_read lib cx p w)"

definition glob_read_only_paths ::
  "'w omne_fs \<Rightarrow> string \<Rightarrow> path \<Rightarrow> string \<Rightarrow> u64 \<Rightarrow> 'w \<Rightarrow> string + (string list \<times> bool)" where
  "glob_read_only_paths lib root_id root pattern max_results w =
     rbind (build_context lib root_id root ReadOnly {PermGlob}
              (default_limits\<lparr>lm_max_results := Some max_results, lm_max_line_bytes := Some 1024\<rparr>) True) (\<lambda>cx.
     rbind (of_glob lib cx pattern w) (\<lambda>(matches, truncated).
     Inr (map path_string (filter (\<lambda>p. \<not> is_secret_rel_path p) matches), truncated)))"

record grep_match_outcome =
  mo_path :: string
  mo_line_number :: u64
  mo_line :: string
  mo_line_truncated :: bool

record grep_outcome =
  go_matches :: "grep_match_outcome list"
  go_truncated :: bool
  go_scanned_files :: u64
  go_skipped_too_large_files :: u64
  go_skipped_non_utf8_files :: u64

definition saturating_mul8 :: "u64 \<Rightarrow> u64" where
  "saturating_mul8 n = (if unat n * 8 \<ge> 2 ^ 64 then - 1 else n * 8)"

definition grep_read_only_paths ::
  "'w omne_fs \<Rightarrow> string \<Rightarrow> path \<Rightarrow> string \<Rightarrow> bool \<Rightarrow> string option \<Rightarrow> u64 \<Rightarrow> u64 \<Rightarrow> u64 \<Rightarrow> 'w \<Rightarrow>
     string + grep_outcome" where
  "grep_read_only_paths lib root_id root query regex glob max_results max_read_bytes max_files w =
     rbind (build_context lib root_id root ReadOnly {PermGrep}
              (default_limits\<lparr>lm_max_results := Some max_results, lm_max_read_bytes := Some max_read_bytes,
                 lm_max_walk_files := Some max_files,
                 lm_max_walk_entries := Some (max (saturating_mul8 max_files) max_files)\<rparr>) True) (\<lambda>cx.
     rbind (of_grep lib cx query regex glob w) (\<lambda>response.
     Inr \<lparr>go_matches = map (\<lambda>m. \<lparr>mo_path = path_string (gm_path m), mo_line_number = gm_line_number m,
                             mo_line = gm_line m, mo_line_truncated = gm_line_truncated m\<rparr>)
            (filter (\<lambda>m. \<not> is_secret_rel_path (gm_path m)) (gr_matches response)),
          go_truncated = gr_truncated response, go_scanned_files = gr_scanned_files response,
          go_skipped_too_large_files = gr_skipped_too_large_files response,
          go_skipped_non_utf8_files = gr_skipped_non_utf8_files response\<rparr>))"

definition write_text_workspace ::
  "'w omne_fs \<Rightarrow> string \<Rightarrow> path \<Rightarrow> path \<Rightarrow> string \<Rightarrow> bool \<Rightarrow> ('w, string, fs_write_response) state_action" where
  "write_text_workspace lib root_id root p content create_parents =
     (let max_write_bytes = min (max (of_nat (length content)) (of_max_write_bytes lib)) max_write_bytes_hard_cap
      in act_bind (act_lift (build_context lib root_id root WorkspaceWrite {PermWrite}
                    (default_limits\<lparr>lm_max_write_bytes := Some max_write_bytes\<rparr>) False)) (\<lambda>cx.
         of_write lib cx p content create_parents))"

definition patch_text_workspace ::
  "'w omne_fs \<Rightarrow> string \<Rightarrow> path \<Rightarrow> path \<Rightarrow> string \<Rightarrow> u64 \<Rightarrow> ('w, string, path \<times> u64 \<times> bool) state_action" where
  "patch_text_workspace lib root_id root p patch max_bytes =
     act_bind (act_lift (build_context lib root_id root WorkspaceWrite {PermPatch}
                (default_limits\<lparr>lm_max_read_bytes := Some max_bytes, lm_max_patch_bytes := Some max_bytes,
                   lm_max_write_bytes := Some max_bytes\<rparr>) False)) (\<lambda>cx.
     act_bind (of_patch lib cx p patch) (\<lambda>(q, bytes). act_return (q, bytes, bytes > 0)))"

definition delete_path_workspace ::
  "'w omne_fs \<Rightarrow> string \<Rightarrow> path \<Rightarrow> path \<Rightarrow> bool \<Rightarrow> bool \<Rightarrow> ('w, string, path \<times> bool) state_action" where
  "delete_path_workspace lib root_id root p recursive ignore_missing =
     act_bind (act_lift (build_context lib root_id root WorkspaceWrite {PermDelete} default_limits False)) (\<lambda>cx.
     of_delete lib cx p recursive ignore_missing)"

definition mkdir_workspace ::
  "'w omne_fs \<Rightarrow> string \<Rightarrow> path \<Rightarrow> path \<Rightarrow> bool \<Rightarrow> bool \<Rightarrow> ('w, string, path \<times> bool) state_action" where
  "mkdir_workspace lib root_id root p create_parents ignore_existing =
     act_bind (act_lift (build_context lib root_id root WorkspaceWrite {PermMkdir} default_limits False)) (\<lambda>cx.
     of_mkdir lib cx p create_parents ignore_existing)"

section \<open>Replacing text\<close>

text \<open>\<open>str::find\<close>: the first place where the needle starts.\<close>

fun find_sub :: "string \<Rightarrow> string \<Rightarrow> nat option" where
  "find_sub needle [] = (if needle = [] then Some 0 else None)"
| "find_sub needle (c # cs) =
     (if starts_with needle (c # cs) then Some 0 else map_option Suc (find_sub needle cs))"

lemma find_sub_Some:
  "find_sub needle hay = Some i \<Longrightarrow> i + length needle \<le> length hay \<and> take (length needle) (drop i hay) = needle"
proof (induction hay arbitrary: i)
  case (Cons c cs)
  show ?case
  proof (cases "starts_with needle (c # cs)")
    case True
    then obtain rest where rest: "c # cs = needle @ rest" by (auto simp: starts_with_prefix prefix_def)
    from Cons.prems True have "i = 0" by simp
    with rest show ?thesis by (simp add: rest)
  next
    case False
    with Cons show ?thesis by auto
  qed
qed (auto split: if_splits)

function count_non_overlapping :: "string \<Rightarrow> string \<Rightarrow> nat" where
  "count_non_overlapping hay needle =
     (if needle = [] then 0
      else case find_sub needle hay of
        None \<Rightarrow> 0
      | Some i \<Rightarrow> Suc (count_non_overlapping (drop (i + length needle) hay) needle))"
  by pat_completeness auto

termination
proof (relation "measure (\<lambda>(hay, needle). length hay)")
  fix hay needle :: string and i
  assume "needle \<noteq> []" "find_sub needle hay = Some i"
  with find_sub_Some [OF this(2)] show "((drop (i + length needle) hay, needle), hay, needle) \<in> measure (\<lambda>(hay, needle). length hay)"
    by (cases needle) auto
qed simp

text \<open>\<open>str::replacen\<close>\<close>

fun replacen :: "string \<Rightarrow> string \<Rightarrow> string \<Rightarrow> nat \<Rightarrow> string" where
  "replacen hay old new 0 = hay"
| "replacen hay old new (Suc n) =
     (case find_sub old hay of
        None \<Rightarrow> hay
      | Some i \<Rightarrow> take i hay @ new @ replacen (drop (i + length old) hay) old new n)"

text \<open>
  The reference: scan from the left, replacing each occurrence that does not overlap the one
  before.
\<close>

function replace_all :: "string \<Rightarrow> string \<Rightarrow> string \<Rightarrow> string" where
  "replace_all old new hay =
     (if old = [] \<or> hay = [] then hay
      else if starts_with old hay then new @ replace_all old new (drop (length old) hay)
      else hd hay # replace_all old new (tl hay))"
  by pat_completeness auto

termination
  by (relation "measure (\<lambda>(old, new, hay). length hay)") (auto simp: neq_Nil_conv)

declare replace_all.simps [simp del] count_non_overlapping.simps [simp del]

lemma replace_all_find:
  assumes "old \<noteq> []"
  shows "replace_all old new hay =
    (case find_sub old hay of
       None \<Rightarrow> hay
     | Some i \<Rightarrow> take i hay @ new @ replace_all old new (drop (i + length old) hay))"
proof (induction hay)
  case Nil
  then show ?case using assms by (simp add: replace_all.simps)
next
  case (Cons c cs)
  show ?case
  proof (cases "starts_with old (c # cs)")
    case True
    then show ?thesis using assms by (subst replace_all.simps) simp
  next
    case False
    then have "replace_all old new (c # cs) = c # replace_all old new cs"
      using assms by (subst replace_all.simps) simp
    with Cons.IH False show ?thesis by (simp split: option.split)
  qed
qed

lemma replacen_scan:
  assumes "old \<noteq> []"
  shows "replacen hay old new (count_non_overlapping hay old) = replace_all old new hay"
proof (induction hay old rule: count_non_overlapping.induct)
  case (1 hay needle)
  show ?case
  proof (cases "needle = []")
    case False
    show ?thesis
    proof (cases "find_sub needle hay")
      case None
      with False show ?thesis
        by (simp add: count_non_overlapping.simps [of hay needle] replace_all_find [OF False, of new hay])
    next
      case (Some i)
      with 1 [OF False Some] False show ?thesis
        by (simp add: count_non_overlapping.simps [of hay needle] replace_all_find [OF False, of new hay])
    qed
  qed (simp add: count_non_overlapping.simps replace_all.simps)
qed

text \<open>
  Replacing as often as the text counts occurrences replaces every one of them: the
  search-and-splice loops of the code compute the left-to-right scan.
\<close>

theorem replacen_is_replace_all:
  assumes "old \<noteq> []"
  shows "replacen hay old new (count_non_overlapping hay old) = replace_all old new hay"
  using assms by (rule replacen_scan)

record edit_replace_op =
  eo_old :: string
  eo_new :: string
  eo_expected_replacements :: "nat option"

datatype runtime_error = LibraryError string | EditsEmpty | EditOldEmpty | EditMismatch path nat nat

definition expected_of :: "edit_replace_op \<Rightarrow> nat" where
  "expected_of edit = (case eo_expected_replacements edit of Some n \<Rightarrow> n | None \<Rightarrow> 1)"

fun apply_edits ::
  "path \<Rightarrow> edit_replace_op list \<Rightarrow> string \<Rightarrow> nat \<Rightarrow> bool \<Rightarrow> runtime_error + (string \<times> nat \<times> bool)" where
  "apply_edits p [] tx replacements changed = Inr (tx, replacements, changed)"
| "apply_edits p (edit # edits) tx replacements changed =
     (let expected = expected_of edit; found = count_non_overlapping tx (eo_old edit)
      in if found \<noteq> expected then Inl (EditMismatch p expected found)
         else apply_edits p edits (replacen tx (eo_old edit) (eo_new edit) expected)
                (replacements + expected) (if eo_old edit \<noteq> eo_new edit then True else changed))"

record edit_replace_outcome =
  er_path :: path
  er_changed :: bool
  er_replacements :: nat
  er_bytes_written :: u64

definition edit_replace_workspace ::
  "'w omne_fs \<Rightarrow> string \<Rightarrow> path \<Rightarrow> path \<Rightarrow> edit_replace_op list \<Rightarrow> u64 \<Rightarrow>
     ('w, runtime_error, edit_replace_outcome) state_action" where
  "edit_replace_workspace lib root_id root p edits max_bytes =
     (if edits = [] then act_fail EditsEmpty
      else if list_ex (\<lambda>e. eo_old e = []) edits then act_fail EditOldEmpty
      else
        act_bind (act_map_error LibraryError (act_lift (build_context lib root_id root WorkspaceWrite {PermRead, PermWrite}
                   (default_limits\<lparr>lm_max_read_bytes := Some max_bytes, lm_max_write_bytes := Some max_bytes\<rparr>) False))) (\<lambda>cx.
        act_bind (act_map_error LibraryError (act_look (of_read lib cx p))) (\<lambda>(read_path, bytes_read, content).
        act_bind (act_lift (apply_edits read_path edits content 0 False)) (\<lambda>(tx, replacements, changed).
        if changed then
          act_bind (act_map_error LibraryError (of_write lib cx p tx False)) (\<lambda>response.
          act_return \<lparr>er_path = read_path, er_changed = True, er_replacements = replacements,
                      er_bytes_written = wr_bytes_written response\<rparr>)
        else act_return \<lparr>er_path = read_path, er_changed = False, er_replacements = replacements,
                         er_bytes_written = 0\<rparr>))))"

section \<open>Edits\<close>

text \<open>The text after some edits, and what each edit finds in the text it is applied to.\<close>

definition edited :: "edit_replace_op list \<Rightarrow> string \<Rightarrow> string" where
  "edited edits tx = fold (\<lambda>edit tx. replace_all (eo_old edit) (eo_new edit) tx) edits tx"

lemma apply_edits_correct:
  "list_all (\<lambda>e. eo_old e \<noteq> []) edits \<Longrightarrow>
   apply_edits p edits tx replacements changed = r \<Longrightarrow>
     (\<forall>tx' n c. r = Inr (tx', n, c) \<longrightarrow>
        tx' = edited edits tx \<and> n = replacements + sum_list (map expected_of edits) \<and>
        (c \<longleftrightarrow> changed \<or> (\<exists>e \<in> set edits. eo_old e \<noteq> eo_new e)) \<and>
        (\<forall>before e after. edits = before @ e # after \<longrightarrow>
           count_non_overlapping (edited before tx) (eo_old e) = expected_of e)) \<and>
     (\<forall>err. r = Inl err \<longrightarrow> (\<exists>before e after. edits = before @ e # after \<and>
        count_non_overlapping (edited before tx) (eo_old e) \<noteq> expected_of e))"
proof (induction edits arbitrary: tx replacements changed)
  case (Cons e edits)
  show ?case
  proof (cases "count_non_overlapping tx (eo_old e) = expected_of e")
    case False
    with Cons.prems(2) have "\<exists>err. r = Inl err" by (auto simp: Let_def)
    moreover have "\<exists>before e' after. e # edits = before @ e' # after \<and>
        count_non_overlapping (edited before tx) (eo_old e') \<noteq> expected_of e'"
      using False by (intro exI [of _ "[]"]) (auto simp: edited_def)
    ultimately show ?thesis by auto
  next
    case True
    let ?tx = "replace_all (eo_old e) (eo_new e) tx"
    have step: "replacen tx (eo_old e) (eo_new e) (expected_of e) = ?tx"
      using replacen_scan [of "eo_old e" tx "eo_new e"] Cons.prems(1) True by simp
    have run: "apply_edits p edits ?tx (replacements + expected_of e)
        (if eo_old e \<noteq> eo_new e then True else changed) = r"
      using Cons.prems(2) True step by (simp add: Let_def)
    have shift: "edited (e # before) tx = edited before ?tx" for before by (simp add: edited_def)
    note IH = Cons.IH [OF _ run]
    show ?thesis
    proof (intro conjI allI impI)
      fix tx' n c assume r: "r = Inr (tx', n, c)"
      with IH Cons.prems(1) have ih: "tx' = edited edits ?tx"
        "n = replacements + expected_of e + sum_list (map expected_of edits)"
        "c \<longleftrightarrow> (if eo_old e \<noteq> eo_new e then True else changed) \<or> (\<exists>e \<in> set edits. eo_old e \<noteq> eo_new e)"
        "\<And>before e' after. edits = before @ e' # after \<Longrightarrow>
           count_non_overlapping (edited before ?tx) (eo_old e') = expected_of e'" by auto
      show "tx' = edited (e # edits) tx" using ih(1) shift by simp
      show "n = replacements + sum_list (map expected_of (e # edits))" using ih(2) by simp
      show "c \<longleftrightarrow> changed \<or> (\<exists>e' \<in> set (e # edits). eo_old e' \<noteq> eo_new e')" using ih(3) by auto
      show "count_non_overlapping (edited before tx) (eo_old e') = expected_of e'"
        if "e # edits = before @ e' # after" for before e' after
        using that True ih(4) shift by (cases before) (auto simp: edited_def)
    next
      fix err assume "r = Inl err"
      with IH Cons.prems(1) obtain before e' after where "edits = before @ e' # after"
        "count_non_overlapping (edited before ?tx) (eo_old e') \<noteq> expected_of e'" by auto
      then show "\<exists>before e' after. e # edits = before @ e' # after \<and>
          count_non_overlapping (edited before tx) (eo_old e') \<noteq> expected_of e'"
        using shift by (intro exI [of _ "e # before"]) auto
    qed
  qed
qed (auto simp: edited_def)


section \<open>Witnesses\<close>

definition sample_omne :: "unit omne_fs" where
  "sample_omne = \<lparr>of_deny_globs = [], of_skip_globs = [], of_max_write_bytes = 0, of_context = (\<lambda>_. None),
     of_read = (\<lambda>_ p _. Inr (p, 3, ''aXa'')), of_glob = (\<lambda>_ _ _. Inl []), of_grep = (\<lambda>_ _ _ _ _. Inl []),
     of_write = (\<lambda>_ p _ _ w. (Inr \<lparr>wr_path = p, wr_bytes_written = 3, wr_created = False\<rparr>, w)),
     of_patch = (\<lambda>_ _ _ w. (Inl [], w)), of_delete = (\<lambda>_ _ _ _ w. (Inl [], w)), of_mkdir = (\<lambda>_ _ _ _ w. (Inl [], w))\<rparr>"

definition sample_edit :: edit_replace_op where
  "sample_edit = \<lparr>eo_old = ''X'', eo_new = ''Y'', eo_expected_replacements = None\<rparr>"

lemma sample_count: "count_non_overlapping ''aXa'' ''X'' = 1"
  by (simp add: count_non_overlapping.simps starts_with_def)

theorem replacen_is_replace_all_witness: "replacen ''aXa'' ''X'' ''Y'' 1 = replace_all ''X'' ''Y'' ''aXa''"
  using replacen_is_replace_all [of "''X''" "''aXa''" "''Y''"] by (simp only: sample_count) simp


end
