(* ===== verification/ToolEvents.thy ===== *)
theory ToolEvents
  imports Approval FsRuntime ToolGate
begin

text \<open>
  What the request handlers of the tools share: loading a thread's root, the events that
  record a tool call, the list of allowed tools and the responses that refuse a call
  (\<open>approval.rs\<close>, \<open>structured_error.rs\<close> and \<open>file_read_glob_grep/shared.rs\<close> of
  \<open>crates/app-server/src/main\<close>).

  A handler runs on the server and on the world the file system lives in. The identifiers it
  creates are arguments. Taken from outside, beside what the approvals and the file system
  take: reading the modes file and the environment, printing identifiers, errors and policies,
  and the text catalog of \<open>structured_text_kit\<close>.
\<close>

section \<open>State, environment and errors\<close>

record 'w tool_state =
  ts_server :: server
  ts_world :: 'w

datatype tool_error =
    ServerFailed server_error
  | SandboxFailed sandbox_error
  | RuntimeFailed runtime_error
  | CatalogTextInvalid string
  | CwdMissing thread_id
  | RootRefused path
  | PathRefused path_error
  | EditsMustNotBeEmpty
  | EditOldMustNotBeEmpty
  | ToolDenied string json

type_synonym ('w, 'a) tool_action = "('w tool_state, tool_error, 'a) state_action"

record 'w tool_env =
  te_server :: server_env
  te_lib :: approval_lib
  te_exec_policy :: policy
  te_fs :: "'w fs_ops"
  te_omne :: "'w omne_fs"
  te_cwd :: path
  te_globs :: glob_lib
  te_modes_file :: "'w \<Rightarrow> string \<Rightarrow> config_error + raw_modes_file"
  te_modes_env :: "string option"
  te_path_exists :: "'w \<Rightarrow> string \<Rightarrow> bool"
  te_catalog_text :: "string \<Rightarrow> (string \<times> catalog_arg) list \<Rightarrow> string + structured_text"
  te_structured_json :: "structured_text \<Rightarrow> json"
  te_parse_structured :: "json \<Rightarrow> structured_text option"
  te_show_tool :: "tool_id \<Rightarrow> string"
  te_show_scope :: "write_scope \<Rightarrow> json"
  te_show_catalog_error :: "catalog_error \<Rightarrow> string"
  te_show_error :: "tool_error \<Rightarrow> string"

definition on_server :: "'a action \<Rightarrow> ('w, 'a) tool_action" where
  "on_server m s =
     (case m (ts_server s) of (r, v) \<Rightarrow>
        (case r of Inl e \<Rightarrow> Inl (ServerFailed e) | Inr a \<Rightarrow> Inr a, s\<lparr>ts_server := v\<rparr>))"

definition on_world :: "('e \<Rightarrow> tool_error) \<Rightarrow> ('w, 'e, 'a) state_action \<Rightarrow> ('w, 'a) tool_action" where
  "on_world wrap m s =
     (case m (ts_world s) of (r, w) \<Rightarrow>
        (case r of Inl e \<Rightarrow> Inl (wrap e) | Inr a \<Rightarrow> Inr a, s\<lparr>ts_world := w\<rparr>))"

definition tool_append :: "'w tool_env \<Rightarrow> thread_id \<Rightarrow> thread_event_kind \<Rightarrow> ('w, thread_event) tool_action" where
  "tool_append env tid kind = on_server (rt_append_event (te_server env) tid kind)"

definition load_modes :: "'w tool_env \<Rightarrow> path \<Rightarrow> 'w \<Rightarrow> mode_catalog" where
  "load_modes env thread_root w =
     load_catalog (te_globs env) (te_modes_file env w) (te_modes_env env) (te_path_exists env w)
       (path_string thread_root)"

section \<open>The thread's root and state\<close>

text \<open>The state a thread's handle holds, which is the replay of its log.\<close>

definition handle_state :: "thread_id \<Rightarrow> thread_state action" where
  "handle_state tid s =
     (case sv_logs s tid of
        None \<Rightarrow> (Inl (ThreadNotFound tid), s)
      | Some es \<Rightarrow>
          (case replay es (new_state tid) of Inl e \<Rightarrow> (Inl (EventRefused e), s) | Inr state \<Rightarrow> (Inr state, s)))"

definition resolve_thread_root_from_cwd :: "'w tool_env \<Rightarrow> string \<Rightarrow> 'w \<Rightarrow> sandbox_error + path" where
  "resolve_thread_root_from_cwd env cwd w =
     (if is_absolute cwd then resolve_dir (te_fs env) w (components cwd) [CurDir]
      else resolve_dir (te_fs env) w (te_cwd env) (components cwd))"

definition load_thread_root :: "'w tool_env \<Rightarrow> thread_id \<Rightarrow> ('w, path) tool_action" where
  "load_thread_root env tid =
     act_bind (on_server (get_or_load_thread (te_server env) tid)) (\<lambda>_.
     act_bind (on_server (handle_state tid)) (\<lambda>state.
     case st_cwd state of
       None \<Rightarrow> act_fail (CwdMissing tid)
     | Some cwd \<Rightarrow> on_world SandboxFailed (act_look (resolve_thread_root_from_cwd env cwd))))"

section \<open>Structured errors\<close>

definition catalog_structured_error_with ::
  "'w tool_env \<Rightarrow> string \<Rightarrow> (string \<times> catalog_arg) list \<Rightarrow> tool_error + structured_text" where
  "catalog_structured_error_with env code args =
     (case te_catalog_text env code args of Inl e \<Rightarrow> Inl (CatalogTextInvalid e) | Inr t \<Rightarrow> Inr t)"

fun structured_error_code :: "structured_text \<Rightarrow> string option" where
  "structured_error_code (Catalog code _) = Some code"
| "structured_error_code (Freeform _) = None"

definition structured_error_from_result_value :: "'w tool_env \<Rightarrow> json \<Rightarrow> structured_text option" where
  "structured_error_from_result_value env v =
     Option.bind (json_get ''structured_error'' v) (te_parse_structured env)"

section \<open>Responses\<close>

fun opt_json :: "('a \<Rightarrow> json) \<Rightarrow> 'a option \<Rightarrow> json" where
  "opt_json f None = JNull"
| "opt_json f (Some a) = f a"

definition nat_json :: "u64 \<Rightarrow> json" where
  "nat_json n = JNumber (PosInt n)"

definition error_fields :: "'w tool_env \<Rightarrow> structured_text \<Rightarrow> (string \<times> json) list" where
  "error_fields env e =
     [(''structured_error'', te_structured_json env e),
      (''error_code'', opt_json JString (structured_error_code e))]"

definition denied_fields :: "'w tool_env \<Rightarrow> tool_id \<Rightarrow> (string \<times> json) list" where
  "denied_fields env tool_id = [(''tool_id'', JString (te_show_tool env tool_id)), (''denied'', JBool True)]"

definition denied_response_with_remembered ::
  "'w tool_env \<Rightarrow> tool_id \<Rightarrow> (string \<times> json) list \<Rightarrow> bool option \<Rightarrow> tool_error + json" where
  "denied_response_with_remembered env tool_id extra_fields remembered =
     rbind (catalog_structured_error_with env ''approval_denied''
              (case remembered of Some r \<Rightarrow> [(''remembered'', ArgBool r)] | None \<Rightarrow> [])) (\<lambda>e.
     Inr (JObject (denied_fields env tool_id @ extra_fields @
                   [(''remembered'', opt_json JBool remembered)] @ error_fields env e)))"

definition file_denied_response :: "'w tool_env \<Rightarrow> tool_id \<Rightarrow> bool option \<Rightarrow> tool_error + json" where
  "file_denied_response env tool_id remembered = denied_response_with_remembered env tool_id [] remembered"

definition file_needs_approval_response :: "'w tool_env \<Rightarrow> approval_id \<Rightarrow> json" where
  "file_needs_approval_response env approval_id =
     JObject [(''needs_approval'', JBool True),
              (''approval_id'', JString (al_show_approval (te_lib env) approval_id))]"

definition file_allowed_tools_denied_response ::
  "'w tool_env \<Rightarrow> tool_id \<Rightarrow> string \<Rightarrow> string list option \<Rightarrow> tool_error + json" where
  "file_allowed_tools_denied_response env tool_id tool allowed_tools =
     rbind (catalog_structured_error_with env ''allowed_tools_denied'' [(''tool'', ArgText tool)]) (\<lambda>e.
     Inr (JObject (denied_fields env tool_id @
       [(''tool'', JString tool),
        (''allowed_tools'', JArray (map JString (case allowed_tools of Some ts \<Rightarrow> ts | None \<Rightarrow> [])))] @
       error_fields env e)))"

definition file_sandbox_policy_denied_response ::
  "'w tool_env \<Rightarrow> tool_id \<Rightarrow> write_scope \<Rightarrow> tool_error + json" where
  "file_sandbox_policy_denied_response env tool_id sandbox_policy =
     rbind (catalog_structured_error_with env ''sandbox_policy_denied'' []) (\<lambda>e.
     Inr (JObject (denied_fields env tool_id @
       [(''sandbox_policy'', te_show_scope env sandbox_policy)] @ error_fields env e)))"

fun decision_json :: "mode_decision \<Rightarrow> json" where
  "decision_json Allow = JString ''allow''"
| "decision_json Prompt = JString ''prompt''"
| "decision_json Deny = JString ''deny''"

fun source_str :: "decision_source \<Rightarrow> string" where
  "source_str FromToolOverride = ''tool_override''"
| "source_str FromModePermission = ''mode_permission''"
| "source_str FromRolePermissionMode = ''role_permission_mode''"

definition file_mode_denied_response ::
  "'w tool_env \<Rightarrow> tool_id \<Rightarrow> string \<Rightarrow> mode_decision_audit \<Rightarrow> tool_error + json" where
  "file_mode_denied_response env tool_id mode_name audit =
     rbind (catalog_structured_error_with env ''mode_denied''
              [(''mode'', ArgText mode_name),
               (''decision_source'', ArgText (source_str (audit_source audit))),
               (''tool_override_hit'', ArgBool (audit_override_hit audit))]) (\<lambda>e.
     Inr (JObject (denied_fields env tool_id @
       [(''mode'', JString mode_name), (''decision'', decision_json (audit_decision audit)),
        (''decision_source'', JString (source_str (audit_source audit))),
        (''tool_override_hit'', JBool (audit_override_hit audit))] @ error_fields env e)))"

definition file_unknown_mode_denied_response ::
  "'w tool_env \<Rightarrow> tool_id \<Rightarrow> string \<Rightarrow> string \<Rightarrow> string option \<Rightarrow> tool_error + json" where
  "file_unknown_mode_denied_response env tool_id mode_name available load_error =
     rbind (catalog_structured_error_with env ''mode_unknown''
              ([(''mode'', ArgText mode_name), (''available'', ArgText available)] @
               (case load_error of Some e \<Rightarrow> [(''load_error'', ArgText e)] | None \<Rightarrow> []))) (\<lambda>e.
     Inr (JObject (denied_fields env tool_id @
       [(''mode'', JString mode_name), (''decision'', decision_json Deny),
        (''available'', JString available), (''load_error'', opt_json JString load_error)] @
       error_fields env e)))"

section \<open>Recording a tool call\<close>

definition emit_tool_denied ::
  "'w tool_env \<Rightarrow> thread_id \<Rightarrow> tool_id \<Rightarrow> turn_id option \<Rightarrow> string \<Rightarrow> json option \<Rightarrow> string \<Rightarrow> json \<Rightarrow>
     ('w, unit) tool_action" where
  "emit_tool_denied env tid tool_id turn_id action params error result =
     act_bind (tool_append env tid (ToolStarted tool_id turn_id action params)) (\<lambda>_.
     act_bind (tool_append env tid (ToolCompleted tool_id ToolStatusDenied
                 (structured_error_from_result_value env result) (Some error) (Some result))) (\<lambda>_.
     act_return ()))"

text \<open>The text of the tool list: \<open>serde_json::to_string\<close> of a list of strings cannot fail.\<close>

definition allowed_tools_text :: "'w tool_env \<Rightarrow> string list \<Rightarrow> string" where
  "allowed_tools_text env tools =
     (case al_json_text (te_lib env) (JArray (map JString tools)) of Some s \<Rightarrow> s | None \<Rightarrow> [])"

definition enforce_thread_allowed_tools ::
  "'w tool_env \<Rightarrow> thread_id \<Rightarrow> tool_id \<Rightarrow> turn_id option \<Rightarrow> string \<Rightarrow> json option \<Rightarrow> string list option \<Rightarrow>
     ('w, json option) tool_action" where
  "enforce_thread_allowed_tools env tid tool_id turn_id tool params allowed_tools =
     (case allowed_tools of
        None \<Rightarrow> act_return None
      | Some tools \<Rightarrow>
          if tool \<in> set tools then act_return None
          else
            act_bind (act_lift (catalog_structured_error_with env ''allowed_tools_denied''
                        [(''tool'', ArgText tool)])) (\<lambda>structured_error.
            act_bind (emit_tool_denied env tid tool_id turn_id tool params
                        (''tool '' @ tool @ '' denied by thread allowed_tools='' @ allowed_tools_text env tools)
                        (JObject [(''tool'', JString tool), (''allowed_tools'', JArray (map JString tools)),
                           (''structured_error'', te_structured_json env structured_error),
                           (''error_code'', JString ''allowed_tools_denied'')])) (\<lambda>_.
            act_return (Some (JObject
              [(''tool_id'', JString (te_show_tool env tool_id)), (''denied'', JBool True),
               (''tool'', JString tool), (''allowed_tools'', JArray (map JString tools))])))))"

text \<open>
  The end of a handler: the outcome of its work becomes the event that completes the tool, and
  the response.
\<close>

definition complete_tool ::
  "'w tool_env \<Rightarrow> thread_id \<Rightarrow> tool_id \<Rightarrow> ('a \<Rightarrow> json) \<Rightarrow> ('a \<Rightarrow> json) \<Rightarrow> tool_error + 'a \<Rightarrow> ('w, json) tool_action" where
  "complete_tool env tid tool_id result respond outcome =
     (case outcome of
        Inr a \<Rightarrow>
          act_bind (tool_append env tid
                      (ToolCompleted tool_id ToolStatusCompleted None None (Some (result a)))) (\<lambda>_.
          act_return (respond a))
      | Inl (ToolDenied error denied) \<Rightarrow>
          act_bind (tool_append env tid (ToolCompleted tool_id ToolStatusDenied
                      (structured_error_from_result_value env denied) (Some error) (Some denied))) (\<lambda>_.
          act_return denied)
      | Inl err \<Rightarrow>
          act_bind (tool_append env tid (ToolCompleted tool_id ToolStatusFailed None
                      (Some (te_show_error env err)) None)) (\<lambda>_.
          act_fail err))"

end
