(* ===== verification/FileTools.thy ===== *)
theory FileTools
  imports ToolEvents
begin

text \<open>
  The request handlers of the file tools: \<open>file_write_patch.rs\<close>, \<open>file_edit_delete.rs\<close>,
  \<open>fs.rs\<close> and \<open>file_read_glob_grep/\<close> of \<open>crates/app-server/src/main\<close>. The handlers that
  write go through one pipeline, spelled out in each of them in the source: the thread's
  tools, the sandbox policy, the protected names, the mode and the approval, and only then the
  work, which checks the resolved target again before it touches the file.
\<close>

section \<open>The mode and the approval\<close>

datatype file_mode_approval_gate = FileAllowed mode_def | FileDenied json

fun join_names :: "string list \<Rightarrow> string" where
  "join_names [] = []"
| "join_names [n] = n"
| "join_names (n # ns) = n @ '', '' @ join_names ns"

record file_request =
  fr_thread_id :: thread_id
  fr_turn_id :: "turn_id option"
  fr_approval_id :: "approval_id option"
  fr_tool_id :: tool_id
  fr_action :: string
  fr_params :: json

definition emit_denied ::
  "'w tool_env \<Rightarrow> file_request \<Rightarrow> string \<Rightarrow> json \<Rightarrow> ('w, unit) tool_action" where
  "emit_denied env req error result =
     emit_tool_denied env (fr_thread_id req) (fr_tool_id req) (fr_turn_id req) (fr_action req)
       (Some (fr_params req)) error result"

definition deny_file_request ::
  "'w tool_env \<Rightarrow> file_request \<Rightarrow> string \<Rightarrow> tool_error + json \<Rightarrow> ('w, json) tool_action" where
  "deny_file_request env req error response =
     act_bind (act_lift response) (\<lambda>result.
     act_bind (emit_denied env req error result) (\<lambda>_.
     act_return result))"

definition gate_approval ::
  "'w tool_env \<Rightarrow> approval_id \<Rightarrow> approval_policy \<Rightarrow> file_request \<Rightarrow> ('w, approval_gate) tool_action" where
  "gate_approval env fresh approval_policy req =
     on_server (gate_approval_with_deps (te_server env) (te_lib env) (te_exec_policy env) fresh
       (fr_thread_id req) (fr_turn_id req) approval_policy
       \<lparr>ar_approval_id = fr_approval_id req, ar_action = fr_action req, ar_params = fr_params req\<rparr>)"

definition enforce_file_mode_and_approval ::
  "'w tool_env \<Rightarrow> approval_id \<Rightarrow> path \<Rightarrow> thread_state \<Rightarrow> file_request \<Rightarrow> (mode_def \<Rightarrow> mode_decision) \<Rightarrow>
     ('w, file_mode_approval_gate) tool_action" where
  "enforce_file_mode_and_approval env fresh thread_root state req base_decision_for_mode =
     act_bind (act_look (\<lambda>s. Inr (load_modes env thread_root (ts_world s)))) (\<lambda>catalog.
     case catalog_mode catalog (st_mode state) of
       None \<Rightarrow>
         act_bind (deny_file_request env req ''unknown mode''
                     (file_unknown_mode_denied_response env (fr_tool_id req) (st_mode state)
                        (join_names (mode_names catalog))
                        (map_option (te_show_catalog_error env) (mc_load_error catalog)))) (\<lambda>result.
         act_return (FileDenied result))
     | Some mode \<Rightarrow>
         let audit = resolve_mode_and_role_decision_audit catalog mode (Some (st_role state)) (fr_action req)
                       base_decision_for_mode
         in if audit_decision audit = Deny then
              act_bind (deny_file_request env req (''mode denies '' @ fr_action req)
                          (file_mode_denied_response env (fr_tool_id req) (st_mode state) audit)) (\<lambda>result.
              act_return (FileDenied result))
            else if audit_decision audit = Prompt then
              act_bind (gate_approval env fresh (st_approval_policy state) req) (\<lambda>gate.
              case gate of
                GateApproved \<Rightarrow> act_return (FileAllowed mode)
              | GateDenied remembered \<Rightarrow>
                  act_bind (deny_file_request env req (approval_denied_error remembered)
                              (file_denied_response env (fr_tool_id req) (Some remembered))) (\<lambda>result.
                  act_return (FileDenied result))
              | GateNeedsApproval approval_id \<Rightarrow>
                  act_return (FileDenied (file_needs_approval_response env approval_id)))
            else act_return (FileAllowed mode))"

section \<open>The pipeline of the tools that write\<close>

text \<open>
  What the five handlers differ in. \<open>wl_early\<close>: the protected names are checked before the
  mode is consulted, which \<open>fs/mkdir\<close> leaves to the work itself. \<open>wl_not_root\<close>: the thread's
  root itself is refused.
\<close>

record ('w, 'a) write_tool =
  wl_path :: string
  wl_secret_error :: string
  wl_early :: bool
  wl_create_parents :: bool
  wl_not_root :: bool
  wl_run :: "path \<Rightarrow> path \<Rightarrow> ('w, runtime_error, 'a) state_action"
  wl_result :: "path \<times> 'a \<Rightarrow> json"
  wl_respond :: "path \<times> 'a \<Rightarrow> json"

definition edit_decision :: "'w tool_env \<Rightarrow> path \<Rightarrow> mode_def \<Rightarrow> mode_decision" where
  "edit_decision env rel mode = decision_for_path (te_globs env) (mp_edit (md_permissions mode)) (path_string rel)"

definition write_work ::
  "'w tool_env \<Rightarrow> path \<Rightarrow> thread_state \<Rightarrow> file_request \<Rightarrow> ('w, 'a) write_tool \<Rightarrow> mode_def \<Rightarrow> ('w, path \<times> 'a) tool_action" where
  "write_work env thread_root state req tool mode =
     act_bind (on_world SandboxFailed (resolve_file_for_sandbox (te_fs env) thread_root (st_sandbox_policy state)
                 (st_sandbox_writable_roots state) (components (wl_path tool)) AccessWrite
                 (wl_create_parents tool))) (\<lambda>p.
     if wl_not_root tool \<and> p = thread_root then act_fail (RootRefused p)
     else
       act_bind (on_world SandboxFailed (act_look (\<lambda>w.
                   resolve_sandbox_write_target (te_fs env) w thread_root (st_sandbox_writable_roots state) p))) (\<lambda>target.
       if is_secret_rel_path (wt_rel_path target) then
         act_bind (act_lift (file_denied_response env (fr_tool_id req) None)) (\<lambda>result.
         act_fail (ToolDenied (wl_secret_error tool) result))
       else
         act_bind (act_look (\<lambda>s. Inr (load_modes env thread_root (ts_world s)))) (\<lambda>catalog.
         let audit = resolve_mode_and_role_decision_audit catalog mode (Some (st_role state)) (fr_action req)
                       (edit_decision env (wt_rel_path target))
         in if audit_decision audit = Deny then
              act_bind (act_lift (file_mode_denied_response env (fr_tool_id req) (st_mode state) audit)) (\<lambda>result.
              act_fail (ToolDenied (''mode denies '' @ fr_action req) result))
            else
              act_bind (on_world RuntimeFailed (wl_run tool (wt_root target) (wt_rel_path target))) (\<lambda>a.
              act_return (p, a)))))"

definition start_tool :: "'w tool_env \<Rightarrow> file_request \<Rightarrow> ('w, thread_event) tool_action" where
  "start_tool env req =
     tool_append env (fr_thread_id req)
       (ToolStarted (fr_tool_id req) (fr_turn_id req) (fr_action req) (Some (fr_params req)))"

definition perform_write ::
  "'w tool_env \<Rightarrow> path \<Rightarrow> thread_state \<Rightarrow> file_request \<Rightarrow> ('w, 'a) write_tool \<Rightarrow> mode_def \<Rightarrow> ('w, json) tool_action" where
  "perform_write env thread_root state req tool mode =
     act_bind (start_tool env req) (\<lambda>_.
     act_bind (act_attempt (write_work env thread_root state req tool mode)) (\<lambda>outcome.
     complete_tool env (fr_thread_id req) (fr_tool_id req) (wl_result tool) (wl_respond tool) outcome))"

definition check_target ::
  "'w tool_env \<Rightarrow> approval_id \<Rightarrow> path \<Rightarrow> thread_state \<Rightarrow> file_request \<Rightarrow> ('w, 'a) write_tool \<Rightarrow> ('w, json) tool_action" where
  "check_target env fresh thread_root state req tool =
     act_bind (on_world SandboxFailed (act_look (\<lambda>w.
                 preview_sandbox_write_target (te_fs env) w thread_root (st_sandbox_policy state)
                   (st_sandbox_writable_roots state) (components (wl_path tool))))) (\<lambda>target.
     if wl_early tool \<and> is_secret_rel_path (wt_rel_path target) then
       deny_file_request env req (wl_secret_error tool) (file_denied_response env (fr_tool_id req) None)
     else
       act_bind (enforce_file_mode_and_approval env fresh thread_root state req
                   (edit_decision env (wt_rel_path target))) (\<lambda>gate.
       case gate of
         FileDenied result \<Rightarrow> act_return result
       | FileAllowed mode \<Rightarrow> perform_write env thread_root state req tool mode))"

definition run_write_tool ::
  "'w tool_env \<Rightarrow> approval_id \<Rightarrow> file_request \<Rightarrow> ('w, 'a) write_tool \<Rightarrow> ('w, json) tool_action" where
  "run_write_tool env fresh req tool =
     act_bind (load_thread_root env (fr_thread_id req)) (\<lambda>thread_root.
     act_bind (on_server (handle_state (fr_thread_id req))) (\<lambda>state.
     act_bind (enforce_thread_allowed_tools env (fr_thread_id req) (fr_tool_id req) (fr_turn_id req)
                 (fr_action req) (Some (fr_params req)) (st_allowed_tools state)) (\<lambda>denied.
     if denied \<noteq> None then
       act_lift (file_allowed_tools_denied_response env (fr_tool_id req) (fr_action req) (st_allowed_tools state))
     else if st_sandbox_policy state = ReadOnly then
       deny_file_request env req (''sandbox_policy=read_only forbids '' @ fr_action req)
         (file_sandbox_policy_denied_response env (fr_tool_id req) (st_sandbox_policy state))
     else check_target env fresh thread_root state req tool)))"

section \<open>Writing, patching, editing, deleting, creating\<close>

definition library :: "('w, string, 'a) state_action \<Rightarrow> ('w, runtime_error, 'a) state_action" where
  "library m = act_map_error LibraryError m"

definition len64 :: "'a list \<Rightarrow> u64" where
  "len64 xs = of_nat (length xs)"

text \<open>A limit the caller may choose, up to a cap.\<close>

definition or_limit :: "u64 option \<Rightarrow> u64 \<Rightarrow> u64 \<Rightarrow> u64" where
  "or_limit given fallback cap = min (case given of Some n \<Rightarrow> n | None \<Rightarrow> fallback) cap"

record file_call_base =
  fc_thread_id :: thread_id
  fc_turn_id :: "turn_id option"
  fc_approval_id :: "approval_id option"
  fc_path :: string

definition request_for :: "file_call_base \<Rightarrow> tool_id \<Rightarrow> string \<Rightarrow> json \<Rightarrow> file_request" where
  "request_for call tool_id action params =
     \<lparr>fr_thread_id = fc_thread_id call, fr_turn_id = fc_turn_id call, fr_approval_id = fc_approval_id call,
      fr_tool_id = tool_id, fr_action = action, fr_params = params\<rparr>"

definition tool_response :: "'w tool_env \<Rightarrow> tool_id \<Rightarrow> (string \<times> json) list \<Rightarrow> json" where
  "tool_response env tool_id entries = JObject ((''tool_id'', JString (te_show_tool env tool_id)) # entries)"

record file_write_params = file_call_base +
  fw_text :: string
  fw_create_parent_dirs :: "bool option"

definition write_create_parents :: "'a file_write_params_scheme \<Rightarrow> bool" where
  "write_create_parents params = (case fw_create_parent_dirs params of Some b \<Rightarrow> b | None \<Rightarrow> True)"

definition write_approval_params :: "file_write_params \<Rightarrow> json" where
  "write_approval_params params =
     JObject [(''path'', JString (fc_path params)), (''bytes'', nat_json (len64 (fw_text params))),
              (''create_parent_dirs'', JBool (write_create_parents params))]"

definition handle_file_write ::
  "'w tool_env \<Rightarrow> tool_id \<Rightarrow> approval_id \<Rightarrow> file_write_params \<Rightarrow> ('w, json) tool_action" where
  "handle_file_write env tool_id fresh params =
     run_write_tool env fresh
       (request_for (file_call_base.truncate params) tool_id ''file/write'' (write_approval_params params))
       \<lparr>wl_path = fc_path params, wl_secret_error = ''refusing to write .env-style secrets file'',
        wl_early = True, wl_create_parents = write_create_parents params, wl_not_root = False,
        wl_run = (\<lambda>root rel. library (write_text_workspace (te_omne env) ''workspace'' root rel
                    (fw_text params) (write_create_parents params))),
        wl_result = (\<lambda>(p, r). JObject [(''bytes'', nat_json (wr_bytes_written r))]),
        wl_respond = (\<lambda>(p, r). tool_response env tool_id
          [(''resolved_path'', JString (path_string p)), (''bytes_written'', nat_json (wr_bytes_written r))])\<rparr>"

record file_patch_params = file_call_base +
  fp_patch :: string
  fp_max_bytes :: "u64 option"

definition patch_approval_params :: "file_patch_params \<Rightarrow> json" where
  "patch_approval_params params =
     JObject [(''path'', JString (fc_path params)), (''patch_bytes'', nat_json (len64 (fp_patch params))),
              (''max_bytes'', nat_json (or_limit (fp_max_bytes params) (4 * 1024 * 1024) (16 * 1024 * 1024)))]"

definition handle_file_patch ::
  "'w tool_env \<Rightarrow> tool_id \<Rightarrow> approval_id \<Rightarrow> file_patch_params \<Rightarrow> ('w, json) tool_action" where
  "handle_file_patch env tool_id fresh params =
     run_write_tool env fresh
       (request_for (file_call_base.truncate params) tool_id ''file/patch'' (patch_approval_params params))
       \<lparr>wl_path = fc_path params, wl_secret_error = ''refusing to patch .env-style secrets file'',
        wl_early = True, wl_create_parents = False, wl_not_root = False,
        wl_run = (\<lambda>root rel. library (patch_text_workspace (te_omne env) ''workspace'' root rel
                    (fp_patch params) (or_limit (fp_max_bytes params) (4 * 1024 * 1024) (16 * 1024 * 1024)))),
        wl_result = (\<lambda>(p, _, bytes, changed). JObject
          [(''changed'', JBool changed), (''patch_bytes'', nat_json (len64 (fp_patch params))),
           (''bytes'', nat_json bytes)]),
        wl_respond = (\<lambda>(p, _, bytes, changed). tool_response env tool_id
          [(''resolved_path'', JString (path_string p)), (''changed'', JBool changed),
           (''patch_bytes'', nat_json (len64 (fp_patch params))), (''bytes_written'', nat_json bytes)])\<rparr>"

record file_edit_params = file_call_base +
  fe_edits :: "edit_replace_op list"
  fe_max_bytes :: "u64 option"

definition edit_approval_params :: "file_edit_params \<Rightarrow> json" where
  "edit_approval_params params =
     JObject [(''path'', JString (fc_path params)), (''edits'', nat_json (len64 (fe_edits params))),
              (''max_bytes'', nat_json (or_limit (fe_max_bytes params) (4 * 1024 * 1024) (16 * 1024 * 1024)))]"

definition handle_file_edit ::
  "'w tool_env \<Rightarrow> tool_id \<Rightarrow> approval_id \<Rightarrow> file_edit_params \<Rightarrow> ('w, json) tool_action" where
  "handle_file_edit env tool_id fresh params =
     (if fe_edits params = [] then act_fail EditsMustNotBeEmpty
      else if list_ex (\<lambda>e. eo_old e = []) (fe_edits params) then act_fail EditOldMustNotBeEmpty
      else run_write_tool env fresh
        (request_for (file_call_base.truncate params) tool_id ''file/edit'' (edit_approval_params params))
        \<lparr>wl_path = fc_path params, wl_secret_error = ''refusing to edit .env-style secrets file'',
         wl_early = True, wl_create_parents = False, wl_not_root = False,
         wl_run = (\<lambda>root rel. edit_replace_workspace (te_omne env) ''workspace'' root rel
                     (fe_edits params) (or_limit (fe_max_bytes params) (4 * 1024 * 1024) (16 * 1024 * 1024))),
         wl_result = (\<lambda>(p, r). JObject
           [(''changed'', JBool (er_changed r)), (''replacements'', nat_json (of_nat (er_replacements r))),
            (''bytes'', nat_json (er_bytes_written r))]),
         wl_respond = (\<lambda>(p, r). tool_response env tool_id
           [(''resolved_path'', JString (path_string p)), (''changed'', JBool (er_changed r)),
            (''replacements'', nat_json (of_nat (er_replacements r))),
            (''bytes_written'', nat_json (er_bytes_written r))])\<rparr>)"

text \<open>Deleting a path and creating a directory take the same parameters.\<close>

record file_tree_params = file_call_base +
  ft_recursive :: bool

definition tree_approval_params :: "file_tree_params \<Rightarrow> json" where
  "tree_approval_params params =
     JObject [(''path'', JString (fc_path params)), (''recursive'', JBool (ft_recursive params))]"

definition handle_file_delete ::
  "'w tool_env \<Rightarrow> tool_id \<Rightarrow> approval_id \<Rightarrow> file_tree_params \<Rightarrow> ('w, json) tool_action" where
  "handle_file_delete env tool_id fresh params =
     run_write_tool env fresh
       (request_for (file_call_base.truncate params) tool_id ''file/delete'' (tree_approval_params params))
       \<lparr>wl_path = fc_path params, wl_secret_error = ''refusing to delete .env-style secrets file'',
        wl_early = True, wl_create_parents = False, wl_not_root = True,
        wl_run = (\<lambda>root rel. library (delete_path_workspace (te_omne env) ''workspace'' root rel
                    (ft_recursive params) True)),
        wl_result = (\<lambda>(p, _, deleted). JObject
          [(''deleted'', JBool deleted), (''path'', JString (path_string p))]),
        wl_respond = (\<lambda>(p, _, deleted). tool_response env tool_id
          [(''deleted'', JBool deleted), (''resolved_path'', JString (path_string p))])\<rparr>"

definition handle_fs_mkdir ::
  "'w tool_env \<Rightarrow> tool_id \<Rightarrow> approval_id \<Rightarrow> file_tree_params \<Rightarrow> ('w, json) tool_action" where
  "handle_fs_mkdir env tool_id fresh params =
     run_write_tool env fresh
       (request_for (file_call_base.truncate params) tool_id ''fs/mkdir'' (tree_approval_params params))
       \<lparr>wl_path = fc_path params, wl_secret_error = ''refusing to mkdir .env-style secrets path'',
        wl_early = False, wl_create_parents = ft_recursive params, wl_not_root = True,
        wl_run = (\<lambda>root rel. library (mkdir_workspace (te_omne env) ''workspace'' root rel
                    (ft_recursive params) True)),
        wl_result = (\<lambda>(p, _, created). JObject
          [(''created'', JBool created), (''path'', JString (path_string p))]),
        wl_respond = (\<lambda>(p, _, created). tool_response env tool_id
          [(''created'', JBool created), (''resolved_path'', JString (path_string p))])\<rparr>"

section \<open>Reading, globbing, searching\<close>

datatype file_root = Workspace | Reference

fun root_str :: "file_root \<Rightarrow> string" where
  "root_str Workspace = ''workspace''"
| "root_str Reference = ''reference''"

definition root_or_default :: "file_root option \<Rightarrow> file_root" where
  "root_or_default r = (case r of Some r \<Rightarrow> r | None \<Rightarrow> Workspace)"

definition resolve_reference_repo_root :: "'w tool_env \<Rightarrow> path \<Rightarrow> 'w \<Rightarrow> sandbox_error + path" where
  "resolve_reference_repo_root env thread_root w =
     resolve_dir (te_fs env) w thread_root (components ''.omne_data/reference/repo'')"

text \<open>A reference root that is not configured fails the tool.\<close>

definition reference_root_failed ::
  "'w tool_env \<Rightarrow> file_request \<Rightarrow> file_root \<Rightarrow> tool_error \<Rightarrow> ('w, 'a) tool_action" where
  "reference_root_failed env req root err =
     act_bind (tool_append env (fr_thread_id req)
       (ToolCompleted (fr_tool_id req) ToolStatusFailed None (Some (te_show_error env err))
         (Some (JObject [(''root'', JString (root_str root)),
                         (''reason'', JString ''reference repo is not configured'')])))) (\<lambda>_.
     act_fail err)"

definition choose_root :: "'w tool_env \<Rightarrow> path \<Rightarrow> file_root \<Rightarrow> ('w, tool_error + path) tool_action" where
  "choose_root env thread_root root =
     (case root of
        Workspace \<Rightarrow> act_return (Inr thread_root)
      | Reference \<Rightarrow> act_attempt (on_world SandboxFailed (act_look (resolve_reference_repo_root env thread_root))))"

record file_read_params = file_call_base +
  rd_root :: "file_root option"
  rd_max_bytes :: "u64 option"

definition read_secret_error :: string where
  "read_secret_error = ''refusing to read .env-style file without example/template suffix''"

definition read_permission :: "mode_def \<Rightarrow> mode_decision" where
  "read_permission mode = mp_read (md_permissions mode)"

definition read_work ::
  "'w tool_env \<Rightarrow> path \<Rightarrow> path \<Rightarrow> thread_state \<Rightarrow> file_request \<Rightarrow> file_root \<Rightarrow> string \<Rightarrow> u64 \<Rightarrow> mode_def \<Rightarrow>
     ('w, path \<times> string \<times> u64) tool_action" where
  "read_work env thread_root root state req file_root input max_bytes mode =
     act_bind (on_world SandboxFailed
       (case file_root of
          Workspace \<Rightarrow> resolve_file_for_sandbox (te_fs env) thread_root (st_sandbox_policy state)
                         (st_sandbox_writable_roots state) (components input) AccessRead False
        | Reference \<Rightarrow> resolve_file (te_fs env) root (components input) AccessRead False)) (\<lambda>p.
     act_bind (act_map_error PathRefused (act_lift (relative_path_under_root (path_string root) (path_string p)))) (\<lambda>rel.
     if is_read_blocked_rel_path (components rel) then
       act_bind (act_lift (file_denied_response env (fr_tool_id req) None)) (\<lambda>result.
       act_fail (ToolDenied read_secret_error result))
     else
       act_bind (act_look (\<lambda>s. Inr (load_modes env thread_root (ts_world s)))) (\<lambda>catalog.
       let audit = resolve_mode_and_role_decision_audit catalog mode (Some (st_role state)) (fr_action req)
                     read_permission
       in if audit_decision audit = Deny then
            act_bind (act_lift (file_mode_denied_response env (fr_tool_id req) (st_mode state) audit)) (\<lambda>result.
            act_fail (ToolDenied (''mode denies '' @ fr_action req) result))
          else
            act_bind (on_world RuntimeFailed (library (act_look
              (read_text_read_only (te_omne env) (root_str file_root) root (components rel) max_bytes)))) (\<lambda>(_, bytes, content).
            act_return (p, content, bytes)))))"

definition refuse_read :: "'w tool_env \<Rightarrow> file_request \<Rightarrow> ('w, json) tool_action" where
  "refuse_read env req =
     act_bind (start_tool env req) (\<lambda>_.
     act_bind (act_lift (file_denied_response env (fr_tool_id req) None)) (\<lambda>denied.
     act_bind (tool_append env (fr_thread_id req) (ToolCompleted (fr_tool_id req) ToolStatusDenied
                 (structured_error_from_result_value env denied) (Some read_secret_error) (Some denied))) (\<lambda>_.
     act_return denied)))"

definition perform_read ::
  "'w tool_env \<Rightarrow> path \<Rightarrow> path \<Rightarrow> thread_state \<Rightarrow> file_request \<Rightarrow> file_root \<Rightarrow> string \<Rightarrow> u64 \<Rightarrow> mode_def \<Rightarrow>
     ('w, json) tool_action" where
  "perform_read env thread_root root state req file_root input max_bytes mode =
     act_bind (start_tool env req) (\<lambda>_.
     act_bind (act_attempt (read_work env thread_root root state req file_root input max_bytes mode)) (\<lambda>outcome.
     complete_tool env (fr_thread_id req) (fr_tool_id req)
       (\<lambda>(p, content, bytes). JObject [(''bytes'', nat_json bytes), (''truncated'', JBool False)])
       (\<lambda>(p, content, bytes). tool_response env (fr_tool_id req)
         [(''resolved_path'', JString (path_string p)), (''root'', JString (root_str file_root)),
          (''text'', JString content), (''truncated'', JBool False)])
       outcome))"

definition read_below_root ::
  "'w tool_env \<Rightarrow> approval_id \<Rightarrow> path \<Rightarrow> path \<Rightarrow> thread_state \<Rightarrow> file_request \<Rightarrow> file_root \<Rightarrow> string \<Rightarrow> u64 \<Rightarrow>
     ('w, json) tool_action" where
  "read_below_root env fresh thread_root root state req file_root input max_bytes =
     (let rel_path = relative_path_under_root (path_string root) input;
          blocked = (case rel_path of Inr rel \<Rightarrow> is_read_blocked_rel_path (components rel) | Inl _ \<Rightarrow> False)
      in if blocked then refuse_read env req
         else
           act_bind (enforce_file_mode_and_approval env fresh thread_root state req
                       (\<lambda>mode. case rel_path of Inr _ \<Rightarrow> read_permission mode | Inl _ \<Rightarrow> Deny)) (\<lambda>gate.
           case gate of
             FileDenied result \<Rightarrow> act_return result
           | FileAllowed mode \<Rightarrow> perform_read env thread_root root state req file_root input max_bytes mode))"

definition run_read_tool ::
  "'w tool_env \<Rightarrow> approval_id \<Rightarrow> file_request \<Rightarrow> file_root \<Rightarrow> string \<Rightarrow> u64 \<Rightarrow> ('w, json) tool_action" where
  "run_read_tool env fresh req file_root input max_bytes =
     act_bind (load_thread_root env (fr_thread_id req)) (\<lambda>thread_root.
     act_bind (on_server (handle_state (fr_thread_id req))) (\<lambda>state.
     act_bind (enforce_thread_allowed_tools env (fr_thread_id req) (fr_tool_id req) (fr_turn_id req)
                 (fr_action req) (Some (fr_params req)) (st_allowed_tools state)) (\<lambda>denied.
     if denied \<noteq> None then
       act_lift (file_allowed_tools_denied_response env (fr_tool_id req) (fr_action req) (st_allowed_tools state))
     else
       act_bind (choose_root env thread_root file_root) (\<lambda>chosen.
       case chosen of
         Inl err \<Rightarrow> act_bind (start_tool env req) (\<lambda>_. reference_root_failed env req file_root err)
       | Inr root \<Rightarrow> read_below_root env fresh thread_root root state req file_root input max_bytes))))"

definition handle_file_read ::
  "'w tool_env \<Rightarrow> tool_id \<Rightarrow> approval_id \<Rightarrow> file_read_params \<Rightarrow> ('w, json) tool_action" where
  "handle_file_read env tool_id fresh params =
     (let file_root = root_or_default (rd_root params);
          max_bytes = or_limit (rd_max_bytes params) (256 * 1024) (4 * 1024 * 1024)
      in run_read_tool env fresh
           (request_for (file_call_base.truncate params) tool_id ''file/read''
              (JObject [(''root'', JString (root_str file_root)), (''path'', JString (fc_path params)),
                        (''max_bytes'', nat_json max_bytes)]))
           file_root (fc_path params) max_bytes)"

text \<open>
  What globbing and searching share: the gates, the start of the tool, the choice of the root
  and the outcome of the library's work.
\<close>

definition run_search_tool ::
  "'w tool_env \<Rightarrow> approval_id \<Rightarrow> file_request \<Rightarrow> file_root \<Rightarrow> (path \<Rightarrow> 'w \<Rightarrow> string + 'a) \<Rightarrow> ('a \<Rightarrow> json) \<Rightarrow> ('a \<Rightarrow> json) \<Rightarrow>
     ('w, json) tool_action" where
  "run_search_tool env fresh req file_root search result respond =
     act_bind (load_thread_root env (fr_thread_id req)) (\<lambda>thread_root.
     act_bind (on_server (handle_state (fr_thread_id req))) (\<lambda>state.
     act_bind (enforce_thread_allowed_tools env (fr_thread_id req) (fr_tool_id req) (fr_turn_id req)
                 (fr_action req) (Some (fr_params req)) (st_allowed_tools state)) (\<lambda>denied.
     if denied \<noteq> None then
       act_lift (file_allowed_tools_denied_response env (fr_tool_id req) (fr_action req) (st_allowed_tools state))
     else
       act_bind (enforce_file_mode_and_approval env fresh thread_root state req read_permission) (\<lambda>gate.
       case gate of
         FileDenied denied \<Rightarrow> act_return denied
       | FileAllowed _ \<Rightarrow>
           act_bind (start_tool env req) (\<lambda>_.
           act_bind (choose_root env thread_root file_root) (\<lambda>chosen.
           case chosen of
             Inl err \<Rightarrow> reference_root_failed env req file_root err
           | Inr root \<Rightarrow>
               act_bind (act_attempt (on_world RuntimeFailed (library (act_look (search root))))) (\<lambda>outcome.
               complete_tool env (fr_thread_id req) (fr_tool_id req) result respond outcome)))))))"

record file_glob_params =
  gl_thread_id :: thread_id
  gl_turn_id :: "turn_id option"
  gl_approval_id :: "approval_id option"
  gl_root :: "file_root option"
  gl_pattern :: string
  gl_max_results :: "u64 option"

definition handle_file_glob ::
  "'w tool_env \<Rightarrow> tool_id \<Rightarrow> approval_id \<Rightarrow> file_glob_params \<Rightarrow> ('w, json) tool_action" where
  "handle_file_glob env tool_id fresh params =
     (let file_root = root_or_default (gl_root params);
          max_results = or_limit (gl_max_results params) 2000 20000
      in run_search_tool env fresh
           \<lparr>fr_thread_id = gl_thread_id params, fr_turn_id = gl_turn_id params,
            fr_approval_id = gl_approval_id params, fr_tool_id = tool_id, fr_action = ''file/glob'',
            fr_params = JObject [(''root'', JString (root_str file_root)),
              (''pattern'', JString (gl_pattern params)), (''max_results'', nat_json max_results)]\<rparr>
           file_root
           (\<lambda>root. glob_read_only_paths (te_omne env) (root_str file_root) root (gl_pattern params) max_results)
           (\<lambda>(paths, truncated). JObject
             [(''matches'', nat_json (len64 paths)), (''truncated'', JBool truncated)])
           (\<lambda>(paths, truncated). tool_response env tool_id
             [(''root'', JString (root_str file_root)), (''paths'', JArray (map JString paths)),
              (''truncated'', JBool truncated)]))"

record file_grep_params =
  gp_thread_id :: thread_id
  gp_turn_id :: "turn_id option"
  gp_approval_id :: "approval_id option"
  gp_root :: "file_root option"
  gp_query :: string
  gp_is_regex :: bool
  gp_include_glob :: "string option"
  gp_max_matches :: "u64 option"
  gp_max_bytes_per_file :: "u64 option"
  gp_max_files :: "u64 option"

definition grep_match_json :: "grep_match_outcome \<Rightarrow> json" where
  "grep_match_json m =
     JObject [(''path'', JString (mo_path m)), (''line_number'', nat_json (mo_line_number m)),
              (''line'', JString (mo_line m))]"

definition grep_counts :: "grep_outcome \<Rightarrow> (string \<times> json) list" where
  "grep_counts r =
     [(''truncated'', JBool (go_truncated r)), (''files_scanned'', nat_json (go_scanned_files r)),
      (''files_skipped_too_large'', nat_json (go_skipped_too_large_files r)),
      (''files_skipped_binary'', nat_json (go_skipped_non_utf8_files r))]"

definition handle_file_grep ::
  "'w tool_env \<Rightarrow> tool_id \<Rightarrow> approval_id \<Rightarrow> file_grep_params \<Rightarrow> ('w, json) tool_action" where
  "handle_file_grep env tool_id fresh params =
     (let file_root = root_or_default (gp_root params);
          max_matches = or_limit (gp_max_matches params) 200 2000;
          max_bytes_per_file = or_limit (gp_max_bytes_per_file params) (1024 * 1024) (16 * 1024 * 1024);
          max_files = or_limit (gp_max_files params) 20000 200000
      in run_search_tool env fresh
           \<lparr>fr_thread_id = gp_thread_id params, fr_turn_id = gp_turn_id params,
            fr_approval_id = gp_approval_id params, fr_tool_id = tool_id, fr_action = ''file/grep'',
            fr_params = JObject [(''root'', JString (root_str file_root)),
              (''query'', JString (gp_query params)), (''is_regex'', JBool (gp_is_regex params)),
              (''include_glob'', opt_json JString (gp_include_glob params)),
              (''max_matches'', nat_json max_matches),
              (''max_bytes_per_file'', nat_json max_bytes_per_file), (''max_files'', nat_json max_files)]\<rparr>
           file_root
           (\<lambda>root. grep_read_only_paths (te_omne env) (root_str file_root) root (gp_query params)
              (gp_is_regex params) (gp_include_glob params) max_matches max_bytes_per_file max_files)
           (\<lambda>r. JObject ((''matches'', nat_json (len64 (go_matches r))) # grep_counts r))
           (\<lambda>r. tool_response env tool_id
             ([(''root'', JString (root_str file_root)),
               (''matches'', JArray (map grep_match_json (go_matches r)))] @ grep_counts r)))"

end
