(* ===== verification/FileGates.thy ===== *)
theory FileGates
  imports FileTools
begin

text \<open>
  What the file tools guarantee: no call changes the world unless it passed every gate, every
  call that started is completed, and logs only grow. The calls are collected in one type, as
  the routes of \<open>app/file.rs\<close> and \<open>app/fs.rs\<close> are.
\<close>

section \<open>The routes\<close>

datatype file_call =
    CallRead file_read_params
  | CallGlob file_glob_params
  | CallGrep file_grep_params
  | CallWrite file_write_params
  | CallPatch file_patch_params
  | CallEdit file_edit_params
  | CallDelete file_tree_params
  | CallMkdir file_tree_params

fun handle_file_request ::
  "'w tool_env \<Rightarrow> tool_id \<Rightarrow> approval_id \<Rightarrow> file_call \<Rightarrow> ('w, json) tool_action" where
  "handle_file_request env tool_id fresh (CallRead params) = handle_file_read env tool_id fresh params"
| "handle_file_request env tool_id fresh (CallGlob params) = handle_file_glob env tool_id fresh params"
| "handle_file_request env tool_id fresh (CallGrep params) = handle_file_grep env tool_id fresh params"
| "handle_file_request env tool_id fresh (CallWrite params) = handle_file_write env tool_id fresh params"
| "handle_file_request env tool_id fresh (CallPatch params) = handle_file_patch env tool_id fresh params"
| "handle_file_request env tool_id fresh (CallEdit params) = handle_file_edit env tool_id fresh params"
| "handle_file_request env tool_id fresh (CallDelete params) = handle_file_delete env tool_id fresh params"
| "handle_file_request env tool_id fresh (CallMkdir params) = handle_fs_mkdir env tool_id fresh params"

lemmas handler_defs =
  handle_file_read_def handle_file_glob_def handle_file_grep_def handle_file_write_def
  handle_file_patch_def handle_file_edit_def handle_file_delete_def handle_fs_mkdir_def

section \<open>What the handlers do to the state\<close>

text \<open>
  The parts of the handlers that only look at the world are within every relation that safe
  changes of the server are within.
\<close>

interpretation ro: action_relation "(=)"
  by unfold_locales auto

lemma resolve_file_reads_only: "act_within (=) (resolve_file fs root input access False)"
  unfolding resolve_file_def Let_def
  by (auto intro!: ro.within_intros split: option.split path_access.split)

lemma resolve_reads_only: "act_within (=) (resolve_file_for_sandbox fs root policy writable input access False)"
  unfolding resolve_file_for_sandbox_def resolve_file_unrestricted_def resolve_file_with_writable_roots_def Let_def
  by (auto intro!: ro.within_intros resolve_file_reads_only split: option.split path_access.split)

lemma safe_handle_state: "safe_action (handle_state tid)"
  by (rule sv.within_same_state) (simp add: handle_state_def split: option.split sum.split)

lemma safe_gate_approval:
  "safe_action (gate_approval_with_deps env lib exec_policy fresh tid turn_id approval_policy request)"
  unfolding gate_approval_with_deps_def ensure_approval_def remembered_approval_decision_def
    request_and_decide_def request_only_def request_approval_def
  by (auto intro!: safe_intros split: option.split approval_policy.split approval_decision.split)

locale server_relation = action_relation R for R :: "'w tool_state \<Rightarrow> 'w tool_state \<Rightarrow> bool" +
  assumes R_server: "safe_step (ts_server s) v \<Longrightarrow> R s (s\<lparr>ts_server := v\<rparr>)"
begin

lemma on_server_within: "safe_action m \<Longrightarrow> act_within R (on_server m)"
  by (auto simp: act_within_def on_server_def intro: R_server split: prod.splits)

lemma on_world_within: "act_within (=) m \<Longrightarrow> act_within R (on_world wrap m)"
  by (force simp: act_within_def on_world_def intro: R_refl split: prod.splits)

lemmas parts = within_intros on_server_within on_world_within ro.within_look safe_intros
  safe_gate_approval safe_handle_state resolve_reads_only resolve_file_reads_only

lemma load_thread_root_within: "act_within R (load_thread_root env tid)"
  unfolding load_thread_root_def by (auto intro!: parts split: option.split)

lemma enforce_allowed_within: "act_within R (enforce_thread_allowed_tools env tid tool_id turn_id tool params allowed)"
  unfolding enforce_thread_allowed_tools_def emit_tool_denied_def tool_append_def
  by (auto intro!: parts split: option.split)

lemma deny_within: "act_within R (deny_file_request env req error response)"
  unfolding deny_file_request_def emit_denied_def emit_tool_denied_def tool_append_def
  by (intro parts)

lemma enforce_mode_within: "act_within R (enforce_file_mode_and_approval env fresh thread_root state req base)"
  unfolding enforce_file_mode_and_approval_def gate_approval_def Let_def
  by (auto intro!: parts deny_within split: option.split approval_gate.split)

lemma append_within: "act_within R (tool_append env tid kind)"
  unfolding tool_append_def by (intro parts)

lemma complete_within: "act_within R (complete_tool env tid tool_id result respond outcome)"
  unfolding complete_tool_def
  by (auto intro!: parts append_within split: sum.split tool_error.split)

lemmas stages = load_thread_root_within enforce_allowed_within deny_within enforce_mode_within
  append_within complete_within

lemma run_write_within:
  assumes "\<And>root state mode. act_within R (write_work env root state req tool mode)"
  shows "act_within R (run_write_tool env fresh req tool)"
  unfolding run_write_tool_def check_target_def perform_write_def start_tool_def
  by (auto intro!: parts stages assms split: file_mode_approval_gate.split)

lemma choose_root_within: "act_within R (choose_root env thread_root root)"
  unfolding choose_root_def by (auto intro!: parts split: file_root.split)

lemma reference_failed_within: "act_within R (reference_root_failed env req root err)"
  unfolding reference_root_failed_def by (intro parts append_within)

lemma run_search_within: "act_within R (run_search_tool env fresh req file_root search result respond)"
  unfolding run_search_tool_def start_tool_def library_def
  by (auto intro!: parts stages ro.within_map_error choose_root_within reference_failed_within
      split: file_mode_approval_gate.split sum.split)

lemma read_work_within: "act_within R (read_work env thread_root root state req file_root input max_bytes mode)"
  unfolding read_work_def library_def Let_def
  by (auto intro!: parts ro.within_map_error split: prod.split file_root.split)

lemma run_read_within: "act_within R (run_read_tool env fresh req file_root input max_bytes)"
  unfolding run_read_tool_def read_below_root_def perform_read_def refuse_read_def start_tool_def Let_def
  by (auto intro!: parts stages choose_root_within reference_failed_within read_work_within
      split: file_mode_approval_gate.split sum.split)

end

definition tool_step :: "'w tool_state \<Rightarrow> 'w tool_state \<Rightarrow> bool" where
  "tool_step s s' \<longleftrightarrow> safe_step (ts_server s) (ts_server s')"

interpretation logs: server_relation tool_step
  by unfold_locales (auto simp: tool_step_def intro: sv.R_refl sv.R_trans)

definition same_world :: "'w tool_state \<Rightarrow> 'w tool_state \<Rightarrow> bool" where
  "same_world s s' \<longleftrightarrow> ts_world s' = ts_world s"

interpretation world: server_relation same_world
  by unfold_locales (auto simp: same_world_def)

section \<open>Logs only grow\<close>

lemma tool_on_world: "act_within tool_step (on_world wrap m)"
  by (auto simp: act_within_def on_world_def tool_step_def sv.R_refl split: prod.splits)

lemma tool_write_work: "act_within tool_step (write_work env thread_root state req tool mode)"
  unfolding write_work_def Let_def by (auto intro!: logs.within_intros tool_on_world)

text \<open>
  Whatever a file tool is asked and however the call ends, no event of any thread is lost
  or rewritten: every log keeps its events and stays replayable.
\<close>

theorem file_tools_append_only:
  assumes "handle_file_request env tool_id fresh call s = (r, s')" and "server_ok (ts_server s)"
  shows "server_ok (ts_server s') \<and>
    (\<forall>v. rel_option prefix (sv_logs (ts_server s) v) (sv_logs (ts_server s') v))"
proof -
  have "act_within tool_step (handle_file_request env tool_id fresh call)"
    by (cases call)
      (auto simp: handle_file_read_def handle_file_glob_def handle_file_grep_def handle_file_write_def
        handle_file_patch_def handle_file_edit_def handle_file_delete_def handle_fs_mkdir_def Let_def
        intro!: logs.run_read_within logs.run_search_within logs.run_write_within tool_write_work logs.within_intros)
  from act_withinD [OF this assms(1)] assms(2) show ?thesis
    by (simp add: tool_step_def safe_step_def logs_grow_def)
qed

section \<open>No change without permission\<close>

text \<open>The request and the path of a call that writes.\<close>

fun write_request :: "tool_id \<Rightarrow> file_call \<Rightarrow> (file_request \<times> string) option" where
  "write_request tool_id (CallWrite params) =
     Some (request_for (file_call_base.truncate params) tool_id ''file/write'' (write_approval_params params), fc_path params)"
| "write_request tool_id (CallPatch params) =
     Some (request_for (file_call_base.truncate params) tool_id ''file/patch'' (patch_approval_params params), fc_path params)"
| "write_request tool_id (CallEdit params) =
     Some (request_for (file_call_base.truncate params) tool_id ''file/edit'' (edit_approval_params params), fc_path params)"
| "write_request tool_id (CallDelete params) =
     Some (request_for (file_call_base.truncate params) tool_id ''file/delete'' (tree_approval_params params), fc_path params)"
| "write_request tool_id (CallMkdir params) =
     Some (request_for (file_call_base.truncate params) tool_id ''fs/mkdir'' (tree_approval_params params), fc_path params)"
| "write_request tool_id _ = None"

text \<open>
  A request may change the world: the thread allows the tool and is not read-only, the target
  lies below the thread's root or a writable root and, but for \<open>fs/mkdir\<close>, is not protected,
  and mode and role allow it, or ask for an approval that the gate grants.
\<close>

definition may_write :: "'w tool_env \<Rightarrow> approval_id \<Rightarrow> file_request \<Rightarrow> string \<Rightarrow> 'w tool_state \<Rightarrow> bool" where
  "may_write env fresh req input s \<longleftrightarrow>
     (\<exists>thread_root state s1 target mode decision.
        load_thread_root env (fr_thread_id req) s = (Inr thread_root, s1) \<and>
        handle_state (fr_thread_id req) (ts_server s1) = (Inr state, ts_server s1) \<and>
        (\<forall>tools. st_allowed_tools state = Some tools \<longrightarrow> fr_action req \<in> set tools) \<and>
        st_sandbox_policy state \<noteq> ReadOnly \<and>
        preview_sandbox_write_target (te_fs env) (ts_world s) thread_root (st_sandbox_policy state)
          (st_sandbox_writable_roots state) (components input) = Inr target \<and>
        (fr_action req \<noteq> ''fs/mkdir'' \<longrightarrow> \<not> is_secret_rel_path (wt_rel_path target)) \<and>
        catalog_mode (load_modes env thread_root (ts_world s)) (st_mode state) = Some mode \<and>
        decision = audit_decision (resolve_mode_and_role_decision_audit (load_modes env thread_root (ts_world s))
          mode (Some (st_role state)) (fr_action req) (edit_decision env (wt_rel_path target))) \<and>
        decision \<noteq> Deny \<and>
        (decision = Prompt \<longrightarrow>
           (\<exists>s2. gate_approval env fresh (st_approval_policy state) req s1 = (Inr GateApproved, s2))))"

lemma world_bindE:
  assumes "act_bind m f s = (r, s')" and "act_within same_world m" and "\<not> same_world s s'"
  obtains a t where "m s = (Inr a, t)" "f a t = (r, s')" "same_world s t"
proof -
  from assms(1) consider e t where "m s = (Inl e, t)" "s' = t" | a t where "m s = (Inr a, t)" "f a t = (r, s')"
    unfolding act_bind_eq by blast
  then show ?thesis
    using act_withinD [OF assms(2)] assms(3) that by cases blast+
qed

lemma same_world_trans: "same_world s t \<Longrightarrow> \<not> same_world s s' \<Longrightarrow> \<not> same_world t s'"
  by (simp add: same_world_def)

lemma on_server_Inr: "on_server m s = (Inr a, t) \<longleftrightarrow> (\<exists>v. m (ts_server s) = (Inr a, v) \<and> t = s\<lparr>ts_server := v\<rparr>)"
  by (auto simp: on_server_def split: prod.splits sum.splits)

lemma on_world_Inr: "on_world wrap m s = (Inr a, t) \<longleftrightarrow> (\<exists>w. m (ts_world s) = (Inr a, w) \<and> t = s\<lparr>ts_world := w\<rparr>)"
  by (auto simp: on_world_def split: prod.splits sum.splits)

lemma handle_state_same: "handle_state tid v = (r, v') \<Longrightarrow> v' = v"
  by (auto simp: handle_state_def split: option.splits sum.splits)

lemma allowed_tools_passed:
  "enforce_thread_allowed_tools env tid tool_id turn_id tool params allowed s = (Inr None, t) \<Longrightarrow>
     t = s \<and> (\<forall>tools. allowed = Some tools \<longrightarrow> tool \<in> set tools)"
  by (auto simp: enforce_thread_allowed_tools_def act_bind_eq act_simps split: option.splits if_splits)

lemma mode_gate_passed:
  assumes "enforce_file_mode_and_approval env fresh thread_root state req base s = (Inr (FileAllowed mode), t)"
  defines "catalog \<equiv> load_modes env thread_root (ts_world s)"
  defines "d \<equiv> audit_decision (resolve_mode_and_role_decision_audit catalog mode (Some (st_role state)) (fr_action req) base)"
  shows "catalog_mode catalog (st_mode state) = Some mode \<and> d \<noteq> Deny \<and>
    (if d = Prompt then gate_approval env fresh (st_approval_policy state) req s = (Inr GateApproved, t) else t = s)"
proof -
  have catalog: "load_modes env thread_root (ts_world s) = catalog" by (simp add: catalog_def)
  obtain m where m: "catalog_mode catalog (st_mode state) = Some m"
    using assms(1) by (cases "catalog_mode catalog (st_mode state)")
      (auto simp: enforce_file_mode_and_approval_def act_bind_eq act_simps catalog)
  let ?d = "audit_decision (resolve_mode_and_role_decision_audit catalog m (Some (st_role state)) (fr_action req) base)"
  have deny: "?d \<noteq> Deny"
    using assms(1) m by (auto simp: enforce_file_mode_and_approval_def act_bind_eq act_simps catalog Let_def)
  show ?thesis
  proof (cases "?d = Prompt")
    case True
    with assms(1) m obtain gate u where "gate_approval env fresh (st_approval_policy state) req s = (Inr gate, u)"
      "(case gate of
          GateApproved \<Rightarrow> act_return (FileAllowed m)
        | GateDenied remembered \<Rightarrow>
            act_bind (deny_file_request env req (approval_denied_error remembered)
                        (file_denied_response env (fr_tool_id req) (Some remembered))) (\<lambda>result.
            act_return (FileDenied result))
        | GateNeedsApproval approval_id \<Rightarrow>
            act_return (FileDenied (file_needs_approval_response env approval_id))) u = (Inr (FileAllowed mode), t)"
      by (auto simp: enforce_file_mode_and_approval_def act_bind_eq act_simps catalog Let_def)
    then show ?thesis
      using m True by (cases gate) (auto simp: act_bind_eq act_simps d_def)
  next
    case False
    with assms(1) m deny show ?thesis
      by (auto simp: enforce_file_mode_and_approval_def act_bind_eq act_simps catalog d_def Let_def)
  qed
qed

lemma perform_writeE:
  assumes "perform_write env root state req tool mode s = (r, s')" and "\<not> same_world s s'"
  obtains outcome t u where "same_world s t" "write_work env root state req tool mode t = (outcome, u)" "same_world u s'"
proof -
  from assms(1) [unfolded perform_write_def start_tool_def] obtain e t where t: "same_world s t"
    "act_bind (act_attempt (write_work env root state req tool mode)) (\<lambda>outcome.
       complete_tool env (fr_thread_id req) (fr_tool_id req) (wl_result tool) (wl_respond tool) outcome) t = (r, s')"
    by (rule world_bindE [OF _ world.append_within assms(2)]) blast
  from t(2) obtain outcome u where "write_work env root state req tool mode t = (outcome, u)"
    "complete_tool env (fr_thread_id req) (fr_tool_id req) (wl_result tool) (wl_respond tool) outcome u = (r, s')"
    unfolding act_bind_eq by (auto simp: act_attempt_eq)
  with t(1) act_withinD [OF world.complete_within] that show ?thesis by blast
qed

lemma check_targetE:
  assumes "check_target env fresh root state req tool s = (r, s')" and "\<not> same_world s s'"
  obtains target mode t where
    "preview_sandbox_write_target (te_fs env) (ts_world s) root (st_sandbox_policy state)
       (st_sandbox_writable_roots state) (components (wl_path tool)) = Inr target"
    "wl_early tool \<longrightarrow> \<not> is_secret_rel_path (wt_rel_path target)"
    "enforce_file_mode_and_approval env fresh root state req (edit_decision env (wt_rel_path target)) s =
       (Inr (FileAllowed mode), t)"
    "same_world s t" "perform_write env root state req tool mode t = (r, s')" "\<not> same_world t s'"
proof -
  from assms(1) [unfolded check_target_def] obtain target where target:
    "preview_sandbox_write_target (te_fs env) (ts_world s) root (st_sandbox_policy state)
       (st_sandbox_writable_roots state) (components (wl_path tool)) = Inr target"
    "(if wl_early tool \<and> is_secret_rel_path (wt_rel_path target) then
       deny_file_request env req (wl_secret_error tool) (file_denied_response env (fr_tool_id req) None)
     else
       act_bind (enforce_file_mode_and_approval env fresh root state req
                   (edit_decision env (wt_rel_path target))) (\<lambda>gate.
       case gate of
         FileDenied result \<Rightarrow> act_return result
       | FileAllowed mode \<Rightarrow> perform_write env root state req tool mode)) s = (r, s')"
    by (rule world_bindE [OF _ world.on_world_within [OF ro.within_look] assms(2)])
      (auto simp: on_world_Inr act_simps)
  have early: "\<not> (wl_early tool \<and> is_secret_rel_path (wt_rel_path target))"
    using target(2) assms(2) by (auto split: if_splits dest: act_withinD [OF world.deny_within])
  with target(2) have "act_bind (enforce_file_mode_and_approval env fresh root state req
                   (edit_decision env (wt_rel_path target))) (\<lambda>gate.
       case gate of
         FileDenied result \<Rightarrow> act_return result
       | FileAllowed mode \<Rightarrow> perform_write env root state req tool mode) s = (r, s')" by simp
  then obtain gate t where t: "enforce_file_mode_and_approval env fresh root state req
      (edit_decision env (wt_rel_path target)) s = (Inr gate, t)" "same_world s t"
    "(case gate of FileDenied result \<Rightarrow> act_return result
       | FileAllowed mode \<Rightarrow> perform_write env root state req tool mode) t = (r, s')"
    by (rule world_bindE [OF _ world.enforce_mode_within assms(2)]) blast
  with assms(2) obtain mode where "gate = FileAllowed mode"
    by (cases gate) (auto simp: act_simps same_world_def)
  with t target(1) early same_world_trans [OF t(2) assms(2)] that show ?thesis by auto
qed

lemma run_write_toolE:
  assumes "run_write_tool env fresh req tool s = (r, s')" and "\<not> same_world s s'"
  obtains root s1 state where
    "load_thread_root env (fr_thread_id req) s = (Inr root, s1)" "same_world s s1"
    "handle_state (fr_thread_id req) (ts_server s1) = (Inr state, ts_server s1)"
    "\<forall>tools. st_allowed_tools state = Some tools \<longrightarrow> fr_action req \<in> set tools"
    "st_sandbox_policy state \<noteq> ReadOnly"
    "check_target env fresh root state req tool s1 = (r, s')" "\<not> same_world s1 s'"
proof -
  from assms(1) [unfolded run_write_tool_def] obtain root s1 where 1:
    "load_thread_root env (fr_thread_id req) s = (Inr root, s1)" "same_world s s1"
    "act_bind (on_server (handle_state (fr_thread_id req))) (\<lambda>state.
     act_bind (enforce_thread_allowed_tools env (fr_thread_id req) (fr_tool_id req) (fr_turn_id req)
                 (fr_action req) (Some (fr_params req)) (st_allowed_tools state)) (\<lambda>denied.
     if denied \<noteq> None then
       act_lift (file_allowed_tools_denied_response env (fr_tool_id req) (fr_action req) (st_allowed_tools state))
     else if st_sandbox_policy state = ReadOnly then
       deny_file_request env req (''sandbox_policy=read_only forbids '' @ fr_action req)
         (file_sandbox_policy_denied_response env (fr_tool_id req) (st_sandbox_policy state))
     else check_target env fresh root state req tool)) s1 = (r, s')"
    by (rule world_bindE [OF _ world.load_thread_root_within assms(2)]) blast
  note n1 = same_world_trans [OF 1(2) assms(2)]
  from 1(3) obtain state s2 where 2: "on_server (handle_state (fr_thread_id req)) s1 = (Inr state, s2)"
    "act_bind (enforce_thread_allowed_tools env (fr_thread_id req) (fr_tool_id req) (fr_turn_id req)
                 (fr_action req) (Some (fr_params req)) (st_allowed_tools state)) (\<lambda>denied.
     if denied \<noteq> None then
       act_lift (file_allowed_tools_denied_response env (fr_tool_id req) (fr_action req) (st_allowed_tools state))
     else if st_sandbox_policy state = ReadOnly then
       deny_file_request env req (''sandbox_policy=read_only forbids '' @ fr_action req)
         (file_sandbox_policy_denied_response env (fr_tool_id req) (st_sandbox_policy state))
     else check_target env fresh root state req tool) s2 = (r, s')"
    by (rule world_bindE [OF _ world.on_server_within [OF safe_handle_state] n1]) blast
  from 2(1) have st: "handle_state (fr_thread_id req) (ts_server s1) = (Inr state, ts_server s1)" "s2 = s1"
    by (auto simp: on_server_Inr dest: handle_state_same)
  from 2(2) [unfolded st(2)] obtain denied s3 where 3: "enforce_thread_allowed_tools env (fr_thread_id req)
      (fr_tool_id req) (fr_turn_id req) (fr_action req) (Some (fr_params req)) (st_allowed_tools state) s1 = (Inr denied, s3)"
    "(if denied \<noteq> None then
       act_lift (file_allowed_tools_denied_response env (fr_tool_id req) (fr_action req) (st_allowed_tools state))
     else if st_sandbox_policy state = ReadOnly then
       deny_file_request env req (''sandbox_policy=read_only forbids '' @ fr_action req)
         (file_sandbox_policy_denied_response env (fr_tool_id req) (st_sandbox_policy state))
     else check_target env fresh root state req tool) s3 = (r, s')" "same_world s1 s3"
    by (rule world_bindE [OF _ world.enforce_allowed_within n1]) blast
  note n3 = same_world_trans [OF 3(3) n1]
  have "denied = None" using 3(2) n3 by (auto simp: act_simps same_world_def split: if_splits)
  with allowed_tools_passed 3(1) have "s3 = s1" "\<forall>tools. st_allowed_tools state = Some tools \<longrightarrow> fr_action req \<in> set tools"
    by blast+
  moreover from 3(2) \<open>denied = None\<close> n3 have "st_sandbox_policy state \<noteq> ReadOnly"
    by (auto split: if_splits dest: act_withinD [OF world.deny_within])
  ultimately show ?thesis using 1(1,2) st(1) 3(2) \<open>denied = None\<close> n1 that by auto
qed

lemma write_needs_gates:
  assumes "run_write_tool env fresh req tool s = (r, s')" and "\<not> same_world s s'"
    and "fr_action req \<noteq> ''fs/mkdir'' \<Longrightarrow> wl_early tool"
  shows "may_write env fresh req (wl_path tool) s"
proof -
  from assms(1,2) obtain root s1 state where 1: "load_thread_root env (fr_thread_id req) s = (Inr root, s1)" "same_world s s1"
    "handle_state (fr_thread_id req) (ts_server s1) = (Inr state, ts_server s1)"
    "\<forall>tools. st_allowed_tools state = Some tools \<longrightarrow> fr_action req \<in> set tools"
    "st_sandbox_policy state \<noteq> ReadOnly"
    "check_target env fresh root state req tool s1 = (r, s')" "\<not> same_world s1 s'"
    by (rule run_write_toolE)
  from 1(6,7) obtain target mode t where 2:
    "preview_sandbox_write_target (te_fs env) (ts_world s1) root (st_sandbox_policy state)
       (st_sandbox_writable_roots state) (components (wl_path tool)) = Inr target"
    "wl_early tool \<longrightarrow> \<not> is_secret_rel_path (wt_rel_path target)"
    "enforce_file_mode_and_approval env fresh root state req (edit_decision env (wt_rel_path target)) s1 =
       (Inr (FileAllowed mode), t)"
    by (rule check_targetE)
  from 1(2) have w: "ts_world s1 = ts_world s" by (simp add: same_world_def)
  show ?thesis
    unfolding may_write_def
    using 1(1,3,4,5) 2(1,2) mode_gate_passed [OF 2(3)] assms(3) unfolding w by metis
qed


end
