(* ===== verification/FileRuns.thy ===== *)
theory FileRuns
  imports FileGates
begin

text \<open>
  No file tool is left running: when no write of the log fails and the text catalog has the
  codes the handlers use, every call that was started is completed, however it ends. A thread's
  running tools are those its log starts and does not complete.
\<close>

section \<open>Tools of a thread\<close>

definition running :: "server \<Rightarrow> thread_id \<Rightarrow> tool_id set" where
  "running v tid = open_tools (core (log_of v tid))"

definition live :: "thread_id \<Rightarrow> server \<Rightarrow> bool" where
  "live tid v \<longleftrightarrow> server_ok v \<and> sv_logs v tid \<noteq> None"

lemma live_safe: "live tid v \<Longrightarrow> safe_step v v' \<Longrightarrow> live tid v'"
  by (auto simp: live_def safe_step_def dest!: logs_grow_Some)

text \<open>A step that leaves no new tool of the identifier running.\<close>

definition tidy_step :: "thread_id \<Rightarrow> tool_id \<Rightarrow> server \<Rightarrow> server \<Rightarrow> bool" where
  "tidy_step tid tool_id v v' \<longleftrightarrow>
     safe_step v v' \<and> (live tid v \<longrightarrow> tool_id \<notin> running v tid \<longrightarrow> tool_id \<notin> running v' tid)"

interpretation tidy_sv: action_relation "tidy_step tid tool_id"
  by unfold_locales (auto simp: tidy_step_def intro: sv.R_refl sv.R_trans live_safe)

lemma running_append:
  assumes "rt_append_event env tid k v = (Inr e, v')" and "\<not> is_marker k"
  shows "running v' tid = running v tid - completed_tools k \<union> started_tools k"
proof -
  note app = rt_append_event_Inr [OF assms(1)]
  have "core (log_of v' tid) = core (log_of v tid) @ [redact_thread_event_kind (env_redact env) k]"
    using app(2,3) assms(2) by (simp add: core_event)
  then show ?thesis by (simp add: running_def open_tools_def track_append)
qed

lemma running_append_all:
  assumes "append_all env tid ks v = (r, v')" and "list_all (\<lambda>k. \<not> is_marker k \<and> started_tools k = {}) ks"
  shows "running v' tid \<subseteq> running v tid"
  using assms
proof (induction ks arbitrary: v)
  case (Cons k ks)
  from Cons.prems(1) consider e where "rt_append_event env tid k v = (Inl e, v')"
    | e m where "rt_append_event env tid k v = (Inr e, m)" "append_all env tid ks m = (r, v')"
    by (auto simp: act_bind_eq)
  then show ?case
  proof cases
    case 1
    then show ?thesis by (auto dest: rt_append_event_Inl)
  next
    case 2
    with Cons.IH [OF 2(2)] Cons.prems(2) running_append [OF 2(1)] show ?thesis by auto
  qed
qed simp

lemma tidy_append:
  assumes "\<not> is_marker k" and "tool_id \<notin> started_tools k"
  shows "act_within (tidy_step tid tool_id) (rt_append_event env tid k)"
proof (rule act_withinI)
  fix v r v' assume run: "rt_append_event env tid k v = (r, v')"
  show "tidy_step tid tool_id v v'"
  proof (cases r)
    case (Inl e)
    with run have "v' = v" by (auto dest: rt_append_event_Inl)
    then show ?thesis by (simp add: tidy_sv.R_refl)
  next
    case (Inr e)
    with running_append [OF run [unfolded Inr] assms(1)] assms(2) act_withinD [OF safe_append_event run]
    show ?thesis by (auto simp: tidy_step_def)
  qed
qed

lemma recovery_starts_nothing:
  "list_all (\<lambda>k. \<not> is_marker k \<and> started_tools k = {}) (recovery_events es st)"
  by (auto simp: recovery_events_def list_all_iff split: option.splits)

lemma tidy_load: "act_within (tidy_step tid tool_id) (get_or_load_thread env tid)"
proof (rule act_withinI)
  fix v r v' assume run: "get_or_load_thread env tid v = (r, v')"
  have "running v' tid \<subseteq> running v tid"
  proof (cases "tid \<in> sv_loaded v \<or> sv_logs v tid = None \<or>
      (\<exists>e. replay (the (sv_logs v tid)) (new_state tid) = Inl e)")
    case True
    with run show ?thesis by (auto simp: get_or_load_thread_def split: option.splits if_splits)
  next
    case False
    with run obtain es st where "act_bind (append_all env tid (recovery_events es st)) (\<lambda>_ s'.
        (Inr (), s'\<lparr>sv_loaded := insert tid (sv_loaded s')\<rparr>)) v = (r, v')"
      by (auto simp: get_or_load_thread_def split: option.splits sum.splits)
    then obtain q m where m: "append_all env tid (recovery_events es st) v = (q, m)" "log_of v' tid = log_of m tid"
      unfolding act_bind_eq by (auto simp: log_of_def)
    with running_append_all [OF m(1) recovery_starts_nothing] show ?thesis by (simp add: running_def)
  qed
  with act_withinD [OF safe_get_or_load_thread run] show "tidy_step tid tool_id v v'"
    by (auto simp: tidy_step_def)
qed

lemma tidy_gate:
  "act_within (tidy_step tid tool_id)
     (gate_approval_with_deps env lib exec_policy fresh tid turn_id approval_policy request)"
proof -
  have "act_within (tidy_step tid tool_id) (read_log u)" for u
    by (rule tidy_sv.within_same_state) (simp add: read_log_def split: option.split)
  then show ?thesis
    unfolding gate_approval_with_deps_def ensure_approval_def remembered_approval_decision_def
      request_and_decide_def request_only_def request_approval_def
    by (auto intro!: tidy_sv.within_intros tidy_append
        split: option.split approval_policy.split approval_decision.split)
qed

section \<open>Handlers\<close>

definition tidy :: "thread_id \<Rightarrow> tool_id \<Rightarrow> 'w tool_state \<Rightarrow> 'w tool_state \<Rightarrow> bool" where
  "tidy tid tool_id s s' \<longleftrightarrow> tidy_step tid tool_id (ts_server s) (ts_server s')"

interpretation tidy: action_relation "tidy tid tool_id"
  by unfold_locales (auto simp: tidy_def intro: tidy_sv.R_refl tidy_sv.R_trans)

lemma tidy_on_server: "act_within (tidy_step tid tool_id) m \<Longrightarrow> act_within (tidy tid tool_id) (on_server m)"
  by (auto simp: act_within_def on_server_def tidy_def split: prod.splits)

lemma tidy_on_world: "act_within (tidy tid tool_id) (on_world wrap m)"
  by (auto simp: act_within_def on_world_def tidy_def tidy_sv.R_refl split: prod.splits)

lemma tidy_handle_state: "act_within (tidy tid tool_id) (on_server (handle_state u))"
  by (intro tidy_on_server tidy_sv.within_same_state) (simp add: handle_state_def split: option.split sum.split)

lemmas tidy_intros = tidy.within_intros tidy_on_server tidy_on_world tidy_load tidy_gate tidy_handle_state

text \<open>An operation after which the tool is not running, whether or not it was before.\<close>

definition closes :: "thread_id \<Rightarrow> tool_id \<Rightarrow> ('w, 'a) tool_action \<Rightarrow> bool" where
  "closes tid tool_id m \<longleftrightarrow>
     (\<forall>s r s'. live tid (ts_server s) \<longrightarrow> m s = (r, s') \<longrightarrow> tool_id \<notin> running (ts_server s') tid)"

lemma append_succeeds_tool:
  assumes "env_writes (te_server env)" and "live tid (ts_server s)" and "harmless k"
  obtains e v where "tool_append env tid k s = (Inr e, s\<lparr>ts_server := v\<rparr>)"
    "rt_append_event (te_server env) tid k (ts_server s) = (Inr e, v)" "live tid v"
proof -
  from assms(2) have "server_ok (ts_server s)" "sv_logs (ts_server s) tid \<noteq> None" by (auto simp: live_def)
  from harmless_append_succeeds [OF assms(1) this assms(3)] obtain e v where
    "rt_append_event (te_server env) tid k (ts_server s) = (Inr e, v)" "server_ok v" "sv_logs v tid \<noteq> None" by metis
  with that show ?thesis by (simp add: tool_append_def on_server_def live_def)
qed

lemma closes_completion:
  assumes "env_writes (te_server env)" and "\<And>e. act_within (tidy tid tool_id) (f e)"
  shows "closes tid tool_id (act_bind (tool_append env tid (ToolCompleted tool_id status structured error result)) f)"
  unfolding closes_def
proof (intro allI impI)
  fix s r s' assume live: "live tid (ts_server s)"
    and run: "act_bind (tool_append env tid (ToolCompleted tool_id status structured error result)) f s = (r, s')"
  obtain e v where e: "tool_append env tid (ToolCompleted tool_id status structured error result) s = (Inr e, s\<lparr>ts_server := v\<rparr>)"
    "rt_append_event (te_server env) tid (ToolCompleted tool_id status structured error result) (ts_server s) = (Inr e, v)"
    "live tid v"
    by (rule append_succeeds_tool [OF assms(1) live, of "ToolCompleted tool_id status structured error result"])
      (simp, blast)
  with run have "f e (s\<lparr>ts_server := v\<rparr>) = (r, s')" by (simp add: act_bind_step)
  from act_withinD [OF assms(2) this] e(3) running_append [OF e(2)]
  show "tool_id \<notin> running (ts_server s') tid" by (simp add: tidy_def tidy_step_def)
qed

lemma closes_complete:
  assumes "env_writes (te_server env)"
  shows "closes tid tool_id (complete_tool env tid tool_id result respond outcome)"
  unfolding complete_tool_def
  by (auto intro!: closes_completion [OF assms] tidy.within_intros split: sum.split tool_error.split)

lemma closes_after:
  assumes "act_within tool_step m" and "\<And>a. closes tid tool_id (f a)"
    and "\<And>s e s'. live tid (ts_server s) \<Longrightarrow> m s \<noteq> (Inl e, s')"
  shows "closes tid tool_id (act_bind m f)"
  unfolding closes_def
proof (intro allI impI)
  fix s r s' assume live: "live tid (ts_server s)" and "act_bind m f s = (r, s')"
  with assms(3) obtain a t where t: "m s = (Inr a, t)" "f a t = (r, s')" unfolding act_bind_eq by blast
  from act_withinD [OF assms(1) t(1)] live have "live tid (ts_server t)" by (auto simp: tool_step_def dest: live_safe)
  with assms(2) t(2) show "tool_id \<notin> running (ts_server s') tid" by (auto simp: closes_def)
qed

lemma closes_tidy: "act_within tool_step m \<Longrightarrow> closes tid tool_id m \<Longrightarrow> act_within (tidy tid tool_id) m"
  by (auto simp: act_within_def closes_def tidy_def tidy_step_def tool_step_def)

lemma tidy_started:
  assumes "env_writes (te_server env)" and "\<And>e. closes (fr_thread_id req) (fr_tool_id req) (f e)"
    and "\<And>e. act_within tool_step (f e)"
  shows "act_within (tidy (fr_thread_id req) (fr_tool_id req)) (act_bind (start_tool env req) f)"
proof (rule closes_tidy)
  show "act_within tool_step (act_bind (start_tool env req) f)"
    unfolding start_tool_def by (intro logs.within_bind logs.append_within assms(3))
  have "\<not> start_tool env req s = (Inl e, s')" if live: "live (fr_thread_id req) (ts_server s)" for s e s'
    unfolding start_tool_def
    by (rule append_succeeds_tool [OF assms(1) live, of "ToolStarted (fr_tool_id req) (fr_turn_id req)
          (fr_action req) (Some (fr_params req))"]) auto
  then show "closes (fr_thread_id req) (fr_tool_id req) (act_bind (start_tool env req) f)"
    by (intro closes_after assms(2)) (auto simp: start_tool_def intro: logs.append_within)
qed

lemma tidy_deny:
  assumes "env_writes (te_server env)"
  shows "act_within (tidy tid tool_id) (emit_tool_denied env tid tool_id turn_id action params error result)"
proof (rule closes_tidy)
  show "act_within tool_step (emit_tool_denied env tid tool_id turn_id action params error result)"
    unfolding emit_tool_denied_def by (intro logs.within_bind logs.append_within logs.within_return)
  have "\<not> tool_append env tid (ToolStarted tool_id turn_id action params) s = (Inl e, s')"
    if live: "live tid (ts_server s)" for s e s'
    by (rule append_succeeds_tool [OF assms live, of "ToolStarted tool_id turn_id action params"]) auto
  then show "closes tid tool_id (emit_tool_denied env tid tool_id turn_id action params error result)"
    unfolding emit_tool_denied_def
    by (intro closes_after closes_completion [OF assms] tidy.within_return) (auto intro: logs.append_within)
qed

lemma tidy_enforce_allowed:
  assumes "env_writes (te_server env)"
  shows "act_within (tidy tid tool_id) (enforce_thread_allowed_tools env tid tool_id turn_id tool params allowed)"
  unfolding enforce_thread_allowed_tools_def
  by (auto intro!: tidy.within_intros tidy_deny [OF assms] split: option.split)

lemma tidy_deny_request:
  assumes "env_writes (te_server env)"
  shows "act_within (tidy (fr_thread_id req) (fr_tool_id req)) (deny_file_request env req error response)"
  unfolding deny_file_request_def emit_denied_def by (intro tidy.within_intros tidy_deny [OF assms])

lemma tidy_enforce_mode:
  assumes "env_writes (te_server env)"
  shows "act_within (tidy (fr_thread_id req) (fr_tool_id req))
    (enforce_file_mode_and_approval env fresh thread_root state req base)"
  unfolding enforce_file_mode_and_approval_def gate_approval_def Let_def
  by (auto intro!: tidy_intros tidy_deny_request [OF assms] split: option.split approval_gate.split)

lemma tidy_load_root: "act_within (tidy tid tool_id) (load_thread_root env tid)"
  unfolding load_thread_root_def by (auto intro!: tidy_intros split: option.split)

lemma tidy_perform_write:
  assumes "env_writes (te_server env)"
  shows "act_within (tidy (fr_thread_id req) (fr_tool_id req)) (perform_write env root state req tool mode)"
  unfolding perform_write_def
proof (rule tidy_started [OF assms])
  let ?f = "act_bind (act_attempt (write_work env root state req tool mode))
      (\<lambda>outcome. complete_tool env (fr_thread_id req) (fr_tool_id req) (wl_result tool) (wl_respond tool) outcome)"
  show "closes (fr_thread_id req) (fr_tool_id req) ?f"
    by (intro closes_after closes_complete [OF assms] logs.within_attempt tool_write_work) (simp add: act_attempt_eq)
  show "act_within tool_step ?f" by (intro logs.within_intros logs.complete_within tool_write_work)
qed

lemma tidy_run_write:
  assumes "env_writes (te_server env)"
  shows "act_within (tidy (fr_thread_id req) (fr_tool_id req)) (run_write_tool env fresh req tool)"
  unfolding run_write_tool_def check_target_def
  by (auto intro!: tidy_intros tidy_load_root tidy_enforce_allowed [OF assms] tidy_deny_request [OF assms]
      tidy_enforce_mode [OF assms] tidy_perform_write [OF assms] split: file_mode_approval_gate.split)

lemma closes_reference_failed:
  assumes "env_writes (te_server env)"
  shows "closes (fr_thread_id req) (fr_tool_id req) (reference_root_failed env req root err)"
  unfolding reference_root_failed_def by (intro closes_completion [OF assms] tidy.within_fail)

lemma closes_outcome:
  assumes "env_writes (te_server env)" and "act_within tool_step m"
  shows "closes tid tool_id
    (act_bind (act_attempt m) (\<lambda>outcome. complete_tool env tid tool_id result respond outcome))"
  by (intro closes_after closes_complete [OF assms(1)] logs.within_attempt assms(2)) (simp add: act_attempt_eq)

lemma choose_root_succeeds: "choose_root env thread_root root s \<noteq> (Inl e, s')"
  by (cases root) (auto simp: choose_root_def act_simps act_attempt_eq)

lemma tidy_choose_root: "act_within (tidy tid tool_id) (choose_root env thread_root root)"
  unfolding choose_root_def by (auto intro!: tidy_intros split: file_root.split)

lemma tidy_run_search:
  assumes "env_writes (te_server env)"
  shows "act_within (tidy (fr_thread_id req) (fr_tool_id req))
    (run_search_tool env fresh req file_root search result respond)"
proof -
  let ?finish = "\<lambda>thread_root. act_bind (choose_root env thread_root file_root) (\<lambda>chosen.
           case chosen of
             Inl err \<Rightarrow> reference_root_failed env req file_root err
           | Inr root \<Rightarrow>
               act_bind (act_attempt (on_world RuntimeFailed (library (act_look (search root))))) (\<lambda>outcome.
               complete_tool env (fr_thread_id req) (fr_tool_id req) result respond outcome))"
  have "act_within (tidy (fr_thread_id req) (fr_tool_id req)) (act_bind (start_tool env req) (\<lambda>_. ?finish thread_root))"
    for thread_root
  proof (rule tidy_started [OF assms])
    show "closes (fr_thread_id req) (fr_tool_id req) (?finish thread_root)"
      by (intro closes_after logs.choose_root_within choose_root_succeeds)
        (auto intro!: closes_reference_failed [OF assms] closes_outcome [OF assms] tool_on_world split: sum.split)
    show "act_within tool_step (?finish thread_root)"
      by (auto intro!: logs.within_intros logs.choose_root_within logs.reference_failed_within logs.complete_within
          tool_on_world split: sum.split)
  qed
  then show ?thesis
    unfolding run_search_tool_def
    by (auto intro!: tidy_intros tidy_load_root tidy_enforce_allowed [OF assms] tidy_enforce_mode [OF assms]
        split: file_mode_approval_gate.split)
qed

text \<open>The texts of the catalog that the handlers build are valid.\<close>

definition catalog_valid :: "'w tool_env \<Rightarrow> bool" where
  "catalog_valid env \<longleftrightarrow> (\<forall>code args. \<exists>t. te_catalog_text env code args = Inr t)"

lemma denied_response_valid: "catalog_valid env \<Longrightarrow> \<exists>v. file_denied_response env tool_id remembered = Inr v"
  by (auto simp: catalog_valid_def file_denied_response_def denied_response_with_remembered_def
      catalog_structured_error_with_def) (metis old.sum.simps(6) rbind_simps(2))

lemma tidy_refuse_read:
  assumes "env_writes (te_server env)" and "catalog_valid env"
  shows "act_within (tidy (fr_thread_id req) (fr_tool_id req)) (refuse_read env req)"
  unfolding refuse_read_def
proof (rule tidy_started [OF assms(1)])
  let ?finish = "act_bind (act_lift (file_denied_response env (fr_tool_id req) None)) (\<lambda>denied.
     act_bind (tool_append env (fr_thread_id req) (ToolCompleted (fr_tool_id req) ToolStatusDenied
                 (structured_error_from_result_value env denied) (Some read_secret_error) (Some denied))) (\<lambda>_.
     act_return denied))"
  show "closes (fr_thread_id req) (fr_tool_id req) ?finish"
    using denied_response_valid [OF assms(2), of "fr_tool_id req" None]
    by (intro closes_after closes_completion [OF assms(1)] logs.within_lift tidy.within_return)
      (auto simp: act_simps)
  show "act_within tool_step ?finish"
    by (intro logs.within_intros logs.append_within)
qed

lemma tidy_perform_read:
  assumes "env_writes (te_server env)"
  shows "act_within (tidy (fr_thread_id req) (fr_tool_id req))
    (perform_read env thread_root root state req file_root input max_bytes mode)"
  unfolding perform_read_def
  by (rule tidy_started [OF assms closes_outcome [OF assms logs.read_work_within]])
    (intro logs.within_intros logs.complete_within logs.read_work_within)

lemma tidy_run_read:
  assumes "env_writes (te_server env)" and "catalog_valid env"
  shows "act_within (tidy (fr_thread_id req) (fr_tool_id req)) (run_read_tool env fresh req file_root input max_bytes)"
proof -
  have failed: "act_within (tidy (fr_thread_id req) (fr_tool_id req))
      (act_bind (start_tool env req) (\<lambda>_. reference_root_failed env req file_root err))" for err
    by (rule tidy_started [OF assms(1) closes_reference_failed [OF assms(1)] logs.reference_failed_within])
  show ?thesis
    unfolding run_read_tool_def read_below_root_def Let_def
    by (auto intro!: tidy_intros tidy_load_root tidy_enforce_allowed [OF assms(1)] tidy_choose_root failed
        tidy_refuse_read [OF assms] tidy_enforce_mode [OF assms(1)] tidy_perform_read [OF assms(1)]
        split: file_mode_approval_gate.split sum.split)
qed

text \<open>The thread a call runs in.\<close>

fun call_thread :: "file_call \<Rightarrow> thread_id" where
  "call_thread (CallRead params) = fc_thread_id params"
| "call_thread (CallGlob params) = gl_thread_id params"
| "call_thread (CallGrep params) = gp_thread_id params"
| "call_thread (CallWrite params) = fc_thread_id params"
| "call_thread (CallPatch params) = fc_thread_id params"
| "call_thread (CallEdit params) = fc_thread_id params"
| "call_thread (CallDelete params) = fc_thread_id params"
| "call_thread (CallMkdir params) = fc_thread_id params"

lemma request_for_simps [simp]:
  "fr_thread_id (request_for call tool_id action params) = fc_thread_id call"
  "fr_tool_id (request_for call tool_id action params) = tool_id"
  by (simp_all add: request_for_def)

lemma truncate_thread [simp]: "fc_thread_id (file_call_base.truncate params) = fc_thread_id params"
  by (simp add: file_call_base.truncate_def)


end
