(* ===== verification/FileContents.thy ===== *)
theory FileContents
  imports FileGates
begin

text \<open>
  What a remembered approval of a file tool covers. The keys of remembered decisions hold a
  fingerprint of the contents (\<open>approval_rule_key\<close>), but the parameters the handlers ask
  with leave the contents out, so the fingerprint is always that of nothing.
\<close>

section \<open>Calls that differ in their contents\<close>

fun same_but_content :: "file_call \<Rightarrow> file_call \<Rightarrow> bool" where
  "same_but_content (CallWrite p) (CallWrite q) \<longleftrightarrow>
     fc_path p = fc_path q \<and> write_create_parents p = write_create_parents q"
| "same_but_content (CallPatch p) (CallPatch q) \<longleftrightarrow> fc_path p = fc_path q"
| "same_but_content (CallEdit p) (CallEdit q) \<longleftrightarrow>
     fc_path p = fc_path q \<and> length (fe_edits p) = length (fe_edits q)"
| "same_but_content _ _ \<longleftrightarrow> False"

fun_cases same_but_contentE: "same_but_content c c'"

lemma approval_params_simps [simp]:
  "json_get ''text'' (write_approval_params p) = None"
  "json_get ''path'' (write_approval_params p) = Some (JString (fc_path p))"
  "json_get ''create_parent_dirs'' (write_approval_params p) = Some (JBool (write_create_parents p))"
  "json_get ''patch'' (patch_approval_params pa) = None"
  "json_get ''path'' (patch_approval_params pa) = Some (JString (fc_path pa))"
  "json_get ''edits'' (edit_approval_params pe) = Some (nat_json (len64 (fe_edits pe)))"
  "json_get ''path'' (edit_approval_params pe) = Some (JString (fc_path pe))"
  by (simp_all add: write_approval_params_def patch_approval_params_def edit_approval_params_def)

lemma content_keys:
  "approval_rule_key lib ''file/write'' (write_approval_params p) =
     Inr (''file/write|path='' @ fc_path p @ ''|create_parent_dirs='' @ bool_text (write_create_parents p) @
          ''|text_sha256='' @ al_sha256 lib [])"
  "approval_rule_key lib ''file/patch'' (patch_approval_params pa) =
     Inr (''file/patch|path='' @ fc_path pa @ ''|patch_sha256='' @ al_sha256 lib [])"
  "approval_rule_key lib ''file/edit'' (edit_approval_params pe) =
     rbind (fingerprint_value lib (nat_json (len64 (fe_edits pe))))
       (\<lambda>edits. Inr (''file/edit|path='' @ fc_path pe @ ''|edits_sha256='' @ edits))"
  by (simp_all add: approval_rule_key_def str_field_def bool_field_def)

lemma same_key:
  assumes "same_but_content c c'" and "write_request tool_id c = Some (req, input)"
    and "write_request tool_id' c' = Some (req', input')"
  shows "approval_rule_key lib (fr_action req) (fr_params req) = approval_rule_key lib (fr_action req') (fr_params req')"
  using assms(1)
  by (cases rule: same_but_contentE)
    (use assms(2,3) in \<open>auto simp: request_for_def content_keys len64_def simp del: append.simps\<close>)

lemma approval_rule_key_total:
  assumes "\<And>v. al_json_text lib v \<noteq> None"
  shows "\<exists>key. approval_rule_key lib action params = Inr key"
proof -
  have "\<exists>s. json_text lib v = Inr s" for v
    using assms [of v] by (auto simp: json_text_def)
  then have "\<exists>s. json_text lib v = Inr s" "\<exists>s. fingerprint_value lib v = Inr s" for v
    by (auto simp: fingerprint_value_def) (metis rbind_simps(2))
  then show ?thesis
    unfolding approval_rule_key_def by (simp add: rbind_eq_Inr)
qed

lemma remembered_loop_total:
  assumes "\<And>v. al_json_text lib v \<noteq> None"
  shows "\<exists>r. remembered_loop lib es requested remembered = Inr r"
proof (induction es arbitrary: requested remembered)
  case (Cons e es)
  show ?case
  proof (cases "ev_kind e")
    case (ApprovalDecided i d remember reason)
    have "\<exists>r. rbind (approval_rule_key lib action params)
        (\<lambda>key. remembered_loop lib es requested (remembered(key \<mapsto> d))) = Inr r" for action params
      using approval_rule_key_total [OF assms, of action params] Cons by auto
    with ApprovalDecided Cons show ?thesis by (auto split: option.split)
  qed (simp_all add: Cons)
qed simp

lemma no_requirement: "json_get ''approval'' params = None \<Longrightarrow> approval_requirement params = RequirePrompt"
  by (simp add: approval_requirement_def)

lemma handler_requirement:
  "write_request tool_id c = Some (req, input) \<Longrightarrow> approval_requirement (fr_params req) = RequirePrompt"
  by (cases c)
    (auto simp: request_for_def write_approval_params_def patch_approval_params_def
      edit_approval_params_def tree_approval_params_def intro!: no_requirement)

text \<open>
  C30: a remembered approval covers any contents. Once a decision to be remembered approved one
  write, patch or edit, the gate approves every later one of the same path (with the same flag,
  or as many edits), whatever it writes, under every approval policy and without asking.
\<close>

theorem remembered_approval_ignores_content:
  assumes "same_but_content c c'"
    and "write_request tool_id c = Some (req, input)" and "write_request tool_id' c' = Some (req', input')"
    and "approval_rule_key (te_lib env) (fr_action req) (fr_params req) = Inr key"
    and "newest_remembered (te_lib env) [] (map ev_kind (log_of (ts_server s) (fr_thread_id req'))) key Approved"
    and "fr_approval_id req' = None"
    and "env_writes (te_server env)" and "server_ok (ts_server s)" and "\<And>v. al_json_text (te_lib env) v \<noteq> None"
  shows "\<exists>s'. gate_approval env fresh approval_policy req' s = (Inr GateApproved, s')"
proof -
  let ?v = "ts_server s" and ?tid = "fr_thread_id req'"
  let ?request = "\<lparr>ar_approval_id = fr_approval_id req', ar_action = fr_action req', ar_params = fr_params req'\<rparr>"
  have log: "sv_logs ?v ?tid = Some (log_of ?v ?tid)"
    using assms(5) by (cases "sv_logs ?v ?tid") (simp_all add: log_of_def)
  have key: "approval_rule_key (te_lib env) (fr_action req') (fr_params req') = Inr key"
    using same_key [OF assms(1-3)] assms(4) by simp
  obtain rem where "remembered_loop (te_lib env) (log_of ?v ?tid) (\<lambda>_. None) (\<lambda>_. None) = Inr rem"
    using remembered_loop_total [OF assms(9)] by blast
  with key log have dec: "remembered_approval_decision (te_lib env) ?tid (fr_action req') (fr_params req') ?v = (Inr (rem key), ?v)"
    by (simp add: remembered_approval_decision_def act_bind_def act_simps read_log_def)
  from remembered_decision_spec [OF dec] key assms(5) have "rem key = Some Approved" by auto
  with dec have "remembered_approval_decision (te_lib env) ?tid (fr_action req') (fr_params req') ?v = (Inr (Some Approved), ?v)"
    by simp
  moreover obtain v' where "request_and_decide (te_server env) ?tid fresh (fr_turn_id req') ?request Approved
      ''auto-approved by remembered decision'' GateApproved ?v = (Inr GateApproved, v')"
    by (rule request_and_decide_succeeds [OF assms(7,8)]) (use log in auto)
  ultimately have "gate_approval_with_deps (te_server env) (te_lib env) (te_exec_policy env) fresh ?tid (fr_turn_id req')
      approval_policy ?request ?v = (Inr GateApproved, v')"
    using handler_requirement [OF assms(3)] assms(6)
    by (simp add: gate_approval_with_deps_def act_bind_step)
  then show ?thesis by (simp add: gate_approval_def on_server_def)
qed

end
