(* ===== verification/FileConfinement.thy ===== *)
theory FileConfinement
  imports FileGates
begin

text \<open>
  Where the file tools write: under a workspace policy a call changes nothing outside the
  thread's root and the writable roots. The file system and the library are assumed to do what
  they document: creating a directory changes that path only, an operation of the library
  changes nothing outside the root its context grants, and creating directories does not move
  paths that exist.
\<close>

section \<open>The assumptions\<close>

text \<open>\<open>obs\<close> is what can be observed of a path in a world.\<close>

definition outside_same :: "('w \<Rightarrow> path \<Rightarrow> 'x) \<Rightarrow> path \<Rightarrow> 'w \<Rightarrow> 'w \<Rightarrow> bool" where
  "outside_same obs root w w' \<longleftrightarrow> (\<forall>q. \<not> prefix root q \<longrightarrow> obs w' q = obs w q)"

definition paths_stay :: "'w fs_ops \<Rightarrow> 'w \<Rightarrow> 'w \<Rightarrow> bool" where
  "paths_stay fs w w' \<longleftrightarrow> (\<forall>q c. fs_canonicalize fs w q = Inr c \<longrightarrow> fs_canonicalize fs w' q = Inr c)"

definition fs_local :: "('w \<Rightarrow> path \<Rightarrow> 'x) \<Rightarrow> 'w fs_ops \<Rightarrow> bool" where
  "fs_local obs fs \<longleftrightarrow> (\<forall>w. fs_lawful fs w) \<and>
     (\<forall>p w r w'. fs_create_dir fs p w = (r, w') \<longrightarrow> outside_same obs p w w' \<and> paths_stay fs w w')"

definition library_local :: "('w \<Rightarrow> path \<Rightarrow> 'x) \<Rightarrow> 'w omne_fs \<Rightarrow> bool" where
  "library_local obs lib \<longleftrightarrow>
     (\<forall>cx p content b. act_within (outside_same obs (cx_root cx)) (of_write lib cx p content b)) \<and>
     (\<forall>cx p patch. act_within (outside_same obs (cx_root cx)) (of_patch lib cx p patch)) \<and>
     (\<forall>cx p a b. act_within (outside_same obs (cx_root cx)) (of_delete lib cx p a b)) \<and>
     (\<forall>cx p a b. act_within (outside_same obs (cx_root cx)) (of_mkdir lib cx p a b))"

section \<open>Resolution\<close>

definition below :: "('w \<Rightarrow> path \<Rightarrow> 'x) \<Rightarrow> 'w fs_ops \<Rightarrow> path \<Rightarrow> 'w \<Rightarrow> 'w \<Rightarrow> bool" where
  "below obs fs root w w' \<longleftrightarrow> outside_same obs root w w' \<and> paths_stay fs w w'"

interpretation below: action_relation "below obs fs root"
  by unfold_locales (auto simp: below_def outside_same_def paths_stay_def)

lemma outside_same_mono: "outside_same obs p w w' \<Longrightarrow> prefix root p \<Longrightarrow> outside_same obs root w w'"
  unfolding outside_same_def by (meson prefix_order.order_trans)

lemma ensure_dirs_below:
  assumes "fs_local obs fs"
  shows "prefix root current \<Longrightarrow> current \<noteq> [] \<Longrightarrow> act_within (below obs fs root) (ensure_dirs fs current cs)"
proof (induction cs arbitrary: current)
  case Nil
  show ?case by (rule below.within_same_state) simp
next
  case (Cons c cs)
  show ?case
  proof (cases c)
    case (Normal name)
    let ?p = "current @ [Normal name]"
    from Cons.prems have p: "join_path current [Normal name] = ?p" "prefix root ?p" by simp_all
    have create: "act_within (below obs fs root) (act_map_error (CreateFailed ?p) (fs_create_dir fs ?p))"
    proof (intro below.within_map_error act_withinI)
      fix w r w' assume "fs_create_dir fs ?p w = (r, w')"
      with assms have "outside_same obs ?p w w'" "paths_stay fs w w'" by (auto simp: fs_local_def)
      with outside_same_mono [OF this(1) p(2)] show "below obs fs root w w'" by (simp add: below_def)
    qed
    have IH: "act_within (below obs fs root) (ensure_dirs fs ?p cs)" using Cons.IH p(2) by simp
    show ?thesis
    proof (rule act_withinI)
      fix w r w' assume "ensure_dirs fs current (c # cs) w = (r, w')"
      with p(1) act_withinD [OF IH] act_withinD [OF below.within_bind [OF create IH]] below.R_refl
      show "below obs fs root w w'"
        by (auto simp: Normal Let_def split: sum.splits io_error.splits if_splits)
    qed
  qed (rule below.within_same_state, simp)+
qed

lemma resolve_file_below:
  assumes "fs_local obs fs" and "resolve_file fs root input access create w = (res, w')"
  shows "w' = w \<or> (\<exists>r. fs_canonicalize fs w root = Inr r \<and> below obs fs r w w')"
proof (cases "fs_canonicalize fs w root")
  case (Inl e)
  with assms(2) show ?thesis by (auto simp: resolve_file_def act_bind_def act_simps canonicalize_def)
next
  case (Inr r)
  from assms(1) fs_lawfulD(1) [OF _ Inr] have "r \<noteq> []" unfolding fs_local_def by blast
  from Inr assms(2) have "act_bind (act_lift (reject_parent_components input)) (\<lambda>_.
     let candidate = candidate_path r input
     in if \<not> prefix r candidate then act_fail (EscapesRoot r candidate)
        else case path_parent candidate of
          None \<Rightarrow> act_fail (NoParent candidate)
        | Some parent \<Rightarrow>
            act_bind (if create then ensure_dir_tree_no_symlink fs r parent else act_return ()) (\<lambda>_.
            act_bind (act_look (\<lambda>w. canonicalize fs w parent)) (\<lambda>canon_parent.
            if \<not> prefix r canon_parent then act_fail (EscapesRoot r canon_parent)
            else case access of
              AccessRead \<Rightarrow>
                act_bind (act_look (\<lambda>w. canonicalize fs w candidate)) (\<lambda>canon.
                if \<not> prefix r canon then act_fail (EscapesRoot r canon) else act_return canon)
            | AccessWrite \<Rightarrow>
                act_look (\<lambda>w. if fs_symlink_metadata fs w candidate = Inr KindSymlink
                                then Inl (SymlinkRefused candidate) else Inr candidate)))) w = (res, w')"
    by (simp add: resolve_file_def act_bind_step act_simps canonicalize_def)
  moreover have "act_within (below obs fs r) (ensure_dir_tree_no_symlink fs r parent)" for parent
    unfolding ensure_dir_tree_no_symlink_def
    by (auto intro!: below.within_intros ensure_dirs_below [OF assms(1)] \<open>r \<noteq> []\<close> split: option.split)
  ultimately have "below obs fs r w w'"
    unfolding Let_def
    by (elim act_withinD [rotated]) (auto intro!: below.within_intros split: option.split path_access.split)
  with Inr show ?thesis by blast
qed

text \<open>The roots a thread may write below: those of its root and its writable roots that exist.\<close>

definition granted :: "'w fs_ops \<Rightarrow> 'w \<Rightarrow> path \<Rightarrow> string list \<Rightarrow> path set" where
  "granted fs w thread_root writable =
     {c. \<exists>r \<in> set (thread_root # map components writable). fs_canonicalize fs w r = Inr c}"

lemma resolve_for_sandbox_below:
  assumes "fs_local obs fs" and "policy \<noteq> FullAccess"
    and "resolve_file_for_sandbox fs thread_root policy writable input access create w = (res, w')"
  shows "w' = w \<or> (\<exists>r \<in> granted fs w thread_root writable. below obs fs r w w')"
proof (cases "access = AccessWrite \<and> writable \<noteq> [] \<and> path_is_absolute input")
  case False
  with assms(2,3) have "resolve_file fs thread_root input access create w = (res, w')"
    by (auto simp: resolve_file_for_sandbox_def resolve_file_with_writable_roots_def split: if_splits)
  from resolve_file_below [OF assms(1) this] show ?thesis by (auto simp: granted_def)
next
  case True
  let ?roots = "canonical_roots fs w (map components writable)"
  let ?candidate = "canonicalize_nonexistent_file_path fs w (strip_cur_dir_components input)"
  have run: "resolve_file_with_writable_roots fs thread_root (map components writable) input access create w = (res, w')"
    using assms(2,3) True by (simp add: resolve_file_for_sandbox_def)
  consider "w' = w" | r roots candidate selected where "fs_canonicalize fs w thread_root = Inr r"
      "canonical_roots fs w (map components writable) = Inr roots"
      "select_root (r # roots) candidate = Some selected"
      "resolve_file fs selected candidate access create w = (res, w')"
  proof (cases "canonicalize fs w thread_root")
    case (Inr r)
    show thesis
    proof (cases "isl ?roots \<or> isl (reject_parent_components input) \<or> isl ?candidate")
      case True
      then have "w' = w"
        using run Inr \<open>access = AccessWrite \<and> writable \<noteq> [] \<and> path_is_absolute input\<close>
        by (cases ?roots; cases "reject_parent_components input"; cases ?candidate)
          (auto simp: resolve_file_with_writable_roots_def act_bind_def act_simps)
      then show ?thesis by (rule that(1))
    next
      case False
      then obtain roots u candidate where *: "?roots = Inr roots" "reject_parent_components input = Inr u" "?candidate = Inr candidate"
        by (cases ?roots; cases "reject_parent_components input"; cases ?candidate) auto
      show ?thesis
      proof (cases "select_root (r # roots) candidate")
        case None
        with run Inr * \<open>access = AccessWrite \<and> writable \<noteq> [] \<and> path_is_absolute input\<close> have "w' = w"
          by (simp add: resolve_file_with_writable_roots_def act_bind_def act_simps)
        then show ?thesis by (rule that(1))
      next
        case (Some selected)
        with run Inr * \<open>access = AccessWrite \<and> writable \<noteq> [] \<and> path_is_absolute input\<close>
        have "resolve_file fs selected candidate access create w = (res, w')"
          by (simp add: resolve_file_with_writable_roots_def act_bind_def act_simps)
        with that(2) Inr * Some show ?thesis by simp
      qed
    qed
  qed (use run True that(1) in \<open>simp add: resolve_file_with_writable_roots_def act_bind_def act_simps\<close>)
  then show ?thesis
  proof cases
    case 2
    from select_root_Some [OF 2(3)] have sel: "selected \<in> set (r # roots)" by blast
    then have granted: "selected \<in> granted fs w thread_root writable"
      using 2(1) canonical_roots_set [OF 2(2)] by (auto simp: granted_def)
    from granted obtain root where "fs_canonicalize fs w root = Inr selected" by (auto simp: granted_def)
    moreover have "fs_lawful fs w" using assms(1) by (simp add: fs_local_def)
    ultimately have "fs_canonicalize fs w selected = Inr selected" by (blast intro: fs_lawfulD(3))
    with resolve_file_below [OF assms(1) 2(4)] granted show ?thesis by fastforce
  qed simp
qed

section \<open>Handlers\<close>

text \<open>The operation a handler runs changes nothing outside the root it is given.\<close>

definition run_local :: "('w \<Rightarrow> path \<Rightarrow> 'x) \<Rightarrow> ('w, 'a) write_tool \<Rightarrow> bool" where
  "run_local obs tool \<longleftrightarrow>
     (\<forall>root rel w r w'. wl_run tool root rel w = (r, w') \<longrightarrow> outside_same obs root w w')"

lemma canonicalize_all_set:
  assumes "canonicalize_all fs w rs = Inr cs"
  shows "(\<forall>r \<in> set rs. \<exists>c. fs_canonicalize fs w r = Inr c) \<and>
     (\<forall>c \<in> set cs. \<exists>r \<in> set rs. fs_canonicalize fs w r = Inr c)"
  using assms
proof (induction rs arbitrary: cs)
  case (Cons r rs)
  then obtain c cs' where c: "fs_canonicalize fs w r = Inr c" "canonicalize_all fs w rs = Inr cs'" "cs = c # cs'"
    by (auto simp: rbind_eq_Inr)
  with Cons.IH [OF c(2)] show ?case by (metis list.set_intros set_ConsD)
qed simp

lemma target_root:
  assumes "resolve_sandbox_write_target fs w thread_root writable p = Inr target"
  shows "\<forall>r \<in> set (thread_root # map components writable). \<exists>c. fs_canonicalize fs w r = Inr c"
    "wt_root target \<in> granted fs w thread_root writable"
proof -
  from assms obtain q where "select_sandbox_write_root fs w thread_root writable q = Inr (wt_root target)"
    by (auto simp: resolve_sandbox_write_target_def rbind_eq_Inr Let_def split: option.splits)
  then obtain roots where roots: "canonicalize_all fs w (thread_root # map components writable) = Inr roots"
    "select_root roots q = Some (wt_root target)"
    unfolding select_sandbox_write_root_def rbind_eq_Inr by (auto split: option.splits)
  show "\<forall>r \<in> set (thread_root # map components writable). \<exists>c. fs_canonicalize fs w r = Inr c"
    using canonicalize_all_set [OF roots(1)] by blast
  from select_root_Some [OF roots(2)] canonicalize_all_set [OF roots(1)]
  show "wt_root target \<in> granted fs w thread_root writable"
    unfolding granted_def by blast
qed

lemma granted_stays:
  assumes "paths_stay fs w w'" and "\<forall>r \<in> set (thread_root # map components writable). \<exists>c. fs_canonicalize fs w r = Inr c"
  shows "granted fs w' thread_root writable = granted fs w thread_root writable"
proof -
  have "fs_canonicalize fs w' r = Inr c \<longleftrightarrow> fs_canonicalize fs w r = Inr c"
    if "r \<in> set (thread_root # map components writable)" for r c
  proof -
    from assms(2) that obtain d where d: "fs_canonicalize fs w r = Inr d" by blast
    with assms(1) have "fs_canonicalize fs w' r = Inr d" by (simp add: paths_stay_def)
    with d show ?thesis by simp
  qed
  then show ?thesis by (auto simp: granted_def)
qed

lemma write_work_local:
  assumes "fs_local obs (te_fs env)" and "run_local obs tool" and "st_sandbox_policy state \<noteq> FullAccess"
    and "write_work env thread_root state req tool mode s = (r, s')"
    and roots: "\<forall>r \<in> set (thread_root # map components (st_sandbox_writable_roots state)).
      \<exists>c. fs_canonicalize (te_fs env) (ts_world s) r = Inr c"
    and q: "\<And>c. c \<in> granted (te_fs env) (ts_world s) thread_root (st_sandbox_writable_roots state) \<Longrightarrow> \<not> prefix c q"
  shows "obs (ts_world s') q = obs (ts_world s) q"
proof -
  let ?fs = "te_fs env" and ?roots = "st_sandbox_writable_roots state"
  obtain res w where w: "resolve_file_for_sandbox ?fs thread_root (st_sandbox_policy state) ?roots
      (components (wl_path tool)) AccessWrite (wl_create_parents tool) (ts_world s) = (res, w)" by fastforce
  from resolve_for_sandbox_below [OF assms(1,3) this] q have stay: "paths_stay ?fs (ts_world s) w"
    and same: "obs w q = obs (ts_world s) q"
    by (auto simp: below_def outside_same_def paths_stay_def)
  note granted = granted_stays [OF stay roots]
  from assms(4) w consider "ts_world s' = w"
    | p target a where "resolve_sandbox_write_target ?fs w thread_root ?roots p = Inr target"
      "wl_run tool (wt_root target) (wt_rel_path target) w = (a, ts_world s')"
    unfolding write_work_def
    by (auto simp: act_bind_eq act_simps on_world_def Let_def split: prod.splits sum.splits if_splits)
  then show ?thesis
  proof cases
    case 2
    with assms(2) have "outside_same obs (wt_root target) w (ts_world s')" by (auto simp: run_local_def)
    with target_root(2) [OF 2(1)] granted q same show ?thesis by (simp add: outside_same_def)
  qed (simp add: same)
qed

lemma run_write_local:
  assumes "fs_local obs (te_fs env)" and "run_local obs tool"
    and "run_write_tool env fresh req tool s = (r, s')"
    and "\<And>thread_root s1 state. load_thread_root env (fr_thread_id req) s = (Inr thread_root, s1) \<Longrightarrow>
      handle_state (fr_thread_id req) (ts_server s1) = (Inr state, ts_server s1) \<Longrightarrow>
      st_sandbox_policy state \<noteq> FullAccess \<and>
      (\<forall>c \<in> granted (te_fs env) (ts_world s) thread_root (st_sandbox_writable_roots state). \<not> prefix c q)"
  shows "obs (ts_world s') q = obs (ts_world s) q"
proof (cases "same_world s s'")
  case False
  with assms(3) obtain root s1 state where 1: "load_thread_root env (fr_thread_id req) s = (Inr root, s1)" "same_world s s1"
    "handle_state (fr_thread_id req) (ts_server s1) = (Inr state, ts_server s1)"
    "check_target env fresh root state req tool s1 = (r, s')" "\<not> same_world s1 s'"
    by (rule run_write_toolE)
  from 1(4,5) obtain target mode t where 2:
    "preview_sandbox_write_target (te_fs env) (ts_world s1) root (st_sandbox_policy state)
       (st_sandbox_writable_roots state) (components (wl_path tool)) = Inr target"
    "same_world s1 t" "perform_write env root state req tool mode t = (r, s')" "\<not> same_world t s'"
    by (rule check_targetE)
  from 2(3,4) obtain outcome u v where 3: "same_world t u" "write_work env root state req tool mode u = (outcome, v)"
    "same_world v s'" by (rule perform_writeE)
  have w: "ts_world u = ts_world s" "ts_world s1 = ts_world s" "ts_world v = ts_world s'"
    using 1(2) 2(2) 3(1,3) by (simp_all add: same_world_def)
  from 2(1) obtain p where "resolve_sandbox_write_target (te_fs env) (ts_world u) root (st_sandbox_writable_roots state) p = Inr target"
    by (auto simp: preview_sandbox_write_target_def rbind_eq_Inr w)
  note roots = target_root(1) [OF this]
  from assms(4) [OF 1(1,3)] write_work_local [OF assms(1,2) _ 3(2) roots, of q] show ?thesis
    by (simp add: w)
qed (simp add: same_world_def)

text \<open>The operations of the library stay below the root of the context they are given.\<close>

interpretation outside: action_relation "outside_same obs root"
  by unfold_locales (auto simp: outside_same_def)

lemma outside_context:
  assumes "\<And>cx. cx_root cx = root \<Longrightarrow> act_within (outside_same obs root) (f cx)"
  shows "act_within (outside_same obs root)
    (act_bind (act_lift (build_context lib root_id root scope permissions limits allow)) f)"
proof (rule act_withinI)
  fix w r w' assume run: "act_bind (act_lift (build_context lib root_id root scope permissions limits allow)) f w = (r, w')"
  show "outside_same obs root w w'"
  proof (cases "build_context lib root_id root scope permissions limits allow")
    case (Inl e)
    with run have "w' = w" by (simp add: act_bind_def act_simps)
    then show ?thesis by (simp add: outside_same_def)
  next
    case (Inr cx)
    then have "cx_root cx = root" by (auto simp: build_context_def Let_def split: option.splits)
    with assms Inr run show ?thesis by (auto simp: act_bind_def act_simps dest: act_withinD)
  qed
qed

lemma library_within:
  assumes "library_local obs lib"
  shows "cx_root cx = root \<Longrightarrow> act_within (outside_same obs root) (of_write lib cx p content b)"
    "cx_root cx = root \<Longrightarrow> act_within (outside_same obs root) (of_patch lib cx p patch)"
    "cx_root cx = root \<Longrightarrow> act_within (outside_same obs root) (of_delete lib cx p recursive ignore)"
    "cx_root cx = root \<Longrightarrow> act_within (outside_same obs root) (of_mkdir lib cx p recursive ignore)"
  using assms unfolding library_local_def by blast+

lemma workspace_within:
  assumes "library_local obs lib"
  shows "act_within (outside_same obs root) (write_text_workspace lib root_id root p content b)"
    "act_within (outside_same obs root) (patch_text_workspace lib root_id root p patch max_bytes)"
    "act_within (outside_same obs root) (delete_path_workspace lib root_id root p recursive ignore)"
    "act_within (outside_same obs root) (mkdir_workspace lib root_id root p recursive ignore)"
  unfolding write_text_workspace_def patch_text_workspace_def delete_path_workspace_def mkdir_workspace_def Let_def
  by (auto intro!: outside_context outside.within_intros library_within [OF assms] split: prod.split)

lemma edit_within:
  assumes "library_local obs lib"
  shows "act_within (outside_same obs root) (edit_replace_workspace lib root_id root p edits max_bytes)"
proof -
  have ctx: "act_within (outside_same obs root)
      (act_bind (act_map_error LibraryError (act_lift (build_context lib root_id root scope permissions limits allow))) f)"
    if f: "\<And>cx. cx_root cx = root \<Longrightarrow> act_within (outside_same obs root) (f cx)" for scope permissions limits allow f
  proof -
    have "act_bind (act_map_error LibraryError (act_lift b)) f =
        (\<lambda>w. case b of Inl e \<Rightarrow> (Inl (LibraryError e), w) | Inr cx \<Rightarrow> f cx w)" for b
      by (rule ext) (simp add: act_bind_def act_map_error_def act_simps split: sum.split)
    moreover have "build_context lib root_id root scope permissions limits allow = Inr cx \<Longrightarrow> cx_root cx = root" for cx
      by (auto simp: build_context_def Let_def split: option.splits)
    ultimately show ?thesis
      using f outside.R_refl by (auto simp: act_within_def split: sum.splits)
  qed
  show ?thesis
    unfolding edit_replace_workspace_def
    by (auto intro!: ctx outside.within_intros library_within [OF assms] split: prod.split)
qed


end
