(* ===== verification/FileSamples.thy ===== *)
theory FileSamples
  imports FileRuns FileContents FileConfinement
begin

text \<open>
  The properties of the file tools at a concrete call: a thread rooted at \<open>/w\<close> writes the file
  \<open>a\<close>, in the builtin mode, which asks for an approval that the policy grants.
\<close>

section \<open>A call\<close>

text \<open>A world is the set of its files; the library can only add files.\<close>

definition sample_library :: "path set omne_fs" where
  "sample_library = \<lparr>of_deny_globs = [], of_skip_globs = [], of_max_write_bytes = 0, of_context = (\<lambda>_. None),
     of_read = (\<lambda>_ p _. Inr (p, 0, [])), of_glob = (\<lambda>_ _ _. Inl []), of_grep = (\<lambda>_ _ _ _ _. Inl []),
     of_write = (\<lambda>cx p content _ w. (Inr \<lparr>wr_path = p, wr_bytes_written = of_nat (length content), wr_created = True\<rparr>,
        insert (cx_root cx @ p) w)),
     of_patch = (\<lambda>_ _ _ w. (Inl [], w)), of_delete = (\<lambda>_ _ _ _ w. (Inl [], w)), of_mkdir = (\<lambda>_ _ _ _ w. (Inl [], w))\<rparr>"

definition sample_tools :: "path set tool_env" where
  "sample_tools = \<lparr>te_server = sample_env, te_lib = sample_lib, te_exec_policy = empty_policy,
     te_fs = sample_fs, te_omne = sample_library, te_cwd = [RootDir], te_globs = sample_globs,
     te_modes_file = (\<lambda>_ _. Inl (ConfigOther [])), te_modes_env = None, te_path_exists = (\<lambda>_ _. False),
     te_catalog_text = (\<lambda>code args. Inr (Catalog code args)), te_structured_json = (\<lambda>_. JNull),
     te_parse_structured = (\<lambda>_. None), te_show_tool = (\<lambda>_. []), te_show_scope = (\<lambda>_. JNull),
     te_show_catalog_error = (\<lambda>_. []), te_show_error = (\<lambda>_. [])\<rparr>"

definition sample_tool_server :: server where
  "sample_tool_server = \<lparr>sv_logs = [sample_thread \<mapsto> [sample_event 1 (ThreadCreated ''/w'')]],
     sv_loaded = {sample_thread}, sv_budget = (\<lambda>_. \<lparr>bm_warning_active = None, bm_exceeded_active = None\<rparr>)\<rparr>"

definition sample_tool_state :: "path set tool_state" where
  "sample_tool_state = \<lparr>ts_server = sample_tool_server, ts_world = {}\<rparr>"

definition sample_write :: file_write_params where
  "sample_write = \<lparr>fc_thread_id = sample_thread, fc_turn_id = None, fc_approval_id = None, fc_path = ''a'',
     fw_text = ''hello'', fw_create_parent_dirs = None\<rparr>"


lemma sample_tool_live: "server_ok sample_tool_server" "env_writes (te_server sample_tools)"
  by (auto simp: sample_tool_server_def server_ok_def apply_event_def sample_event_def new_state_def event_seq_zero_def
      sample_tools_def sample_writes)

definition sample_thread_state :: thread_state where
  "sample_thread_state = (new_state sample_thread)\<lparr>st_cwd := Some ''/w'', st_last_seq := 1\<rparr>"

lemma sample_handle_state:
  "handle_state sample_thread sample_tool_server = (Inr sample_thread_state, sample_tool_server)"
  by (simp add: handle_state_def sample_tool_server_def apply_event_def sample_event_def new_state_def event_seq_zero_def
      sample_thread_state_def)

lemma sample_components: "components ''/w'' = [RootDir, Normal ''w'']" "components ''a'' = [Normal ''a'']"
  "is_absolute ''/w''"
  by code_simp+

lemma sample_load_root:
  "load_thread_root sample_tools sample_thread sample_tool_state = (Inr [RootDir, Normal ''w''], sample_tool_state)"
proof -
  have "get_or_load_thread sample_env sample_thread sample_tool_server = (Inr (), sample_tool_server)"
    by (simp add: get_or_load_thread_def sample_tool_server_def)
  then show ?thesis
    using sample_handle_state
    by (simp add: load_thread_root_def act_bind_def on_server_def on_world_def act_simps sample_tools_def
        sample_tool_state_def sample_thread_state_def resolve_thread_root_from_cwd_def sample_components
        resolve_dir_def candidate_path_def strip_cur_dir_components_def path_is_absolute_def join_path_def
        sample_fs_def canonicalize_def require_dir_def reject_parent_components_def)
qed

lemma sample_target:
  "resolve_sandbox_write_target sample_fs w [RootDir, Normal ''w''] [] [RootDir, Normal ''w'', Normal ''a''] =
     Inr \<lparr>wt_root = [RootDir, Normal ''w''], wt_rel_path = [Normal ''a'']\<rparr>"
  by (simp add: resolve_sandbox_write_target_def path_parent_def file_name_def missing_tail_Inr [OF sample_loop]
      select_sandbox_write_root_def select_root_def) (simp add: sample_fs_def canonicalize_def Let_def)

lemma sample_resolve_created:
  "resolve_file_for_sandbox sample_fs [RootDir, Normal ''w''] WorkspaceWrite [] [Normal ''a''] AccessWrite True w =
     (Inr [RootDir, Normal ''w'', Normal ''a''], w)"
  by (simp add: resolve_file_for_sandbox_def resolve_file_def act_bind_def act_simps sample_fs_def canonicalize_def
      candidate_path_def path_is_absolute_def join_path_def strip_cur_dir_components_def path_parent_def
      reject_parent_components_def ensure_dir_tree_no_symlink_def Let_def)

definition sample_write_request :: file_request where
  "sample_write_request = request_for (file_call_base.truncate sample_write) (ToolId 1) ''file/write''
     (write_approval_params sample_write)"

lemma sample_write_request_simps:
  "fr_thread_id sample_write_request = sample_thread" "fr_action sample_write_request = ''file/write''"
  "fr_tool_id sample_write_request = ToolId 1" "fr_approval_id sample_write_request = None"
  "fr_params sample_write_request = write_approval_params sample_write"
  by (simp_all add: sample_write_request_def request_for_def sample_write_def file_call_base.truncate_def)

lemma sample_catalog: "load_modes sample_tools root w = builtin_catalog sample_globs"
  by (simp add: load_modes_def load_catalog_def select_config_path_def sample_tools_def Let_def)

lemma sample_decision:
  "decision_for_path sample_globs (builtin_edit_permissions sample_globs Prompt [] default_deny_globs) ''a'' = Prompt"
proof -
  have "edit_permissions_new sample_globs Prompt [] default_deny_globs =
      Inr \<lparr>ed_decision = Prompt, ed_allow_globs = [], ed_deny_globs = default_deny_globs,
        ed_allow = None, ed_deny = default_deny_globs\<rparr>"
    by (simp add: edit_permissions_new_def compile_globset_def sample_globs_def default_deny_globs_def)
  then show ?thesis
    by (simp add: builtin_edit_permissions_def decision_for_path_def is_match_def sample_globs_def default_deny_globs_def)
qed

lemma sample_mode:
  "catalog_mode (builtin_catalog sample_globs) ''code'' = Some (builtin_code sample_globs)"
  "catalog_mode (builtin_catalog sample_globs) ''coder'' = Some (builtin_coder sample_globs)"
  by (simp_all add: catalog_mode_def builtin_catalog_def builtin_modes_def insert_alias_def author_alias_def
      doc_organizer_alias_def)

lemma sample_audit:
  "audit_decision (resolve_mode_and_role_decision_audit (builtin_catalog sample_globs) (builtin_code sample_globs)
     (Some ''coder'') ''file/write'' (edit_decision sample_tools [Normal ''a''])) = Prompt"
proof -
  have "edit_decision sample_tools [Normal ''a''] (builtin_code sample_globs) = Prompt"
    "edit_decision sample_tools [Normal ''a''] (builtin_coder sample_globs) = Prompt"
    using sample_decision
    by (simp_all add: edit_decision_def builtin_code_def builtin_coder_def builtin_mode_def path_string_def
        push_component_def sample_tools_def)
  moreover have "permission_mode_name ''coder'' = Some ''coder''" "usable_role (Some ''coder'') = Some ''coder''"
    by code_simp+
  ultimately show ?thesis
    by (simp add: resolve_mode_and_role_decision_audit_def resolve_mode_decision_audit_def with_override_def sample_mode
        builtin_code_def builtin_coder_def builtin_mode_def combine_def Let_def)
qed


lemma sample_gate:
  obtains v where "gate_approval sample_tools fresh AutoApprove sample_write_request sample_tool_state =
      (Inr GateApproved, sample_tool_state\<lparr>ts_server := v\<rparr>)" "live sample_thread v"
proof -
  let ?request = "\<lparr>ar_approval_id = None, ar_action = ''file/write'', ar_params = write_approval_params sample_write\<rparr>"
  have log: "sv_logs sample_tool_server sample_thread \<noteq> None" by (simp add: sample_tool_server_def)
  from sample_tool_live(2) have writes: "env_writes sample_env" by (simp add: sample_tools_def)
  have "remembered_approval_decision sample_lib sample_thread ''file/write'' (write_approval_params sample_write)
      sample_tool_server = (Inr None, sample_tool_server)"
    by (simp add: remembered_approval_decision_def act_bind_def act_simps read_log_def sample_tool_server_def
        sample_event_def approval_rule_key_def)
  moreover have "approval_requirement (write_approval_params sample_write) = RequirePrompt"
    by (simp add: approval_requirement_def write_approval_params_def)
  moreover obtain v where v: "request_and_decide sample_env sample_thread fresh None ?request Approved
      ''auto-approved by policy'' GateApproved sample_tool_server = (Inr GateApproved, v)"
    by (rule request_and_decide_succeeds [OF writes sample_tool_live(1) log])
  ultimately have gate: "gate_approval_with_deps sample_env sample_lib empty_policy fresh sample_thread None AutoApprove
      ?request sample_tool_server = (Inr GateApproved, v)"
    by (simp add: gate_approval_with_deps_def act_bind_step)
  moreover have "fr_turn_id sample_write_request = None"
    by (simp add: sample_write_request_def request_for_def sample_write_def file_call_base.truncate_def)
  ultimately have "gate_approval sample_tools fresh AutoApprove sample_write_request sample_tool_state =
      (Inr GateApproved, sample_tool_state\<lparr>ts_server := v\<rparr>)"
    by (simp add: gate_approval_def on_server_def sample_write_request_simps sample_tools_def sample_tool_state_def)
  moreover have "live sample_thread v"
    by (rule live_safe [OF _ act_withinD [OF safe_gate_approval gate]])
      (use sample_tool_live(1) log in \<open>simp add: live_def\<close>)
  ultimately show ?thesis using that by blast
qed

lemma sample_run:
  obtains r v where "handle_file_request sample_tools (ToolId 1) fresh (CallWrite sample_write) sample_tool_state =
    (r, \<lparr>ts_server = v, ts_world = {[RootDir, Normal ''w'', Normal ''a'']}\<rparr>)"
proof -
  define req where "req = sample_write_request"
  define tool where "tool = \<lparr>wl_path = fc_path sample_write, wl_secret_error = ''refusing to write .env-style secrets file'',
        wl_early = True, wl_create_parents = write_create_parents sample_write, wl_not_root = False,
        wl_run = (\<lambda>root rel. library (write_text_workspace (te_omne sample_tools) ''workspace'' root rel
                    (fw_text sample_write) (write_create_parents sample_write))),
        wl_result = (\<lambda>(p, r). JObject [(''bytes'', nat_json (wr_bytes_written r))]),
        wl_respond = (\<lambda>(p, r). tool_response sample_tools (ToolId 1)
          [(''resolved_path'', JString (path_string p)), (''bytes_written'', nat_json (wr_bytes_written r))])\<rparr>"
  have tool: "wl_path tool = ''a''" "wl_early tool" "wl_create_parents tool" "\<not> wl_not_root tool"
    "fr_thread_id req = sample_thread" "fr_action req = ''file/write''"
    by (simp_all add: tool_def sample_write_def write_create_parents_def req_def sample_write_request_simps)
  have policy: "st_allowed_tools sample_thread_state = None" "st_sandbox_policy sample_thread_state = WorkspaceWrite"
    "st_sandbox_writable_roots sample_thread_state = []" "st_mode sample_thread_state = ''code''"
    "st_role sample_thread_state = ''coder''" "st_approval_policy sample_thread_state = AutoApprove"
    by (simp_all add: sample_thread_state_def new_state_def)
  have plain: "\<not> is_secret_rel_path [Normal ''a'']" by code_simp
  have world: "ts_world sample_tool_state = {}" "ts_server sample_tool_state = sample_tool_server"
    by (simp_all add: sample_tool_state_def)
  obtain v where v: "gate_approval sample_tools fresh AutoApprove req sample_tool_state =
      (Inr GateApproved, sample_tool_state\<lparr>ts_server := v\<rparr>)" "live sample_thread v"
    unfolding req_def by (rule sample_gate)
  let ?s = "sample_tool_state\<lparr>ts_server := v\<rparr>"
  have gate: "enforce_file_mode_and_approval sample_tools fresh [RootDir, Normal ''w''] sample_thread_state req
      (edit_decision sample_tools [Normal ''a'']) sample_tool_state = (Inr (FileAllowed (builtin_code sample_globs)), ?s)"
    using v(1) sample_audit
    by (simp add: enforce_file_mode_and_approval_def act_bind_def act_simps sample_catalog sample_mode policy tool Let_def)
  have start: "\<exists>e u. start_tool sample_tools req ?s = (Inr e, ?s\<lparr>ts_server := u\<rparr>)"
    unfolding start_tool_def
    by (rule append_succeeds_tool [OF sample_tool_live(2), of "fr_thread_id req" ?s])
      (use v(2) tool in auto)
  then obtain e u where u: "start_tool sample_tools req ?s = (Inr e, sample_tool_state\<lparr>ts_server := u\<rparr>)" by auto
  let ?u = "sample_tool_state\<lparr>ts_server := u\<rparr>"
  have fs: "te_fs sample_tools = sample_fs" by (simp add: sample_tools_def)
  have "\<exists>a. wl_run tool [RootDir, Normal ''w''] [Normal ''a''] w = (Inr a, insert [RootDir, Normal ''w'', Normal ''a''] w)" for w
    by (simp add: tool_def library_def act_map_error_def write_text_workspace_def build_context_def act_bind_def
        act_simps sample_tools_def sample_library_def Let_def)
  then obtain a where lib: "wl_run tool [RootDir, Normal ''w''] [Normal ''a''] {} = (Inr a, {[RootDir, Normal ''w'', Normal ''a'']})" by blast
  have work: "write_work sample_tools [RootDir, Normal ''w''] sample_thread_state req tool (builtin_code sample_globs) ?u =
      (Inr ([RootDir, Normal ''w'', Normal ''a''], a), ?u\<lparr>ts_world := {[RootDir, Normal ''w'', Normal ''a'']}\<rparr>)"
    using sample_audit lib world
    by (simp add: write_work_def act_bind_def on_world_def act_simps policy tool sample_components
        sample_preview sample_target sample_resolve_created fs plain sample_catalog Let_def)
  obtain r s' where r: "complete_tool sample_tools sample_thread (fr_tool_id req) (wl_result tool) (wl_respond tool)
      (Inr ([RootDir, Normal ''w'', Normal ''a''], a)) (?u\<lparr>ts_world := {[RootDir, Normal ''w'', Normal ''a'']}\<rparr>) = (r, s')"
    by fastforce
  with act_withinD [OF world.complete_within r] have s': "s' = \<lparr>ts_server = ts_server s', ts_world = {[RootDir, Normal ''w'', Normal ''a'']}\<rparr>"
    by (simp add: same_world_def)
  have "perform_write sample_tools [RootDir, Normal ''w''] sample_thread_state req tool (builtin_code sample_globs) ?s = (r, s')"
    using u work r by (simp add: perform_write_def act_bind_step act_attempt_def tool)
  then have "check_target sample_tools fresh [RootDir, Normal ''w''] sample_thread_state req tool sample_tool_state = (r, s')"
    using gate plain
    by (simp add: check_target_def act_bind_def on_world_def act_simps fs policy tool sample_components
        sample_preview sample_target sample_resolve_created sample_tool_state_def)
  then have "run_write_tool sample_tools fresh req tool sample_tool_state = (r, s')"
    using sample_load_root sample_handle_state
    by (simp add: run_write_tool_def act_bind_def tool on_server_def policy act_simps world
        enforce_thread_allowed_tools_def sample_tool_state_def)
  then have "handle_file_request sample_tools (ToolId 1) fresh (CallWrite sample_write) sample_tool_state = (r, s')"
    by (simp add: handle_file_write_def req_def tool_def sample_write_request_def)
  with s' show ?thesis by (metis that)
qed

section \<open>Witnesses\<close>

theorem file_tools_append_only_witness:
  "\<exists>r s'. handle_file_request sample_tools (ToolId 1) (ApprovalId 1) (CallWrite sample_write) sample_tool_state = (r, s') \<and>
     ts_world s' = {[RootDir, Normal ''w'', Normal ''a'']} \<and> server_ok (ts_server s')"
proof -
  obtain r v where run: "handle_file_request sample_tools (ToolId 1) (ApprovalId 1) (CallWrite sample_write) sample_tool_state =
    (r, \<lparr>ts_server = v, ts_world = {[RootDir, Normal ''w'', Normal ''a'']}\<rparr>)" by (rule sample_run)
  from file_tools_append_only [OF run] sample_tool_live(1) have "server_ok v" by (simp add: sample_tool_state_def)
  with run show ?thesis by auto
qed




text \<open>A log that remembers an approval of writing \<open>hello\<close>; the gate lets another text pass.\<close>

definition sample_remembering :: "path set tool_state" where
  "sample_remembering = \<lparr>ts_server = sample_tool_server\<lparr>sv_logs := [sample_thread \<mapsto>
       [sample_event 1 (ThreadCreated ''/w''),
        sample_event 2 (ApprovalRequested (ApprovalId 5) None ''file/write'' (write_approval_params sample_write)),
        sample_event 3 (ApprovalDecided (ApprovalId 5) Approved True None)]]\<rparr>, ts_world = {}\<rparr>"

definition other_write :: file_write_params where
  "other_write = sample_write\<lparr>fw_text := ''rm -rf /''\<rparr>"

theorem remembered_approval_ignores_content_witness:
  "\<exists>s'. gate_approval sample_tools (ApprovalId 9) Manual (request_for (file_call_base.truncate other_write) (ToolId 2)
     ''file/write'' (write_approval_params other_write)) sample_remembering = (Inr GateApproved, s')"
proof -
  let ?req = "request_for (file_call_base.truncate other_write) (ToolId 2) ''file/write'' (write_approval_params other_write)"
  define key where "key = projr (approval_rule_key sample_lib ''file/write'' (write_approval_params sample_write))"
  have key: "approval_rule_key sample_lib ''file/write'' (write_approval_params sample_write) = Inr key"
    by (simp add: key_def content_keys)
  have same: "same_but_content (CallWrite sample_write) (CallWrite other_write)"
    by (simp add: other_write_def write_create_parents_def)
  have log: "log_of (ts_server sample_remembering) sample_thread =
      [sample_event 1 (ThreadCreated ''/w''),
        sample_event 2 (ApprovalRequested (ApprovalId 5) None ''file/write'' (write_approval_params sample_write)),
        sample_event 3 (ApprovalDecided (ApprovalId 5) Approved True None)]"
    by (simp add: sample_remembering_def log_of_def)
  have remembered: "newest_remembered sample_lib [] (map ev_kind (log_of (ts_server sample_remembering) sample_thread)) key Approved"
    using key by (simp add: log sample_event_def remembers_def no_requirement write_approval_params_def)
  have ok: "server_ok (ts_server sample_remembering)"
    by (auto simp: sample_remembering_def sample_tool_server_def server_ok_def apply_event_def sample_event_def
        new_state_def event_seq_zero_def)
  have thread: "fr_thread_id ?req = sample_thread" "fr_approval_id ?req = None"
    by (simp_all add: request_for_def other_write_def sample_write_def file_call_base.truncate_def)
  have "te_lib sample_tools = sample_lib" by (simp add: sample_tools_def)
  with remembered_approval_ignores_content [OF same, of "ToolId 1" _ _ "ToolId 2" ?req "''a''" sample_tools key
      sample_remembering "ApprovalId 9" Manual] key remembered ok thread sample_tool_live(2)
  show ?thesis
    by (simp add: request_for_def other_write_def sample_write_def file_call_base.truncate_def sample_lib_def)
qed

end
