(* ===== verification/Turns.thy ===== *)
theory Turns
  imports Server
begin

text \<open>
  Turns of a thread (\<open>crates/app-server/src/main/preamble/server.rs\<close>): the checks of a
  turn's input, starting, interrupting and completing a turn, and the two handlers of
  \<open>main/app/turn.rs\<close>. A \<open>ThreadRuntime\<close> adds to the thread's log the active turn as the
  runtime sees it, the cancellation tokens of its turns and the tasks that run them.

  A turn's task is an element of \<open>rt_running\<close> from \<open>start_turn\<close> until the agent's future or
  its cancellation has been seen. Completing a turn takes two locks one after the other, so
  it is two operations: \<open>complete_turn_append\<close> writes the event under the lock of the handle,
  and \<open>complete_turn_clear\<close> takes the lock of the active turn afterwards; the turns between
  the two are \<open>rt_finishing\<close>. A runtime whose completion cannot be written is invalidated and
  evicted, which removes it here; a task it still has is not modelled further.
\<close>

section \<open>The checks of a turn's input\<close>

definition blank :: "string \<Rightarrow> bool" where
  "blank s \<longleftrightarrow> trim s = []"

definition check_max_bytes :: "string \<Rightarrow> u64 option \<Rightarrow> string + unit" where
  "check_max_bytes message max_bytes = (if max_bytes = Some 0 then Inl message else Inr ())"

definition validate_file_ref :: "context_ref_file \<Rightarrow> string + unit" where
  "validate_file_ref f =
     (if blank (crf_path f) then Inl ''context_refs.file.path must be non-empty''
      else if crf_start_line f = Some 0 then Inl ''context_refs.file.start_line must be >= 1''
      else rbind
        (case crf_end_line f of
           None \<Rightarrow> Inr ()
         | Some end_line \<Rightarrow>
             if end_line = 0 then Inl ''context_refs.file.end_line must be >= 1''
             else (case crf_start_line f of
                     None \<Rightarrow> Inl ''context_refs.file.end_line requires start_line''
                   | Some start_line \<Rightarrow>
                       if end_line < start_line
                       then Inl ''context_refs.file.end_line must be >= start_line''
                       else Inr ()))
        (\<lambda>_. check_max_bytes ''context_refs.file.max_bytes must be >= 1'' (crf_max_bytes f)))"

fun validate_context_ref :: "context_ref \<Rightarrow> string + unit" where
  "validate_context_ref (CtxFile f) = validate_file_ref f"
| "validate_context_ref (CtxDiff d) =
     check_max_bytes ''context_refs.diff.max_bytes must be >= 1'' (crd_max_bytes d)"

text \<open>The loop over the elements: the first refused one ends it.\<close>

fun validate_each :: "('a \<Rightarrow> 'e + unit) \<Rightarrow> 'a list \<Rightarrow> 'e + unit" where
  "validate_each check [] = Inr ()"
| "validate_each check (x # xs) = rbind (check x) (\<lambda>_. validate_each check xs)"

definition validate_context_refs :: "context_ref list \<Rightarrow> string + unit" where
  "validate_context_refs refs = validate_each validate_context_ref refs"

fun validate_source :: "string \<Rightarrow> string \<Rightarrow> attachment_source \<Rightarrow> string + unit" where
  "validate_source path_message url_message (SourcePath path) =
     (if blank path then Inl path_message else Inr ())"
| "validate_source path_message url_message (SourceUrl url) =
     (if blank url then Inl url_message else Inr ())"

fun validate_turn_attachment :: "turn_attachment \<Rightarrow> string + unit" where
  "validate_turn_attachment (AttachImage img) =
     rbind (validate_source ''attachments.image.source.path must be non-empty''
              ''attachments.image.source.url must be non-empty'' (img_source img))
       (\<lambda>_. case img_media_type img of
               Some media_type \<Rightarrow>
                 if blank media_type
                 then Inl ''attachments.image.media_type must be non-empty when provided''
                 else Inr ()
             | None \<Rightarrow> Inr ())"
| "validate_turn_attachment (AttachFile f) =
     rbind (validate_source ''attachments.file.source.path must be non-empty''
              ''attachments.file.source.url must be non-empty'' (att_source f))
       (\<lambda>_. if blank (att_media_type f) then Inl ''attachments.file.media_type must be non-empty''
             else (case att_filename f of
                     Some filename \<Rightarrow>
                       if blank filename
                       then Inl ''attachments.file.filename must be non-empty when provided''
                       else Inr ()
                   | None \<Rightarrow> Inr ()))"

definition validate_turn_attachments :: "turn_attachment list \<Rightarrow> string + unit" where
  "validate_turn_attachments attachments = validate_each validate_turn_attachment attachments"

fun validate_directives_loop :: "bool \<Rightarrow> turn_directive list \<Rightarrow> string + unit" where
  "validate_directives_loop seen_plan [] = Inr ()"
| "validate_directives_loop seen_plan (DirectivePlan # ds) =
     (if seen_plan then Inl ''duplicate turn directive: plan''
      else validate_directives_loop True ds)"

definition validate_turn_directives :: "turn_directive list \<Rightarrow> string + unit" where
  "validate_turn_directives directives = validate_directives_loop False directives"

text \<open>\<open>Some(xs) if xs.is_empty() => None, other => other\<close>, and the check of what is left.\<close>

definition checked_list :: "('a list \<Rightarrow> 'e + unit) \<Rightarrow> 'a list option \<Rightarrow> 'e + 'a list option" where
  "checked_list check xs =
     (case xs of
        None \<Rightarrow> Inr None
      | Some ys \<Rightarrow> if ys = [] then Inr None else rbind (check ys) (\<lambda>_. Inr (Some ys)))"

section \<open>Runtimes\<close>

record active_turn =
  at_turn_id :: turn_id
  at_interrupt_reason :: "string option"

record thread_runtime =
  rt_active_turn :: "active_turn option"
  rt_cancelled :: "turn_id set"
  rt_running :: "turn_id set"
  rt_finishing :: "turn_id set"

definition new_runtime :: thread_runtime where
  "new_runtime = \<lparr>rt_active_turn = None, rt_cancelled = {}, rt_running = {}, rt_finishing = {}\<rparr>"

record turn_server =
  tn_server :: server
  tn_runtimes :: "thread_id \<Rightarrow> thread_runtime option"

datatype turn_error =
    InvalidTurnInput string
  | RuntimeInvalidated
  | ThreadIsArchived
  | ThreadIsPaused
  | TurnAlreadyActive
  | TurnIsNotActive
  | NoActiveTurn
  | TurnServerError server_error
  | ActiveTurnRemains turn_id
  | StopProcessesFailed

type_synonym 'a turn_action = "(turn_server, turn_error, 'a) state_action"

text \<open>An operation of the server, run on the server of a turn server.\<close>

definition on_threads :: "'a action \<Rightarrow> 'a turn_action" where
  "on_threads m s =
     (case m (tn_server s) of
        (Inl e, v) \<Rightarrow> (Inl (TurnServerError e), s\<lparr>tn_server := v\<rparr>)
      | (Inr a, v) \<Rightarrow> (Inr a, s\<lparr>tn_server := v\<rparr>))"

text \<open>The runtime an operation runs on; one that is gone is the invalidated one.\<close>

definition runtime_of :: "thread_id \<Rightarrow> thread_runtime turn_action" where
  "runtime_of tid = act_look (\<lambda>s.
     case tn_runtimes s tid of None \<Rightarrow> Inl RuntimeInvalidated | Some rt \<Rightarrow> Inr rt)"

definition update_runtime :: "thread_id \<Rightarrow> (thread_runtime \<Rightarrow> thread_runtime) \<Rightarrow> unit turn_action" where
  "update_runtime tid f s =
     (Inr (), s\<lparr>tn_runtimes := (tn_runtimes s)(tid := map_option f (tn_runtimes s tid))\<rparr>)"

text \<open>\<open>handle.state()\<close>: the replay of the log.\<close>

definition runtime_state :: "thread_id \<Rightarrow> thread_state turn_action" where
  "runtime_state tid = act_look (\<lambda>s.
     case sv_logs (tn_server s) tid of
       None \<Rightarrow> Inl (TurnServerError (ThreadNotFound tid))
     | Some es \<Rightarrow>
         (case replay es (new_state tid) of
            Inl e \<Rightarrow> Inl (TurnServerError (EventRefused e))
          | Inr st \<Rightarrow> Inr st))"

text \<open>\<open>handle.append\<close>, whose notifications leave no trace in the state.\<close>

definition handle_append_event :: "server_env \<Rightarrow> thread_id \<Rightarrow> thread_event_kind \<Rightarrow> unit turn_action" where
  "handle_append_event env tid kind =
     act_bind (on_threads (append_event_and_emit env tid kind)) (\<lambda>_. act_return ())"

text \<open>\<open>Server::get_or_load_thread\<close>, which makes a runtime for a thread it loads.\<close>

definition load_runtime :: "server_env \<Rightarrow> thread_id \<Rightarrow> unit turn_action" where
  "load_runtime env tid =
     act_bind (on_threads (get_or_load_thread env tid)) (\<lambda>_ s.
       (Inr (), s\<lparr>tn_runtimes := (tn_runtimes s)(tid :=
          (case tn_runtimes s tid of None \<Rightarrow> Some new_runtime | Some rt \<Rightarrow> Some rt))\<rparr>))"

definition evict_cached_thread :: "thread_id \<Rightarrow> unit turn_action" where
  "evict_cached_thread tid s =
     (Inr (), s\<lparr>tn_server := (tn_server s)\<lparr>sv_loaded := sv_loaded (tn_server s) - {tid}\<rparr>,
               tn_runtimes := (tn_runtimes s)(tid := None)\<rparr>)"

section \<open>Starting a turn\<close>

record turn_request =
  tr_input :: string
  tr_context_refs :: "context_ref list option"
  tr_attachments :: "turn_attachment list option"
  tr_directives :: "turn_directive list option"
  tr_priority :: turn_priority

definition cleared_markers :: "turn_id \<Rightarrow> thread_event_kind list" where
  "cleared_markers turn =
     map (\<lambda>marker. AttentionMarkerCleared marker (Some turn) (Some ''new turn started''))
       [PlanReady, DiffReady, FanOutLinkageIssue, FanOutAutoApplyError]"

fun handle_append_all :: "server_env \<Rightarrow> thread_id \<Rightarrow> thread_event_kind list \<Rightarrow> unit turn_action" where
  "handle_append_all env tid [] = act_return ()"
| "handle_append_all env tid (k # ks) =
     act_bind (handle_append_event env tid k) (\<lambda>_. handle_append_all env tid ks)"

definition checked_request :: "turn_request \<Rightarrow> string + turn_request" where
  "checked_request req =
     rbind (checked_list validate_context_refs (tr_context_refs req)) (\<lambda>refs.
     rbind (checked_list validate_turn_attachments (tr_attachments req)) (\<lambda>attachments.
     rbind (checked_list validate_turn_directives (tr_directives req)) (\<lambda>directives.
       Inr (req\<lparr>tr_context_refs := refs, tr_attachments := attachments,
                tr_directives := directives\<rparr>))))"

definition turn_started_event :: "turn_id \<Rightarrow> turn_request \<Rightarrow> thread_event_kind" where
  "turn_started_event turn req = TurnStarted
     \<lparr>tsp_turn_id = turn, tsp_input = tr_input req, tsp_context_refs = tr_context_refs req,
      tsp_attachments = tr_attachments req, tsp_directives = tr_directives req,
      tsp_priority = tr_priority req\<rparr>"

text \<open>The refusals of a thread that cannot take a turn now.\<close>

definition check_startable :: "thread_state \<Rightarrow> turn_error + unit" where
  "check_startable st =
     (if st_archived st then Inl ThreadIsArchived
      else if st_paused st then Inl ThreadIsPaused
      else if st_active_turn_id st \<noteq> None then Inl TurnAlreadyActive
      else Inr ())"

text \<open>\<open>turn\<close> is the identifier \<open>TurnId::new\<close> returns.\<close>

definition start_turn :: "server_env \<Rightarrow> thread_id \<Rightarrow> turn_id \<Rightarrow> turn_request \<Rightarrow> turn_id turn_action" where
  "start_turn env tid turn req =
     act_bind (act_map_error InvalidTurnInput (act_lift (checked_request req))) (\<lambda>req'.
     act_bind (runtime_of tid) (\<lambda>_.
     act_bind (runtime_state tid) (\<lambda>st.
     act_bind (act_lift (check_startable st)) (\<lambda>_.
     act_bind (handle_append_all env tid (cleared_markers turn)) (\<lambda>_.
     act_bind (handle_append_event env tid (turn_started_event turn req')) (\<lambda>_.
     act_bind (update_runtime tid (\<lambda>rt. rt
         \<lparr>rt_active_turn := Some \<lparr>at_turn_id = turn, at_interrupt_reason = None\<rparr>,
          rt_running := insert turn (rt_running rt)\<rparr>)) (\<lambda>_.
     act_return turn)))))))"

definition handle_turn_start ::
  "server_env \<Rightarrow> thread_id \<Rightarrow> turn_id \<Rightarrow> turn_request \<Rightarrow> turn_id turn_action" where
  "handle_turn_start env tid turn req =
     act_bind (load_runtime env tid) (\<lambda>_. start_turn env tid turn req)"

section \<open>Interrupting a turn\<close>

text \<open>The reason of the first interruption is kept.\<close>

definition note_interrupt :: "string option \<Rightarrow> active_turn \<Rightarrow> active_turn" where
  "note_interrupt reason a =
     (if at_interrupt_reason a = None then a\<lparr>at_interrupt_reason := reason\<rparr> else a)"

definition cancel_turn :: "thread_id \<Rightarrow> turn_id \<Rightarrow> unit turn_action" where
  "cancel_turn tid turn = update_runtime tid (\<lambda>rt. rt\<lparr>rt_cancelled := insert turn (rt_cancelled rt)\<rparr>)"

definition interrupt_turn :: "server_env \<Rightarrow> thread_id \<Rightarrow> turn_id \<Rightarrow> string option \<Rightarrow> unit turn_action" where
  "interrupt_turn env tid turn reason =
     act_bind (runtime_of tid) (\<lambda>rt.
     act_bind (runtime_state tid) (\<lambda>st.
       case rt_active_turn rt of
         None \<Rightarrow>
           act_fail (if st_active_turn_id st \<noteq> None then TurnIsNotActive else NoActiveTurn)
       | Some a \<Rightarrow>
           if at_turn_id a \<noteq> turn then act_fail TurnIsNotActive
           else
             act_bind (update_runtime tid (\<lambda>rt.
                 rt\<lparr>rt_active_turn := Some (note_interrupt reason a)\<rparr>)) (\<lambda>_.
             if st_interrupt_requested st then cancel_turn tid turn
             else
               act_bind (handle_append_event env tid (TurnInterruptRequested turn reason)) (\<lambda>_.
               cancel_turn tid turn))))"

definition handle_turn_interrupt ::
  "server_env \<Rightarrow> thread_id \<Rightarrow> turn_id \<Rightarrow> string option \<Rightarrow> unit turn_action" where
  "handle_turn_interrupt env tid turn reason =
     act_bind (load_runtime env tid) (\<lambda>_.
     interrupt_turn env tid turn
       (case reason of Some r \<Rightarrow> Some r | None \<Rightarrow> Some ''turn interrupted''))"

section \<open>Running and completing a turn\<close>

datatype agent_turn_error =
  AgentCancelled | BudgetExceeded | TokenBudgetExceeded | OpenAiRequestTimedOut | LoopDetected

text \<open>The first agent error of the chain of causes decides.\<close>

definition classify_agent_turn_error :: "agent_turn_error option list \<Rightarrow> turn_status" where
  "classify_agent_turn_error chain =
     (case List.map_filter id chain of
        [] \<Rightarrow> TurnStatusFailed
      | e # _ \<Rightarrow> (case e of AgentCancelled \<Rightarrow> TurnStatusInterrupted | _ \<Rightarrow> TurnStatusStuck))"

text \<open>What ends a turn's task: its cancellation, or the agent's result (an error with its text).\<close>

datatype turn_outcome =
    OutcomeCancelled
  | OutcomeOk
  | OutcomeErr "agent_turn_error option list" string

definition outcome_status :: "thread_runtime \<Rightarrow> turn_outcome \<Rightarrow> turn_status \<times> string option" where
  "outcome_status rt outcome =
     (case outcome of
        OutcomeCancelled \<Rightarrow>
          (TurnStatusInterrupted,
           case Option.bind (rt_active_turn rt) at_interrupt_reason of
             Some r \<Rightarrow> Some r | None \<Rightarrow> Some ''turn interrupted'')
      | OutcomeOk \<Rightarrow> (TurnStatusCompleted, None)
      | OutcomeErr chain message \<Rightarrow> (classify_agent_turn_error chain, Some message))"

definition resolve_turn_completion ::
  "thread_state \<Rightarrow> turn_status \<Rightarrow> string option \<Rightarrow> turn_status \<times> string option" where
  "resolve_turn_completion st status reason =
     (if \<not> st_interrupt_requested st then (status, reason)
      else (TurnStatusInterrupted,
            case st_interrupt_reason st of
              Some r \<Rightarrow> Some r
            | None \<Rightarrow> (case reason of Some r \<Rightarrow> Some r | None \<Rightarrow> Some ''turn interrupted'')))"

definition finishing :: "thread_id \<Rightarrow> turn_id \<Rightarrow> unit turn_action" where
  "finishing tid turn =
     update_runtime tid (\<lambda>rt. rt\<lparr>rt_finishing := insert turn (rt_finishing rt)\<rparr>)"

definition complete_turn_append ::
  "server_env \<Rightarrow> thread_id \<Rightarrow> turn_id \<Rightarrow> turn_status \<Rightarrow> string option \<Rightarrow> unit turn_action" where
  "complete_turn_append env tid turn status reason =
     act_bind (runtime_state tid) (\<lambda>st.
       if st_active_turn_id st \<noteq> Some turn then finishing tid turn
       else
         (case resolve_turn_completion st status reason of
            (final_status, final_reason) \<Rightarrow>
              act_bind (act_attempt
                  (handle_append_event env tid (TurnCompleted turn final_status final_reason))) (\<lambda>appended.
              case appended of
                Inl (err :: turn_error) \<Rightarrow> evict_cached_thread tid
              | Inr _ \<Rightarrow> finishing tid turn)))"

definition complete_turn_clear :: "thread_id \<Rightarrow> turn_id \<Rightarrow> unit turn_action" where
  "complete_turn_clear tid turn = update_runtime tid (\<lambda>rt. rt
     \<lparr>rt_active_turn :=
        (case rt_active_turn rt of
           Some a \<Rightarrow> if at_turn_id a = turn then None else Some a
         | None \<Rightarrow> None),
      rt_finishing := rt_finishing rt - {turn}\<rparr>)"

definition complete_turn ::
  "server_env \<Rightarrow> thread_id \<Rightarrow> turn_id \<Rightarrow> turn_status \<Rightarrow> string option \<Rightarrow> unit turn_action" where
  "complete_turn env tid turn status reason =
     act_bind (complete_turn_append env tid turn status reason) (\<lambda>_. complete_turn_clear tid turn)"

text \<open>The task of a turn sees its outcome and writes the completion.\<close>

definition run_turn_ends :: "server_env \<Rightarrow> thread_id \<Rightarrow> turn_id \<Rightarrow> turn_outcome \<Rightarrow> unit turn_action" where
  "run_turn_ends env tid turn outcome =
     act_bind (runtime_of tid) (\<lambda>rt.
     act_bind (update_runtime tid (\<lambda>rt. rt\<lparr>rt_running := rt_running rt - {turn}\<rparr>)) (\<lambda>_.
     case outcome_status rt outcome of
       (status, reason) \<Rightarrow> complete_turn_append env tid turn status reason))"

end
