(* ===== verification/TurnRuns.thy ===== *)
theory TurnRuns
  imports Turns
begin

text \<open>
  The turns of all threads as a step relation: requests, tasks and other appends interleave,
  one operation of \<open>Turns\<close> at a time. An abstract machine says what a thread's log may show
  of its turns; every step of the server is a step of the machine or leaves it alone, and the
  runtime agrees with the log.
\<close>

section \<open>The machine of one thread's turns\<close>

text \<open>The current turn, with whether an interruption is on record, and the last completed one.\<close>

record turn_view =
  tv_current :: "(turn_id \<times> bool) option"
  tv_last :: "(turn_id \<times> turn_status) option"

definition idle_view :: turn_view where
  "idle_view = \<lparr>tv_current = None, tv_last = None\<rparr>"

inductive turn_machine :: "turn_view \<Rightarrow> turn_view \<Rightarrow> bool" where
  machine_starts: "tv_current v = None \<Longrightarrow>
    turn_machine v (v\<lparr>tv_current := Some (turn, False)\<rparr>)"
| machine_interrupted: "tv_current v = Some (turn, b) \<Longrightarrow>
    turn_machine v (v\<lparr>tv_current := Some (turn, True)\<rparr>)"
| machine_completes: "tv_current v = Some (turn, b) \<Longrightarrow> (b \<longrightarrow> status = TurnStatusInterrupted) \<Longrightarrow>
    turn_machine v \<lparr>tv_current = None, tv_last = Some (turn, status)\<rparr>"

inductive_simps turn_machine_iff: "turn_machine v w"

fun view_kind :: "turn_view \<Rightarrow> thread_event_kind \<Rightarrow> turn_view" where
  "view_kind v (TurnStarted p) = v\<lparr>tv_current := Some (tsp_turn_id p, False)\<rparr>"
| "view_kind v (TurnInterruptRequested turn _) = v\<lparr>tv_current := Some (turn, True)\<rparr>"
| "view_kind v (TurnCompleted turn status _) = \<lparr>tv_current = None, tv_last = Some (turn, status)\<rparr>"
| "view_kind v _ = v"

definition view_log :: "thread_event_kind list \<Rightarrow> turn_view" where
  "view_log ks = foldl view_kind idle_view ks"

definition view_of :: "turn_server \<Rightarrow> thread_id \<Rightarrow> turn_view" where
  "view_of s tid = view_log (core (log_of (tn_server s) tid))"

lemma view_log_append: "view_log (ks @ ls) = foldl view_kind (view_log ks) ls"
  by (simp add: view_log_def)

lemma view_kind_redact [simp]: "view_kind v (redact_thread_event_kind ra k) = view_kind v k"
  by (cases k) simp_all

text \<open>The events that concern turns; the rest leave the machine alone.\<close>

fun turn_event :: "thread_event_kind \<Rightarrow> bool" where
  "turn_event (TurnStarted _) \<longleftrightarrow> True"
| "turn_event (TurnInterruptRequested _ _) \<longleftrightarrow> True"
| "turn_event (TurnCompleted _ _ _) \<longleftrightarrow> True"
| "turn_event _ \<longleftrightarrow> False"

lemma view_kind_other: "\<not> turn_event k \<Longrightarrow> view_kind v k = v"
  by (cases k) simp_all

lemma view_kind_others: "list_all (\<lambda>k. \<not> turn_event k) ks \<Longrightarrow> foldl view_kind v ks = v"
  by (induction ks) (simp_all add: view_kind_other)

definition state_view :: "thread_state \<Rightarrow> (turn_id \<times> bool) option" where
  "state_view st = map_option (\<lambda>t. (t, st_interrupt_requested st)) (st_active_turn_id st)"

lemma state_view_tokens [simp]: "state_view (record_token_usage st rid u) = state_view st"
  by (simp add: state_view_def)

lemma state_view_config [simp]: "state_view (apply_config c st) = state_view st"
  by (simp add: state_view_def)

lemma apply_kind_view:
  assumes "apply_kind t k st = Inr st'" and "tv_current v = state_view st"
  shows "tv_current (view_kind v k) = state_view st'"
  using assms by (cases k) (auto simp: state_view_def split: option.splits if_splits)

lemma replay_view_kinds:
  assumes "replay es st = Inr st'" and "tv_current v = state_view st"
  shows "tv_current (foldl view_kind v (map ev_kind es)) = state_view st'"
  using assms
proof (induction es arbitrary: st v)
  case (Cons e es)
  then obtain m where m: "apply_event e st = Inr m" "replay es m = Inr st'"
    by (auto simp: rbind_eq_Inr)
  from m(1) obtain m' where "apply_kind (ev_timestamp e) (ev_kind e) st = Inr m'"
    "state_view m = state_view m'" by (auto simp: apply_event_Inr state_view_def)
  with apply_kind_view Cons.prems(2) have "tv_current (view_kind v (ev_kind e)) = state_view m" by metis
  from Cons.IH [OF m(2) this] show ?case by simp
qed simp

lemma view_core: "foldl view_kind v (core es) = foldl view_kind v (map ev_kind es)"
proof (induction es arbitrary: v)
  case (Cons e es)
  have "is_marker (ev_kind e) \<Longrightarrow> view_kind v (ev_kind e) = v" by (cases "ev_kind e") simp_all
  with Cons show ?case by (simp add: core_def)
qed (simp add: core_def)

lemma replay_view:
  "replay es (new_state tid) = Inr st \<Longrightarrow> tv_current (view_log (core es)) = state_view st"
  using replay_view_kinds [of es "new_state tid" st idle_view]
  by (simp add: view_log_def view_core idle_view_def state_view_def new_state_def)

section \<open>Steps\<close>

definition fresh_turn :: "turn_id \<Rightarrow> thread_runtime \<Rightarrow> bool" where
  "fresh_turn turn rt \<longleftrightarrow> turn \<notin> rt_cancelled rt \<and> turn \<notin> rt_running rt \<and> turn \<notin> rt_finishing rt"

text \<open>
  One operation, with whatever result. A task ends by cancellation only when its token is
  cancelled; a forced completion comes with the status \<open>Interrupted\<close>, as in
  \<open>thread_manage/pause.rs\<close>, \<open>archive.rs\<close> and \<open>delete.rs\<close>; a fresh turn identifier is one that
  the runtime has not seen. Every event of another kind can be appended at any time.
\<close>

inductive runs_step :: "server_env \<Rightarrow> turn_server \<Rightarrow> turn_server \<Rightarrow> bool" for env where
  step_load: "load_runtime env tid s = (r, s') \<Longrightarrow> runs_step env s s'"
| step_start: "start_turn env tid turn req s = (r', s') \<Longrightarrow>
    (\<And>rt. tn_runtimes s tid = Some rt \<Longrightarrow> fresh_turn turn rt) \<Longrightarrow> runs_step env s s'"
| step_interrupt: "interrupt_turn env tid turn reason s = (r, s') \<Longrightarrow> runs_step env s s'"
| step_ends: "run_turn_ends env tid turn outcome s = (r, s') \<Longrightarrow> tn_runtimes s tid = Some rt \<Longrightarrow>
    turn \<in> rt_running rt \<Longrightarrow> (outcome = OutcomeCancelled \<longrightarrow> turn \<in> rt_cancelled rt) \<Longrightarrow> runs_step env s s'"
| step_forced: "complete_turn_append env tid turn TurnStatusInterrupted reason s = (r, s') \<Longrightarrow>
    tn_runtimes s tid = Some rt \<Longrightarrow> runs_step env s s'"
| step_clears: "complete_turn_clear tid turn s = (r, s') \<Longrightarrow> tn_runtimes s tid = Some rt \<Longrightarrow>
    turn \<in> rt_finishing rt \<Longrightarrow> runs_step env s s'"
| step_other: "on_threads (rt_append_event env tid kind) s = (r'', s') \<Longrightarrow> \<not> turn_event kind \<Longrightarrow>
    tn_runtimes s tid = Some rt \<Longrightarrow> runs_step env s s'"

inductive runs_reach :: "server_env \<Rightarrow> turn_server \<Rightarrow> turn_server \<Rightarrow> bool" for env s where
  reach_start: "runs_reach env s s"
| reach_step: "runs_reach env s m \<Longrightarrow> runs_step env m s' \<Longrightarrow> runs_reach env s s'"

text \<open>A server that has just started: logs that replay, and nothing loaded.\<close>

definition boot_state :: "turn_server \<Rightarrow> bool" where
  "boot_state s \<longleftrightarrow> server_ok (tn_server s) \<and> sv_loaded (tn_server s) = {} \<and> tn_runtimes s = (\<lambda>_. None)"

section \<open>The runtime agrees with the log\<close>

definition rt_ok :: "turn_view \<Rightarrow> thread_runtime \<Rightarrow> bool" where
  "rt_ok v rt \<longleftrightarrow>
     (case tv_current v of
        None \<Rightarrow> True
      | Some (turn, interrupted) \<Rightarrow>
          map_option at_turn_id (rt_active_turn rt) = Some turn \<and> turn \<in> rt_running rt \<and>
          turn \<notin> rt_finishing rt \<and> (turn \<in> rt_cancelled rt \<longrightarrow> interrupted))"

definition thread_ok :: "turn_server \<Rightarrow> thread_id \<Rightarrow> bool" where
  "thread_ok s tid \<longleftrightarrow>
     (tn_runtimes s tid = None \<longleftrightarrow> tid \<notin> sv_loaded (tn_server s)) \<and>
     (tn_runtimes s tid \<noteq> None \<longrightarrow> sv_logs (tn_server s) tid \<noteq> None) \<and>
     (\<forall>rt. tn_runtimes s tid = Some rt \<longrightarrow> rt_ok (view_of s tid) rt)"

definition runs_ok :: "turn_server \<Rightarrow> bool" where
  "runs_ok s \<longleftrightarrow> server_ok (tn_server s) \<and> (\<forall>tid. thread_ok s tid)"

text \<open>What every operation on a thread does to the others, and to the logs.\<close>

definition touches :: "thread_id \<Rightarrow> turn_server \<Rightarrow> turn_server \<Rightarrow> bool" where
  "touches tid s s' \<longleftrightarrow> safe_step (tn_server s) (tn_server s') \<and>
     (\<forall>u. u \<noteq> tid \<longrightarrow> sv_logs (tn_server s') u = sv_logs (tn_server s) u \<and>
        tn_runtimes s' u = tn_runtimes s u \<and> (u \<in> sv_loaded (tn_server s') \<longleftrightarrow> u \<in> sv_loaded (tn_server s)))"

interpretation tch: action_relation "touches tid" for tid
  by unfold_locales (auto simp: touches_def intro: sv.R_refl sv.R_trans)

lemma touches_other:
  assumes "touches tid s s'" and "u \<noteq> tid"
  shows "view_of s' u = view_of s u" "thread_ok s' u = thread_ok s u"
proof -
  from assms have "sv_logs (tn_server s') u = sv_logs (tn_server s) u" "tn_runtimes s' u = tn_runtimes s u"
    "u \<in> sv_loaded (tn_server s') \<longleftrightarrow> u \<in> sv_loaded (tn_server s)" by (simp_all add: touches_def)
  moreover from this show "view_of s' u = view_of s u" by (simp add: view_of_def log_of_def)
  ultimately show "thread_ok s' u = thread_ok s u" by (simp add: thread_ok_def)
qed

text \<open>The effect of a step on its thread.\<close>

definition step_ok :: "thread_id \<Rightarrow> turn_server \<Rightarrow> turn_server \<Rightarrow> bool" where
  "step_ok tid s s' \<longleftrightarrow> touches tid s s' \<and> thread_ok s' tid \<and>
     (view_of s' tid = view_of s tid \<or> turn_machine (view_of s tid) (view_of s' tid))"

lemma step_okD:
  assumes "step_ok tid s s'" and "runs_ok s"
  shows "runs_ok s'" "view_of s' u = view_of s u \<or> turn_machine (view_of s u) (view_of s' u)"
proof -
  note t = touches_other [of tid s s']
  from assms show "runs_ok s'"
    by (metis (no_types) runs_ok_def safe_step_def step_ok_def t(2) touches_def)
  from assms show "view_of s' u = view_of s u \<or> turn_machine (view_of s u) (view_of s' u)"
    by (cases "u = tid") (auto simp: step_ok_def t(1))
qed

section \<open>What the operations do\<close>

named_theorems touch_intros "operations on one thread"

lemmas touch_base [touch_intros] = tch.within_intros

lemma touch_on_threads:
  assumes "\<And>v r v'. m v = (r, v') \<Longrightarrow> safe_step v v' \<and> (\<forall>u. u \<noteq> tid \<longrightarrow> sv_logs v' u = sv_logs v u \<and>
      (u \<in> sv_loaded v' \<longleftrightarrow> u \<in> sv_loaded v))"
  shows "act_within (touches tid) (on_threads m)"
proof (rule act_withinI)
  fix s r s' assume "on_threads m s = (r, s')"
  then obtain r' where "m (tn_server s) = (r', tn_server s')" "tn_runtimes s' = tn_runtimes s"
    by (auto simp: on_threads_def split: prod.splits sum.splits)
  with assms [OF this(1)] show "touches tid s s'" by (simp add: touches_def)
qed

lemma append_event_and_emit_other:
  assumes "append_event_and_emit env tid kind s = (r, s')"
  shows "sv_loaded s' = sv_loaded s" "u \<noteq> tid \<Longrightarrow> sv_logs s' u = sv_logs s u"
  using assms by (auto simp: append_event_and_emit_def split: option.splits sum.splits if_splits)

lemma touch_handle_append [touch_intros]: "act_within (touches tid) (handle_append_event env tid k)"
  unfolding handle_append_event_def
  by (intro touch_intros touch_on_threads)
    (auto simp: append_event_and_emit_other safe_step_def
      dest: safe_actionD [OF safe_append_event_and_emit])

lemma touch_rt_append [touch_intros]: "act_within (touches tid) (on_threads (rt_append_event env tid k))"
proof (rule touch_on_threads)
  fix v r v' assume v: "rt_append_event env tid k v = (r, v')"
  have "safe_step v v'" using safe_actionD [OF safe_append_event v] by (simp add: safe_step_def)
  then show "safe_step v v' \<and> (\<forall>u. u \<noteq> tid \<longrightarrow> sv_logs v' u = sv_logs v u \<and>
      (u \<in> sv_loaded v' \<longleftrightarrow> u \<in> sv_loaded v))"
    using v by (cases r) (auto dest: rt_append_event_Inr rt_append_event_Inl)
qed

lemma touch_update [touch_intros]: "act_within (touches tid) (update_runtime tid f)"
  by (intro act_withinI) (auto simp: update_runtime_def touches_def sv.R_refl)

lemma touch_runtime_of [touch_intros]: "act_within (touches tid) (runtime_of u)"
  unfolding runtime_of_def by (rule tch.within_look)

lemma touch_handle_state [touch_intros]: "act_within (touches tid) (runtime_state u)"
  unfolding runtime_state_def by (rule tch.within_look)

lemma touch_evict [touch_intros]: "act_within (touches tid) (evict_cached_thread tid)"
  by (intro act_withinI) (auto simp: evict_cached_thread_def touches_def safe_step_def logs_grow_def
      server_ok_def option.rel_refl)

lemma touch_cancel [touch_intros]: "act_within (touches tid) (cancel_turn tid turn)"
  unfolding cancel_turn_def by (rule touch_update)

lemma touch_finishing [touch_intros]: "act_within (touches tid) (finishing tid turn)"
  unfolding finishing_def by (rule touch_update)

lemma touch_append_all [touch_intros]: "act_within (touches tid) (handle_append_all env tid ks)"
  by (induction ks) (simp_all add: touch_intros)

lemma touch_start_turn [touch_intros]: "act_within (touches tid) (start_turn env tid turn req)"
  unfolding start_turn_def by (intro touch_intros)

lemma touch_interrupt_turn [touch_intros]: "act_within (touches tid) (interrupt_turn env tid turn reason)"
  unfolding interrupt_turn_def by (auto intro!: touch_intros split: option.split)

lemma touch_complete_append [touch_intros]:
  "act_within (touches tid) (complete_turn_append env tid turn status reason)"
  unfolding complete_turn_append_def
  by (auto intro!: touch_intros split: prod.split sum.split)

lemma touch_run_ends [touch_intros]: "act_within (touches tid) (run_turn_ends env tid turn outcome)"
  unfolding run_turn_ends_def by (auto intro!: touch_intros split: prod.split)

lemma touch_clear [touch_intros]: "act_within (touches tid) (complete_turn_clear tid turn)"
  unfolding complete_turn_clear_def by (rule touch_update)

lemma append_all_other:
  assumes "append_all env tid ks s = (r, s')"
  shows "sv_loaded s' = sv_loaded s \<and> (\<forall>u. u \<noteq> tid \<longrightarrow> sv_logs s' u = sv_logs s u) \<and>
    (list_all (\<lambda>k. \<not> is_marker k) ks \<longrightarrow> (\<exists>n. core (log_of s' tid) =
      core (log_of s tid) @ map (redact_thread_event_kind (env_redact env)) (take n ks)))"
  using assms
proof (induction ks arbitrary: s)
  case (Cons k ks)
  show ?case
  proof (cases "rt_append_event env tid k s")
    case (Pair q m)
    show ?thesis
    proof (cases q)
      case (Inl e)
      with Pair Cons.prems have "s' = s" by (auto simp: act_bind_def dest: rt_append_event_Inl)
      moreover have "map (redact_thread_event_kind (env_redact env)) (take 0 (k # ks)) = []" by simp
      ultimately show ?thesis by (metis append_Nil2)
    next
      case (Inr e)
      with Pair Cons.prems have m: "rt_append_event env tid k s = (Inr e, m)" "append_all env tid ks m = (r, s')"
        by (simp_all add: act_bind_def)
      note app = rt_append_event_Inr [OF m(1)] and IH = Cons.IH [OF m(2)]
      have "\<exists>n. core (log_of s' tid) = core (log_of s tid) @
          map (redact_thread_event_kind (env_redact env)) (take n (k # ks))"
        if ks: "list_all (\<lambda>k. \<not> is_marker k) (k # ks)"
      proof -
        from IH ks obtain n where "core (log_of s' tid) =
            core (log_of m tid) @ map (redact_thread_event_kind (env_redact env)) (take n ks)" by auto
        with app(2,3) ks have "core (log_of s' tid) = core (log_of s tid) @
            map (redact_thread_event_kind (env_redact env)) (take (Suc n) (k # ks))"
          by (simp add: core_event)
        then show ?thesis ..
      qed
      with IH app(4,5) show ?thesis by simp
    qed
  qed
qed (auto intro: exI [of _ 0])

lemma touch_load [touch_intros]: "act_within (touches tid) (load_runtime env tid)"
proof -
  have "act_within (touches tid) (on_threads (get_or_load_thread env tid))"
  proof (rule touch_on_threads)
    fix v r v' assume v: "get_or_load_thread env tid v = (r, v')"
    have "safe_step v v'" using safe_actionD [OF safe_get_or_load_thread v] by (simp add: safe_step_def)
    then show "safe_step v v' \<and> (\<forall>u. u \<noteq> tid \<longrightarrow> sv_logs v' u = sv_logs v u \<and>
        (u \<in> sv_loaded v' \<longleftrightarrow> u \<in> sv_loaded v))"
      using v by (auto simp: get_or_load_thread_def act_bind_eq dest!: append_all_other
          split: if_splits option.splits sum.splits)
  qed
  moreover have "act_within (touches tid) (\<lambda>s. (Inr (), s\<lparr>tn_runtimes := (tn_runtimes s)(tid := f s)\<rparr>))"
    for f :: "turn_server \<Rightarrow> thread_runtime option"
    by (intro act_withinI) (auto simp: touches_def sv.R_refl)
  ultimately show ?thesis unfolding load_runtime_def by (rule tch.within_bind)
qed

section \<open>The effect on the turns of the thread\<close>

text \<open>The events the reducer accepts are those the machine can take.\<close>

fun view_accepts :: "turn_view \<Rightarrow> thread_event_kind \<Rightarrow> bool" where
  "view_accepts v (TurnStarted _) \<longleftrightarrow> tv_current v = None"
| "view_accepts v (TurnInterruptRequested turn _) \<longleftrightarrow> (\<exists>b. tv_current v = Some (turn, b))"
| "view_accepts v (TurnCompleted turn _ _) \<longleftrightarrow> (\<exists>b. tv_current v = Some (turn, b))"
| "view_accepts v _ \<longleftrightarrow> True"

lemma apply_kind_accepts:
  assumes "apply_kind t (redact_thread_event_kind ra k) st = Inr st'" and "tv_current v = state_view st"
  shows "view_accepts v k"
  using assms by (cases k) (auto simp: state_view_def split: if_splits)

lemma log_of_Some: "sv_logs v tid = Some es \<Longrightarrow> log_of v tid = es"
  by (simp add: log_of_def)

lemma handle_append_cases [consumes 1, case_names failed logged]:
  assumes "handle_append_event env tid k s = (r, s')"
  obtains (failed) e where "r = Inl e" "s' = s"
  | (logged) "r = Inr ()" "tn_runtimes s' = tn_runtimes s" "sv_loaded (tn_server s') = sv_loaded (tn_server s)"
      "sv_logs (tn_server s') tid \<noteq> None" "view_of s' tid = view_kind (view_of s tid) k"
      "server_ok (tn_server s) \<Longrightarrow> view_accepts (view_of s tid) k"
proof (cases "append_event_and_emit env tid k (tn_server s)")
  case (Pair q v)
  show ?thesis
  proof (cases q)
    case (Inl e)
    with Pair have "v = tn_server s" by (auto dest: append_event_and_emit_Inl)
    with assms Pair Inl show ?thesis
      by (intro failed) (auto simp: handle_append_event_def act_bind_def on_threads_def)
  next
    case (Inr eu)
    obtain e used where [simp]: "eu = (e, used)" by (cases eu)
    let ?es = "log_of (tn_server s) tid"
    from Pair Inr have emitted: "append_event_and_emit env tid k (tn_server s) = (Inr (e, used), v)" by simp
    from append_event_and_emit_Inr [OF this] have app: "sv_logs (tn_server s) tid = Some ?es"
      "e = next_event env tid ?es k"
      "v = (tn_server s)\<lparr>sv_logs := (sv_logs (tn_server s))(tid \<mapsto> ?es @ [e])\<rparr>" by blast+
    from emitted app(1) obtain st' where "replay (?es @ [e]) (new_state tid) = Inr st'"
      by (auto simp: append_event_and_emit_def split: option.splits sum.splits if_splits)
    then obtain st where st: "replay ?es (new_state tid) = Inr st" "apply_event e st = Inr st'"
      by (auto simp: rp.run_snoc rbind_eq_Inr)
    have acc: "view_accepts (view_of s tid) k"
      using st(2) app(2) replay_view [OF st(1)]
      by (auto simp: view_of_def apply_event_Inr next_event_def intro: apply_kind_accepts)
    have "core [e] = (if is_marker k then [] else [redact_thread_event_kind (env_redact env) k])"
      using app(2) by (simp add: core_def next_event_def)
    moreover have "is_marker k \<Longrightarrow> view_kind w k = w" for w by (cases k) simp_all
    ultimately have "view_log (core (?es @ [e])) = view_kind (view_log (core ?es)) k"
      by (simp add: view_log_append)
    moreover have "r = Inr ()" "s' = s\<lparr>tn_server := v\<rparr>"
      using assms Pair Inr by (auto simp: handle_append_event_def act_bind_def on_threads_def act_return_def)
    moreover have "log_of v tid = ?es @ [e]" "sv_loaded v = sv_loaded (tn_server s)" "sv_logs v tid \<noteq> None"
      unfolding app(3) by (simp_all add: log_of_Some)
    ultimately show ?thesis
      using acc by (intro logged) (simp_all add: view_of_def)
  qed
qed

lemma runtime_state_Inr:
  assumes "runtime_state tid s = (Inr st, s')"
  shows "s' = s" "tv_current (view_of s tid) = state_view st"
    "replay (log_of (tn_server s) tid) (new_state tid) = Inr st"
proof -
  from assms show "s' = s" "replay (log_of (tn_server s) tid) (new_state tid) = Inr st"
    by (auto simp: runtime_state_def act_look_def log_of_def split: option.splits sum.splits)
  with replay_view show "tv_current (view_of s tid) = state_view st" by (simp add: view_of_def)
qed

lemma runtime_state_Inl: "runtime_state tid s = (Inl e, s') \<Longrightarrow> s' = s"
  by (simp add: runtime_state_def act_look_def)

lemma runtime_state_ok:
  assumes "server_ok (tn_server s)" and "sv_logs (tn_server s) tid \<noteq> None"
  obtains st where "runtime_state tid s = (Inr st, s)"
  using assms by (fastforce simp: server_ok_def runtime_state_def act_look_def)

lemma runtime_of_eq: "runtime_of tid s = (r, s') \<longleftrightarrow> s' = s \<and>
    r = (case tn_runtimes s tid of None \<Rightarrow> Inl RuntimeInvalidated | Some rt \<Rightarrow> Inr rt)"
  by (auto simp: runtime_of_def act_look_def)

lemma update_runtime_eq: "update_runtime tid f s = (r, s') \<longleftrightarrow> r = Inr () \<and>
    s' = s\<lparr>tn_runtimes := (tn_runtimes s)(tid := map_option f (tn_runtimes s tid))\<rparr>"
  by (auto simp: update_runtime_def)

lemma view_of_runtimes [simp]: "view_of (s\<lparr>tn_runtimes := f\<rparr>) tid = view_of s tid"
  by (simp add: view_of_def)

lemma thread_ok_updated:
  assumes "thread_ok s tid" and "\<And>rt. tn_runtimes s tid = Some rt \<Longrightarrow> rt_ok (view_of s tid) rt \<Longrightarrow> rt_ok (view_of s tid) (f rt)"
  shows "thread_ok (s\<lparr>tn_runtimes := (tn_runtimes s)(tid := map_option f (tn_runtimes s tid))\<rparr>) tid"
  using assms by (auto simp: thread_ok_def)

text \<open>A thread that changes only its log keeps its runtime, which must suit the new view.\<close>

lemma thread_ok_log:
  assumes "thread_ok s tid" and "tn_runtimes s' = tn_runtimes s"
    and "sv_loaded (tn_server s') = sv_loaded (tn_server s)" and "sv_logs (tn_server s') tid \<noteq> None"
    and "\<And>rt. tn_runtimes s tid = Some rt \<Longrightarrow> rt_ok (view_of s tid) rt \<Longrightarrow> rt_ok (view_of s' tid) rt"
  shows "thread_ok s' tid"
  using assms by (auto simp: thread_ok_def)

lemma step_ok_same_state: "runs_ok s \<Longrightarrow> step_ok tid s s"
  by (simp add: step_ok_def runs_ok_def tch.R_refl)

lemma runs_okD: "runs_ok s \<Longrightarrow> server_ok (tn_server s)" "runs_ok s \<Longrightarrow> thread_ok s tid"
  by (simp_all add: runs_ok_def)

lemma step_okI:
  assumes "act_within (touches tid) m" and "m s = (r, s')" and "thread_ok s' tid"
    and "view_of s' tid = view_of s tid \<or> turn_machine (view_of s tid) (view_of s' tid)"
  shows "step_ok tid s s'"
  using assms act_withinD [OF assms(1,2)] by (simp add: step_ok_def)

lemma clear_step:
  assumes "runs_ok s" and "complete_turn_clear tid turn s = (r, s')"
    and "tn_runtimes s tid = Some rt" and "turn \<in> rt_finishing rt"
  shows "step_ok tid s s'"
proof (rule step_okI [OF touch_clear assms(2)])
  from assms(2) have s': "s' = s\<lparr>tn_runtimes := (tn_runtimes s)(tid := map_option (\<lambda>rt. rt
     \<lparr>rt_active_turn := (case rt_active_turn rt of
           Some a \<Rightarrow> if at_turn_id a = turn then None else Some a | None \<Rightarrow> None),
      rt_finishing := rt_finishing rt - {turn}\<rparr>) (tn_runtimes s tid))\<rparr>"
    by (simp add: complete_turn_clear_def update_runtime_eq)
  show "thread_ok s' tid"
    unfolding s' using assms(3,4) runs_okD(2) [OF assms(1)]
    by (intro thread_ok_updated) (auto simp: rt_ok_def split: option.splits prod.splits)
qed (use assms(2) in \<open>simp add: complete_turn_clear_def update_runtime_eq\<close>)

lemma finishing_step:
  assumes "thread_ok s tid" and "finishing tid turn s = (r, s')" and "\<And>b. tv_current (view_of s tid) \<noteq> Some (turn, b)"
  shows "thread_ok s' tid" "view_of s' tid = view_of s tid"
proof -
  from assms(2) have s': "s' = s\<lparr>tn_runtimes := (tn_runtimes s)(tid := map_option
      (\<lambda>rt. rt\<lparr>rt_finishing := insert turn (rt_finishing rt)\<rparr>) (tn_runtimes s tid))\<rparr>"
    by (simp add: finishing_def update_runtime_eq)
  show "thread_ok s' tid"
    unfolding s' using assms(3)
    by (intro thread_ok_updated assms(1)) (auto simp: rt_ok_def split: option.splits prod.splits)
  show "view_of s' tid = view_of s tid" by (simp add: s')
qed

lemma append_other_kind:
  assumes "handle_append_event env tid k s = (r, s')" and "\<not> turn_event k" and "thread_ok s tid"
  shows "tn_runtimes s' = tn_runtimes s" "view_of s' tid = view_of s tid" "thread_ok s' tid"
proof -
  show r: "tn_runtimes s' = tn_runtimes s" and v: "view_of s' tid = view_of s tid"
    using assms(1,2) by (cases rule: handle_append_cases; simp add: view_kind_other)+
  from assms(1) show "thread_ok s' tid"
  proof (cases rule: handle_append_cases)
    case logged
    with v show ?thesis by (intro thread_ok_log [OF assms(3)]) simp_all
  qed (use assms(3) in simp)
qed

lemma append_other_kinds:
  assumes "handle_append_all env tid ks s = (r, s')" and "list_all (\<lambda>k. \<not> turn_event k) ks"
    and "thread_ok s tid"
  shows "tn_runtimes s' = tn_runtimes s \<and> view_of s' tid = view_of s tid \<and> thread_ok s' tid"
  using assms
proof (induction ks arbitrary: s)
  case (Cons k ks)
  obtain q m where m: "handle_append_event env tid k s = (q, m)" by fastforce
  note one = append_other_kind [OF m _ Cons.prems(3)]
  show ?case
  proof (cases q)
    case (Inl e)
    with m one Cons.prems(1,2) show ?thesis by (auto simp: act_bind_def)
  next
    case (Inr u)
    with m Cons.prems(1) have "handle_append_all env tid ks m = (r, s')" by (simp add: act_bind_def)
    from Cons.IH [OF this] one Cons.prems(2) show ?thesis by auto
  qed
qed (simp add: act_return_def)

lemma append_other_view:
  assumes "handle_append_all env tid ks s = (r, s')" and "list_all (\<lambda>k. \<not> turn_event k) ks"
  shows "view_of s' tid = view_of s tid"
  using assms
proof (induction ks arbitrary: s)
  case (Cons k ks)
  obtain q m where m: "handle_append_event env tid k s = (q, m)" by fastforce
  from m Cons.prems(2) have "view_of m tid = view_of s tid"
    by (cases rule: handle_append_cases) (simp_all add: view_kind_other)
  with Cons m show ?case by (cases q) (auto simp: act_bind_def)
qed (simp add: act_return_def)

lemma cleared_markers_other: "list_all (\<lambda>k. \<not> turn_event k) (cleared_markers turn)"
  by (simp add: cleared_markers_def)

lemma start_view:
  assumes "runs_ok s" and "start_turn env tid turn req s = (r, s')"
    and "\<And>rt. tn_runtimes s tid = Some rt \<Longrightarrow> fresh_turn turn rt"
  shows "thread_ok s' tid \<and> (view_of s' tid = view_of s tid \<or> turn_machine (view_of s tid) (view_of s' tid))"
proof (cases "\<exists>req' st rt. checked_request req = Inr req' \<and> tn_runtimes s tid = Some rt \<and>
    runtime_state tid s = (Inr st, s) \<and> check_startable st = Inr ()")
  case False
  with assms(2) have "s' = s"
    by (auto simp: start_turn_def act_bind_eq action_simps act_map_error_def runtime_of_eq
        dest: runtime_state_Inr(1) runtime_state_Inl split: option.splits sum.splits)
  with runs_okD(2) [OF assms(1)] show ?thesis by simp
next
  case True
  then obtain req' st rt where h: "checked_request req = Inr req'" "tn_runtimes s tid = Some rt"
    "runtime_state tid s = (Inr st, s)" "check_startable st = Inr ()" by blast
  obtain q m where m: "handle_append_all env tid (cleared_markers turn) s = (q, m)" by fastforce
  have mk: "tn_runtimes m = tn_runtimes s" "view_of m tid = view_of s tid" "thread_ok m tid"
    using append_other_kinds [OF m cleared_markers_other runs_okD(2) [OF assms(1)]] by simp_all
  obtain q' n where n: "handle_append_event env tid (turn_started_event turn req') m = (q', n)" by fastforce
  let ?f = "\<lambda>rt. rt\<lparr>rt_active_turn := Some \<lparr>at_turn_id = turn, at_interrupt_reason = None\<rparr>,
      rt_running := insert turn (rt_running rt)\<rparr>"
  from assms(2) h m n have s': "s' = (if isl q then m else if isl q' then n
      else n\<lparr>tn_runtimes := (tn_runtimes n)(tid := map_option ?f (tn_runtimes n tid))\<rparr>)"
    by (cases q; cases q') (auto simp: start_turn_def act_bind_def action_simps act_map_error_def
        runtime_of_eq update_runtime_def act_return_def runtime_of_def)
  have idle: "tv_current (view_of s tid) = None"
    using runtime_state_Inr(2) [OF h(3)] h(4) by (auto simp: check_startable_def state_view_def split: if_splits)
  from n show ?thesis
  proof (cases rule: handle_append_cases)
    case failed
    with s' mk show ?thesis by (auto split: if_splits)
  next
    case logged
    then have v: "view_of n tid = (view_of s tid)\<lparr>tv_current := Some (turn, False)\<rparr>"
      using mk(2) by (simp add: turn_started_event_def)
    show ?thesis
    proof (cases q)
      case (Inl e)
      with s' mk show ?thesis by simp
    next
      case (Inr u)
      with s' logged(1) have s': "s' = n\<lparr>tn_runtimes := (tn_runtimes n)(tid := map_option ?f (tn_runtimes n tid))\<rparr>"
        by simp
      have "rt_ok (view_of s' tid) (?f rt)"
        using v assms(3) [OF h(2)] s' by (simp add: rt_ok_def fresh_turn_def)
      moreover have "tn_runtimes n tid = Some rt" using logged(2) mk(1) h(2) by simp
      ultimately have "thread_ok s' tid"
        using mk(3) logged(2-4) s' by (auto simp: thread_ok_def)
      moreover have "turn_machine (view_of s tid) (view_of s' tid)"
        using v s' idle by (simp add: machine_starts)
      ultimately show ?thesis by simp
    qed
  qed
qed

lemma start_step:
  assumes "runs_ok s" and "start_turn env tid turn req s = (r, s')"
    and "\<And>rt. tn_runtimes s tid = Some rt \<Longrightarrow> fresh_turn turn rt"
  shows "step_ok tid s s'"
  using step_okI [OF touch_start_turn assms(2)] start_view [OF assms] by simp

lemma thread_ok_parts:
  assumes "thread_ok s tid"
  shows "(tn_runtimes s tid = None) = (tid \<notin> sv_loaded (tn_server s))"
    "tn_runtimes s tid = Some rt \<Longrightarrow> sv_logs (tn_server s) tid \<noteq> None"
    "tn_runtimes s tid = Some rt \<Longrightarrow> rt_ok (view_of s tid) rt"
  using assms by (auto simp: thread_ok_def)

lemma interrupt_view:
  assumes "runs_ok s" and "interrupt_turn env tid turn reason s = (r, s')"
  shows "thread_ok s' tid \<and> (view_of s' tid = view_of s tid \<or> turn_machine (view_of s tid) (view_of s' tid))"
proof (cases "\<exists>rt st a. tn_runtimes s tid = Some rt \<and> runtime_state tid s = (Inr st, s) \<and>
    rt_active_turn rt = Some a \<and> at_turn_id a = turn")
  case False
  have "s' = s"
  proof (cases "tn_runtimes s tid")
    case None
    with assms(2) show ?thesis by (auto simp: interrupt_turn_def act_bind_def runtime_of_def act_look_def)
  next
    case (Some rt)
    from runtime_state_ok [OF runs_okD(1) [OF assms(1)] thread_ok_parts(2) [OF runs_okD(2) [OF assms(1)] Some]]
    obtain st where st: "runtime_state tid s = (Inr st, s)" .
    with assms(2) Some False show ?thesis
      by (cases "rt_active_turn rt")
        (auto simp: interrupt_turn_def act_bind_def runtime_of_def act_look_def act_fail_def)
  qed
  with runs_okD(2) [OF assms(1)] show ?thesis by simp
next
  case True
  then obtain rt st a where h: "tn_runtimes s tid = Some rt" "runtime_state tid s = (Inr st, s)"
    "rt_active_turn rt = Some a" "at_turn_id a = turn" by blast
  let ?m = "s\<lparr>tn_runtimes := (tn_runtimes s)(tid := map_option (\<lambda>rt. rt\<lparr>rt_active_turn :=
      Some (note_interrupt reason a)\<rparr>) (tn_runtimes s tid))\<rparr>"
  have m: "thread_ok ?m tid"
    using h by (intro thread_ok_updated runs_okD(2) [OF assms(1)])
      (auto simp: rt_ok_def note_interrupt_def split: option.splits prod.splits)
  have cur: "tv_current (view_of s tid) = state_view st" by (rule runtime_state_Inr(2) [OF h(2)])
  have cancel: "thread_ok s'' tid \<and> view_of s'' tid = view_of n tid"
    if "thread_ok n tid" "cancel_turn tid turn n = (q, s'')"
      "\<And>b. tv_current (view_of n tid) = Some (turn, b) \<Longrightarrow> b" for n q s''
  proof -
    from that(2) have s'': "s'' = n\<lparr>tn_runtimes := (tn_runtimes n)(tid := map_option
        (\<lambda>rt. rt\<lparr>rt_cancelled := insert turn (rt_cancelled rt)\<rparr>) (tn_runtimes n tid))\<rparr>"
      by (simp add: cancel_turn_def update_runtime_eq)
    have "thread_ok s'' tid"
      unfolding s'' using that(3) by (intro thread_ok_updated that(1))
        (auto simp: rt_ok_def split: option.splits prod.splits)
    then show ?thesis by (simp add: s'')
  qed
  show ?thesis
  proof (cases "st_interrupt_requested st")
    case True
    with assms(2) h have "cancel_turn tid turn ?m = (r, s')"
      by (simp add: interrupt_turn_def act_bind_def runtime_of_def act_look_def update_runtime_def)
    from cancel [OF m this] cur True show ?thesis by (auto simp: state_view_def)
  next
    case False
    obtain q n where n: "handle_append_event env tid (TurnInterruptRequested turn reason) ?m = (q, n)"
      by fastforce
    from assms(2) h False n have end': "if isl q then s' = n else cancel_turn tid turn n = (r, s')"
      by (cases q) (auto simp: interrupt_turn_def act_bind_def runtime_of_def act_look_def update_runtime_def)
    from n show ?thesis
    proof (cases rule: handle_append_cases)
      case failed
      with end' m show ?thesis by simp
    next
      case logged
      have "server_ok (tn_server ?m)" using runs_okD(1) [OF assms(1)] by simp
      from logged(6) [OF this] obtain b where b: "tv_current (view_of s tid) = Some (turn, b)" by auto
      have v: "view_of n tid = (view_of s tid)\<lparr>tv_current := Some (turn, True)\<rparr>"
        using logged(5) by simp
      have "thread_ok n tid"
        using logged(2-4) v b by (intro thread_ok_log [OF m]) (auto simp: rt_ok_def)
      moreover have "cancel_turn tid turn n = (r, s')" using end' logged(1) by simp
      ultimately have "thread_ok s' tid \<and> view_of s' tid = view_of n tid" using v by (intro cancel) auto
      with v b show ?thesis by (auto intro: machine_interrupted)
    qed
  qed
qed

lemma resolve_interrupted:
  "resolve_turn_completion st status reason = (fs, fr) \<Longrightarrow> st_interrupt_requested st \<Longrightarrow> fs = TurnStatusInterrupted"
  by (simp add: resolve_turn_completion_def)

text \<open>The completion may run while the turn's task has already left \<open>rt_running\<close>.\<close>

lemma complete_view:
  assumes "server_ok (tn_server s)" and "sv_logs (tn_server s) tid \<noteq> None"
    and "(tn_runtimes s tid = None) = (tid \<notin> sv_loaded (tn_server s))"
    and "\<And>rt. tn_runtimes s tid = Some rt \<Longrightarrow>
      (\<exists>b. tv_current (view_of s tid) = Some (turn, b)) \<or> rt_ok (view_of s tid) rt"
    and "complete_turn_append env tid turn status reason s = (r, s')"
  shows "r = Inr () \<and> thread_ok s' tid \<and>
    (view_of s' tid = view_of s tid \<or> turn_machine (view_of s tid) (view_of s' tid))"
proof -
  from runtime_state_ok [OF assms(1,2)] obtain st where st: "runtime_state tid s = (Inr st, s)" .
  have cur: "tv_current (view_of s tid) = state_view st" by (rule runtime_state_Inr(2) [OF st])
  show ?thesis
  proof (cases "st_active_turn_id st = Some turn")
    case False
    then have none: "tv_current (view_of s tid) \<noteq> Some (turn, b)" for b
      using cur by (auto simp: state_view_def)
    with assms(2-4) have "thread_ok s tid" by (auto simp: thread_ok_def)
    moreover have f: "finishing tid turn s = (r, s')"
      using assms(5) st False by (simp add: complete_turn_append_def act_bind_def)
    ultimately show ?thesis using finishing_step [OF _ f none] by (simp add: finishing_def update_runtime_eq)
  next
    case True
    obtain fs fr where res: "resolve_turn_completion st status reason = (fs, fr)" by fastforce
    obtain q n where n: "handle_append_event env tid (TurnCompleted turn fs fr) s = (q, n)" by fastforce
    from assms(5) st True res n have end': "if isl q then evict_cached_thread tid n = (r, s')
        else finishing tid turn n = (r, s')"
      by (cases q) (auto simp: complete_turn_append_def act_bind_def act_attempt_def)
    from n show ?thesis
    proof (cases rule: handle_append_cases)
      case failed
      with end' have "r = Inr ()" "s' = s\<lparr>tn_server := (tn_server s)\<lparr>sv_loaded := sv_loaded (tn_server s) - {tid}\<rparr>,
               tn_runtimes := (tn_runtimes s)(tid := None)\<rparr>"
        by (simp_all add: evict_cached_thread_def)
      then show ?thesis by (simp add: thread_ok_def view_of_def log_of_def)
    next
      case logged
      have v: "view_of n tid = \<lparr>tv_current = None, tv_last = Some (turn, fs)\<rparr>" using logged(5) by simp
      have "thread_ok n tid"
        using logged(2-4) assms(3) v by (auto simp: thread_ok_def rt_ok_def)
      moreover have f: "finishing tid turn n = (r, s')" using end' logged(1) by simp
      ultimately have "thread_ok s' tid" "view_of s' tid = view_of n tid" "r = Inr ()"
        using finishing_step [OF _ f] v by (simp_all add: finishing_def update_runtime_eq)
      moreover have "turn_machine (view_of s tid) (view_of n tid)"
        using v cur True resolve_interrupted [OF res] by (auto simp: state_view_def intro: machine_completes)
      ultimately show ?thesis by simp
    qed
  qed
qed

lemma forced_view:
  assumes "runs_ok s" and "complete_turn_append env tid turn status reason s = (r, s')"
    and "tn_runtimes s tid = Some rt"
  shows "thread_ok s' tid \<and> (view_of s' tid = view_of s tid \<or> turn_machine (view_of s tid) (view_of s' tid))"
  using complete_view [OF _ _ _ _ assms(2)] runs_okD [OF assms(1)] thread_ok_parts [of s tid] assms(3) by metis

lemma ends_view:
  assumes "runs_ok s" and "run_turn_ends env tid turn outcome s = (r, s')" and "tn_runtimes s tid = Some rt"
  shows "r = Inr () \<and> thread_ok s' tid \<and>
    (view_of s' tid = view_of s tid \<or> turn_machine (view_of s tid) (view_of s' tid))"
proof -
  let ?f = "\<lambda>rt. rt\<lparr>rt_running := rt_running rt - {turn}\<rparr>"
  let ?m = "s\<lparr>tn_runtimes := (tn_runtimes s)(tid := map_option ?f (tn_runtimes s tid))\<rparr>"
  obtain status reason where out: "outcome_status rt outcome = (status, reason)" by fastforce
  from assms(2,3) out have c: "complete_turn_append env tid turn status reason ?m = (r, s')"
    by (simp add: run_turn_ends_def act_bind_def runtime_of_def act_look_def update_runtime_def)
  note ok = thread_ok_parts [OF runs_okD(2) [OF assms(1)]]
  have "r = Inr () \<and> thread_ok s' tid \<and>
      (view_of s' tid = view_of ?m tid \<or> turn_machine (view_of ?m tid) (view_of s' tid))"
  proof (rule complete_view [OF _ _ _ _ c])
    show "server_ok (tn_server ?m)" "sv_logs (tn_server ?m) tid \<noteq> None"
      "(tn_runtimes ?m tid = None) = (tid \<notin> sv_loaded (tn_server ?m))"
      using runs_okD(1) [OF assms(1)] ok [of tid] assms(3) by auto
    show "(\<exists>b. tv_current (view_of ?m tid) = Some (turn, b)) \<or> rt_ok (view_of ?m tid) rt'"
      if "tn_runtimes ?m tid = Some rt'" for rt'
      using that ok(3) [OF assms(3)] assms(3) by (auto simp: rt_ok_def split: option.splits prod.splits)
  qed
  then show ?thesis by simp
qed

lemma other_view:
  assumes "runs_ok s" and "on_threads (rt_append_event env tid kind) s = (r, s')" and "\<not> turn_event kind"
  shows "thread_ok s' tid \<and> view_of s' tid = view_of s tid"
proof -
  obtain q v where v: "rt_append_event env tid kind (tn_server s) = (q, v)" by fastforce
  with assms(2) have s': "s' = s\<lparr>tn_server := v\<rparr>" by (auto simp: on_threads_def split: sum.splits)
  show ?thesis
  proof (cases q)
    case (Inl e)
    with v have "v = tn_server s" by (auto dest: rt_append_event_Inl)
    with s' runs_okD(2) [OF assms(1)] show ?thesis by simp
  next
    case (Inr e)
    with v have "rt_append_event env tid kind (tn_server s) = (Inr e, v)" by simp
    note app = rt_append_event_Inr [OF this]
    have "foldl view_kind w (core [e]) = w" for w
      using app(2) assms(3) by (simp add: core_def next_event_def view_kind_other)
    with app(3) s' have view: "view_of s' tid = view_of s tid"
      by (simp add: view_of_def view_log_append)
    have "logs_grow (tn_server s) v" using safe_actionD [OF safe_append_event v] by blast
    then have "sv_logs v tid \<noteq> None" using app(1) by (auto dest: logs_grow_Some)
    with s' app(5) view have "thread_ok s' tid"
      by (intro thread_ok_log [OF runs_okD(2) [OF assms(1)]]) simp_all
    with view show ?thesis by simp
  qed
qed

section \<open>Loading\<close>

lemma view_kinds_redact: "foldl view_kind v (map (redact_thread_event_kind ra) ks) = foldl view_kind v ks"
  by (induction ks arbitrary: v) simp_all

text \<open>A recovery, even one that a failed write cuts off, at most completes the open turn.\<close>

lemma recovery_view:
  assumes "replay es (new_state tid) = Inr st"
  shows "foldl view_kind (view_log (core es)) (take n (recovery_events es st)) = view_log (core es) \<or>
    turn_machine (view_log (core es)) (foldl view_kind (view_log (core es)) (take n (recovery_events es st)))"
    "tv_current (foldl view_kind (view_log (core es)) (recovery_events es st)) = None"
proof -
  let ?v = "view_log (core es)"
  note cur = replay_view [OF assms]
  obtain rest where rest: "list_all (\<lambda>k. \<not> turn_event k) rest"
    "recovery_events es st = (case st_active_turn_id st of None \<Rightarrow> [] | Some turn \<Rightarrow>
       [TurnCompleted turn (if st_interrupt_requested st then TurnStatusInterrupted else TurnStatusFailed)
          (Some ''recovered incomplete turn on resume'')]) @ rest"
    by (auto simp: recovery_events_def list_all_iff split: option.splits
        intro!: that [of "map _ _ @ map _ _"])
  have part: "foldl view_kind w (take m rest) = w" for m w
    using rest(1) by (intro view_kind_others) (auto simp: list_all_iff dest: in_set_takeD)
  show "foldl view_kind ?v (take n (recovery_events es st)) = ?v \<or>
    turn_machine ?v (foldl view_kind ?v (take n (recovery_events es st)))"
  proof (cases "st_active_turn_id st")
    case None
    with rest(2) part show ?thesis by simp
  next
    case (Some turn)
    with cur have cur: "tv_current ?v = Some (turn, st_interrupt_requested st)" by (simp add: state_view_def)
    show ?thesis
    proof (cases n)
      case (Suc m)
      have "turn_machine ?v \<lparr>tv_current = None, tv_last = Some (turn,
          if st_interrupt_requested st then TurnStatusInterrupted else TurnStatusFailed)\<rparr>"
        using cur by (intro machine_completes) auto
      with Some rest(2) part Suc show ?thesis by simp
    qed simp
  qed
  show "tv_current (foldl view_kind ?v (recovery_events es st)) = None"
    using rest(2) view_kind_others [OF rest(1)] cur by (auto simp: state_view_def split: option.splits)
qed

lemma load_view:
  assumes "runs_ok s" and "load_runtime env tid s = (r, s')"
  shows "thread_ok s' tid \<and> (view_of s' tid = view_of s tid \<or> turn_machine (view_of s tid) (view_of s' tid))"
proof (cases "tid \<in> sv_loaded (tn_server s)")
  case True
  with assms(2) have s': "s' = s\<lparr>tn_runtimes := (tn_runtimes s)(tid :=
      (case tn_runtimes s tid of None \<Rightarrow> Some new_runtime | Some rt \<Rightarrow> Some rt))\<rparr>"
    by (auto simp: load_runtime_def act_bind_def on_threads_def get_or_load_thread_def)
  moreover obtain rt where "tn_runtimes s tid = Some rt"
    using thread_ok_parts(1) [OF runs_okD(2) [OF assms(1)], of tid] True by auto
  ultimately have "s' = s" by (simp add: fun_upd_idem)
  with runs_okD(2) [OF assms(1)] show ?thesis by simp
next
  case False
  note none = thread_ok_parts(1) [OF runs_okD(2) [OF assms(1)], of tid]
  show ?thesis
  proof (cases "sv_logs (tn_server s) tid")
    case None
    with assms(2) False have "s' = s"
      by (auto simp: load_runtime_def act_bind_def on_threads_def get_or_load_thread_def)
    with runs_okD(2) [OF assms(1)] show ?thesis by simp
  next
    case (Some es)
    with runs_okD(1) [OF assms(1)] obtain st where st: "replay es (new_state tid) = Inr st"
      unfolding server_ok_def by blast
    obtain q v where v: "append_all env tid (recovery_events es st) (tn_server s) = (q, v)" by fastforce
    have es: "log_of (tn_server s) tid = es" using Some by (rule log_of_Some)
    from append_all_other [OF v] recovery_events_core es obtain n where n:
      "core (log_of v tid) = core es @ map (redact_thread_event_kind (env_redact env)) (take n (recovery_events es st))"
      "sv_loaded v = sv_loaded (tn_server s)" by blast
    have grows: "logs_grow (tn_server s) v" using safe_actionD [OF safe_append_all v] by blast
    have log: "sv_logs v tid \<noteq> None" using logs_grow_Some [OF grows Some] by auto
    have view: "view_log (core (log_of v tid)) = view_log (core es) \<or>
        turn_machine (view_log (core es)) (view_log (core (log_of v tid)))"
      using recovery_view(1) [OF st, of n] n(1) by (simp add: view_log_append view_kinds_redact)
    show ?thesis
    proof (cases q)
      case (Inl e)
      with assms(2) False Some st v have s': "s' = s\<lparr>tn_server := v\<rparr>"
        by (auto simp: load_runtime_def act_bind_def on_threads_def get_or_load_thread_def)
      then have "thread_ok s' tid" using False none n(2) by (simp add: thread_ok_def)
      with s' view es show ?thesis by (simp add: view_of_def)
    next
      case (Inr u)
      with assms(2) False Some st v none have s': "s' = s\<lparr>tn_server := v\<lparr>sv_loaded := insert tid (sv_loaded v)\<rparr>,
          tn_runtimes := (tn_runtimes s)(tid := Some new_runtime)\<rparr>"
        by (auto simp: load_runtime_def act_bind_def on_threads_def get_or_load_thread_def)
      have all: "core (log_of v tid) = core es @ map (redact_thread_event_kind (env_redact env)) (recovery_events es st)"
        using append_all_Inr [of env tid "recovery_events es st" "tn_server s" u v] v Inr es recovery_events_core by simp
      have "tv_current (view_of s' tid) = None"
        using recovery_view(2) [OF st] all s'
        by (simp add: view_of_def log_of_def view_log_append view_kinds_redact)
      then have "thread_ok s' tid" using s' log by (simp add: thread_ok_def rt_ok_def)
      with s' view es show ?thesis by (simp add: view_of_def log_of_def)
    qed
  qed
qed

section \<open>Every step\<close>

lemma runs_step_ok:
  assumes "runs_step env s s'" and "runs_ok s"
  shows "\<exists>tid. step_ok tid s s'"
  using assms
proof (cases rule: runs_step.cases)
  case (step_load tid r)
  with step_okI [OF touch_load step_load(1)] load_view [OF assms(2) step_load(1)] show ?thesis by blast
next
  case (step_start tid turn req r)
  with start_step assms(2) show ?thesis by blast
next
  case (step_interrupt tid turn reason r)
  with step_okI [OF touch_interrupt_turn] interrupt_view [OF assms(2)] show ?thesis by blast
next
  case (step_ends tid turn outcome r rt)
  with step_okI [OF touch_run_ends] ends_view [OF assms(2)] show ?thesis by blast
next
  case (step_forced tid turn reason r rt)
  with step_okI [OF touch_complete_append] forced_view [OF assms(2)] show ?thesis by blast
next
  case (step_clears tid turn r rt)
  with clear_step assms(2) show ?thesis by blast
next
  case (step_other tid kind r rt)
  with step_okI [OF touch_rt_append] other_view [OF assms(2)] show ?thesis by blast
qed

lemma boot_runs_ok: "boot_state s \<Longrightarrow> runs_ok s"
  by (simp add: boot_state_def runs_ok_def thread_ok_def)

lemma runs_reach_ok: "runs_reach env s s' \<Longrightarrow> boot_state s \<Longrightarrow> runs_ok s'"
proof (induction rule: runs_reach.induct)
  case (reach_step m s')
  with runs_step_ok obtain tid where "step_ok tid m s'" by blast
  with reach_step step_okD(1) show ?case by blast
qed (rule boot_runs_ok)


section \<open>Properties of all runs\<close>


text \<open>
  C15: in every state a server reaches, the turn that a thread's log has open is the one its
  runtime holds as active, a task is running it, and its token is cancelled only if its
  interruption is on record.
\<close>

theorem runtime_agrees_with_log:
  assumes "runs_reach env s s'" and "boot_state s" and "tn_runtimes s' tid = Some rt"
    and "replay (log_of (tn_server s') tid) (new_state tid) = Inr st"
    and "st_active_turn_id st = Some turn"
  shows "map_option at_turn_id (rt_active_turn rt) = Some turn \<and> turn \<in> rt_running rt \<and>
    (turn \<in> rt_cancelled rt \<longrightarrow> st_interrupt_requested st)"
proof -
  have "rt_ok (view_of s' tid) rt"
    using runs_reach_ok [OF assms(1,2)] assms(3) by (auto simp: runs_ok_def thread_ok_def)
  moreover have "tv_current (view_of s' tid) = Some (turn, st_interrupt_requested st)"
    using replay_view [OF assms(4)] assms(5) by (simp add: view_of_def state_view_def)
  ultimately show ?thesis by (simp add: rt_ok_def)
qed

section \<open>Progress\<close>

lemma handle_append_ok:
  assumes "env_writes env" and "runtime_state tid s = (Inr st, s)"
    and "apply_kind (env_now env tid (length (log_of (tn_server s) tid))) (redact_thread_event_kind (env_redact env) k) st = Inr st1"
  obtains s' where "handle_append_event env tid k s = (Inr (), s')"
    "runtime_state tid s' = (Inr (st1\<lparr>st_last_seq := of_nat (length (log_of (tn_server s) tid)) + 1\<rparr>), s')"
    "tn_runtimes s' = tn_runtimes s" "tn_server s' = (tn_server s)\<lparr>sv_logs := (sv_logs (tn_server s))(tid \<mapsto>
       log_of (tn_server s) tid @ [next_event env tid (log_of (tn_server s) tid) k])\<rparr>"
proof -
  let ?es = "log_of (tn_server s) tid"
  note st = runtime_state_Inr(3) [OF assms(2)]
  have some: "sv_logs (tn_server s) tid = Some ?es"
    using assms(2) by (cases "sv_logs (tn_server s) tid") (simp_all add: runtime_state_def act_look_def log_of_Some)
  have ids: "st_thread_id st = tid" "st_last_seq st = of_nat (length ?es)"
    using replay_ids [OF st] by (simp_all add: new_state_def event_seq_zero_def)
  then have "apply_event (next_event env tid ?es k) st = Inr (st1\<lparr>st_last_seq := of_nat (length ?es) + 1\<rparr>)"
    using assms(3) by (simp add: apply_event_def next_event_def)
  then have rep: "replay (?es @ [next_event env tid ?es k]) (new_state tid) = Inr (st1\<lparr>st_last_seq := of_nat (length ?es) + 1\<rparr>)"
    using st by (simp add: rp.run_snoc)
  let ?s' = "s\<lparr>tn_server := (tn_server s)\<lparr>sv_logs := (sv_logs (tn_server s))(tid \<mapsto> ?es @ [next_event env tid ?es k])\<rparr>\<rparr>"
  have "handle_append_event env tid k s = (Inr (), ?s')"
    using some rep assms(1)
    by (simp add: handle_append_event_def act_bind_def on_threads_def append_event_and_emit_def env_writes_def act_return_def)
  moreover have "runtime_state tid ?s' = (Inr (st1\<lparr>st_last_seq := of_nat (length ?es) + 1\<rparr>), ?s')"
    using rep by (simp add: runtime_state_def act_look_def)
  ultimately show ?thesis by (rule that) simp_all
qed

lemma cleared_markers_ok:
  assumes "env_writes env" and "runtime_state tid s = (Inr st, s)" and "list_all is_marker ks"
  shows "\<exists>s' n. handle_append_all env tid ks s = (Inr (), s') \<and>
    runtime_state tid s' = (Inr (st\<lparr>st_last_seq := n\<rparr>), s') \<and> tn_runtimes s' = tn_runtimes s"
  using assms(2,3)
proof (induction ks arbitrary: s st)
  case Nil
  then show ?case by (intro exI [of _ s] exI [of _ "st_last_seq st"]) (simp add: act_return_def)
next
  case (Cons k ks)
  from Cons.prems(2) have "apply_kind t (redact_thread_event_kind ra k) st = Inr st" for t ra
    by (cases k) simp_all
  from handle_append_ok [OF assms(1) Cons.prems(1) this] obtain m where m:
    "handle_append_event env tid k s = (Inr (), m)"
    "runtime_state tid m = (Inr (st\<lparr>st_last_seq := of_nat (length (log_of (tn_server s) tid)) + 1\<rparr>), m)"
    "tn_runtimes m = tn_runtimes s" by metis
  from Cons.IH [OF m(2)] Cons.prems(2) m(1,3) show ?case by (auto simp: act_bind_def)
qed

lemma start_turn_succeeds:
  assumes "env_writes env" and "checked_request req = Inr req'" and "tn_runtimes s tid = Some rt"
    and "runtime_state tid s = (Inr st, s)" and "check_startable st = Inr ()"
  obtains s' where "start_turn env tid turn req s = (Inr turn, s')"
    "view_of s' tid = (view_of s tid)\<lparr>tv_current := Some (turn, False)\<rparr>"
    "tn_runtimes s' tid = Some (rt\<lparr>rt_active_turn := Some \<lparr>at_turn_id = turn, at_interrupt_reason = None\<rparr>,
       rt_running := insert turn (rt_running rt)\<rparr>)"
proof -
  from cleared_markers_ok [OF assms(1,4), of "cleared_markers turn"] obtain m n where m:
    "handle_append_all env tid (cleared_markers turn) s = (Inr (), m)"
    "runtime_state tid m = (Inr (st\<lparr>st_last_seq := n\<rparr>), m)" "tn_runtimes m = tn_runtimes s"
    by (auto simp: cleared_markers_def)
  have "st_active_turn_id st = None" using assms(5) by (auto simp: check_startable_def split: if_splits)
  then have "\<exists>st1. apply_kind t (redact_thread_event_kind ra (turn_started_event turn req')) (st\<lparr>st_last_seq := n\<rparr>) = Inr st1"
    for t ra by (simp add: turn_started_event_def)
  with handle_append_ok [OF assms(1) m(2)] obtain v where v:
    "handle_append_event env tid (turn_started_event turn req') m = (Inr (), v)" "tn_runtimes v = tn_runtimes m"
    by metis
  from v(1) have view: "view_of v tid = view_kind (view_of m tid) (turn_started_event turn req')"
    by (cases rule: handle_append_cases) simp_all
  have "view_of m tid = view_of s tid"
    using m(1) runtime_state_Inr(2)
    by (metis (no_types, lifting) append_other_view cleared_markers_other)
  let ?f = "\<lambda>rt. rt\<lparr>rt_active_turn := Some \<lparr>at_turn_id = turn, at_interrupt_reason = None\<rparr>,
      rt_running := insert turn (rt_running rt)\<rparr>"
  let ?s' = "v\<lparr>tn_runtimes := (tn_runtimes v)(tid := map_option ?f (tn_runtimes v tid))\<rparr>"
  have rt: "runtime_of tid s = (Inr rt, s)" using assms(3) by (simp add: runtime_of_eq)
  have "start_turn env tid turn req s = (Inr turn, ?s')"
    by (simp add: start_turn_def act_bind_def act_simps act_map_error_def rt assms(2,4,5) m(1) v(1)
        update_runtime_def)
  moreover have "view_of ?s' tid = (view_of s tid)\<lparr>tv_current := Some (turn, False)\<rparr>"
    using view \<open>view_of m tid = view_of s tid\<close> by (simp add: turn_started_event_def)
  moreover have "tn_runtimes ?s' tid = Some (?f rt)" using v(2) m(3) assms(3) by simp
  ultimately show ?thesis by (rule that)
qed

lemma interrupt_succeeds:
  assumes "env_writes env" and "runs_ok s" and "tn_runtimes s tid = Some rt"
    and "runtime_state tid s = (Inr st, s)" and "st_active_turn_id st = Some turn"
  obtains s' st' rt' where "interrupt_turn env tid turn reason s = (Inr (), s')"
    "tn_runtimes s' tid = Some rt'" "turn \<in> rt_cancelled rt'" "turn \<in> rt_running rt'"
    "runtime_state tid s' = (Inr st', s')" "st_active_turn_id st' = Some turn" "st_interrupt_requested st'"
proof -
  have "rt_ok (view_of s tid) rt" by (rule thread_ok_parts(3) [OF runs_okD(2) [OF assms(2)] assms(3)])
  with runtime_state_Inr(2) [OF assms(4)] assms(5) obtain a where a: "rt_active_turn rt = Some a"
    "at_turn_id a = turn" "turn \<in> rt_running rt" by (auto simp: rt_ok_def state_view_def)
  let ?rt = "rt\<lparr>rt_active_turn := Some (note_interrupt reason a)\<rparr>"
  let ?rt' = "?rt\<lparr>rt_cancelled := insert turn (rt_cancelled ?rt)\<rparr>"
  let ?m = "s\<lparr>tn_runtimes := (tn_runtimes s)(tid \<mapsto> ?rt)\<rparr>"
  have m: "runtime_state tid ?m = (Inr st, ?m)" using assms(4) by (simp add: runtime_state_def act_look_def)
  have start: "interrupt_turn env tid turn reason s =
      (if st_interrupt_requested st then cancel_turn tid turn ?m
       else act_bind (handle_append_event env tid (TurnInterruptRequested turn reason)) (\<lambda>_. cancel_turn tid turn) ?m)"
    using a assms(3,4) by (simp add: interrupt_turn_def act_bind_def runtime_of_def act_look_def update_runtime_def)
  have cancelled: "cancel_turn tid turn n = (Inr (), n\<lparr>tn_runtimes := (tn_runtimes n)(tid \<mapsto> ?rt')\<rparr>)"
    if "tn_runtimes n tid = Some ?rt" for n using that by (simp add: cancel_turn_def update_runtime_def)
  have look: "runtime_state tid (n\<lparr>tn_runtimes := f\<rparr>) = (Inr x, n\<lparr>tn_runtimes := f\<rparr>)"
    if "runtime_state tid n = (Inr x, n)" for n x f using that by (simp add: runtime_state_def act_look_def)
  show ?thesis
  proof (cases "st_interrupt_requested st")
    case True
    with start cancelled [of ?m] have "interrupt_turn env tid turn reason s =
        (Inr (), ?m\<lparr>tn_runtimes := (tn_runtimes ?m)(tid \<mapsto> ?rt')\<rparr>)" by simp
    from that [OF this _ _ _ look [OF m] assms(5) True] a(3) show ?thesis by simp
  next
    case False
    have "apply_kind t (redact_thread_event_kind ra (TurnInterruptRequested turn reason)) st =
        Inr (st\<lparr>st_interrupt_requested := True, st_interrupt_reason := map_option (redact_text ra) reason\<rparr>)"
      for t ra using assms(5) by simp
    from handle_append_ok [OF assms(1) m this] obtain n where n:
      "handle_append_event env tid (TurnInterruptRequested turn reason) ?m = (Inr (), n)"
      "runtime_state tid n = (Inr (st\<lparr>st_interrupt_requested := True,
         st_interrupt_reason := map_option (redact_text (env_redact env)) reason,
         st_last_seq := of_nat (length (log_of (tn_server ?m) tid)) + 1\<rparr>), n)"
      "tn_runtimes n = tn_runtimes ?m" by metis
    have "interrupt_turn env tid turn reason s = (Inr (), n\<lparr>tn_runtimes := (tn_runtimes n)(tid \<mapsto> ?rt')\<rparr>)"
      using start False n(1) cancelled [of n] n(3) by (simp add: act_bind_def)
    from that [OF this _ _ _ look [OF n(2)]] a(3) assms(5) show ?thesis by simp
  qed
qed

lemma interrupted_completes:
  assumes "env_writes env" and "tn_runtimes s tid = Some rt" and "runtime_state tid s = (Inr st, s)"
    and "st_active_turn_id st = Some turn" and "st_interrupt_requested st"
  obtains s' where "run_turn_ends env tid turn outcome s = (Inr (), s')"
    "view_of s' tid = \<lparr>tv_current = None, tv_last = Some (turn, TurnStatusInterrupted)\<rparr>"
proof -
  obtain status reason where out: "outcome_status rt outcome = (status, reason)" by fastforce
  let ?m = "s\<lparr>tn_runtimes := (tn_runtimes s)(tid := map_option (\<lambda>rt. rt\<lparr>rt_running := rt_running rt - {turn}\<rparr>) (tn_runtimes s tid))\<rparr>"
  have m: "runtime_state tid ?m = (Inr st, ?m)" using assms(3) by (simp add: runtime_state_def act_look_def)
  obtain fr where res: "resolve_turn_completion st status reason = (TurnStatusInterrupted, fr)"
    using assms(5) by (simp add: resolve_turn_completion_def)
  obtain st1 where "apply_kind (env_now env tid (length (log_of (tn_server ?m) tid)))
      (redact_thread_event_kind (env_redact env) (TurnCompleted turn TurnStatusInterrupted fr)) st = Inr st1"
    using assms(4) by simp
  from handle_append_ok [OF assms(1) m this] obtain n where n:
    "handle_append_event env tid (TurnCompleted turn TurnStatusInterrupted fr) ?m = (Inr (), n)" by blast
  from n have v: "view_of n tid = \<lparr>tv_current = None, tv_last = Some (turn, TurnStatusInterrupted)\<rparr>"
    by (cases rule: handle_append_cases) simp_all
  have "run_turn_ends env tid turn outcome s = complete_turn_append env tid turn status reason ?m"
    using assms(2) out by (simp add: run_turn_ends_def act_bind_def runtime_of_def act_look_def update_runtime_def)
  also have "\<dots> = finishing tid turn n"
    using m assms(4) res n by (simp add: complete_turn_append_def act_bind_def act_attempt_def)
  finally have "run_turn_ends env tid turn outcome s = (Inr (), snd (finishing tid turn n))"
    by (simp add: finishing_def update_runtime_def)
  moreover have "view_of (snd (finishing tid turn n)) tid = view_of n tid"
    by (simp add: finishing_def update_runtime_def)
  ultimately show ?thesis using v by (intro that) simp_all
qed

text \<open>
  C16: when no write fails, the turn that a log has open can be interrupted, which cancels the
  task running it, and the task then completes it as interrupted: no accepted interruption is
  lost and no thread stays busy with a turn that nothing runs.
\<close>

theorem interrupted_turn_ends:
  assumes "runs_reach env s0 s" and "boot_state s0" and "env_writes env"
    and "tn_runtimes s tid = Some rt"
    and "replay (log_of (tn_server s) tid) (new_state tid) = Inr st" and "st_active_turn_id st = Some turn"
  shows "\<exists>s1 rt1 s2. interrupt_turn env tid turn reason s = (Inr (), s1) \<and>
    tn_runtimes s1 tid = Some rt1 \<and> turn \<in> rt_cancelled rt1 \<and> turn \<in> rt_running rt1 \<and>
    run_turn_ends env tid turn OutcomeCancelled s1 = (Inr (), s2) \<and>
    view_of s2 tid = \<lparr>tv_current = None, tv_last = Some (turn, TurnStatusInterrupted)\<rparr>"
proof -
  have ok: "runs_ok s" by (rule runs_reach_ok [OF assms(1,2)])
  obtain st' where st': "runtime_state tid s = (Inr st', s)"
    using runtime_state_ok [OF runs_okD(1) [OF ok] thread_ok_parts(2) [OF runs_okD(2) [OF ok] assms(4)]] .
  with runtime_state_Inr(3) [OF st'] assms(5) have "runtime_state tid s = (Inr st, s)" by simp
  from interrupt_succeeds [OF assms(3) ok assms(4) this assms(6)] obtain s1 st1 rt1 where s1:
    "interrupt_turn env tid turn reason s = (Inr (), s1)" "tn_runtimes s1 tid = Some rt1"
    "turn \<in> rt_cancelled rt1" "turn \<in> rt_running rt1" "runtime_state tid s1 = (Inr st1, s1)"
    "st_active_turn_id st1 = Some turn" "st_interrupt_requested st1" .
  from interrupted_completes [OF assms(3) s1(2,5-7)] s1 show ?thesis by metis
qed

section \<open>Archived and paused\<close>

text \<open>Whether a log ends archived and paused.\<close>

fun gate_kind :: "bool \<times> bool \<Rightarrow> thread_event_kind \<Rightarrow> bool \<times> bool" where
  "gate_kind (a, p) (ThreadArchived _) = (True, p)"
| "gate_kind (a, p) (ThreadUnarchived _) = (False, p)"
| "gate_kind (a, p) (ThreadPaused _) = (a, True)"
| "gate_kind (a, p) (ThreadUnpaused _) = (a, False)"
| "gate_kind g _ = g"

definition gate_of :: "turn_server \<Rightarrow> thread_id \<Rightarrow> bool \<times> bool" where
  "gate_of s tid = foldl gate_kind (False, False) (core (log_of (tn_server s) tid))"

lemma gate_kind_redact [simp]: "gate_kind g (redact_thread_event_kind ra k) = gate_kind g k"
  by (cases g; cases k) simp_all

lemma gate_kinds_redact: "foldl gate_kind g (map (redact_thread_event_kind ra) ks) = foldl gate_kind g ks"
  by (induction ks arbitrary: g) simp_all

lemma gate_kinds_same: "(\<And>k. k \<in> set ks \<Longrightarrow> gate_kind g k = g) \<Longrightarrow> foldl gate_kind g ks = g"
  by (induction ks) simp_all

definition state_gate :: "thread_state \<Rightarrow> bool \<times> bool" where
  "state_gate st = (st_archived st, st_paused st)"

lemma apply_kind_gate: "apply_kind t k st = Inr st' \<Longrightarrow> state_gate st' = gate_kind (state_gate st) k"
  by (cases k) (auto simp: state_gate_def split: option.splits if_splits)

lemma replay_gates: "replay es st = Inr st' \<Longrightarrow> state_gate st' = foldl gate_kind (state_gate st) (core es)"
proof (induction es arbitrary: st)
  case (Cons e es)
  then obtain m where m: "apply_event e st = Inr m" "replay es m = Inr st'" by (auto simp: rbind_eq_Inr)
  from m(1) have step: "state_gate m = gate_kind (state_gate st) (ev_kind e)"
    by (auto simp: apply_event_Inr state_gate_def dest: apply_kind_gate)
  have "is_marker (ev_kind e) \<Longrightarrow> gate_kind g (ev_kind e) = g" for g by (cases g; cases "ev_kind e") simp_all
  with Cons.IH [OF m(2)] step show ?case by (simp add: core_def)
qed (simp add: core_def)

lemma runtime_state_gate: "runtime_state tid s = (Inr st, s') \<Longrightarrow> state_gate st = gate_of s tid"
  using replay_gates [OF runtime_state_Inr(3)] by (auto simp: gate_of_def state_gate_def new_state_def)

lemma startable_iff:
  assumes "runtime_state tid s = (Inr st, s)"
  shows "check_startable st = Inr () \<longleftrightarrow> gate_of s tid = (False, False) \<and> tv_current (view_of s tid) = None"
  using runtime_state_gate [OF assms] runtime_state_Inr(2) [OF assms]
  by (auto simp: check_startable_def state_gate_def state_view_def)

lemma load_succeeds_fresh:
  assumes "env_writes env" and "runs_ok s" and "sv_logs (tn_server s) tid \<noteq> None" and "tn_runtimes s tid = None"
  obtains s' st where "load_runtime env tid s = (Inr (), s')" "tn_runtimes s' tid = Some new_runtime"
    "tv_current (view_of s' tid) = None" "gate_of s' tid = gate_of s tid" "runtime_state tid s' = (Inr st, s')"
    "\<exists>st0. core (log_of (tn_server s') tid) = core (log_of (tn_server s) tid) @
       map (redact_thread_event_kind (env_redact env)) (recovery_events (log_of (tn_server s) tid) st0)"
proof -
  from load_succeeds [OF assms(1) runs_okD(1) [OF assms(2)] assms(3)] obtain v where
    v: "get_or_load_thread env tid (tn_server s) = (Inr (), v)" by blast
  let ?s' = "s\<lparr>tn_server := v, tn_runtimes := (tn_runtimes s)(tid := Some new_runtime)\<rparr>"
  have l: "load_runtime env tid s = (Inr (), ?s')"
    using v assms(4) by (simp add: load_runtime_def act_bind_def on_threads_def)
  have ok: "runs_ok ?s'"
    using step_okD(1) [OF step_okI [OF touch_load l] assms(2)] load_view [OF assms(2) l] by blast
  have "sv_logs (tn_server ?s') tid \<noteq> None"
    using thread_ok_parts(2) [OF runs_okD(2) [OF ok], of tid new_runtime] by simp
  from runtime_state_ok [OF runs_okD(1) [OF ok] this]
  obtain st where st: "runtime_state tid ?s' = (Inr st, ?s')" .
  have unl: "tid \<notin> sv_loaded (tn_server s)"
    using thread_ok_parts(1) [OF runs_okD(2) [OF assms(2)]] assms(4) by simp
  from v unl assms(3) obtain es st0 where es: "sv_logs (tn_server s) tid = Some es"
    "replay es (new_state tid) = Inr st0" "\<exists>m. append_all env tid (recovery_events es st0) (tn_server s) = (Inr (), m) \<and>
      sv_logs v = sv_logs m"
    by (auto simp: get_or_load_thread_def act_bind_eq split: sum.splits)
  then have c: "core (log_of v tid) = core es @ map (redact_thread_event_kind (env_redact env)) (recovery_events es st0)"
    using append_all_Inr recovery_events_core by (fastforce simp: log_of_def)
  have "foldl gate_kind g (recovery_events es st0) = g" for g
    by (rule gate_kinds_same) (cases g, auto simp: recovery_events_def split: option.splits)
  then have "gate_of ?s' tid = gate_of s tid"
    using c es(1) by (simp add: gate_of_def log_of_Some gate_kinds_redact)
  moreover have "tv_current (view_of ?s' tid) = None"
    using recovery_view(2) [OF es(2)] c by (simp add: view_of_def view_log_append view_kinds_redact)
  ultimately show ?thesis using l st c es(1) by (intro that) (auto simp: log_of_Some)
qed

section \<open>Witnesses\<close>

definition sample_turns :: turn_server where
  "sample_turns = \<lparr>tn_server = sample_server, tn_runtimes = (\<lambda>_. None)\<rparr>"

definition sample_turn_request :: turn_request where
  "sample_turn_request = \<lparr>tr_input = ''hello'', tr_context_refs = None, tr_attachments = Some [],
     tr_directives = Some [DirectivePlan], tr_priority = Foreground\<rparr>"

lemma sample_boot: "boot_state sample_turns"
  by (simp add: boot_state_def sample_turns_def sample_server_ok) (simp add: sample_server_def)

lemma sample_env_writes: "env_writes sample_env"
  by (simp add: env_writes_def sample_env_def)

lemma sample_checked: "checked_request sample_turn_request = Inr (sample_turn_request\<lparr>tr_attachments := None\<rparr>)"
  by (simp add: checked_request_def checked_list_def sample_turn_request_def validate_turn_directives_def)

lemma sample_loaded:
  obtains s where "runs_reach sample_env sample_turns s" "tn_runtimes s sample_thread = Some new_runtime"
    "view_of s sample_thread = idle_view" "gate_of s sample_thread = (False, False)"
    "\<exists>es st. core (log_of (tn_server s) sample_thread) =
       [ThreadCreated ''/w'', ApprovalRequested (ApprovalId 5) None ''fs/mkdir'' JNull] @
       map (redact_thread_event_kind (env_redact sample_env)) (recovery_events es st)"
    "sv_logs (tn_server s) (ThreadId 99) = None"
proof -
  note ok = boot_runs_ok [OF sample_boot]
  have core: "core (log_of (tn_server sample_turns) sample_thread) =
      [ThreadCreated ''/w'', ApprovalRequested (ApprovalId 5) None ''fs/mkdir'' JNull]"
    by (simp add: sample_turns_def sample_server_def log_of_def core_def sample_event_def)
  have "sv_logs (tn_server sample_turns) sample_thread \<noteq> None" "tn_runtimes sample_turns sample_thread = None"
    by (simp_all add: sample_turns_def sample_server_def)
  from load_succeeds_fresh [OF sample_env_writes ok this] obtain m st where m:
    "load_runtime sample_env sample_thread sample_turns = (Inr (), m)"
    "tn_runtimes m sample_thread = Some new_runtime" "tv_current (view_of m sample_thread) = None"
    "gate_of m sample_thread = gate_of sample_turns sample_thread"
    "runtime_state sample_thread m = (Inr st, m)"
    "\<exists>st0. core (log_of (tn_server m) sample_thread) = core (log_of (tn_server sample_turns) sample_thread) @
       map (redact_thread_event_kind (env_redact sample_env))
         (recovery_events (log_of (tn_server sample_turns) sample_thread) st0)" .
  have "view_of sample_turns sample_thread = idle_view"
    using core by (simp add: view_of_def view_log_def)
  moreover have "turn_machine idle_view w \<Longrightarrow> tv_current w \<noteq> None" for w
    by (auto simp: turn_machine_iff idle_view_def)
  ultimately have "view_of m sample_thread = idle_view"
    using load_view [OF ok m(1)] m(3) by metis
  moreover have "gate_of m sample_thread = (False, False)" using m(4) core by (simp add: gate_of_def)
  moreover have absent: "sv_logs (tn_server m) (ThreadId 99) = None"
    using act_withinD [OF touch_load m(1)]
    by (simp add: touches_def sample_turns_def sample_server_def sample_thread_def)
  ultimately show ?thesis
    using that [OF reach_step [OF reach_start step_load [OF m(1)]] m(2)] m(6) core absent by fastforce
qed

lemma sample_started:
  obtains s rt st where "runs_reach sample_env sample_turns s" "tn_runtimes s sample_thread = Some rt"
    "replay (log_of (tn_server s) sample_thread) (new_state sample_thread) = Inr st"
    "st_active_turn_id st = Some (TurnId 1)"
    "view_of s sample_thread = \<lparr>tv_current = Some (TurnId 1, False), tv_last = None\<rparr>"
proof -
  obtain m where m: "runs_reach sample_env sample_turns m" "tn_runtimes m sample_thread = Some new_runtime"
    "view_of m sample_thread = idle_view" "gate_of m sample_thread = (False, False)" by (rule sample_loaded)
  note ok = runs_reach_ok [OF m(1) sample_boot]
  obtain st where st: "runtime_state sample_thread m = (Inr st, m)"
    using runtime_state_ok [OF runs_okD(1) [OF ok] thread_ok_parts(2) [OF runs_okD(2) [OF ok] m(2)]] .
  with startable_iff m(3,4) have "check_startable st = Inr ()" by (simp add: idle_view_def)
  from start_turn_succeeds [OF sample_env_writes sample_checked m(2) st this, of "TurnId 1"] obtain s where s:
    "start_turn sample_env sample_thread (TurnId 1) sample_turn_request m = (Inr (TurnId 1), s)"
    "view_of s sample_thread = (view_of m sample_thread)\<lparr>tv_current := Some (TurnId 1, False)\<rparr>"
    "tn_runtimes s sample_thread = Some (new_runtime\<lparr>rt_active_turn := Some \<lparr>at_turn_id = TurnId 1, at_interrupt_reason = None\<rparr>,
       rt_running := insert (TurnId 1) (rt_running new_runtime)\<rparr>)" .
  have fresh: "fresh_turn (TurnId 1) rt" if "tn_runtimes m sample_thread = Some rt" for rt
    using that m(2) by (auto simp: fresh_turn_def new_runtime_def)
  have reach': "runs_reach sample_env sample_turns s"
    by (rule reach_step [OF m(1) step_start [OF s(1) fresh]])
  have ok': "runs_ok s" by (rule runs_reach_ok [OF reach' sample_boot])
  from runtime_state_ok [OF runs_okD(1) [OF ok'] thread_ok_parts(2) [OF runs_okD(2) [OF ok'] s(3)]]
  obtain st' where st': "runtime_state sample_thread s = (Inr st', s)" .
  have "st_active_turn_id st' = Some (TurnId 1)"
    using runtime_state_Inr(2) [OF st'] s(2) by (cases "st_active_turn_id st'") (simp_all add: state_view_def)
  from that [OF reach' s(3) runtime_state_Inr(3) [OF st'] this] s(2) m(3) show ?thesis
    by (simp add: idle_view_def)
qed


theorem runtime_agrees_with_log_witness:
  "\<exists>s rt. runs_reach sample_env sample_turns s \<and> tn_runtimes s sample_thread = Some rt \<and>
     map_option at_turn_id (rt_active_turn rt) = Some (TurnId 1)"
proof -
  obtain s rt st where "runs_reach sample_env sample_turns s" "tn_runtimes s sample_thread = Some rt"
    "replay (log_of (tn_server s) sample_thread) (new_state sample_thread) = Inr st"
    "st_active_turn_id st = Some (TurnId 1)" by (rule sample_started)
  from this(1,2) runtime_agrees_with_log [OF this(1) sample_boot this(2-4)] show ?thesis by blast
qed

theorem interrupted_turn_ends_witness:
  "\<exists>s s1 s2. runs_reach sample_env sample_turns s \<and>
     interrupt_turn sample_env sample_thread (TurnId 1) None s = (Inr (), s1) \<and>
     run_turn_ends sample_env sample_thread (TurnId 1) OutcomeCancelled s1 = (Inr (), s2) \<and>
     tv_last (view_of s2 sample_thread) = Some (TurnId 1, TurnStatusInterrupted)"
proof -
  obtain s rt st where s: "runs_reach sample_env sample_turns s" "tn_runtimes s sample_thread = Some rt"
    "replay (log_of (tn_server s) sample_thread) (new_state sample_thread) = Inr st"
    "st_active_turn_id st = Some (TurnId 1)" by (rule sample_started)
  from interrupted_turn_ends [OF s(1) sample_boot sample_env_writes s(2-4), of None] obtain s1 s2 where
    "interrupt_turn sample_env sample_thread (TurnId 1) None s = (Inr (), s1)"
    "run_turn_ends sample_env sample_thread (TurnId 1) OutcomeCancelled s1 = (Inr (), s2)"
    "view_of s2 sample_thread = \<lparr>tv_current = None, tv_last = Some (TurnId 1, TurnStatusInterrupted)\<rparr>" by blast
  with s(1) show ?thesis by (metis turn_view.select_convs(2))
qed

end
