(* ===== verification/ThreadLifecycle.thy ===== *)
theory ThreadLifecycle
  imports TurnRuns
begin

text \<open>
  Pausing, unpausing, archiving and unarchiving a thread
  (\<open>crates/app-server/src/main/thread_manage/pause.rs\<close> and \<open>archive.rs\<close>). The handlers await
  between the look at the thread's state and the event they append, without keeping its lock:
  what the other tasks do at such a point is a parameter. So are the results of stopping and
  listing processes, of closing tool connections and of the workspace hook, which the
  handlers only wait for or report.
\<close>

section \<open>Waiting for a turn to stop\<close>

text \<open>What other tasks do at the await points of a handler.\<close>

record interference =
  if_waiting :: "turn_server \<Rightarrow> turn_server"
  if_appending :: "turn_server \<Rightarrow> turn_server"

definition meanwhile :: "(turn_server \<Rightarrow> turn_server) \<Rightarrow> unit turn_action" where
  "meanwhile f s = (Inr (), f s)"

text \<open>
  The loop until the turn is gone: other tasks run, and at the deadline the turn is completed
  by force. \<open>stopped\<close> is the result of \<open>stop_turn_processes\<close>.
\<close>

definition stop_active_turn ::
  "server_env \<Rightarrow> (turn_server \<Rightarrow> turn_server) \<Rightarrow> bool \<Rightarrow> thread_id \<Rightarrow> turn_id \<Rightarrow> string option \<Rightarrow>
     unit turn_action" where
  "stop_active_turn env waiting stopped tid turn reason =
     act_bind (act_attempt (interrupt_turn env tid turn reason)) (\<lambda>_ :: turn_error + unit.
     if \<not> stopped then act_fail StopProcessesFailed
     else
       act_bind (meanwhile waiting) (\<lambda>_.
       act_bind (runtime_state tid) (\<lambda>st.
       if st_active_turn_id st = None then act_return ()
       else
         act_bind (complete_turn env tid turn TurnStatusInterrupted reason) (\<lambda>_.
         act_bind (runtime_state tid) (\<lambda>st.
         if st_active_turn_id st = None then act_return ()
         else act_fail (ActiveTurnRemains turn))))))"

text \<open>\<open>thread_rt.append_event\<close>: refused when the runtime is invalidated.\<close>

definition runtime_append :: "server_env \<Rightarrow> thread_id \<Rightarrow> thread_event_kind \<Rightarrow> unit turn_action" where
  "runtime_append env tid kind =
     act_bind (runtime_of tid) (\<lambda>_.
     act_bind (on_threads (rt_append_event env tid kind)) (\<lambda>_. act_return ()))"

definition reason_or :: "string \<Rightarrow> string option \<Rightarrow> string option" where
  "reason_or text_of_default reason = (case reason of Some r \<Rightarrow> Some r | None \<Rightarrow> Some text_of_default)"

section \<open>Pausing\<close>

record pause_response =
  pr_already :: bool
  pr_interrupted_turn_id :: "turn_id option"

definition handle_thread_pause ::
  "server_env \<Rightarrow> interference \<Rightarrow> bool \<Rightarrow> thread_id \<Rightarrow> string option \<Rightarrow> pause_response turn_action" where
  "handle_thread_pause env others stopped tid reason =
     act_bind (load_runtime env tid) (\<lambda>_.
     act_bind (runtime_state tid) (\<lambda>st.
     if st_archived st then act_fail ThreadIsArchived
     else if st_paused st then act_return \<lparr>pr_already = True, pr_interrupted_turn_id = None\<rparr>
     else
       act_bind
         (case st_active_turn_id st of
            None \<Rightarrow> act_return ()
          | Some turn \<Rightarrow>
              stop_active_turn env (if_waiting others) stopped tid turn (reason_or ''thread paused'' reason)) (\<lambda>_.
       act_bind (meanwhile (if_appending others)) (\<lambda>_.
       act_bind (runtime_append env tid (ThreadPaused (reason_or ''thread paused'' reason))) (\<lambda>_.
       act_return \<lparr>pr_already = False, pr_interrupted_turn_id = st_active_turn_id st\<rparr>)))))"

text \<open>The result says whether the thread was not paused before.\<close>

definition handle_thread_unpause :: "server_env \<Rightarrow> thread_id \<Rightarrow> string option \<Rightarrow> bool turn_action" where
  "handle_thread_unpause env tid reason =
     act_bind (load_runtime env tid) (\<lambda>_.
     act_bind (runtime_state tid) (\<lambda>st.
     if \<not> st_paused st then act_return True
     else act_bind (runtime_append env tid (ThreadUnpaused reason)) (\<lambda>_. act_return False)))"

section \<open>Archiving\<close>

datatype archive_error =
    ArchiveTurn turn_error
  | ArchiveActiveTurn turn_id
  | ArchiveRunningProcesses "process_id list"
  | ArchiveKillFailed
  | ArchiveDrainTimedOut

record archive_processes =
  ap_running :: "process_id list"
  ap_killed :: bool
  ap_drained :: bool

text \<open>The result is the list of killed processes, or none if the thread was archived before.\<close>

definition handle_thread_archive ::
  "server_env \<Rightarrow> interference \<Rightarrow> bool \<Rightarrow> archive_processes \<Rightarrow> bool \<Rightarrow> thread_id \<Rightarrow> string option \<Rightarrow>
     (turn_server, archive_error, process_id list option) state_action" where
  "handle_thread_archive env others stopped procs force tid reason =
     act_bind (act_map_error ArchiveTurn (load_runtime env tid)) (\<lambda>_.
     act_bind (act_map_error ArchiveTurn (runtime_state tid)) (\<lambda>st.
     if st_archived st then act_return None
     else
       act_bind
         (case st_active_turn_id st of
            None \<Rightarrow> act_return ()
          | Some turn \<Rightarrow>
              if \<not> force then act_fail (ArchiveActiveTurn turn)
              else act_map_error ArchiveTurn
                (stop_active_turn env (if_waiting others) stopped tid turn (reason_or ''thread archived'' reason))) (\<lambda>_.
       if ap_running procs \<noteq> [] \<and> \<not> force then act_fail (ArchiveRunningProcesses (ap_running procs))
       else if force \<and> ap_running procs \<noteq> [] \<and> \<not> ap_killed procs then act_fail ArchiveKillFailed
       else if \<not> ap_drained procs then act_fail ArchiveDrainTimedOut
       else
         act_bind (act_map_error ArchiveTurn (meanwhile (if_appending others))) (\<lambda>_.
         act_bind (act_map_error ArchiveTurn
             (runtime_append env tid (ThreadArchived (reason_or ''thread archived'' reason)))) (\<lambda>_.
         act_return (Some (ap_running procs)))))))"

definition handle_thread_unarchive :: "server_env \<Rightarrow> thread_id \<Rightarrow> string option \<Rightarrow> bool turn_action" where
  "handle_thread_unarchive env tid reason =
     act_bind (load_runtime env tid) (\<lambda>_.
     act_bind (runtime_state tid) (\<lambda>st.
     if \<not> st_archived st then act_return True
     else act_bind (runtime_append env tid (ThreadUnarchived reason)) (\<lambda>_. act_return False)))"

section \<open>Appending to a runtime\<close>

lemma runtime_append_Inr:
  assumes "runtime_append env tid k s = (Inr u, s')"
  shows "core (log_of (tn_server s') tid) =
      core (log_of (tn_server s) tid) @ (if is_marker k then [] else [redact_thread_event_kind (env_redact env) k])"
    "tn_runtimes s' = tn_runtimes s"
proof -
  from assms obtain e v where e: "rt_append_event env tid k (tn_server s) = (Inr e, v)" "s' = s\<lparr>tn_server := v\<rparr>"
    by (auto simp: runtime_append_def act_bind_Inr runtime_of_eq on_threads_def act_simps split: prod.splits sum.splits)
  from rt_append_event_Inr [OF e(1)] have "e = next_event env tid (log_of (tn_server s) tid) k"
    "core (log_of v tid) = core (log_of (tn_server s) tid) @ core [e]" by blast+
  then show "core (log_of (tn_server s') tid) =
      core (log_of (tn_server s) tid) @ (if is_marker k then [] else [redact_thread_event_kind (env_redact env) k])"
    using e(2) by (simp add: core_def next_event_def)
  show "tn_runtimes s' = tn_runtimes s" using e(2) by simp
qed

lemma runtime_append_view:
  assumes "runtime_append env tid k s = (Inr u, s')" and "\<not> is_marker k"
  shows "view_of s' tid = view_kind (view_of s tid) k" "gate_of s' tid = gate_kind (gate_of s tid) k"
  using runtime_append_Inr(1) [OF assms(1)] assms(2)
  by (simp_all add: view_of_def view_log_append gate_of_def)

lemma runtime_append_ok:
  assumes "env_writes env" and "runtime_state tid s = (Inr st, s)" and "tn_runtimes s tid = Some rt"
    and "\<And>t k'. k' = redact_thread_event_kind (env_redact env) k \<Longrightarrow> \<exists>m. apply_kind t k' st = Inr m"
  shows "\<exists>s'. runtime_append env tid k s = (Inr (), s')"
proof -
  from assms(2) obtain es where es: "sv_logs (tn_server s) tid = Some es" "replay es (new_state tid) = Inr st"
    by (auto simp: runtime_state_def act_look_def split: option.splits sum.splits)
  from append_succeeds [OF assms(1) es assms(4) [OF refl]] assms(3) show ?thesis
    by (auto simp: runtime_append_def act_bind_def runtime_of_def act_look_def on_threads_def act_return_def)
qed

text \<open>What the wait leaves: no turn of the thread is open.\<close>

lemma stop_active_turn_idle:
  assumes "stop_active_turn env waiting stopped tid turn reason s = (Inr u, s')"
  shows "tv_current (view_of s' tid) = None"
proof -
  from assms obtain m st where "runtime_state tid m = (Inr st, s')" "st_active_turn_id st = None"
    by (auto simp: stop_active_turn_def act_bind_Inr act_simps split: if_splits dest: runtime_state_Inr(1))
  with runtime_state_Inr(1,2) [OF this(1)] show ?thesis by (simp add: state_view_def)
qed


lemma load_runtime_loaded:
  assumes "runs_ok s" and "tn_runtimes s tid = Some rt"
  shows "load_runtime env tid s = (Inr (), s)"
proof -
  have "tid \<in> sv_loaded (tn_server s)" 
    using thread_ok_parts(1) [OF runs_okD(2) [OF assms(1)], of tid] assms(2) by simp
  with assms(2) show ?thesis
    by (simp add: load_runtime_def act_bind_def on_threads_def get_or_load_thread_def fun_upd_idem)
qed

lemma start_turn_keeps_gate:
  assumes "start_turn env tid turn req s = (Inr t, s')"
  shows "gate_of s' tid = gate_of s tid"
proof -
  have one: "gate_of m' tid = gate_of m tid"
    if "handle_append_event env tid k m = (Inr u, m')" "\<And>g. gate_kind g k = g" for k m m' u
  proof -
    from that(1) obtain e used v where v: "append_event_and_emit env tid k (tn_server m) = (Inr (e, used), v)"
      "m' = m\<lparr>tn_server := v\<rparr>"
      by (auto simp: handle_append_event_def act_bind_Inr on_threads_def act_simps split: prod.splits sum.splits)
    from append_event_and_emit_Inr [OF v(1)] have e: "e = next_event env tid (log_of (tn_server m) tid) k"
      "v = (tn_server m)\<lparr>sv_logs := (sv_logs (tn_server m))(tid \<mapsto> log_of (tn_server m) tid @ [e])\<rparr>" by blast+
    have "log_of v tid = log_of (tn_server m) tid @ [e]" unfolding e(2) by (simp add: log_of_Some)
    with v(2) e(1) that(2) show ?thesis by (simp add: gate_of_def core_def next_event_def)
  qed
  have all: "gate_of m' tid = gate_of m tid"
    if "handle_append_all env tid ks m = (Inr u, m')" "list_all (\<lambda>k. \<forall>g. gate_kind g k = g) ks" for ks m m' u
    using that
  proof (induction ks arbitrary: m)
    case (Cons k ks)
    then obtain n where "handle_append_event env tid k m = (Inr (), n)" "handle_append_all env tid ks n = (Inr u, m')"
      by (auto simp: act_bind_Inr)
    with one [of k m "()" n] Cons.IH [of n] Cons.prems(2) show ?case by fastforce
  qed (simp add: act_simps)
  from assms obtain req' m n where "handle_append_all env tid (cleared_markers turn) s = (Inr (), m)"
    "handle_append_event env tid (turn_started_event turn req') m = (Inr (), n)" "gate_of s' tid = gate_of n tid"
    by (auto simp: start_turn_def act_bind_Inr act_simps act_map_error_eq runtime_of_eq update_runtime_eq gate_of_def
        dest!: runtime_state_Inr(1))
  with all [of "cleared_markers turn" s "()" m] one [of "turn_started_event turn req'" m "()" n] show ?thesis
    by (auto simp: cleared_markers_def turn_started_event_def)
qed

text \<open>Left alone before its append, a pause leaves no turn open.\<close>

lemma quiet_pause_stops_turns:
  assumes "handle_thread_pause env others stopped tid reason s = (Inr r, s')" and "\<not> pr_already r"
    and "if_appending others = id"
  shows "snd (gate_of s' tid) \<and> tv_current (view_of s' tid) = None"
proof -
  from assms(1,2) obtain m st n where n: "runtime_state tid m = (Inr st, m)"
    "(case st_active_turn_id st of None \<Rightarrow> act_return ()
      | Some turn \<Rightarrow> stop_active_turn env (if_waiting others) stopped tid turn (reason_or ''thread paused'' reason)) m = (Inr (), n)"
    "runtime_append env tid (ThreadPaused (reason_or ''thread paused'' reason)) n = (Inr (), s')"
    using assms(3)
    by (auto simp: handle_thread_pause_def act_bind_Inr act_simps meanwhile_def split: if_splits
        dest: runtime_state_Inr(1))
  have "tv_current (view_of n tid) = None"
    using n(2) runtime_state_Inr(2) [OF n(1)]
    by (cases "st_active_turn_id st") (auto simp: act_simps state_view_def dest: stop_active_turn_idle)
  with runtime_append_view [OF n(3)] show ?thesis by (cases "gate_of n tid") simp
qed


section \<open>Witness\<close>


end
