(* ===== verification/Fork.thy ===== *)
theory Fork
  imports ToolEvents ThreadLifecycle
begin

text \<open>
  Forking a thread (\<open>crates/app-server/src/main/thread_manage/fork.rs\<close>): a new thread gets a
  filtered copy of the events of another one, with the paths of its configuration moved to the
  new root and the turn that is open in the original closed. The handler awaits between the
  look at the thread's state and the read of its log; what other tasks do there is a parameter.
\<close>

section \<open>Moving paths to the new root\<close>

text \<open>The pieces of a path after its first n components, as \<open>Path::strip_prefix\<close> leaves them.\<close>

fun drop_components :: "nat \<Rightarrow> string list \<Rightarrow> string list" where
  "drop_components n [] = []"
| "drop_components n (p # ps) =
     (if piece_component p = None then drop_components n ps
      else if n = 0 then p # ps else drop_components (n - 1) ps)"

definition trim_pieces :: "string list \<Rightarrow> string list" where
  "trim_pieces ps = rev (dropWhile (\<lambda>p. piece_component p = None) (rev ps))"

fun join_pieces :: "string list \<Rightarrow> string" where
  "join_pieces [] = []"
| "join_pieces [p] = p"
| "join_pieces (p # q # ps) = p @ ''/'' @ join_pieces (q # ps)"

definition path_strip_prefix :: "path \<Rightarrow> string \<Rightarrow> string option" where
  "path_strip_prefix base value =
     (if prefix base (components value)
      then Some (join_pieces (trim_pieces
             (drop_components (length (filter (\<lambda>c. c \<noteq> RootDir) base)) (split_on (CHR ''/'') value))))
      else None)"

definition rebase_fork_workspace_path :: "path \<Rightarrow> path \<Rightarrow> bool \<Rightarrow> string \<Rightarrow> string" where
  "rebase_fork_workspace_path parent_root fork_root rebase_relative value =
     (if is_absolute value then
        (case path_strip_prefix parent_root value of
           Some rest \<Rightarrow> path_join (path_string fork_root) rest
         | None \<Rightarrow> value)
      else if rebase_relative then path_join (path_string fork_root) value
      else value)"

definition rewrite_thread_config_for_fork :: "path \<Rightarrow> path \<Rightarrow> config_update \<Rightarrow> config_update" where
  "rewrite_thread_config_for_fork parent_root fork_root c =
     c\<lparr>cu_sandbox_writable_roots :=
         map_option (map (rebase_fork_workspace_path parent_root fork_root True)) (cu_sandbox_writable_roots c),
       cu_execpolicy_rules :=
         map_option (map (rebase_fork_workspace_path parent_root fork_root False)) (cu_execpolicy_rules c)\<rparr>"

section \<open>The events of the fork\<close>

record fork_source =
  fk_active :: "turn_id option"
  fk_same_root :: bool
  fk_rewrite :: "config_update \<Rightarrow> config_update"

text \<open>What is appended for one event, and the approvals skipped so far.\<close>

fun fork_kind :: "fork_source \<Rightarrow> thread_event_kind \<Rightarrow> approval_id set \<Rightarrow> thread_event_kind list \<times> approval_id set" where
  "fork_kind src (ThreadSystemPromptSnapshot sha txt origin) skipped =
     (if fk_same_root src then [ThreadSystemPromptSnapshot sha txt origin] else [], skipped)"
| "fork_kind src (ThreadConfigUpdated c) skipped = ([ThreadConfigUpdated (fk_rewrite src c)], skipped)"
| "fork_kind src (TurnStarted p) skipped = ([TurnStarted p], skipped)"
| "fork_kind src (ModelRouted turn selected source reason rule) skipped =
     ([ModelRouted turn selected source reason rule], skipped)"
| "fork_kind src (TurnInterruptRequested turn reason) skipped =
     (if fk_active src = Some turn then [] else [TurnInterruptRequested turn reason], skipped)"
| "fork_kind src (TurnCompleted turn status reason) skipped =
     (if fk_active src = Some turn then [] else [TurnCompleted turn status reason], skipped)"
| "fork_kind src (ApprovalRequested a turn action params) skipped =
     (if turn \<noteq> None \<and> fk_active src = turn then ([], insert a skipped)
      else ([ApprovalRequested a turn action params], skipped))"
| "fork_kind src (ApprovalDecided a decision remember reason) skipped =
     (if a \<in> skipped then [] else [ApprovalDecided a decision remember reason], skipped)"
| "fork_kind src (AssistantMessage p) skipped = ([AssistantMessage p], skipped)"
| "fork_kind src _ skipped = ([], skipped)"

fun fork_loop :: "fork_source \<Rightarrow> approval_id set \<Rightarrow> thread_event list \<Rightarrow> thread_event_kind list" where
  "fork_loop src skipped [] = []"
| "fork_loop src skipped (e # es) =
     (case fork_kind src (ev_kind e) skipped of (ks, skipped') \<Rightarrow> ks @ fork_loop src skipped' es)"

text \<open>The active turn is closed when its start was copied.\<close>

definition fork_closing :: "fork_source \<Rightarrow> thread_event list \<Rightarrow> thread_event_kind list" where
  "fork_closing src es =
     (case fk_active src of
        Some turn \<Rightarrow>
          if \<exists>e \<in> set es. started_turn (ev_kind e) = Some turn then
            [TurnCompleted turn TurnStatusInterrupted
               (Some ''thread fork snapshots the active turn and closes it'')]
          else []
      | None \<Rightarrow> [])"

definition fork_kinds :: "fork_source \<Rightarrow> thread_event list \<Rightarrow> thread_event_kind list" where
  "fork_kinds src es = fork_loop src {} es @ fork_closing src es"

section \<open>The handler\<close>

datatype fork_error =
    ForkTurn turn_error
  | ForkCwdMissing
  | ForkRoot sandbox_error
  | ForkIdTaken thread_id

type_synonym 'a fork_action = "(turn_server, fork_error, 'a) state_action"

text \<open>\<open>ThreadStore::create_thread\<close> with the fresh identifier: an empty log, then its first event.\<close>

definition create_log :: "server_env \<Rightarrow> thread_id \<Rightarrow> string \<Rightarrow> unit fork_action" where
  "create_log env fresh cwd s =
     (if sv_logs (tn_server s) fresh \<noteq> None then (Inl (ForkIdTaken fresh), s)
      else act_map_error ForkTurn (handle_append_event env fresh (ThreadCreated cwd))
             (s\<lparr>tn_server := (tn_server s)\<lparr>sv_logs := (sv_logs (tn_server s))(fresh \<mapsto> [])\<rparr>\<rparr>))"

text \<open>The forked handle becomes the runtime of its thread.\<close>

definition register_runtime :: "thread_id \<Rightarrow> unit fork_action" where
  "register_runtime fresh s =
     (Inr (), s\<lparr>tn_server := (tn_server s)\<lparr>sv_loaded := insert fresh (sv_loaded (tn_server s))\<rparr>,
               tn_runtimes := (tn_runtimes s)(fresh \<mapsto> new_runtime)\<rparr>)"

definition read_parent_log :: "thread_id \<Rightarrow> thread_event list fork_action" where
  "read_parent_log tid = act_map_error ForkTurn (on_threads (read_log tid))"

definition fork_root :: "'w tool_env \<Rightarrow> 'w \<Rightarrow> string option \<Rightarrow> path \<Rightarrow> fork_error + path" where
  "fork_root tenv w cwd parent_root =
     (case cwd of
        Some c \<Rightarrow>
          if trim c = [] then Inr parent_root
          else (case resolve_thread_root_from_cwd tenv (trim c) w of
                  Inl e \<Rightarrow> Inl (ForkRoot e) | Inr root \<Rightarrow> Inr root)
      | None \<Rightarrow> Inr parent_root)"

definition handle_thread_fork ::
  "'w tool_env \<Rightarrow> 'w \<Rightarrow> (turn_server \<Rightarrow> turn_server) \<Rightarrow> thread_id \<Rightarrow> thread_id \<Rightarrow> string option \<Rightarrow>
     thread_id fork_action" where
  "handle_thread_fork tenv w others fresh tid cwd =
     act_bind (act_map_error ForkTurn (load_runtime (te_server tenv) tid)) (\<lambda>_.
     act_bind (act_map_error ForkTurn (runtime_state tid)) (\<lambda>st.
     case st_cwd st of
       None \<Rightarrow> act_fail ForkCwdMissing
     | Some current_cwd \<Rightarrow>
         act_bind (act_lift
           (case resolve_thread_root_from_cwd tenv current_cwd w of
              Inl e \<Rightarrow> Inl (ForkRoot e) | Inr root \<Rightarrow> Inr root)) (\<lambda>parent_root.
         act_bind (act_lift (fork_root tenv w cwd parent_root)) (\<lambda>root.
         act_bind (act_map_error ForkTurn (meanwhile others)) (\<lambda>_.
         act_bind (read_parent_log tid) (\<lambda>es.
         act_bind (create_log (te_server tenv) fresh (path_string root)) (\<lambda>_.
         act_bind (act_map_error ForkTurn (handle_append_all (te_server tenv) fresh (fork_kinds
             \<lparr>fk_active = st_active_turn_id st, fk_same_root = (root = parent_root),
              fk_rewrite = rewrite_thread_config_for_fork parent_root root\<rparr> es))) (\<lambda>_.
         act_bind (register_runtime fresh) (\<lambda>_.
         act_return fresh)))))))))"


section \<open>The copy is accepted\<close>

text \<open>How the state of the fork relates to that of the original, event by event.\<close>

definition forked :: "replacer \<Rightarrow> bool \<Rightarrow> thread_state \<Rightarrow> thread_state \<Rightarrow> bool" where
  "forked ra same_root p f \<longleftrightarrow>
     st_active_turn_id f = st_active_turn_id p \<and>
     st_system_prompt_sha256 f = (if same_root then st_system_prompt_sha256 p else None) \<and>
     st_system_prompt_text f = (if same_root then map_option (redact_text ra) (st_system_prompt_text p) else None) \<and>
     \<not> st_archived f \<and> \<not> st_paused f \<and> st_running_processes f = {} \<and>
     st_approval_policy f = st_approval_policy p \<and> st_sandbox_policy f = st_sandbox_policy p \<and>
     st_sandbox_network_access f = st_sandbox_network_access p \<and> st_mode f = st_mode p \<and> st_role f = st_role p"

lemma forked_seq [simp]: "forked ra b p (f\<lparr>st_last_seq := n\<rparr>) = forked ra b p f"
  "forked ra b (p\<lparr>st_last_seq := n\<rparr>) f = forked ra b p f"
  by (simp_all add: forked_def)

lemma token_usage_policy [simp]:
  "st_approval_policy (record_token_usage s rid u) = st_approval_policy s"
  "st_sandbox_policy (record_token_usage s rid u) = st_sandbox_policy s"
  "st_sandbox_network_access (record_token_usage s rid u) = st_sandbox_network_access s"
  "st_mode (record_token_usage s rid u) = st_mode s" "st_role (record_token_usage s rid u) = st_role s"
  "st_running_processes (record_token_usage s rid u) = st_running_processes s"
  "st_system_prompt_sha256 (record_token_usage s rid u) = st_system_prompt_sha256 s"
  "st_system_prompt_text (record_token_usage s rid u) = st_system_prompt_text s"
  by (simp_all add: record_token_usage_def add_usage_def split: option.split)

lemma forked_tokens [simp]:
  "forked ra b (record_token_usage p rid u) (record_token_usage f rid' u') = forked ra b p f"
  "forked ra b (record_token_usage p rid u) f = forked ra b p f"
  by (simp_all add: forked_def)

text \<open>An event that is copied is accepted and keeps the relation; a skipped one keeps it.\<close>

lemma fork_kind_copies:
  assumes "apply_kind t k p = Inr p'" and "forked ra (fk_same_root src) p f"
    and "fk_rewrite src = rewrite_thread_config_for_fork a b"
    and "\<And>turn. fk_active src = Some turn \<Longrightarrow> completed_turn k \<noteq> Some turn"
    and "fork_kind src k skipped = (ks, skipped')"
  shows "(ks = [] \<and> forked ra (fk_same_root src) p' f) \<or>
    (\<exists>k'. ks = [k'] \<and> (\<forall>t'. \<exists>f'. apply_kind t' (redact_thread_event_kind ra k') f = Inr f' \<and>
       forked ra (fk_same_root src) p' f'))"
proof (cases k)
  case (ThreadConfigUpdated c)
  then have "p' = apply_config c p" "ks = [ThreadConfigUpdated (fk_rewrite src c)]" using assms(1,5) by simp_all
  moreover have "forked ra (fk_same_root src) (apply_config c p) (apply_config (redact_config ra (fk_rewrite src c)) f)"
    using assms(2,3)
    by (simp add: forked_def apply_config_def redact_config_def rewrite_thread_config_for_fork_def
        split: option.split)
  ultimately show ?thesis by simp
next
  case (ThreadSystemPromptSnapshot sha prompt origin)
  then have p': "p' = p\<lparr>st_system_prompt_sha256 := Some sha, st_system_prompt_text := Some prompt\<rparr>"
    "st_system_prompt_sha256 p \<in> {None, Some sha}" "st_system_prompt_text p \<in> {None, Some prompt}"
    using assms(1) by (simp_all split: option.splits if_splits)
  show ?thesis
  proof (cases "fk_same_root src")
    case True
    with p' assms(2) have "apply_kind t' (redact_thread_event_kind ra k) f =
        Inr (f\<lparr>st_system_prompt_sha256 := Some sha, st_system_prompt_text := Some (redact_text ra prompt)\<rparr>)" for t'
      using ThreadSystemPromptSnapshot by (auto simp: forked_def)
    moreover have "forked ra True p' (f\<lparr>st_system_prompt_sha256 := Some sha, st_system_prompt_text := Some (redact_text ra prompt)\<rparr>)"
      using assms(2) p'(1) True by (simp add: forked_def)
    ultimately show ?thesis using True assms(5) ThreadSystemPromptSnapshot by auto
  qed (use assms(2,5) p'(1) ThreadSystemPromptSnapshot in \<open>simp add: forked_def\<close>)
next
  case (TurnStarted q)
  with assms(1,2,5) show ?thesis by (auto simp: forked_def split: if_splits)
next
  case (TurnInterruptRequested turn reason)
  with assms show ?thesis by (auto simp: forked_def split: if_splits)
next
  case (TurnCompleted turn status reason)
  with assms show ?thesis by (auto simp: forked_def split: if_splits)
next
  case (ApprovalRequested x turn action params)
  with assms(1,2,5) show ?thesis by (auto simp: forked_def split: if_splits)
next
  case (ApprovalDecided x decision remember reason)
  with assms(1,2,5) show ?thesis by (auto simp: forked_def split: if_splits)
qed (use assms(1,2,5) in \<open>clarsimp simp: forked_def\<close>)+

lemma fork_loop_copies:
  assumes "env_writes env" and "runtime_state fresh s = (Inr f, s)"
    and "replay es p = Inr p'" and "forked (env_redact env) (fk_same_root src) p f"
    and "fk_rewrite src = rewrite_thread_config_for_fork a b"
    and "\<And>turn e. fk_active src = Some turn \<Longrightarrow> e \<in> set es \<Longrightarrow> completed_turn (ev_kind e) \<noteq> Some turn"
  shows "\<exists>s' f'. handle_append_all env fresh (fork_loop src skipped es) s = (Inr (), s') \<and>
    runtime_state fresh s' = (Inr f', s') \<and> forked (env_redact env) (fk_same_root src) p' f' \<and>
    tn_runtimes s' = tn_runtimes s"
  using assms(2-4,6)
proof (induction es arbitrary: s f p skipped)
  case Nil
  then show ?case by (auto simp: act_simps)
next
  case (Cons e es)
  from Cons.prems(2) obtain m where m: "apply_event e p = Inr m" "replay es m = Inr p'"
    by (auto simp: rbind_eq_Inr)
  from m(1) obtain q where q: "apply_kind (ev_timestamp e) (ev_kind e) p = Inr q"
    "m = q\<lparr>st_last_seq := ev_seq e\<rparr>" by (auto simp: apply_event_Inr)
  obtain ks skipped' where ks: "fork_kind src (ev_kind e) skipped = (ks, skipped')" by fastforce
  from fork_kind_copies [OF q(1) Cons.prems(3) assms(5) _ ks] Cons.prems(4)
  consider "ks = []" "forked (env_redact env) (fk_same_root src) m f"
    | k' where "ks = [k']" "\<forall>t'. \<exists>f'. apply_kind t' (redact_thread_event_kind (env_redact env) k') f = Inr f' \<and>
       forked (env_redact env) (fk_same_root src) q f'"
    using q(2) by auto
  then show ?case
  proof cases
    case 1
    with Cons.IH [OF Cons.prems(1) m(2) 1(2)] Cons.prems(4) ks show ?thesis by simp
  next
    case 2
    then obtain f' where f': "apply_kind (env_now env fresh (length (log_of (tn_server s) fresh)))
        (redact_thread_event_kind (env_redact env) k') f = Inr f'" "forked (env_redact env) (fk_same_root src) q f'" by blast
    from handle_append_ok [OF assms(1) Cons.prems(1) f'(1)] obtain n where n:
      "handle_append_event env fresh k' s = (Inr (), n)"
      "runtime_state fresh n = (Inr (f'\<lparr>st_last_seq := of_nat (length (log_of (tn_server s) fresh)) + 1\<rparr>), n)"
      "tn_runtimes n = tn_runtimes s" by metis
    from f'(2) q(2) have "forked (env_redact env) (fk_same_root src) m
        (f'\<lparr>st_last_seq := of_nat (length (log_of (tn_server s) fresh)) + 1\<rparr>)" by simp
    from Cons.IH [OF n(2) m(2) this, of skipped'] Cons.prems(4) obtain s' g where
      "handle_append_all env fresh (fork_loop src skipped' es) n = (Inr (), s')"
      "runtime_state fresh s' = (Inr g, s')" "forked (env_redact env) (fk_same_root src) p' g"
      "tn_runtimes s' = tn_runtimes n" by auto
    with n(1,3) ks 2(1) show ?thesis by (auto simp: act_bind_def)
  qed
qed

section \<open>Turn starts are unique\<close>

lemma active_was_started:
  assumes "replay es p = Inr p'" and "st_active_turn_id p' = Some t" and "st_active_turn_id p \<noteq> Some t"
  shows "\<exists>e \<in> set es. started_turn (ev_kind e) = Some t"
  using assms
proof (induction es arbitrary: p)
  case (Cons e es)
  then obtain m where m: "apply_event e p = Inr m" "replay es m = Inr p'"
    by (auto simp: rbind_eq_Inr)
  show ?case
  proof (cases "st_active_turn_id m = Some t")
    case True
    with apply_event_turn(1) [OF m(1)] Cons.prems(3) have "started_turn (ev_kind e) = Some t"
      by (auto simp: turn_step_def split: option.splits if_splits)
    then show ?thesis by simp
  next
    case False
    with Cons.IH [OF m(2) Cons.prems(2)] show ?thesis by auto
  qed
qed simp

definition turn_starts :: "thread_event list \<Rightarrow> turn_id list" where
  "turn_starts es =
     concat (map (\<lambda>e. case started_turn (ev_kind e) of None \<Rightarrow> [] | Some t \<Rightarrow> [t]) es)"

lemma set_turn_starts: "t \<in> set (turn_starts es) \<longleftrightarrow> (\<exists>e \<in> set es. started_turn (ev_kind e) = Some t)"
  by (force simp: turn_starts_def split: option.splits)

lemma turn_starts_append: "turn_starts (xs @ ys) = turn_starts xs @ turn_starts ys"
  by (simp add: turn_starts_def)

lemma turn_starts_core: "turn_starts es =
    concat (map (\<lambda>k. case started_turn k of None \<Rightarrow> [] | Some t \<Rightarrow> [t]) (core es))"
proof (induction es)
  case (Cons e es)
  have "is_marker (ev_kind e) \<Longrightarrow> started_turn (ev_kind e) = None" by (cases "ev_kind e") simp_all
  with Cons show ?case by (simp add: turn_starts_def core_def)
qed (simp add: turn_starts_def core_def)

text \<open>The directory of a thread is that of its last creation event.\<close>

fun cwd_kind :: "string option \<Rightarrow> thread_event_kind \<Rightarrow> string option" where
  "cwd_kind cwd (ThreadCreated dir) = Some dir"
| "cwd_kind cwd _ = cwd"

lemma cwd_kinds_same: "(\<And>k. k \<in> set ks \<Longrightarrow> cwd_kind c k = c) \<Longrightarrow> foldl cwd_kind c ks = c"
  by (induction ks) simp_all

lemma replay_cwd: "replay es st = Inr st' \<Longrightarrow> st_cwd st' = foldl cwd_kind (st_cwd st) (core es)"
proof (induction es arbitrary: st)
  case (Cons e es)
  then obtain m where m: "apply_event e st = Inr m" "replay es m = Inr st'" by (auto simp: rbind_eq_Inr)
  from m(1) obtain q where q: "apply_kind (ev_timestamp e) (ev_kind e) st = Inr q" "st_cwd m = st_cwd q"
    by (auto simp: apply_event_Inr)
  have "st_cwd (record_token_usage s r u) = st_cwd s" "st_cwd (apply_config c s) = st_cwd s" for s r u c
    by (simp_all add: record_token_usage_def add_usage_def apply_config_def split: option.split)
  then have "st_cwd m = cwd_kind (st_cwd st) (ev_kind e)"
    using q by (cases "ev_kind e") (auto split: option.splits if_splits)
  moreover have "is_marker (ev_kind e) \<Longrightarrow> cwd_kind c (ev_kind e) = c" for c by (cases "ev_kind e") simp_all
  ultimately show ?case using Cons.IH [OF m(2)] by (simp add: core_def)
qed (simp add: core_def)

text \<open>When no turn is started twice, the open turn of a log is completed nowhere in it.\<close>

lemma open_turn_not_completed:
  assumes "replay es (new_state tid) = Inr st" and "st_active_turn_id st = Some t"
    and "distinct (turn_starts es)" and "e \<in> set es"
  shows "completed_turn (ev_kind e) \<noteq> Some t"
proof
  assume c: "completed_turn (ev_kind e) = Some t"
  obtain xs ys where es: "es = xs @ e # ys" using assms(4) by (meson split_list)
  from rp.run_appendD assms(1) obtain m where m: "replay xs (new_state tid) = Inr m" "replay (e # ys) m = Inr st"
    unfolding es by blast
  then obtain n where n: "apply_event e m = Inr n" "replay ys n = Inr st" by (auto simp: rbind_eq_Inr)
  have "st_active_turn_id m = Some t" by (rule apply_event_turn(3) [OF n(1) c])
  with active_was_started [OF m(1)] have "t \<in> set (turn_starts xs)"
    by (simp add: set_turn_starts new_state_def)
  moreover have "started_turn (ev_kind e) = None" using c by (cases "ev_kind e") simp_all
  then have "st_active_turn_id n = None" using apply_event_turn(1) [OF n(1)] c by (simp add: turn_step_def)
  with active_was_started [OF n(2) assms(2)] have "t \<in> set (turn_starts ys)" by (simp add: set_turn_starts)
  ultimately show False using assms(3) by (auto simp: es turn_starts_def)
qed

section \<open>The handler\<close>

lemma create_log_ok:
  assumes "env_writes env" and "sv_logs (tn_server s) fresh = None"
  obtains s' f where "create_log env fresh cwd s = (Inr (), s')" "runtime_state fresh s' = (Inr f, s')"
    "forked ra b (new_state tid) f" "tn_runtimes s' = tn_runtimes s"
    "\<And>u. u \<noteq> fresh \<Longrightarrow> sv_logs (tn_server s') u = sv_logs (tn_server s) u"
    "sv_loaded (tn_server s') = sv_loaded (tn_server s)"
proof -
  let ?m = "s\<lparr>tn_server := (tn_server s)\<lparr>sv_logs := (sv_logs (tn_server s))(fresh \<mapsto> [])\<rparr>\<rparr>"
  have m: "runtime_state fresh ?m = (Inr (new_state fresh), ?m)" by (simp add: runtime_state_def act_look_def)
  have created: "apply_kind (env_now env fresh (length (log_of (tn_server ?m) fresh)))
      (redact_thread_event_kind (env_redact env) (ThreadCreated cwd)) (new_state fresh) =
      Inr ((new_state fresh)\<lparr>st_cwd := Some (redact_text (env_redact env) cwd)\<rparr>)" by simp
  obtain n where n:
    "handle_append_event env fresh (ThreadCreated cwd) ?m = (Inr (), n)"
    "runtime_state fresh n = (Inr ((new_state fresh)\<lparr>st_cwd := Some (redact_text (env_redact env) cwd),
       st_last_seq := of_nat (length (log_of (tn_server ?m) fresh)) + 1\<rparr>), n)"
    "tn_runtimes n = tn_runtimes ?m" "tn_server n = (tn_server ?m)\<lparr>sv_logs := (sv_logs (tn_server ?m))(fresh \<mapsto>
       log_of (tn_server ?m) fresh @ [next_event env fresh (log_of (tn_server ?m) fresh) (ThreadCreated cwd)])\<rparr>"
    by (rule handle_append_ok [OF assms(1) m created]) simp
  have c: "create_log env fresh cwd s = (Inr (), n)"
    using n(1) assms(2) by (simp add: create_log_def act_map_error_def)
  have f: "forked ra b (new_state tid) ((new_state fresh)\<lparr>st_cwd := Some (redact_text (env_redact env) cwd),
       st_last_seq := of_nat (length (log_of (tn_server ?m) fresh)) + 1\<rparr>)"
    by (simp add: forked_def new_state_def)
  show ?thesis by (rule that [OF c n(2) f]) (use n(3) in \<open>simp_all add: n(4)\<close>)
qed

text \<open>
  The rest of the handler, once it has the state and the roots: what the fork's log and
  runtime are, when no write fails and no event completes the turn that was seen as active.
\<close>

lemma fork_copy:
  fixes src :: fork_source
  assumes "env_writes env" and "sv_logs (tn_server s) fresh = None"
    and "replay es (new_state tid) = Inr st" and "fk_rewrite src = rewrite_thread_config_for_fork a b"
    and "\<And>turn e. fk_active src = Some turn \<Longrightarrow> e \<in> set es \<Longrightarrow> completed_turn (ev_kind e) \<noteq> Some turn"
    and "\<And>turn. fk_active src = Some turn \<Longrightarrow> st_active_turn_id st = Some turn"
  obtains m s' f where "create_log env fresh cwd s = (Inr (), m)"
    "handle_append_all env fresh (fork_kinds src es) m = (Inr (), s')"
    "runtime_state fresh s' = (Inr f, s')" "tn_runtimes s' = tn_runtimes s"
    "forked (env_redact env) (fk_same_root src) (st\<lparr>st_active_turn_id := st_active_turn_id f\<rparr>) f"
    "st_active_turn_id f = (if fk_active src = None then st_active_turn_id st else None)"
proof -
  obtain m g where m: "create_log env fresh cwd s = (Inr (), m)" "runtime_state fresh m = (Inr g, m)"
    "forked (env_redact env) (fk_same_root src) (new_state tid) g" "tn_runtimes m = tn_runtimes s"
    by (rule create_log_ok [OF assms(1,2)])
  from fork_loop_copies [OF assms(1) m(2) assms(3) m(3) assms(4,5), of "{}"] obtain n h where
    n: "handle_append_all env fresh (fork_loop src {} es) m = (Inr (), n)" "runtime_state fresh n = (Inr h, n)"
    "forked (env_redact env) (fk_same_root src) st h" "tn_runtimes n = tn_runtimes m" by blast
  have split: "handle_append_all env fresh (ks @ ls) x = act_bind (handle_append_all env fresh ks) (\<lambda>_. handle_append_all env fresh ls) x"
    for ks ls x
  proof (induction ks arbitrary: x)
    case (Cons k ks)
    then show ?case by (auto simp: act_bind_def split: prod.split sum.split)
  qed (simp add: act_bind_def act_simps)
  show ?thesis
  proof (cases "fk_active src")
    case None
    then have "handle_append_all env fresh (fork_kinds src es) m = (Inr (), n)"
      using n(1) by (simp add: fork_kinds_def split fork_closing_def act_bind_def act_simps)
    moreover have "st_active_turn_id h = st_active_turn_id st" using n(3) by (simp add: forked_def)
    ultimately show ?thesis using that [OF m(1) _ n(2)] n(3,4) m(4) None by simp
  next
    case (Some turn)
    then have active: "st_active_turn_id st = Some turn" "st_active_turn_id h = Some turn"
      using assms(6) n(3) by (simp_all add: forked_def)
    with active_was_started [OF assms(3)] have "\<exists>e \<in> set es. started_turn (ev_kind e) = Some turn"
      by (simp add: new_state_def)
    then have closing: "fork_closing src es = [TurnCompleted turn TurnStatusInterrupted
        (Some ''thread fork snapshots the active turn and closes it'')]"
      using Some by (simp add: fork_closing_def)
    let ?k = "TurnCompleted turn TurnStatusInterrupted (Some ''thread fork snapshots the active turn and closes it'')"
    let ?h = "h\<lparr>st_active_turn_id := None, st_interrupt_requested := False, st_interrupt_reason := None,
        st_last_turn_id := Some turn, st_last_turn_status := Some TurnStatusInterrupted,
        st_last_turn_reason := Some (redact_text (env_redact env) ''thread fork snapshots the active turn and closes it'')\<rparr>"
    have "apply_kind (env_now env fresh (length (log_of (tn_server n) fresh))) (redact_thread_event_kind (env_redact env) ?k) h = Inr ?h"
      using active(2) by simp
    from handle_append_ok [OF assms(1) n(2) this] obtain s' where s':
      "handle_append_event env fresh ?k n = (Inr (), s')"
      "runtime_state fresh s' = (Inr (?h\<lparr>st_last_seq := of_nat (length (log_of (tn_server n) fresh)) + 1\<rparr>), s')"
      "tn_runtimes s' = tn_runtimes n" by metis
    have "handle_append_all env fresh (fork_kinds src es) m = (Inr (), s')"
      using n(1) s'(1) closing by (simp add: fork_kinds_def split act_bind_def act_simps)
    moreover have "forked (env_redact env) (fk_same_root src) (st\<lparr>st_active_turn_id := None\<rparr>)
        (?h\<lparr>st_last_seq := of_nat (length (log_of (tn_server n) fresh)) + 1\<rparr>)"
      using n(3) by (simp add: forked_def)
    ultimately show ?thesis using that [OF m(1) _ s'(2)] s'(3) n(4) m(4) Some by simp
  qed
qed

text \<open>The handler is that copy, when the thread is loaded and the roots resolve.\<close>

definition fork_setup :: "'w tool_env \<Rightarrow> 'w \<Rightarrow> string option \<Rightarrow> thread_state \<Rightarrow> path \<Rightarrow> path \<Rightarrow> bool" where
  "fork_setup tenv w cwd st parent_root root \<longleftrightarrow>
     (\<exists>current. st_cwd st = Some current \<and> resolve_thread_root_from_cwd tenv current w = Inr parent_root) \<and>
     fork_root tenv w cwd parent_root = Inr root"

lemma handle_thread_fork_eq:
  assumes "runs_ok s" and "tn_runtimes s tid = Some rt" and "runtime_state tid s = (Inr st, s)"
    and "fork_setup tenv w cwd st parent_root root" and "sv_logs (tn_server (others s)) tid = Some es"
    and "create_log (te_server tenv) fresh (path_string root) (others s) = (Inr (), m)"
    and "handle_append_all (te_server tenv) fresh (fork_kinds
           \<lparr>fk_active = st_active_turn_id st, fk_same_root = (root = parent_root),
            fk_rewrite = rewrite_thread_config_for_fork parent_root root\<rparr> es) m = (Inr (), n)"
  shows "handle_thread_fork tenv w others fresh tid cwd s = (Inr fresh, snd (register_runtime fresh n))"
proof -
  obtain current where cur: "st_cwd st = Some current" "resolve_thread_root_from_cwd tenv current w = Inr parent_root"
    "fork_root tenv w cwd parent_root = Inr root" using assms(4) by (auto simp: fork_setup_def)
  have read: "read_parent_log tid (others s) = (Inr es, others s)"
    using assms(5) by (simp add: read_parent_log_def act_map_error_def on_threads_def read_log_def)
  have load: "act_map_error ForkTurn (load_runtime (te_server tenv) tid) s = (Inr (), s)"
    by (simp add: act_map_error_def load_runtime_loaded [OF assms(1,2)])
  have look: "act_map_error ForkTurn (runtime_state tid) s = (Inr st, s)"
    using assms(3) by (simp add: act_map_error_def)
  have app: "act_map_error ForkTurn (handle_append_all (te_server tenv) fresh (fork_kinds
           \<lparr>fk_active = st_active_turn_id st, fk_same_root = (root = parent_root),
            fk_rewrite = rewrite_thread_config_for_fork parent_root root\<rparr> es)) m = (Inr (), n)"
    using assms(7) by (simp add: act_map_error_def)
  have mid: "act_map_error ForkTurn (meanwhile others) s = (Inr (), others s)"
    by (simp add: act_map_error_def meanwhile_def)
  show ?thesis
    unfolding handle_thread_fork_def
    by (simp add: load look cur act_bind_def act_simps mid read assms(6) app register_runtime_def)
qed

lemma register_runtime_simps [simp]:
  "tn_runtimes (snd (register_runtime fresh s)) = (tn_runtimes s)(fresh \<mapsto> new_runtime)"
  "sv_logs (tn_server (snd (register_runtime fresh s))) = sv_logs (tn_server s)"
  by (simp_all add: register_runtime_def)

lemma fork_keeps_logs:
  assumes "create_log env fresh cwd s = (Inr (), m)" and "handle_append_all env fresh ks m = (Inr (), n)"
    and "u \<noteq> fresh"
  shows "sv_logs (tn_server n) u = sv_logs (tn_server s) u"
proof -
  from assms(1) have "handle_append_event env fresh (ThreadCreated cwd)
      (s\<lparr>tn_server := (tn_server s)\<lparr>sv_logs := (sv_logs (tn_server s))(fresh \<mapsto> [])\<rparr>\<rparr>) = (Inr (), m)"
    by (auto simp: create_log_def act_map_error_eq split: if_splits)
  from act_withinD [OF touch_handle_append this] act_withinD [OF touch_append_all assms(2)] assms(3)
  show ?thesis by (simp add: touches_def)
qed

lemma loaded_state:
  assumes "runs_ok s" and "tn_runtimes s tid = Some rt"
  obtains st where "runtime_state tid s = (Inr st, s)" "sv_logs (tn_server s) tid = Some (log_of (tn_server s) tid)"
proof -
  from thread_ok_parts(2) [OF runs_okD(2) [OF assms(1)] assms(2)] obtain es where es: "sv_logs (tn_server s) tid = Some es" by auto
  then have "sv_logs (tn_server s) tid = Some (log_of (tn_server s) tid)" by (simp add: log_of_Some)
  moreover obtain st where "runtime_state tid s = (Inr st, s)"
    using runtime_state_ok [OF runs_okD(1) [OF assms(1)], of tid] es by auto
  ultimately show ?thesis by (rule that [rotated])
qed

text \<open>
  C28: a fork of a thread is settled: when nothing else happens to the thread meanwhile, the
  copied events are all accepted, the turn that is open in the original is closed in the copy,
  which is neither archived nor paused and can take a turn, it runs under the same policies,
  and the original is left as it was.
\<close>

theorem fork_is_settled:
  assumes "runs_reach env s0 s" and "boot_state s0" and "env_writes (te_server tenv)"
    and "tn_runtimes s tid = Some rt"
    and "replay (log_of (tn_server s) tid) (new_state tid) = Inr st"
    and "distinct (turn_starts (log_of (tn_server s) tid))"
    and "fork_setup tenv w cwd st parent_root root" and "sv_logs (tn_server s) fresh = None"
  shows "\<exists>s' f. handle_thread_fork tenv w id fresh tid cwd s = (Inr fresh, s') \<and>
    replay (log_of (tn_server s') fresh) (new_state fresh) = Inr f \<and> check_startable f = Inr () \<and>
    st_approval_policy f = st_approval_policy st \<and> st_sandbox_policy f = st_sandbox_policy st \<and>
    st_sandbox_network_access f = st_sandbox_network_access st \<and>
    st_mode f = st_mode st \<and> st_role f = st_role st \<and>
    sv_logs (tn_server s') tid = sv_logs (tn_server s) tid"
proof -
  have ok: "runs_ok s" by (rule runs_reach_ok [OF assms(1,2)])
  obtain st' where st': "runtime_state tid s = (Inr st', s)"
    "sv_logs (tn_server s) tid = Some (log_of (tn_server s) tid)" by (rule loaded_state [OF ok assms(4)])
  with runtime_state_Inr(3) [OF st'(1)] assms(5) have st: "runtime_state tid s = (Inr st, s)" by simp
  let ?src = "\<lparr>fk_active = st_active_turn_id st, fk_same_root = (root = parent_root),
      fk_rewrite = rewrite_thread_config_for_fork parent_root root\<rparr>"
  have src: "fk_rewrite ?src = rewrite_thread_config_for_fork parent_root root" by simp
  have open_turn: "completed_turn (ev_kind e) \<noteq> Some turn"
    if "fk_active ?src = Some turn" "e \<in> set (log_of (tn_server s) tid)" for turn e
    using open_turn_not_completed [OF assms(5) _ assms(6) that(2)] that(1) by simp
  obtain m n f where n: "create_log (te_server tenv) fresh (path_string root) s = (Inr (), m)"
    "handle_append_all (te_server tenv) fresh (fork_kinds ?src (log_of (tn_server s) tid)) m = (Inr (), n)"
    "runtime_state fresh n = (Inr f, n)" "tn_runtimes n = tn_runtimes s"
    "forked (env_redact (te_server tenv)) (fk_same_root ?src) (st\<lparr>st_active_turn_id := st_active_turn_id f\<rparr>) f"
    "st_active_turn_id f = (if fk_active ?src = None then st_active_turn_id st else None)"
    by (rule fork_copy [OF assms(3,8,5) src open_turn]) simp_all
  have "handle_thread_fork tenv w id fresh tid cwd s = (Inr fresh, snd (register_runtime fresh n))"
    by (rule handle_thread_fork_eq [OF ok assms(4) st assms(7)]) (use st'(2) n(1,2) in simp_all)
  moreover have "tid \<noteq> fresh" using assms(8) st'(2) by auto
  then have "sv_logs (tn_server n) tid = sv_logs (tn_server s) tid" by (rule fork_keeps_logs [OF n(1,2)])
  moreover have "replay (log_of (tn_server n) fresh) (new_state fresh) = Inr f" by (rule runtime_state_Inr(3) [OF n(3)])
  moreover have "check_startable f = Inr ()" "st_approval_policy f = st_approval_policy st"
    "st_sandbox_policy f = st_sandbox_policy st" "st_sandbox_network_access f = st_sandbox_network_access st"
    "st_mode f = st_mode st" "st_role f = st_role st"
    using n(5,6) by (auto simp: forked_def check_startable_def)
  ultimately show ?thesis by (auto simp: log_of_def)
qed

text \<open>
  C29: the handler reads the open turn before the log. A turn that starts in between is copied
  as started and never closed: the fork has an open turn that no task runs, so that it refuses
  every new turn, and every interruption of the one it has.
\<close>

theorem fork_may_copy_open_turn:
  assumes "runs_reach env s0 s" and "boot_state s0" and "env_writes (te_server tenv)"
    and "tn_runtimes s tid = Some rt" and "gate_of s tid = (False, False)"
    and "replay (log_of (tn_server s) tid) (new_state tid) = Inr st" and "st_active_turn_id st = None"
    and "checked_request req = Inr req'"
    and "fork_setup tenv w cwd st parent_root root" and "sv_logs (tn_server s) fresh = None"
  shows "\<exists>s'. handle_thread_fork tenv w (\<lambda>m. snd (start_turn (te_server tenv) tid turn req m)) fresh tid cwd s =
      (Inr fresh, s') \<and>
    map_option fst (tv_current (view_of s' fresh)) = Some turn \<and>
    (\<forall>new_turn. start_turn (te_server tenv) fresh new_turn req s' = (Inl TurnAlreadyActive, s')) \<and>
    (\<forall>reason. interrupt_turn (te_server tenv) fresh turn reason s' = (Inl TurnIsNotActive, s'))"
proof -
  have ok: "runs_ok s" by (rule runs_reach_ok [OF assms(1,2)])
  obtain st' where st': "runtime_state tid s = (Inr st', s)"
    "sv_logs (tn_server s) tid = Some (log_of (tn_server s) tid)" by (rule loaded_state [OF ok assms(4)])
  with runtime_state_Inr(3) [OF st'(1)] assms(6) have st: "runtime_state tid s = (Inr st, s)" by simp
  from runtime_state_Inr(2) [OF st] assms(7) have "tv_current (view_of s tid) = None" by (simp add: state_view_def)
  with startable_iff [OF st] assms(5) have free: "check_startable st = Inr ()" by simp
  obtain p where p: "start_turn (te_server tenv) tid turn req s = (Inr turn, p)"
    "view_of p tid = (view_of s tid)\<lparr>tv_current := Some (turn, False)\<rparr>"
    by (rule start_turn_succeeds [OF assms(3,8,4) st free])
  have touched: "touches tid s p" by (rule act_withinD [OF touch_start_turn p(1)])
  have "tid \<noteq> fresh" using assms(10) st'(2) by auto
  then have none: "sv_logs (tn_server p) fresh = None" using touched assms(10) by (simp add: touches_def)
  have "logs_grow (tn_server s) (tn_server p)" "server_ok (tn_server p)"
    using touched runs_okD(1) [OF ok] by (auto simp: touches_def safe_step_def)
  with logs_grow_Some [OF _ st'(2)] obtain es where es1: "sv_logs (tn_server p) tid = Some es" by blast
  then obtain st2 where es: "sv_logs (tn_server p) tid = Some es" "runtime_state tid p = (Inr st2, p)"
    using runtime_state_ok [OF \<open>server_ok (tn_server p)\<close>, of tid] by auto
  have rep: "replay es (new_state tid) = Inr st2"
    using runtime_state_Inr(3) [OF es(2)] es(1) by (simp add: log_of_Some)
  have active: "st_active_turn_id st2 = Some turn"
    using runtime_state_Inr(2) [OF es(2)] p(2) by (cases "st_active_turn_id st2") (simp_all add: state_view_def)
  let ?src = "\<lparr>fk_active = st_active_turn_id st, fk_same_root = (root = parent_root),
      fk_rewrite = rewrite_thread_config_for_fork parent_root root\<rparr>"
  have src: "fk_rewrite ?src = rewrite_thread_config_for_fork parent_root root" by simp
  have none_active: "fk_active ?src \<noteq> Some t" for t using assms(7) by simp
  obtain m n f where n: "create_log (te_server tenv) fresh (path_string root) p = (Inr (), m)"
    "handle_append_all (te_server tenv) fresh (fork_kinds ?src es) m = (Inr (), n)"
    "runtime_state fresh n = (Inr f, n)" "tn_runtimes n = tn_runtimes p"
    "forked (env_redact (te_server tenv)) (fk_same_root ?src) (st2\<lparr>st_active_turn_id := st_active_turn_id f\<rparr>) f"
    "st_active_turn_id f = (if fk_active ?src = None then st_active_turn_id st2 else None)"
    by (rule fork_copy [OF assms(3) none rep src]) (use none_active in auto)
  let ?s' = "snd (register_runtime fresh n)"
  have fork: "handle_thread_fork tenv w (\<lambda>m. snd (start_turn (te_server tenv) tid turn req m)) fresh tid cwd s =
      (Inr fresh, ?s')"
    by (rule handle_thread_fork_eq [OF ok assms(4) st assms(9)]) (use p(1) es(1) n(1,2) in simp_all)
  have f: "st_active_turn_id f = Some turn" using n(6) assms(7) active by simp
  have look: "runtime_state fresh ?s' = (Inr f, ?s')"
    using n(3) by (simp add: runtime_state_def act_look_def register_runtime_def)
  have rt: "runtime_of fresh ?s' = (Inr new_runtime, ?s')" by (simp add: runtime_of_eq)
  have "check_startable f = Inl TurnAlreadyActive" using f n(5) by (simp add: check_startable_def forked_def)
  then have "start_turn (te_server tenv) fresh new_turn req ?s' = (Inl TurnAlreadyActive, ?s')" for new_turn
    by (simp add: start_turn_def act_bind_def act_simps act_map_error_def rt look assms(8))
  moreover have "interrupt_turn (te_server tenv) fresh turn reason ?s' = (Inl TurnIsNotActive, ?s')" for reason
    using f by (simp add: interrupt_turn_def act_bind_def act_simps rt look new_runtime_def)
  moreover have "map_option fst (tv_current (view_of ?s' fresh)) = Some turn"
    using runtime_state_Inr(2) [OF look] f by (simp add: state_view_def)
  ultimately show ?thesis using fork by blast
qed

end
