(* ===== verification/ForkSamples.thy ===== *)
theory ForkSamples
  imports Fork FileSamples
begin

text \<open>Witnesses of the properties of forks: a concrete thread is loaded and forked.\<close>

lemma sample_setup: "st_cwd st = Some ''/w'' \<Longrightarrow>
    fork_setup sample_tools w None st [RootDir, Normal ''w''] [RootDir, Normal ''w'']"
  by (simp add: fork_setup_def fork_root_def resolve_thread_root_from_cwd_def sample_components sample_tools_def
      resolve_dir_def candidate_path_def strip_cur_dir_components_def path_is_absolute_def join_path_def
      sample_fs_def canonicalize_def require_dir_def reject_parent_components_def)

lemma sample_tools_env: "te_server sample_tools = sample_env"
  by (simp add: sample_tools_def)

lemma sample_fork_source:
  obtains s st where "runs_reach sample_env sample_turns s" "tn_runtimes s sample_thread = Some new_runtime"
    "gate_of s sample_thread = (False, False)" "st_active_turn_id st = None"
    "replay (log_of (tn_server s) sample_thread) (new_state sample_thread) = Inr st"
    "distinct (turn_starts (log_of (tn_server s) sample_thread))" "st_cwd st = Some ''/w''"
    "sv_logs (tn_server s) (ThreadId 99) = None"
proof -
  obtain s where s: "runs_reach sample_env sample_turns s" "tn_runtimes s sample_thread = Some new_runtime"
    "view_of s sample_thread = idle_view" "gate_of s sample_thread = (False, False)"
    "\<exists>es st. core (log_of (tn_server s) sample_thread) =
       [ThreadCreated ''/w'', ApprovalRequested (ApprovalId 5) None ''fs/mkdir'' JNull] @
       map (redact_thread_event_kind (env_redact sample_env)) (recovery_events es st)"
    "sv_logs (tn_server s) (ThreadId 99) = None" by (rule sample_loaded)
  then obtain es st0 where core: "core (log_of (tn_server s) sample_thread) =
       [ThreadCreated ''/w'', ApprovalRequested (ApprovalId 5) None ''fs/mkdir'' JNull] @
       map (redact_thread_event_kind (env_redact sample_env)) (recovery_events es st0)" by blast
  have ok: "runs_ok s" by (rule runs_reach_ok [OF s(1) sample_boot])
  obtain st where st: "runtime_state sample_thread s = (Inr st, s)" by (rule loaded_state [OF ok s(2)])
  have "turn_starts (log_of (tn_server s) sample_thread) = []"
    unfolding turn_starts_core core
    by (auto simp: recovery_events_def split: option.splits)
  moreover have "foldl cwd_kind c (map (redact_thread_event_kind ra) (recovery_events es st0)) = c" for c ra
    by (rule cwd_kinds_same) (auto simp: recovery_events_def split: option.splits)
  then have "st_cwd st = Some ''/w''"
    using replay_cwd [OF runtime_state_Inr(3) [OF st]] core by (simp add: new_state_def)
  moreover have "st_active_turn_id st = None"
    using runtime_state_Inr(2) [OF st] s(3) by (simp add: idle_view_def state_view_def)
  ultimately show ?thesis using that [OF s(1,2,4) _ runtime_state_Inr(3) [OF st]] s(6) by simp
qed

theorem fork_is_settled_witness:
  "\<exists>s s' f. runs_reach sample_env sample_turns s \<and>
     handle_thread_fork sample_tools {} id (ThreadId 99) sample_thread None s = (Inr (ThreadId 99), s') \<and>
     replay (log_of (tn_server s') (ThreadId 99)) (new_state (ThreadId 99)) = Inr f \<and> check_startable f = Inr ()"
proof -
  obtain s st where s: "runs_reach sample_env sample_turns s" "tn_runtimes s sample_thread = Some new_runtime"
    "replay (log_of (tn_server s) sample_thread) (new_state sample_thread) = Inr st"
    "distinct (turn_starts (log_of (tn_server s) sample_thread))" "st_cwd st = Some ''/w''"
    "sv_logs (tn_server s) (ThreadId 99) = None" by (rule sample_fork_source)
  from fork_is_settled [where tenv = sample_tools, unfolded sample_tools_env,
      OF s(1) sample_boot sample_env_writes s(2-4) sample_setup [OF s(5)] s(6)] s(1)
  show ?thesis by blast
qed

theorem fork_may_copy_open_turn_witness:
  "\<exists>s s'. runs_reach sample_env sample_turns s \<and>
     handle_thread_fork sample_tools {} (\<lambda>m. snd (start_turn sample_env sample_thread (TurnId 1) sample_turn_request m))
       (ThreadId 99) sample_thread None s = (Inr (ThreadId 99), s') \<and>
     start_turn sample_env (ThreadId 99) (TurnId 2) sample_turn_request s' = (Inl TurnAlreadyActive, s')"
proof -
  obtain s st where s: "runs_reach sample_env sample_turns s" "tn_runtimes s sample_thread = Some new_runtime"
    "gate_of s sample_thread = (False, False)" "st_active_turn_id st = None"
    "replay (log_of (tn_server s) sample_thread) (new_state sample_thread) = Inr st" "st_cwd st = Some ''/w''"
    "sv_logs (tn_server s) (ThreadId 99) = None" by (rule sample_fork_source)
  from fork_may_copy_open_turn [where tenv = sample_tools, unfolded sample_tools_env,
      OF s(1) sample_boot sample_env_writes s(2,3,5,4) sample_checked sample_setup [OF s(6)] s(7)] s(1)
  show ?thesis by blast
qed

end
