(* ===== verification/SpawnPlan.thy ===== *)
theory SpawnPlan
  imports ToolEvents
begin

text \<open>
  What \<open>agent_spawn\<close> makes of its arguments
  (\<open>app-server/src/agent/tools/dispatch/run_tool_call_once.rs\<close>, \<open>prepare_agent_spawn\<close>): the
  defaults, the checks of the tasks, the check that their dependencies are known and without
  cycle (Kahn's algorithm on hash maps), the parameters of the approval and the combination of
  the limits on concurrent subagents.

  The order in which a hash map is iterated is a parameter; \<open>lists_set\<close> says that it lists
  every element once. Kahn's loop has no bound of its own, so it is a \<open>partial_function\<close>, and
  that it returns is part of what is proved.
\<close>

section \<open>Arguments and plans\<close>

datatype spawn_priority = PriorityHigh | PriorityNormal | PriorityLow

datatype spawn_mode = SpawnFork | SpawnNew

datatype spawn_workspace_mode = WorkspaceReadOnly | WorkspaceIsolatedWrite

fun priority_rank :: "spawn_priority \<Rightarrow> nat" where
  "priority_rank PriorityHigh = 0"
| "priority_rank PriorityNormal = 1"
| "priority_rank PriorityLow = 2"

fun spawn_mode_label :: "spawn_mode \<Rightarrow> string" where
  "spawn_mode_label SpawnFork = ''fork''"
| "spawn_mode_label SpawnNew = ''new''"

fun workspace_mode_label :: "spawn_workspace_mode \<Rightarrow> string" where
  "workspace_mode_label WorkspaceReadOnly = ''read_only''"
| "workspace_mode_label WorkspaceIsolatedWrite = ''isolated_write''"

fun priority_label :: "spawn_priority \<Rightarrow> string" where
  "priority_label PriorityHigh = ''high''"
| "priority_label PriorityNormal = ''normal''"
| "priority_label PriorityLow = ''low''"

record spawn_task_args =
  ta_id :: string
  ta_input :: string
  ta_title :: "string option"
  ta_depends_on :: "string list"
  ta_spawn_mode :: "spawn_mode option"
  ta_mode :: "string option"
  ta_workspace_mode :: "spawn_workspace_mode option"
  ta_model :: "string option"
  ta_openai_base_url :: "string option"
  ta_expected_artifact_type :: "string option"
  ta_priority :: "spawn_priority option"

record spawn_args =
  sa_spawn_mode :: "spawn_mode option"
  sa_mode :: "string option"
  sa_workspace_mode :: "spawn_workspace_mode option"
  sa_model :: "string option"
  sa_openai_base_url :: "string option"
  sa_expected_artifact_type :: "string option"
  sa_priority :: "spawn_priority option"
  sa_tasks :: "spawn_task_args list"

record spawn_defaults =
  sd_spawn_mode :: spawn_mode
  sd_mode :: string
  sd_workspace_mode :: spawn_workspace_mode
  sd_priority :: spawn_priority
  sd_model :: "string option"
  sd_openai_base_url :: "string option"
  sd_expected_artifact_type :: string

record spawn_plan =
  pl_id :: string
  pl_title :: string
  pl_input :: string
  pl_depends_on :: "string list"
  pl_priority :: spawn_priority
  pl_spawn_mode :: spawn_mode
  pl_mode :: string
  pl_workspace_mode :: spawn_workspace_mode
  pl_model :: "string option"
  pl_openai_base_url :: "string option"
  pl_expected_artifact_type :: string

record prepared_spawn =
  ps_plans :: "spawn_plan list"
  ps_approval_params :: json
  ps_priority_aging_rounds :: nat

datatype spawn_error =
    TasksEmpty
  | TaskIdEmpty
  | DuplicateTaskId string
  | TaskInputEmpty string
  | DependsOnItself string
  | UnknownDependency string string
  | DependencyCycle

definition opt_or :: "'a option \<Rightarrow> 'a option \<Rightarrow> 'a option" where
  "opt_or a b = (case a of Some x \<Rightarrow> Some x | None \<Rightarrow> b)"

definition unwrap_or :: "'a \<Rightarrow> 'a option \<Rightarrow> 'a" where
  "unwrap_or d a = (case a of Some x \<Rightarrow> x | None \<Rightarrow> d)"

definition normalize_optional_string :: "string option \<Rightarrow> string option" where
  "normalize_optional_string value =
     (case value of
        None \<Rightarrow> None
      | Some v \<Rightarrow> if trim v = [] then None else Some (trim v))"

section \<open>Reading the environment\<close>

text \<open>\<open>str::parse::<usize>\<close>: an optional plus sign, decimal digits, and 64 bits.\<close>

definition digits_value :: "string \<Rightarrow> nat" where
  "digits_value ds = foldl (\<lambda>n c. 10 * n + (char_code c - 48)) 0 ds"

definition parse_usize :: "string \<Rightarrow> nat option" where
  "parse_usize s =
     (let ds = (case strip_prefix ''+'' s of Some r \<Rightarrow> r | None \<Rightarrow> s)
      in if ds \<noteq> [] \<and> list_all is_ascii_digit ds \<and> digits_value ds < 2 ^ 64
         then Some (digits_value ds) else None)"

definition parse_fan_out_priority_aging_rounds_value :: "string option \<Rightarrow> nat" where
  "parse_fan_out_priority_aging_rounds_value raw =
     (case Option.bind raw (\<lambda>value. parse_usize (trim value)) of
        Some value \<Rightarrow> max 1 (min 10000 value)
      | None \<Rightarrow> 3)"

section \<open>The limit on concurrent subagents\<close>

datatype spawn_limit_source = LimitUnlimited | LimitEnv | LimitMode | LimitCombined

fun spawn_limit_source_label :: "spawn_limit_source \<Rightarrow> string" where
  "spawn_limit_source_label LimitUnlimited = ''unlimited''"
| "spawn_limit_source_label LimitEnv = ''env''"
| "spawn_limit_source_label LimitMode = ''mode''"
| "spawn_limit_source_label LimitCombined = ''combined''"

record spawn_limit =
  sl_effective :: nat
  sl_source :: spawn_limit_source

text \<open>Zero stands for no limit.\<close>

definition combine_subagent_spawn_limits :: "nat \<Rightarrow> nat option \<Rightarrow> spawn_limit" where
  "combine_subagent_spawn_limits env_limit mode_limit =
     (let m = unwrap_or 0 mode_limit in
      \<lparr>sl_effective =
         (if env_limit = 0 \<and> m = 0 then 0
          else if env_limit = 0 then m
          else if m = 0 then env_limit
          else min env_limit m),
       sl_source =
         (if env_limit > 0 then if m > 0 then LimitCombined else LimitEnv
          else if m > 0 then LimitMode else LimitUnlimited)\<rparr>)"

section \<open>Kahn's algorithm\<close>

text \<open>The first dependency that is no task, task by task.\<close>

fun first_unknown :: "(string \<Rightarrow> nat option) \<Rightarrow> spawn_plan list \<Rightarrow> (string \<times> string) option" where
  "first_unknown by_id [] = None"
| "first_unknown by_id (t # ts) =
     (case List.find (\<lambda>dep. by_id dep = None) (pl_depends_on t) of
        Some dep \<Rightarrow> Some (dep, pl_id t)
      | None \<Rightarrow> first_unknown by_id ts)"

definition index_by :: "('a \<Rightarrow> string) \<Rightarrow> 'a list \<Rightarrow> string \<Rightarrow> nat option" where
  "index_by key xs = foldl (\<lambda>m (i, x). m(key x \<mapsto> i)) Map.empty (enumerate 0 xs)"

definition add_edge :: "string \<Rightarrow> (string \<Rightarrow> string list option) \<Rightarrow> string \<Rightarrow> string \<Rightarrow> string list option" where
  "add_edge child edges dep = edges(dep \<mapsto> (case edges dep of Some cs \<Rightarrow> cs @ [child] | None \<Rightarrow> [child]))"

definition dep_indegree :: "spawn_plan list \<Rightarrow> string \<Rightarrow> nat option" where
  "dep_indegree plans = foldl (\<lambda>m t. m(pl_id t \<mapsto> length (pl_depends_on t))) Map.empty plans"

definition dep_edges :: "spawn_plan list \<Rightarrow> string \<Rightarrow> string list option" where
  "dep_edges plans = foldl (\<lambda>m t. foldl (add_edge (pl_id t)) m (pl_depends_on t)) Map.empty plans"

text \<open>One child after the other loses a dependency; those that lose the last are queued.\<close>

fun relax :: "string list \<Rightarrow> (string \<Rightarrow> nat option) \<Rightarrow> (string \<Rightarrow> nat option) \<times> string list" where
  "relax [] indegree = (indegree, [])"
| "relax (child # children) indegree =
     (case indegree child of
        None \<Rightarrow> relax children indegree
      | Some degree \<Rightarrow>
          (case relax children (indegree(child \<mapsto> degree - 1)) of
             (indegree', pushed) \<Rightarrow>
               (indegree', if degree - 1 = 0 then child # pushed else pushed)))"

partial_function (option) kahn_loop ::
  "(string \<Rightarrow> string list option) \<Rightarrow> (string \<Rightarrow> nat option) \<Rightarrow> string list \<Rightarrow> nat \<Rightarrow> nat option" where
  "kahn_loop edges indegree queue visited =
     (case queue of
        [] \<Rightarrow> Some visited
      | node # rest \<Rightarrow>
          (case relax (unwrap_or [] (edges node)) indegree of
             (indegree', pushed) \<Rightarrow> kahn_loop edges indegree' (rest @ pushed) (visited + 1)))"

type_synonym set_order = "string set \<Rightarrow> string list"

definition lists_set :: "('a set \<Rightarrow> 'a list) \<Rightarrow> bool" where
  "lists_set order \<longleftrightarrow> (\<forall>A. finite A \<longrightarrow> distinct (order A) \<and> set (order A) = A)"

text \<open>\<open>None\<close> is a loop that does not end.\<close>

definition validate_agent_spawn_dependencies ::
  "set_order \<Rightarrow> spawn_plan list \<Rightarrow> (spawn_error + unit) option" where
  "validate_agent_spawn_dependencies order plans =
     (case first_unknown (index_by pl_id plans) plans of
        Some (dep, task_id) \<Rightarrow> Some (Inl (UnknownDependency dep task_id))
      | None \<Rightarrow>
          (let indegree = dep_indegree plans;
               queue = filter (\<lambda>node. indegree node = Some 0) (order (dom indegree))
           in map_option
                (\<lambda>visited. if visited \<noteq> length plans then Inl DependencyCycle else Inr ())
                (kahn_loop (dep_edges plans) indegree queue 0)))"

section \<open>Preparing the plans\<close>

fun plan_deps :: "string \<Rightarrow> string set \<Rightarrow> string list \<Rightarrow> spawn_error + string list" where
  "plan_deps task seen [] = Inr []"
| "plan_deps task seen (d # ds) =
     (if trim d = [] then plan_deps task seen ds
      else if trim d = task then Inl (DependsOnItself task)
      else if trim d \<in> seen then plan_deps task seen ds
      else rbind (plan_deps task (insert (trim d) seen) ds) (\<lambda>deps. Inr (trim d # deps)))"

definition plan_of :: "spawn_defaults \<Rightarrow> spawn_task_args \<Rightarrow> string list \<Rightarrow> spawn_plan" where
  "plan_of defaults t deps =
     \<lparr>pl_id = trim (ta_id t), pl_title = trim (unwrap_or [] (ta_title t)),
      pl_input = trim (ta_input t), pl_depends_on = deps,
      pl_priority = unwrap_or (sd_priority defaults) (ta_priority t),
      pl_spawn_mode = unwrap_or (sd_spawn_mode defaults) (ta_spawn_mode t),
      pl_mode = unwrap_or (sd_mode defaults) (normalize_optional_string (ta_mode t)),
      pl_workspace_mode = unwrap_or (sd_workspace_mode defaults) (ta_workspace_mode t),
      pl_model = opt_or (normalize_optional_string (ta_model t)) (sd_model defaults),
      pl_openai_base_url =
        opt_or (normalize_optional_string (ta_openai_base_url t)) (sd_openai_base_url defaults),
      pl_expected_artifact_type =
        unwrap_or (sd_expected_artifact_type defaults)
          (normalize_optional_string (ta_expected_artifact_type t))\<rparr>"

fun plan_tasks ::
  "spawn_defaults \<Rightarrow> string set \<Rightarrow> spawn_task_args list \<Rightarrow> spawn_error + spawn_plan list" where
  "plan_tasks defaults seen [] = Inr []"
| "plan_tasks defaults seen (t # ts) =
     (let task = trim (ta_id t) in
      if task = [] then Inl TaskIdEmpty
      else if task \<in> seen then Inl (DuplicateTaskId task)
      else if trim (ta_input t) = [] then Inl (TaskInputEmpty task)
      else rbind (plan_deps task {} (ta_depends_on t)) (\<lambda>deps.
           rbind (plan_tasks defaults (insert task seen) ts) (\<lambda>plans.
             Inr (plan_of defaults t deps # plans))))"

definition spawn_defaults_of :: "spawn_args \<Rightarrow> spawn_defaults" where
  "spawn_defaults_of args =
     \<lparr>sd_spawn_mode = unwrap_or SpawnNew (sa_spawn_mode args),
      sd_mode = unwrap_or ''reviewer'' (normalize_optional_string (sa_mode args)),
      sd_workspace_mode = unwrap_or WorkspaceReadOnly (sa_workspace_mode args),
      sd_priority = unwrap_or PriorityNormal (sa_priority args),
      sd_model = normalize_optional_string (sa_model args),
      sd_openai_base_url = normalize_optional_string (sa_openai_base_url args),
      sd_expected_artifact_type =
        unwrap_or ''fan_out_result'' (normalize_optional_string (sa_expected_artifact_type args))\<rparr>"

text \<open>The characters of a UTF-8 string: a byte below 128 or above 191 starts one.\<close>

definition is_continuation :: "char \<Rightarrow> bool" where
  "is_continuation c \<longleftrightarrow> 128 \<le> char_code c \<and> char_code c < 192"

fun utf8_chars :: "string \<Rightarrow> string list" where
  "utf8_chars [] = []"
| "utf8_chars (c # cs) =
     (case utf8_chars cs of
        [] \<Rightarrow> [[c]]
      | ch # chs \<Rightarrow> (if is_continuation (hd ch) then (c # ch) # chs else [c] # ch # chs))"

definition truncate_chars :: "string \<Rightarrow> nat \<Rightarrow> string" where
  "truncate_chars input max_chars =
     (if length (utf8_chars input) \<le> max_chars then input
      else concat (take max_chars (utf8_chars input)) @ [CHR 0xE2, CHR 0x80, CHR 0xA6])"

definition count_json :: "nat \<Rightarrow> json" where
  "count_json n = nat_json (of_nat n)"

definition task_preview :: "replacer \<Rightarrow> spawn_plan \<Rightarrow> json" where
  "task_preview ra t = JObject
     [(''id'', JString (pl_id t)), (''spawn_mode'', JString (spawn_mode_label (pl_spawn_mode t))),
      (''mode'', JString (pl_mode t)),
      (''workspace_mode'', JString (workspace_mode_label (pl_workspace_mode t))),
      (''priority'', JString (priority_label (pl_priority t))),
      (''depends_on'', JArray (map JString (pl_depends_on t))),
      (''input_chars'', count_json (length (utf8_chars (pl_input t)))),
      (''input_preview'', JString (redact_text ra (truncate_chars (pl_input t) 400)))]"

definition spawn_approval_params ::
  "replacer \<Rightarrow> spawn_defaults \<Rightarrow> nat \<Rightarrow> spawn_plan list \<Rightarrow> json" where
  "spawn_approval_params ra defaults aging plans = JObject
     [(''task_count'', count_json (length plans)), (''tasks'', JArray (map (task_preview ra) plans)),
      (''default_spawn_mode'', JString (spawn_mode_label (sd_spawn_mode defaults))),
      (''default_mode'', JString (sd_mode defaults)),
      (''default_workspace_mode'', JString (workspace_mode_label (sd_workspace_mode defaults))),
      (''default_priority'', JString (priority_label (sd_priority defaults))),
      (''priority_aging_rounds'', count_json aging),
      (''default_expected_artifact_type'', JString (sd_expected_artifact_type defaults)),
      (''model'', opt_json JString (sd_model defaults)),
      (''openai_base_url'', opt_json JString (sd_openai_base_url defaults))]"

definition prepare_agent_spawn ::
  "set_order \<Rightarrow> replacer \<Rightarrow> string option \<Rightarrow> spawn_args \<Rightarrow> (spawn_error + prepared_spawn) option" where
  "prepare_agent_spawn order ra aging_var args =
     (if sa_tasks args = [] then Some (Inl TasksEmpty)
      else
        (let defaults = spawn_defaults_of args in
         case plan_tasks defaults {} (sa_tasks args) of
           Inl e \<Rightarrow> Some (Inl e)
         | Inr plans \<Rightarrow>
             map_option (\<lambda>checked. rbind checked (\<lambda>_.
               (let aging = parse_fan_out_priority_aging_rounds_value aging_var in
                Inr \<lparr>ps_plans = plans,
                     ps_approval_params = spawn_approval_params ra defaults aging plans,
                     ps_priority_aging_rounds = aging\<rparr>)))
               (validate_agent_spawn_dependencies order plans)))"

section \<open>The dependency graph\<close>

text \<open>Plans with an identifier each and no dependency named twice, as \<open>plan_tasks\<close> makes them.\<close>

definition plans_distinct :: "spawn_plan list \<Rightarrow> bool" where
  "plans_distinct plans \<longleftrightarrow> distinct (map pl_id plans) \<and> (\<forall>t \<in> set plans. distinct (pl_depends_on t))"

definition dep_relation :: "spawn_plan list \<Rightarrow> (string \<times> string) set" where
  "dep_relation plans = (\<Union>t \<in> set plans. (\<lambda>d. (d, pl_id t)) ` set (pl_depends_on t))"

lemma finite_dep_relation: "finite (dep_relation plans)"
  by (simp add: dep_relation_def)

lemma dom_index_loop: "dom (foldl (\<lambda>m (i, x). m(key x \<mapsto> i)) m (enumerate n xs)) = dom m \<union> key ` set xs"
  by (induction xs arbitrary: m n) (auto simp: enumerate_simps)

lemma dom_index_by: "dom (index_by key xs) = key ` set xs"
  by (simp add: index_by_def dom_index_loop)

lemma first_unknown_None:
  "first_unknown by_id plans = None \<longleftrightarrow> (\<forall>t \<in> set plans. set (pl_depends_on t) \<subseteq> dom by_id)"
proof (induction plans)
  case (Cons t plans)
  have "List.find (\<lambda>dep. by_id dep = None) (pl_depends_on t) = None \<longleftrightarrow> set (pl_depends_on t) \<subseteq> dom by_id"
    by (auto simp: find_None_iff)
  with Cons show ?case by (auto split: option.splits)
qed simp

lemma foldl_map_update:
  "distinct (map fst (map f xs)) \<Longrightarrow>
   foldl (\<lambda>m x. m(fst (f x) \<mapsto> snd (f x))) m xs = m ++ map_of (map f xs)"
proof (induction xs arbitrary: m)
  case (Cons x xs)
  then have "fst (f x) \<notin> dom (map_of (map f xs))" by (auto simp: dom_map_of_conv_image_fst)
  then have "m(fst (f x) \<mapsto> snd (f x)) ++ map_of (map f xs) =
      (m ++ map_of (map f xs))(fst (f x) \<mapsto> snd (f x))"
    by (rule map_add_upd_left)
  with Cons show ?case by (simp del: fun_upd_apply)
qed simp

lemma dep_indegree_eq:
  assumes "plans_distinct plans"
  shows "dep_indegree plans = map_of (map (\<lambda>t. (pl_id t, length (pl_depends_on t))) plans)"
  using foldl_map_update [of "\<lambda>t. (pl_id t, length (pl_depends_on t))" plans Map.empty] assms
  by (simp add: dep_indegree_def plans_distinct_def comp_def)

definition children_of :: "spawn_plan list \<Rightarrow> string \<Rightarrow> string list" where
  "children_of plans d = concat (map (\<lambda>t. map (\<lambda>_. pl_id t) (filter (\<lambda>x. x = d) (pl_depends_on t))) plans)"

lemma add_edge_view: "unwrap_or [] (add_edge c m dep d) = unwrap_or [] (m d) @ (if dep = d then [c] else [])"
  by (auto simp: add_edge_def unwrap_or_def split: option.splits)

lemma add_edges_view:
  "unwrap_or [] (foldl (add_edge c) m deps d) = unwrap_or [] (m d) @ map (\<lambda>_. c) (filter (\<lambda>x. x = d) deps)"
  by (induction deps arbitrary: m) (auto simp: add_edge_view)

lemma dep_edges_view: "unwrap_or [] (dep_edges plans d) = children_of plans d"
proof -
  have "unwrap_or [] (foldl (\<lambda>m t. foldl (add_edge (pl_id t)) m (pl_depends_on t)) m plans d) =
      unwrap_or [] (m d) @ children_of plans d" for m
    by (induction plans arbitrary: m) (simp_all add: add_edges_view children_of_def)
  then show ?thesis by (simp add: dep_edges_def unwrap_or_def)
qed

lemma set_children_of: "set (children_of plans d) = dep_relation plans `` {d}"
  by (auto simp: children_of_def dep_relation_def)

lemma filter_eq_distinct: "distinct xs \<Longrightarrow> filter (\<lambda>x. x = d) xs = (if d \<in> set xs then [d] else [])"
  by (induction xs) auto

lemma distinct_children_of: "plans_distinct plans \<Longrightarrow> distinct (children_of plans d)"
proof (induction plans)
  case (Cons t plans)
  then have "distinct (children_of plans d)" "pl_id t \<notin> set (children_of plans d)"
    by (auto simp: plans_distinct_def children_of_def)
  with Cons.prems show ?case
    by (auto simp: children_of_def plans_distinct_def filter_eq_distinct)
qed (simp add: children_of_def)

lemma dep_indegree_card:
  assumes "plans_distinct plans" and "x \<in> pl_id ` set plans"
  shows "dep_indegree plans x = Some (card {d. (d, x) \<in> dep_relation plans})"
proof -
  from assms(2) obtain t where t: "t \<in> set plans" "x = pl_id t" by auto
  have "{d. (d, x) \<in> dep_relation plans} = set (pl_depends_on t)"
    using assms(1) t by (auto simp: dep_relation_def plans_distinct_def distinct_map dest: inj_onD)
  moreover have "distinct (pl_depends_on t)" using assms(1) t by (simp add: plans_distinct_def)
  ultimately have "card {d. (d, x) \<in> dep_relation plans} = length (pl_depends_on t)"
    by (simp add: distinct_card)
  moreover have "map_of (map (\<lambda>t. (pl_id t, length (pl_depends_on t))) plans) x = Some (length (pl_depends_on t))"
    using assms(1) t by (auto simp: plans_distinct_def comp_def intro!: map_of_is_SomeI)
  ultimately show ?thesis using assms(1) by (simp add: dep_indegree_eq)
qed

lemma dom_dep_indegree: "dom (dep_indegree plans) = pl_id ` set plans"
proof -
  have "dom (foldl (\<lambda>m t. m(pl_id t \<mapsto> length (pl_depends_on t))) m plans) = dom m \<union> pl_id ` set plans" for m
    by (induction plans arbitrary: m) auto
  then show ?thesis by (simp add: dep_indegree_def)
qed

section \<open>Kahn's loop ends and finds every cycle\<close>

lemma relax_eq:
  assumes "distinct cs" and "\<And>c. c \<in> set cs \<Longrightarrow> \<exists>n. indegree c = Some (Suc n)"
  shows "relax cs indegree =
    (\<lambda>x. if x \<in> set cs then map_option (\<lambda>n. n - 1) (indegree x) else indegree x,
     filter (\<lambda>c. indegree c = Some 1) cs)"
  using assms
proof (induction cs arbitrary: indegree)
  case (Cons c cs)
  then obtain n where n: "indegree c = Some (Suc n)" by auto
  have ih: "relax cs (indegree(c \<mapsto> n)) =
     (\<lambda>x. if x \<in> set cs then map_option (\<lambda>n. n - 1) ((indegree(c \<mapsto> n)) x) else (indegree(c \<mapsto> n)) x,
      filter (\<lambda>d. (indegree(c \<mapsto> n)) d = Some 1) cs)"
    by (rule Cons.IH) (use Cons.prems in auto)
  have "filter (\<lambda>d. (indegree(c \<mapsto> n)) d = Some 1) cs = filter (\<lambda>d. indegree d = Some 1) cs"
    using Cons.prems(1) by (intro filter_cong) auto
  with n Cons.prems(1) show ?case by (auto simp: ih fun_eq_iff)
qed simp

definition kahn_inv ::
  "(string \<times> string) set \<Rightarrow> string set \<Rightarrow> string list \<Rightarrow> string list \<Rightarrow> (string \<Rightarrow> nat option) \<Rightarrow> bool" where
  "kahn_inv G I visited queue indegree \<longleftrightarrow>
     distinct (visited @ queue) \<and> set (visited @ queue) \<subseteq> I \<and>
     (\<forall>x \<in> I. indegree x = Some (card {d. (d, x) \<in> G \<and> d \<notin> set visited})) \<and>
     (\<forall>x \<in> I. x \<in> set (visited @ queue) \<longleftrightarrow> {d. (d, x) \<in> G} \<subseteq> set visited) \<and>
     (\<exists>r. \<forall>x \<in> set visited. r x < length visited \<and> (\<forall>d. (d, x) \<in> G \<longrightarrow> r d < (r x :: nat)))"

lemma kahn_inv_step:
  assumes inv: "kahn_inv G I visited (node # queue) indegree" and G: "finite G" "snd ` G \<subseteq> I"
    and cs: "distinct cs" "set cs = G `` {node}"
    and step: "relax cs indegree = (indegree', pushed)"
  shows "kahn_inv G I (visited @ [node]) (queue @ pushed) indegree'"
proof -
  note I = inv [unfolded kahn_inv_def]
  from I have node: "node \<in> I" "node \<notin> set visited" by auto
  have mem: "x \<in> set (visited @ node # queue) \<Longrightarrow> {d. (d, x) \<in> G} \<subseteq> set visited" for x
    using I by (meson subsetD)
  have fin: "finite {d. (d, x) \<in> G \<and> P d}" for x P
    by (rule finite_subset [of _ "fst ` G"]) (use G(1) in force)+
  have csI: "set cs \<subseteq> I" using cs(2) G(2) by force
  have card_split: "card {d. (d, x) \<in> G \<and> d \<notin> set visited} =
      (if x \<in> set cs then 1 else 0) + card {d. (d, x) \<in> G \<and> d \<notin> set (visited @ [node])}" for x
  proof (cases "x \<in> set cs")
    case True
    then have "{d. (d, x) \<in> G \<and> d \<notin> set visited} = insert node {d. (d, x) \<in> G \<and> d \<notin> set (visited @ [node])}"
      using cs(2) node(2) by auto
    with True fin show ?thesis by simp
  next
    case False
    then have "{d. (d, x) \<in> G \<and> d \<notin> set visited} = {d. (d, x) \<in> G \<and> d \<notin> set (visited @ [node])}"
      using cs(2) by auto
    with False show ?thesis by simp
  qed
  have deg: "x \<in> I \<Longrightarrow> indegree x = Some ((if x \<in> set cs then 1 else 0) +
      card {d. (d, x) \<in> G \<and> d \<notin> set (visited @ [node])})" for x
    using I card_split [of x] by simp
  have relaxed: "indegree' = (\<lambda>x. if x \<in> set cs then map_option (\<lambda>n. n - 1) (indegree x) else indegree x)"
    "pushed = filter (\<lambda>c. indegree c = Some 1) cs"
    using relax_eq [OF cs(1), of indegree] deg csI step by (auto simp: subset_iff)
  have pushed: "set pushed = {x \<in> set cs. {d. (d, x) \<in> G} \<subseteq> set (visited @ [node])}"
  proof -
    have "indegree x = Some 1 \<longleftrightarrow> {d. (d, x) \<in> G} \<subseteq> set (visited @ [node])" if "x \<in> set cs" for x
    proof -
      from that csI deg [of x] have "indegree x = Some (Suc (card {d. (d, x) \<in> G \<and> d \<notin> set (visited @ [node])}))"
        by auto
      then have "indegree x = Some 1 \<longleftrightarrow> card {d. (d, x) \<in> G \<and> d \<notin> set (visited @ [node])} = 0" by simp
      also have "\<dots> \<longleftrightarrow> {d. (d, x) \<in> G \<and> d \<notin> set (visited @ [node])} = {}" by (rule card_0_eq [OF fin])
      finally show ?thesis by auto
    qed
    then show ?thesis using relaxed(2) by auto
  qed
  have new: "x \<notin> set (visited @ node # queue)" if "x \<in> set cs" for x
  proof
    assume "x \<in> set (visited @ node # queue)"
    then have "{d. (d, x) \<in> G} \<subseteq> set visited" by (rule mem)
    with that cs(2) node(2) show False by auto
  qed
  have A: "distinct ((visited @ [node]) @ queue @ pushed)"
    using I new relaxed(2) cs(1) by auto
  have B: "set ((visited @ [node]) @ queue @ pushed) \<subseteq> I" using I csI relaxed(2) by auto
  have C: "\<forall>x \<in> I. indegree' x = Some (card {d. (d, x) \<in> G \<and> d \<notin> set (visited @ [node])})"
    using deg relaxed(1) by simp
  have D: "\<forall>x \<in> I. x \<in> set ((visited @ [node]) @ queue @ pushed) \<longleftrightarrow> {d. (d, x) \<in> G} \<subseteq> set (visited @ [node])"
  proof
    fix x assume x: "x \<in> I"
    show "x \<in> set ((visited @ [node]) @ queue @ pushed) \<longleftrightarrow> {d. (d, x) \<in> G} \<subseteq> set (visited @ [node])"
    proof (cases "x \<in> set cs")
      case True
      with new have "x \<notin> set (visited @ node # queue)" by blast
      with True show ?thesis using pushed by auto
    next
      case False
      then have "{d. (d, x) \<in> G} \<subseteq> set (visited @ [node]) \<longleftrightarrow> {d. (d, x) \<in> G} \<subseteq> set visited"
        using cs(2) by auto
      with False I x show ?thesis using pushed by auto
    qed
  qed
  from I obtain r where r: "\<forall>x \<in> set visited. r x < length visited \<and> (\<forall>d. (d, x) \<in> G \<longrightarrow> r d < (r x :: nat))"
    by blast
  let ?r = "r(node := length visited)"
  have below: "?r d < ?r x" if "x \<in> set (visited @ [node])" "(d, x) \<in> G" for d x
  proof -
    from that mem [of x] have "d \<in> set visited" by auto
    with node(2) r have "?r d = r d" "r d < length visited" by auto
    moreover have "x \<noteq> node \<Longrightarrow> r d < r x" using r that by simp
    ultimately show ?thesis by simp
  qed
  have "?r x < length (visited @ [node])" if "x \<in> set (visited @ [node])" for x
    using that r by (auto intro: less_SucI)
  with below have "\<forall>x \<in> set (visited @ [node]). ?r x < length (visited @ [node]) \<and>
      (\<forall>d. (d, x) \<in> G \<longrightarrow> ?r d < ?r x)" by blast
  then have E: "\<exists>r. \<forall>x \<in> set (visited @ [node]). r x < length (visited @ [node]) \<and> (\<forall>d. (d, x) \<in> G \<longrightarrow> r d < (r x :: nat))"
    by (rule exI [of _ ?r])
  show ?thesis unfolding kahn_inv_def using A B C D E by blast
qed

lemma kahn_loop_ends:
  assumes "kahn_inv G I visited queue indegree" and "finite G" "finite I" "snd ` G \<subseteq> I"
    and "\<And>d. distinct (unwrap_or [] (edges d))" "\<And>d. set (unwrap_or [] (edges d)) = G `` {d}"
  shows "\<exists>visited' indegree'. kahn_loop edges indegree queue (length visited) = Some (length visited') \<and>
    kahn_inv G I visited' [] indegree'"
  using assms(1)
proof (induction "card I - length visited" arbitrary: visited queue indegree rule: less_induct)
  case less
  show ?case
  proof (cases queue)
    case Nil
    with less.prems show ?thesis by (subst kahn_loop.simps) auto
  next
    case (Cons node rest)
    obtain indegree' pushed where step: "relax (unwrap_or [] (edges node)) indegree = (indegree', pushed)"
      by (cases "relax (unwrap_or [] (edges node)) indegree")
    from kahn_inv_step [OF less.prems [unfolded Cons] assms(2,4-6) step]
    have inv: "kahn_inv G I (visited @ [node]) (rest @ pushed) indegree'" .
    from less.prems Cons have "distinct (visited @ [node])" "set (visited @ [node]) \<subseteq> I"
      by (auto simp: kahn_inv_def)
    then have "length (visited @ [node]) \<le> card I"
      by (metis assms(3) card_mono distinct_card)
    then have "card I - length (visited @ [node]) < card I - length visited" by simp
    from less.hyps [OF this inv] step Cons show ?thesis
      by (subst kahn_loop.simps) simp
  qed
qed

text \<open>At the end everything has been visited iff there is no cycle.\<close>

lemma kahn_done:
  assumes "kahn_inv G I visited [] indegree" and "finite G" "fst ` G \<subseteq> I" "snd ` G \<subseteq> I" "finite I"
  shows "length visited = card I \<longleftrightarrow> acyclic G"
proof
  note inv = assms(1) [unfolded kahn_inv_def, simplified]
  assume "length visited = card I"
  with inv assms(5) have all: "set visited = I" by (metis card_subset_eq distinct_card)
  from inv obtain r where "\<forall>x \<in> set visited. \<forall>d. (d, x) \<in> G \<longrightarrow> r d < (r x :: nat)" by blast
  with all assms(4) have "G \<subseteq> measure r" by force
  then show "acyclic G" using wf_acyclic wf_measure wf_subset by blast
next
  note inv = assms(1) [unfolded kahn_inv_def, simplified]
  assume "acyclic G"
  then have "wf G" using assms(2) by (simp add: finite_acyclic_wf)
  have "x \<in> I \<Longrightarrow> x \<in> set visited" for x
  proof (induction x rule: wf_induct_rule [OF \<open>wf G\<close>])
    case (1 x)
    then have "{d. (d, x) \<in> G} \<subseteq> set visited" using assms(3) by force
    with 1(2) inv show ?case by blast
  qed
  with inv have "set visited = I" by auto
  with inv show "length visited = card I" by (metis distinct_card)
qed

lemma validate_correct:
  assumes "plans_distinct plans" and "lists_set order"
  shows "\<exists>r. validate_agent_spawn_dependencies order plans = Some r"
    and "validate_agent_spawn_dependencies order plans = Some (Inr ()) \<longleftrightarrow>
      fst ` dep_relation plans \<subseteq> pl_id ` set plans \<and> acyclic (dep_relation plans)"
proof -
  let ?G = "dep_relation plans" and ?I = "pl_id ` set plans"
  let ?q = "filter (\<lambda>node. dep_indegree plans node = Some 0) (order (dom (dep_indegree plans)))"
  have order: "distinct (order ?I)" "set (order ?I) = ?I" using assms(2) by (simp_all add: lists_set_def)
  have known: "first_unknown (index_by pl_id plans) plans = None \<longleftrightarrow> fst ` ?G \<subseteq> ?I"
  proof -
    have "fst ` ?G = (\<Union>t \<in> set plans. set (pl_depends_on t))" by (force simp: dep_relation_def)
    then show ?thesis by (simp add: first_unknown_None dom_index_by UN_subset_iff)
  qed
  have fin: "finite {d. (d, x) \<in> ?G}" for x
    by (rule finite_subset [of _ "fst ` ?G"]) (use finite_dep_relation in force)+
  have "kahn_inv ?G ?I [] ?q (dep_indegree plans)"
    unfolding kahn_inv_def using order assms(1) fin
    by (auto simp: dom_dep_indegree dep_indegree_card)
  moreover have "snd ` ?G \<subseteq> ?I" by (auto simp: dep_relation_def)
  ultimately obtain visited indegree where
    k: "kahn_loop (dep_edges plans) (dep_indegree plans) ?q 0 = Some (length visited)"
    "kahn_inv ?G ?I visited [] indegree"
    using kahn_loop_ends [of ?G ?I "[]" ?q "dep_indegree plans" "dep_edges plans"]
    by (auto simp: dep_edges_view set_children_of distinct_children_of [OF assms(1)] finite_dep_relation)
  then show "\<exists>r. validate_agent_spawn_dependencies order plans = Some r"
    by (auto simp: validate_agent_spawn_dependencies_def Let_def split: option.splits)
  have card: "card ?I = length plans"
    using assms(1) by (metis distinct_card length_map list.set_map plans_distinct_def)
  show "validate_agent_spawn_dependencies order plans = Some (Inr ()) \<longleftrightarrow>
      fst ` ?G \<subseteq> ?I \<and> acyclic ?G"
  proof (cases "fst ` ?G \<subseteq> ?I")
    case True
    with kahn_done [OF k(2) finite_dep_relation] known k(1) card \<open>snd ` ?G \<subseteq> ?I\<close> show ?thesis
      by (simp add: validate_agent_spawn_dependencies_def Let_def)
  next
    case False
    with known show ?thesis
      by (auto simp: validate_agent_spawn_dependencies_def split: option.splits)
  qed
qed

section \<open>What is accepted\<close>

definition task_deps :: "spawn_task_args \<Rightarrow> string set" where
  "task_deps t = trim ` set (ta_depends_on t) - {[]}"

definition args_relation :: "spawn_args \<Rightarrow> (string \<times> string) set" where
  "args_relation args = (\<Union>t \<in> set (sa_tasks args). (\<lambda>d. (d, trim (ta_id t))) ` task_deps t)"

lemma plan_deps_Inr:
  "plan_deps task seen ds = Inr deps \<longleftrightarrow>
     task \<notin> trim ` set ds - {[]} \<and> deps = push_unique_trimmed seen ds"
  by (induction ds arbitrary: seen deps) (auto simp: rbind_eq_Inr Let_def)

lemma plan_tasks_Inr:
  "plan_tasks defaults seen ts = Inr plans \<longleftrightarrow>
     distinct (map (\<lambda>t. trim (ta_id t)) ts) \<and> (\<lambda>t. trim (ta_id t)) ` set ts \<inter> seen = {} \<and>
     (\<forall>t \<in> set ts. trim (ta_id t) \<noteq> [] \<and> trim (ta_input t) \<noteq> [] \<and> trim (ta_id t) \<notin> task_deps t) \<and>
     plans = map (\<lambda>t. plan_of defaults t (push_unique_trimmed {} (ta_depends_on t))) ts"
  by (induction ts arbitrary: seen plans)
    (auto simp: Let_def rbind_eq_Inr plan_deps_Inr task_deps_def)

lemma set_plan_deps: "set (push_unique_trimmed {} (ta_depends_on t)) = task_deps t"
  by (auto simp: set_push_unique_trimmed task_deps_def)

lemma plan_of_simps [simp]:
  "pl_id (plan_of defaults t deps) = trim (ta_id t)"
  "pl_depends_on (plan_of defaults t deps) = deps"
  by (simp_all add: plan_of_def)

lemma planned:
  assumes "plan_tasks defaults {} (sa_tasks args) = Inr plans"
  shows "plans_distinct plans" "dep_relation plans = args_relation args"
    "map pl_id plans = map (\<lambda>t. trim (ta_id t)) (sa_tasks args)"
proof -
  from assms show ids: "map pl_id plans = map (\<lambda>t. trim (ta_id t)) (sa_tasks args)"
    by (simp add: plan_tasks_Inr comp_def)
  from assms have "distinct (map pl_id plans)" unfolding ids by (simp add: plan_tasks_Inr)
  with assms show "plans_distinct plans"
    by (auto simp: plans_distinct_def plan_tasks_Inr distinct_push_unique_trimmed)
  from assms show "dep_relation plans = args_relation args"
    by (simp add: dep_relation_def args_relation_def plan_tasks_Inr set_plan_deps)
qed

lemma acyclic_no_self: "acyclic (args_relation args) \<Longrightarrow> t \<in> set (sa_tasks args) \<Longrightarrow> trim (ta_id t) \<notin> task_deps t"
  by (auto simp: acyclic_def args_relation_def)

lemma prepare_returns:
  assumes "lists_set order"
  shows "\<exists>r. prepare_agent_spawn order ra v args = Some r"
proof (cases "plan_tasks (spawn_defaults_of args) {} (sa_tasks args)")
  case (Inr plans)
  with validate_correct(1) [OF planned(1) [OF Inr] assms] show ?thesis
    by (auto simp: prepare_agent_spawn_def)
qed (simp add: prepare_agent_spawn_def)

lemma prepare_Inr:
  assumes "lists_set order"
  shows "prepare_agent_spawn order ra v args = Some (Inr p) \<longleftrightarrow>
    sa_tasks args \<noteq> [] \<and>
    (\<exists>plans. plan_tasks (spawn_defaults_of args) {} (sa_tasks args) = Inr plans \<and>
       fst ` dep_relation plans \<subseteq> pl_id ` set plans \<and> acyclic (dep_relation plans) \<and>
       p = \<lparr>ps_plans = plans,
            ps_approval_params = spawn_approval_params ra (spawn_defaults_of args)
              (parse_fan_out_priority_aging_rounds_value v) plans,
            ps_priority_aging_rounds = parse_fan_out_priority_aging_rounds_value v\<rparr>)"
proof (cases "plan_tasks (spawn_defaults_of args) {} (sa_tasks args)")
  case (Inr plans)
  note valid = validate_correct [OF planned(1) [OF Inr] assms]
  from valid(1) obtain r where "validate_agent_spawn_dependencies order plans = Some r" by blast
  with valid(2) Inr show ?thesis
    by (cases r) (auto simp: prepare_agent_spawn_def Let_def)
qed (auto simp: prepare_agent_spawn_def)

lemma prepare_accepts:
  assumes "lists_set order" and r: "prepare_agent_spawn order ra v args = Some r"
  shows "(\<exists>p. r = Inr p) \<longleftrightarrow> sa_tasks args \<noteq> [] \<and>
    (\<exists>plans. plan_tasks (spawn_defaults_of args) {} (sa_tasks args) = Inr plans) \<and>
    (\<forall>t \<in> set (sa_tasks args). task_deps t \<subseteq> (\<lambda>t. trim (ta_id t)) ` set (sa_tasks args)) \<and>
    acyclic (args_relation args)"
proof -
  have "fst ` dep_relation plans \<subseteq> pl_id ` set plans \<longleftrightarrow>
      (\<forall>t \<in> set (sa_tasks args). task_deps t \<subseteq> (\<lambda>t. trim (ta_id t)) ` set (sa_tasks args))"
    if p: "plan_tasks (spawn_defaults_of args) {} (sa_tasks args) = Inr plans" for plans
  proof -
    have "pl_id ` set plans = (\<lambda>t. trim (ta_id t)) ` set (sa_tasks args)"
      using planned(3) [OF p] by (metis (mono_tags, lifting) list.set_map)
    moreover have "fst ` args_relation args \<subseteq> I \<longleftrightarrow> (\<forall>t \<in> set (sa_tasks args). task_deps t \<subseteq> I)" for I
      by (force simp: args_relation_def)
    ultimately show ?thesis using planned(2) [OF p] by simp
  qed
  with prepare_Inr [OF assms(1), of ra v args] planned(2) r show ?thesis
    by (metis option.inject)
qed

text \<open>C23: \<open>agent_spawn\<close> accepts its tasks exactly when there are some, their trimmed identifiers
  are distinct and not empty, every input is more than white space, and the dependencies are
  tasks and have no cycle, whatever the order in which hash maps are iterated; the plans then
  have these tasks and these dependencies. Kahn's loop always returns.\<close>

theorem spawn_accepted_iff:
  assumes "lists_set order"
  shows "\<exists>r. prepare_agent_spawn order ra aging_var args = Some r \<and>
    ((\<exists>p. r = Inr p) \<longleftrightarrow>
       sa_tasks args \<noteq> [] \<and> distinct (map (\<lambda>t. trim (ta_id t)) (sa_tasks args)) \<and>
       (\<forall>t \<in> set (sa_tasks args). trim (ta_id t) \<noteq> [] \<and> trim (ta_input t) \<noteq> [] \<and>
          task_deps t \<subseteq> (\<lambda>t. trim (ta_id t)) ` set (sa_tasks args)) \<and>
       acyclic (args_relation args)) \<and>
    (\<forall>p. r = Inr p \<longrightarrow>
       map pl_id (ps_plans p) = map (\<lambda>t. trim (ta_id t)) (sa_tasks args) \<and>
       dep_relation (ps_plans p) = args_relation args)"
proof -
  obtain r where r: "prepare_agent_spawn order ra aging_var args = Some r"
    using prepare_returns [OF assms] by blast
  have "map pl_id (ps_plans p) = map (\<lambda>t. trim (ta_id t)) (sa_tasks args) \<and>
       dep_relation (ps_plans p) = args_relation args" if "r = Inr p" for p
    using r that prepare_Inr [OF assms] planned by fastforce
  moreover have "(\<exists>plans. plan_tasks (spawn_defaults_of args) {} (sa_tasks args) = Inr plans) \<longleftrightarrow>
      distinct (map (\<lambda>t. trim (ta_id t)) (sa_tasks args)) \<and>
      (\<forall>t \<in> set (sa_tasks args). trim (ta_id t) \<noteq> [] \<and> trim (ta_input t) \<noteq> [] \<and> trim (ta_id t) \<notin> task_deps t)"
    by (simp add: plan_tasks_Inr)
  ultimately show ?thesis
    using r prepare_accepts [OF assms r] acyclic_no_self [of args] by blast
qed

definition sample_spawn_task :: "string \<Rightarrow> string list \<Rightarrow> spawn_task_args" where
  "sample_spawn_task i deps =
     \<lparr>ta_id = i, ta_input = ''work'', ta_title = None, ta_depends_on = deps, ta_spawn_mode = None,
      ta_mode = None, ta_workspace_mode = None, ta_model = None, ta_openai_base_url = None,
      ta_expected_artifact_type = None, ta_priority = None\<rparr>"

definition sample_spawn :: "spawn_task_args list \<Rightarrow> spawn_args" where
  "sample_spawn tasks =
     \<lparr>sa_spawn_mode = None, sa_mode = None, sa_workspace_mode = None, sa_model = None,
      sa_openai_base_url = None, sa_expected_artifact_type = None, sa_priority = None,
      sa_tasks = tasks\<rparr>"

lemma lists_sorted: "lists_set (sorted_list_of_set :: string set \<Rightarrow> string list)"
  by (simp add: lists_set_def)

theorem spawn_accepted_iff_witness:
  "(\<forall>ra. \<exists>p. prepare_agent_spawn sorted_list_of_set ra None
      (sample_spawn [sample_spawn_task ''a'' [], sample_spawn_task ''b'' [''a'']]) = Some (Inr p)) \<and>
   (\<forall>ra. \<exists>e. prepare_agent_spawn sorted_list_of_set ra None
      (sample_spawn [sample_spawn_task ''a'' [''b''], sample_spawn_task ''b'' [''a'']]) = Some (Inl e))"
proof -
  let ?ok = "sample_spawn [sample_spawn_task ''a'' [], sample_spawn_task ''b'' [''a'']]"
  let ?bad = "sample_spawn [sample_spawn_task ''a'' [''b''], sample_spawn_task ''b'' [''a'']]"
  have trims: "trim ''a'' = ''a''" "trim ''b'' = ''b''" "trim ''work'' = ''work''" by code_simp+
  have ok: "args_relation ?ok = {(''a'', ''b'')}" "args_relation ?bad = {(''b'', ''a''), (''a'', ''b'')}"
    by (auto simp: args_relation_def task_deps_def sample_spawn_def sample_spawn_task_def trims)
  have "acyclic (args_relation ?ok)"
    by (simp add: ok acyclic_insert) (simp add: acyclic_def)
  moreover have "\<not> acyclic (args_relation ?bad)"
  proof -
    have "(''a'', ''b'') \<in> args_relation ?bad" "(''b'', ''a'') \<in> args_relation ?bad" by (simp_all add: ok)
    then have "(''a'', ''a'') \<in> (args_relation ?bad)\<^sup>+" by (meson r_into_trancl' trancl_into_trancl)
    then show ?thesis by (auto simp: acyclic_def)
  qed
  moreover have "sa_tasks ?ok = [sample_spawn_task ''a'' [], sample_spawn_task ''b'' [''a'']]"
    "\<And>i deps. ta_id (sample_spawn_task i deps) = i" "\<And>i deps. ta_input (sample_spawn_task i deps) = ''work''"
    "task_deps (sample_spawn_task ''a'' []) = {}" "task_deps (sample_spawn_task ''b'' [''a'']) = {''a''}"
    by (simp_all add: sample_spawn_def sample_spawn_task_def task_deps_def trims)
  note facts = calculation this
  have "\<exists>p. prepare_agent_spawn sorted_list_of_set ra None ?ok = Some (Inr p)" for ra
  proof -
    from spawn_accepted_iff [OF lists_sorted, of ra None ?ok] obtain r where
      "prepare_agent_spawn sorted_list_of_set ra None ?ok = Some r" and "\<exists>p. r = Inr p"
      using facts by (auto simp: trims)
    then show ?thesis by auto
  qed
  moreover have "\<exists>e. prepare_agent_spawn sorted_list_of_set ra None ?bad = Some (Inl e)" for ra
  proof -
    from spawn_accepted_iff [OF lists_sorted, of ra None ?bad] obtain r where
      "prepare_agent_spawn sorted_list_of_set ra None ?bad = Some r" and "\<not> (\<exists>p. r = Inr p)"
      using facts by blast
    then show ?thesis by (metis sumE)
  qed
  ultimately show ?thesis by blast
qed

end
