(* ===== verification/Schedule.thy ===== *)
theory Schedule
  imports SpawnPlan TurnRuns
begin

text \<open>
  The schedule of the subagents one \<open>agent_spawn\<close> started
  (\<open>app-server/src/agent/tools/dispatch/subagents_schedule.rs\<close>): which task may run, which one
  is picked, what a finished turn means for the tasks that depend on it, and the limit on
  concurrent subagents. The hash maps are finite maps and a \<open>HashSet\<close> a finite set;
  \<open>len\<close> is the cardinality of the domain. Hooks and the artifacts that summarise the tasks
  only report and are not modelled, and neither are the two maps of the schedule they use.
\<close>

section \<open>State\<close>

datatype task_status = TaskPending | TaskRunning | TaskCompleted | TaskFailed

record spawn_task =
  tk_id :: string
  tk_title :: string
  tk_input :: string
  tk_depends_on :: "string list"
  tk_priority :: spawn_priority
  tk_spawn_mode :: spawn_mode
  tk_mode :: string
  tk_workspace_mode :: spawn_workspace_mode
  tk_model :: "string option"
  tk_openai_base_url :: "string option"
  tk_expected_artifact_type :: string
  tk_workspace_cwd :: "string option"
  tk_thread_id :: thread_id
  tk_log_path :: string
  tk_last_seq :: event_seq
  tk_turn_id :: "turn_id option"
  tk_status :: task_status
  tk_error :: "string option"

record approval_key =
  ak_thread_id :: thread_id
  ak_approval_id :: approval_id

record subagent_pending_approval =
  pa_action :: string
  pa_approval_id :: approval_id
  pa_summary :: string
  pa_child_turn_id :: turn_id
  pa_child_approval_id :: approval_id
  pa_child_action :: string

record schedule =
  sc_parent_thread_id :: thread_id
  sc_tasks :: "spawn_task list"
  sc_by_id :: "string \<Rightarrow> nat option"
  sc_task_statuses :: "string \<Rightarrow> turn_status option"
  sc_ready_wait_rounds :: "string \<Rightarrow> nat option"
  sc_running_by_thread :: "thread_id \<Rightarrow> (string \<times> turn_id) option"
  sc_approval_proxy_by_child :: "approval_key \<Rightarrow> approval_id option"
  sc_approval_proxy_targets :: "approval_id \<Rightarrow> approval_key option"
  sc_pending_approvals :: "approval_key \<Rightarrow> subagent_pending_approval option"
  sc_env_max_concurrent :: nat
  sc_external_active :: "thread_id set"
  sc_max_concurrent :: nat
  sc_priority_aging_rounds :: nat

text \<open>\<open>HashMap::len\<close>.\<close>

definition map_len :: "('k \<Rightarrow> 'v option) \<Rightarrow> nat" where
  "map_len m = card (dom m)"

fun note_status ::
  "(string \<Rightarrow> turn_status option) \<times> (thread_id \<Rightarrow> (string \<times> turn_id) option) \<Rightarrow> spawn_task \<Rightarrow>
     (string \<Rightarrow> turn_status option) \<times> (thread_id \<Rightarrow> (string \<times> turn_id) option)" where
  "note_status (statuses, running) t =
     (case tk_status t of
        TaskCompleted \<Rightarrow> (statuses(tk_id t \<mapsto> TurnStatusCompleted), running)
      | TaskFailed \<Rightarrow> (statuses(tk_id t \<mapsto> TurnStatusFailed), running)
      | TaskRunning \<Rightarrow>
          (case tk_turn_id t of
             Some turn \<Rightarrow> (statuses, running(tk_thread_id t \<mapsto> (tk_id t, turn)))
           | None \<Rightarrow> (statuses, running))
      | TaskPending \<Rightarrow> (statuses, running))"

definition new_schedule ::
  "thread_id \<Rightarrow> spawn_task list \<Rightarrow> thread_id set \<Rightarrow> nat \<Rightarrow> nat \<Rightarrow> schedule" where
  "new_schedule parent tasks external max_concurrent aging =
     (case foldl note_status (Map.empty, Map.empty) tasks of
        (statuses, running) \<Rightarrow>
          \<lparr>sc_parent_thread_id = parent, sc_tasks = tasks, sc_by_id = index_by tk_id tasks,
           sc_task_statuses = statuses, sc_ready_wait_rounds = Map.empty,
           sc_running_by_thread = running, sc_approval_proxy_by_child = Map.empty,
           sc_approval_proxy_targets = Map.empty, sc_pending_approvals = Map.empty,
           sc_env_max_concurrent = max_concurrent, sc_external_active = external,
           sc_max_concurrent = max_concurrent, sc_priority_aging_rounds = max aging 1\<rparr>)"

definition set_env_max_concurrent_subagents :: "nat \<Rightarrow> schedule \<Rightarrow> schedule" where
  "set_env_max_concurrent_subagents n sc = sc\<lparr>sc_env_max_concurrent := n\<rparr>"

definition schedule_done :: "schedule \<Rightarrow> bool" where
  "schedule_done sc \<longleftrightarrow> length (sc_tasks sc) \<le> map_len (sc_task_statuses sc)"

definition available_slots :: "schedule \<Rightarrow> nat" where
  "available_slots sc =
     (if sc_max_concurrent sc = 0 then 2 ^ 64 - 1
      else sc_max_concurrent sc - (map_len (sc_running_by_thread sc) + card (sc_external_active sc)))"

definition update_task :: "nat \<Rightarrow> (spawn_task \<Rightarrow> spawn_task) \<Rightarrow> schedule \<Rightarrow> schedule" where
  "update_task i f sc = sc\<lparr>sc_tasks := (sc_tasks sc)[i := f (sc_tasks sc ! i)]\<rparr>"

definition note_task_status :: "string \<Rightarrow> turn_status \<Rightarrow> schedule \<Rightarrow> schedule" where
  "note_task_status task status sc =
     sc\<lparr>sc_task_statuses := (sc_task_statuses sc)(task \<mapsto> status)\<rparr>"

section \<open>Tasks whose dependencies failed\<close>

fun show_turn_status :: "turn_status \<Rightarrow> string" where
  "show_turn_status TurnStatusCompleted = ''Completed''"
| "show_turn_status TurnStatusInterrupted = ''Interrupted''"
| "show_turn_status TurnStatusFailed = ''Failed''"
| "show_turn_status TurnStatusCancelled = ''Cancelled''"
| "show_turn_status TurnStatusStuck = ''Stuck''"

fun blocker_of :: "(string \<Rightarrow> turn_status option) \<Rightarrow> string list \<Rightarrow> (string \<times> turn_status) option" where
  "blocker_of statuses [] = None"
| "blocker_of statuses (dep # deps) =
     (case statuses dep of
        Some status \<Rightarrow>
          if status \<noteq> TurnStatusCompleted then Some (dep, status) else blocker_of statuses deps
      | None \<Rightarrow> blocker_of statuses deps)"

text \<open>The body of the loop over the tasks, with whether it changed anything.\<close>

definition mark_task :: "nat \<Rightarrow> schedule \<Rightarrow> bool \<times> schedule" where
  "mark_task i sc =
     (if tk_status (sc_tasks sc ! i) \<noteq> TaskPending then (False, sc)
      else
        (case blocker_of (sc_task_statuses sc) (tk_depends_on (sc_tasks sc ! i)) of
           None \<Rightarrow> (False, sc)
         | Some (dep, status) \<Rightarrow>
             (True, note_task_status (tk_id (sc_tasks sc ! i)) TurnStatusCancelled
                (update_task i (\<lambda>t. t\<lparr>tk_status := TaskFailed, tk_error := Some
                   (''blocked by dependency: '' @ dep @ '' status='' @ show_turn_status status)\<rparr>) sc))))"

fun mark_pass :: "nat list \<Rightarrow> schedule \<Rightarrow> bool \<times> schedule" where
  "mark_pass [] sc = (False, sc)"
| "mark_pass (i # is) sc =
     (case mark_task i sc of (changed, sc') \<Rightarrow>
      case mark_pass is sc' of (changed', sc'') \<Rightarrow> (changed \<or> changed', sc''))"

definition pending_tasks :: "schedule \<Rightarrow> nat" where
  "pending_tasks sc = length (filter (\<lambda>t. tk_status t = TaskPending) (sc_tasks sc))"

lemma filter_update_less:
  "i < length xs \<Longrightarrow> P (xs ! i) \<Longrightarrow> \<not> P y \<Longrightarrow> Suc (length (filter P (xs[i := y]))) = length (filter P xs)"
  by (induction xs arbitrary: i) (auto split: nat.splits simp: nth_Cons)

lemma mark_task_pending:
  "i < length (sc_tasks sc) \<Longrightarrow> mark_task i sc = (changed, sc') \<Longrightarrow>
   length (sc_tasks sc') = length (sc_tasks sc) \<and>
   (if changed then Suc (pending_tasks sc') = pending_tasks sc else sc' = sc)"
  by (auto simp: mark_task_def pending_tasks_def note_task_status_def update_task_def
      filter_update_less split: if_splits option.splits)

lemma mark_pass_pending:
  assumes "mark_pass is sc = (changed, sc')" and "\<forall>i \<in> set is. i < length (sc_tasks sc)"
  shows "length (sc_tasks sc') = length (sc_tasks sc) \<and>
    (if changed then pending_tasks sc' < pending_tasks sc else sc' = sc)"
  using assms
proof (induction "is" arbitrary: sc changed sc')
  case (Cons i js)
  obtain c m where m: "mark_task i sc = (c, m)" by fastforce
  obtain d n where n: "mark_pass js m = (d, n)" by fastforce
  have i: "i < length (sc_tasks sc)" using Cons.prems(2) by simp
  note 1 = mark_task_pending [OF i m]
  then have "\<forall>k \<in> set js. k < length (sc_tasks m)" using Cons.prems(2) by simp
  note 2 = Cons.IH [OF n this]
  from Cons.prems(1) m n have "changed = (c \<or> d)" "sc' = n'" if "n = n'" for n' using that by auto
  with 1 2 show ?case by (cases c; cases d) auto
qed simp

lemma mark_pass_less:
  "(True, sc') = mark_pass [0..<length (sc_tasks sc)] sc \<Longrightarrow> pending_tasks sc' < pending_tasks sc"
  using mark_pass_pending [of "[0..<length (sc_tasks sc)]" sc True sc'] by auto

function mark_dependency_blocked_tasks :: "schedule \<Rightarrow> schedule" where
  "mark_dependency_blocked_tasks sc =
     (case mark_pass [0..<length (sc_tasks sc)] sc of
        (changed, sc') \<Rightarrow> if changed then mark_dependency_blocked_tasks sc' else sc')"
  by auto
termination
  by (relation "measure pending_tasks") (auto intro: mark_pass_less)

declare mark_dependency_blocked_tasks.simps [simp del]

section \<open>Picking a task\<close>

definition is_ready_task :: "schedule \<Rightarrow> spawn_task \<Rightarrow> bool" where
  "is_ready_task sc t \<longleftrightarrow> tk_status t = TaskPending \<and>
     list_all (\<lambda>dep. sc_task_statuses sc dep = Some TurnStatusCompleted) (tk_depends_on t)"

definition ready_ids :: "schedule \<Rightarrow> string set" where
  "ready_ids sc = tk_id ` set (filter (is_ready_task sc) (sc_tasks sc))"

definition update_ready_wait_rounds :: "schedule \<Rightarrow> schedule" where
  "update_ready_wait_rounds sc =
     sc\<lparr>sc_ready_wait_rounds := (\<lambda>task.
          if task \<in> ready_ids sc then Some (unwrap_or 0 (sc_ready_wait_rounds sc task) + 1) else None)\<rparr>"

definition aged_priority_rank :: "schedule \<Rightarrow> spawn_task \<Rightarrow> nat" where
  "aged_priority_rank sc t =
     priority_rank (tk_priority t) -
       unwrap_or 0 (sc_ready_wait_rounds sc (tk_id t)) div sc_priority_aging_rounds sc"

text \<open>\<open>min_by_key\<close> with the pair of the rank and the index; the first minimal element.\<close>

fun min_by_rank :: "(nat \<Rightarrow> nat) \<Rightarrow> nat list \<Rightarrow> nat option" where
  "min_by_rank rank [] = None"
| "min_by_rank rank (i # is) =
     (case min_by_rank rank is of
        None \<Rightarrow> Some i
      | Some j \<Rightarrow> if rank j < rank i \<or> (rank j = rank i \<and> j < i) then Some j else Some i)"

definition pick_next_ready_task_index :: "schedule \<Rightarrow> nat option" where
  "pick_next_ready_task_index sc =
     min_by_rank (\<lambda>i. aged_priority_rank sc (sc_tasks sc ! i))
       (filter (\<lambda>i. is_ready_task sc (sc_tasks sc ! i)) [0..<length (sc_tasks sc)])"

section \<open>Starting tasks\<close>

text \<open>
  What starts a task's turn is an argument of the loop: \<open>start t s\<close> gives the turn or the
  text of the error.
\<close>

type_synonym 's task_starter = "spawn_task \<Rightarrow> 's \<Rightarrow> (string + turn_id) \<times> 's"

definition start_task :: "'s task_starter \<Rightarrow> nat \<Rightarrow> schedule \<Rightarrow> 's \<Rightarrow> bool \<times> schedule \<times> 's" where
  "start_task start i sc s =
     (let task = tk_id (sc_tasks sc ! i);
          sc' = sc\<lparr>sc_ready_wait_rounds := (sc_ready_wait_rounds sc)(task := None)\<rparr>
      in case start (sc_tasks sc ! i) s of
           (Inr turn, s') \<Rightarrow>
             (True,
              (update_task i (\<lambda>t. t\<lparr>tk_turn_id := Some turn, tk_status := TaskRunning\<rparr>) sc')
                \<lparr>sc_running_by_thread :=
                   (sc_running_by_thread sc')(tk_thread_id (sc_tasks sc ! i) \<mapsto> (task, turn))\<rparr>, s')
         | (Inl err, s') \<Rightarrow>
             (False,
              note_task_status task TurnStatusFailed
                (update_task i (\<lambda>t. t\<lparr>tk_status := TaskFailed, tk_error := Some err\<rparr>) sc'), s'))"

lemma min_by_rank_Some: "min_by_rank rank xs = Some i \<Longrightarrow> i \<in> set xs"
  by (induction xs arbitrary: i) (auto split: option.splits if_splits)

lemma picked_ready:
  "pick_next_ready_task_index sc = Some i \<Longrightarrow>
   i < length (sc_tasks sc) \<and> is_ready_task sc (sc_tasks sc ! i)"
  by (auto simp: pick_next_ready_task_index_def dest: min_by_rank_Some)

lemma start_task_pending:
  assumes "pick_next_ready_task_index sc = Some i" and "start_task start i sc s = (ok, sc', s')"
  shows "Suc (pending_tasks sc') = pending_tasks sc"
  using picked_ready [OF assms(1)] assms(2)
  by (auto simp: start_task_def pending_tasks_def note_task_status_def update_task_def Let_def
      is_ready_task_def filter_update_less split: sum.splits prod.splits)

lemma start_task_less:
  "pick_next_ready_task_index sc = Some i \<Longrightarrow> (ok, sc', s') = start_task start i sc s \<Longrightarrow>
   pending_tasks sc' < pending_tasks sc"
  using start_task_pending [of sc i start s ok sc' s'] by simp

function start_loop :: "'s task_starter \<Rightarrow> nat \<Rightarrow> schedule \<Rightarrow> 's \<Rightarrow> schedule \<times> 's" where
  "start_loop start available sc s =
     (case pick_next_ready_task_index sc of
        None \<Rightarrow> (sc, s)
      | Some i \<Rightarrow>
          if available = 0 then (sc, s)
          else
            (case start_task start i sc s of
               (started, sc', s') \<Rightarrow>
                 start_loop start (if started then available - 1 else available) sc' s'))"
  by auto
termination
  by (relation "measure (\<lambda>(start, available, sc, s). pending_tasks sc)") (auto intro: start_task_less)

declare start_loop.simps [simp del]

definition start_ready_tasks_with :: "'s task_starter \<Rightarrow> schedule \<Rightarrow> 's \<Rightarrow> schedule \<times> 's" where
  "start_ready_tasks_with start sc s =
     (let sc1 = update_ready_wait_rounds (mark_dependency_blocked_tasks sc) in
      if available_slots sc1 = 0 then (sc1, s)
      else (case start_loop start (available_slots sc1) sc1 s of
              (sc2, s') \<Rightarrow> (mark_dependency_blocked_tasks sc2, s')))"

text \<open>
  The start of a subagent's turn. \<open>turn\<close> is the identifier \<open>TurnId::new\<close> gives for the task:
  the schedule starts a task at most once. An isolated task loads the thread of the parent for
  its working directory, and goes on when that fails.
\<close>

definition background_request :: "string \<Rightarrow> turn_request" where
  "background_request input =
     \<lparr>tr_input = input, tr_context_refs = None, tr_attachments = None, tr_directives = None,
      tr_priority = Background\<rparr>"

definition start_subagent_turn ::
  "server_env \<Rightarrow> thread_id \<Rightarrow> (string \<Rightarrow> turn_id) \<Rightarrow> spawn_task \<Rightarrow> turn_id turn_action" where
  "start_subagent_turn env parent fresh t =
     act_bind (load_runtime env (tk_thread_id t)) (\<lambda>_.
     act_bind (start_turn env (tk_thread_id t) (fresh (tk_id t)) (background_request (tk_input t))) (\<lambda>turn.
     if tk_workspace_mode t = WorkspaceIsolatedWrite
     then act_bind (act_attempt (load_runtime env parent)) (\<lambda>loaded.
            case loaded of Inl (_ :: turn_error) \<Rightarrow> act_return turn | Inr _ \<Rightarrow> act_return turn)
     else act_return turn))"

definition subagent_starter ::
  "server_env \<Rightarrow> thread_id \<Rightarrow> (string \<Rightarrow> turn_id) \<Rightarrow> (turn_error \<Rightarrow> string) \<Rightarrow> turn_server task_starter" where
  "subagent_starter env parent fresh show_error t s =
     (case start_subagent_turn env parent fresh t s of
        (Inl e, s') \<Rightarrow> (Inl (show_error e), s')
      | (Inr turn, s') \<Rightarrow> (Inr turn, s'))"

definition start_ready_tasks ::
  "server_env \<Rightarrow> (string \<Rightarrow> turn_id) \<Rightarrow> (turn_error \<Rightarrow> string) \<Rightarrow> schedule \<Rightarrow> turn_server \<Rightarrow> schedule \<times> turn_server" where
  "start_ready_tasks env fresh show_error sc s =
     start_ready_tasks_with (subagent_starter env (sc_parent_thread_id sc) fresh show_error) sc s"

section \<open>Finished turns\<close>

definition running_task_id_for_turn :: "schedule \<Rightarrow> thread_id \<Rightarrow> turn_id \<Rightarrow> string option" where
  "running_task_id_for_turn sc tid turn =
     (case sc_running_by_thread sc tid of
        Some (task, expected) \<Rightarrow> if expected \<noteq> turn then None else Some task
      | None \<Rightarrow> None)"

definition clear_pending_approvals_for_thread :: "thread_id \<Rightarrow> schedule \<Rightarrow> schedule" where
  "clear_pending_approvals_for_thread tid sc =
     sc\<lparr>sc_pending_approvals :=
       (\<lambda>k. if ak_thread_id k = tid then None else sc_pending_approvals sc k)\<rparr>"

text \<open>The keys are removed one after the other, in the order \<open>keys\<close> lists them.\<close>

fun remove_proxies :: "approval_key list \<Rightarrow> schedule \<Rightarrow> schedule \<times> approval_id list" where
  "remove_proxies [] sc = (sc, [])"
| "remove_proxies (k # ks) sc =
     (case sc_approval_proxy_by_child sc k of
        None \<Rightarrow> remove_proxies ks sc
      | Some proxy \<Rightarrow>
          (case remove_proxies ks
             (sc\<lparr>sc_approval_proxy_by_child := (sc_approval_proxy_by_child sc)(k := None),
                 sc_approval_proxy_targets := (sc_approval_proxy_targets sc)(proxy := None)\<rparr>) of
             (sc', removed) \<Rightarrow> (sc', proxy # removed)))"

type_synonym key_order = "approval_key set \<Rightarrow> approval_key list"

definition clear_proxy_mappings_for_thread ::
  "key_order \<Rightarrow> thread_id \<Rightarrow> schedule \<Rightarrow> schedule \<times> approval_id list" where
  "clear_proxy_mappings_for_thread keys tid sc =
     (case remove_proxies
        (filter (\<lambda>k. ak_thread_id k = tid) (keys (dom (sc_approval_proxy_by_child sc)))) sc of
        (sc', removed) \<Rightarrow> (clear_pending_approvals_for_thread tid sc', removed))"

definition finish_task :: "nat \<Rightarrow> turn_status \<Rightarrow> string option \<Rightarrow> schedule \<Rightarrow> schedule" where
  "finish_task i status reason sc =
     update_task i (\<lambda>t.
       if status = TurnStatusCompleted then t\<lparr>tk_status := TaskCompleted, tk_error := None\<rparr>
       else t\<lparr>tk_status := TaskFailed,
              tk_error := opt_or reason
                (Some (''turn finished with status='' @ show_turn_status status))\<rparr>) sc"

definition handle_turn_completed ::
  "key_order \<Rightarrow> thread_id \<Rightarrow> turn_id \<Rightarrow> turn_status \<Rightarrow> string option \<Rightarrow> schedule \<Rightarrow>
     schedule \<times> approval_id list" where
  "handle_turn_completed keys tid turn status reason sc =
     (if tid \<in> sc_external_active sc
      then (sc\<lparr>sc_external_active := sc_external_active sc - {tid}\<rparr>, [])
      else
        (case sc_running_by_thread sc tid of
           None \<Rightarrow> (sc, [])
         | Some (task, expected) \<Rightarrow>
             if expected \<noteq> turn then (sc, [])
             else
               (case clear_proxy_mappings_for_thread keys tid
                  (sc\<lparr>sc_running_by_thread := (sc_running_by_thread sc)(tid := None)\<rparr>) of
                  (sc1, stale) \<Rightarrow>
                    (case sc_by_id sc1 task of
                       None \<Rightarrow> (sc1, stale)
                     | Some i \<Rightarrow>
                         (mark_dependency_blocked_tasks
                            (note_task_status task status (finish_task i status reason sc1)), stale)))))"

end
