(* ===== verification/ScheduleRuns.thy ===== *)
theory ScheduleRuns
  imports Schedule
begin

text \<open>
  What a schedule promises. The tasks and their dependencies are a graph whose nodes wait, run
  and end; every operation of the schedule is a sequence of steps of that graph, the running
  subagents stay within the limit, and a schedule without foreign subagents always gets to its
  end.
\<close>

section \<open>The graph of tasks\<close>

type_synonym phases = "string \<Rightarrow> task_status option"

inductive graph_step :: "(string \<times> string) set \<Rightarrow> phases \<Rightarrow> phases \<Rightarrow> bool" for G where
  graph_starts: "p i = Some TaskPending \<Longrightarrow> (\<And>d. (d, i) \<in> G \<Longrightarrow> p d = Some TaskCompleted) \<Longrightarrow>
    graph_step G p (p(i \<mapsto> TaskRunning))"
| graph_refused: "p i = Some TaskPending \<Longrightarrow> (\<And>d. (d, i) \<in> G \<Longrightarrow> p d = Some TaskCompleted) \<Longrightarrow>
    graph_step G p (p(i \<mapsto> TaskFailed))"
| graph_completes: "p i = Some TaskRunning \<Longrightarrow> graph_step G p (p(i \<mapsto> TaskCompleted))"
| graph_fails: "p i = Some TaskRunning \<Longrightarrow> graph_step G p (p(i \<mapsto> TaskFailed))"
| graph_blocked: "p i = Some TaskPending \<Longrightarrow> (d, i) \<in> G \<Longrightarrow> p d = Some TaskFailed \<Longrightarrow>
    graph_step G p (p(i \<mapsto> TaskFailed))"

inductive_cases graph_stepE: "graph_step G p q"

definition phases_of :: "schedule \<Rightarrow> phases" where
  "phases_of sc = map_of (map (\<lambda>t. (tk_id t, tk_status t)) (sc_tasks sc))"

definition task_graph :: "schedule \<Rightarrow> (string \<times> string) set" where
  "task_graph sc = (\<Union>t \<in> set (sc_tasks sc). (\<lambda>d. (d, tk_id t)) ` set (tk_depends_on t))"

text \<open>What no operation changes of the tasks.\<close>

definition task_shape :: "schedule \<Rightarrow> (string \<times> string list \<times> thread_id) list" where
  "task_shape sc = map (\<lambda>t. (tk_id t, tk_depends_on t, tk_thread_id t)) (sc_tasks sc)"

lemma task_shape_graph: "task_graph sc = (\<Union>(i, ds, _) \<in> set (task_shape sc). (\<lambda>d. (d, i)) ` set ds)"
  by (simp add: task_graph_def task_shape_def)

lemma shape_same:
  assumes "task_shape sc' = task_shape sc"
  shows "task_graph sc' = task_graph sc" "length (sc_tasks sc') = length (sc_tasks sc)"
    "map tk_id (sc_tasks sc') = map tk_id (sc_tasks sc)"
proof -
  from assms show "task_graph sc' = task_graph sc" by (simp add: task_shape_graph)
  from arg_cong [OF assms, of length] show "length (sc_tasks sc') = length (sc_tasks sc)"
    by (simp add: task_shape_def)
  from arg_cong [OF assms, of "map fst"] show "map tk_id (sc_tasks sc') = map tk_id (sc_tasks sc)"
    by (simp add: task_shape_def comp_def)
qed

section \<open>Well-formed schedules\<close>

text \<open>The status in \<open>task_statuses\<close>, and the entry of \<open>running_by_thread\<close>, that fit a task.\<close>

fun status_fits :: "task_status \<Rightarrow> turn_status option \<Rightarrow> bool" where
  "status_fits TaskCompleted s \<longleftrightarrow> s = Some TurnStatusCompleted"
| "status_fits TaskFailed s \<longleftrightarrow> s \<noteq> None \<and> s \<noteq> Some TurnStatusCompleted"
| "status_fits TaskPending s \<longleftrightarrow> s = None"
| "status_fits TaskRunning s \<longleftrightarrow> s = None"

definition running_entry :: "spawn_task \<Rightarrow> (string \<times> turn_id) option" where
  "running_entry t =
     (if tk_status t = TaskRunning then map_option (\<lambda>turn. (tk_id t, turn)) (tk_turn_id t) else None)"

definition task_fits :: "schedule \<Rightarrow> spawn_task \<Rightarrow> bool" where
  "task_fits sc t \<longleftrightarrow>
     status_fits (tk_status t) (sc_task_statuses sc (tk_id t)) \<and>
     sc_running_by_thread sc (tk_thread_id t) = running_entry t \<and>
     (tk_status t = TaskRunning \<longrightarrow> tk_turn_id t \<noteq> None)"

definition schedule_ok :: "schedule \<Rightarrow> bool" where
  "schedule_ok sc \<longleftrightarrow>
     distinct (map tk_id (sc_tasks sc)) \<and> distinct (map tk_thread_id (sc_tasks sc)) \<and>
     (\<forall>i < length (sc_tasks sc). sc_by_id sc (tk_id (sc_tasks sc ! i)) = Some i) \<and>
     (\<forall>t \<in> set (sc_tasks sc). task_fits sc t) \<and>
     dom (sc_task_statuses sc) \<subseteq> tk_id ` set (sc_tasks sc) \<and>
     dom (sc_running_by_thread sc) \<subseteq> tk_thread_id ` set (sc_tasks sc) \<and>
     finite (sc_external_active sc)"

lemma phases_of_nth:
  "schedule_ok sc \<Longrightarrow> i < length (sc_tasks sc) \<Longrightarrow>
   phases_of sc (tk_id (sc_tasks sc ! i)) = Some (tk_status (sc_tasks sc ! i))"
  by (auto simp: phases_of_def schedule_ok_def comp_def intro!: map_of_is_SomeI)

lemma phases_of_task:
  "schedule_ok sc \<Longrightarrow> t \<in> set (sc_tasks sc) \<Longrightarrow> phases_of sc (tk_id t) = Some (tk_status t)"
  by (metis in_set_conv_nth phases_of_nth)

lemma dom_phases_of: "dom (phases_of sc) = tk_id ` set (sc_tasks sc)"
  by (simp add: phases_of_def dom_map_of_conv_image_fst image_image)

lemma phases_of_Some:
  "phases_of sc i = Some p \<Longrightarrow> \<exists>t \<in> set (sc_tasks sc). tk_id t = i \<and> tk_status t = p"
  by (auto simp: phases_of_def dest!: map_of_SomeD)

text \<open>The change of one task, with the two maps that go with it.\<close>

lemma task_change:
  assumes ok: "schedule_ok sc" and i: "i < length (sc_tasks sc)"
    and tasks: "sc_tasks sc' = (sc_tasks sc)[i := t]"
    and same: "tk_id t = tk_id (sc_tasks sc ! i)" "tk_thread_id t = tk_thread_id (sc_tasks sc ! i)"
      "tk_depends_on t = tk_depends_on (sc_tasks sc ! i)"
      "sc_by_id sc' = sc_by_id sc" "sc_external_active sc' = sc_external_active sc"
    and statuses: "sc_task_statuses sc' = (sc_task_statuses sc)(tk_id t := s)" "status_fits (tk_status t) s"
    and running: "sc_running_by_thread sc' = (sc_running_by_thread sc)(tk_thread_id t := running_entry t)"
      "tk_status t = TaskRunning \<longrightarrow> tk_turn_id t \<noteq> None"
  shows "schedule_ok sc'" "phases_of sc' = (phases_of sc)(tk_id t \<mapsto> tk_status t)"
    "task_shape sc' = task_shape sc"
proof -
  note S = ok [unfolded schedule_ok_def]
  have ids: "map tk_id (sc_tasks sc') = map tk_id (sc_tasks sc)"
    "map tk_thread_id (sc_tasks sc') = map tk_thread_id (sc_tasks sc)"
    using tasks same(1,2) i by (metis list_update_id map_update nth_map)+
  show shape: "task_shape sc' = task_shape sc"
    using tasks same(1-3) i by (simp add: task_shape_def map_update) (metis (no_types, lifting) length_map list_update_id nth_map)
  have sets: "tk_id ` set (sc_tasks sc') = tk_id ` set (sc_tasks sc)"
    "tk_thread_id ` set (sc_tasks sc') = tk_thread_id ` set (sc_tasks sc)"
    using ids by (metis list.set_map)+
  have len: "length (sc_tasks sc') = length (sc_tasks sc)" using tasks by simp
  have other: "tk_id (sc_tasks sc ! j) \<noteq> tk_id t \<and> tk_thread_id (sc_tasks sc ! j) \<noteq> tk_thread_id t"
    if "j < length (sc_tasks sc)" "j \<noteq> i" for j
    using S that i same(1,2) by (metis (no_types, lifting) length_map nth_eq_iff_index_eq nth_map)
  have fits: "task_fits sc' (sc_tasks sc' ! j)" if j: "j < length (sc_tasks sc)" for j
  proof (cases "j = i")
    case True
    with tasks i statuses running show ?thesis by (simp add: task_fits_def)
  next
    case False
    with S j have "task_fits sc (sc_tasks sc ! j)" by simp
    with other [OF j False] False tasks statuses(1) running(1) show ?thesis by (simp add: task_fits_def)
  qed
  have mem: "tk_id t \<in> tk_id ` set (sc_tasks sc)" "tk_thread_id t \<in> tk_thread_id ` set (sc_tasks sc)"
    using i same(1,2) by (metis image_eqI nth_mem)+
  show ok': "schedule_ok sc'"
    unfolding schedule_ok_def ids sets
  proof (intro conjI)
    show "\<forall>j < length (sc_tasks sc'). sc_by_id sc' (tk_id (sc_tasks sc' ! j)) = Some j"
      using S len ids(1) same(4) by (metis nth_map)
    show "\<forall>t \<in> set (sc_tasks sc'). task_fits sc' t" using fits len by (metis in_set_conv_nth)
    show "dom (sc_task_statuses sc') \<subseteq> tk_id ` set (sc_tasks sc)"
      using S mem(1) statuses(1) by (auto simp: dom_def subset_iff)
    show "dom (sc_running_by_thread sc') \<subseteq> tk_thread_id ` set (sc_tasks sc)"
      using S mem(2) running(1) by (auto simp: dom_def subset_iff)
  qed (use S same(5) in auto)
  show "phases_of sc' = (phases_of sc)(tk_id t \<mapsto> tk_status t)"
  proof
    fix k show "phases_of sc' k = ((phases_of sc)(tk_id t \<mapsto> tk_status t)) k"
    proof (cases "k \<in> tk_id ` set (sc_tasks sc)")
      case True
      then obtain j where j: "j < length (sc_tasks sc)" "k = tk_id (sc_tasks sc ! j)"
        by (auto simp: in_set_conv_nth)
      with phases_of_nth [OF ok' , of j] phases_of_nth [OF ok j(1)] other [OF j(1)] tasks same(1) len
      show ?thesis by (cases "j = i") auto
    next
      case False
      with sets(1) mem(1) have "phases_of sc' k = None" "phases_of sc k = None" "k \<noteq> tk_id t"
        by (auto simp: dom_phases_of [symmetric] simp del: dom_eq_empty_conv)
      then show ?thesis by simp
    qed
  qed
qed

section \<open>Every operation is steps of the graph\<close>

definition advances :: "schedule \<Rightarrow> schedule \<Rightarrow> bool" where
  "advances sc sc' \<longleftrightarrow> (schedule_ok sc \<longrightarrow>
     schedule_ok sc' \<and> task_shape sc' = task_shape sc \<and>
     (graph_step (task_graph sc))\<^sup>*\<^sup>* (phases_of sc) (phases_of sc') \<and>
     sc_max_concurrent sc' = sc_max_concurrent sc \<and> sc_parent_thread_id sc' = sc_parent_thread_id sc \<and>
     sc_priority_aging_rounds sc' = sc_priority_aging_rounds sc \<and>
     sc_external_active sc' \<subseteq> sc_external_active sc)"

lemma advances_refl: "advances sc sc"
  by (simp add: advances_def)

lemma advances_trans: "advances a b \<Longrightarrow> advances b c \<Longrightarrow> advances a c"
  unfolding advances_def using shape_same(1) by (metis (no_types, lifting) rtranclp_trans order_trans)

lemmas advancesD = advances_def [THEN iffD1, rule_format]

text \<open>One change of one task.\<close>

lemma advances_change:
  assumes "i < length (sc_tasks sc)" "sc_tasks sc' = (sc_tasks sc)[i := t]"
    and "tk_id t = tk_id (sc_tasks sc ! i)" "tk_thread_id t = tk_thread_id (sc_tasks sc ! i)"
      "tk_depends_on t = tk_depends_on (sc_tasks sc ! i)"
      "sc_by_id sc' = sc_by_id sc" "sc_external_active sc' = sc_external_active sc"
      "sc_max_concurrent sc' = sc_max_concurrent sc" "sc_parent_thread_id sc' = sc_parent_thread_id sc"
      "sc_priority_aging_rounds sc' = sc_priority_aging_rounds sc"
    and "sc_task_statuses sc' = (sc_task_statuses sc)(tk_id t := s)" "status_fits (tk_status t) s"
    and "sc_running_by_thread sc' = (sc_running_by_thread sc)(tk_thread_id t := running_entry t)"
      "tk_status t = TaskRunning \<longrightarrow> tk_turn_id t \<noteq> None"
    and "schedule_ok sc \<Longrightarrow>
      graph_step (task_graph sc) (phases_of sc) ((phases_of sc)(tk_id t \<mapsto> tk_status t))"
  shows "advances sc sc'"
  unfolding advances_def
proof
  assume ok: "schedule_ok sc"
  from task_change [OF ok assms(1-7,11-14)] assms(15) [OF ok] assms(7-10)
  show "schedule_ok sc' \<and> task_shape sc' = task_shape sc \<and>
     (graph_step (task_graph sc))\<^sup>*\<^sup>* (phases_of sc) (phases_of sc') \<and>
     sc_max_concurrent sc' = sc_max_concurrent sc \<and> sc_parent_thread_id sc' = sc_parent_thread_id sc \<and>
     sc_priority_aging_rounds sc' = sc_priority_aging_rounds sc \<and>
     sc_external_active sc' \<subseteq> sc_external_active sc" by simp
qed

text \<open>An operation that leaves the tasks and their maps alone.\<close>

lemma advances_frame:
  assumes "sc_tasks sc' = sc_tasks sc" "sc_by_id sc' = sc_by_id sc"
    "sc_task_statuses sc' = sc_task_statuses sc" "sc_running_by_thread sc' = sc_running_by_thread sc"
    "sc_max_concurrent sc' = sc_max_concurrent sc" "sc_parent_thread_id sc' = sc_parent_thread_id sc"
    "sc_priority_aging_rounds sc' = sc_priority_aging_rounds sc"
    "sc_external_active sc' \<subseteq> sc_external_active sc"
  shows "advances sc sc'"
  using assms finite_subset [of "sc_external_active sc'" "sc_external_active sc"]
  by (auto simp: advances_def schedule_ok_def phases_of_def task_shape_def task_fits_def)

lemma task_graph_nth:
  "i < length (sc_tasks sc) \<Longrightarrow> d \<in> set (tk_depends_on (sc_tasks sc ! i)) \<Longrightarrow>
   (d, tk_id (sc_tasks sc ! i)) \<in> task_graph sc"
  by (auto simp: task_graph_def)

lemma task_graph_deps:
  assumes "schedule_ok sc" "i < length (sc_tasks sc)" "(d, tk_id (sc_tasks sc ! i)) \<in> task_graph sc"
  shows "d \<in> set (tk_depends_on (sc_tasks sc ! i))"
proof -
  from assms(3) obtain t where t: "t \<in> set (sc_tasks sc)" "d \<in> set (tk_depends_on t)"
    "tk_id t = tk_id (sc_tasks sc ! i)" by (auto simp: task_graph_def)
  from assms(1,2) t have "t = sc_tasks sc ! i"
    by (auto simp: schedule_ok_def distinct_map dest: inj_onD)
  with t show ?thesis by simp
qed

lemma status_phase:
  assumes "schedule_ok sc" and "sc_task_statuses sc d = Some status"
  shows "phases_of sc d = Some (if status = TurnStatusCompleted then TaskCompleted else TaskFailed)"
proof -
  from assms have "d \<in> tk_id ` set (sc_tasks sc)" by (auto simp: schedule_ok_def dom_def)
  then obtain t where t: "t \<in> set (sc_tasks sc)" "d = tk_id t" by auto
  with assms have "status_fits (tk_status t) (Some status)" by (auto simp: schedule_ok_def task_fits_def)
  then have "tk_status t = (if status = TurnStatusCompleted then TaskCompleted else TaskFailed)"
    by (cases "tk_status t") auto
  with phases_of_task [OF assms(1) t(1)] t(2) show ?thesis by simp
qed

lemma blocker_of_Some:
  "blocker_of statuses deps = Some (d, status) \<Longrightarrow>
   d \<in> set deps \<and> statuses d = Some status \<and> status \<noteq> TurnStatusCompleted"
  by (induction deps) (auto split: option.splits if_splits)

lemma blocker_of_None:
  "blocker_of statuses deps = None \<longleftrightarrow>
   (\<forall>d \<in> set deps. statuses d = None \<or> statuses d = Some TurnStatusCompleted)"
  by (induction deps) (auto split: option.splits)

lemma fits_nth:
  "schedule_ok sc \<Longrightarrow> i < length (sc_tasks sc) \<Longrightarrow> task_fits sc (sc_tasks sc ! i)"
  by (auto simp: schedule_ok_def)

lemma mark_task_advances:
  assumes "i < length (sc_tasks sc)" and "mark_task i sc = (changed, sc')"
  shows "advances sc sc'"
proof (cases "changed \<and> schedule_ok sc")
  case False
  with assms(2) show ?thesis
    by (auto simp: mark_task_def advances_def split: if_splits option.splits)
next
  case True
  then have ok: "schedule_ok sc" by simp
  from True assms(2) obtain d status where b: "tk_status (sc_tasks sc ! i) = TaskPending"
    "blocker_of (sc_task_statuses sc) (tk_depends_on (sc_tasks sc ! i)) = Some (d, status)"
    and sc': "sc' = note_task_status (tk_id (sc_tasks sc ! i)) TurnStatusCancelled
      (update_task i (\<lambda>t. t\<lparr>tk_status := TaskFailed, tk_error := Some
         (''blocked by dependency: '' @ d @ '' status='' @ show_turn_status status)\<rparr>) sc)"
    by (auto simp: mark_task_def split: if_splits option.splits)
  from blocker_of_Some [OF b(2)] status_phase [OF ok]
  have dep: "(d, tk_id (sc_tasks sc ! i)) \<in> task_graph sc" "phases_of sc d = Some TaskFailed"
    using task_graph_nth [OF assms(1)] by auto
  let ?t = "(sc_tasks sc ! i)\<lparr>tk_status := TaskFailed, tk_error := Some
     (''blocked by dependency: '' @ d @ '' status='' @ show_turn_status status)\<rparr>"
  have "(sc_running_by_thread sc)(tk_thread_id (sc_tasks sc ! i) := None) = sc_running_by_thread sc"
    using fits_nth [OF ok assms(1)] b(1) by (intro fun_upd_idem) (simp add: task_fits_def running_entry_def)
  moreover have "graph_step (task_graph sc) (phases_of sc) ((phases_of sc)(tk_id ?t \<mapsto> tk_status ?t))"
    using graph_blocked [of "phases_of sc" "tk_id (sc_tasks sc ! i)" d "task_graph sc"] dep
      phases_of_nth [OF ok assms(1)] b(1) by simp
  ultimately show ?thesis
    by (intro advances_change [where i = i and s = "Some TurnStatusCancelled" and t = ?t])
      (simp_all add: assms(1) sc' note_task_status_def update_task_def running_entry_def)
qed

lemma mark_pass_advances:
  assumes "mark_pass is sc = (changed, sc')" and "\<forall>i \<in> set is. i < length (sc_tasks sc)"
  shows "advances sc sc'"
  using assms
proof (induction "is" arbitrary: sc changed sc')
  case (Cons i js)
  obtain c m where m: "mark_task i sc = (c, m)" by fastforce
  obtain d n where n: "mark_pass js m = (d, n)" by fastforce
  have i: "i < length (sc_tasks sc)" using Cons.prems(2) by simp
  from mark_task_pending [OF i m] have "\<forall>k \<in> set js. k < length (sc_tasks m)" using Cons.prems(2) by simp
  from Cons.IH [OF n this] mark_task_advances [OF i m] have "advances sc n" by (blast intro: advances_trans)
  with Cons.prems(1) m n show ?case by auto
qed (simp add: advances_refl)

lemma mark_advances: "advances sc (mark_dependency_blocked_tasks sc)"
proof (induction sc rule: mark_dependency_blocked_tasks.induct)
  case (1 sc)
  obtain changed m where m: "mark_pass [0..<length (sc_tasks sc)] sc = (changed, m)" by fastforce
  have "advances sc m" by (rule mark_pass_advances [OF m]) simp
  moreover have "changed \<Longrightarrow> advances m (mark_dependency_blocked_tasks m)" using 1 [OF m [symmetric]] by simp
  ultimately show ?case
    by (subst mark_dependency_blocked_tasks.simps) (auto simp: m intro: advances_trans)
qed

lemma update_ready_advances: "advances sc (update_ready_wait_rounds sc)"
  by (rule advances_frame) (simp_all add: update_ready_wait_rounds_def)

lemma start_task_advances:
  assumes "pick_next_ready_task_index sc = Some i" and "start_task start i sc s = (ok, sc', s')"
  shows "advances sc sc'"
proof (cases "schedule_ok sc")
  case False
  then show ?thesis by (simp add: advances_def)
next
  case wf: True
  from picked_ready [OF assms(1)] have i: "i < length (sc_tasks sc)"
    and ready: "tk_status (sc_tasks sc ! i) = TaskPending"
    "\<And>d. d \<in> set (tk_depends_on (sc_tasks sc ! i)) \<Longrightarrow> sc_task_statuses sc d = Some TurnStatusCompleted"
    by (auto simp: is_ready_task_def list_all_iff)
  let ?t = "sc_tasks sc ! i"
  have deps: "phases_of sc d = Some TaskCompleted" if "(d, tk_id ?t) \<in> task_graph sc" for d
    using status_phase [OF wf ready(2) [OF task_graph_deps [OF wf i that]]] by simp
  have free: "sc_running_by_thread sc (tk_thread_id ?t) = None" "sc_task_statuses sc (tk_id ?t) = None"
    using fits_nth [OF wf i] ready(1) by (simp_all add: task_fits_def running_entry_def)
  note phase = phases_of_nth [OF wf i, unfolded ready(1)]
  have same: "(sc_running_by_thread sc)(tk_thread_id ?t := None) = sc_running_by_thread sc"
    "(sc_task_statuses sc)(tk_id ?t := None) = sc_task_statuses sc"
    using free by (simp_all add: fun_upd_idem)
  obtain r s1 where r: "start ?t s = (r, s1)" by fastforce
  show ?thesis
  proof (cases r)
    case (Inr turn)
    show ?thesis
      by (rule advances_change [where i = i and s = None
              and t = "?t\<lparr>tk_turn_id := Some turn, tk_status := TaskRunning\<rparr>"])
        (use assms(2) r Inr i same graph_starts [of "phases_of sc" "tk_id ?t" "task_graph sc", OF phase deps] in
          \<open>auto simp: start_task_def update_task_def Let_def running_entry_def\<close>)
  next
    case (Inl err)
    show ?thesis
      by (rule advances_change [where i = i and s = "Some TurnStatusFailed"
              and t = "?t\<lparr>tk_status := TaskFailed, tk_error := Some err\<rparr>"])
        (use assms(2) r Inl i same graph_refused [of "phases_of sc" "tk_id ?t" "task_graph sc", OF phase deps] in
          \<open>auto simp: start_task_def update_task_def note_task_status_def Let_def running_entry_def\<close>)
  qed
qed

lemma start_loop_advances: "start_loop start available sc s = (sc', s') \<Longrightarrow> advances sc sc'"
proof (induction start available sc s arbitrary: sc' s' rule: start_loop.induct)
  case (1 start available sc s)
  show ?case
  proof (cases "pick_next_ready_task_index sc")
    case None
    with "1.prems" show ?thesis by (simp add: start_loop.simps advances_refl)
  next
    case (Some i)
    obtain ok m t where m: "start_task start i sc s = (ok, m, t)" by (metis prod_cases3)
    show ?thesis
    proof (cases "available = 0")
      case True
      with Some "1.prems" show ?thesis by (simp add: start_loop.simps advances_refl)
    next
      case False
      with "1.prems" Some m have "start_loop start (if ok then available - 1 else available) m t = (sc', s')"
        by (simp add: start_loop.simps [of start available sc])
      from "1.IH" [OF Some False m [symmetric] refl this] start_task_advances [OF Some m]
      show ?thesis by (blast intro: advances_trans)
    qed
  qed
qed

lemma start_ready_advances: "start_ready_tasks_with start sc s = (sc', s') \<Longrightarrow> advances sc sc'"
proof -
  assume run: "start_ready_tasks_with start sc s = (sc', s')"
  let ?sc1 = "update_ready_wait_rounds (mark_dependency_blocked_tasks sc)"
  obtain sc2 t where l: "start_loop start (available_slots ?sc1) ?sc1 s = (sc2, t)" by fastforce
  have 1: "advances sc ?sc1" using mark_advances update_ready_advances by (rule advances_trans)
  moreover have "advances sc (mark_dependency_blocked_tasks sc2)"
    using 1 start_loop_advances [OF l] mark_advances by (blast intro: advances_trans)
  ultimately show ?thesis using run l by (auto simp: start_ready_tasks_with_def Let_def split: if_splits)
qed

lemma remove_proxies_frame:
  "remove_proxies ks sc = (sc', removed) \<Longrightarrow>
   \<exists>f g. sc' = sc\<lparr>sc_approval_proxy_by_child := f, sc_approval_proxy_targets := g\<rparr>"
proof (induction ks arbitrary: sc sc' removed)
  case Nil
  then have "sc' = sc\<lparr>sc_approval_proxy_by_child := sc_approval_proxy_by_child sc,
      sc_approval_proxy_targets := sc_approval_proxy_targets sc\<rparr>" by simp
  then show ?case by blast
next
  case (Cons k ks)
  then show ?case by (fastforce split: option.splits prod.splits)
qed

lemma clear_proxies_frame:
  assumes "clear_proxy_mappings_for_thread keys tid sc = (sc', removed)"
  obtains f g h where "sc' = sc\<lparr>sc_approval_proxy_by_child := f, sc_approval_proxy_targets := g,
    sc_pending_approvals := h\<rparr>"
  using assms by (auto simp: clear_proxy_mappings_for_thread_def clear_pending_approvals_for_thread_def
      split: prod.splits dest!: remove_proxies_frame)

text \<open>The task that a running turn belongs to.\<close>

lemma running_task:
  assumes "schedule_ok sc" and "sc_running_by_thread sc tid = Some (task, turn)"
  obtains i where "i < length (sc_tasks sc)" "sc_by_id sc task = Some i" "tk_id (sc_tasks sc ! i) = task"
    "tk_thread_id (sc_tasks sc ! i) = tid" "tk_status (sc_tasks sc ! i) = TaskRunning"
    "tk_turn_id (sc_tasks sc ! i) = Some turn"
proof -
  from assms have "tid \<in> tk_thread_id ` set (sc_tasks sc)" by (auto simp: schedule_ok_def dom_def)
  then obtain i where i: "i < length (sc_tasks sc)" "tk_thread_id (sc_tasks sc ! i) = tid"
    by (auto simp: in_set_conv_nth)
  with fits_nth [OF assms(1) i(1)] assms(2) have "running_entry (sc_tasks sc ! i) = Some (task, turn)"
    by (simp add: task_fits_def)
  then have "tk_id (sc_tasks sc ! i) = task" "tk_status (sc_tasks sc ! i) = TaskRunning"
    "tk_turn_id (sc_tasks sc ! i) = Some turn" by (auto simp: running_entry_def split: if_splits)
  moreover from this assms(1) i(1) have "sc_by_id sc task = Some i" by (auto simp: schedule_ok_def)
  ultimately show ?thesis using i that by blast
qed

text \<open>Ending a running task, with the proxies of its thread cleared.\<close>

lemma finish_advances:
  assumes "schedule_ok sc" and "sc_running_by_thread sc tid = Some (task, turn)"
    and "clear_proxy_mappings_for_thread keys tid
      (sc\<lparr>sc_running_by_thread := (sc_running_by_thread sc)(tid := None)\<rparr>) = (sc1, stale)"
    and "sc_by_id sc1 task = Some i"
  shows "advances sc (note_task_status task status (finish_task i status reason sc1))"
proof -
  from running_task [OF assms(1,2)] obtain j where j: "j < length (sc_tasks sc)" "sc_by_id sc task = Some j"
    "tk_id (sc_tasks sc ! j) = task" "tk_thread_id (sc_tasks sc ! j) = tid"
    "tk_status (sc_tasks sc ! j) = TaskRunning" by metis
  have sc1: "sc_tasks sc1 = sc_tasks sc" "sc_by_id sc1 = sc_by_id sc"
    "sc_task_statuses sc1 = sc_task_statuses sc" "sc_external_active sc1 = sc_external_active sc"
    "sc_running_by_thread sc1 = (sc_running_by_thread sc)(tid := None)"
    "sc_max_concurrent sc1 = sc_max_concurrent sc" "sc_parent_thread_id sc1 = sc_parent_thread_id sc"
    "sc_priority_aging_rounds sc1 = sc_priority_aging_rounds sc"
    by (rule clear_proxies_frame [OF assms(3)], simp)+
  with assms(4) j(2) have [simp]: "i = j" by simp
  let ?t = "if status = TurnStatusCompleted then (sc_tasks sc ! j)\<lparr>tk_status := TaskCompleted, tk_error := None\<rparr>
    else (sc_tasks sc ! j)\<lparr>tk_status := TaskFailed, tk_error := opt_or reason
            (Some (''turn finished with status='' @ show_turn_status status))\<rparr>"
  have "graph_step (task_graph sc) (phases_of sc) ((phases_of sc)(task \<mapsto> tk_status ?t))"
    using phases_of_nth [OF assms(1) j(1)] j(3,5) graph_completes [of "phases_of sc" task "task_graph sc"]
      graph_fails [of "phases_of sc" task "task_graph sc"] by simp
  then show ?thesis
    by (intro advances_change [where i = j and t = ?t and s = "Some status"])
      (auto simp: j sc1 note_task_status_def finish_task_def update_task_def running_entry_def)
qed

lemma completed_advances:
  assumes "handle_turn_completed keys tid turn status reason sc = (sc', stale)"
  shows "advances sc sc'"
proof (cases "schedule_ok sc \<and> tid \<notin> sc_external_active sc \<and> running_task_id_for_turn sc tid turn \<noteq> None")
  case False
  then consider "\<not> schedule_ok sc" | "tid \<in> sc_external_active sc" |
      "tid \<notin> sc_external_active sc" "running_task_id_for_turn sc tid turn = None" by auto
  then show ?thesis
  proof cases
    case 2
    with assms show ?thesis by (auto simp: handle_turn_completed_def intro!: advances_frame)
  qed (use assms in \<open>auto simp: handle_turn_completed_def running_task_id_for_turn_def advances_def
        split: option.splits if_splits\<close>)
next
  case True
  then obtain task where r: "sc_running_by_thread sc tid = Some (task, turn)"
    by (auto simp: running_task_id_for_turn_def split: option.splits if_splits)
  obtain sc1 stale1 where c: "clear_proxy_mappings_for_thread keys tid
      (sc\<lparr>sc_running_by_thread := (sc_running_by_thread sc)(tid := None)\<rparr>) = (sc1, stale1)" by fastforce
  from True r obtain i where "sc_by_id sc task = Some i" by (auto elim: running_task)
  moreover have "sc_by_id sc1 = sc_by_id sc" by (rule clear_proxies_frame [OF c]) simp
  ultimately have i: "sc_by_id sc1 task = Some i" by simp
  from finish_advances [OF conjunct1 [OF True] r c i] mark_advances
  have "advances sc (mark_dependency_blocked_tasks (note_task_status task status (finish_task i status reason sc1)))"
    by (rule advances_trans)
  with assms True r c i show ?thesis by (simp add: handle_turn_completed_def)
qed

section \<open>What the graph promises\<close>

definition graph_sound :: "(string \<times> string) set \<Rightarrow> phases \<Rightarrow> bool" where
  "graph_sound G p \<longleftrightarrow>
     (\<forall>(d, i) \<in> G. p i = Some TaskRunning \<or> p i = Some TaskCompleted \<longrightarrow> p d = Some TaskCompleted)"

lemma graph_step_sound: "graph_step G p q \<Longrightarrow> graph_sound G p \<Longrightarrow> graph_sound G q"
  by (erule graph_stepE) (auto simp: graph_sound_def)

lemma graph_steps_sound: "(graph_step G)\<^sup>*\<^sup>* p q \<Longrightarrow> graph_sound G p \<Longrightarrow> graph_sound G q"
  by (induction rule: rtranclp_induct) (auto intro: graph_step_sound)

text \<open>A task that has ended stays as it is, and no task is forgotten.\<close>

lemma graph_step_final:
  "graph_step G p q \<Longrightarrow> p i = Some TaskCompleted \<or> p i = Some TaskFailed \<Longrightarrow> q i = p i"
  by (erule graph_stepE) auto

lemma graph_steps_final:
  "(graph_step G)\<^sup>*\<^sup>* p q \<Longrightarrow> p i = Some TaskCompleted \<or> p i = Some TaskFailed \<Longrightarrow> q i = p i"
  by (induction rule: rtranclp_induct) (auto dest: graph_step_final)

lemma graph_step_dom: "graph_step G p q \<Longrightarrow> dom q = dom p"
  by (erule graph_stepE) auto

lemma graph_steps_dom: "(graph_step G)\<^sup>*\<^sup>* p q \<Longrightarrow> dom q = dom p"
  by (induction rule: rtranclp_induct) (simp_all add: graph_step_dom)

section \<open>The limit on concurrent subagents\<close>

definition slots_used :: "schedule \<Rightarrow> nat" where
  "slots_used sc = map_len (sc_running_by_thread sc) + card (sc_external_active sc)"

definition slots_ok :: "schedule \<Rightarrow> bool" where
  "slots_ok sc \<longleftrightarrow> sc_max_concurrent sc = 0 \<or> slots_used sc \<le> sc_max_concurrent sc"

lemma finite_running: "schedule_ok sc \<Longrightarrow> finite (dom (sc_running_by_thread sc))"
  unfolding schedule_ok_def by (meson finite_imageI finite_set finite_subset)

lemma map_len_update: "finite (dom m) \<Longrightarrow> map_len (m(k := v)) \<le> (if v = None then map_len m else Suc (map_len m))"
  by (auto simp: map_len_def card_insert_if intro: card_mono)

text \<open>Marking blocked tasks changes neither map.\<close>

lemma mark_task_slots:
  "mark_task i sc = (changed, sc') \<Longrightarrow>
   sc_running_by_thread sc' = sc_running_by_thread sc \<and> sc_external_active sc' = sc_external_active sc"
  by (auto simp: mark_task_def note_task_status_def update_task_def split: if_splits option.splits)

lemma mark_pass_slots:
  "mark_pass is sc = (changed, sc') \<Longrightarrow>
   sc_running_by_thread sc' = sc_running_by_thread sc \<and> sc_external_active sc' = sc_external_active sc"
  by (induction "is" arbitrary: sc changed sc') (auto split: prod.splits dest: mark_task_slots)

lemma mark_slots:
  "sc_running_by_thread (mark_dependency_blocked_tasks sc) = sc_running_by_thread sc \<and>
   sc_external_active (mark_dependency_blocked_tasks sc) = sc_external_active sc"
proof (induction sc rule: mark_dependency_blocked_tasks.induct)
  case (1 sc)
  obtain changed m where m: "mark_pass [0..<length (sc_tasks sc)] sc = (changed, m)" by fastforce
  from 1 [OF m [symmetric]] mark_pass_slots [OF m] show ?case
    by (subst (1 2) mark_dependency_blocked_tasks.simps) (simp add: m)
qed

lemma start_task_slots:
  assumes "schedule_ok sc" and "start_task start i sc s = (ok, sc', s')"
  shows "slots_used sc' \<le> slots_used sc + (if ok then 1 else 0) \<and> sc_external_active sc' = sc_external_active sc"
proof -
  obtain r s1 where r: "start (sc_tasks sc ! i) s = (r, s1)" by fastforce
  have "map_len ((sc_running_by_thread sc)(k \<mapsto> v)) \<le> Suc (map_len (sc_running_by_thread sc))" for k v
    using map_len_update [OF finite_running [OF assms(1)], of k "Some v"] by simp
  with assms(2) r show ?thesis
    by (cases r) (auto simp: start_task_def slots_used_def note_task_status_def update_task_def Let_def)
qed

lemma start_loop_slots:
  "start_loop start available sc s = (sc', s') \<Longrightarrow> schedule_ok sc \<Longrightarrow>
   slots_used sc' \<le> slots_used sc + available"
proof (induction start available sc s arbitrary: sc' s' rule: start_loop.induct)
  case (1 start available sc s)
  show ?case
  proof (cases "pick_next_ready_task_index sc = None \<or> available = 0")
    case True
    with "1.prems" show ?thesis by (auto simp: start_loop.simps split: option.splits)
  next
    case False
    then obtain i where Some: "pick_next_ready_task_index sc = Some i" by auto
    obtain ok m t where m: "start_task start i sc s = (ok, m, t)" by (metis prod_cases3)
    with "1.prems" Some False have l: "start_loop start (if ok then available - 1 else available) m t = (sc', s')"
      by (simp add: start_loop.simps [of start available sc])
    from advancesD [OF start_task_advances [OF Some m] "1.prems"(2)] have "schedule_ok m" by simp
    from "1.IH" [OF Some _ m [symmetric] refl l this] False start_task_slots [OF "1.prems"(2) m]
    show ?thesis by (auto split: if_splits)
  qed
qed

lemma start_ready_slots:
  assumes "start_ready_tasks_with start sc s = (sc', s')" and "schedule_ok sc" "slots_ok sc"
  shows "slots_ok sc'"
proof -
  let ?sc1 = "update_ready_wait_rounds (mark_dependency_blocked_tasks sc)"
  have 1: "advances sc ?sc1" using mark_advances update_ready_advances by (rule advances_trans)
  note ok1 = advancesD [OF 1 assms(2)]
  have used: "slots_used ?sc1 = slots_used sc"
    by (simp add: slots_used_def update_ready_wait_rounds_def mark_slots)
  obtain sc2 t where l: "start_loop start (available_slots ?sc1) ?sc1 s = (sc2, t)" by fastforce
  have "slots_used sc2 \<le> slots_used sc + available_slots ?sc1"
    using start_loop_slots [OF l] ok1 used by simp
  moreover have "sc_max_concurrent sc \<noteq> 0 \<Longrightarrow> available_slots ?sc1 = sc_max_concurrent sc - slots_used sc"
    using ok1 used by (simp add: available_slots_def slots_used_def)
  moreover have "slots_used (mark_dependency_blocked_tasks sc2) = slots_used sc2"
    by (simp add: slots_used_def mark_slots)
  moreover have "sc_max_concurrent sc' = sc_max_concurrent sc"
    using advancesD [OF start_ready_advances [OF assms(1)] assms(2)] by simp
  ultimately have "slots_ok (mark_dependency_blocked_tasks sc2)" if "sc' = mark_dependency_blocked_tasks sc2"
    using assms(3) that by (cases "sc_max_concurrent sc = 0") (auto simp: slots_ok_def)
  moreover have "slots_ok ?sc1" using assms(3) used ok1 by (simp add: slots_ok_def)
  ultimately show ?thesis using assms(1) l by (auto simp: start_ready_tasks_with_def Let_def split: if_splits)
qed

lemma completed_slots:
  assumes "handle_turn_completed keys tid turn status reason sc = (sc', stale)" and "schedule_ok sc" "slots_ok sc"
  shows "slots_ok sc'"
proof -
  have ext: "card (sc_external_active sc') \<le> card (sc_external_active sc)"
    using advancesD [OF completed_advances [OF assms(1)] assms(2)] assms(2)
    by (auto simp: schedule_ok_def intro: card_mono)
  have "map_len (sc_running_by_thread sc') \<le> map_len (sc_running_by_thread sc)"
  proof -
    have "sc_running_by_thread sc' = sc_running_by_thread sc \<or>
        sc_running_by_thread sc' = (sc_running_by_thread sc)(tid := None)"
      using assms(1)
      by (auto simp: handle_turn_completed_def note_task_status_def finish_task_def update_task_def mark_slots
          split: if_splits option.splits prod.splits elim!: clear_proxies_frame)
    with map_len_update [OF finite_running [OF assms(2)], of tid None] show ?thesis by auto
  qed
  with ext assms(3) advancesD [OF completed_advances [OF assms(1)] assms(2)] show ?thesis
    by (auto simp: slots_ok_def slots_used_def)
qed

section \<open>Progress\<close>

text \<open>After marking, no pending task has a dependency that ended otherwise than completed.\<close>

lemma mark_pass_settled:
  "mark_pass is sc = (False, sc') \<Longrightarrow> i \<in> set is \<Longrightarrow> tk_status (sc_tasks sc ! i) = TaskPending \<Longrightarrow>
   blocker_of (sc_task_statuses sc) (tk_depends_on (sc_tasks sc ! i)) = None"
proof (induction "is" arbitrary: sc)
  case (Cons j js)
  obtain c m where m: "mark_task j sc = (c, m)" by fastforce
  with Cons.prems(1) have c: "\<not> c" "mark_pass js m = (False, sc')" by (auto split: prod.splits)
  with m have "m = sc" "tk_status (sc_tasks sc ! j) = TaskPending \<Longrightarrow>
      blocker_of (sc_task_statuses sc) (tk_depends_on (sc_tasks sc ! j)) = None"
    by (auto simp: mark_task_def split: if_splits option.splits)
  with Cons c show ?case by auto
qed simp

definition settled :: "schedule \<Rightarrow> bool" where
  "settled sc \<longleftrightarrow> (\<forall>t \<in> set (sc_tasks sc). tk_status t = TaskPending \<longrightarrow>
     blocker_of (sc_task_statuses sc) (tk_depends_on t) = None)"

lemma mark_settles: "settled (mark_dependency_blocked_tasks sc)"
proof (induction sc rule: mark_dependency_blocked_tasks.induct)
  case (1 sc)
  obtain changed m where m: "mark_pass [0..<length (sc_tasks sc)] sc = (changed, m)" by fastforce
  show ?case
  proof (cases changed)
    case True
    with 1 [OF m [symmetric]] m show ?thesis by (subst mark_dependency_blocked_tasks.simps) simp
  next
    case False
    with mark_pass_pending [OF m] have "m = sc" by simp
    moreover have "settled sc"
      unfolding settled_def using mark_pass_settled [of _ sc m] m False
      by (fastforce simp: in_set_conv_nth)
    ultimately show ?thesis using m False by (subst mark_dependency_blocked_tasks.simps) simp
  qed
qed

text \<open>Marking only lets tasks fail.\<close>

lemma mark_pass_only_fails:
  "mark_pass is sc = (changed, sc') \<Longrightarrow>
   sc_tasks sc' ! i = sc_tasks sc ! i \<or> tk_status (sc_tasks sc' ! i) = TaskFailed"
proof (induction "is" arbitrary: sc changed sc')
  case (Cons j js)
  obtain c m where m: "mark_task j sc = (c, m)" by fastforce
  obtain d n where n: "mark_pass js m = (d, n)" by fastforce
  have "sc_tasks m ! i = sc_tasks sc ! i \<or> tk_status (sc_tasks m ! i) = TaskFailed"
    using m by (cases "i = j \<and> i < length (sc_tasks sc)")
      (auto simp: mark_task_def note_task_status_def update_task_def nth_list_update
         list_update_beyond not_less split: if_splits option.splits)
  with Cons.IH [OF n] Cons.prems m n show ?case by auto
qed simp

lemma mark_only_fails:
  "sc_tasks (mark_dependency_blocked_tasks sc) ! i = sc_tasks sc ! i \<or>
   tk_status (sc_tasks (mark_dependency_blocked_tasks sc) ! i) = TaskFailed"
proof (induction sc rule: mark_dependency_blocked_tasks.induct)
  case (1 sc)
  obtain changed m where m: "mark_pass [0..<length (sc_tasks sc)] sc = (changed, m)" by fastforce
  from 1 [OF m [symmetric]] mark_pass_only_fails [OF m, of i] show ?case
    by (subst (1 2) mark_dependency_blocked_tasks.simps) (auto simp: m)
qed

lemma ended_statuses:
  assumes "schedule_ok sc"
  shows "dom (sc_task_statuses sc) = {i. phases_of sc i = Some TaskCompleted \<or> phases_of sc i = Some TaskFailed}"
proof (intro equalityI subsetI)
  fix i assume "i \<in> dom (sc_task_statuses sc)"
  then show "i \<in> {i. phases_of sc i = Some TaskCompleted \<or> phases_of sc i = Some TaskFailed}"
    using status_phase [OF assms] by (auto split: if_splits)
next
  fix i assume "i \<in> {i. phases_of sc i = Some TaskCompleted \<or> phases_of sc i = Some TaskFailed}"
  then obtain t where "t \<in> set (sc_tasks sc)" "tk_id t = i" "tk_status t = TaskCompleted \<or> tk_status t = TaskFailed"
    using phases_of_Some by blast
  with assms show "i \<in> dom (sc_task_statuses sc)" by (auto simp: schedule_ok_def task_fits_def)
qed

lemma card_tasks: "schedule_ok sc \<Longrightarrow> card (tk_id ` set (sc_tasks sc)) = length (sc_tasks sc)"
  by (metis distinct_card length_map list.set_map schedule_ok_def)

lemma statuses_within: "schedule_ok sc \<Longrightarrow> dom (sc_task_statuses sc) \<subseteq> tk_id ` set (sc_tasks sc)"
  by (simp add: schedule_ok_def)

lemma done_iff:
  assumes "schedule_ok sc"
  shows "schedule_done sc \<longleftrightarrow> (\<forall>t \<in> set (sc_tasks sc). tk_status t = TaskCompleted \<or> tk_status t = TaskFailed)"
proof -
  let ?I = "tk_id ` set (sc_tasks sc)"
  note within = statuses_within [OF assms]
  have "schedule_done sc \<longleftrightarrow> card ?I \<le> card (dom (sc_task_statuses sc))"
    by (simp add: schedule_done_def map_len_def card_tasks [OF assms])
  also have "\<dots> \<longleftrightarrow> dom (sc_task_statuses sc) = ?I"
    using card_seteq [OF _ within] by fastforce
  also have "\<dots> \<longleftrightarrow> (\<forall>t \<in> set (sc_tasks sc). tk_id t \<in> dom (sc_task_statuses sc))" using within by auto
  finally show ?thesis by (auto simp: ended_statuses [OF assms] phases_of_task [OF assms])
qed

definition nothing_running :: "schedule \<Rightarrow> bool" where
  "nothing_running sc \<longleftrightarrow> (\<forall>tid. sc_running_by_thread sc tid = None)"

lemma nothing_running_tasks:
  "schedule_ok sc \<Longrightarrow> nothing_running sc \<Longrightarrow> t \<in> set (sc_tasks sc) \<Longrightarrow> tk_status t \<noteq> TaskRunning"
  by (fastforce simp: schedule_ok_def nothing_running_def task_fits_def running_entry_def)

text \<open>When nothing runs and some task has not ended, a first such task has all it needs.\<close>

lemma some_task_waits:
  assumes ok: "schedule_ok sc" and "settled sc" and quiet: "nothing_running sc" and "\<not> schedule_done sc"
    and G: "acyclic (task_graph sc)" "fst ` task_graph sc \<subseteq> tk_id ` set (sc_tasks sc)"
  obtains i where "i < length (sc_tasks sc)" "tk_status (sc_tasks sc ! i) = TaskPending"
    "\<And>d. d \<in> set (tk_depends_on (sc_tasks sc ! i)) \<Longrightarrow> sc_task_statuses sc d = Some TurnStatusCompleted"
proof -
  let ?W = "{i. phases_of sc i = Some TaskPending}"
  have "finite (task_graph sc)" by (simp add: task_graph_def)
  with G(1) have "wf (task_graph sc)" by (simp add: finite_acyclic_wf)
  from assms(4) done_iff [OF ok] obtain t where t: "t \<in> set (sc_tasks sc)"
    "tk_status t \<noteq> TaskCompleted" "tk_status t \<noteq> TaskFailed" by blast
  with nothing_running_tasks [OF ok quiet t(1)] have "tk_status t = TaskPending" by (cases "tk_status t") auto
  with phases_of_task [OF ok t(1)] have "tk_id t \<in> ?W" by simp
  from wfE_min [OF \<open>wf (task_graph sc)\<close> this] obtain k where k: "k \<in> ?W" "\<And>d. (d, k) \<in> task_graph sc \<Longrightarrow> d \<notin> ?W"
    by blast
  from k(1) obtain i where i: "i < length (sc_tasks sc)" "k = tk_id (sc_tasks sc ! i)"
    "tk_status (sc_tasks sc ! i) = TaskPending"
    using phases_of_Some by (metis (mono_tags, lifting) in_set_conv_nth mem_Collect_eq)
  have "sc_task_statuses sc d = Some TurnStatusCompleted" if d: "d \<in> set (tk_depends_on (sc_tasks sc ! i))" for d
  proof -
    have dk: "(d, k) \<in> task_graph sc" using task_graph_nth [OF i(1) d] i(2) by simp
    with G(2) obtain u where u: "u \<in> set (sc_tasks sc)" "d = tk_id u" by force
    with k(2) [OF dk] nothing_running_tasks [OF ok quiet u(1)] phases_of_task [OF ok u(1)]
    have "tk_status u = TaskCompleted \<or> tk_status u = TaskFailed" by (cases "tk_status u") auto
    with ok u have "sc_task_statuses sc d \<noteq> None" by (auto simp: schedule_ok_def task_fits_def)
    moreover from assms(2) i have "blocker_of (sc_task_statuses sc) (tk_depends_on (sc_tasks sc ! i)) = None"
      by (simp add: settled_def)
    ultimately show ?thesis using d by (auto simp: blocker_of_None)
  qed
  with i that show ?thesis by blast
qed

lemma min_by_rank_None: "min_by_rank rank xs = None \<longleftrightarrow> xs = []"
  by (cases xs) (auto split: option.splits)

lemma pick_None:
  "pick_next_ready_task_index sc = None \<longleftrightarrow> (\<forall>i < length (sc_tasks sc). \<not> is_ready_task sc (sc_tasks sc ! i))"
  by (auto simp: pick_next_ready_task_index_def min_by_rank_None filter_empty_conv)

text \<open>The loop stops with a task running, or with nothing left to start, or had no slot.\<close>

lemma start_task_runs:
  "start_task start i sc s = (ok, sc', s') \<Longrightarrow> ok \<or> \<not> nothing_running sc \<Longrightarrow> \<not> nothing_running sc'"
  by (cases "start (sc_tasks sc ! i) s"; cases "fst (start (sc_tasks sc ! i) s)")
    (auto simp: start_task_def nothing_running_def note_task_status_def update_task_def Let_def, blast)

lemma start_loop_end:
  "start_loop start available sc s = (sc', s') \<Longrightarrow>
   (nothing_running sc' \<longrightarrow> nothing_running sc) \<and>
   (pick_next_ready_task_index sc' = None \<or> \<not> nothing_running sc' \<or> available = 0)"
proof (induction start available sc s arbitrary: sc' s' rule: start_loop.induct)
  case (1 start available sc s)
  show ?case
  proof (cases "pick_next_ready_task_index sc = None \<or> available = 0")
    case True
    with "1.prems" show ?thesis by (auto simp: start_loop.simps split: option.splits)
  next
    case False
    then obtain i where Some: "pick_next_ready_task_index sc = Some i" by auto
    obtain ok m t where m: "start_task start i sc s = (ok, m, t)" by (metis prod_cases3)
    with "1.prems" Some False have "start_loop start (if ok then available - 1 else available) m t = (sc', s')"
      by (simp add: start_loop.simps [of start available sc])
    from "1.IH" [OF Some _ m [symmetric] refl this] False start_task_runs [OF m] show ?thesis
      by (auto split: if_splits)
  qed
qed

lemma start_ready_progress:
  assumes run: "start_ready_tasks_with start sc s = (sc', s')" and ok: "schedule_ok sc"
    and G: "acyclic (task_graph sc)" "fst ` task_graph sc \<subseteq> tk_id ` set (sc_tasks sc)"
    and "\<not> schedule_done sc'" "nothing_running sc'"
  shows "sc_max_concurrent sc \<noteq> 0 \<and> sc_max_concurrent sc \<le> card (sc_external_active sc)"
proof (rule ccontr)
  assume free: "\<not> ?thesis"
  let ?sc1 = "update_ready_wait_rounds (mark_dependency_blocked_tasks sc)"
  have 1: "advances sc ?sc1" using mark_advances update_ready_advances by (rule advances_trans)
  note ok1 = advancesD [OF 1 ok]
  obtain sc2 t where l: "start_loop start (available_slots ?sc1) ?sc1 s = (sc2, t)" by fastforce
  note ends = start_loop_end [OF l]
  have ran: "sc_running_by_thread ?sc1 = sc_running_by_thread sc" "sc_external_active ?sc1 = sc_external_active sc"
    by (simp_all add: update_ready_wait_rounds_def mark_slots)
  have "nothing_running ?sc1"
    using run l ends assms(6) mark_slots [of sc2]
    by (auto simp: start_ready_tasks_with_def Let_def nothing_running_def split: if_splits)
  then have "map_len (sc_running_by_thread ?sc1) = 0" by (simp add: map_len_def nothing_running_def dom_def)
  then have slots: "available_slots ?sc1 \<noteq> 0"
    using free ok1 ran by (auto simp: available_slots_def)
  then have sc': "sc' = mark_dependency_blocked_tasks sc2"
    using run l by (simp add: start_ready_tasks_with_def Let_def)
  have adv2: "advances sc sc2" using 1 start_loop_advances [OF l] by (rule advances_trans)
  note ok2 = advancesD [OF adv2 ok]
  note ok3 = advancesD [OF start_ready_advances [OF run] ok]
  from ok3 have sh: "task_graph sc' = task_graph sc" "tk_id ` set (sc_tasks sc') = tk_id ` set (sc_tasks sc)"
    using shape_same [of sc' sc] by (metis list.set_map)+
  from some_task_waits [of sc'] ok3 sc' mark_settles assms(5,6) G sh obtain i where
    i: "i < length (sc_tasks sc')" "tk_status (sc_tasks sc' ! i) = TaskPending"
    "\<And>d. d \<in> set (tk_depends_on (sc_tasks sc' ! i)) \<Longrightarrow> sc_task_statuses sc' d = Some TurnStatusCompleted"
    by (metis (no_types, lifting))
  have len: "length (sc_tasks sc') = length (sc_tasks sc2)"
    using ok2 ok3 by (metis shape_same(2))
  have same: "sc_tasks sc' ! j = sc_tasks sc2 ! j" if "tk_status (sc_tasks sc' ! j) \<noteq> TaskFailed" for j
    using mark_only_fails [of sc2 j] that sc' by auto
  have "is_ready_task sc2 (sc_tasks sc2 ! i)"
  proof -
    have "sc_task_statuses sc2 d = Some TurnStatusCompleted" if d: "d \<in> set (tk_depends_on (sc_tasks sc' ! i))" for d
    proof -
      from status_phase [OF _ i(3) [OF d]] ok3 have "phases_of sc' d = Some TaskCompleted" by simp
      then obtain j where "j < length (sc_tasks sc')" "tk_id (sc_tasks sc' ! j) = d" "tk_status (sc_tasks sc' ! j) = TaskCompleted"
        by (metis in_set_conv_nth phases_of_Some)
      with same [of j] len have "j < length (sc_tasks sc2)" "tk_id (sc_tasks sc2 ! j) = d"
        "tk_status (sc_tasks sc2 ! j) = TaskCompleted" by auto
      with fits_nth [of sc2 j] ok2 show ?thesis by (auto simp: task_fits_def)
    qed
    with i(2) same [of i] show ?thesis by (simp add: is_ready_task_def list_all_iff)
  qed
  with i(1) len have "pick_next_ready_task_index sc2 \<noteq> None" by (auto simp: pick_None)
  moreover have "nothing_running sc2" using assms(6) sc' mark_slots [of sc2] by (simp add: nothing_running_def)
  ultimately show False using ends slots by simp
qed

section \<open>New schedules\<close>

text \<open>The tasks of an accepted spawn, each on a thread of its own.\<close>

definition tasks_graph :: "spawn_task list \<Rightarrow> (string \<times> string) set" where
  "tasks_graph tasks = (\<Union>t \<in> set tasks. (\<lambda>d. (d, tk_id t)) ` set (tk_depends_on t))"

definition fresh_tasks :: "spawn_task list \<Rightarrow> bool" where
  "fresh_tasks tasks \<longleftrightarrow>
     (\<forall>t \<in> set tasks. tk_status t = TaskPending) \<and> distinct (map tk_id tasks) \<and>
     distinct (map tk_thread_id tasks) \<and> acyclic (tasks_graph tasks) \<and>
     fst ` tasks_graph tasks \<subseteq> tk_id ` set tasks"

lemma note_status_pending:
  "\<forall>t \<in> set tasks. tk_status t = TaskPending \<Longrightarrow> foldl note_status m tasks = m"
  by (induction tasks) (auto split: prod.splits, metis (no_types, lifting) note_status.simps prod.collapse task_status.simps(13))

lemma index_by_update: "index_by key (xs @ [x]) = (index_by key xs)(key x \<mapsto> length xs)"
proof -
  have "foldl (\<lambda>m (i, x). m(key x \<mapsto> i)) m (enumerate n (xs @ [x])) =
      (foldl (\<lambda>m (i, x). m(key x \<mapsto> i)) m (enumerate n xs))(key x \<mapsto> n + length xs)" for m n
    by (simp add: enumerate_append_eq)
  then show ?thesis by (simp add: index_by_def)
qed

lemma index_by_nth: "distinct (map key xs) \<Longrightarrow> i < length xs \<Longrightarrow> index_by key xs (key (xs ! i)) = Some i"
proof (induction xs rule: rev_induct)
  case (snoc x xs)
  show ?case
  proof (cases "i = length xs")
    case False
    with snoc.prems have "i < length xs" by simp
    moreover from this have "key (xs ! i) \<in> key ` set xs" by simp
    with snoc.prems have "key (xs ! i) \<noteq> key x" by auto
    ultimately show ?thesis using snoc by (simp add: index_by_update nth_append)
  qed (use snoc.prems in \<open>simp add: index_by_update nth_append\<close>)
qed simp

lemma new_schedule_tasks [simp]:
  "sc_tasks (new_schedule parent tasks external m aging) = tasks"
  "sc_external_active (new_schedule parent tasks external m aging) = external"
  "sc_max_concurrent (new_schedule parent tasks external m aging) = m"
  "task_graph (new_schedule parent tasks external m aging) = tasks_graph tasks"
  by (simp_all add: new_schedule_def task_graph_def tasks_graph_def split: prod.splits)

lemma new_schedule_ok:
  assumes "fresh_tasks tasks" and "finite external"
  shows "schedule_ok (new_schedule parent tasks external m aging)"
    "slots_used (new_schedule parent tasks external m aging) = card external"
    "map_len (sc_task_statuses (new_schedule parent tasks external m aging)) = 0"
  using assms
  by (auto simp: new_schedule_def fresh_tasks_def schedule_ok_def note_status_pending index_by_nth
      task_fits_def running_entry_def slots_used_def map_len_def)

section \<open>A schedule gets to its end\<close>

lemma ended_mono:
  assumes "advances sc sc'" and "schedule_ok sc"
  shows "map_len (sc_task_statuses sc) \<le> map_len (sc_task_statuses sc')"
proof -
  note adv = advancesD [OF assms]
  have "finite (dom (sc_task_statuses sc'))"
    using adv by (meson finite_imageI finite_set finite_subset statuses_within)
  moreover have "dom (sc_task_statuses sc) \<subseteq> dom (sc_task_statuses sc')"
    unfolding ended_statuses [OF assms(2)] ended_statuses [OF conjunct1 [OF adv]]
    using adv graph_steps_final by fastforce
  ultimately show ?thesis by (simp add: map_len_def card_mono)
qed

lemma advances_done:
  assumes "advances sc sc'" and "schedule_ok sc" "schedule_done sc"
  shows "schedule_done sc'"
  using ended_mono [OF assms(1,2)] assms(3) shape_same(2) [of sc' sc] advancesD [OF assms(1,2)]
  by (simp add: schedule_done_def)

text \<open>The end of a running turn ends its task.\<close>

lemma completed_ends:
  assumes "schedule_ok sc" and r: "sc_running_by_thread sc tid = Some (task, turn)" and "tid \<notin> sc_external_active sc"
    and h: "handle_turn_completed keys tid turn status reason sc = (sc', stale)"
  shows "map_len (sc_task_statuses sc) < map_len (sc_task_statuses sc')"
proof -
  obtain sc1 stale1 where c: "clear_proxy_mappings_for_thread keys tid
      (sc\<lparr>sc_running_by_thread := (sc_running_by_thread sc)(tid := None)\<rparr>) = (sc1, stale1)" by fastforce
  from running_task [OF assms(1) r] obtain i where i: "i < length (sc_tasks sc)" "sc_by_id sc task = Some i"
    "tk_id (sc_tasks sc ! i) = task" "tk_status (sc_tasks sc ! i) = TaskRunning" by metis
  have sc1: "sc_by_id sc1 = sc_by_id sc" "sc_task_statuses sc1 = sc_task_statuses sc"
    by (rule clear_proxies_frame [OF c], simp)+
  let ?m = "note_task_status task status (finish_task i status reason sc1)"
  from i(2) sc1(1) have "sc_by_id sc1 task = Some i" by simp
  note adv = advancesD [OF finish_advances [OF assms(1) r c this, of status reason] assms(1)]
  have none: "sc_task_statuses sc task = None"
    using fits_nth [OF assms(1) i(1)] i(3,4) by (simp add: task_fits_def)
  have "sc_task_statuses ?m = (sc_task_statuses sc)(task \<mapsto> status)"
    using sc1(2) by (simp add: note_task_status_def finish_task_def update_task_def)
  moreover have "finite (dom (sc_task_statuses sc))"
    using assms(1) by (meson finite_imageI finite_set finite_subset statuses_within)
  ultimately have "map_len (sc_task_statuses ?m) = Suc (map_len (sc_task_statuses sc))"
    using none by (simp add: map_len_def card_insert_if domIff)
  moreover have "sc' = mark_dependency_blocked_tasks ?m"
    using h assms(3) r c i(2) sc1(1) by (simp add: handle_turn_completed_def)
  ultimately show ?thesis using ended_mono [OF mark_advances, of ?m] adv by simp
qed

text \<open>
  A round of the scheduler: start what can be started, then the end of one running turn.
  \<open>ends\<close> is what else happens: which turn ends and how, and what becomes of the server.
\<close>

type_synonym 's turn_ends = "schedule \<Rightarrow> 's \<Rightarrow> thread_id \<times> turn_status \<times> string option \<times> 's"

definition schedule_round :: "'s task_starter \<Rightarrow> key_order \<Rightarrow> 's turn_ends \<Rightarrow> schedule \<times> 's \<Rightarrow> schedule \<times> 's" where
  "schedule_round start keys ends = (\<lambda>(sc, s).
     case start_ready_tasks_with start sc s of (sc1, s1) \<Rightarrow>
     case ends sc1 s1 of (tid, status, reason, s2) \<Rightarrow>
     case sc_running_by_thread sc1 tid of
       None \<Rightarrow> (sc1, s2)
     | Some (task, turn) \<Rightarrow> (fst (handle_turn_completed keys tid turn status reason sc1), s2))"

text \<open>The foreign subagents leave a slot, and are on other threads.\<close>

definition slot_left :: "schedule \<Rightarrow> bool" where
  "slot_left sc \<longleftrightarrow> (sc_max_concurrent sc = 0 \<or> card (sc_external_active sc) < sc_max_concurrent sc) \<and>
     tk_thread_id ` set (sc_tasks sc) \<inter> sc_external_active sc = {}"

lemma advances_slot_left:
  assumes "advances sc sc'" and "schedule_ok sc" "slot_left sc"
  shows "slot_left sc'"
proof -
  note adv = advancesD [OF assms(1,2)]
  from adv have "map (\<lambda>(_, _, t). t) (task_shape sc') = map (\<lambda>(_, _, t). t) (task_shape sc)" by simp
  then have "tk_thread_id ` set (sc_tasks sc') = tk_thread_id ` set (sc_tasks sc)"
    by (simp add: task_shape_def comp_def) (metis list.set_map)
  moreover have "card (sc_external_active sc') \<le> card (sc_external_active sc)"
    using adv assms(2) by (auto simp: schedule_ok_def intro: card_mono)
  ultimately show ?thesis using adv assms(3) by (auto simp: slot_left_def)
qed

definition ends_running :: "'s turn_ends \<Rightarrow> bool" where
  "ends_running ends \<longleftrightarrow>
     (\<forall>sc s. schedule_ok sc \<longrightarrow> \<not> nothing_running sc \<longrightarrow> sc_running_by_thread sc (fst (ends sc s)) \<noteq> None)"

lemma round_progress:
  assumes "schedule_round start keys ends (sc, s) = (sc', s')" and ok: "schedule_ok sc"
    and "acyclic (task_graph sc)" "fst ` task_graph sc \<subseteq> tk_id ` set (sc_tasks sc)"
    and "slot_left sc"
    and "ends_running ends"
  shows "advances sc sc'" "schedule_done sc' \<or> map_len (sc_task_statuses sc) < map_len (sc_task_statuses sc')"
proof -
  obtain sc1 s1 where 1: "start_ready_tasks_with start sc s = (sc1, s1)" by fastforce
  obtain tid status reason s2 where 2: "ends sc1 s1 = (tid, status, reason, s2)" by (metis prod_cases4)
  note a1 = start_ready_advances [OF 1]
  note ok1 = advancesD [OF a1 ok]
  obtain sc3 stale where h: "sc_running_by_thread sc1 tid = Some (task, turn) \<Longrightarrow>
      handle_turn_completed keys tid turn status reason sc1 = (sc3, stale)" for task turn
    by (cases "sc_running_by_thread sc1 tid") (auto, metis surj_pair)
  have cases: "sc_running_by_thread sc1 tid = None \<and> sc' = sc1 \<or>
      (\<exists>task turn. sc_running_by_thread sc1 tid = Some (task, turn) \<and> sc' = sc3)"
    using assms(1) 1 2 h by (auto simp: schedule_round_def split: option.splits prod.splits)
  have a3: "advances sc1 sc3" if "sc_running_by_thread sc1 tid = Some (task, turn)" for task turn
    using completed_advances [OF h [OF that]] .
  with cases a1 show "advances sc sc'" by (auto intro: advances_trans)
  have ended: "map_len (sc_task_statuses sc) \<le> map_len (sc_task_statuses sc1)" using ended_mono [OF a1 ok] .
  show "schedule_done sc' \<or> map_len (sc_task_statuses sc) < map_len (sc_task_statuses sc')"
  proof (cases "schedule_done sc1")
    case True
    with cases a3 advances_done ok1 show ?thesis by blast
  next
    case False
    have "\<not> nothing_running sc1"
      using start_ready_progress [OF 1 ok assms(3,4) False] assms(5) by (auto simp: slot_left_def)
    with assms(6) 2 obtain task turn where r: "sc_running_by_thread sc1 tid = Some (task, turn)"
      using ok1 unfolding ends_running_def by (metis fst_conv not_None_eq surj_pair)
    with cases have "sc' = sc3" by auto
    moreover have "tid \<notin> sc_external_active sc1"
      using running_task [OF conjunct1 [OF ok1] r] advances_slot_left [OF a1 ok assms(5)]
      by (metis disjoint_iff image_eqI nth_mem slot_left_def)
    ultimately show ?thesis using completed_ends [OF _ r _ h [OF r]] ok1 ended by simp
  qed
qed

lemma rounds_progress:
  assumes "schedule_ok sc" and "acyclic (task_graph sc)" "fst ` task_graph sc \<subseteq> tk_id ` set (sc_tasks sc)"
    and "slot_left sc"
    and "ends_running ends"
  shows "case (schedule_round start keys ends ^^ n) (sc, s) of (sc', s') \<Rightarrow>
    advances sc sc' \<and> (schedule_done sc' \<or> n \<le> map_len (sc_task_statuses sc'))"
proof (induction n)
  case 0
  then show ?case by (simp add: advances_refl)
next
  case (Suc n)
  obtain m t where m: "(schedule_round start keys ends ^^ n) (sc, s) = (m, t)" by fastforce
  obtain sc' s' where r: "schedule_round start keys ends (m, t) = (sc', s')" by fastforce
  from Suc m have adv: "advances sc m" and n: "schedule_done m \<or> n \<le> map_len (sc_task_statuses m)" by auto
  note ok = advancesD [OF adv assms(1)]
  have "tk_id ` set (sc_tasks m) = tk_id ` set (sc_tasks sc)" using ok shape_same(3) by (metis list.set_map)
  with ok assms shape_same(1) [of m sc] have inv: "schedule_ok m" "acyclic (task_graph m)"
    "fst ` task_graph m \<subseteq> tk_id ` set (sc_tasks m)" "slot_left m"
    using advances_slot_left [OF adv] by auto
  note p = round_progress [OF r inv assms(5)]
  from p(1) adv have "advances sc sc'" by (blast intro: advances_trans)
  moreover have "schedule_done sc' \<or> Suc n \<le> map_len (sc_task_statuses sc')"
    using n p advances_done [OF p(1) inv(1)] by auto
  ultimately show ?case using m r by simp
qed

text \<open>C22: Whatever order the turns end in and with whatever status, the tasks of an accepted spawn
  have all ended after as many rounds as there are tasks: the schedule never gets stuck, as
  long as the foreign subagents leave it one slot.\<close>

theorem schedule_ends:
  assumes "fresh_tasks tasks" and "finite external" "tk_thread_id ` set tasks \<inter> external = {}"
    and "max_concurrent = 0 \<or> card external < max_concurrent"
    and "ends_running ends"
  shows "schedule_done (fst ((schedule_round start keys ends ^^ length tasks)
    (new_schedule parent tasks external max_concurrent aging, s)))"
proof -
  let ?sc = "new_schedule parent tasks external max_concurrent aging"
  have ok: "schedule_ok ?sc" using new_schedule_ok(1) [OF assms(1,2)] .
  have left: "slot_left ?sc" using assms(3,4) by (simp add: slot_left_def)
  obtain sc' s' where r: "(schedule_round start keys ends ^^ length tasks) (?sc, s) = (sc', s')" by fastforce
  from rounds_progress [OF ok _ _ left assms(5), where n = "length tasks" and s = s and start = start and keys = keys]
    r assms(1)
  have "advances ?sc sc'" "schedule_done sc' \<or> length tasks \<le> map_len (sc_task_statuses sc')"
    by (simp_all add: fresh_tasks_def)
  with shape_same(2) [of sc' ?sc] advancesD [OF _ ok, of sc'] show ?thesis
    by (auto simp: r schedule_done_def)
qed

text \<open>A chain of two tasks; a task that cannot be started; the turn that runs is interrupted.\<close>

definition sample_task :: "string \<Rightarrow> string list \<Rightarrow> uuid \<Rightarrow> spawn_task" where
  "sample_task i deps n =
     \<lparr>tk_id = i, tk_title = [], tk_input = ''work'', tk_depends_on = deps, tk_priority = PriorityNormal,
      tk_spawn_mode = SpawnNew, tk_mode = ''coder'', tk_workspace_mode = WorkspaceReadOnly,
      tk_model = None, tk_openai_base_url = None, tk_expected_artifact_type = ''fan_out_result'',
      tk_workspace_cwd = None, tk_thread_id = ThreadId n, tk_log_path = [], tk_last_seq = 0,
      tk_turn_id = None, tk_status = TaskPending, tk_error = None\<rparr>"

definition sample_tasks :: "spawn_task list" where
  "sample_tasks = [sample_task ''a'' [] 1, sample_task ''b'' [''a''] 2, sample_task ''c'' [] 3]"

lemma sample_tasks_fresh: "fresh_tasks sample_tasks"
proof -
  have "tasks_graph sample_tasks = {(''a'', ''b'')}"
    by (simp add: tasks_graph_def sample_tasks_def sample_task_def)
  moreover have "acyclic {(''a'', ''b'')}" by (simp add: acyclic_insert) (simp add: acyclic_def)
  ultimately show ?thesis by (simp add: fresh_tasks_def) (simp add: sample_tasks_def sample_task_def)
qed

definition sample_starter :: "nat task_starter" where
  "sample_starter t n = (if tk_id t = ''c'' then (Inl ''no room'', n) else (Inr (TurnId (of_nat n)), n + 1))"

definition sample_ends :: "nat turn_ends" where
  "sample_ends sc n =
     (case List.find (\<lambda>t. tk_status t = TaskRunning) (sc_tasks sc) of
        Some t \<Rightarrow> (tk_thread_id t, TurnStatusCompleted, None, n)
      | None \<Rightarrow> (ThreadId 0, TurnStatusCompleted, None, n))"

lemma sample_ends_running: "ends_running sample_ends"
  unfolding ends_running_def
proof (intro allI impI)
  fix sc :: schedule and s :: nat
  assume ok: "schedule_ok sc" and "\<not> nothing_running sc"
  then obtain tid task turn where "sc_running_by_thread sc tid = Some (task, turn)"
    by (auto simp: nothing_running_def)
  from running_task [OF ok this] have "List.find (\<lambda>t. tk_status t = TaskRunning) (sc_tasks sc) \<noteq> None"
    by (metis (mono_tags, lifting) find_None_iff nth_mem)
  then obtain t where t: "List.find (\<lambda>t. tk_status t = TaskRunning) (sc_tasks sc) = Some t" by auto
  then have "t \<in> set (sc_tasks sc)" "tk_status t = TaskRunning" by (auto simp: find_Some_iff)
  with ok have "sc_running_by_thread sc (tk_thread_id t) \<noteq> None"
    by (auto simp: schedule_ok_def task_fits_def running_entry_def)
  with t show "sc_running_by_thread sc (fst (sample_ends sc s)) \<noteq> None" by (simp add: sample_ends_def)
qed

theorem schedule_ends_witness:
  "schedule_done (fst ((schedule_round sample_starter (\<lambda>_. []) sample_ends ^^ length sample_tasks)
     (new_schedule (ThreadId 9) sample_tasks {ThreadId 7} 2 3, 0)))"
  by (rule schedule_ends [OF sample_tasks_fresh])
    (simp_all add: sample_ends_running, simp add: sample_tasks_def sample_task_def)

end
