(* ===== verification/ScheduleProxy.thy ===== *)
theory ScheduleProxy
  imports ScheduleRuns Approval
begin

text \<open>
  Approvals of subagents as approvals of their parent, and the loop of the scheduler
  (\<open>subagents_schedule_approval_proxy.rs\<close>, \<open>subagents_schedule_event_catch_up.rs\<close> and the loop of
  \<open>subagents_schedule.rs\<close>). A request of a running subagent becomes a request of the parent; a
  decision on either side is carried to the other; when the turn ends first, what is left is
  denied. The operations run on the schedule and the server together and never fail: where
  the code gives up on an error, they leave things as they are.
\<close>

section \<open>The environment\<close>

record sched_env =
  se_server :: server_env
  se_lib :: approval_lib
  se_turn_id :: "string \<Rightarrow> turn_id"
  se_proxy_id :: "approval_key \<Rightarrow> approval_id"
  se_show_turn :: "turn_id \<Rightarrow> string"
  se_show_error :: "turn_error \<Rightarrow> string"
  se_keys :: key_order

text \<open>\<open>read_events_since(id, since).ok().flatten()\<close>.\<close>

definition log_since :: "turn_server \<Rightarrow> thread_id \<Rightarrow> event_seq \<Rightarrow> thread_event list option" where
  "log_since s tid since =
     map_option (filter (\<lambda>e. since < ev_seq e)) (sv_logs (tn_server s) tid)"

text \<open>\<open>get_or_load_thread\<close> and \<open>append_event\<close>, with whether they succeeded.\<close>

definition try_append :: "server_env \<Rightarrow> thread_id \<Rightarrow> thread_event_kind \<Rightarrow> turn_server \<Rightarrow> bool \<times> turn_server" where
  "try_append env tid kind s =
     (case act_bind (load_runtime env tid) (\<lambda>_. on_threads (rt_append_event env tid kind)) s of
        (Inl _, s') \<Rightarrow> (False, s')
      | (Inr _, s') \<Rightarrow> (True, s'))"

section \<open>The maps of proxies\<close>

definition clear_pending_approval_by_child :: "approval_key \<Rightarrow> schedule \<Rightarrow> schedule" where
  "clear_pending_approval_by_child k sc = sc\<lparr>sc_pending_approvals := (sc_pending_approvals sc)(k := None)\<rparr>"

definition clear_pending_approval_by_proxy :: "key_order \<Rightarrow> approval_id \<Rightarrow> schedule \<Rightarrow> schedule" where
  "clear_pending_approval_by_proxy keys proxy sc =
     (case List.find (\<lambda>k. map_option pa_approval_id (sc_pending_approvals sc k) = Some proxy)
             (keys (dom (sc_pending_approvals sc))) of
        None \<Rightarrow> sc
      | Some k \<Rightarrow> clear_pending_approval_by_child k sc)"

definition clear_proxy_mapping :: "key_order \<Rightarrow> approval_id \<Rightarrow> schedule \<Rightarrow> schedule" where
  "clear_proxy_mapping keys proxy sc =
     (case sc_approval_proxy_targets sc proxy of
        None \<Rightarrow> clear_pending_approval_by_proxy keys proxy sc
      | Some k \<Rightarrow>
          clear_pending_approval_by_child k
            (sc\<lparr>sc_approval_proxy_by_child := (sc_approval_proxy_by_child sc)(k := None),
                sc_approval_proxy_targets := (sc_approval_proxy_targets sc)(proxy := None)\<rparr>))"

definition summarize_subagent_pending_approval ::
  "sched_env \<Rightarrow> approval_key \<Rightarrow> turn_id \<Rightarrow> string \<Rightarrow> string" where
  "summarize_subagent_pending_approval env k turn action =
     ''child_thread_id='' @ al_show_thread (se_lib env) (ak_thread_id k) @
     '' child_turn_id='' @ se_show_turn env turn @
     '' child_approval_id='' @ al_show_approval (se_lib env) (ak_approval_id k) @
     '' child_action='' @ action"

definition set_pending_approval ::
  "sched_env \<Rightarrow> approval_key \<Rightarrow> turn_id \<Rightarrow> string \<Rightarrow> approval_id \<Rightarrow> schedule \<Rightarrow> schedule" where
  "set_pending_approval env k turn action proxy sc =
     sc\<lparr>sc_pending_approvals := (sc_pending_approvals sc)(k \<mapsto>
        \<lparr>pa_action = ''subagent/proxy_approval'', pa_approval_id = proxy,
         pa_summary = summarize_subagent_pending_approval env k turn action,
         pa_child_turn_id = turn, pa_child_approval_id = ak_approval_id k, pa_child_action = action\<rparr>)\<rparr>"

definition add_proxy :: "approval_key \<Rightarrow> approval_id \<Rightarrow> schedule \<Rightarrow> schedule" where
  "add_proxy k proxy sc =
     sc\<lparr>sc_approval_proxy_by_child := (sc_approval_proxy_by_child sc)(k \<mapsto> proxy),
        sc_approval_proxy_targets := (sc_approval_proxy_targets sc)(proxy \<mapsto> k)\<rparr>"

section \<open>What the logs say\<close>

definition parse_subagent_proxy_child_key :: "approval_lib \<Rightarrow> json \<Rightarrow> approval_key option" where
  "parse_subagent_proxy_child_key lib params =
     (case Option.bind (json_get ''subagent_proxy'' params) as_object of
        None \<Rightarrow> None
      | Some proxy \<Rightarrow>
          if Option.bind (map_of proxy ''kind'') as_str \<noteq> Some ''approval'' then None
          else
            (case Option.bind (Option.bind (map_of proxy ''child_thread_id'') as_str) (al_parse_thread lib) of
               None \<Rightarrow> None
             | Some thread \<Rightarrow>
                 (case Option.bind (Option.bind (map_of proxy ''child_approval_id'') as_str) (al_parse_approval lib) of
                    None \<Rightarrow> None
                  | Some approval \<Rightarrow> Some \<lparr>ak_thread_id = thread, ak_approval_id = approval\<rparr>)))"

record existing_decision =
  ed_decision :: approval_decision
  ed_remember :: bool
  ed_reason :: "string option"

record existing_proxy =
  ep_approval_id :: approval_id
  ep_decision :: "existing_decision option"

text \<open>The loop over the parent's events: the latest proxy of the request, and all decisions.\<close>

fun proxy_scan ::
  "approval_lib \<Rightarrow> approval_key \<Rightarrow> thread_event list \<Rightarrow>
     approval_id option \<times> (approval_id \<Rightarrow> existing_decision option) \<Rightarrow>
     approval_id option \<times> (approval_id \<Rightarrow> existing_decision option)" where
  "proxy_scan lib k [] acc = acc"
| "proxy_scan lib k (e # es) (latest, decided) =
     (case ev_kind e of
        ApprovalRequested i _ action params \<Rightarrow>
          if action \<noteq> ''subagent/proxy_approval'' then proxy_scan lib k es (latest, decided)
          else if parse_subagent_proxy_child_key lib params = Some k then proxy_scan lib k es (Some i, decided)
          else proxy_scan lib k es (latest, decided)
      | ApprovalDecided i decision remember reason \<Rightarrow>
          proxy_scan lib k es (latest, decided(i \<mapsto>
            \<lparr>ed_decision = decision, ed_remember = remember, ed_reason = reason\<rparr>))
      | _ \<Rightarrow> proxy_scan lib k es (latest, decided))"

definition find_existing_parent_proxy_approval ::
  "sched_env \<Rightarrow> schedule \<Rightarrow> turn_server \<Rightarrow> approval_key \<Rightarrow> existing_proxy option" where
  "find_existing_parent_proxy_approval env sc s k =
     (case log_since s (sc_parent_thread_id sc) 0 of
        None \<Rightarrow> None
      | Some events \<Rightarrow>
          (case proxy_scan (se_lib env) k events (None, Map.empty) of
             (None, decided) \<Rightarrow> None
           | (Some i, decided) \<Rightarrow> Some \<lparr>ep_approval_id = i, ep_decision = decided i\<rparr>))"

datatype approval_state = ApprovalMissing | ApprovalPending | ApprovalHasDecision

fun requests_approval :: "approval_id \<Rightarrow> thread_event_kind \<Rightarrow> bool" where
  "requests_approval i (ApprovalRequested got _ _ _) \<longleftrightarrow> got = i"
| "requests_approval i _ \<longleftrightarrow> False"

fun decides_approval :: "approval_id \<Rightarrow> thread_event_kind \<Rightarrow> bool" where
  "decides_approval i (ApprovalDecided got _ _ _) \<longleftrightarrow> got = i"
| "decides_approval i _ \<longleftrightarrow> False"

definition approval_state_of :: "turn_server \<Rightarrow> thread_id \<Rightarrow> approval_id \<Rightarrow> approval_state option" where
  "approval_state_of s tid i =
     map_option (\<lambda>events.
       if \<not> list_ex (\<lambda>e. requests_approval i (ev_kind e)) events then ApprovalMissing
       else if list_ex (\<lambda>e. decides_approval i (ev_kind e)) events then ApprovalHasDecision
       else ApprovalPending)
     (log_since s tid 0)"

section \<open>Carrying decisions\<close>

definition reconcile_child_approval_with_parent_decision ::
  "sched_env \<Rightarrow> approval_key \<Rightarrow> existing_decision \<Rightarrow> turn_server \<Rightarrow> turn_server" where
  "reconcile_child_approval_with_parent_decision env k d s =
     (if approval_state_of s (ak_thread_id k) (ak_approval_id k) \<noteq> Some ApprovalPending then s
      else snd (try_append (se_server env) (ak_thread_id k)
             (ApprovalDecided (ak_approval_id k) (ed_decision d) (ed_remember d)
                (Some (decorate_subagent_proxy_forwarded_reason (ed_reason d)))) s))"

definition append_parent_proxy_decision_if_pending ::
  "sched_env \<Rightarrow> thread_id \<Rightarrow> approval_id \<Rightarrow> approval_decision \<Rightarrow> bool \<Rightarrow> string option \<Rightarrow>
     turn_server \<Rightarrow> turn_server" where
  "append_parent_proxy_decision_if_pending env parent i decision remember reason s =
     (if approval_state_of s parent i \<noteq> Some ApprovalPending then s
      else snd (try_append (se_server env) parent (ApprovalDecided i decision remember reason) s))"

definition proxy_params ::
  "sched_env \<Rightarrow> spawn_task \<Rightarrow> approval_key \<Rightarrow> turn_id \<Rightarrow> string \<Rightarrow> json \<Rightarrow> json" where
  "proxy_params env t k turn action params = JObject
     [(''subagent_proxy'', JObject
        [(''kind'', JString ''approval''), (''task_id'', JString (tk_id t)), (''task_title'', JString (tk_title t)),
         (''child_thread_id'', JString (al_show_thread (se_lib env) (ak_thread_id k))),
         (''child_turn_id'', JString (se_show_turn env turn)),
         (''child_approval_id'', JString (al_show_approval (se_lib env) (ak_approval_id k)))]),
      (''child_request'', JObject [(''action'', JString action), (''params'', params)])]"

definition new_proxy ::
  "sched_env \<Rightarrow> string \<Rightarrow> approval_key \<Rightarrow> turn_id \<Rightarrow> string \<Rightarrow> json \<Rightarrow> schedule \<times> turn_server \<Rightarrow>
     schedule \<times> turn_server" where
  "new_proxy env task k turn action params = (\<lambda>(sc, s).
     case sc_by_id sc task of
       None \<Rightarrow> (sc, s)
     | Some i \<Rightarrow>
         (case try_append (se_server env) (sc_parent_thread_id sc)
            (ApprovalRequested (se_proxy_id env k) None ''subagent/proxy_approval''
               (proxy_params env (sc_tasks sc ! i) k turn action params)) s of
            (False, s') \<Rightarrow> (sc, s')
          | (True, s') \<Rightarrow>
              (set_pending_approval env k turn action (se_proxy_id env k)
                 (add_proxy k (se_proxy_id env k) sc), s')))"

definition handle_approval_requested ::
  "sched_env \<Rightarrow> thread_id \<Rightarrow> approval_id \<Rightarrow> turn_id option \<Rightarrow> string \<Rightarrow> json \<Rightarrow> schedule \<times> turn_server \<Rightarrow>
     schedule \<times> turn_server" where
  "handle_approval_requested env child i turn_opt action params = (\<lambda>(sc, s).
     let k = \<lparr>ak_thread_id = child, ak_approval_id = i\<rparr> in
     case sc_running_by_thread sc child of
       None \<Rightarrow> (sc, s)
     | Some (task, turn) \<Rightarrow>
         if turn_opt \<noteq> Some turn then (sc, s)
         else
           (case sc_approval_proxy_by_child sc k of
              Some proxy \<Rightarrow> (set_pending_approval env k turn action proxy sc, s)
            | None \<Rightarrow>
                (case find_existing_parent_proxy_approval env sc s k of
                   Some existing \<Rightarrow>
                     (case ep_decision existing of
                        Some d \<Rightarrow>
                          (clear_pending_approval_by_child k sc,
                           reconcile_child_approval_with_parent_decision env k d s)
                      | None \<Rightarrow>
                          (set_pending_approval env k turn action (ep_approval_id existing)
                             (add_proxy k (ep_approval_id existing) sc), s))
                 | None \<Rightarrow> new_proxy env task k turn action params (sc, s))))"

definition handle_approval_decided ::
  "sched_env \<Rightarrow> thread_id \<Rightarrow> approval_id \<Rightarrow> approval_decision \<Rightarrow> bool \<Rightarrow> string option \<Rightarrow>
     schedule \<times> turn_server \<Rightarrow> schedule \<times> turn_server" where
  "handle_approval_decided env tid i decision remember reason = (\<lambda>(sc, s).
     if tid = sc_parent_thread_id sc then (clear_proxy_mapping (se_keys env) i sc, s)
     else
       (let k = \<lparr>ak_thread_id = tid, ak_approval_id = i\<rparr>;
            proxy = sc_approval_proxy_by_child sc k;
            sc' = clear_pending_approval_by_child k
              (case proxy of
                 None \<Rightarrow> sc
               | Some p \<Rightarrow>
                   sc\<lparr>sc_approval_proxy_by_child := (sc_approval_proxy_by_child sc)(k := None),
                      sc_approval_proxy_targets := (sc_approval_proxy_targets sc)(p := None)\<rparr>)
        in if (case reason of Some r \<Rightarrow> starts_with ''[subagent_proxy_forwarded]'' r | None \<Rightarrow> False)
           then (sc', s)
           else
             (case (case proxy of
                      Some p \<Rightarrow> Some p
                    | None \<Rightarrow> Option.bind (find_existing_parent_proxy_approval env sc s k)
                        (\<lambda>existing. if ep_decision existing \<noteq> None then None
                                    else Some (ep_approval_id existing))) of
                None \<Rightarrow> (sc', s)
              | Some p \<Rightarrow>
                  (sc', append_parent_proxy_decision_if_pending env (sc_parent_thread_id sc) p
                          decision remember reason s))))"

text \<open>The loop over the proxies a finished turn leaves; the decisions were read once, before it.\<close>

fun deny_proxies ::
  "server_env \<Rightarrow> thread_id \<Rightarrow> string \<Rightarrow> thread_event list \<Rightarrow> approval_id list \<Rightarrow> turn_server \<Rightarrow> turn_server" where
  "deny_proxies env parent reason events [] s = s"
| "deny_proxies env parent reason events (i # is) s =
     deny_proxies env parent reason events is
       (if list_ex (\<lambda>e. decides_approval i (ev_kind e)) events then s
        else snd (on_threads (rt_append_event env parent (ApprovalDecided i Denied False (Some reason))) s))"

definition auto_deny_stale_parent_proxy_approvals ::
  "sched_env \<Rightarrow> thread_id \<Rightarrow> thread_id \<Rightarrow> turn_id \<Rightarrow> turn_status \<Rightarrow> approval_id list \<Rightarrow>
     turn_server \<Rightarrow> turn_server" where
  "auto_deny_stale_parent_proxy_approvals env parent child turn status stale s =
     (if stale = [] then s
      else
        (case log_since s parent 0 of
           None \<Rightarrow> s
         | Some events \<Rightarrow>
             (case load_runtime (se_server env) parent s of
                (Inl _, s') \<Rightarrow> s'
              | (Inr _, s') \<Rightarrow>
                  deny_proxies (se_server env) parent
                    (''[subagent_proxy_auto_denied] unresolved at turn completion (child_thread_id='' @
                     al_show_thread (se_lib env) child @ '' child_turn_id='' @ se_show_turn env turn @
                     '' status='' @ show_turn_status status @ '')'') events stale s')))"

section \<open>Events and the loop\<close>

definition update_task_last_seq :: "thread_id \<Rightarrow> event_seq \<Rightarrow> schedule \<Rightarrow> schedule" where
  "update_task_last_seq tid seq sc =
     (case List.find (\<lambda>i. tk_thread_id (sc_tasks sc ! i) = tid \<and> tk_last_seq (sc_tasks sc ! i) < seq)
             [0..<length (sc_tasks sc)] of
        None \<Rightarrow> sc
      | Some i \<Rightarrow> update_task i (\<lambda>t. t\<lparr>tk_last_seq := seq\<rparr>) sc)"

definition turn_completed_event ::
  "sched_env \<Rightarrow> thread_id \<Rightarrow> turn_id \<Rightarrow> turn_status \<Rightarrow> string option \<Rightarrow> schedule \<times> turn_server \<Rightarrow>
     schedule \<times> turn_server" where
  "turn_completed_event env tid turn status reason = (\<lambda>(sc, s).
     case handle_turn_completed (se_keys env) tid turn status reason sc of
       (sc', stale) \<Rightarrow>
         (sc', auto_deny_stale_parent_proxy_approvals env (sc_parent_thread_id sc') tid turn status stale s))"

text \<open>The events of the running subagents that no notification has brought, one by one.\<close>

fun catch_up_event :: "sched_env \<Rightarrow> thread_id \<Rightarrow> turn_id \<Rightarrow> thread_event \<Rightarrow> schedule \<times> turn_server \<Rightarrow>
     schedule \<times> turn_server" where
  "catch_up_event env tid running e st =
     (case ev_kind e of
        TurnCompleted turn status reason \<Rightarrow>
          if turn = running then turn_completed_event env tid turn status reason st else st
      | ApprovalRequested i turn action params \<Rightarrow> handle_approval_requested env tid i turn action params st
      | ApprovalDecided i decision remember reason \<Rightarrow>
          handle_approval_decided env tid i decision remember reason st
      | _ \<Rightarrow> st)"

definition catch_up_task ::
  "sched_env \<Rightarrow> nat \<times> thread_id \<times> turn_id \<times> event_seq \<Rightarrow> schedule \<times> turn_server \<Rightarrow> schedule \<times> turn_server" where
  "catch_up_task env = (\<lambda>(i, tid, running, since) (sc, s).
     case log_since s tid since of
       None \<Rightarrow> (sc, s)
     | Some events \<Rightarrow>
         (case fold (catch_up_event env tid running) events (sc, s) of
            (sc', s') \<Rightarrow>
              (let max_seq = foldl (\<lambda>m e. max m (ev_seq e)) since events in
               (if since < max_seq \<and> i < length (sc_tasks sc')
                then update_task i (\<lambda>t. t\<lparr>tk_last_seq := max_seq\<rparr>) sc' else sc', s'))))"

definition running_snapshot :: "schedule \<Rightarrow> (nat \<times> thread_id \<times> turn_id \<times> event_seq) list" where
  "running_snapshot sc = List.map_filter (\<lambda>(i, t).
     case tk_turn_id t of
       None \<Rightarrow> None
     | Some turn \<Rightarrow> if tk_status t \<noteq> TaskRunning then None else Some (i, tk_thread_id t, turn, tk_last_seq t))
     (enumerate 0 (sc_tasks sc))"

definition catch_up_running_events :: "sched_env \<Rightarrow> schedule \<times> turn_server \<Rightarrow> schedule \<times> turn_server" where
  "catch_up_running_events env st = fold (catch_up_task env) (running_snapshot (fst st)) st"

text \<open>What the loop does with an event of a notification.\<close>

definition schedule_event :: "sched_env \<Rightarrow> thread_event \<Rightarrow> schedule \<times> turn_server \<Rightarrow> schedule \<times> turn_server" where
  "schedule_event env e st =
     (case (case ev_kind e of
              TurnCompleted turn status reason \<Rightarrow>
                turn_completed_event env (ev_thread_id e) turn status reason st
            | ApprovalRequested i turn action params \<Rightarrow>
                handle_approval_requested env (ev_thread_id e) i turn action params st
            | ApprovalDecided i decision remember reason \<Rightarrow>
                handle_approval_decided env (ev_thread_id e) i decision remember reason st
            | _ \<Rightarrow> st) of
        (sc, s) \<Rightarrow> (update_task_last_seq (ev_thread_id e) (ev_seq e) sc, s))"

datatype notification = NotifyEvent thread_event | NotifyOther | NotifyLagged

text \<open>
  One iteration: start what is ready, catch up, and unless everything has ended take the next
  notification. \<open>others\<close> is what the rest of the server does before it arrives.
\<close>

definition start_ready_step :: "sched_env \<Rightarrow> schedule \<times> turn_server \<Rightarrow> schedule \<times> turn_server" where
  "start_ready_step env = (\<lambda>(sc, s). start_ready_tasks (se_server env) (se_turn_id env) (se_show_error env) sc s)"

fun handle_notification :: "sched_env \<Rightarrow> notification \<Rightarrow> schedule \<times> turn_server \<Rightarrow> schedule \<times> turn_server" where
  "handle_notification env (NotifyEvent e) st = schedule_event env e st"
| "handle_notification env NotifyOther st = st"
| "handle_notification env NotifyLagged st = catch_up_running_events env st"

fun scheduler_loop ::
  "sched_env \<Rightarrow> ((turn_server \<Rightarrow> turn_server) \<times> notification) list \<Rightarrow> schedule \<times> turn_server \<Rightarrow>
     schedule \<times> turn_server" where
  "scheduler_loop env [] st = catch_up_running_events env (start_ready_step env st)"
| "scheduler_loop env ((others, n) # ns) st =
     (case catch_up_running_events env (start_ready_step env st) of
        (sc, s) \<Rightarrow>
          if schedule_done sc then (sc, s)
          else scheduler_loop env ns (handle_notification env n (sc, others s)))"

end
