(* ===== verification/ScheduleLoop.thy ===== *)
theory ScheduleLoop
  imports ScheduleProxy
begin

text \<open>
  What the loop of the scheduler does, whatever notifications arrive and whatever the rest of
  the server does between them: the tasks follow the graph and the limit is kept; a foreign
  subagent whose last notification is missed holds its slot for ever; and an approval is only
  ever granted on one side because it was granted on the other.
\<close>

section \<open>Every part of the loop is steps of the graph\<close>

definition keeps :: "schedule \<Rightarrow> schedule \<Rightarrow> bool" where
  "keeps sc sc' \<longleftrightarrow> advances sc sc' \<and> (schedule_ok sc \<longrightarrow> slots_ok sc \<longrightarrow> slots_ok sc')"

lemma keeps_refl: "keeps sc sc"
  by (simp add: keeps_def advances_refl)

lemma keeps_trans: "keeps a b \<Longrightarrow> keeps b c \<Longrightarrow> keeps a c"
  unfolding keeps_def using advancesD [of a b] by (blast intro: advances_trans)

lemma keeps_fold: "(\<And>x st. keeps (fst st) (fst (f x st))) \<Longrightarrow> keeps (fst st) (fst (fold f xs st))"
proof (induction xs arbitrary: st)
  case (Cons x xs)
  from keeps_trans [OF Cons.prems Cons.IH [OF Cons.prems]] show ?case by simp
qed (simp add: keeps_refl)

text \<open>The proxies are not part of the graph.\<close>

lemma keeps_proxies [simp]:
  "keeps sc (sc\<lparr>sc_pending_approvals := h\<rparr>)"
  "keeps sc (sc\<lparr>sc_approval_proxy_by_child := f, sc_approval_proxy_targets := g\<rparr>)"
  by (simp_all add: keeps_def slots_ok_def slots_used_def advances_frame)

lemma keeps_pending [simp]:
  "keeps sc (clear_pending_approval_by_child k sc)"
  "keeps sc (set_pending_approval env k turn action proxy sc)"
  "keeps sc (add_proxy k proxy sc)"
  by (simp_all add: clear_pending_approval_by_child_def set_pending_approval_def add_proxy_def)

lemma keeps_clear_mapping [simp]: "keeps sc (clear_proxy_mapping keys proxy sc)"
proof (cases "sc_approval_proxy_targets sc proxy")
  case None
  then show ?thesis
    by (simp add: clear_proxy_mapping_def clear_pending_approval_by_proxy_def keeps_refl split: option.split)
next
  case (Some k)
  have "clear_proxy_mapping keys proxy sc = clear_pending_approval_by_child k
      (sc\<lparr>sc_approval_proxy_by_child := (sc_approval_proxy_by_child sc)(k := None),
          sc_approval_proxy_targets := (sc_approval_proxy_targets sc)(proxy := None)\<rparr>)"
    using Some by (simp add: clear_proxy_mapping_def)
  then show ?thesis by (simp only: keeps_trans [OF keeps_proxies(2) keeps_pending(1)])
qed

lemma keeps_start: "keeps sc (fst (start_ready_tasks env fresh show_error sc s))"
proof -
  obtain sc' s' where r: "start_ready_tasks env fresh show_error sc s = (sc', s')" by fastforce
  with start_ready_advances start_ready_slots show ?thesis
    unfolding start_ready_tasks_def keeps_def by (metis fst_conv)
qed

lemma keeps_completed: "keeps sc (fst (handle_turn_completed keys tid turn status reason sc))"
proof -
  obtain sc' stale where r: "handle_turn_completed keys tid turn status reason sc = (sc', stale)" by fastforce
  with completed_advances completed_slots show ?thesis unfolding keeps_def by (metis fst_conv)
qed

lemma keeps_seq: "i < length (sc_tasks sc) \<Longrightarrow> keeps sc (update_task i (\<lambda>t. t\<lparr>tk_last_seq := q\<rparr>) sc)"
proof -
  assume i: "i < length (sc_tasks sc)"
  let ?t = "sc_tasks sc ! i"
  let ?sc = "update_task i (\<lambda>t. t\<lparr>tk_last_seq := q\<rparr>) sc"
  have "advances sc ?sc"
    unfolding advances_def
  proof
    assume ok: "schedule_ok sc"
    have "(sc_running_by_thread sc)(tk_thread_id ?t := running_entry (?t\<lparr>tk_last_seq := q\<rparr>)) = sc_running_by_thread sc"
      using fits_nth [OF ok i] by (intro fun_upd_idem) (simp add: task_fits_def running_entry_def)
    with fits_nth [OF ok i] i
    have "schedule_ok ?sc" "phases_of ?sc = (phases_of sc)(tk_id ?t \<mapsto> tk_status ?t)" "task_shape ?sc = task_shape sc"
      using task_change [OF ok i, of ?sc "?t\<lparr>tk_last_seq := q\<rparr>" "sc_task_statuses sc (tk_id ?t)"]
      by (simp_all add: update_task_def task_fits_def)
    moreover have "(phases_of sc)(tk_id ?t \<mapsto> tk_status ?t) = phases_of sc"
      using phases_of_nth [OF ok i] by (simp add: fun_upd_idem)
    ultimately show "schedule_ok ?sc \<and> task_shape ?sc = task_shape sc \<and>
       (graph_step (task_graph sc))\<^sup>*\<^sup>* (phases_of sc) (phases_of ?sc) \<and>
       sc_max_concurrent ?sc = sc_max_concurrent sc \<and> sc_parent_thread_id ?sc = sc_parent_thread_id sc \<and>
       sc_priority_aging_rounds ?sc = sc_priority_aging_rounds sc \<and>
       sc_external_active ?sc \<subseteq> sc_external_active sc" by (simp add: update_task_def)
  qed
  then show ?thesis by (simp add: keeps_def slots_ok_def slots_used_def update_task_def)
qed

lemma keeps_last_seq: "keeps sc (update_task_last_seq tid seq sc)"
  by (auto simp: update_task_last_seq_def keeps_refl find_Some_iff intro!: keeps_seq split: option.splits)

lemma keeps_new_proxy: "keeps (fst st) (fst (new_proxy env task k turn action params st))"
proof -
  have "keeps sc (set_pending_approval env k turn action p (add_proxy k q sc))" for sc p q
    by (rule keeps_trans [OF keeps_pending(3) keeps_pending(2)])
  then show ?thesis by (auto simp: new_proxy_def keeps_refl split: prod.splits option.splits bool.splits)
qed

lemma keeps_requested: "keeps (fst st) (fst (handle_approval_requested env tid i turn action params st))"
proof -
  obtain sc s where st: "st = (sc, s)" by fastforce
  have "keeps sc (set_pending_approval env k t action p (add_proxy k q sc))" for k t p q
    by (rule keeps_trans [OF keeps_pending(3) keeps_pending(2)])
  with keeps_new_proxy [of "(sc, s)"] show ?thesis
    by (auto simp: st handle_approval_requested_def Let_def keeps_refl split: option.splits)
qed

lemma keeps_decided: "keeps (fst st) (fst (handle_approval_decided env tid i decision remember reason st))"
proof -
  obtain sc s where st: "st = (sc, s)" by fastforce
  have "keeps sc (clear_pending_approval_by_child k (sc\<lparr>sc_approval_proxy_by_child := f, sc_approval_proxy_targets := g\<rparr>))"
    for k f g by (rule keeps_trans [OF keeps_proxies(2) keeps_pending(1)])
  then show ?thesis
    by (auto simp: st handle_approval_decided_def Let_def split: option.splits)
qed

lemma keeps_turn_completed: "keeps (fst st) (fst (turn_completed_event env tid turn status reason st))"
proof -
  obtain sc s where st: "st = (sc, s)" by fastforce
  with keeps_completed [of sc "se_keys env" tid turn status reason] show ?thesis
    by (auto simp: turn_completed_event_def split: prod.splits)
qed

lemma keeps_catch_up_event: "keeps (fst st) (fst (catch_up_event env tid running e st))"
  using keeps_turn_completed keeps_requested keeps_decided
  by (auto simp: keeps_refl split: thread_event_kind.split)

lemma keeps_catch_up_task: "keeps (fst st) (fst (catch_up_task env x st))"
proof -
  obtain i tid running since sc s where x: "x = (i, tid, running, since)" "st = (sc, s)"
    by (metis prod_cases4 surj_pair)
  show ?thesis
  proof (cases "log_since s tid since")
    case None
    then show ?thesis by (simp add: x catch_up_task_def keeps_refl)
  next
    case (Some events)
    obtain sc' s' where f: "fold (catch_up_event env tid running) events (sc, s) = (sc', s')" by fastforce
    have "keeps sc sc'"
      using keeps_fold [of "catch_up_event env tid running", OF keeps_catch_up_event, of "(sc, s)" events] f by simp
    with keeps_seq [of i sc'] keeps_trans show ?thesis by (auto simp: x catch_up_task_def Some f Let_def)
  qed
qed

lemma keeps_catch_up: "keeps (fst st) (fst (catch_up_running_events env st))"
  unfolding catch_up_running_events_def by (rule keeps_fold [OF keeps_catch_up_task])

lemma keeps_schedule_event: "keeps (fst st) (fst (schedule_event env e st))"
proof -
  let ?st = "case ev_kind e of
          TurnCompleted turn status reason \<Rightarrow> turn_completed_event env (ev_thread_id e) turn status reason st
        | ApprovalRequested i turn action params \<Rightarrow>
            handle_approval_requested env (ev_thread_id e) i turn action params st
        | ApprovalDecided i decision remember reason \<Rightarrow>
            handle_approval_decided env (ev_thread_id e) i decision remember reason st
        | _ \<Rightarrow> st"
  have "keeps (fst st) (fst ?st)"
    using keeps_turn_completed keeps_requested keeps_decided
    by (auto simp: keeps_refl split: thread_event_kind.split)
  moreover have "fst (schedule_event env e st) = update_task_last_seq (ev_thread_id e) (ev_seq e) (fst ?st)"
    by (simp add: schedule_event_def split: prod.split)
  ultimately show ?thesis using keeps_trans [OF _ keeps_last_seq] by simp
qed

lemma keeps_notification: "keeps (fst st) (fst (handle_notification env n st))"
  by (cases n) (simp_all add: keeps_schedule_event keeps_catch_up keeps_refl)

lemma keeps_start_step: "keeps (fst st) (fst (start_ready_step env st))"
  using keeps_start by (cases st) (simp add: start_ready_step_def)

lemma keeps_loop: "keeps (fst st) (fst (scheduler_loop env ns st))"
proof (induction env ns st rule: scheduler_loop.induct)
  case (1 env st)
  show ?case using keeps_trans [OF keeps_start_step keeps_catch_up] by simp
next
  case (2 env others n ns st)
  obtain sc s where c: "catch_up_running_events env (start_ready_step env st) = (sc, s)" by fastforce
  have a: "keeps (fst st) sc"
    using keeps_trans [OF keeps_start_step keeps_catch_up, of st env env] c by simp
  moreover have "keeps sc (fst (scheduler_loop env ns (handle_notification env n (sc, others s))))"
    if "\<not> schedule_done sc"
    using 2 [OF c [symmetric] that] keeps_notification [of "(sc, others s)" env n] keeps_trans by fastforce
  ultimately show ?case using c keeps_trans by auto
qed

section \<open>The tasks follow the graph, within the limit\<close>

lemma fresh_phases:
  assumes "fresh_tasks tasks"
  shows "phases_of (new_schedule parent tasks external m aging) =
    (\<lambda>i. if i \<in> tk_id ` set tasks then Some TaskPending else None)"
proof -
  have "map (\<lambda>t. (tk_id t, tk_status t)) tasks = map (\<lambda>t. (tk_id t, TaskPending)) tasks"
    using assms by (simp add: fresh_tasks_def)
  moreover have "map_of (map (\<lambda>t. (tk_id t, p)) tasks) = (\<lambda>i. if i \<in> tk_id ` set tasks then Some p else None)"
    for p :: task_status by (induction tasks) auto
  ultimately show ?thesis by (simp only: phases_of_def new_schedule_tasks)
qed


lemma running_count:
  assumes "schedule_ok sc"
  shows "length (filter (\<lambda>t. tk_status t = TaskRunning) (sc_tasks sc)) = map_len (sc_running_by_thread sc)"
proof -
  let ?r = "filter (\<lambda>t. tk_status t = TaskRunning) (sc_tasks sc)"
  have "dom (sc_running_by_thread sc) = set (map tk_thread_id ?r)"
  proof (intro equalityI subsetI)
    fix tid assume "tid \<in> dom (sc_running_by_thread sc)"
    then obtain task turn where "sc_running_by_thread sc tid = Some (task, turn)" by auto
    from running_task [OF assms this] show "tid \<in> set (map tk_thread_id ?r)" by force
  next
    fix tid assume "tid \<in> set (map tk_thread_id ?r)"
    with assms show "tid \<in> dom (sc_running_by_thread sc)"
      by (auto simp: schedule_ok_def task_fits_def running_entry_def)
  qed
  moreover have "distinct (map tk_thread_id ?r)"
    using assms by (auto simp: schedule_ok_def distinct_map_filter)
  ultimately show ?thesis by (metis distinct_card length_map map_len_def)
qed

lemma slots_kept:
  assumes "fresh_tasks tasks" and "finite external" "m \<noteq> 0" "card external \<le> m"
    and "scheduler_loop env ns (new_schedule parent tasks external m aging, s) = (sc', s')"
  shows "length (filter (\<lambda>t. tk_status t = TaskRunning) (sc_tasks sc')) + card (sc_external_active sc') \<le> m"
proof -
  let ?sc = "new_schedule parent tasks external m aging"
  note new = new_schedule_ok [OF assms(1,2), of parent m aging]
  from keeps_loop [of "(?sc, s)" env ns] assms(5) have k: "keeps ?sc sc'" by simp
  moreover have "slots_ok ?sc" using new(2) assms(4) by (simp add: slots_ok_def)
  ultimately have "slots_ok sc'" using new(1) by (simp add: keeps_def)
  moreover have "schedule_ok sc'" "sc_max_concurrent sc' = m"
    using k advancesD [OF _ new(1), of sc'] by (auto simp: keeps_def)
  ultimately show ?thesis using assms(3) by (simp add: slots_ok_def slots_used_def running_count)
qed

text \<open>C21: The subagents that run for a schedule, with the foreign ones it counts, are never more
  than the limit, whatever notifications are missed or come late.\<close>

theorem concurrency_bounded:
  assumes "fresh_tasks tasks" and "finite external" "m \<noteq> 0" "card external \<le> m"
  shows "case scheduler_loop env ns (new_schedule parent tasks external m aging, s) of
    (sc', s') \<Rightarrow>
      length (filter (\<lambda>t. tk_status t = TaskRunning) (sc_tasks sc')) + card (sc_external_active sc') \<le> m"
  using slots_kept [OF assms] by (auto split: prod.split)

section \<open>A foreign subagent whose end is missed\<close>

definition ends_foreign :: "thread_id \<Rightarrow> notification \<Rightarrow> bool" where
  "ends_foreign x n \<longleftrightarrow>
     (case n of NotifyEvent e \<Rightarrow> ev_thread_id e = x \<and> (\<exists>turn status reason. ev_kind e = TurnCompleted turn status reason)
      | _ \<Rightarrow> False)"

text \<open>The foreign subagents an operation may take off the list.\<close>

definition drops :: "thread_id set \<Rightarrow> schedule \<Rightarrow> schedule \<Rightarrow> bool" where
  "drops X sc sc' \<longleftrightarrow> sc_external_active sc - X \<subseteq> sc_external_active sc' \<and>
     tk_thread_id ` set (sc_tasks sc') = tk_thread_id ` set (sc_tasks sc)"

lemma drops_refl: "drops X sc sc"
  by (simp add: drops_def)

lemma drops_trans: "drops X a b \<Longrightarrow> drops X b c \<Longrightarrow> drops X a c"
  by (auto simp: drops_def)

lemma drops_same:
  "sc_external_active sc' = sc_external_active sc \<Longrightarrow>
   map tk_thread_id (sc_tasks sc') = map tk_thread_id (sc_tasks sc) \<Longrightarrow> drops X sc sc'"
  by (simp add: drops_def) (metis list.set_map order_refl)

lemma drops_fold:
  "(\<And>x st. x \<in> set xs \<Longrightarrow> drops X (fst st) (fst (f x st))) \<Longrightarrow> drops X (fst st) (fst (fold f xs st))"
proof (induction xs arbitrary: st)
  case (Cons x xs)
  have "drops X (fst st) (fst (f x st))" using Cons.prems by simp
  moreover have "drops X (fst (f x st)) (fst (fold f xs (f x st)))" by (rule Cons.IH) (use Cons.prems in simp)
  ultimately show ?case by (simp, rule drops_trans)
qed (simp add: drops_refl)

lemma map_update_same: "f y = f (xs ! i) \<Longrightarrow> map f (xs[i := y]) = map f xs"
  by (cases "i < length xs") (simp_all add: map_update list_update_beyond, metis list_update_id nth_map)

lemma threads_update:
  "(\<And>t. tk_thread_id (g t) = tk_thread_id t) \<Longrightarrow>
   map tk_thread_id (sc_tasks (update_task i g sc)) = map tk_thread_id (sc_tasks sc)"
  by (simp add: update_task_def map_update_same)

lemma drops_update: "(\<And>t. tk_thread_id (g t) = tk_thread_id t) \<Longrightarrow> drops X sc (update_task i g sc)"
  by (rule drops_same) (simp add: update_task_def, rule threads_update)

lemma drops_mark: "drops X sc (mark_dependency_blocked_tasks sc)"
proof -
  have task: "map tk_thread_id (sc_tasks sc') = map tk_thread_id (sc_tasks sc)" if "mark_task i sc = (c, sc')" for i c sc sc'
    using that by (auto simp: mark_task_def note_task_status_def threads_update split: if_splits option.splits)
  have pass: "map tk_thread_id (sc_tasks sc') = map tk_thread_id (sc_tasks sc)" if "mark_pass js sc = (c, sc')" for js c sc sc'
    using that by (induction js arbitrary: sc c sc') (auto split: prod.splits dest: task)
  have "map tk_thread_id (sc_tasks (mark_dependency_blocked_tasks sc)) = map tk_thread_id (sc_tasks sc)"
  proof (induction sc rule: mark_dependency_blocked_tasks.induct)
    case (1 sc)
    obtain c m where m: "mark_pass [0..<length (sc_tasks sc)] sc = (c, m)" by fastforce
    from 1 [OF m [symmetric]] pass [OF m] show ?case
      by (subst mark_dependency_blocked_tasks.simps) (simp add: m)
  qed
  with mark_slots show ?thesis by (blast intro: drops_same)
qed

lemma drops_start_task: "start_task start i sc s = (ok, sc', s') \<Longrightarrow> drops X sc sc'"
  by (rule drops_same)
    (auto simp: start_task_def note_task_status_def Let_def update_task_def map_update_same
      split: sum.splits prod.splits)

lemma drops_start_loop: "start_loop start available sc s = (sc', s') \<Longrightarrow> drops X sc sc'"
proof (induction start available sc s arbitrary: sc' s' rule: start_loop.induct)
  case (1 start available sc s)
  show ?case
  proof (cases "pick_next_ready_task_index sc = None \<or> available = 0")
    case True
    with "1.prems" show ?thesis by (auto simp: start_loop.simps drops_refl split: option.splits)
  next
    case False
    then obtain i where Some: "pick_next_ready_task_index sc = Some i" by auto
    obtain ok m t where m: "start_task start i sc s = (ok, m, t)" by (metis prod_cases3)
    with "1.prems" Some False have l: "start_loop start (if ok then available - 1 else available) m t = (sc', s')"
      by (simp add: start_loop.simps [of start available sc])
    from "1.IH" [OF Some _ m [symmetric] refl l] False drops_start_task [OF m] show ?thesis
      by (blast intro: drops_trans)
  qed
qed

lemma drops_start: "drops X sc (fst (start_ready_tasks env fresh show_error sc s))"
proof -
  let ?sc1 = "update_ready_wait_rounds (mark_dependency_blocked_tasks sc)"
  let ?start = "subagent_starter env (sc_parent_thread_id sc) fresh show_error"
  have "drops X (mark_dependency_blocked_tasks sc) ?sc1"
    by (rule drops_same) (simp_all add: update_ready_wait_rounds_def)
  with drops_mark have 1: "drops X sc ?sc1" by (blast intro: drops_trans)
  obtain sc2 t where l: "start_loop ?start (available_slots ?sc1) ?sc1 s = (sc2, t)" by fastforce
  have "drops X ?sc1 (mark_dependency_blocked_tasks sc2)"
    using drops_start_loop [OF l] drops_mark by (rule drops_trans)
  with 1 l drops_trans show ?thesis
    by (auto simp: start_ready_tasks_def start_ready_tasks_with_def Let_def)
qed

lemma drops_completed: "tid \<in> X \<Longrightarrow> drops X sc (fst (handle_turn_completed keys tid turn status reason sc))"
proof (cases "tid \<in> sc_external_active sc \<or> sc_running_by_thread sc tid = None")
  case True
  then show "tid \<in> X \<Longrightarrow> ?thesis" by (auto simp: handle_turn_completed_def drops_def)
next
  case False
  then obtain task expected where r: "sc_running_by_thread sc tid = Some (task, expected)" "tid \<notin> sc_external_active sc"
    by auto
  obtain sc1 stale where c: "clear_proxy_mappings_for_thread keys tid
      (sc\<lparr>sc_running_by_thread := (sc_running_by_thread sc)(tid := None)\<rparr>) = (sc1, stale)" by fastforce
  have 1: "drops X sc sc1" by (rule clear_proxies_frame [OF c], rule drops_same) simp_all
  have "drops X sc1 (finish_task i status reason sc1)" for i
    unfolding finish_task_def by (rule drops_update) simp
  moreover have "drops X sc2 (note_task_status task status sc2)" for sc2
    by (rule drops_same) (simp_all add: note_task_status_def)
  ultimately have "drops X sc (mark_dependency_blocked_tasks (note_task_status task status (finish_task i status reason sc1)))" for i
    using 1 drops_mark by (blast intro: drops_trans)
  with 1 r c show ?thesis by (auto simp: handle_turn_completed_def drops_refl split: option.split)
qed

lemma drops_turn_completed: "tid \<in> X \<Longrightarrow> drops X (fst st) (fst (turn_completed_event env tid turn status reason st))"
  using drops_completed [of tid X "fst st" "se_keys env" turn status reason]
  by (cases st) (auto simp: turn_completed_event_def split: prod.splits)

text \<open>The handlers of approvals change neither list.\<close>

lemma same_lists_mapping:
  "sc_external_active (clear_proxy_mapping keys p sc) = sc_external_active sc \<and>
   sc_tasks (clear_proxy_mapping keys p sc) = sc_tasks sc"
  by (simp add: clear_proxy_mapping_def clear_pending_approval_by_proxy_def clear_pending_approval_by_child_def
      split: option.split)

lemma drops_requested: "drops X (fst st) (fst (handle_approval_requested env tid i turn action params st))"
  by (rule drops_same)
    (auto simp: handle_approval_requested_def new_proxy_def Let_def set_pending_approval_def add_proxy_def
      clear_pending_approval_by_child_def split: prod.splits option.splits bool.splits)

lemma drops_decided: "drops X (fst st) (fst (handle_approval_decided env tid i decision remember reason st))"
  by (rule drops_same)
    (auto simp: handle_approval_decided_def Let_def same_lists_mapping clear_pending_approval_by_child_def
      split: prod.splits option.splits)

lemma drops_catch_up_event: "tid \<in> X \<Longrightarrow> drops X (fst st) (fst (catch_up_event env tid running e st))"
  using drops_turn_completed drops_requested drops_decided
  by (auto simp: drops_refl split: thread_event_kind.split)

lemma drops_catch_up_task:
  assumes "fst (snd x) \<in> X"
  shows "drops X (fst st) (fst (catch_up_task env x st))"
proof -
  obtain i tid running since sc s where x: "x = (i, tid, running, since)" "st = (sc, s)"
    by (metis prod_cases4 surj_pair)
  show ?thesis
  proof (cases "log_since s tid since")
    case None
    then show ?thesis by (simp add: x catch_up_task_def drops_refl)
  next
    case (Some events)
    obtain sc' s' where f: "fold (catch_up_event env tid running) events (sc, s) = (sc', s')" by fastforce
    have "drops X sc sc'"
      using drops_fold [of events X "catch_up_event env tid running" "(sc, s)"] drops_catch_up_event assms f x by simp
    moreover have "drops X sc' (update_task i (\<lambda>t. t\<lparr>tk_last_seq := q\<rparr>) sc')" for q by (rule drops_update) simp
    ultimately show ?thesis using drops_trans by (auto simp: x catch_up_task_def Some f Let_def)
  qed
qed

lemma snapshot_threads: "x \<in> set (running_snapshot sc) \<Longrightarrow> fst (snd x) \<in> tk_thread_id ` set (sc_tasks sc)"
  by (auto simp: running_snapshot_def set_map_filter in_set_enumerate_eq split: option.splits if_splits)

lemma drops_catch_up:
  assumes "tk_thread_id ` set (sc_tasks (fst st)) \<subseteq> X"
  shows "drops X (fst st) (fst (catch_up_running_events env st))"
  unfolding catch_up_running_events_def
  by (rule drops_fold, rule drops_catch_up_task) (use snapshot_threads assms in blast)

lemma drops_notification:
  assumes "tk_thread_id ` set (sc_tasks (fst st)) \<subseteq> X" and "\<forall>x. ends_foreign x n \<longrightarrow> x \<in> X"
  shows "drops X (fst st) (fst (handle_notification env n st))"
proof (cases n)
  case (NotifyEvent e)
  let ?st = "case ev_kind e of
          TurnCompleted turn status reason \<Rightarrow> turn_completed_event env (ev_thread_id e) turn status reason st
        | ApprovalRequested i turn action params \<Rightarrow>
            handle_approval_requested env (ev_thread_id e) i turn action params st
        | ApprovalDecided i decision remember reason \<Rightarrow>
            handle_approval_decided env (ev_thread_id e) i decision remember reason st
        | _ \<Rightarrow> st"
  have "drops X (fst st) (fst ?st)"
    using assms(2) NotifyEvent drops_turn_completed drops_requested drops_decided
    by (auto simp: drops_refl ends_foreign_def split: thread_event_kind.split)
  moreover have "fst (schedule_event env e st) = update_task_last_seq (ev_thread_id e) (ev_seq e) (fst ?st)"
    by (simp add: schedule_event_def split: prod.split)
  moreover have "drops X sc (update_task_last_seq tid q sc)" for tid q sc
    by (auto simp: update_task_last_seq_def drops_refl intro!: drops_update split: option.split)
  ultimately show ?thesis using NotifyEvent drops_trans by auto
qed (use drops_catch_up [OF assms(1)] in \<open>simp_all add: drops_refl\<close>)

lemma drops_loop:
  assumes "tk_thread_id ` set (sc_tasks (fst st)) \<subseteq> X" and "\<forall>(others, n) \<in> set ns. \<forall>x. ends_foreign x n \<longrightarrow> x \<in> X"
  shows "drops X (fst st) (fst (scheduler_loop env ns st))"
  using assms
proof (induction env ns st rule: scheduler_loop.induct)
  case (1 env st)
  have 2: "drops X (fst st) (fst (start_ready_step env st))"
    using drops_start by (cases st) (simp add: start_ready_step_def)
  then have "tk_thread_id ` set (sc_tasks (fst (start_ready_step env st))) \<subseteq> X" using 1 by (simp add: drops_def)
  with drops_trans [OF 2 drops_catch_up] show ?case by simp
next
  case (2 env others n ns st)
  obtain sc s where c: "catch_up_running_events env (start_ready_step env st) = (sc, s)" by fastforce
  have a: "drops X (fst st) (fst (start_ready_step env st))"
    using drops_start by (cases st) (simp add: start_ready_step_def)
  then have "tk_thread_id ` set (sc_tasks (fst (start_ready_step env st))) \<subseteq> X"
    using "2.prems"(1) by (simp add: drops_def)
  from drops_trans [OF a drops_catch_up [OF this]] c have b: "drops X (fst st) sc" by (metis fst_conv)
  then have X: "tk_thread_id ` set (sc_tasks (fst (sc, others s))) \<subseteq> X" using "2.prems"(1) by (simp add: drops_def)
  note n = drops_notification [OF X, of n env]
  have n': "\<forall>x. ends_foreign x n \<longrightarrow> x \<in> X" using "2.prems"(2) by auto
  from n [OF n'] X have X': "tk_thread_id ` set (sc_tasks (fst (handle_notification env n (sc, others s)))) \<subseteq> X"
    by (simp add: drops_def)
  have "drops X (fst (handle_notification env n (sc, others s)))
      (fst (scheduler_loop env ns (handle_notification env n (sc, others s))))" if "\<not> schedule_done sc"
    using "2.IH" [OF c [symmetric] that X'] "2.prems"(2) by auto
  with n [OF n'] b c show ?case by (auto intro: drops_trans)
qed

text \<open>C24: A foreign subagent leaves the list only by the notification of its turn's end. If that
  one is missed, because it came before the scheduler subscribed or was dropped when the
  scheduler lagged, the subagent holds its slot until the schedule ends, although it has ended:
  catching up reads only the logs of the schedule's own tasks.\<close>

theorem missed_end_keeps_slot:
  assumes "fresh_tasks tasks" and "finite external" "m \<noteq> 0" "card external \<le> m"
    and "x \<in> external" "x \<notin> tk_thread_id ` set tasks" "\<forall>(others, n) \<in> set ns. \<not> ends_foreign x n"
  shows "case scheduler_loop env ns (new_schedule parent tasks external m aging, s) of
    (sc', s') \<Rightarrow> x \<in> sc_external_active sc' \<and>
      length (filter (\<lambda>t. tk_status t = TaskRunning) (sc_tasks sc')) < m"
proof -
  let ?sc = "new_schedule parent tasks external m aging"
  obtain sc' s' where r: "scheduler_loop env ns (?sc, s) = (sc', s')" by fastforce
  have "drops (- {x}) ?sc sc'"
    using drops_loop [of "(?sc, s)" "- {x}" ns env] assms(6,7) r by auto
  with assms(5) have x: "x \<in> sc_external_active sc'" by (auto simp: drops_def)
  moreover have "finite (sc_external_active sc')"
    using keeps_loop [of "(?sc, s)" env ns] advancesD [OF _ new_schedule_ok(1) [OF assms(1,2), of parent m aging], of sc'] r
    by (auto simp: keeps_def schedule_ok_def)
  ultimately have "0 < card (sc_external_active sc')" by (auto simp: card_gt_0_iff)
  with slots_kept [OF assms(1-4) r] x show ?thesis by (simp add: r)
qed

section \<open>Runs of a sample schedule\<close>


theorem concurrency_bounded_witness:
  "\<forall>env s. case scheduler_loop env [(id, NotifyLagged)]
      (new_schedule (ThreadId 9) sample_tasks {ThreadId 7} 2 3, s) of
    (sc', s') \<Rightarrow>
      length (filter (\<lambda>t. tk_status t = TaskRunning) (sc_tasks sc')) + card (sc_external_active sc') \<le> 2"
  by (intro allI, rule concurrency_bounded [OF sample_tasks_fresh]) simp_all

theorem missed_end_keeps_slot_witness:
  "\<forall>env s. case scheduler_loop env [(id, NotifyLagged), (id, NotifyOther)]
      (new_schedule (ThreadId 9) sample_tasks {ThreadId 7} 2 3, s) of
    (sc', s') \<Rightarrow> ThreadId 7 \<in> sc_external_active sc' \<and>
      length (filter (\<lambda>t. tk_status t = TaskRunning) (sc_tasks sc')) < 2"
  by (intro allI, rule missed_end_keeps_slot [OF sample_tasks_fresh])
    (simp_all add: ends_foreign_def, simp add: sample_tasks_def sample_task_def)

end
