(* ===== verification/ScheduleApprovals.thy ===== *)
theory ScheduleApprovals
  imports ScheduleProxy
begin

text \<open>
  Approvals between a parent and its subagents: the scheduler grants an approval on one side
  only because it was granted on the other. A relation between the states before and after an
  operation says which approvals may newly be granted in the logs; it holds of every operation
  of the server with the empty set, except of the append of a decision.
\<close>

section \<open>Granted approvals\<close>

fun grants :: "thread_event_kind \<Rightarrow> approval_id option" where
  "grants (ApprovalDecided i Approved _ _) = Some i"
| "grants _ = None"

definition granted_in :: "server \<Rightarrow> thread_id \<Rightarrow> approval_id \<Rightarrow> bool" where
  "granted_in v tid i \<longleftrightarrow> (\<exists>e \<in> set (log_of v tid). grants (ev_kind e) = Some i)"

lemma grants_redact [simp]: "grants (redact_thread_event_kind ra k) = grants k"
proof (cases k)
  case (ApprovalDecided i d r x)
  then show ?thesis by (cases d) simp_all
qed simp_all

definition only_grants :: "(thread_id \<times> approval_id) set \<Rightarrow> server \<Rightarrow> server \<Rightarrow> bool" where
  "only_grants G v v' \<longleftrightarrow> logs_grow v v' \<and> (\<forall>tid i. granted_in v' tid i \<longrightarrow> granted_in v tid i \<or> (tid, i) \<in> G)"

interpretation og: action_relation "only_grants G" for G
  by unfold_locales (auto simp: only_grants_def intro: logs_grow_refl logs_grow_trans)

named_theorems grant_intros "operations and the approvals they grant"

lemmas grant_base [grant_intros] = og.within_intros

lemma only_grants_mono: "only_grants G v v' \<Longrightarrow> G \<subseteq> H \<Longrightarrow> only_grants H v v'"
  by (auto simp: only_grants_def)

text \<open>An operation that leaves the logs alone.\<close>

lemma only_grants_same: "sv_logs v' = sv_logs v \<Longrightarrow> only_grants G v v'"
  by (simp add: only_grants_def logs_grow_def granted_in_def log_of_def option.rel_refl)

lemma grant_append_and_emit:
  assumes "\<And>i. grants k = Some i \<Longrightarrow> (tid, i) \<in> G"
  shows "act_within (only_grants G) (append_event_and_emit env tid k)"
proof (rule act_withinI)
  fix v r v' assume app: "append_event_and_emit env tid k v = (r, v')"
  show "only_grants G v v'"
  proof (cases "v' = v")
    case False
    with app obtain es where es: "sv_logs v tid = Some es"
      "v' = v\<lparr>sv_logs := (sv_logs v)(tid \<mapsto> es @ [next_event env tid es k])\<rparr>"
      by (auto simp: append_event_and_emit_def split: option.splits sum.splits if_splits)
    have "logs_grow v v'" using safe_actionD [OF safe_append_event_and_emit app] by simp
    moreover have "granted_in v u i \<or> (u, i) \<in> G" if "granted_in v' u i" for u i
      using that es assms by (auto simp: granted_in_def log_of_def next_event_def split: if_splits)
    ultimately show ?thesis by (auto simp: only_grants_def)
  qed (simp add: og.R_refl)
qed

lemma marker_no_grant: "grants (marker_event_kind t) = None"
  by (cases t) (simp_all add: marker_set_def)

lemma only_grants_markers: "only_grants G v (append_markers env tid ts v)"
proof (induction ts arbitrary: v)
  case (Cons t ts)
  obtain r m where m: "append_event_and_emit env tid (marker_event_kind t) v = (r, m)" by fastforce
  have "only_grants G v m"
    by (rule act_withinD [OF grant_append_and_emit m]) (simp add: marker_no_grant)
  with og.R_trans [OF _ Cons [of m]] m show ?case by simp
qed (simp add: og.R_refl)

lemma grant_rt_append:
  assumes "\<And>i. grants k = Some i \<Longrightarrow> (tid, i) \<in> G"
  shows "act_within (only_grants G) (rt_append_event env tid k)"
  unfolding rt_append_event_def
proof (rule og.within_bind [OF grant_append_and_emit [OF assms]], simp)
  fix a
  show "act_within (only_grants G)
      (case a of (event, used) \<Rightarrow> \<lambda>v. (Inr event, sync_token_budget_attention_markers env tid used v))"
  proof (rule act_withinI)
    fix v r v'
    assume "(case a of (event, used) \<Rightarrow> \<lambda>v. (Inr event, sync_token_budget_attention_markers env tid used v)) v = (r, v')"
    then obtain used where "v' = sync_token_budget_attention_markers env tid used v" by (auto split: prod.splits)
    moreover have "only_grants G v (v\<lparr>sv_budget := b\<rparr>)" for b by (rule only_grants_same) simp
    ultimately show "only_grants G v v'"
      by (auto simp: sync_token_budget_attention_markers_def intro: og.R_trans only_grants_markers)
  qed
qed

lemma grant_append_all:
  "list_all (\<lambda>k. grants k = None) ks \<Longrightarrow> act_within (only_grants G) (append_all env tid ks)"
proof (induction ks)
  case Nil
  show ?case by (rule act_withinI) (auto simp: og.R_refl)
next
  case (Cons k ks)
  then have "act_within (only_grants G) (act_bind (rt_append_event env tid k) (\<lambda>_. append_all env tid ks))"
    by (intro og.within_bind grant_rt_append) simp_all
  then show ?case by (simp add: act_within_def)
qed

lemma recovery_no_grant: "list_all (\<lambda>k. grants k = None) (recovery_events es st)"
  by (auto simp: recovery_events_def list_all_iff split: option.splits)

lemma grant_load_thread: "act_within (only_grants G) (get_or_load_thread env tid)"
proof (rule act_withinI)
  fix v r v' assume load: "get_or_load_thread env tid v = (r, v')"
  show "only_grants G v v'"
  proof (cases "tid \<in> sv_loaded v")
    case True
    with load show ?thesis by (simp add: get_or_load_thread_def og.R_refl)
  next
    case False
    have "act_within (only_grants G) (act_bind (append_all env tid (recovery_events es st))
        (\<lambda>_ s'. (Inr (), s'\<lparr>sv_loaded := insert tid (sv_loaded s')\<rparr>)))" for es st
      by (intro og.within_bind grant_append_all recovery_no_grant act_withinI)
        (auto intro: only_grants_same)
    from act_withinD [OF this] load False show ?thesis
      by (auto simp: get_or_load_thread_def og.R_refl split: option.splits sum.splits)
  qed
qed

text \<open>The same for a server with its runtimes.\<close>

definition run_grants :: "(thread_id \<times> approval_id) set \<Rightarrow> turn_server \<Rightarrow> turn_server \<Rightarrow> bool" where
  "run_grants G s s' \<longleftrightarrow> only_grants G (tn_server s) (tn_server s')"

interpretation rg: action_relation "run_grants G" for G
  by unfold_locales (auto simp: run_grants_def intro: og.R_refl og.R_trans)

named_theorems run_grant_intros "operations on a turn server and the approvals they grant"

lemmas run_grant_base [run_grant_intros] = rg.within_intros

lemma run_grant_threads:
  "act_within (only_grants G) m \<Longrightarrow> act_within (run_grants G) (on_threads m)"
  by (auto simp: act_within_def run_grants_def on_threads_def split: prod.splits sum.splits)

lemma run_grant_update [run_grant_intros]: "act_within (run_grants G) (update_runtime tid f)"
  by (intro act_withinI) (auto simp: update_runtime_def run_grants_def og.R_refl)

lemma run_grant_load [run_grant_intros]: "act_within (run_grants G) (load_runtime env tid)"
proof -
  have "act_within (run_grants G) (\<lambda>s. (Inr (), s\<lparr>tn_runtimes := (tn_runtimes s)(tid := f s)\<rparr>))"
    for f :: "turn_server \<Rightarrow> thread_runtime option"
    by (intro act_withinI) (auto simp: run_grants_def og.R_refl)
  then show ?thesis
    unfolding load_runtime_def by (intro rg.within_bind run_grant_threads grant_load_thread)
qed

lemma run_grant_append:
  "(\<And>i. grants k = Some i \<Longrightarrow> (tid, i) \<in> G) \<Longrightarrow> act_within (run_grants G) (handle_append_event env tid k)"
  unfolding handle_append_event_def
  by (intro rg.within_bind run_grant_threads grant_append_and_emit rg.within_return)

lemma run_grant_append_all [run_grant_intros]:
  "list_all (\<lambda>k. grants k = None) ks \<Longrightarrow> act_within (run_grants G) (handle_append_all env tid ks)"
  by (induction ks) (auto intro!: rg.within_bind run_grant_append rg.within_return)

lemma run_grant_start [run_grant_intros]: "act_within (run_grants G) (start_turn env tid turn req)"
  unfolding start_turn_def runtime_of_def runtime_state_def
  by (intro run_grant_intros run_grant_append) (auto simp: cleared_markers_def turn_started_event_def)

lemma run_grant_subagent [run_grant_intros]: "act_within (run_grants G) (start_subagent_turn env parent fresh t)"
  unfolding start_subagent_turn_def
  by (auto intro!: run_grant_intros split: sum.split)

lemma try_append_grants:
  assumes "\<And>i. grants k = Some i \<Longrightarrow> (tid, i) \<in> G"
  shows "run_grants G s (snd (try_append env tid k s))"
proof -
  obtain r s' where r: "act_bind (load_runtime env tid) (\<lambda>_. on_threads (rt_append_event env tid k)) s = (r, s')"
    by fastforce
  have "act_within (run_grants G) (act_bind (load_runtime env tid) (\<lambda>_. on_threads (rt_append_event env tid k)))"
    by (intro rg.within_bind run_grant_load run_grant_threads grant_rt_append assms)
  from act_withinD [OF this r] have "run_grants G s s'" .
  with r show ?thesis by (cases r) (simp_all add: try_append_def)
qed

section \<open>What justifies an approval\<close>

text \<open>The log of the parent holds a request \<open>p\<close> that forwards the request \<open>k\<close> of a subagent.\<close>

definition forwards :: "approval_lib \<Rightarrow> turn_server \<Rightarrow> thread_id \<Rightarrow> approval_id \<Rightarrow> approval_key \<Rightarrow> bool" where
  "forwards lib s parent p k \<longleftrightarrow>
     (\<exists>e \<in> set (log_of (tn_server s) parent). \<exists>turn params.
        ev_kind e = ApprovalRequested p turn ''subagent/proxy_approval'' params \<and>
        parse_subagent_proxy_child_key lib params = Some k)"

abbreviation user_granted :: "turn_server \<Rightarrow> thread_id \<Rightarrow> approval_id \<Rightarrow> bool" where
  "user_granted s \<equiv> granted_in (tn_server s)"

definition justified :: "approval_lib \<Rightarrow> turn_server \<Rightarrow> thread_id \<Rightarrow> thread_id \<Rightarrow> approval_id \<Rightarrow> bool" where
  "justified lib s parent tid i \<longleftrightarrow>
     (tid = parent \<and> (\<exists>k. forwards lib s parent i k \<and> user_granted s (ak_thread_id k) (ak_approval_id k))) \<or>
     (\<exists>p. forwards lib s parent p \<lparr>ak_thread_id = tid, ak_approval_id = i\<rparr> \<and> user_granted s parent p)"

text \<open>Every approval newly granted is justified by what the logs hold afterwards.\<close>

definition carries :: "approval_lib \<Rightarrow> thread_id \<Rightarrow> turn_server \<Rightarrow> turn_server \<Rightarrow> bool" where
  "carries lib parent s s' \<longleftrightarrow> logs_grow (tn_server s) (tn_server s') \<and>
     (\<forall>tid i. user_granted s' tid i \<longrightarrow> user_granted s tid i \<or> justified lib s' parent tid i)"

lemma log_of_grows:
  assumes "logs_grow v v'"
  shows "set (log_of v tid) \<subseteq> set (log_of v' tid)"
proof (cases "sv_logs v tid")
  case (Some es)
  from logs_grow_Some [OF assms Some] Some show ?thesis by (auto simp: log_of_def)
qed (simp add: log_of_def)

lemma forwards_grows: "logs_grow (tn_server s) (tn_server s') \<Longrightarrow> forwards lib s parent p k \<Longrightarrow> forwards lib s' parent p k"
  unfolding forwards_def using log_of_grows by blast

lemma granted_grows: "logs_grow v v' \<Longrightarrow> granted_in v tid i \<Longrightarrow> granted_in v' tid i"
  unfolding granted_in_def using log_of_grows by blast

lemma justified_grows:
  "logs_grow (tn_server s) (tn_server s') \<Longrightarrow> justified lib s parent tid i \<Longrightarrow> justified lib s' parent tid i"
  unfolding justified_def using forwards_grows granted_grows by blast

lemma carries_refl: "carries lib parent s s"
  by (simp add: carries_def logs_grow_refl)

lemma carries_trans: "carries lib parent a b \<Longrightarrow> carries lib parent b c \<Longrightarrow> carries lib parent a c"
  unfolding carries_def using justified_grows logs_grow_trans by blast

lemma carries_none: "run_grants {} s s' \<Longrightarrow> carries lib parent s s'"
  by (simp add: carries_def run_grants_def only_grants_def)

lemma carries_one:
  "run_grants {(tid, i)} s s' \<Longrightarrow> justified lib s' parent tid i \<Longrightarrow> carries lib parent s s'"
  by (auto simp: carries_def run_grants_def only_grants_def)

lemma run_grants_grow: "run_grants G s s' \<Longrightarrow> logs_grow (tn_server s) (tn_server s')"
  by (simp add: run_grants_def only_grants_def)

section \<open>The proxies of the schedule are in the log of the parent\<close>

definition proxies_logged :: "approval_lib \<Rightarrow> schedule \<times> turn_server \<Rightarrow> bool" where
  "proxies_logged lib = (\<lambda>(sc, s).
     \<forall>k p. sc_approval_proxy_by_child sc k = Some p \<longrightarrow> forwards lib s (sc_parent_thread_id sc) p k)"

text \<open>What each part of the loop does.\<close>

definition faithful :: "approval_lib \<Rightarrow> schedule \<times> turn_server \<Rightarrow> schedule \<times> turn_server \<Rightarrow> bool" where
  "faithful lib st st' \<longleftrightarrow> (proxies_logged lib st \<longrightarrow>
     sc_parent_thread_id (fst st') = sc_parent_thread_id (fst st) \<and>
     proxies_logged lib st' \<and> carries lib (sc_parent_thread_id (fst st)) (snd st) (snd st'))"

lemma faithful_refl: "faithful lib st st"
  by (simp add: faithful_def carries_refl)

lemma faithful_trans: "faithful lib a b \<Longrightarrow> faithful lib b c \<Longrightarrow> faithful lib a c"
  unfolding faithful_def by (metis carries_trans)

lemma faithful_fold:
  "(\<And>x st. x \<in> set xs \<Longrightarrow> faithful lib st (f x st)) \<Longrightarrow> faithful lib st (fold f xs st)"
proof (induction xs arbitrary: st)
  case (Cons x xs)
  have "faithful lib st (f x st)" using Cons.prems by simp
  moreover have "faithful lib (f x st) (fold f xs (f x st))" by (rule Cons.IH) (use Cons.prems in simp)
  ultimately show ?case by (simp, rule faithful_trans)
qed (simp add: faithful_refl)

text \<open>Proxies are forgotten, and nothing is granted.\<close>

definition proxies_forgotten :: "schedule \<Rightarrow> schedule \<Rightarrow> bool" where
  "proxies_forgotten sc sc' \<longleftrightarrow> sc_parent_thread_id sc' = sc_parent_thread_id sc \<and>
     sc_approval_proxy_by_child sc' \<subseteq>\<^sub>m sc_approval_proxy_by_child sc"

lemma forgets_refl: "proxies_forgotten sc sc"
  by (simp add: proxies_forgotten_def)

lemma forgets_trans: "proxies_forgotten a b \<Longrightarrow> proxies_forgotten b c \<Longrightarrow> proxies_forgotten a c"
  unfolding proxies_forgotten_def using map_le_trans by metis

lemma forgets_logged:
  assumes "proxies_forgotten sc sc'" and "logs_grow (tn_server s) (tn_server s')" "proxies_logged lib (sc, s)"
  shows "proxies_logged lib (sc', s')"
  using assms forwards_grows [OF assms(2)]
  by (auto simp: proxies_logged_def proxies_forgotten_def map_le_def dom_def)

lemma faithful_forgets: "proxies_forgotten sc sc' \<Longrightarrow> run_grants {} s s' \<Longrightarrow> faithful lib (sc, s) (sc', s')"
  using forgets_logged [OF _ run_grants_grow] carries_none
  by (simp add: faithful_def) (simp add: proxies_forgotten_def)

lemma forgets_same:
  "sc_parent_thread_id sc' = sc_parent_thread_id sc \<Longrightarrow>
   sc_approval_proxy_by_child sc' = sc_approval_proxy_by_child sc \<Longrightarrow> proxies_forgotten sc sc'"
  by (simp add: proxies_forgotten_def)

lemma forgets_mark: "proxies_forgotten sc (mark_dependency_blocked_tasks sc)"
proof -
  have task: "proxies_forgotten sc sc'" if "mark_task i sc = (c, sc')" for i c sc sc'
    using that by (auto simp: mark_task_def note_task_status_def update_task_def proxies_forgotten_def
        split: if_splits option.splits)
  have pass: "proxies_forgotten sc sc'" if "mark_pass js sc = (c, sc')" for js c sc sc'
    using that by (induction js arbitrary: sc c sc')
      (auto simp: forgets_refl split: prod.splits dest!: task intro: forgets_trans)
  show ?thesis
  proof (induction sc rule: mark_dependency_blocked_tasks.induct)
    case (1 sc)
    obtain c m where m: "mark_pass [0..<length (sc_tasks sc)] sc = (c, m)" by fastforce
    from 1 [OF m [symmetric]] pass [OF m] show ?case
      by (subst mark_dependency_blocked_tasks.simps) (auto simp: m intro: forgets_trans)
  qed
qed

lemma starter_grants: "start t s = (r, s') \<Longrightarrow> start = subagent_starter env parent fresh show_error \<Longrightarrow> run_grants {} s s'"
  using act_withinD [OF run_grant_subagent]
  by (auto simp: subagent_starter_def split: prod.splits sum.splits)

lemma faithful_start_loop:
  assumes "start_loop (subagent_starter env parent fresh show_error) available sc s = (sc', s')"
  shows "proxies_forgotten sc sc' \<and> run_grants {} s s'"
  using assms
proof (induction "subagent_starter env parent fresh show_error" available sc s arbitrary: sc' s' rule: start_loop.induct)
  case (1 available sc s)
  let ?start = "subagent_starter env parent fresh show_error"
  show ?case
  proof (cases "pick_next_ready_task_index sc = None \<or> available = 0")
    case True
    with "1.prems" show ?thesis
      by (auto simp: start_loop.simps forgets_refl rg.R_refl split: option.splits)
  next
    case False
    then obtain i where Some: "pick_next_ready_task_index sc = Some i" by auto
    obtain ok m t where m: "start_task ?start i sc s = (ok, m, t)" by (metis prod_cases3)
    with "1.prems" Some False have l: "start_loop ?start (if ok then available - 1 else available) m t = (sc', s')"
      by (simp add: start_loop.simps [of ?start available sc])
    obtain r s1 where r: "?start (sc_tasks sc ! i) s = (r, s1)" by fastforce
    have "proxies_forgotten sc m \<and> run_grants {} s t"
      using m r starter_grants [OF r refl]
      by (cases r) (auto simp: start_task_def note_task_status_def update_task_def Let_def proxies_forgotten_def)
    with "1.hyps" [OF Some _ m [symmetric] refl l] False show ?thesis
      by (auto intro: forgets_trans rg.R_trans)
  qed
qed

lemma faithful_start_ready: "faithful lib st (start_ready_step env st)"
proof -
  obtain sc s where st: "st = (sc, s)" by fastforce
  let ?sc1 = "update_ready_wait_rounds (mark_dependency_blocked_tasks sc)"
  let ?start = "subagent_starter (se_server env) (sc_parent_thread_id sc) (se_turn_id env) (se_show_error env)"
  obtain sc2 t where l: "start_loop ?start (available_slots ?sc1) ?sc1 s = (sc2, t)" by fastforce
  have 1: "proxies_forgotten sc ?sc1"
    using forgets_mark by (simp add: update_ready_wait_rounds_def proxies_forgotten_def)
  moreover have "proxies_forgotten sc (mark_dependency_blocked_tasks sc2)"
    using 1 faithful_start_loop [OF l] forgets_mark forgets_trans by blast
  ultimately have "faithful lib (sc, s) (?sc1, s)" "faithful lib (sc, s) (mark_dependency_blocked_tasks sc2, t)"
    using faithful_start_loop [OF l] faithful_forgets rg.R_refl by blast+
  with l show ?thesis
    by (simp add: st start_ready_step_def start_ready_tasks_def start_ready_tasks_with_def Let_def)
qed

section \<open>Turns that end\<close>

lemma forgets_remove: "remove_proxies ks sc = (sc', removed) \<Longrightarrow> proxies_forgotten sc sc'"
proof (induction ks arbitrary: sc sc' removed)
  case (Cons k ks)
  show ?case
  proof (cases "sc_approval_proxy_by_child sc k")
    case None
    with Cons show ?thesis by simp
  next
    case (Some p)
    let ?m = "sc\<lparr>sc_approval_proxy_by_child := (sc_approval_proxy_by_child sc)(k := None),
        sc_approval_proxy_targets := (sc_approval_proxy_targets sc)(p := None)\<rparr>"
    from Some Cons.prems obtain rest where "remove_proxies ks ?m = (sc', rest)" by (auto split: prod.splits)
    from Cons.IH [OF this] have "proxies_forgotten ?m sc'" .
    moreover have "proxies_forgotten sc ?m" by (simp add: proxies_forgotten_def map_le_def)
    ultimately show ?thesis by (blast intro: forgets_trans)
  qed
qed (simp add: forgets_refl)

lemma forgets_completed: "proxies_forgotten sc (fst (handle_turn_completed keys tid turn status reason sc))"
proof -
  let ?sc0 = "sc\<lparr>sc_running_by_thread := (sc_running_by_thread sc)(tid := None)\<rparr>"
  obtain sc1 stale where c: "clear_proxy_mappings_for_thread keys tid ?sc0 = (sc1, stale)" by fastforce
  then obtain m where "remove_proxies (filter (\<lambda>k. ak_thread_id k = tid) (keys (dom (sc_approval_proxy_by_child ?sc0)))) ?sc0 = (m, stale)"
    and sc1: "sc1 = clear_pending_approvals_for_thread tid m"
    by (auto simp: clear_proxy_mappings_for_thread_def split: prod.splits)
  from forgets_remove [OF this(1)] have 1: "proxies_forgotten sc sc1"
    by (simp add: sc1 clear_pending_approvals_for_thread_def proxies_forgotten_def)
  then have "proxies_forgotten sc (note_task_status task status (finish_task i status reason sc1))" for task i
    by (simp add: proxies_forgotten_def note_task_status_def finish_task_def update_task_def)
  then have "proxies_forgotten sc (mark_dependency_blocked_tasks (note_task_status task status (finish_task i status reason sc1)))" for task i
    using forgets_mark forgets_trans by blast
  with 1 c show ?thesis
    by (auto simp: handle_turn_completed_def forgets_refl forgets_same split: option.split)
qed

lemma deny_grants: "run_grants {} s (deny_proxies env parent reason events is s)"
proof (induction "is" arbitrary: s)
  case (Cons i js)
  let ?s = "if list_ex (\<lambda>e. decides_approval i (ev_kind e)) events then s
      else snd (on_threads (rt_append_event env parent (ApprovalDecided i Denied False (Some reason))) s)"
  obtain r m where m: "on_threads (rt_append_event env parent (ApprovalDecided i Denied False (Some reason))) s = (r, m)"
    by fastforce
  have "act_within (run_grants {}) (on_threads (rt_append_event env parent (ApprovalDecided i Denied False (Some reason))))"
    by (intro run_grant_threads grant_rt_append) simp
  from act_withinD [OF this m] m have "run_grants {} s ?s" by (simp add: rg.R_refl)
  from rg.R_trans [OF this Cons [of ?s]] show ?case by simp
qed (simp add: rg.R_refl)

lemma auto_deny_grants:
  "run_grants {} s (auto_deny_stale_parent_proxy_approvals env parent child turn status stale s)"
proof -
  obtain r m where m: "load_runtime (se_server env) parent s = (r, m)" by fastforce
  from act_withinD [OF run_grant_load m] have "run_grants {} s m" .
  with m deny_grants show ?thesis
    unfolding auto_deny_stale_parent_proxy_approvals_def
    by (auto simp: rg.R_refl intro: rg.R_trans split: option.split sum.split)
qed

lemma faithful_turn_completed: "faithful lib st (turn_completed_event env tid turn status reason st)"
proof -
  obtain sc s where st: "st = (sc, s)" by fastforce
  with faithful_forgets [OF forgets_completed auto_deny_grants] show ?thesis
    by (simp add: turn_completed_event_def case_prod_beta)
qed

section \<open>Requests and decisions\<close>

text \<open>What the scan of the parent's log finds is in the log.\<close>

lemma proxy_scan_sound:
  assumes "proxy_scan lib k es (latest, decided) = (Some p, decided')"
    and "\<forall>q. latest = Some q \<longrightarrow> P q" and "\<forall>q d. decided q = Some d \<longrightarrow> Q q d"
    and "\<And>e q turn params. e \<in> set es \<Longrightarrow> ev_kind e = ApprovalRequested q turn ''subagent/proxy_approval'' params \<Longrightarrow>
      parse_subagent_proxy_child_key lib params = Some k \<Longrightarrow> P q"
    and "\<And>e q d r x. e \<in> set es \<Longrightarrow> ev_kind e = ApprovalDecided q d r x \<Longrightarrow>
      Q q \<lparr>ed_decision = d, ed_remember = r, ed_reason = x\<rparr>"
  shows "P p \<and> (\<forall>q d. decided' q = Some d \<longrightarrow> Q q d)"
  using assms
proof (induction es arbitrary: latest decided)
  case (Cons e es)
  obtain latest1 decided1 where step: "proxy_scan lib k es (latest1, decided1) = (Some p, decided')"
    "\<forall>q. latest1 = Some q \<longrightarrow> P q" "\<forall>q d. decided1 q = Some d \<longrightarrow> Q q d"
  proof (cases "ev_kind e")
    case (ApprovalRequested q turn action params)
    show ?thesis
    proof (cases "action = ''subagent/proxy_approval'' \<and> parse_subagent_proxy_child_key lib params = Some k")
      case True
      with Cons.prems(4) [of e q turn params] ApprovalRequested have "P q" by simp
      with True Cons.prems(1,3) ApprovalRequested that [of "Some q" decided] show ?thesis by simp
    next
      case False
      with Cons.prems(1-3) ApprovalRequested that [of latest decided] show ?thesis by (auto split: if_splits)
    qed
  next
    case (ApprovalDecided q d r x)
    with Cons.prems(1-3) Cons.prems(5) [of e q d r x] that [of latest "decided(q \<mapsto> \<lparr>ed_decision = d, ed_remember = r, ed_reason = x\<rparr>)"]
    show ?thesis by (auto split: if_splits)
  qed (use Cons.prems that in auto)
  from Cons.IH [OF step] Cons.prems(4,5) show ?case by (metis list.set_intros(2))
qed auto

lemma log_since_log: "log_since s tid q = Some es \<Longrightarrow> set es \<subseteq> set (log_of (tn_server s) tid)"
  by (auto simp: log_since_def log_of_def)

lemma existing_sound:
  assumes "find_existing_parent_proxy_approval env sc s k = Some x"
  shows "forwards (se_lib env) s (sc_parent_thread_id sc) (ep_approval_id x) k"
    and "ep_decision x = Some d \<Longrightarrow> ed_decision d = Approved \<Longrightarrow>
      user_granted s (sc_parent_thread_id sc) (ep_approval_id x)"
proof -
  let ?parent = "sc_parent_thread_id sc"
  from assms obtain es p decided where es: "log_since s ?parent 0 = Some es"
    and scan: "proxy_scan (se_lib env) k es (None, Map.empty) = (Some p, decided)"
    and x: "x = \<lparr>ep_approval_id = p, ep_decision = decided p\<rparr>"
    by (auto simp: find_existing_parent_proxy_approval_def split: option.splits prod.splits)
  note log = log_since_log [OF es]
  have "forwards (se_lib env) s ?parent p k \<and>
      (\<forall>q d. decided q = Some d \<longrightarrow> ed_decision d = Approved \<longrightarrow> user_granted s ?parent q)"
  proof (rule proxy_scan_sound [OF scan])
    fix e q turn params
    assume "e \<in> set es" "ev_kind e = ApprovalRequested q turn ''subagent/proxy_approval'' params"
      "parse_subagent_proxy_child_key (se_lib env) params = Some k"
    with log show "forwards (se_lib env) s ?parent q k" by (auto simp: forwards_def)
  next
    fix e q d r x
    assume "e \<in> set es" "ev_kind e = ApprovalDecided q d r x"
    with log show "ed_decision \<lparr>ed_decision = d, ed_remember = r, ed_reason = x\<rparr> = Approved \<longrightarrow> user_granted s ?parent q"
      by (auto simp: granted_in_def intro!: bexI [of _ e])
  qed simp_all
  with x show "forwards (se_lib env) s ?parent (ep_approval_id x) k"
    "ep_decision x = Some d \<Longrightarrow> ed_decision d = Approved \<Longrightarrow> user_granted s ?parent (ep_approval_id x)"
    by auto
qed

lemma faithful_reconcile:
  assumes "find_existing_parent_proxy_approval env sc s k = Some x" and "ep_decision x = Some d"
  shows "carries (se_lib env) (sc_parent_thread_id sc) s (reconcile_child_approval_with_parent_decision env k d s)"
proof -
  let ?s = "reconcile_child_approval_with_parent_decision env k d s"
  have "run_grants (if ed_decision d = Approved then {(ak_thread_id k, ak_approval_id k)} else {}) s ?s"
    unfolding reconcile_child_approval_with_parent_decision_def
    by (cases "ed_decision d") (auto simp: rg.R_refl intro!: try_append_grants)
  moreover from this have "logs_grow (tn_server s) (tn_server ?s)" by (rule run_grants_grow)
  moreover note existing_sound [OF assms(1)] assms(2)
  moreover have "k = \<lparr>ak_thread_id = ak_thread_id k, ak_approval_id = ak_approval_id k\<rparr>" by simp
  ultimately have "ed_decision d = Approved \<Longrightarrow>
      justified (se_lib env) ?s (sc_parent_thread_id sc) (ak_thread_id k) (ak_approval_id k)"
    unfolding justified_def using forwards_grows granted_grows by metis
  with \<open>run_grants _ s ?s\<close> show ?thesis
    by (cases "ed_decision d = Approved") (auto intro: carries_one carries_none)
qed

text \<open>
  Identifiers and the kind of a proxy survive the redaction of the log, and printed identifiers
  are read back.
\<close>

definition ids_survive :: "sched_env \<Rightarrow> bool" where
  "ids_survive env \<longleftrightarrow>
     (let ra = env_redact (se_server env); lib = se_lib env in
      redact_text ra ''approval'' = ''approval'' \<and>
      (\<forall>t. redact_text ra (al_show_thread lib t) = al_show_thread lib t \<and>
           al_parse_thread lib (al_show_thread lib t) = Some t) \<and>
      (\<forall>i. redact_text ra (al_show_approval lib i) = al_show_approval lib i \<and>
           al_parse_approval lib (al_show_approval lib i) = Some i))"

lemma proxy_keys_not_sensitive:
  "\<not> is_sensitive_key ''subagent_proxy''" "\<not> is_sensitive_key ''kind''"
  "\<not> is_sensitive_key ''child_thread_id''" "\<not> is_sensitive_key ''child_approval_id''"
  by code_simp+

lemma parse_proxy_params:
  assumes "ids_survive env"
  shows "parse_subagent_proxy_child_key (se_lib env)
    (redact_json_value (env_redact (se_server env)) (proxy_params env t k turn action params)) = Some k"
  using assms proxy_keys_not_sensitive
  by (simp add: ids_survive_def Let_def proxy_params_def parse_subagent_proxy_child_key_def)

lemma try_append_logs:
  assumes "try_append env tid kind s = (True, s')" and "\<not> is_marker kind"
  shows "\<exists>e \<in> set (log_of (tn_server s') tid). ev_kind e = redact_thread_event_kind (env_redact env) kind"
proof -
  from assms(1) obtain m e where "on_threads (rt_append_event env tid kind) m = (Inr e, s')"
    by (auto simp: try_append_def act_bind_eq split: sum.splits prod.splits)
  then have app: "rt_append_event env tid kind (tn_server m) = (Inr e, tn_server s')"
    by (auto simp: on_threads_def split: sum.splits prod.splits)
  note r = rt_append_event_Inr [OF app]
  have "\<not> is_marker (ev_kind e)" using assms(2) r(2) by (simp add: next_event_def)
  then have "core [e] = [ev_kind e]" by (simp add: core_def)
  with r(3) have "ev_kind e \<in> set (core (log_of (tn_server s') tid))" by simp
  then have "\<exists>f \<in> set (log_of (tn_server s') tid). ev_kind f = ev_kind e" by (auto simp: core_def)
  with r(2) show ?thesis by (simp add: next_event_def)
qed

lemma faithful_add_proxy:
  assumes "logs_grow (tn_server s) (tn_server s')" and "carries lib (sc_parent_thread_id sc) s s'"
    and "forwards lib s' (sc_parent_thread_id sc) p k"
  shows "faithful lib (sc, s) (set_pending_approval env k turn action p (add_proxy k p sc), s')"
  using assms forwards_grows [OF assms(1)]
  by (auto simp: faithful_def proxies_logged_def set_pending_approval_def add_proxy_def)

lemma faithful_new_proxy:
  assumes "ids_survive env"
  shows "faithful (se_lib env) (sc, s) (new_proxy env task k turn action params (sc, s))"
proof (cases "sc_by_id sc task")
  case None
  then show ?thesis by (simp add: new_proxy_def faithful_refl)
next
  case (Some i)
  let ?k = "ApprovalRequested (se_proxy_id env k) None ''subagent/proxy_approval''
    (proxy_params env (sc_tasks sc ! i) k turn action params)"
  obtain ok s' where a: "try_append (se_server env) (sc_parent_thread_id sc) ?k s = (ok, s')" by fastforce
  have g: "run_grants {} s s'" using try_append_grants [of ?k "sc_parent_thread_id sc" "{}" s "se_server env"] a by simp
  show ?thesis
  proof (cases ok)
    case True
    with try_append_logs [of "se_server env" "sc_parent_thread_id sc" ?k s s'] a
    obtain e where "e \<in> set (log_of (tn_server s') (sc_parent_thread_id sc))"
      "ev_kind e = redact_thread_event_kind (env_redact (se_server env)) ?k" by auto
    with parse_proxy_params [OF assms] have "forwards (se_lib env) s' (sc_parent_thread_id sc) (se_proxy_id env k) k"
      by (auto simp: forwards_def intro!: bexI [of _ e])
    with faithful_add_proxy [OF run_grants_grow [OF g] carries_none [OF g]] True a Some show ?thesis
      by (simp add: new_proxy_def)
  next
    case False
    with faithful_forgets [OF forgets_refl g] a Some show ?thesis by (simp add: new_proxy_def)
  qed
qed

lemma faithful_requested:
  assumes "ids_survive env"
  shows "faithful (se_lib env) st (handle_approval_requested env tid i turn_opt action params st)"
proof -
  obtain sc s where st: "st = (sc, s)" by fastforce
  let ?k = "\<lparr>ak_thread_id = tid, ak_approval_id = i\<rparr>"
  have pending: "faithful (se_lib env) (sc, s) (set_pending_approval env k turn action p sc, s)" for k turn p
    by (rule faithful_forgets [OF _ rg.R_refl]) (simp add: proxies_forgotten_def set_pending_approval_def)
  have existing: "faithful (se_lib env) (sc, s) (clear_pending_approval_by_child ?k sc,
        reconcile_child_approval_with_parent_decision env ?k d s)"
    if "find_existing_parent_proxy_approval env sc s ?k = Some x" "ep_decision x = Some d" for x d
    using faithful_reconcile [OF that] forgets_logged [of sc "clear_pending_approval_by_child ?k sc"]
    by (auto simp: faithful_def clear_pending_approval_by_child_def proxies_forgotten_def carries_def)
  have taken: "faithful (se_lib env) (sc, s)
      (set_pending_approval env ?k turn action (ep_approval_id x) (add_proxy ?k (ep_approval_id x) sc), s)"
    if "find_existing_parent_proxy_approval env sc s ?k = Some x" for x turn
    by (rule faithful_add_proxy [OF logs_grow_refl carries_refl existing_sound(1) [OF that]])
  show ?thesis
    using pending existing taken faithful_new_proxy [OF assms]
    by (auto simp: st handle_approval_requested_def Let_def faithful_refl split: option.split)
qed

text \<open>A decision is carried to the parent when it is in the log of the subagent.\<close>

lemma faithful_parent_decision:
  assumes "forwards lib s parent p \<lparr>ak_thread_id = tid, ak_approval_id = i\<rparr>"
    and "decision = Approved \<Longrightarrow> user_granted s tid i"
  shows "carries lib parent s (append_parent_proxy_decision_if_pending env parent p decision remember reason s)"
proof -
  let ?s = "append_parent_proxy_decision_if_pending env parent p decision remember reason s"
  have g: "run_grants (if decision = Approved then {(parent, p)} else {}) s ?s"
    unfolding append_parent_proxy_decision_if_pending_def
    by (cases decision) (auto simp: rg.R_refl intro!: try_append_grants)
  have "justified lib ?s parent parent p" if "decision = Approved"
    using forwards_grows [OF run_grants_grow [OF g] assms(1)] granted_grows [OF run_grants_grow [OF g] assms(2) [OF that]]
    unfolding justified_def by force
  with g show ?thesis by (cases "decision = Approved") (auto intro: carries_one carries_none)
qed

lemma faithful_decided:
  assumes "decision = Approved \<Longrightarrow> user_granted (snd st) tid i"
  shows "faithful (se_lib env) st (handle_approval_decided env tid i decision remember reason st)"
proof (cases "tid = sc_parent_thread_id (fst st)")
  case True
  have "proxies_forgotten sc (clear_proxy_mapping keys p sc)" for keys p sc
    by (auto simp: clear_proxy_mapping_def clear_pending_approval_by_proxy_def
        clear_pending_approval_by_child_def proxies_forgotten_def map_le_def split: option.split)
  with True faithful_forgets [OF _ rg.R_refl] show ?thesis
    by (cases st) (simp add: handle_approval_decided_def)
next
  case False
  obtain sc s where st: "st = (sc, s)" by fastforce
  let ?k = "\<lparr>ak_thread_id = tid, ak_approval_id = i\<rparr>"
  let ?sc = "clear_pending_approval_by_child ?k
      (case sc_approval_proxy_by_child sc ?k of None \<Rightarrow> sc
       | Some p \<Rightarrow> sc\<lparr>sc_approval_proxy_by_child := (sc_approval_proxy_by_child sc)(?k := None),
                      sc_approval_proxy_targets := (sc_approval_proxy_targets sc)(p := None)\<rparr>)"
  have f: "proxies_forgotten sc ?sc"
    by (auto simp: clear_pending_approval_by_child_def proxies_forgotten_def map_le_def split: option.split)
  have quiet: "faithful (se_lib env) (sc, s) (?sc, s)" by (rule faithful_forgets [OF f rg.R_refl])
  have carry: "faithful (se_lib env) (sc, s) (?sc,
      append_parent_proxy_decision_if_pending env (sc_parent_thread_id sc) p decision remember reason s)"
    if "proxies_logged (se_lib env) (sc, s) \<Longrightarrow> forwards (se_lib env) s (sc_parent_thread_id sc) p ?k" for p
    using faithful_parent_decision [OF that, of decision env remember reason] assms f forgets_logged [OF f]
    by (auto simp: st faithful_def carries_def proxies_forgotten_def)
  show ?thesis
  proof (cases "sc_approval_proxy_by_child sc ?k")
    case (Some p)
    have "proxies_logged (se_lib env) (sc, s) \<Longrightarrow> forwards (se_lib env) s (sc_parent_thread_id sc) p ?k"
      using Some by (simp add: proxies_logged_def)
    from carry [OF this] quiet False Some show ?thesis by (simp add: st handle_approval_decided_def Let_def)
  next
    case None
    show ?thesis
    proof (cases "find_existing_parent_proxy_approval env sc s ?k")
      case (Some x)
      from carry [OF existing_sound(1) [OF Some]] quiet False None Some show ?thesis
        by (simp add: st handle_approval_decided_def Let_def)
    qed (use quiet False None in \<open>simp add: st handle_approval_decided_def Let_def\<close>)
  qed
qed

section \<open>Catching up and notifications\<close>

lemma granted_event: "e \<in> set (log_of (tn_server s) tid) \<Longrightarrow> ev_kind e = ApprovalDecided i Approved r x \<Longrightarrow> user_granted s tid i"
  by (auto simp: granted_in_def intro!: bexI [of _ e])

lemma faithful_catch_up_event:
  assumes "ids_survive env" and "e \<in> set (log_of (tn_server (snd st)) tid)"
  shows "faithful (se_lib env) st (catch_up_event env tid running e st)"
proof (cases "ev_kind e")
  case (ApprovalDecided i d r x)
  with granted_event [OF assms(2)] faithful_decided [of d st tid i env r x] show ?thesis by simp
qed (simp_all add: faithful_turn_completed faithful_requested [OF assms(1)] faithful_refl)

text \<open>Logs grow under what the loop does once its proxies are in the log.\<close>

lemma faithful_catch_up_events:
  assumes "ids_survive env" and "set es \<subseteq> set (log_of (tn_server (snd st)) tid)"
  shows "faithful (se_lib env) st (fold (catch_up_event env tid running) es st)"
  using assms(2)
proof (induction es arbitrary: st)
  case (Cons e es)
  let ?st = "catch_up_event env tid running e st"
  have 1: "faithful (se_lib env) st ?st" by (rule faithful_catch_up_event [OF assms(1)]) (use Cons.prems in simp)
  show ?case
  proof (cases "proxies_logged (se_lib env) st")
    case True
    with 1 have g: "logs_grow (tn_server (snd st)) (tn_server (snd ?st))" and p: "proxies_logged (se_lib env) ?st"
      by (simp_all add: faithful_def carries_def)
    have "set es \<subseteq> set (log_of (tn_server (snd ?st)) tid)"
      using Cons.prems log_of_grows [OF g, of tid] by auto
    from Cons.IH [OF this] p 1 show ?thesis by (auto intro: faithful_trans)
  qed (simp add: faithful_def)
qed (simp add: faithful_refl)

lemma faithful_catch_up_task:
  assumes "ids_survive env"
  shows "faithful (se_lib env) st (catch_up_task env x st)"
proof -
  obtain i tid running since sc s where x: "x = (i, tid, running, since)" "st = (sc, s)"
    by (metis prod_cases4 surj_pair)
  show ?thesis
  proof (cases "log_since s tid since")
    case None
    then show ?thesis by (simp add: x catch_up_task_def faithful_refl)
  next
    case (Some es)
    obtain sc' s' where f: "fold (catch_up_event env tid running) es (sc, s) = (sc', s')" by fastforce
    have "faithful (se_lib env) (sc, s) (sc', s')"
      using faithful_catch_up_events [OF assms, of es "(sc, s)" tid running] log_since_log [OF Some] f by simp
    moreover have "faithful (se_lib env) (sc', s') (update_task i (\<lambda>t. t\<lparr>tk_last_seq := q\<rparr>) sc', s')" for q
      by (rule faithful_forgets [OF forgets_same rg.R_refl]) (simp_all add: update_task_def)
    ultimately show ?thesis using faithful_trans by (auto simp: x catch_up_task_def Some f Let_def)
  qed
qed

lemma faithful_catch_up: "ids_survive env \<Longrightarrow> faithful (se_lib env) st (catch_up_running_events env st)"
  unfolding catch_up_running_events_def by (rule faithful_fold) (rule faithful_catch_up_task)

text \<open>A notification brings an event of a log.\<close>

definition genuine :: "turn_server \<Rightarrow> notification \<Rightarrow> bool" where
  "genuine s n \<longleftrightarrow>
     (case n of NotifyEvent e \<Rightarrow> e \<in> set (log_of (tn_server s) (ev_thread_id e)) | _ \<Rightarrow> True)"

lemma faithful_notification:
  assumes "ids_survive env" and "genuine (snd st) n"
  shows "faithful (se_lib env) st (handle_notification env n st)"
proof (cases n)
  case (NotifyEvent e)
  let ?st = "case ev_kind e of
          TurnCompleted turn status reason \<Rightarrow> turn_completed_event env (ev_thread_id e) turn status reason st
        | ApprovalRequested i turn action params \<Rightarrow>
            handle_approval_requested env (ev_thread_id e) i turn action params st
        | ApprovalDecided i decision remember reason \<Rightarrow>
            handle_approval_decided env (ev_thread_id e) i decision remember reason st
        | _ \<Rightarrow> st"
  have "e \<in> set (log_of (tn_server (snd st)) (ev_thread_id e))" using assms(2) NotifyEvent by (simp add: genuine_def)
  then have "faithful (se_lib env) st ?st"
    using faithful_turn_completed faithful_requested [OF assms(1)] granted_event
    by (auto simp: faithful_refl intro!: faithful_decided split: thread_event_kind.split)
  moreover have "faithful (se_lib env) (sc, s) (update_task_last_seq tid q sc, s)" for sc s tid q
    by (rule faithful_forgets [OF forgets_same rg.R_refl])
      (auto simp: update_task_last_seq_def update_task_def split: option.split)
  ultimately show ?thesis
    using NotifyEvent by (auto simp: schedule_event_def intro: faithful_trans split: prod.split)
qed (simp_all add: faithful_refl faithful_catch_up assms(1))

section \<open>Runs\<close>

text \<open>The pieces of work of the scheduler, and anything else that lets the logs grow, in any order.\<close>

inductive scheduler_work :: "sched_env \<Rightarrow> schedule \<times> turn_server \<Rightarrow> schedule \<times> turn_server \<Rightarrow> bool" for env where
  work_starts: "scheduler_work env st (start_ready_step env st)"
| work_catches_up: "scheduler_work env st (catch_up_running_events env st)"
| work_notified: "genuine (snd st) n \<Longrightarrow> scheduler_work env st (handle_notification env n st)"

inductive scheduler_reach :: "sched_env \<Rightarrow> schedule \<times> turn_server \<Rightarrow> schedule \<times> turn_server \<Rightarrow> bool" for env st where
  sched_begins: "scheduler_reach env st st"
| sched_works: "scheduler_reach env st m \<Longrightarrow> scheduler_work env m st' \<Longrightarrow> scheduler_reach env st st'"
| sched_others: "scheduler_reach env st (sc, s) \<Longrightarrow> logs_grow (tn_server s) (tn_server s') \<Longrightarrow>
    scheduler_reach env st (sc, s')"

lemma work_faithful: "scheduler_work env st st' \<Longrightarrow> ids_survive env \<Longrightarrow> faithful (se_lib env) st st'"
  by (erule scheduler_work.cases) (simp_all add: faithful_start_ready faithful_catch_up faithful_notification)

lemma reach_proxies_logged:
  assumes "scheduler_reach env st st'" and "ids_survive env" "proxies_logged (se_lib env) st"
  shows "proxies_logged (se_lib env) st' \<and> sc_parent_thread_id (fst st') = sc_parent_thread_id (fst st)"
  using assms(1)
proof induction
  case (sched_works m st')
  with work_faithful [OF _ assms(2)] show ?case unfolding faithful_def by metis
next
  case (sched_others sc s s')
  with forgets_logged [OF forgets_refl] show ?case by auto
qed (simp add: assms(3))

text \<open>C19: The scheduler grants an approval only because it was granted on the other side: an
  approval newly granted to a subagent was granted to the request of the parent that forwards
  it, and one newly granted to the parent was granted to the subagent's own request. This holds
  of every piece of the scheduler's work, in any state it can get to.\<close>

theorem scheduler_invents_no_approval:
  assumes "ids_survive env"
    and "scheduler_reach env (new_schedule parent tasks external m aging, s0) (sc, s)"
    and "scheduler_work env (sc, s) (sc', s')"
    and "user_granted s' tid i" "\<not> user_granted s tid i"
  shows "(tid = parent \<and> (\<exists>k. forwards (se_lib env) s' parent i k \<and>
        user_granted s' (ak_thread_id k) (ak_approval_id k))) \<or>
    (\<exists>p. forwards (se_lib env) s' parent p \<lparr>ak_thread_id = tid, ak_approval_id = i\<rparr> \<and>
        user_granted s' parent p)"
proof -
  let ?sc = "new_schedule parent tasks external m aging"
  have "proxies_logged (se_lib env) (?sc, s0)" "sc_parent_thread_id ?sc = parent"
    by (simp_all add: proxies_logged_def new_schedule_def split: prod.split)
  with reach_proxies_logged [OF assms(2,1)] have "proxies_logged (se_lib env) (sc, s)"
    "sc_parent_thread_id sc = parent" by auto
  with work_faithful [OF assms(3,1)] have "carries (se_lib env) parent s s'" by (simp add: faithful_def)
  with assms(4,5) show ?thesis unfolding carries_def justified_def by blast
qed

section \<open>A forwarded approval\<close>

text \<open>
  The parent has granted the request that forwards a subagent's request; the scheduler, which
  has lost the proxy, sees the subagent's request and grants it.
\<close>

definition unary_id :: "uuid \<Rightarrow> string" where
  "unary_id n = replicate (unat n) (CHR ''x'')"

definition forwarding_env :: sched_env where
  "forwarding_env =
     \<lparr>se_server = sample_env,
      se_lib = sample_lib\<lparr>al_show_thread := unary_id \<circ> thread_uuid, al_show_approval := unary_id \<circ> approval_uuid,
        al_parse_thread := (\<lambda>s. Some (ThreadId (of_nat (length s)))),
        al_parse_approval := (\<lambda>s. Some (ApprovalId (of_nat (length s))))\<rparr>,
      se_turn_id = (\<lambda>_. TurnId 1), se_proxy_id = (\<lambda>_. ApprovalId 7), se_show_turn = (\<lambda>_. []),
      se_show_error = (\<lambda>_. []), se_keys = (\<lambda>_. [])\<rparr>"

lemma no_redaction_text [simp]: "redact_text no_redaction x = x"
  by (simp add: redact_text_def fold_invariant [of _ "\<lambda>_. True" "\<lambda>y. y = x", simplified])

lemma forwarding_ids_survive: "ids_survive forwarding_env"
  by (simp add: ids_survive_def forwarding_env_def sample_env_def unary_id_def)

definition child_event :: "thread_id \<Rightarrow> event_seq \<Rightarrow> thread_event_kind \<Rightarrow> thread_event" where
  "child_event tid n k = \<lparr>ev_seq = n, ev_timestamp = 1000, ev_thread_id = tid, ev_kind = k\<rparr>"

definition child_request :: thread_event where
  "child_request = child_event (ThreadId 1) 2 (ApprovalRequested (ApprovalId 5) (Some (TurnId 1)) ''fs/mkdir'' JNull)"

definition running_sample_task :: spawn_task where
  "running_sample_task = (sample_task ''a'' [] 1)\<lparr>tk_turn_id := Some (TurnId 1), tk_status := TaskRunning\<rparr>"

definition child_key :: approval_key where
  "child_key = \<lparr>ak_thread_id = ThreadId 1, ak_approval_id = ApprovalId 5\<rparr>"

definition forwarding_server :: turn_server where
  "forwarding_server =
     \<lparr>tn_server = \<lparr>sv_logs =
        [ThreadId 1 \<mapsto> [child_event (ThreadId 1) 1 (ThreadCreated ''/w''), child_request],
         ThreadId 9 \<mapsto> [child_event (ThreadId 9) 1 (ThreadCreated ''/w''),
           child_event (ThreadId 9) 2 (ApprovalRequested (ApprovalId 6) None ''subagent/proxy_approval''
             (proxy_params forwarding_env running_sample_task child_key (TurnId 1) ''fs/mkdir'' JNull)),
           child_event (ThreadId 9) 3 (ApprovalDecided (ApprovalId 6) Approved False None)]],
        sv_loaded = {ThreadId 1, ThreadId 9},
        sv_budget = (\<lambda>_. \<lparr>bm_warning_active = None, bm_exceeded_active = None\<rparr>)\<rparr>,
      tn_runtimes = (\<lambda>_. Some new_runtime)\<rparr>"

lemma forwarding_server_ok: "server_ok (tn_server forwarding_server)"
  by (simp add: server_ok_def forwarding_server_def child_request_def child_event_def apply_event_def
      new_state_def event_seq_zero_def)

lemma redact_nothing: "redact_json_value no_redaction (proxy_params forwarding_env running_sample_task child_key turn ''fs/mkdir'' JNull) =
    proxy_params forwarding_env running_sample_task child_key turn ''fs/mkdir'' JNull"
proof -
  have "\<not> is_sensitive_key ''task_id''" "\<not> is_sensitive_key ''task_title''" "\<not> is_sensitive_key ''child_turn_id''"
    "\<not> is_sensitive_key ''child_request''" "\<not> is_sensitive_key ''action''" "\<not> is_sensitive_key ''params''"
    by code_simp+
  with proxy_keys_not_sensitive show ?thesis by (simp add: proxy_params_def)
qed

abbreviation forwarding_schedule :: schedule where
  "forwarding_schedule \<equiv> new_schedule (ThreadId 9) [running_sample_task] {} 2 3"

lemma forwarding_existing:
  "find_existing_parent_proxy_approval forwarding_env forwarding_schedule forwarding_server child_key =
     Some \<lparr>ep_approval_id = ApprovalId 6,
           ep_decision = Some \<lparr>ed_decision = Approved, ed_remember = False, ed_reason = None\<rparr>\<rparr>"
proof -
  have "parse_subagent_proxy_child_key (se_lib forwarding_env)
      (proxy_params forwarding_env running_sample_task child_key (TurnId 1) ''fs/mkdir'' JNull) = Some child_key"
    using parse_proxy_params [OF forwarding_ids_survive, of running_sample_task child_key "TurnId 1" "''fs/mkdir''" JNull]
      redact_nothing by (simp add: forwarding_env_def sample_env_def)
  moreover have "sc_parent_thread_id forwarding_schedule = ThreadId 9"
    by (simp add: new_schedule_def split: prod.split)
  ultimately show ?thesis
    by (simp add: find_existing_parent_proxy_approval_def log_since_def forwarding_server_def child_event_def)
qed

lemma forwarding_grants:
  "user_granted (snd (handle_notification forwarding_env (NotifyEvent child_request)
     (forwarding_schedule, forwarding_server))) (ThreadId 1) (ApprovalId 5)"
proof -
  let ?k = "ApprovalDecided (ApprovalId 5) Approved False (Some (decorate_subagent_proxy_forwarded_reason None))"
  have "env_writes sample_env" by (simp add: env_writes_def sample_env_def)
  moreover have log: "sv_logs (tn_server forwarding_server) (ThreadId 1) \<noteq> None" by (simp add: forwarding_server_def)
  ultimately obtain e v where
    v: "rt_append_event sample_env (ThreadId 1) ?k (tn_server forwarding_server) = (Inr e, v)"
    by (rule harmless_append_succeeds [OF _ forwarding_server_ok]) (rule harmless.simps(2) [THEN iffD2, OF TrueI])
  have loaded: "get_or_load_thread sample_env (ThreadId 1) (tn_server forwarding_server) = (Inr (), tn_server forwarding_server)"
    by (simp add: get_or_load_thread_def forwarding_server_def)
  have "try_append sample_env (ThreadId 1) ?k forwarding_server = (True, forwarding_server\<lparr>tn_server := v\<rparr>)"
    using v loaded
    by (simp add: try_append_def act_bind_def load_runtime_def on_threads_def forwarding_server_def)
      (metis fun_upd_triv)
  moreover from try_append_logs [OF this] have "user_granted (forwarding_server\<lparr>tn_server := v\<rparr>) (ThreadId 1) (ApprovalId 5)"
    by (force simp: granted_in_def)
  moreover have "approval_state_of forwarding_server (ThreadId 1) (ApprovalId 5) = Some ApprovalPending"
    by (simp add: approval_state_of_def log_since_def forwarding_server_def child_request_def child_event_def)
  moreover have "sc_running_by_thread forwarding_schedule (ThreadId 1) = Some (''a'', TurnId 1)"
    "sc_approval_proxy_by_child forwarding_schedule child_key = None"
    by (simp_all add: new_schedule_def running_sample_task_def sample_task_def)
  moreover have "se_server forwarding_env = sample_env" by (simp add: forwarding_env_def)
  ultimately show ?thesis
    using forwarding_existing
    by (simp add: schedule_event_def handle_approval_requested_def Let_def child_request_def child_event_def
        child_key_def reconcile_child_approval_with_parent_decision_def split: prod.split)
qed

theorem scheduler_invents_no_approval_witness:
  "\<exists>s'. user_granted s' (ThreadId 1) (ApprovalId 5) \<and>
     (\<exists>p. forwards (se_lib forwarding_env) s' (ThreadId 9) p child_key \<and> user_granted s' (ThreadId 9) p)"
proof -
  obtain sc' s' where r: "handle_notification forwarding_env (NotifyEvent child_request)
      (forwarding_schedule, forwarding_server) = (sc', s')" by fastforce
  have "genuine (snd (forwarding_schedule, forwarding_server)) (NotifyEvent child_request)"
    by (simp add: genuine_def forwarding_server_def log_of_def child_request_def child_event_def)
  from work_notified [OF this, of forwarding_env] r have w: "scheduler_work forwarding_env
      (forwarding_schedule, forwarding_server) (sc', s')" by simp
  have "\<not> user_granted forwarding_server (ThreadId 1) (ApprovalId 5)"
    by (simp add: granted_in_def log_of_def forwarding_server_def child_request_def child_event_def)
  moreover have g: "user_granted s' (ThreadId 1) (ApprovalId 5)" using forwarding_grants r by simp
  ultimately have "\<exists>p. forwards (se_lib forwarding_env) s' (ThreadId 9) p child_key \<and> user_granted s' (ThreadId 9) p"
    using scheduler_invents_no_approval [OF forwarding_ids_survive sched_begins w g] by (simp add: child_key_def)
  with g show ?thesis by blast
qed

end
