(* ===== verification/NetIntent.thy ===== *)
theory NetIntent
  imports Prelude
begin

text \<open>
  The classifier of command lines of \<open>crates/process-runtime/src/lib.rs\<close>, which the server
  consults when a thread's sandbox denies the network: whether the arguments of a command show
  that it uses the network, and whether they hide what it does. The loops over \<open>argv\<close> run over
  what is left of the list; \<open>shlex::split\<close> is the parameter \<open>split\<close>. Shell snippets and \<open>env\<close>
  make the functions mutually recursive, with a bound on the nesting.
\<close>

section \<open>Words\<close>

type_synonym word_split = "string \<Rightarrow> string list option"

fun after_separators :: "string \<Rightarrow> string" where
  "after_separators [] = []"
| "after_separators (c # cs) =
     (if CHR ''/'' \<in> set cs \<or> CHR 0x5C \<in> set cs then after_separators cs
      else if c = CHR ''/'' \<or> c = CHR 0x5C then cs else c # cs)"

definition normalized_program_name :: "string \<Rightarrow> string" where
  "normalized_program_name program =
     (let name = to_ascii_lowercase (after_separators program) in
      case strip_suffix ''.exe'' name of Some stripped \<Rightarrow> stripped | None \<Rightarrow> name)"

text \<open>An argument that is no option; a single dash is the standard input.\<close>

definition non_option :: "string \<Rightarrow> bool" where
  "non_option arg \<longleftrightarrow> \<not> starts_with ''-'' arg \<or> arg = ''-''"

definition first_non_option_arg :: "string list \<Rightarrow> nat \<Rightarrow> string option" where
  "first_non_option_arg argv start_index = List.find non_option (drop start_index argv)"

text \<open>\<open>matches!(first_non_option_arg(argv, n), Some(a | b | ...))\<close>\<close>

definition subcommand_among :: "string list \<Rightarrow> nat \<Rightarrow> string list \<Rightarrow> bool" where
  "subcommand_among argv start_index names =
     (case first_non_option_arg argv start_index of Some s \<Rightarrow> s \<in> set names | None \<Rightarrow> False)"

definition has_equals :: "string \<Rightarrow> bool" where
  "has_equals arg \<longleftrightarrow> CHR ''='' \<in> set arg"

section \<open>Programs with network subcommands\<close>

definition git_global_option_takes_value :: "string \<Rightarrow> bool" where
  "git_global_option_takes_value arg \<longleftrightarrow> arg \<in> set
     [''-C'', ''-c'', ''--exec-path'', ''--git-dir'', ''--list-cmds'', ''--namespace'',
      ''--super-prefix'', ''--work-tree'', ''--config-env'', ''--attr-source'']"

definition git_option_has_inline_value :: "string \<Rightarrow> bool" where
  "git_option_has_inline_value arg \<longleftrightarrow>
     (starts_with ''-C'' arg \<or> starts_with ''-c'' arg) \<and> 2 < length arg \<or> has_equals arg"

definition git_network_subcommand_name :: "string \<Rightarrow> bool" where
  "git_network_subcommand_name arg \<longleftrightarrow>
     arg \<in> set [''clone'', ''fetch'', ''pull'', ''push'', ''ls-remote'', ''submodule'']"

text \<open>The loop over the arguments after the program.\<close>

function git_subcommand_loop :: "string list \<Rightarrow> string option" where
  "git_subcommand_loop [] = None"
| "git_subcommand_loop (arg # rest) =
     (if arg = ''--'' then (case rest of r # _ \<Rightarrow> Some r | [] \<Rightarrow> None)
      else if non_option arg then Some arg
      else if git_global_option_takes_value arg \<and> \<not> git_option_has_inline_value arg
      then git_subcommand_loop (drop 1 rest)
      else git_subcommand_loop rest)"
  by pat_completeness auto
termination by (relation "measure length") auto

definition git_subcommand :: "string list \<Rightarrow> string option" where
  "git_subcommand argv = git_subcommand_loop (drop 1 argv)"

definition git_subcommand_uses_network :: "string list \<Rightarrow> bool" where
  "git_subcommand_uses_network argv =
     (case git_subcommand argv of Some s \<Rightarrow> git_network_subcommand_name s | None \<Rightarrow> False)"

definition npm_subcommand_uses_network :: "string list \<Rightarrow> bool" where
  "npm_subcommand_uses_network argv = subcommand_among argv 1
     [''install'', ''i'', ''add'', ''update'', ''upgrade'', ''publish'', ''search'', ''view'',
      ''info'', ''audit'', ''outdated'', ''login'', ''logout'', ''ping'', ''dist-tag'', ''owner'',
      ''team'', ''org'', ''access'', ''whoami'', ''create'']"

definition pnpm_subcommand_uses_network :: "string list \<Rightarrow> bool" where
  "pnpm_subcommand_uses_network argv = subcommand_among argv 1
     [''install'', ''i'', ''add'', ''update'', ''up'', ''dlx'', ''create'', ''publish'',
      ''search'', ''info'', ''audit'', ''outdated'', ''login'', ''logout'', ''ping'']"

text \<open>\<open>yarn\<close> without a subcommand installs.\<close>

definition yarn_subcommand_uses_network :: "string list \<Rightarrow> bool" where
  "yarn_subcommand_uses_network argv \<longleftrightarrow> first_non_option_arg argv 1 = None \<or>
     subcommand_among argv 1
       [''install'', ''add'', ''up'', ''upgrade'', ''dlx'', ''create'', ''npm'', ''search'',
        ''info'', ''audit'', ''outdated'', ''login'', ''logout'', ''publish'']"

definition pip_subcommand_uses_network_from :: "string list \<Rightarrow> nat \<Rightarrow> bool" where
  "pip_subcommand_uses_network_from argv start_index =
     subcommand_among argv start_index [''install'', ''download'', ''wheel'', ''search'', ''index'']"

definition cargo_subcommand_uses_network :: "string list \<Rightarrow> bool" where
  "cargo_subcommand_uses_network argv =
     subcommand_among argv 1 [''install'', ''search'', ''publish'', ''add'', ''login'', ''owner'']"

definition go_subcommand_uses_network :: "string list \<Rightarrow> bool" where
  "go_subcommand_uses_network argv =
     (case first_non_option_arg argv 1 of
        Some s \<Rightarrow>
          if s = ''get'' \<or> s = ''install'' then True
          else if s = ''mod'' then subcommand_among argv 2 [''download'', ''tidy'']
          else False
      | None \<Rightarrow> False)"

definition uv_subcommand_uses_network :: "string list \<Rightarrow> bool" where
  "uv_subcommand_uses_network argv =
     (case first_non_option_arg argv 1 of
        Some s \<Rightarrow>
          if s = ''pip'' then pip_subcommand_uses_network_from argv 2
          else if s = ''sync'' then True
          else if s = ''tool'' then subcommand_among argv 2 [''install'', ''upgrade'', ''run'']
          else False
      | None \<Rightarrow> False)"

definition uv_invocation_hides_network_intent :: "string list \<Rightarrow> bool" where
  "uv_invocation_hides_network_intent argv \<longleftrightarrow> subcommand_among argv 1 [''run''] \<and> 2 < length argv"

section \<open>Wrappers and interpreters\<close>

definition env_option_takes_value :: "string \<Rightarrow> bool" where
  "env_option_takes_value arg \<longleftrightarrow>
     arg \<in> set [''-u'', ''--unset'', ''--chdir'', ''-C'', ''--split-string'', ''-S'']"

text \<open>What \<open>env\<close> runs, from the arguments after the program.\<close>

function env_wrapped_loop :: "string list \<Rightarrow> string list" where
  "env_wrapped_loop [] = []"
| "env_wrapped_loop (arg # rest) =
     (if arg = ''--'' then rest
      else if has_equals arg \<and> \<not> starts_with ''-'' arg then env_wrapped_loop rest
      else if non_option arg then arg # rest
      else if env_option_takes_value arg \<and> \<not> has_equals arg then env_wrapped_loop (drop 1 rest)
      else env_wrapped_loop rest)"
  by pat_completeness auto
termination by (relation "measure length") auto

definition env_wrapped_command :: "string list \<Rightarrow> string list" where
  "env_wrapped_command argv = env_wrapped_loop (drop 1 argv)"

definition contains_any :: "string list \<Rightarrow> string \<Rightarrow> bool" where
  "contains_any needles s \<longleftrightarrow> (\<exists>n \<in> set needles. contains n s)"

definition python_network_code :: "string list" where
  "python_network_code =
     [''http://'', ''https://'', ''import socket'', ''from socket'', ''import requests'',
      ''from requests'', ''import urllib'', ''from urllib'', ''import httpx'', ''from httpx'',
      ''import aiohttp'', ''from aiohttp'', ''import ftplib'', ''from ftplib'',
      ''import websocket'', ''from websocket'', ''import websockets'', ''from websockets'']"

text \<open>The arguments after the program; \<open>argv\<close> from a position on is what is left of them.\<close>

fun python_eval_loop :: "string list \<Rightarrow> bool" where
  "python_eval_loop [] = False"
| "python_eval_loop (arg # rest) =
     (if arg = ''-c'' \<or> arg = ''--command'' then
        (case rest of [] \<Rightarrow> False | code # _ \<Rightarrow> contains_any python_network_code (to_ascii_lowercase code))
      else if arg = ''-m'' \<or> arg = ''--module'' then
        (case rest of
           [] \<Rightarrow> False
         | module # args \<Rightarrow>
             to_ascii_lowercase module \<in> {''pip'', ''pip3''} \<and> pip_subcommand_uses_network_from args 0)
      else starts_with ''-'' arg \<and> python_eval_loop rest)"

definition python_eval_uses_network :: "string list \<Rightarrow> nat \<Rightarrow> bool" where
  "python_eval_uses_network argv depth_remaining \<longleftrightarrow> 0 < depth_remaining \<and> python_eval_loop (drop 1 argv)"

fun python_hides_loop :: "string list \<Rightarrow> bool" where
  "python_hides_loop [] = False"
| "python_hides_loop (arg # rest) =
     (if arg = ''-c'' \<or> arg = ''--command'' then False
      else if arg = ''-m'' \<or> arg = ''--module'' then
        (case rest of [] \<Rightarrow> False | module # _ \<Rightarrow> to_ascii_lowercase module \<notin> {''pip'', ''pip3''})
      else non_option arg \<or> python_hides_loop rest)"

definition python_invocation_hides_network_intent :: "string list \<Rightarrow> nat \<Rightarrow> bool" where
  "python_invocation_hides_network_intent argv depth_remaining \<longleftrightarrow>
     0 < depth_remaining \<and> python_hides_loop (drop 1 argv)"

definition quoted_require :: "char \<Rightarrow> string \<Rightarrow> string" where
  "quoted_require quote module = ''require('' @ quote # module @ [quote, CHR '')'']"

definition node_network_code :: "string list" where
  "node_network_code =
     [''http://'', ''https://'', ''fetch('', ''xmlhttprequest'',
      quoted_require (CHR 0x27) ''http'', quoted_require (CHR 0x22) ''http'',
      quoted_require (CHR 0x27) ''https'', quoted_require (CHR 0x22) ''https'',
      quoted_require (CHR 0x27) ''net'', quoted_require (CHR 0x22) ''net'',
      quoted_require (CHR 0x27) ''tls'', quoted_require (CHR 0x22) ''tls'',
      ''import http from'', ''import https from'', ''import net from'', ''import tls from'']"

fun node_eval_loop :: "string list \<Rightarrow> bool" where
  "node_eval_loop [] = False"
| "node_eval_loop (arg # rest) =
     (if arg = ''-e'' \<or> arg = ''--eval'' then
        (case rest of [] \<Rightarrow> False | code # _ \<Rightarrow> contains_any node_network_code (to_ascii_lowercase code))
      else starts_with ''-'' arg \<and> node_eval_loop rest)"

definition node_eval_uses_network :: "string list \<Rightarrow> nat \<Rightarrow> bool" where
  "node_eval_uses_network argv depth_remaining \<longleftrightarrow> 0 < depth_remaining \<and> node_eval_loop (drop 1 argv)"

fun node_hides_loop :: "string list \<Rightarrow> bool" where
  "node_hides_loop [] = False"
| "node_hides_loop (arg # rest) =
     (if arg = ''-e'' \<or> arg = ''--eval'' then False else non_option arg \<or> node_hides_loop rest)"

definition node_invocation_hides_network_intent :: "string list \<Rightarrow> nat \<Rightarrow> bool" where
  "node_invocation_hides_network_intent argv depth_remaining \<longleftrightarrow>
     0 < depth_remaining \<and> node_hides_loop (drop 1 argv)"

text \<open>\<open>-c\<close> or a cluster of options that ends with it.\<close>

definition command_flag :: "string \<Rightarrow> bool" where
  "command_flag arg \<longleftrightarrow> arg = ''-c'' \<or> ends_with ''c'' arg \<and> starts_with ''-'' arg"

fun shell_hides_loop :: "string list \<Rightarrow> bool" where
  "shell_hides_loop [] = False"
| "shell_hides_loop (arg # rest) =
     (if arg = ''--'' then shell_hides_loop rest
      else if command_flag arg then False
      else non_option arg \<or> shell_hides_loop rest)"

definition shell_invocation_hides_network_intent :: "string list \<Rightarrow> nat \<Rightarrow> bool" where
  "shell_invocation_hides_network_intent argv depth_remaining \<longleftrightarrow>
     0 < depth_remaining \<and> shell_hides_loop (drop 1 argv)"

section \<open>The classifier\<close>

definition network_programs :: "string list" where
  "network_programs =
     [''curl'', ''wget'', ''ssh'', ''scp'', ''sftp'', ''ftp'', ''telnet'', ''nc'', ''ncat'',
      ''netcat'', ''gh'']"

definition shells :: "string list" where
  "shells = [''bash'', ''rbash'', ''sh'', ''dash'', ''zsh'', ''ksh'']"

definition node_programs :: "string list" where
  "node_programs = [''node'', ''nodejs'', ''deno'', ''bun'']"

definition control_operators :: "string list" where
  "control_operators = [''&&'', ''||'', '';'', ''|'', ''|&'', ''&'']"

text \<open>The arms of the match on the program's name that do not look inside a wrapped command.\<close>

definition program_uses_network :: "string \<Rightarrow> string list \<Rightarrow> nat \<Rightarrow> bool" where
  "program_uses_network name argv d =
     (if name \<in> set network_programs then True
      else if name = ''git'' then git_subcommand_uses_network argv
      else if name = ''npm'' \<or> name = ''npx'' then npm_subcommand_uses_network argv \<or> name = ''npx''
      else if name = ''pnpm'' \<or> name = ''pnpx'' then pnpm_subcommand_uses_network argv \<or> name = ''pnpx''
      else if name = ''yarn'' then yarn_subcommand_uses_network argv
      else if name = ''pip'' \<or> name = ''pip3'' then pip_subcommand_uses_network_from argv 1
      else if name = ''cargo'' then cargo_subcommand_uses_network argv
      else if name = ''go'' then go_subcommand_uses_network argv
      else if name = ''uv'' then uv_subcommand_uses_network argv
      else if name = ''uvx'' then True
      else if name = ''python'' \<or> name = ''python3'' then python_eval_uses_network argv d
      else if name \<in> set node_programs then node_eval_uses_network argv d
      else False)"

lemma env_wrapped_loop_length: "length (env_wrapped_loop args) \<le> length args"
  by (induction args rule: env_wrapped_loop.induct) auto

text \<open>
  The loops of a shell's arguments and of a snippet's words are functions of their own:
  \<open>shell_invocation_loop\<close> runs over the arguments after the program, and
  \<open>command_sequence_loop\<close> over the words, with the command read so far.
\<close>

function argv_uses_network :: "word_split \<Rightarrow> string list \<Rightarrow> nat \<Rightarrow> bool"
  and shell_invocation_loop :: "word_split \<Rightarrow> string list \<Rightarrow> nat \<Rightarrow> bool"
  and shell_snippet_uses_network :: "word_split \<Rightarrow> string \<Rightarrow> nat \<Rightarrow> bool"
  and command_sequence_loop :: "word_split \<Rightarrow> string list \<Rightarrow> string list \<Rightarrow> nat \<Rightarrow> bool" where
  "argv_uses_network split [] d = False"
| "argv_uses_network split (program # args) d =
     (let name = normalized_program_name program in
      if name = ''env'' then
        env_wrapped_loop args \<noteq> [] \<and> argv_uses_network split (env_wrapped_loop args) (d - 1)
      else if name \<in> set shells then
        (case d of 0 \<Rightarrow> False | Suc _ \<Rightarrow> shell_invocation_loop split args d)
      else program_uses_network name (program # args) d)"
| "shell_invocation_loop split [] d = False"
| "shell_invocation_loop split (arg # rest) d =
     (if arg = ''--'' then shell_invocation_loop split rest d
      else if command_flag arg then
        (case rest of
           [] \<Rightarrow> False
         | command # _ \<Rightarrow>
             (case d of 0 \<Rightarrow> False | Suc d' \<Rightarrow> shell_snippet_uses_network split command d'))
      else if non_option arg then False
      else shell_invocation_loop split rest d)"
| "shell_snippet_uses_network split command d =
     (case split command of None \<Rightarrow> False | Some tokens \<Rightarrow> command_sequence_loop split [] tokens d)"
| "command_sequence_loop split current [] d = argv_uses_network split current d"
| "command_sequence_loop split current (token # tokens) d =
     (if token \<in> set control_operators then
        argv_uses_network split current d \<or> command_sequence_loop split [] tokens d
      else command_sequence_loop split (current @ [token]) tokens d)"
  by pat_completeness auto
termination
  by (relation "measures
      [\<lambda>x. case x of Inl (Inl (_, _, d)) \<Rightarrow> d | Inl (Inr (_, _, d)) \<Rightarrow> d
            | Inr (Inl (_, _, d)) \<Rightarrow> d | Inr (Inr (_, _, _, d)) \<Rightarrow> d,
       \<lambda>x. case x of Inl (Inl _) \<Rightarrow> 1 | Inl (Inr _) \<Rightarrow> 0 | Inr (Inl _) \<Rightarrow> 3 | Inr (Inr _) \<Rightarrow> 2,
       \<lambda>x. case x of Inl (Inl (_, argv, _)) \<Rightarrow> length argv | Inl (Inr (_, args, _)) \<Rightarrow> length args
            | Inr (Inl _) \<Rightarrow> 0 | Inr (Inr (_, _, tokens, _)) \<Rightarrow> length tokens]")
    (auto simp: le_imp_less_Suc env_wrapped_loop_length)

function argv_hides_network_intent :: "string list \<Rightarrow> nat \<Rightarrow> bool" where
  "argv_hides_network_intent [] d = False"
| "argv_hides_network_intent (program # args) d =
     (let name = normalized_program_name program; argv = program # args in
      if name = ''env'' then
        env_wrapped_loop args \<noteq> [] \<and> argv_hides_network_intent (env_wrapped_loop args) (d - 1)
      else if name = ''uv'' then uv_invocation_hides_network_intent argv
      else if name = ''python'' \<or> name = ''python3'' then python_invocation_hides_network_intent argv d
      else if name \<in> set node_programs then node_invocation_hides_network_intent argv d
      else if name \<in> set shells then shell_invocation_hides_network_intent argv d
      else False)"
  by pat_completeness auto
termination by (relation "measure (length \<circ> fst)") (auto simp: le_imp_less_Suc env_wrapped_loop_length)

definition command_uses_network :: "word_split \<Rightarrow> string list \<Rightarrow> bool" where
  "command_uses_network split argv = argv_uses_network split argv 4"

definition command_hides_network_intent :: "string list \<Rightarrow> bool" where
  "command_hides_network_intent argv = argv_hides_network_intent argv 4"

declare argv_uses_network.simps(2) [simp del] shell_invocation_loop.simps(2) [simp del]
  command_sequence_loop.simps(2) [simp del] argv_hides_network_intent.simps(2) [simp del]
  shell_snippet_uses_network.simps [simp del]

section \<open>Deeper nesting is seen by more depth\<close>

lemma env_no_shell [simp]: "''env'' \<notin> set shells"
  by (simp add: shells_def)

lemma argv_shell:
  "normalized_program_name program \<in> set shells \<Longrightarrow>
   argv_uses_network split (program # args) d \<longleftrightarrow> 0 < d \<and> shell_invocation_loop split args d"
  by (auto simp: argv_uses_network.simps(2) Let_def split: nat.split)

lemma argv_env:
  "normalized_program_name program = ''env'' \<Longrightarrow>
   argv_uses_network split (program # args) d \<longleftrightarrow>
     env_wrapped_loop args \<noteq> [] \<and> argv_uses_network split (env_wrapped_loop args) (d - 1)"
  by (simp add: argv_uses_network.simps(2))

lemma if_arms: "(if c then a else b) \<Longrightarrow> (a \<Longrightarrow> a') \<Longrightarrow> (b \<Longrightarrow> b') \<Longrightarrow> (if c then a' else b')"
  by (simp split: if_splits)

lemma program_mono:
  assumes "program_uses_network name argv d" and "d \<le> e"
  shows "program_uses_network name argv e"
proof -
  have "python_eval_uses_network argv d \<Longrightarrow> python_eval_uses_network argv e"
    "node_eval_uses_network argv d \<Longrightarrow> node_eval_uses_network argv e"
    using assms(2) by (simp_all add: python_eval_uses_network_def node_eval_uses_network_def)
  with assms(1) show ?thesis
    unfolding program_uses_network_def by - (erule if_arms, assumption | assumption | erule if_arms, blast)+
qed

lemma uses_network_mono:
  "argv_uses_network split argv d \<Longrightarrow> d \<le> e \<Longrightarrow> argv_uses_network split argv e"
  "shell_invocation_loop split args d \<Longrightarrow> d \<le> e \<Longrightarrow> shell_invocation_loop split args e"
  "shell_snippet_uses_network split command d \<Longrightarrow> d \<le> e \<Longrightarrow> shell_snippet_uses_network split command e"
  "command_sequence_loop split current tokens d \<Longrightarrow> d \<le> e \<Longrightarrow> command_sequence_loop split current tokens e"
proof (induction split argv d and split args d and split command d and split current tokens d arbitrary: e and e and e and e
    rule: argv_uses_network_shell_invocation_loop_shell_snippet_uses_network_command_sequence_loop.induct)
  case (2 split program args d)
  note uses = 2(3) [unfolded argv_uses_network.simps(2) Let_def] and deeper = \<open>d \<le> e\<close>
  show ?case
  proof (cases "normalized_program_name program = ''env''")
    case True
    with uses 2(1) [OF refl True, of "e - 1"] deeper show ?thesis by (simp add: argv_env)
  next
    case False
    note plain = False
    show ?thesis
    proof (cases "normalized_program_name program \<in> set shells")
      case True
      with uses False obtain d' where "d = Suc d'" "shell_invocation_loop split args d" by (auto split: nat.splits)
      with 2(2) [OF refl False True this(1), of e] True deeper show ?thesis by (simp add: argv_shell)
    qed (use uses plain deeper program_mono in \<open>auto simp: argv_uses_network.simps(2) Let_def\<close>)
  qed
next
  case (4 split arg rest d)
  note uses = 4(4) [unfolded shell_invocation_loop.simps(2) [of split arg rest d]]
  show ?case
  proof (cases "arg = ''--'' \<or> \<not> command_flag arg")
    case True
    then show ?thesis using uses 4(1,3,5)
      by (auto simp: shell_invocation_loop.simps(2) [of split arg rest e] split: if_splits)
  next
    case False
    with uses obtain command more d' where "rest = command # more" "d = Suc d'"
      "shell_snippet_uses_network split command d'" by (auto split: list.splits nat.splits)
    moreover from this False 4(2) [of command more d' "e - 1"] 4(5)
    have "shell_snippet_uses_network split command (e - 1)" by auto
    moreover obtain e' where "e = Suc e'" using calculation(2) 4(5) by (cases e) auto
    ultimately show ?thesis using False by (simp add: shell_invocation_loop.simps(2))
  qed
next
  case (5 split command d)
  then show ?case by (auto simp: shell_snippet_uses_network.simps split: option.splits)
next
  case (7 split current token tokens d)
  note uses = 7(4) [unfolded command_sequence_loop.simps(2) [of split current token tokens d]]
  show ?case using uses 7(1,2,3,5)
    by (auto simp: command_sequence_loop.simps(2) [of split current token tokens e] split: if_splits)
qed simp_all

section \<open>Commands inside wrappers\<close>

lemma env_skips_assignments:
  assumes "\<forall>a \<in> set assigns. has_equals a \<and> \<not> starts_with ''-'' a"
    and "command = program # args" "non_option program" "\<not> has_equals program"
  shows "env_wrapped_loop (assigns @ command) = command"
  using assms(1)
proof (induction assigns)
  case Nil
  have "program \<noteq> ''--''" using assms(3) by (auto simp: non_option_def starts_with_def)
  with assms show ?case by simp
next
  case (Cons a assigns)
  then have "a \<noteq> ''--''" by (auto simp: has_equals_def)
  with Cons show ?case by simp
qed

lemma shell_reaches_command:
  assumes "\<forall>f \<in> set flags. \<not> non_option f \<and> \<not> command_flag f"
  shows "shell_invocation_loop split (flags @ ''-c'' # snippet # more) (Suc d) =
    shell_snippet_uses_network split snippet d"
  using assms by (induction flags) (auto simp: shell_invocation_loop.simps command_flag_def)

lemma sequence_collects:
  "set tokens \<inter> set control_operators = {} \<Longrightarrow>
   command_sequence_loop split current (tokens @ rest) d =
     command_sequence_loop split (current @ tokens) rest d"
  by (induction tokens arbitrary: current) (auto simp: command_sequence_loop.simps)

lemma sequence_reads_segments:
  assumes "set command \<inter> set control_operators = {}" and "argv_uses_network split command d"
    and "after = [] \<or> hd after \<in> set control_operators"
  shows "command_sequence_loop split [] (command @ after) d"
proof (cases after)
  case Nil
  then show ?thesis using assms sequence_collects [OF assms(1), of split "[]" "[]" d] by simp
next
  case (Cons op rest)
  then show ?thesis using assms sequence_collects [OF assms(1), of split "[]" after d]
    by (simp add: command_sequence_loop.simps)
qed

lemma sequence_skips:
  assumes "before \<noteq> []" "last before \<in> set control_operators" "command_sequence_loop split [] rest d"
  shows "command_sequence_loop split current (before @ rest) d"
  using assms(1,2)
proof (induction before arbitrary: current)
  case (Cons token before)
  show ?case
  proof (cases "before = []")
    case True
    with Cons.prems assms(3) show ?thesis by (simp add: command_sequence_loop.simps)
  next
    case False
    with Cons show ?thesis by (simp add: command_sequence_loop.simps)
  qed
qed simp

section \<open>What the deny gate sees\<close>

text \<open>
  \<open>wraps split n command argv\<close>: running \<open>argv\<close> runs \<open>command\<close>, through \<open>n\<close> layers of \<open>env\<close>
  with assignments and of shells with a snippet in which the next layer is one of the commands
  between control operators.
\<close>

inductive wraps :: "word_split \<Rightarrow> nat \<Rightarrow> string list \<Rightarrow> string list \<Rightarrow> bool" for split where
  wraps_itself: "wraps split 0 command command"
| wraps_env: "wraps split n command (program # args) \<Longrightarrow>
    normalized_program_name e = ''env'' \<Longrightarrow>
    \<forall>a \<in> set assigns. has_equals a \<and> \<not> starts_with ''-'' a \<Longrightarrow>
    non_option program \<Longrightarrow> \<not> has_equals program \<Longrightarrow>
    wraps split (Suc n) command (e # assigns @ program # args)"
| wraps_shell: "wraps split n command inner \<Longrightarrow>
    normalized_program_name sh \<in> set shells \<Longrightarrow>
    \<forall>f \<in> set flags. \<not> non_option f \<and> \<not> command_flag f \<Longrightarrow>
    split snippet = Some (before @ inner @ after) \<Longrightarrow>
    set inner \<inter> set control_operators = {} \<Longrightarrow>
    before = [] \<or> last before \<in> set control_operators \<Longrightarrow>
    after = [] \<or> hd after \<in> set control_operators \<Longrightarrow>
    wraps split (Suc n) command (sh # flags @ ''-c'' # snippet # more)"

lemma wrapped_seen:
  assumes "wraps split n command argv" and "argv_uses_network split command d"
  shows "argv_uses_network split argv (n + d)"
  using assms
proof induction
  case wraps_itself
  then show ?case by simp
next
  case (wraps_env n command program args e assigns)
  then show ?case using wraps_env.IH [OF wraps_env.prems] env_skips_assignments [OF wraps_env.hyps(3) refl wraps_env.hyps(4,5), of args]
    by (simp add: argv_env)
next
  case (wraps_shell n command inner sh flags snippet before after more)
  have "command_sequence_loop split [] (inner @ after) (n + d)"
    by (rule sequence_reads_segments [OF wraps_shell.hyps(5) wraps_shell.IH [OF wraps_shell.prems] wraps_shell.hyps(7)])
  with sequence_skips [of before] wraps_shell.hyps(6)
  have "command_sequence_loop split [] (before @ inner @ after) (n + d)" by (cases "before = []") auto
  then show ?case using wraps_shell.hyps(4)
    by (simp add: argv_shell [OF wraps_shell.hyps(2)] shell_reaches_command [OF wraps_shell.hyps(3)]
        shell_snippet_uses_network.simps)
qed


text \<open>\<open>env A=1 bash -c "cd x && curl y"\<close>\<close>

definition sample_split :: word_split where
  "sample_split s = (if s = ''cd x && curl y'' then Some [''cd'', ''x'', ''&&'', ''curl'', ''y''] else Some [s])"


text \<open>
  C11: an option of a shell that ends with \<open>c\<close> is taken for \<open>-c\<close>: \<open>bash --norc -c snippet\<close> is
  classified by the words of \<open>-c\<close>, not by those of the snippet, so a thread that is denied the
  network may run any snippet in this way, even one that is refused without \<open>--norc\<close>.
\<close>

theorem norc_hides_snippet:
  assumes "split ''-c'' = Some [''-c'']"
  shows "\<not> command_uses_network split [''bash'', ''--norc'', ''-c'', snippet] \<and>
    \<not> command_hides_network_intent [''bash'', ''--norc'', ''-c'', snippet] \<and>
    (command_uses_network split [''bash'', ''-c'', snippet] \<longleftrightarrow> shell_snippet_uses_network split snippet 3)"
proof -
  have names: "normalized_program_name ''bash'' = ''bash''" "normalized_program_name ''-c'' = ''-c''" by code_simp+
  have flag: "command_flag ''--norc''" "command_flag ''-c''" by code_simp+
  have "\<not> argv_uses_network split [''-c''] 3"
    by (simp add: argv_uses_network.simps(2) names program_uses_network_def network_programs_def shells_def
        node_programs_def)
  then have "\<not> shell_snippet_uses_network split ''-c'' 3"
    by (simp add: shell_snippet_uses_network.simps assms command_sequence_loop.simps control_operators_def)
  moreover have "command_uses_network split [''bash'', ''-c'', snippet] \<longleftrightarrow> shell_snippet_uses_network split snippet 3"
    "command_uses_network split [''bash'', ''--norc'', ''-c'', snippet] \<longleftrightarrow> shell_snippet_uses_network split ''-c'' 3"
    by (simp_all add: command_uses_network_def argv_shell names shells_def shell_invocation_loop.simps flag eval_nat_numeral)
  moreover have "\<not> command_hides_network_intent [''bash'', ''--norc'', ''-c'', snippet]"
    by (simp add: command_hides_network_intent_def argv_hides_network_intent.simps(2) names shells_def
        node_programs_def shell_invocation_hides_network_intent_def flag)
  ultimately show ?thesis by simp
qed

theorem norc_hides_snippet_witness:
  "\<not> command_uses_network sample_split [''bash'', ''--norc'', ''-c'', ''cd x && curl y''] \<and>
   \<not> command_hides_network_intent [''bash'', ''--norc'', ''-c'', ''cd x && curl y''] \<and>
   command_uses_network sample_split [''bash'', ''-c'', ''cd x && curl y'']"
proof -
  have names: "normalized_program_name ''curl'' = ''curl''" "normalized_program_name ''cd'' = ''cd''" by code_simp+
  have "sample_split ''-c'' = Some [''-c'']" by (simp add: sample_split_def)
  moreover have "shell_snippet_uses_network sample_split ''cd x && curl y'' 3"
    by (simp add: shell_snippet_uses_network.simps sample_split_def command_sequence_loop.simps control_operators_def
        argv_uses_network.simps(2) names program_uses_network_def network_programs_def shells_def)
  ultimately show ?thesis using norc_hides_snippet [of sample_split "''cd x && curl y''"] by simp
qed

end
