(* ===== verification/ChildEnv.thy ===== *)
theory ChildEnv
  imports Modes
begin

text \<open>
  The environment of the processes the server starts
  (\<open>crates/app-server/src/main/preamble/hardening.rs\<close>): the keys that are scrubbed, the list of
  allowed keys and the defaults. A command holds changes to the environment it inherits: a key
  is set to a value or removed. Glob patterns are a parameter, and so is which keys of the
  inherited environment are Unicode: the others are invisible to the loops.
\<close>

section \<open>Configuration\<close>

definition child_process_env_scrub_keys :: "string list" where
  "child_process_env_scrub_keys =
     [''OPENAI_API_KEY'', ''OMNE_OPENAI_API_KEY'', ''ANTHROPIC_API_KEY'', ''OPENROUTER_API_KEY'',
      ''GEMINI_API_KEY'']"

definition pre_main_env_scrub_keys :: "string list" where
  "pre_main_env_scrub_keys =
     [''LD_PRELOAD'', ''LD_LIBRARY_PATH'', ''LD_AUDIT'', ''LD_DEBUG'', ''DYLD_INSERT_LIBRARIES'',
      ''DYLD_LIBRARY_PATH'', ''DYLD_FRAMEWORK_PATH'', ''DYLD_ROOT_PATH'', ''DYLD_SHARED_REGION'']"

definition collect_pre_main_env_scrub_targets :: "string list \<Rightarrow> string list" where
  "collect_pre_main_env_scrub_targets env_keys = filter (\<lambda>k. k \<in> set env_keys) pre_main_env_scrub_keys"

datatype hardening_mode = HardeningOff | HardeningBestEffort

definition parse_hardening_mode :: "string option \<Rightarrow> string + hardening_mode" where
  "parse_hardening_mode value =
     (case value of
        None \<Rightarrow> Inr HardeningBestEffort
      | Some raw \<Rightarrow>
          let raw = trim raw; lower = to_ascii_lowercase raw in
          if raw = [] then Inl ''OMNE_HARDENING must be `off` or `best_effort` (got empty string)''
          else if lower = ''off'' then Inr HardeningOff
          else if lower = ''best_effort'' then Inr HardeningBestEffort
          else Inl (''OMNE_HARDENING must be `off` or `best_effort` (got `'' @ raw @ ''`)''))"

record env_scrub_config =
  sc_extra_keys :: "string set"
  sc_extra_patterns :: "string list"
  sc_extra_pattern_set :: "globset option"
  sc_allowed_env_keys :: "string set"
  sc_allowed_env_patterns :: "string list"
  sc_allowed_env_pattern_set :: "globset option"

definition parse_csv :: "string option \<Rightarrow> string list" where
  "parse_csv raw =
     filter (\<lambda>v. v \<noteq> []) (map trim (split_on (CHR '','') (case raw of Some s \<Rightarrow> s | None \<Rightarrow> [])))"

datatype pattern_error = InvalidEnvPattern string string | EnvPatternSetFailed string

definition build_pattern_set :: "glob_lib \<Rightarrow> string list \<Rightarrow> string \<Rightarrow> pattern_error + globset option" where
  "build_pattern_set gl patterns kind =
     (if patterns = [] then Inr None
      else case List.find (\<lambda>p. \<not> gl_new gl p) patterns of
        Some p \<Rightarrow> Inl (InvalidEnvPattern kind p)
      | None \<Rightarrow> if gl_build gl patterns then Inr (Some patterns) else Inl (EnvPatternSetFailed kind))"

definition env_scrub_config_from_raw ::
  "glob_lib \<Rightarrow> string option \<Rightarrow> string option \<Rightarrow> string option \<Rightarrow> string option \<Rightarrow>
     pattern_error + env_scrub_config" where
  "env_scrub_config_from_raw gl extra_keys extra_patterns allowed_keys allowed_patterns =
     rbind (build_pattern_set gl (parse_csv extra_patterns) ''scrub'') (\<lambda>scrub.
     rbind (build_pattern_set gl (parse_csv allowed_patterns) ''allow'') (\<lambda>allow.
     Inr \<lparr>sc_extra_keys = set (parse_csv extra_keys), sc_extra_patterns = parse_csv extra_patterns,
          sc_extra_pattern_set = scrub, sc_allowed_env_keys = set (parse_csv allowed_keys),
          sc_allowed_env_patterns = parse_csv allowed_patterns, sc_allowed_env_pattern_set = allow\<rparr>))"

definition matches_scrub_pattern :: "glob_lib \<Rightarrow> env_scrub_config \<Rightarrow> string \<Rightarrow> bool" where
  "matches_scrub_pattern gl config key =
     (case sc_extra_pattern_set config of Some s \<Rightarrow> is_match gl s key | None \<Rightarrow> False)"

definition matches_allowed_env_pattern :: "glob_lib \<Rightarrow> env_scrub_config \<Rightarrow> string \<Rightarrow> bool" where
  "matches_allowed_env_pattern gl config key =
     (case sc_allowed_env_pattern_set config of Some s \<Rightarrow> is_match gl s key | None \<Rightarrow> False)"

definition allowlist_enabled :: "env_scrub_config \<Rightarrow> bool" where
  "allowlist_enabled config \<longleftrightarrow> sc_allowed_env_keys config \<noteq> {} \<or> sc_allowed_env_patterns config \<noteq> []"

definition is_allowlisted_env_key :: "glob_lib \<Rightarrow> env_scrub_config \<Rightarrow> string \<Rightarrow> bool" where
  "is_allowlisted_env_key gl config key \<longleftrightarrow>
     key \<in> sc_allowed_env_keys config \<or> matches_allowed_env_pattern gl config key"

section \<open>The environment of a command\<close>

text \<open>What a command changes: \<open>Some (Some v)\<close> sets a key, \<open>Some None\<close> removes it.\<close>

type_synonym env_changes = "string \<Rightarrow> string option option"

definition env_remove :: "string \<Rightarrow> env_changes \<Rightarrow> env_changes" where
  "env_remove key cmd = cmd(key \<mapsto> None)"

definition env_set :: "string \<Rightarrow> string \<Rightarrow> env_changes \<Rightarrow> env_changes" where
  "env_set key value cmd = cmd(key \<mapsto> Some value)"

text \<open>\<open>Command::envs\<close>\<close>

definition env_set_all :: "(string \<times> string) list \<Rightarrow> env_changes \<Rightarrow> env_changes" where
  "env_set_all kvs cmd = fold (\<lambda>(k, v). env_set k v) kvs cmd"

definition env_remove_all :: "string list \<Rightarrow> env_changes \<Rightarrow> env_changes" where
  "env_remove_all keys cmd = fold env_remove keys cmd"

definition child_environment :: "(string \<Rightarrow> string option) \<Rightarrow> env_changes \<Rightarrow> string \<Rightarrow> string option" where
  "child_environment inherited cmd key = (case cmd key of Some change \<Rightarrow> change | None \<Rightarrow> inherited key)"

text \<open>
  The environment of the server: its keys in some order, their values, and which keys are
  Unicode.
\<close>

record server_environment =
  ev_keys :: "string list"
  ev_value :: "string \<Rightarrow> string option"
  ev_unicode :: "string \<Rightarrow> bool"

definition unicode_keys :: "server_environment \<Rightarrow> string list" where
  "unicode_keys inherited = filter (ev_unicode inherited) (ev_keys inherited)"

definition has_key :: "(string \<times> string) list \<Rightarrow> string \<Rightarrow> bool" where
  "has_key extra_env key \<longleftrightarrow> key \<in> fst ` set extra_env"

text \<open>\<open>extra_env\<close> is the sorted list of the entries of the map, empty for \<open>None\<close>.\<close>

definition scrub_candidates ::
  "glob_lib \<Rightarrow> server_environment \<Rightarrow> (string \<times> string) list \<Rightarrow> env_scrub_config \<Rightarrow> string list" where
  "scrub_candidates gl inherited extra_env config =
     filter (matches_scrub_pattern gl config) (unicode_keys inherited @ map fst extra_env)"

definition scrubbed_child_keys ::
  "glob_lib \<Rightarrow> server_environment \<Rightarrow> (string \<times> string) list \<Rightarrow> env_scrub_config \<Rightarrow> string set" where
  "scrubbed_child_keys gl inherited extra_env config =
     set child_process_env_scrub_keys \<union> sc_extra_keys config \<union>
     (if sc_extra_pattern_set config = None then {} else set (scrub_candidates gl inherited extra_env config))"

text \<open>The keys removed, and those of them that were present.\<close>

definition scrub_child_process_env_with_config ::
  "glob_lib \<Rightarrow> server_environment \<Rightarrow> (string \<times> string) list \<Rightarrow> env_scrub_config \<Rightarrow> env_changes \<Rightarrow>
     string set \<times> env_changes" where
  "scrub_child_process_env_with_config gl inherited extra_env config cmd =
     (let scrubbed = scrubbed_child_keys gl inherited extra_env config in
      ({k \<in> scrubbed. ev_value inherited k \<noteq> None \<or> has_key extra_env k},
       \<lambda>k. if k \<in> scrubbed then Some None else cmd k))"

definition apply_allowlist_to_child_process_env ::
  "glob_lib \<Rightarrow> server_environment \<Rightarrow> (string \<times> string) list \<Rightarrow> env_scrub_config \<Rightarrow> env_changes \<Rightarrow>
     string list \<times> env_changes" where
  "apply_allowlist_to_child_process_env gl inherited extra_env config cmd =
     (if \<not> allowlist_enabled config then ([], cmd)
      else
        let dropped = filter (\<lambda>k. \<not> has_key extra_env k \<and> \<not> is_allowlisted_env_key gl config k)
                        (unicode_keys inherited)
        in (dropped, env_remove_all dropped cmd))"

definition apply_default ::
  "server_environment \<Rightarrow> (string \<times> string) list \<Rightarrow> string \<times> string \<Rightarrow>
     (string \<times> string) list \<times> env_changes \<Rightarrow> (string \<times> string) list \<times> env_changes" where
  "apply_default inherited extra_env kv st =
     (case kv of (key, value) \<Rightarrow> case st of (injected, cmd) \<Rightarrow>
        if has_key extra_env key then (injected, cmd)
        else if ev_value inherited key \<noteq> None then (injected, cmd)
        else (injected @ [(key, value)], env_set key value cmd))"

definition child_env_defaults :: "(string \<times> string) list" where
  "child_env_defaults = [(''GIT_TERMINAL_PROMPT'', ''0''), (''NO_COLOR'', ''1''), (''PAGER'', ''cat'')]"

definition apply_child_process_env_defaults ::
  "hardening_mode \<Rightarrow> server_environment \<Rightarrow> (string \<times> string) list \<Rightarrow> env_changes \<Rightarrow>
     (string \<times> string) list \<times> env_changes" where
  "apply_child_process_env_defaults mode inherited extra_env cmd =
     (if mode = HardeningOff then ([], cmd)
      else fold (apply_default inherited extra_env) child_env_defaults ([], cmd))"

record effective_env_summary =
  es_hardening_mode :: hardening_mode
  es_scrubbed_keys :: "string set"
  es_allowlist_dropped_keys :: "string list"
  es_injected_defaults :: "(string \<times> string) list"
  es_config :: env_scrub_config

definition apply_child_process_hardening_with_config ::
  "glob_lib \<Rightarrow> hardening_mode \<Rightarrow> server_environment \<Rightarrow> (string \<times> string) list \<Rightarrow> env_scrub_config \<Rightarrow>
     env_changes \<Rightarrow> effective_env_summary \<times> env_changes" where
  "apply_child_process_hardening_with_config gl mode inherited extra_env config cmd =
     (case scrub_child_process_env_with_config gl inherited extra_env config cmd of (scrubbed, cmd) \<Rightarrow>
      case apply_allowlist_to_child_process_env gl inherited extra_env config cmd of (dropped, cmd) \<Rightarrow>
      case apply_child_process_env_defaults mode inherited extra_env cmd of (injected, cmd) \<Rightarrow>
        (\<lparr>es_hardening_mode = mode, es_scrubbed_keys = scrubbed, es_allowlist_dropped_keys = dropped,
          es_injected_defaults = injected, es_config = config\<rparr>, cmd))"

section \<open>What a child sees\<close>

definition env_wf :: "server_environment \<Rightarrow> bool" where
  "env_wf inherited \<longleftrightarrow> (\<forall>k. ev_value inherited k \<noteq> None \<longleftrightarrow> k \<in> set (ev_keys inherited))"

lemma env_remove_all_apply: "env_remove_all keys cmd k = (if k \<in> set keys then Some None else cmd k)"
  by (induction keys arbitrary: cmd) (auto simp: env_remove_all_def env_remove_def)

lemma env_set_all_apply:
  assumes "distinct (map fst kvs)"
  shows "env_set_all kvs cmd k = (case map_of kvs k of Some v \<Rightarrow> Some (Some v) | None \<Rightarrow> cmd k)"
  using assms
proof (induction kvs arbitrary: cmd)
  case (Cons kv kvs)
  then have "env_set_all (kv # kvs) cmd k =
      (case map_of kvs k of Some v \<Rightarrow> Some (Some v) | None \<Rightarrow> env_set (fst kv) (snd kv) cmd k)"
    by (cases kv) (simp add: env_set_all_def split: option.split)
  moreover have "map_of kvs (fst kv) = None" using Cons.prems by (simp add: map_of_eq_None_iff)
  ultimately show ?case by (cases kv) (auto simp: env_set_def split: option.splits)
qed (simp add: env_set_all_def)

lemma apply_default_step:
  "apply_default inherited extra (a, b) (injected, cmd) =
     (if has_key extra a \<or> ev_value inherited a \<noteq> None then (injected, cmd)
      else (injected @ [(a, b)], env_set a b cmd))"
  by (simp add: apply_default_def)

lemma apply_defaults_apply:
  assumes "distinct (map fst kvs)"
  shows "snd (fold (apply_default inherited extra) kvs (injected, cmd)) k =
    (case map_of kvs k of
       Some v \<Rightarrow> if has_key extra k \<or> ev_value inherited k \<noteq> None then cmd k else Some (Some v)
     | None \<Rightarrow> cmd k)"
  using assms
proof (induction kvs arbitrary: injected cmd)
  case (Cons kv kvs)
  have none: "map_of kvs (fst kv) = None" using Cons.prems by (simp add: map_of_eq_None_iff)
  have "distinct (map fst kvs)" using Cons.prems by simp
  note IH = Cons.IH [OF this]
  show ?case
    by (cases kv) (use none in \<open>auto simp: apply_default_step env_set_def IH split: option.splits\<close>)
qed simp

text \<open>
  C31: the environment of a child is exactly this. A default is injected when neither the server
  nor the request has the key. Every other key the child sees was given by the request or, if
  the request does not give it, inherited, and it is then neither one of the keys of model
  providers nor configured to be scrubbed; with a list of allowed keys an inherited Unicode key
  is on it.
\<close>

theorem child_environment_correct:
  assumes "env_wf inherited" and "distinct (map fst extra_env)"
    and "apply_child_process_hardening_with_config gl mode inherited extra_env config
      (env_set_all extra_env Map.empty) = (summary, cmd)"
  shows "child_environment (ev_value inherited) cmd key =
    (if mode = HardeningBestEffort \<and> key \<in> fst ` set child_env_defaults \<and>
        \<not> has_key extra_env key \<and> ev_value inherited key = None
     then map_of child_env_defaults key
     else if key \<in> set child_process_env_scrub_keys \<union> sc_extra_keys config \<or>
        matches_scrub_pattern gl config key \<and> (has_key extra_env key \<or> ev_unicode inherited key)
     then None
     else case map_of extra_env key of
        Some v \<Rightarrow> Some v
      | None \<Rightarrow>
          if allowlist_enabled config \<and> ev_unicode inherited key \<and> \<not> is_allowlisted_env_key gl config key
          then None else ev_value inherited key)"
proof -
  have keys: "has_key extra_env k \<longleftrightarrow> map_of extra_env k \<noteq> None" for k
    by (metis has_key_def domIff dom_map_of_conv_image_fst)
  have scrub: "key \<in> scrubbed_child_keys gl inherited extra_env config \<longleftrightarrow>
      key \<in> set child_process_env_scrub_keys \<union> sc_extra_keys config \<or>
      matches_scrub_pattern gl config key \<and>
        (has_key extra_env key \<or> ev_unicode inherited key \<and> ev_value inherited key \<noteq> None)"
    using assms(1)
    by (auto simp: scrubbed_child_keys_def scrub_candidates_def unicode_keys_def has_key_def env_wf_def
        matches_scrub_pattern_def)
  have dist: "distinct (map fst child_env_defaults)" by (simp add: child_env_defaults_def)
  let ?scrubbed = "\<lambda>k. if k \<in> scrubbed_child_keys gl inherited extra_env config then Some None
    else env_set_all extra_env Map.empty k"
  let ?allowed = "\<lambda>k. if allowlist_enabled config \<and> ev_value inherited k \<noteq> None \<and> ev_unicode inherited k \<and>
      \<not> has_key extra_env k \<and> \<not> is_allowlisted_env_key gl config k then Some None else ?scrubbed k"
  have allow: "snd (apply_allowlist_to_child_process_env gl inherited extra_env config ?scrubbed) = ?allowed"
    using assms(1)
    by (auto simp: apply_allowlist_to_child_process_env_def Let_def env_remove_all_apply unicode_keys_def
        env_wf_def fun_eq_iff)
  have "cmd = snd (apply_child_process_env_defaults mode inherited extra_env
      (snd (apply_allowlist_to_child_process_env gl inherited extra_env config ?scrubbed)))"
    using assms(3)
    by (auto simp: apply_child_process_hardening_with_config_def scrub_child_process_env_with_config_def Let_def
        split: prod.splits)
  then have cmd: "cmd = snd (apply_child_process_env_defaults mode inherited extra_env ?allowed)"
    by (simp only: allow)
  show ?thesis
  proof (cases "mode = HardeningBestEffort \<and> key \<in> fst ` set child_env_defaults \<and>
      \<not> has_key extra_env key \<and> ev_value inherited key = None")
    case True
    then obtain v where "map_of child_env_defaults key = Some v"
      by (metis domD dom_map_of_conv_image_fst)
    with True show ?thesis
      by (simp add: cmd apply_child_process_env_defaults_def apply_defaults_apply [OF dist] child_environment_def)
  next
    case False
    have "key \<notin> fst ` set child_env_defaults \<longleftrightarrow> map_of child_env_defaults key = None"
      by (metis domIff dom_map_of_conv_image_fst)
    with False have "cmd key = ?allowed key"
      by (cases mode) (auto simp: cmd apply_child_process_env_defaults_def apply_defaults_apply [OF dist]
          split: option.splits)
    then show ?thesis
      unfolding child_environment_def if_not_P [OF False]
      by (auto simp: scrub keys env_set_all_apply [OF assms(2)] split: option.splits)
  qed
qed

text \<open>A server with a provider's key, \<open>PATH\<close> and \<open>HOME\<close>; only \<open>PATH\<close> is allowed.\<close>

definition sample_environment :: server_environment where
  "sample_environment =
     \<lparr>ev_keys = [''OPENAI_API_KEY'', ''PATH'', ''HOME''],
      ev_value = (\<lambda>k. if k \<in> {''OPENAI_API_KEY'', ''PATH'', ''HOME''} then Some ''x'' else None),
      ev_unicode = (\<lambda>k. True)\<rparr>"

definition sample_scrub_config :: env_scrub_config where
  "sample_scrub_config =
     \<lparr>sc_extra_keys = {}, sc_extra_patterns = [], sc_extra_pattern_set = None,
      sc_allowed_env_keys = {''PATH''}, sc_allowed_env_patterns = [], sc_allowed_env_pattern_set = None\<rparr>"

theorem child_environment_correct_witness:
  "\<forall>gl. let cmd = snd (apply_child_process_hardening_with_config gl HardeningBestEffort sample_environment
        [(''TOKEN'', ''t'')] sample_scrub_config (env_set_all [(''TOKEN'', ''t'')] Map.empty));
      child = child_environment (ev_value sample_environment) cmd
    in child ''OPENAI_API_KEY'' = None \<and> child ''PATH'' = Some ''x'' \<and> child ''HOME'' = None \<and>
       child ''TOKEN'' = Some ''t'' \<and> child ''PAGER'' = Some ''cat''"
proof -
  have wf: "env_wf sample_environment" by (simp add: env_wf_def sample_environment_def)
  show ?thesis
    unfolding Let_def
    by (intro allI, subst (1 2 3 4 5) child_environment_correct [OF wf _ surjective_pairing])
      (simp_all add: sample_environment_def sample_scrub_config_def child_env_defaults_def has_key_def
        child_process_env_scrub_keys_def allowlist_enabled_def is_allowlisted_env_key_def
        matches_allowed_env_pattern_def matches_scrub_pattern_def)
qed

end
