(* ===== verification/ProcessGate.thy ===== *)
theory ProcessGate
  imports FileTools ExecPolicy NetIntent ChildEnv
begin

text \<open>
  What must allow a command before the server runs it
  (\<open>crates/app-server/src/main/process_stream/common.rs\<close>): the boundary of the sandbox, the
  mode and the role, the execution policy of the server merged with the rules of the mode and of
  the thread, and the approval. Taken from outside: the execution gateway, the Starlark
  evaluation and the reading of rule files, and what the file tools take.
\<close>

section \<open>Requests to the execution gateway\<close>



text \<open>The two levels of isolation the server asks for.\<close>

datatype required_isolation = RequireNone | RequireBestEffort

record exec_request =
  xr_program :: string
  xr_args :: "string list"
  xr_cwd :: path
  xr_isolation :: required_isolation
  xr_workspace_root :: path

text \<open>The errors of the gateway the server tells apart; the payloads are the texts they display as.\<close>

datatype gateway_error =
    IsolationNotSupported string string
  | WorkspaceRootInvalid string
  | CwdOutsideWorkspace string string
  | PolicyDefaultIsolationMismatch string string
  | PreparedCommandMismatch string string string string
  | GatewaySandbox string
  | GatewayPolicyDenied string
  | GatewaySpawn string
  | RelativeProgramPath string
  | ProgramPathInvalid string
  | ProgramLookupFailed string
  | PathIdentityUnavailable string
  | RequestPathChanged string
  | OtherGatewayError string

text \<open>Why the rules of a mode or of a thread cannot be loaded.\<close>

datatype rules_error =
    RulePathEmpty
  | RulePathRefused sandbox_error
  | RulesNotLoaded load_error

record 'w exec_env =
  xe_tool :: "'w tool_env"
  xe_words :: word_split
  xe_join :: "string list \<Rightarrow> string option"
  xe_evaluate :: evaluator
  xe_read_file :: "'w \<Rightarrow> string \<Rightarrow> string option"
  xe_programs :: "policy \<Rightarrow> string list"
  xe_hardening :: hardening_mode
  xe_isolation_supported :: bool
  xe_preflight :: "'w \<Rightarrow> exec_request \<Rightarrow> gateway_error + unit"
  xe_show_rules_error :: "rules_error \<Rightarrow> string"
  xe_show_network :: "sandbox_network_access \<Rightarrow> json"

definition process_exec_gateway_required_isolation :: "'w exec_env \<Rightarrow> required_isolation" where
  "process_exec_gateway_required_isolation env =
     (case xe_hardening env of
        HardeningOff \<Rightarrow> RequireNone
      | HardeningBestEffort \<Rightarrow> if xe_isolation_supported env then RequireBestEffort else RequireNone)"

definition process_exec_gateway_request ::
  "'w exec_env \<Rightarrow> string list \<Rightarrow> path \<Rightarrow> path \<Rightarrow> exec_request option" where
  "process_exec_gateway_request env argv cwd thread_root =
     (case argv of
        [] \<Rightarrow> None
      | program # args \<Rightarrow>
          let cwd = (if path_is_absolute cwd then cwd else join_path thread_root cwd);
              program_path = components program
          in Some \<lparr>xr_program =
                     (if \<not> path_is_absolute program_path \<and> 1 < length program_path
                      then path_string (join_path cwd program_path) else program),
                   xr_args = args, xr_cwd = cwd,
                   xr_isolation = process_exec_gateway_required_isolation env,
                   xr_workspace_root = thread_root\<rparr>)"

fun process_exec_gateway_error_reason :: "gateway_error \<Rightarrow> string" where
  "process_exec_gateway_error_reason (IsolationNotSupported requested supported) =
     ''execution boundary denied command: isolation_not_supported (required='' @ requested @
     '', supported='' @ supported @ '')''"
| "process_exec_gateway_error_reason (WorkspaceRootInvalid p) =
     ''execution boundary denied command: workspace_root_invalid ('' @ p @ '')''"
| "process_exec_gateway_error_reason (CwdOutsideWorkspace cwd root) =
     ''execution boundary denied command: cwd_outside_workspace (cwd='' @ cwd @
     '', workspace_root='' @ root @ '')''"
| "process_exec_gateway_error_reason (PolicyDefaultIsolationMismatch requested fallback) =
     ''execution boundary denied command: policy_default_isolation_mismatch (requested='' @ requested @
     '', policy_default='' @ fallback @ '')''"
| "process_exec_gateway_error_reason (PreparedCommandMismatch program args actual_program actual_args) =
     ''execution boundary denied command: prepared_command_mismatch (requested_program='' @ program @
     '', requested_args='' @ args @ '', actual_program='' @ actual_program @
     '', actual_args='' @ actual_args @ '')''"
| "process_exec_gateway_error_reason (GatewaySandbox message) =
     ''execution boundary denied command: sandbox ('' @ message @ '')''"
| "process_exec_gateway_error_reason (GatewayPolicyDenied message) =
     ''execution boundary denied command: policy_denied ('' @ message @ '')''"
| "process_exec_gateway_error_reason (GatewaySpawn message) =
     ''execution boundary denied command: spawn_error ('' @ message @ '')''"
| "process_exec_gateway_error_reason (RelativeProgramPath t) = ''execution boundary denied command: '' @ t"
| "process_exec_gateway_error_reason (ProgramPathInvalid t) = ''execution boundary denied command: '' @ t"
| "process_exec_gateway_error_reason (ProgramLookupFailed t) = ''execution boundary denied command: '' @ t"
| "process_exec_gateway_error_reason (PathIdentityUnavailable t) = ''execution boundary denied command: '' @ t"
| "process_exec_gateway_error_reason (RequestPathChanged t) = ''execution boundary denied command: '' @ t"
| "process_exec_gateway_error_reason (OtherGatewayError t) = ''execution boundary denied command: '' @ t"

section \<open>The boundary\<close>

text \<open>
  Why a command is refused: one type for the three of the source, whose conversions are
  one to one.
\<close>

datatype process_denied =
    SandboxPolicyReadOnly
  | SandboxNetworkDenied
  | GatewayDenied string
  | UnknownModeDenied string "string option"
  | ModeDenied mode_decision_audit
  | ExecPolicyLoadDenied string string "string list"
  | ExecPolicyForbidden "rule_match list" "string option"
  | ApprovalDenied bool

text \<open>What the preflight may refuse without refusing the command: the launch finds out itself.\<close>

fun left_to_launch :: "gateway_error \<Rightarrow> bool" where
  "left_to_launch (RelativeProgramPath _) = True"
| "left_to_launch (ProgramPathInvalid _) = True"
| "left_to_launch (ProgramLookupFailed _) = True"
| "left_to_launch (PathIdentityUnavailable _) = True"
| "left_to_launch (RequestPathChanged _) = True"
| "left_to_launch _ = False"

fun cwd_outside :: "gateway_error \<Rightarrow> bool" where
  "cwd_outside (CwdOutsideWorkspace _ _) = True"
| "cwd_outside _ = False"

definition process_exec_boundary_denial ::
  "'w exec_env \<Rightarrow> 'w \<Rightarrow> string list \<Rightarrow> path \<Rightarrow> path \<Rightarrow> write_scope \<Rightarrow> sandbox_network_access \<Rightarrow>
     process_denied option" where
  "process_exec_boundary_denial env w argv cwd thread_root sandbox_policy network =
     (if sandbox_policy = ReadOnly then Some SandboxPolicyReadOnly
      else if network = NetworkDeny \<and>
              (command_uses_network (xe_words env) argv \<or> command_hides_network_intent argv)
      then Some SandboxNetworkDenied
      else case process_exec_gateway_request env argv cwd thread_root of
             None \<Rightarrow> None
           | Some request \<Rightarrow>
               (case xe_preflight env w request of
                  Inr _ \<Rightarrow> None
                | Inl err \<Rightarrow>
                    if sandbox_policy = FullAccess \<and> cwd_outside err then None
                    else if left_to_launch err then None
                    else Some (GatewayDenied (process_exec_gateway_error_reason err))))"

section \<open>The execution policy of a command\<close>

fun resolve_execpolicy_rule_paths ::
  "'w fs_ops \<Rightarrow> path \<Rightarrow> string list \<Rightarrow> ('w, rules_error, string list) state_action" where
  "resolve_execpolicy_rule_paths fs thread_root [] = act_return []"
| "resolve_execpolicy_rule_paths fs thread_root (rule # rules) =
     (let trimmed = trim rule in
      if trimmed = [] then act_fail RulePathEmpty
      else
        act_bind
          (if is_absolute trimmed then act_return trimmed
           else act_bind (act_map_error RulePathRefused
                  (resolve_file fs thread_root (components trimmed) AccessRead False)) (\<lambda>p.
                act_return (path_string p))) (\<lambda>p.
        act_bind (resolve_execpolicy_rule_paths fs thread_root rules) (\<lambda>ps.
        act_return (p # ps))))"

definition load_mode_exec_policy ::
  "'w exec_env \<Rightarrow> path \<Rightarrow> string list \<Rightarrow> ('w, rules_error, policy) state_action" where
  "load_mode_exec_policy env thread_root rules =
     act_bind (resolve_execpolicy_rule_paths (te_fs (xe_tool env)) thread_root rules) (\<lambda>paths.
     act_look (\<lambda>w.
       case load_policies (xe_words env) (xe_join env) (xe_evaluate env) (xe_read_file env w) paths of
         Inl e \<Rightarrow> Inl (RulesNotLoaded e) | Inr p \<Rightarrow> Inr p))"

record loaded_exec_policy =
  lp_policy :: policy
  lp_matches :: "rule_match list"
  lp_decision :: exec_decision
  lp_justification :: "string option"

datatype policy_load_error = ModeRulesFailed string string | ThreadRulesFailed string string

text \<open>The rules of the mode, then those of the thread, on top of a policy.\<close>

definition merge_rules ::
  "'w exec_env \<Rightarrow> path \<Rightarrow> (string \<Rightarrow> policy_load_error) \<Rightarrow> string list \<Rightarrow> policy \<Rightarrow>
     ('w, policy_load_error, policy) state_action" where
  "merge_rules env thread_root failed rules base =
     (if rules = [] then act_return base
      else
        act_bind (act_map_error (failed \<circ> xe_show_rules_error env) (load_mode_exec_policy env thread_root rules)) (\<lambda>p.
        act_return (merge_exec_policies base p (xe_programs env p))))"

fun forbidding_justification :: "rule_match list \<Rightarrow> string option" where
  "forbidding_justification [] = None"
| "forbidding_justification (PrefixRuleMatch _ ExecForbidden (Some j) # ms) = Some j"
| "forbidding_justification (_ # ms) = forbidding_justification ms"

definition judge_command :: "policy \<Rightarrow> string list \<Rightarrow> loaded_exec_policy" where
  "judge_command p argv =
     (let matches = matches_for_command p argv None in
      \<lparr>lp_policy = p, lp_matches = matches,
       lp_decision = (case max_decision matches of Some d \<Rightarrow> d | None \<Rightarrow> ExecPrompt),
       lp_justification = forbidding_justification matches\<rparr>)"

definition load_effective_process_exec_policy ::
  "'w exec_env \<Rightarrow> path \<Rightarrow> policy \<Rightarrow> mode_def \<Rightarrow> string list \<Rightarrow> string list \<Rightarrow>
     ('w, policy_load_error, loaded_exec_policy) state_action" where
  "load_effective_process_exec_policy env thread_root base_policy mode thread_rules argv =
     act_bind (merge_rules env thread_root (ModeRulesFailed ''failed to load mode execpolicy rules'')
                 (md_command_execpolicy_rules mode) base_policy) (\<lambda>p.
     act_bind (merge_rules env thread_root (ThreadRulesFailed ''failed to load thread execpolicy rules'')
                 thread_rules p) (\<lambda>p.
     act_return (judge_command p argv)))"

section \<open>What the user is asked\<close>

datatype approval_source = SourceExecPolicy | SourceExecveWrapper

fun approval_source_str :: "approval_source \<Rightarrow> string" where
  "approval_source_str SourceExecPolicy = ''execpolicy''"
| "approval_source_str SourceExecveWrapper = ''execve-wrapper''"

fun requirement_label :: "approval_requirement_kind \<Rightarrow> string" where
  "requirement_label RequirePrompt = ''prompt''"
| "requirement_label RequirePromptStrict = ''prompt_strict''"

definition build_process_exec_approval_params ::
  "string list \<Rightarrow> string \<Rightarrow> u64 option \<Rightarrow> (approval_source \<times> approval_requirement_kind) option \<Rightarrow> json" where
  "build_process_exec_approval_params argv cwd timeout_ms approval =
     JObject ([(''argv'', JArray (map JString argv)), (''cwd'', JString cwd)] @
       (case timeout_ms of Some n \<Rightarrow> [(''timeout_ms'', nat_json n)] | None \<Rightarrow> []) @
       (case approval of
          Some (source, requirement) \<Rightarrow>
            [(''approval'', JObject [(''source'', JString (approval_source_str source)),
                (''requirement'', JString (requirement_label requirement))])]
        | None \<Rightarrow> []))"

section \<open>Authorisation\<close>

record process_exec_snapshot =
  sn_approval_policy :: approval_policy
  sn_sandbox_policy :: write_scope
  sn_sandbox_network_access :: sandbox_network_access
  sn_mode_name :: string
  sn_role_name :: string
  sn_allowed_tools :: "string list option"
  sn_execpolicy_rules :: "string list"

definition load_thread_process_exec_snapshot :: "thread_state \<Rightarrow> process_exec_snapshot" where
  "load_thread_process_exec_snapshot state =
     \<lparr>sn_approval_policy = st_approval_policy state, sn_sandbox_policy = st_sandbox_policy state,
      sn_sandbox_network_access = st_sandbox_network_access state, sn_mode_name = st_mode state,
      sn_role_name = st_role state, sn_allowed_tools = st_allowed_tools state,
      sn_execpolicy_rules = st_execpolicy_rules state\<rparr>"

record exec_context =
  xc_thread_root :: path
  xc_snapshot :: process_exec_snapshot
  xc_thread_id :: thread_id
  xc_turn_id :: "turn_id option"
  xc_approval_id :: "approval_id option"
  xc_cwd :: path
  xc_action :: string
  xc_argv :: "string list"

datatype process_governance =
    ExecAllowed
  | ExecNeedsApproval approval_id
  | ExecDenied process_denied

definition governance_of_gate :: "approval_gate \<Rightarrow> process_governance" where
  "governance_of_gate gate =
     (case gate of
        GateApproved \<Rightarrow> ExecAllowed
      | GateDenied remembered \<Rightarrow> ExecDenied (ApprovalDenied remembered)
      | GateNeedsApproval approval_id \<Rightarrow> ExecNeedsApproval approval_id)"

text \<open>Whether the user is asked, given the decisions of the policy and of the mode.\<close>

definition exec_requirement :: "exec_decision \<Rightarrow> mode_decision \<Rightarrow> approval_requirement_kind option" where
  "exec_requirement decision mode_decision =
     (case decision of
        ExecPromptStrict \<Rightarrow> Some RequirePromptStrict
      | ExecPrompt \<Rightarrow> Some RequirePrompt
      | ExecAllow \<Rightarrow> if mode_decision = Prompt then Some RequirePrompt else None
      | ExecForbidden \<Rightarrow> None)"

definition exec_approval ::
  "'w exec_env \<Rightarrow> approval_id \<Rightarrow> policy \<Rightarrow> exec_context \<Rightarrow> json \<Rightarrow> ('w, approval_gate) tool_action" where
  "exec_approval env fresh policy ctx params =
     on_server (gate_approval_with_deps (te_server (xe_tool env)) (te_lib (xe_tool env)) policy fresh
       (xc_thread_id ctx) (xc_turn_id ctx) (sn_approval_policy (xc_snapshot ctx))
       \<lparr>ar_approval_id = xc_approval_id ctx, ar_action = xc_action ctx, ar_params = params\<rparr>)"

definition on_world_attempt :: "('w, 'e, 'a) state_action \<Rightarrow> ('w, 'e + 'a) tool_action" where
  "on_world_attempt m s = (case m (ts_world s) of (r, w) \<Rightarrow> (Inr r, s\<lparr>ts_world := w\<rparr>))"

text \<open>The context carries the server's policy in the environment: \<open>server.exec_policy\<close>.\<close>

definition authorize_process_exec ::
  "'w exec_env \<Rightarrow> approval_id \<Rightarrow> exec_context \<Rightarrow> (mode_def \<Rightarrow> mode_decision) \<Rightarrow>
     (approval_requirement_kind \<Rightarrow> json) \<Rightarrow> ('w, process_governance) tool_action" where
  "authorize_process_exec env fresh ctx base_decision_for_mode approval_params_for_requirement =
     act_bind (act_look (\<lambda>s. Inr (load_modes (xe_tool env) (xc_thread_root ctx) (ts_world s)))) (\<lambda>catalog.
     case catalog_mode catalog (sn_mode_name (xc_snapshot ctx)) of
       None \<Rightarrow>
         act_return (ExecDenied (UnknownModeDenied (join_names (mode_names catalog))
           (map_option (te_show_catalog_error (xe_tool env)) (mc_load_error catalog))))
     | Some mode \<Rightarrow>
         let audit = resolve_mode_and_role_decision_audit catalog mode
                       (Some (sn_role_name (xc_snapshot ctx))) (xc_action ctx) base_decision_for_mode
         in if audit_decision audit = Deny then act_return (ExecDenied (ModeDenied audit))
            else
              act_bind (on_world_attempt (load_effective_process_exec_policy env (xc_thread_root ctx)
                  (te_exec_policy (xe_tool env)) mode (sn_execpolicy_rules (xc_snapshot ctx)) (xc_argv ctx))) (\<lambda>loaded.
              case loaded of
                Inl (ModeRulesFailed error details) \<Rightarrow>
                  act_return (ExecDenied (ExecPolicyLoadDenied error details (md_command_execpolicy_rules mode)))
              | Inl (ThreadRulesFailed error details) \<Rightarrow>
                  act_return (ExecDenied (ExecPolicyLoadDenied error details (sn_execpolicy_rules (xc_snapshot ctx))))
              | Inr effective \<Rightarrow>
                  if lp_decision effective = ExecForbidden then
                    act_return (ExecDenied (ExecPolicyForbidden (lp_matches effective) (lp_justification effective)))
                  else
                    (case exec_requirement (lp_decision effective) (audit_decision audit) of
                       None \<Rightarrow> act_return ExecAllowed
                     | Some requirement \<Rightarrow>
                         act_bind (exec_approval env fresh (lp_policy effective) ctx
                             (approval_params_for_requirement requirement)) (\<lambda>gate.
                         act_return (governance_of_gate gate)))))"

definition evaluate_process_exec_governance ::
  "'w exec_env \<Rightarrow> approval_id \<Rightarrow> exec_context \<Rightarrow> (mode_def \<Rightarrow> mode_decision) \<Rightarrow>
     (approval_requirement_kind \<Rightarrow> json) \<Rightarrow> ('w, process_governance) tool_action" where
  "evaluate_process_exec_governance env fresh ctx base_decision_for_mode approval_params_for_requirement =
     act_bind (act_look (\<lambda>s. Inr (process_exec_boundary_denial env (ts_world s) (xc_argv ctx) (xc_cwd ctx)
         (xc_thread_root ctx) (sn_sandbox_policy (xc_snapshot ctx))
         (sn_sandbox_network_access (xc_snapshot ctx))))) (\<lambda>denial.
     case denial of
       Some denied \<Rightarrow> act_return (ExecDenied denied)
     | None \<Rightarrow> authorize_process_exec env fresh ctx base_decision_for_mode approval_params_for_requirement)"

fun process_exec_governance_denied_reason :: "process_denied \<Rightarrow> string \<Rightarrow> string" where
  "process_exec_governance_denied_reason SandboxPolicyReadOnly action =
     ''sandbox_policy=read_only forbids '' @ action"
| "process_exec_governance_denied_reason SandboxNetworkDenied action =
     ''sandbox_network_access=deny blocked this command via argv network classification or fail-closed launcher detection''"
| "process_exec_governance_denied_reason (GatewayDenied reason) action = reason"
| "process_exec_governance_denied_reason (UnknownModeDenied _ _) action = ''unknown mode''"
| "process_exec_governance_denied_reason (ModeDenied _) action = ''mode denies '' @ action"
| "process_exec_governance_denied_reason (ExecPolicyLoadDenied error _ _) action = error"
| "process_exec_governance_denied_reason (ExecPolicyForbidden _ _) action = ''execpolicy forbids this command''"
| "process_exec_governance_denied_reason (ApprovalDenied remembered) action = approval_denied_error remembered"

section \<open>Responses\<close>

definition thread_field :: "'w exec_env \<Rightarrow> thread_id \<Rightarrow> string \<times> json" where
  "thread_field env tid = (''thread_id'', JString (al_show_thread (te_lib (xe_tool env)) tid))"

definition process_denied_response ::
  "'w exec_env \<Rightarrow> tool_id \<Rightarrow> thread_id \<Rightarrow> bool option \<Rightarrow> tool_error + json" where
  "process_denied_response env tool_id tid remembered =
     denied_response_with_remembered (xe_tool env) tool_id [thread_field env tid] remembered"

definition process_needs_approval_response :: "'w exec_env \<Rightarrow> thread_id \<Rightarrow> approval_id \<Rightarrow> json" where
  "process_needs_approval_response env tid approval_id =
     JObject [(''needs_approval'', JBool True), thread_field env tid,
              (''approval_id'', JString (al_show_approval (te_lib (xe_tool env)) approval_id))]"

definition process_allowed_tools_denied_response ::
  "'w exec_env \<Rightarrow> tool_id \<Rightarrow> string \<Rightarrow> string list option \<Rightarrow> tool_error + json" where
  "process_allowed_tools_denied_response env tool_id tool allowed_tools =
     file_allowed_tools_denied_response (xe_tool env) tool_id tool allowed_tools"

text \<open>A refusal whose catalog entry is \<open>code\<close>, with the fields between \<open>denied\<close> and the error.\<close>

definition process_refusal ::
  "'w exec_env \<Rightarrow> tool_id \<Rightarrow> string \<Rightarrow> (string \<times> catalog_arg) list \<Rightarrow> (string \<times> json) list \<Rightarrow> tool_error + json" where
  "process_refusal env tool_id code args entries =
     rbind (catalog_structured_error_with (xe_tool env) code args) (\<lambda>e.
     Inr (JObject (denied_fields (xe_tool env) tool_id @ entries @ error_fields (xe_tool env) e)))"

definition process_mode_denied_response ::
  "'w exec_env \<Rightarrow> tool_id \<Rightarrow> thread_id \<Rightarrow> string \<Rightarrow> mode_decision_audit \<Rightarrow> tool_error + json" where
  "process_mode_denied_response env tool_id tid mode_name audit =
     process_refusal env tool_id ''mode_denied''
       [(''mode'', ArgText mode_name), (''decision_source'', ArgText (source_str (audit_source audit))),
        (''tool_override_hit'', ArgBool (audit_override_hit audit))]
       [thread_field env tid, (''mode'', JString mode_name), (''decision'', decision_json (audit_decision audit)),
        (''decision_source'', JString (source_str (audit_source audit))),
        (''tool_override_hit'', JBool (audit_override_hit audit))]"

definition process_unknown_mode_denied_response ::
  "'w exec_env \<Rightarrow> tool_id \<Rightarrow> thread_id \<Rightarrow> string \<Rightarrow> string \<Rightarrow> string option \<Rightarrow> tool_error + json" where
  "process_unknown_mode_denied_response env tool_id tid mode_name available load_error =
     process_refusal env tool_id ''mode_unknown''
       ([(''mode'', ArgText mode_name), (''available'', ArgText available)] @
        (case load_error of Some e \<Rightarrow> [(''load_error'', ArgText e)] | None \<Rightarrow> []))
       [thread_field env tid, (''mode'', JString mode_name), (''decision'', decision_json Deny),
        (''available'', JString available), (''load_error'', opt_json JString load_error)]"

definition process_sandbox_policy_denied_response ::
  "'w exec_env \<Rightarrow> tool_id \<Rightarrow> write_scope \<Rightarrow> tool_error + json" where
  "process_sandbox_policy_denied_response env tool_id sandbox_policy =
     process_refusal env tool_id ''sandbox_policy_denied'' []
       [(''sandbox_policy'', te_show_scope (xe_tool env) sandbox_policy)]"

definition process_sandbox_network_denied_response ::
  "'w exec_env \<Rightarrow> tool_id \<Rightarrow> sandbox_network_access \<Rightarrow> tool_error + json" where
  "process_sandbox_network_denied_response env tool_id network =
     process_refusal env tool_id ''sandbox_network_denied'' []
       [(''sandbox_network_access'', xe_show_network env network)]"

fun exec_decision_json :: "exec_decision \<Rightarrow> json" where
  "exec_decision_json ExecAllow = JString ''allow''"
| "exec_decision_json ExecPrompt = JString ''prompt''"
| "exec_decision_json ExecPromptStrict = JString ''prompt_strict''"
| "exec_decision_json ExecForbidden = JString ''forbidden''"

fun rule_match_json :: "rule_match \<Rightarrow> json" where
  "rule_match_json (PrefixRuleMatch matched decision justification) =
     JObject [(''prefixRuleMatch'', JObject
       ([(''matchedPrefix'', JArray (map JString matched)), (''decision'', exec_decision_json decision)] @
        (case justification of Some j \<Rightarrow> [(''justification'', JString j)] | None \<Rightarrow> [])))]"
| "rule_match_json (HeuristicsRuleMatch command decision) =
     JObject [(''heuristicsRuleMatch'', JObject
       [(''command'', JArray (map JString command)), (''decision'', exec_decision_json decision)])]"

definition process_execpolicy_denied_response ::
  "'w exec_env \<Rightarrow> tool_id \<Rightarrow> exec_decision \<Rightarrow> rule_match list \<Rightarrow> string option \<Rightarrow> tool_error + json" where
  "process_execpolicy_denied_response env tool_id decision matched justification =
     process_refusal env tool_id ''execpolicy_denied'' []
       [(''decision'', exec_decision_json decision), (''matched_rules'', JArray (map rule_match_json matched)),
        (''justification'', opt_json JString justification)]"

definition process_execpolicy_load_denied_response ::
  "'w exec_env \<Rightarrow> tool_id \<Rightarrow> string \<Rightarrow> string \<Rightarrow> string \<Rightarrow> tool_error + json" where
  "process_execpolicy_load_denied_response env tool_id mode_name error details =
     process_refusal env tool_id ''execpolicy_load_denied''
       [(''mode'', ArgText mode_name), (''error'', ArgText error), (''details'', ArgText details)]
       [(''mode'', JString mode_name), (''error'', JString error), (''details'', JString details)]"

text \<open>The arms of the match in \<open>handle_process_start\<close>; a denied approval is answered before it.\<close>

fun governance_response ::
  "'w exec_env \<Rightarrow> tool_id \<Rightarrow> thread_id \<Rightarrow> process_exec_snapshot \<Rightarrow> process_denied \<Rightarrow> tool_error + json" where
  "governance_response env tool_id tid snapshot SandboxPolicyReadOnly =
     process_sandbox_policy_denied_response env tool_id (sn_sandbox_policy snapshot)"
| "governance_response env tool_id tid snapshot SandboxNetworkDenied =
     process_sandbox_network_denied_response env tool_id (sn_sandbox_network_access snapshot)"
| "governance_response env tool_id tid snapshot (GatewayDenied _) = process_denied_response env tool_id tid None"
| "governance_response env tool_id tid snapshot (UnknownModeDenied available load_error) =
     process_unknown_mode_denied_response env tool_id tid (sn_mode_name snapshot) available load_error"
| "governance_response env tool_id tid snapshot (ModeDenied audit) =
     process_mode_denied_response env tool_id tid (sn_mode_name snapshot) audit"
| "governance_response env tool_id tid snapshot (ExecPolicyLoadDenied error details _) =
     process_execpolicy_load_denied_response env tool_id (sn_mode_name snapshot) error details"
| "governance_response env tool_id tid snapshot (ExecPolicyForbidden matched justification) =
     process_execpolicy_denied_response env tool_id ExecForbidden matched justification"
| "governance_response env tool_id tid snapshot (ApprovalDenied remembered) =
     process_denied_response env tool_id tid (Some remembered)"

section \<open>The gate of the other process tools\<close>

record process_request =
  pq_thread_id :: thread_id
  pq_turn_id :: "turn_id option"
  pq_approval_id :: "approval_id option"
  pq_approval_policy :: approval_policy
  pq_mode_name :: string
  pq_role_name :: string
  pq_action :: string
  pq_tool_id :: tool_id
  pq_params :: json

definition emit_process_tool_denied_response ::
  "'w exec_env \<Rightarrow> thread_id \<Rightarrow> tool_id \<Rightarrow> turn_id option \<Rightarrow> string \<Rightarrow> json \<Rightarrow> string \<Rightarrow> tool_error + json \<Rightarrow>
     ('w, json) tool_action" where
  "emit_process_tool_denied_response env tid tool_id turn_id action params error response =
     act_bind (act_lift response) (\<lambda>result.
     act_bind (emit_tool_denied (xe_tool env) tid tool_id turn_id action (Some params) error result) (\<lambda>_.
     act_return result))"

definition refuse_process ::
  "'w exec_env \<Rightarrow> process_request \<Rightarrow> string \<Rightarrow> tool_error + json \<Rightarrow> ('w, json) tool_action" where
  "refuse_process env req error response =
     emit_process_tool_denied_response env (pq_thread_id req) (pq_tool_id req) (pq_turn_id req) (pq_action req)
       (pq_params req) error response"

datatype process_mode_gate = ProcessModeAllowed mode_decision_audit | ProcessModeRefused json

definition enforce_process_mode_gate ::
  "'w exec_env \<Rightarrow> path \<Rightarrow> process_request \<Rightarrow> (mode_def \<Rightarrow> mode_decision) \<Rightarrow> ('w, process_mode_gate) tool_action" where
  "enforce_process_mode_gate env thread_root req base_decision_for_mode =
     act_bind (act_look (\<lambda>s. Inr (load_modes (xe_tool env) thread_root (ts_world s)))) (\<lambda>catalog.
     case catalog_mode catalog (pq_mode_name req) of
       None \<Rightarrow>
         act_bind (refuse_process env req ''unknown mode''
             (process_unknown_mode_denied_response env (pq_tool_id req) (pq_thread_id req) (pq_mode_name req)
                (join_names (mode_names catalog))
                (map_option (te_show_catalog_error (xe_tool env)) (mc_load_error catalog)))) (\<lambda>result.
         act_return (ProcessModeRefused result))
     | Some mode \<Rightarrow>
         let audit = resolve_mode_and_role_decision_audit catalog mode (Some (pq_role_name req)) (pq_action req)
                       base_decision_for_mode
         in if audit_decision audit = Deny then
              act_bind (refuse_process env req (''mode denies '' @ pq_action req)
                  (process_mode_denied_response env (pq_tool_id req) (pq_thread_id req) (pq_mode_name req) audit)) (\<lambda>result.
              act_return (ProcessModeRefused result))
            else act_return (ProcessModeAllowed audit))"

definition enforce_process_mode_and_approval ::
  "'w exec_env \<Rightarrow> approval_id \<Rightarrow> path \<Rightarrow> process_request \<Rightarrow> (mode_def \<Rightarrow> mode_decision) \<Rightarrow>
     ('w, json option) tool_action" where
  "enforce_process_mode_and_approval env fresh thread_root req base_decision_for_mode =
     act_bind (enforce_process_mode_gate env thread_root req base_decision_for_mode) (\<lambda>gate.
     case gate of
       ProcessModeRefused result \<Rightarrow> act_return (Some result)
     | ProcessModeAllowed audit \<Rightarrow>
         if audit_decision audit = Prompt then
           act_bind (on_server (gate_approval_with_deps (te_server (xe_tool env)) (te_lib (xe_tool env))
               (te_exec_policy (xe_tool env)) fresh (pq_thread_id req) (pq_turn_id req) (pq_approval_policy req)
               \<lparr>ar_approval_id = pq_approval_id req, ar_action = pq_action req, ar_params = pq_params req\<rparr>)) (\<lambda>gate.
           case gate of
             GateApproved \<Rightarrow> act_return None
           | GateDenied remembered \<Rightarrow>
               act_bind (refuse_process env req (approval_denied_error remembered)
                   (process_denied_response env (pq_tool_id req) (pq_thread_id req) (Some remembered))) (\<lambda>result.
               act_return (Some result))
           | GateNeedsApproval approval_id \<Rightarrow>
               act_return (Some (process_needs_approval_response env (pq_thread_id req) approval_id)))
         else act_return None)"

end
