(* ===== verification/ProcessControl.thy ===== *)
theory ProcessControl
  imports ProcessGate FileGates "HOL-Library.AList" "HOL-Library.Product_Lexorder"
begin

text \<open>
  The handlers that start, kill and interrupt processes (\<open>process_control/start.rs\<close>,
  \<open>process_control/signal.rs\<close>), the gate for the commands a shell runs
  (\<open>process_control/execve_gate.rs\<close>) and the actor of a process (\<open>process_control/actor.rs\<close>).
  Beside what the gate takes, the operating system is a parameter: spawning, signals, whether a
  process of a given number still runs the given command, the sockets of the gate. The logs of
  the output streams are not modelled.
\<close>

section \<open>State\<close>

instantiation process_id :: linorder
begin
definition less_eq_process_id :: "process_id \<Rightarrow> process_id \<Rightarrow> bool" where
  "less_eq_process_id a b \<longleftrightarrow> process_uuid a \<le> process_uuid b"
definition less_process_id :: "process_id \<Rightarrow> process_id \<Rightarrow> bool" where
  "less_process_id a b \<longleftrightarrow> process_uuid a < process_uuid b"
instance
  by standard (auto simp: less_eq_process_id_def less_process_id_def process_id.expand)
end

datatype process_status = ProcessIsRunning | ProcessHasExited | ProcessAbandoned

record process_info =
  pi_process_id :: process_id
  pi_thread_id :: thread_id
  pi_turn_id :: "turn_id option"
  pi_os_pid :: "u32 option"
  pi_argv :: "string list"
  pi_cwd :: string
  pi_status :: process_status
  pi_exit_code :: "i32 option"

datatype process_command = InterruptCommand "string option" | KillCommand "string option"

text \<open>
  \<open>ps_processes\<close> is \<open>server.processes\<close>; of an entry, what is known of the process is kept, and
  its channel is \<open>ps_inbox\<close>, the commands the actor has not received yet, which outlive the
  entry. \<open>ps_gates\<close>: the processes whose gate server runs.
\<close>

record 'w process_state =
  ps_tool :: "'w tool_state"
  ps_processes :: "(process_id \<times> process_info) list"
  ps_inbox :: "process_id \<Rightarrow> process_command list"
  ps_gates :: "process_id set"

datatype process_error =
    ProcessToolFailed tool_error
  | ArgvEmpty
  | TimeoutTooSmall
  | ProcessDirFailed io_error
  | WrapperEmpty
  | WrapperHasWhitespace
  | GateNotSpawned string
  | HardeningInvalid pattern_error
  | SpawnFailed string
  | CleanupNotCaptured string
  | StartNotRecorded tool_error
  | NoLongerRunning process_id
  | ProcessNotFound process_id
  | MissingPid
  | SignalFailed string
  | ExitNotSeen string
  | TimestampNotFormatted process_id
  | TimestampUnprintable
  | GateUnauthorized
  | GateWaitCancelled

type_synonym ('w, 'a) process_action = "('w process_state, process_error, 'a) state_action"

record exec_resolved =
  rv_program :: string
  rv_cwd :: path

record command =
  cm_program :: string
  cm_args :: "string list"
  cm_cwd :: path
  cm_env :: env_changes

record 'w process_env =
  pv_exec :: "'w exec_env"
  pv_thread_dir :: "thread_id \<Rightarrow> path"
  pv_show_process :: "process_id \<Rightarrow> string"
  pv_show_turn :: "turn_id \<Rightarrow> string"
  pv_environment :: server_environment
  pv_env_globs :: glob_lib
  pv_search_path :: "string \<Rightarrow> path list"
  pv_is_file :: "'w \<Rightarrow> path \<Rightarrow> bool"
  pv_resolve :: "'w \<Rightarrow> exec_request \<Rightarrow> exec_resolved"
  pv_prepare :: "'w \<Rightarrow> exec_request \<Rightarrow> command \<Rightarrow> gateway_error + unit"
  pv_spawn_gate :: "path \<Rightarrow> ('w, string, unit) state_action"
  pv_spawn :: "command \<Rightarrow> ('w, string, u32 option) state_action"
  pv_capture :: "('w, string, unit) state_action"
  pv_kill_child :: "'w \<Rightarrow> 'w"
  pv_pid_exists :: "'w \<Rightarrow> u32 \<Rightarrow> bool"
  pv_cmdline :: "'w \<Rightarrow> u32 \<Rightarrow> string list option"
  pv_signal :: "u32 \<Rightarrow> process_command \<Rightarrow> ('w, string, unit) state_action"
  pv_wait_exit :: "u32 \<Rightarrow> ('w, string, unit) state_action"
  pv_summary_json :: "effective_env_summary \<Rightarrow> json"
  pv_threads :: "server \<Rightarrow> thread_id list"
  pv_show_error :: "process_error \<Rightarrow> string"

abbreviation pv_tool :: "'w process_env \<Rightarrow> 'w tool_env" where
  "pv_tool env \<equiv> xe_tool (pv_exec env)"

definition on_tool :: "('w, 'a) tool_action \<Rightarrow> ('w, 'a) process_action" where
  "on_tool m s =
     (case m (ps_tool s) of (r, t) \<Rightarrow>
        (case r of Inl e \<Rightarrow> Inl (ProcessToolFailed e) | Inr a \<Rightarrow> Inr a, s\<lparr>ps_tool := t\<rparr>))"

text \<open>An operation of the operating system.\<close>

definition on_os :: "('e \<Rightarrow> process_error) \<Rightarrow> ('w, 'e, 'a) state_action \<Rightarrow> ('w, 'a) process_action" where
  "on_os wrap m s =
     (case m (ts_world (ps_tool s)) of (r, w) \<Rightarrow>
        (case r of Inl e \<Rightarrow> Inl (wrap e) | Inr a \<Rightarrow> Inr a, s\<lparr>ps_tool := (ps_tool s)\<lparr>ts_world := w\<rparr>\<rparr>))"

definition proc_append :: "'w process_env \<Rightarrow> thread_id \<Rightarrow> thread_event_kind \<Rightarrow> ('w, thread_event) process_action" where
  "proc_append env tid kind = on_tool (tool_append (pv_tool env) tid kind)"

definition update_processes ::
  "((process_id \<times> process_info) list \<Rightarrow> (process_id \<times> process_info) list) \<Rightarrow> ('w, unit) process_action" where
  "update_processes f s = (Inr (), s\<lparr>ps_processes := f (ps_processes s)\<rparr>)"

definition push_command :: "process_id \<Rightarrow> process_command \<Rightarrow> ('w, unit) process_action" where
  "push_command p cmd s = (Inr (), s\<lparr>ps_inbox := (ps_inbox s)(p := ps_inbox s p @ [cmd])\<rparr>)"

definition open_gate :: "process_id \<Rightarrow> ('w, unit) process_action" where
  "open_gate p s = (Inr (), s\<lparr>ps_gates := insert p (ps_gates s)\<rparr>)"

text \<open>\<open>shutdown_execve_gate\<close> on the gate of the process, if it has one.\<close>

definition shutdown_gate :: "process_id \<Rightarrow> ('w, unit) process_action" where
  "shutdown_gate p s = (Inr (), s\<lparr>ps_gates := ps_gates s - {p}\<rparr>)"

section \<open>The shell that the gate can watch\<close>

datatype execve_wrapper_target = WrapperDisabled | WrapperSupported | WrapperUnsupported string

definition normalized_execve_shell_name :: "string \<Rightarrow> string" where
  "normalized_execve_shell_name program =
     (let name = to_ascii_lowercase
        (case Sandbox.file_name (components program) of Some n \<Rightarrow> n | None \<Rightarrow> program)
      in case strip_suffix ''.exe'' name of Some stripped \<Rightarrow> stripped | None \<Rightarrow> name)"

text \<open>\<open>PATH\<close> is not overridden by the caller; its directories are \<open>pv_search_path\<close> of its value.\<close>

definition resolve_execve_shell_program :: "'w process_env \<Rightarrow> 'w \<Rightarrow> string \<Rightarrow> path option" where
  "resolve_execve_shell_program env w program =
     (if CHR ''/'' \<in> set program then Some (components program)
      else case ev_value (pv_environment env) ''PATH'' of
        None \<Rightarrow> None
      | Some p \<Rightarrow>
          List.find (pv_is_file env w) (map (\<lambda>base. join_path base (components program)) (pv_search_path env p)))"

definition bash_name :: "string \<Rightarrow> bool" where
  "bash_name name \<longleftrightarrow> name = ''bash'' \<or> name = ''rbash''"

definition execve_wrapper_target_for_shell :: "'w process_env \<Rightarrow> 'w \<Rightarrow> string \<Rightarrow> execve_wrapper_target" where
  "execve_wrapper_target_for_shell env w argv0 =
     (let name = normalized_execve_shell_name argv0 in
      if bash_name name then WrapperSupported
      else if name = ''sh'' then
        (case resolve_execve_shell_program env w argv0 of
           None \<Rightarrow> WrapperUnsupported
             (''execve wrapper requires a bash-compatible shell; failed to resolve '' @ argv0)
         | Some p \<Rightarrow>
             let resolved = (case fs_canonicalize (te_fs (pv_tool env)) w p of Inr c \<Rightarrow> c | Inl _ \<Rightarrow> p) in
             if bash_name (normalized_execve_shell_name (path_string resolved)) then WrapperSupported
             else WrapperUnsupported (''execve wrapper requires a bash-compatible shell; '' @ argv0 @
               '' resolves to '' @ path_string resolved))
      else WrapperDisabled)"

section \<open>Starting a process\<close>

record process_start_params =
  sp_thread_id :: thread_id
  sp_turn_id :: "turn_id option"
  sp_approval_id :: "approval_id option"
  sp_argv :: "string list"
  sp_cwd :: "string option"
  sp_timeout_ms :: "u64 option"

text \<open>The identifiers the call creates.\<close>

record start_ids =
  si_tool_id :: tool_id
  si_approval_id :: approval_id
  si_process_id :: process_id
  si_token :: string

definition start_context :: "path \<Rightarrow> process_exec_snapshot \<Rightarrow> path \<Rightarrow> process_start_params \<Rightarrow> exec_context" where
  "start_context thread_root snapshot cwd_path params =
     \<lparr>xc_thread_root = thread_root, xc_snapshot = snapshot, xc_thread_id = sp_thread_id params,
      xc_turn_id = sp_turn_id params, xc_approval_id = sp_approval_id params, xc_cwd = cwd_path,
      xc_action = ''process/start'', xc_argv = sp_argv params\<rparr>"

text \<open>Only a strict request is marked, so that a plain one is remembered by command and directory.\<close>

definition start_approval_params :: "path \<Rightarrow> process_start_params \<Rightarrow> approval_requirement_kind \<Rightarrow> json" where
  "start_approval_params cwd_path params requirement =
     build_process_exec_approval_params (sp_argv params) (path_string cwd_path) (sp_timeout_ms params)
       (if requirement = RequirePromptStrict then Some (SourceExecPolicy, RequirePromptStrict) else None)"

definition start_tool_params :: "path \<Rightarrow> process_start_params \<Rightarrow> json" where
  "start_tool_params cwd_path params =
     JObject [(''argv'', JArray (map JString (sp_argv params))), (''cwd'', JString (path_string cwd_path))]"

definition deny_start ::
  "'w process_env \<Rightarrow> start_ids \<Rightarrow> process_start_params \<Rightarrow> json \<Rightarrow> string \<Rightarrow> tool_error + json \<Rightarrow>
     ('w, json) process_action" where
  "deny_start env ids params tool_params error response =
     on_tool (emit_process_tool_denied_response (pv_exec env) (sp_thread_id params) (si_tool_id ids)
       (sp_turn_id params) ''process/start'' tool_params error response)"

definition refuse_start ::
  "'w process_env \<Rightarrow> start_ids \<Rightarrow> process_start_params \<Rightarrow> process_exec_snapshot \<Rightarrow> path \<Rightarrow> process_denied \<Rightarrow>
     ('w, json) process_action" where
  "refuse_start env ids params snapshot cwd_path denied =
     deny_start env ids params
       (case denied of
          ApprovalDenied _ \<Rightarrow>
            build_process_exec_approval_params (sp_argv params) (path_string cwd_path) (sp_timeout_ms params) None
        | _ \<Rightarrow> start_tool_params cwd_path params)
       (process_exec_governance_denied_reason denied ''process/start'')
       (governance_response (pv_exec env) (si_tool_id ids) (sp_thread_id params) snapshot denied)"

text \<open>\<open>runtime/processes/<id>\<close> below the thread's directory.\<close>

definition process_dir :: "'w process_env \<Rightarrow> start_ids \<Rightarrow> process_start_params \<Rightarrow> path" where
  "process_dir env ids params =
     pv_thread_dir env (sp_thread_id params) @
     map Normal [''runtime'', ''processes'', pv_show_process env (si_process_id ids)]"

definition gate_environment ::
  "'w process_env \<Rightarrow> start_ids \<Rightarrow> process_start_params \<Rightarrow> string \<Rightarrow> (string \<times> string) list" where
  "gate_environment env ids params wrapper =
     [(''BASH_EXEC_WRAPPER'', wrapper),
      (''OMNE_EXECVE_SOCKET'', path_string (process_dir env ids params @ [Normal ''execve-gate.sock''])),
      (''OMNE_EXECVE_TOKEN'', si_token ids),
      (''OMNE_THREAD_ID'', al_show_thread (te_lib (pv_tool env)) (sp_thread_id params))] @
     (case sp_turn_id params of Some t \<Rightarrow> [(''OMNE_TURN_ID'', pv_show_turn env t)] | None \<Rightarrow> [])"

text \<open>Run the cleanup when an operation fails.\<close>

definition act_cleanup :: "('s, 'e, unit) state_action \<Rightarrow> ('s, 'e, 'a) state_action \<Rightarrow> ('s, 'e, 'a) state_action" where
  "act_cleanup cleanup m =
     act_bind (act_attempt m) (\<lambda>r.
     case r of Inr a \<Rightarrow> act_return a | Inl e \<Rightarrow> act_bind cleanup (\<lambda>_. act_fail e))"

datatype wrapper_setup = SetupEnv "(string \<times> string) list" | SetupRefused string

definition has_whitespace :: "string \<Rightarrow> bool" where
  "has_whitespace s \<longleftrightarrow> (\<exists>w \<in> set utf8_whitespace. contains w s)"

text \<open>The entries that the wrapper of the shell adds to the environment.\<close>

definition setup_wrapper ::
  "'w process_env \<Rightarrow> start_ids \<Rightarrow> process_start_params \<Rightarrow> ('w, wrapper_setup) process_action" where
  "setup_wrapper env ids params =
     (case ev_value (pv_environment env) ''OMNE_EXECVE_WRAPPER'' of
        None \<Rightarrow> act_return (SetupEnv [])
      | Some raw \<Rightarrow>
          act_bind (act_look (\<lambda>s. Inr (execve_wrapper_target_for_shell env (ts_world (ps_tool s)) (hd (sp_argv params))))) (\<lambda>target.
          case target of
            WrapperDisabled \<Rightarrow> act_return (SetupEnv [])
          | WrapperUnsupported reason \<Rightarrow> act_return (SetupRefused reason)
          | WrapperSupported \<Rightarrow>
              let wrapper = trim raw in
              if wrapper = [] then act_fail WrapperEmpty
              else if has_whitespace wrapper then act_fail WrapperHasWhitespace
              else
                act_bind (on_os GateNotSpawned (pv_spawn_gate env (process_dir env ids params @ [Normal ''execve-gate.sock'']))) (\<lambda>_.
                act_bind (open_gate (si_process_id ids)) (\<lambda>_.
                act_return (SetupEnv (gate_environment env ids params wrapper))))))"

text \<open>\<open>BTreeMap::insert\<close> of each entry.\<close>

definition insert_all :: "(string \<times> string) list \<Rightarrow> (string \<times> string) list \<Rightarrow> (string \<times> string) list" where
  "insert_all kvs m = fold (\<lambda>(k, v). AList.update k v) kvs m"

definition combined_environment ::
  "path \<Rightarrow> (string \<times> string) list \<Rightarrow> (string \<times> string) list \<Rightarrow> (string \<times> string) list" where
  "combined_environment thread_root extra_env gate_entries =
     insert_all ((''AGENT_EXEC_GATEWAY_WORKSPACE_ROOT'', path_string thread_root) # gate_entries) extra_env"

definition build_command ::
  "'w process_env \<Rightarrow> 'w \<Rightarrow> path \<Rightarrow> path \<Rightarrow> process_start_params \<Rightarrow> (string \<times> string) list \<Rightarrow> command" where
  "build_command env w thread_root cwd_path params combined =
     (let resolved = map_option (pv_resolve env w)
            (process_exec_gateway_request (pv_exec env) (sp_argv params) cwd_path thread_root);
          argv0 = hd (sp_argv params)
      in \<lparr>cm_program = (case resolved of
                          Some r \<Rightarrow> if is_absolute argv0 then argv0 else rv_program r | None \<Rightarrow> argv0),
          cm_args = tl (sp_argv params),
          cm_cwd = (case resolved of Some r \<Rightarrow> rv_cwd r | None \<Rightarrow> cwd_path),
          cm_env = env_set_all combined Map.empty\<rparr>)"

definition prepare_process_exec_gateway_command ::
  "'w process_env \<Rightarrow> 'w \<Rightarrow> string list \<Rightarrow> path \<Rightarrow> path \<Rightarrow> write_scope \<Rightarrow> command \<Rightarrow> gateway_error + unit" where
  "prepare_process_exec_gateway_command env w argv cwd thread_root sandbox_policy cmd =
     (if sandbox_policy = FullAccess \<and> path_is_absolute cwd \<and> \<not> prefix thread_root cwd then Inr ()
      else case process_exec_gateway_request (pv_exec env) argv cwd thread_root of
        None \<Rightarrow> Inl (GatewayPolicyDenied ''argv must not be empty'')
      | Some request \<Rightarrow> pv_prepare env w request cmd)"

text \<open>\<open>apply_child_process_hardening\<close>, with the configuration of the server's environment.\<close>

definition apply_child_process_hardening ::
  "'w process_env \<Rightarrow> (string \<times> string) list \<Rightarrow> env_changes \<Rightarrow>
     pattern_error + effective_env_summary \<times> env_changes" where
  "apply_child_process_hardening env combined cmd_env =
     (let value = ev_value (pv_environment env) in
      rbind (env_scrub_config_from_raw (pv_env_globs env) (value ''OMNE_HARDENING_EXTRA_SCRUB_KEYS'')
          (value ''OMNE_HARDENING_EXTRA_SCRUB_PATTERNS'') (value ''OMNE_HARDENING_ALLOW_ENV_KEYS'')
          (value ''OMNE_HARDENING_ALLOW_ENV_PATTERNS'')) (\<lambda>config.
      Inr (apply_child_process_hardening_with_config (pv_env_globs env) (xe_hardening (pv_exec env))
          (pv_environment env) combined config cmd_env)))"

definition started_info ::
  "'w process_env \<Rightarrow> start_ids \<Rightarrow> process_start_params \<Rightarrow> command \<Rightarrow> u32 option \<Rightarrow> process_info" where
  "started_info env ids params cmd os_pid =
     \<lparr>pi_process_id = si_process_id ids, pi_thread_id = sp_thread_id params, pi_turn_id = sp_turn_id params,
      pi_os_pid = os_pid, pi_argv = sp_argv params, pi_cwd = path_string (cm_cwd cmd),
      pi_status = ProcessIsRunning, pi_exit_code = None\<rparr>"

definition started_event ::
  "'w process_env \<Rightarrow> start_ids \<Rightarrow> process_start_params \<Rightarrow> command \<Rightarrow> u32 option \<Rightarrow> thread_event_kind" where
  "started_event env ids params cmd os_pid = ProcessStarted
     \<lparr>psp_process_id = si_process_id ids, psp_turn_id = sp_turn_id params, psp_os_pid = os_pid,
      psp_argv = sp_argv params, psp_cwd = path_string (cm_cwd cmd),
      psp_stdout_path = path_string (process_dir env ids params @ [Normal ''stdout.log'']),
      psp_stderr_path = path_string (process_dir env ids params @ [Normal ''stderr.log''])\<rparr>"

definition start_response ::
  "'w process_env \<Rightarrow> start_ids \<Rightarrow> process_start_params \<Rightarrow> effective_env_summary \<Rightarrow> json" where
  "start_response env ids params summary =
     JObject [(''process_id'', JString (pv_show_process env (si_process_id ids))),
       (''stdout_path'', JString (path_string (process_dir env ids params @ [Normal ''stdout.log'']))),
       (''stderr_path'', JString (path_string (process_dir env ids params @ [Normal ''stderr.log'']))),
       (''effective_env_summary'', pv_summary_json env summary),
       (''timeout_ms'', opt_json nat_json (sp_timeout_ms params))]"

text \<open>The child is killed and reaped.\<close>

definition kill_child :: "'w process_env \<Rightarrow> ('w, unit) process_action" where
  "kill_child env s = (Inr (), s\<lparr>ps_tool := (ps_tool s)\<lparr>ts_world := pv_kill_child env (ts_world (ps_tool s))\<rparr>\<rparr>)"

text \<open>
  From the spawn on. An invalid configuration of the environment ends the call before the spawn
  and, unlike every later failure, leaves the gate server running.
\<close>

definition spawn_process ::
  "'w process_env \<Rightarrow> start_ids \<Rightarrow> process_start_params \<Rightarrow> command \<Rightarrow> (string \<times> string) list \<Rightarrow>
     ('w, json) process_action" where
  "spawn_process env ids params cmd combined =
     act_bind (act_map_error HardeningInvalid (act_lift (apply_child_process_hardening env combined (cm_env cmd)))) (\<lambda>h.
     let cmd = cmd\<lparr>cm_env := snd h\<rparr>; pid = si_process_id ids; tid = sp_thread_id params in
     act_bind (act_cleanup (shutdown_gate pid) (on_os SpawnFailed (pv_spawn env cmd))) (\<lambda>os_pid.
     act_bind (act_cleanup (act_bind (shutdown_gate pid) (\<lambda>_. kill_child env))
         (on_os CleanupNotCaptured (pv_capture env))) (\<lambda>_.
     act_bind (act_cleanup (act_bind (kill_child env) (\<lambda>_. shutdown_gate pid))
         (act_map_error (\<lambda>e. case e of ProcessToolFailed t \<Rightarrow> StartNotRecorded t | _ \<Rightarrow> e)
           (proc_append env tid (started_event env ids params cmd os_pid)))) (\<lambda>started.
     if al_format (te_lib (pv_tool env)) (ev_timestamp started) = None then act_fail (TimestampNotFormatted pid)
     else
       act_bind (update_processes (AList.update pid (started_info env ids params cmd os_pid))) (\<lambda>_.
       act_return (start_response env ids params (fst h)))))))"

definition launch_process ::
  "'w process_env \<Rightarrow> start_ids \<Rightarrow> process_start_params \<Rightarrow> (string \<times> string) list \<Rightarrow> path \<Rightarrow>
     process_exec_snapshot \<Rightarrow> path \<Rightarrow> ('w, json) process_action" where
  "launch_process env ids params extra_env thread_root snapshot cwd_path =
     act_bind (on_os ProcessDirFailed (fs_create_dir_all (te_fs (pv_tool env)) (process_dir env ids params))) (\<lambda>_.
     act_bind (setup_wrapper env ids params) (\<lambda>setup.
     case setup of
       SetupRefused reason \<Rightarrow>
         deny_start env ids params (start_tool_params cwd_path params) reason
           (process_denied_response (pv_exec env) (si_tool_id ids) (sp_thread_id params) None)
     | SetupEnv gate_entries \<Rightarrow>
         let combined = combined_environment thread_root extra_env gate_entries in
         act_bind (act_look (\<lambda>s. Inr (build_command env (ts_world (ps_tool s)) thread_root cwd_path params combined))) (\<lambda>cmd.
         act_bind (act_look (\<lambda>s. Inr (prepare_process_exec_gateway_command env (ts_world (ps_tool s)) (sp_argv params)
             cwd_path thread_root (sn_sandbox_policy snapshot) cmd))) (\<lambda>prepared.
         case prepared of
           Inl err \<Rightarrow>
             act_bind (shutdown_gate (si_process_id ids)) (\<lambda>_.
             deny_start env ids params (start_tool_params cwd_path params) (process_exec_gateway_error_reason err)
               (process_denied_response (pv_exec env) (si_tool_id ids) (sp_thread_id params) None))
         | Inr _ \<Rightarrow> spawn_process env ids params cmd combined))))"

definition govern_start ::
  "'w process_env \<Rightarrow> start_ids \<Rightarrow> process_start_params \<Rightarrow> (string \<times> string) list \<Rightarrow> path \<Rightarrow>
     process_exec_snapshot \<Rightarrow> path \<Rightarrow> ('w, json) process_action" where
  "govern_start env ids params extra_env thread_root snapshot cwd_path =
     act_bind (on_tool (evaluate_process_exec_governance (pv_exec env) (si_approval_id ids)
         (start_context thread_root snapshot cwd_path params) (\<lambda>mode. mp_command (md_permissions mode))
         (start_approval_params cwd_path params))) (\<lambda>governance.
     case governance of
       ExecAllowed \<Rightarrow> launch_process env ids params extra_env thread_root snapshot cwd_path
     | ExecNeedsApproval approval_id \<Rightarrow>
         act_return (process_needs_approval_response (pv_exec env) (sp_thread_id params) approval_id)
     | ExecDenied denied \<Rightarrow> refuse_start env ids params snapshot cwd_path denied)"

definition check_start_allowed ::
  "'w process_env \<Rightarrow> start_ids \<Rightarrow> process_start_params \<Rightarrow> (string \<times> string) list \<Rightarrow> path \<Rightarrow>
     process_exec_snapshot \<Rightarrow> path \<Rightarrow> ('w, json) process_action" where
  "check_start_allowed env ids params extra_env thread_root snapshot cwd_path =
     (let asked_cwd = (case sp_cwd params of Some cwd \<Rightarrow> cwd | None \<Rightarrow> path_string thread_root) in
      act_bind (on_tool (enforce_thread_allowed_tools (pv_tool env) (sp_thread_id params) (si_tool_id ids)
          (sp_turn_id params) ''process/start''
          (Some (build_process_exec_approval_params (sp_argv params) asked_cwd (sp_timeout_ms params) None))
          (sn_allowed_tools snapshot))) (\<lambda>refused.
      if refused \<noteq> None then
        act_map_error ProcessToolFailed (act_lift (process_allowed_tools_denied_response (pv_exec env)
          (si_tool_id ids) ''process/start'' (sn_allowed_tools snapshot)))
      else govern_start env ids params extra_env thread_root snapshot cwd_path))"

definition resolve_start_cwd ::
  "'w process_env \<Rightarrow> process_start_params \<Rightarrow> path \<Rightarrow> process_exec_snapshot \<Rightarrow> ('w, path) process_action" where
  "resolve_start_cwd env params thread_root snapshot =
     (case sp_cwd params of
        Some cwd \<Rightarrow> on_tool (on_world SandboxFailed (act_look (\<lambda>w. resolve_dir_for_sandbox (te_fs (pv_tool env)) w
            thread_root (sn_sandbox_policy snapshot) (components cwd))))
      | None \<Rightarrow> act_return thread_root)"

definition handle_process_start_inner ::
  "'w process_env \<Rightarrow> start_ids \<Rightarrow> process_start_params \<Rightarrow> (string \<times> string) list \<Rightarrow> ('w, json) process_action" where
  "handle_process_start_inner env ids params extra_env =
     (if sp_argv params = [] then act_fail ArgvEmpty
      else if sp_timeout_ms params = Some 0 then act_fail TimeoutTooSmall
      else
        act_bind (on_tool (load_thread_root (pv_tool env) (sp_thread_id params))) (\<lambda>thread_root.
        act_bind (on_tool (on_server (handle_state (sp_thread_id params)))) (\<lambda>state.
        act_bind (resolve_start_cwd env params thread_root (load_thread_process_exec_snapshot state)) (\<lambda>cwd_path.
        check_start_allowed env ids params extra_env thread_root (load_thread_process_exec_snapshot state) cwd_path))))"

definition handle_process_start :: "'w process_env \<Rightarrow> start_ids \<Rightarrow> process_start_params \<Rightarrow> ('w, json) process_action" where
  "handle_process_start env ids params = handle_process_start_inner env ids params []"

section \<open>The gate for the commands of a shell\<close>

text \<open>
  The context of a gate server, and a request to it. The path of the request need not be
  absolute; the gate takes the thread's root when there is none.
\<close>

record execve_gate_context =
  eg_thread_id :: thread_id
  eg_turn_id :: "turn_id option"
  eg_token :: string
  eg_thread_root :: path

record execve_decide_args =
  ed_token :: string
  ed_argv :: "string list"
  ed_cwd :: "string option"

datatype execve_answer = AnswerRun | AnswerEscalate approval_id | AnswerDeny string "(string \<times> json) list"

definition execve_context :: "execve_gate_context \<Rightarrow> process_exec_snapshot \<Rightarrow> execve_decide_args \<Rightarrow> exec_context" where
  "execve_context ctx snapshot args =
     \<lparr>xc_thread_root = eg_thread_root ctx, xc_snapshot = snapshot, xc_thread_id = eg_thread_id ctx,
      xc_turn_id = eg_turn_id ctx, xc_approval_id = None,
      xc_cwd = (case ed_cwd args of Some c \<Rightarrow> components c | None \<Rightarrow> eg_thread_root ctx),
      xc_action = ''process/execve'', xc_argv = ed_argv args\<rparr>"

definition execve_approval_params :: "execve_gate_context \<Rightarrow> execve_decide_args \<Rightarrow> approval_requirement_kind \<Rightarrow> json" where
  "execve_approval_params ctx args requirement =
     build_process_exec_approval_params (ed_argv args)
       (case ed_cwd args of Some c \<Rightarrow> c | None \<Rightarrow> path_string (eg_thread_root ctx)) None
       (Some (SourceExecveWrapper, requirement))"

text \<open>What an answer that denies says beside the reason.\<close>

fun denied_details :: "process_exec_snapshot \<Rightarrow> process_denied \<Rightarrow> (string \<times> json) list" where
  "denied_details snapshot (UnknownModeDenied available load_error) =
     [(''mode'', JString (sn_mode_name snapshot)), (''available'', JString available),
      (''load_error'', opt_json JString load_error)]"
| "denied_details snapshot (ModeDenied audit) =
     [(''mode'', JString (sn_mode_name snapshot)), (''mode_decision'', decision_json (audit_decision audit)),
      (''decision_source'', JString (source_str (audit_source audit))),
      (''tool_override_hit'', JBool (audit_override_hit audit))]"
| "denied_details snapshot (ExecPolicyLoadDenied _ details rules) =
     [(''mode'', JString (sn_mode_name snapshot)), (''rules'', JArray (map JString rules)),
      (''details'', JString details)]"
| "denied_details snapshot (ExecPolicyForbidden matched justification) =
     [(''matched_rules'', JArray (map rule_match_json matched)), (''justification'', opt_json JString justification)]"
| "denied_details snapshot _ = []"

definition answer_governance :: "process_exec_snapshot \<Rightarrow> process_governance \<Rightarrow> execve_answer" where
  "answer_governance snapshot governance =
     (case governance of
        ExecAllowed \<Rightarrow> AnswerRun
      | ExecNeedsApproval approval_id \<Rightarrow> AnswerEscalate approval_id
      | ExecDenied denied \<Rightarrow>
          AnswerDeny (process_exec_governance_denied_reason denied ''process/execve'') (denied_details snapshot denied))"

definition handle_execve_gate_decide ::
  "'w process_env \<Rightarrow> approval_id \<Rightarrow> execve_gate_context \<Rightarrow> execve_decide_args \<Rightarrow> ('w, execve_answer) process_action" where
  "handle_execve_gate_decide env fresh ctx args =
     (if ed_token args \<noteq> eg_token ctx then act_fail GateUnauthorized
      else if ed_argv args = [] then act_fail ArgvEmpty
      else
        act_bind (on_tool (on_server (handle_state (eg_thread_id ctx)))) (\<lambda>state.
        let snapshot = load_thread_process_exec_snapshot state in
        act_bind (on_tool (evaluate_process_exec_governance (pv_exec env) fresh (execve_context ctx snapshot args)
            (\<lambda>mode. mp_command (md_permissions mode)) (execve_approval_params ctx args))) (\<lambda>governance.
        act_return (answer_governance snapshot governance))))"

text \<open>
  Waiting for a decision: one round of the loop, on the events read since the last round. The
  answer is the first decision of the approval among them.
\<close>

record execve_wait_args =
  ew_token :: string
  ew_approval_id :: approval_id

datatype wait_answer = WaitDecided approval_decision bool "string option" | WaitTimedOut

fun first_decision :: "approval_id \<Rightarrow> thread_event list \<Rightarrow> wait_answer option" where
  "first_decision i [] = None"
| "first_decision i (e # es) =
     (case ev_kind e of
        ApprovalDecided j decision remember reason \<Rightarrow>
          if j = i then Some (WaitDecided decision remember reason) else first_decision i es
      | _ \<Rightarrow> first_decision i es)"

definition last_seq :: "u64 \<Rightarrow> thread_event list \<Rightarrow> u64" where
  "last_seq since es = (if es = [] then since else ev_seq (last es))"

text \<open>
  The rounds the loop makes: whether it is cancelled, whether the deadline has passed, and what
  happens on the server before the round reads the log.
\<close>

record 'w wait_round =
  wr_cancelled :: bool
  wr_past_deadline :: bool
  wr_meanwhile :: "server \<Rightarrow> server"

fun wait_loop ::
  "execve_gate_context \<Rightarrow> execve_wait_args \<Rightarrow> 'w wait_round list \<Rightarrow> u64 \<Rightarrow>
     ('w, wait_answer option) process_action" where
  "wait_loop ctx args [] since = act_return None"
| "wait_loop ctx args (r # rs) since =
     (if wr_cancelled r then act_fail GateWaitCancelled
      else if wr_past_deadline r then act_return (Some WaitTimedOut)
      else
        act_bind (on_tool (on_server (\<lambda>v. (Inr (), wr_meanwhile r v)))) (\<lambda>_.
        act_bind (on_tool (on_server (read_log (eg_thread_id ctx)))) (\<lambda>es.
        let new = filter (\<lambda>e. since < ev_seq e) es in
        case first_decision (ew_approval_id args) new of
          Some answer \<Rightarrow> act_return (Some answer)
        | None \<Rightarrow> wait_loop ctx args rs (last_seq since new))))"

text \<open>None: the rounds given do not suffice for an answer.\<close>

definition handle_execve_gate_wait ::
  "execve_gate_context \<Rightarrow> execve_wait_args \<Rightarrow> 'w wait_round list \<Rightarrow> ('w, wait_answer option) process_action" where
  "handle_execve_gate_wait ctx args rounds =
     (if ew_token args \<noteq> eg_token ctx then act_fail GateUnauthorized
      else wait_loop ctx args rounds 0)"

section \<open>Which processes there are\<close>

text \<open>\<open>pv_cmdline\<close>: what \<open>/proc\<close> has for a process, cut at its zero bytes.\<close>

definition arg0_matches :: "string \<Rightarrow> string \<Rightarrow> bool" where
  "arg0_matches actual expected \<longleftrightarrow>
     (let name = (\<lambda>s. case Sandbox.file_name (components s) of Some n \<Rightarrow> n | None \<Rightarrow> s)
      in name actual = name expected)"

definition os_process_matches_argv :: "'w process_env \<Rightarrow> 'w \<Rightarrow> u32 \<Rightarrow> string list \<Rightarrow> bool" where
  "os_process_matches_argv env w pid argv \<longleftrightarrow>
     (if \<not> pv_pid_exists env w pid then False
      else if argv = [] then True
      else case pv_cmdline env w pid of
        None \<Rightarrow> True
      | Some parts \<Rightarrow>
          let actual = filter (\<lambda>p. p \<noteq> []) parts
          in if actual = [] then True
             else if length actual \<noteq> length argv then False
             else arg0_matches (hd actual) (hd argv) \<and> tl actual = tl argv)"

definition still_runs :: "'w process_env \<Rightarrow> 'w \<Rightarrow> process_info \<Rightarrow> bool" where
  "still_runs env w info \<longleftrightarrow>
     (case pi_os_pid info of Some pid \<Rightarrow> os_process_matches_argv env w pid (pi_argv info) | None \<Rightarrow> False)"

type_synonym processes = "(process_id \<times> process_info) list"

fun derive_process :: "thread_event \<Rightarrow> processes \<Rightarrow> processes" where
  "derive_process e derived =
     (case ev_kind e of
        ProcessStarted p \<Rightarrow>
          AList.update (psp_process_id p)
            \<lparr>pi_process_id = psp_process_id p, pi_thread_id = ev_thread_id e, pi_turn_id = psp_turn_id p,
             pi_os_pid = psp_os_pid p, pi_argv = psp_argv p, pi_cwd = psp_cwd p,
             pi_status = ProcessIsRunning, pi_exit_code = None\<rparr> derived
      | ProcessExited p code reason \<Rightarrow>
          AList.map_entry p (\<lambda>i. i\<lparr>pi_status := ProcessHasExited, pi_exit_code := code\<rparr>) derived
      | _ \<Rightarrow> derived)"

definition settle_status :: "'w process_env \<Rightarrow> 'w \<Rightarrow> process_id set \<Rightarrow> process_info \<Rightarrow> process_info" where
  "settle_status env w in_mem_running info =
     (if pi_status info = ProcessIsRunning \<and> pi_process_id info \<notin> in_mem_running
      then info\<lparr>pi_status := (if still_runs env w info then ProcessIsRunning else ProcessAbandoned)\<rparr>
      else info)"

fun read_logs :: "thread_id list \<Rightarrow> ('w, thread_event list) tool_action" where
  "read_logs [] = act_return []"
| "read_logs (tid # tids) =
     act_bind (on_server (read_log tid)) (\<lambda>es.
     act_bind (read_logs tids) (\<lambda>rest. act_return (es @ rest)))"

text \<open>An event whose time cannot be printed fails the listing.\<close>

definition handle_process_list :: "'w process_env \<Rightarrow> thread_id option \<Rightarrow> ('w, process_info list) process_action" where
  "handle_process_list env only =
     act_bind (act_look (\<lambda>s. Inr (case only of Some tid \<Rightarrow> [tid] | None \<Rightarrow> pv_threads env (ts_server (ps_tool s))))) (\<lambda>tids.
     act_bind (on_tool (read_logs tids)) (\<lambda>es.
     if \<exists>e \<in> set es. al_format (te_lib (pv_tool env)) (ev_timestamp e) = None then act_fail TimestampUnprintable
     else act_look (\<lambda>s.
       let entries = filter (\<lambda>i. case only of Some tid \<Rightarrow> pi_thread_id i = tid | None \<Rightarrow> True)
             (map snd (ps_processes s));
           derived = fold (\<lambda>i. AList.update (pi_process_id i) i) entries (fold derive_process es []);
           in_mem_running = pi_process_id ` {i \<in> set entries. pi_status i = ProcessIsRunning};
           settled = map (settle_status env (ts_world (ps_tool s)) in_mem_running \<circ> snd) derived
       in Inr (sort_key (\<lambda>i. (pi_thread_id i, pi_process_id i)) settled))))"

definition resolve_process_info :: "'w process_env \<Rightarrow> process_id \<Rightarrow> ('w, process_info) process_action" where
  "resolve_process_info env pid =
     act_bind (act_look (\<lambda>s. Inr (map_of (ps_processes s) pid))) (\<lambda>entry.
     case entry of
       Some info \<Rightarrow> act_return info
     | None \<Rightarrow>
         act_bind (handle_process_list env None) (\<lambda>processes.
         case List.find (\<lambda>p. pi_process_id p = pid) processes of
           Some info \<Rightarrow> act_return info
         | None \<Rightarrow> act_fail (ProcessNotFound pid)))"

section \<open>Killing and interrupting\<close>

datatype signal_target = ManagedTarget process_info | ExternalTarget process_info

fun target_info :: "signal_target \<Rightarrow> process_info" where
  "target_info (ManagedTarget i) = i"
| "target_info (ExternalTarget i) = i"

text \<open>\<open>reconcile_stale_managed_process\<close>: the entry goes, with its channel to the actor.\<close>

definition load_process_signal_target :: "'w process_env \<Rightarrow> process_id \<Rightarrow> ('w, signal_target) process_action" where
  "load_process_signal_target env pid =
     act_bind (act_look (\<lambda>s. Inr (map_of (ps_processes s) pid, ts_world (ps_tool s)))) (\<lambda>(entry, w).
     case entry of
       Some info \<Rightarrow>
         if pi_status info = ProcessIsRunning \<and> pi_os_pid info \<noteq> None \<and> \<not> still_runs env w info then
           act_bind (update_processes (AList.delete pid)) (\<lambda>_. act_fail (NoLongerRunning pid))
         else act_return (ManagedTarget info)
     | None \<Rightarrow>
         act_bind (resolve_process_info env pid) (\<lambda>info.
         if pi_status info \<noteq> ProcessIsRunning then act_fail (NoLongerRunning pid)
         else if \<not> still_runs env w info then act_fail (NoLongerRunning pid)
         else act_return (ExternalTarget info)))"

definition send_process_signal :: "process_id \<Rightarrow> process_command \<Rightarrow> ('w, unit) process_action" where
  "send_process_signal pid cmd =
     act_bind (act_look (\<lambda>s. Inr (map_of (ps_processes s) pid))) (\<lambda>entry.
     case entry of
       None \<Rightarrow> act_fail (NoLongerRunning pid)
     | Some info \<Rightarrow>
         if pi_status info \<noteq> ProcessIsRunning then act_fail (NoLongerRunning pid)
         else push_command pid cmd)"

fun requested_signal :: "process_id \<Rightarrow> process_command \<Rightarrow> thread_event_kind" where
  "requested_signal pid (InterruptCommand reason) = ProcessInterruptRequested pid reason"
| "requested_signal pid (KillCommand reason) = ProcessKillRequested pid reason"

record process_signal_params =
  sg_process_id :: process_id
  sg_turn_id :: "turn_id option"
  sg_approval_id :: "approval_id option"
  sg_reason :: "string option"

text \<open>
  What the two handlers differ in: the signal to a process this server does not manage. Its
  failures inside the operation leave the handler at once; its result is the one that is recorded.
\<close>

definition signal_external :: "'w process_env \<Rightarrow> process_info \<Rightarrow> process_command \<Rightarrow> ('w, unit) process_action" where
  "signal_external env info cmd =
     (case pi_os_pid info of
        None \<Rightarrow> act_fail MissingPid
      | Some pid \<Rightarrow> on_os SignalFailed (pv_signal env pid cmd))"

fun external_signal ::
  "'w process_env \<Rightarrow> process_info \<Rightarrow> process_command \<Rightarrow> ('w, process_error + unit) process_action" where
  "external_signal env info (InterruptCommand reason) =
     (case pi_os_pid info of
        None \<Rightarrow> act_fail MissingPid
      | Some _ \<Rightarrow> act_attempt (signal_external env info (InterruptCommand reason)))"
| "external_signal env info (KillCommand reason) =
     act_bind (signal_external env info (KillCommand reason)) (\<lambda>_.
     act_bind (on_os ExitNotSeen (pv_wait_exit env (the (pi_os_pid info)))) (\<lambda>_.
     act_attempt (act_bind (proc_append env (pi_thread_id info) (ProcessExited (pi_process_id info) None reason)) (\<lambda>_.
     act_return ()))))"

definition deliver_signal ::
  "'w process_env \<Rightarrow> signal_target \<Rightarrow> process_command \<Rightarrow> ('w, process_error + unit) process_action" where
  "deliver_signal env target cmd =
     (case target of
        ManagedTarget info \<Rightarrow> act_attempt (send_process_signal (pi_process_id info) cmd)
      | ExternalTarget info \<Rightarrow>
          act_bind (proc_append env (pi_thread_id info) (requested_signal (pi_process_id info) cmd)) (\<lambda>_.
          external_signal env info cmd))"

definition signal_response :: "'w process_env \<Rightarrow> process_id \<Rightarrow> bool \<Rightarrow> json" where
  "signal_response env pid ok =
     (if ok then JObject [(''ok'', JBool True), (''accepted'', JBool True),
        (''process_id'', JString (pv_show_process env pid)), (''delivery'', JString ''queued'')]
      else JObject [(''ok'', JBool False), (''accepted'', JBool False), (''delivery'', JString ''rejected''),
        (''process_id'', JString (pv_show_process env pid))])"

definition signal_request :: "'w process_env \<Rightarrow> process_signal_params \<Rightarrow> json" where
  "signal_request env params =
     JObject [(''process_id'', JString (pv_show_process env (sg_process_id params))),
              (''reason'', opt_json JString (sg_reason params))]"

definition perform_signal ::
  "'w process_env \<Rightarrow> tool_id \<Rightarrow> process_signal_params \<Rightarrow> string \<Rightarrow> process_command \<Rightarrow> signal_target \<Rightarrow>
     ('w, json) process_action" where
  "perform_signal env tool_id params action cmd target =
     (let tid = pi_thread_id (target_info target) in
      act_bind (proc_append env tid (ToolStarted tool_id (sg_turn_id params) action (Some (signal_request env params)))) (\<lambda>_.
      act_bind (deliver_signal env target cmd) (\<lambda>outcome.
      case outcome of
        Inr _ \<Rightarrow>
          act_bind (proc_append env tid (ToolCompleted tool_id ToolStatusCompleted None None
              (Some (signal_response env (sg_process_id params) True)))) (\<lambda>_.
          act_return (signal_response env (sg_process_id params) True))
      | Inl err \<Rightarrow>
          act_bind (proc_append env tid (ToolCompleted tool_id ToolStatusFailed None
              (Some (pv_show_error env err)) (Some (signal_response env (sg_process_id params) False)))) (\<lambda>_.
          act_fail err))))"

definition signal_gate_request ::
  "'w process_env \<Rightarrow> tool_id \<Rightarrow> process_signal_params \<Rightarrow> string \<Rightarrow> thread_id \<Rightarrow> thread_state \<Rightarrow> process_request" where
  "signal_gate_request env tool_id params action tid state =
     \<lparr>pq_thread_id = tid, pq_turn_id = sg_turn_id params, pq_approval_id = sg_approval_id params,
      pq_approval_policy = st_approval_policy state, pq_mode_name = st_mode state,
      pq_role_name = st_role state, pq_action = action, pq_tool_id = tool_id, pq_params = signal_request env params\<rparr>"

definition govern_signal ::
  "'w process_env \<Rightarrow> tool_id \<Rightarrow> approval_id \<Rightarrow> process_signal_params \<Rightarrow> string \<Rightarrow> process_command \<Rightarrow> signal_target \<Rightarrow>
     path \<Rightarrow> thread_state \<Rightarrow> ('w, json) process_action" where
  "govern_signal env tool_id fresh params action cmd target thread_root state =
     act_bind (on_tool (enforce_process_mode_and_approval (pv_exec env) fresh thread_root
         (signal_gate_request env tool_id params action (pi_thread_id (target_info target)) state)
         (\<lambda>mode. proc_kill (mp_process (md_permissions mode))))) (\<lambda>answer.
     case answer of
       Some result \<Rightarrow> act_return result
     | None \<Rightarrow> perform_signal env tool_id params action cmd target)"

definition check_signal_allowed ::
  "'w process_env \<Rightarrow> tool_id \<Rightarrow> approval_id \<Rightarrow> process_signal_params \<Rightarrow> string \<Rightarrow> process_command \<Rightarrow> signal_target \<Rightarrow>
     path \<Rightarrow> thread_state \<Rightarrow> ('w, json) process_action" where
  "check_signal_allowed env tool_id fresh params action cmd target thread_root state =
     act_bind (on_tool (enforce_thread_allowed_tools (pv_tool env) (pi_thread_id (target_info target)) tool_id
         (sg_turn_id params) action (Some (signal_request env params)) (st_allowed_tools state))) (\<lambda>refused.
     if refused \<noteq> None then
       act_map_error ProcessToolFailed (act_lift (process_allowed_tools_denied_response (pv_exec env) tool_id action
         (st_allowed_tools state)))
     else govern_signal env tool_id fresh params action cmd target thread_root state)"

definition handle_process_signal ::
  "'w process_env \<Rightarrow> tool_id \<Rightarrow> approval_id \<Rightarrow> process_signal_params \<Rightarrow> string \<Rightarrow>
     (string option \<Rightarrow> process_command) \<Rightarrow> ('w, json) process_action" where
  "handle_process_signal env tool_id fresh params action command =
     act_bind (load_process_signal_target env (sg_process_id params)) (\<lambda>target.
     act_bind (on_tool (load_thread_root (pv_tool env) (pi_thread_id (target_info target)))) (\<lambda>thread_root.
     act_bind (on_tool (on_server (handle_state (pi_thread_id (target_info target))))) (\<lambda>state.
     check_signal_allowed env tool_id fresh params action (command (sg_reason params)) target thread_root state)))"

definition handle_process_kill ::
  "'w process_env \<Rightarrow> tool_id \<Rightarrow> approval_id \<Rightarrow> process_signal_params \<Rightarrow> ('w, json) process_action" where
  "handle_process_kill env tool_id fresh params =
     handle_process_signal env tool_id fresh params ''process/kill'' KillCommand"

definition handle_process_interrupt ::
  "'w process_env \<Rightarrow> tool_id \<Rightarrow> approval_id \<Rightarrow> process_signal_params \<Rightarrow> ('w, json) process_action" where
  "handle_process_interrupt env tool_id fresh params =
     handle_process_signal env tool_id fresh params ''process/interrupt'' InterruptCommand"

end
