(* ===== verification/ProcessRuns.thy ===== *)
theory ProcessRuns
  imports ProcessControl
begin

text \<open>
  What the handlers of processes guarantee: a process is started, and a command of a watched
  shell answered, only after every gate, and a process is killed or interrupted only on behalf
  of a thread that may. Also what they do not: a process whose command was redacted in the log
  is out of reach after a restart.
\<close>

section \<open>Actions that leave the processes alone\<close>

context action_relation
begin

lemma bindE:
  assumes "act_bind m f s = (r, s')" and "act_within R m" and "\<not> R s s'"
  obtains a t where "m s = (Inr a, t)" "f a t = (r, s')" "R s t" "\<not> R t s'"
  using assms act_withinD [OF assms(2)] R_trans unfolding act_bind_eq by metis

lemma within_bind_const: "act_within R m \<Longrightarrow> (\<And>a. act_within R (f a)) \<Longrightarrow> act_bind m f s = (r, s') \<Longrightarrow> R s s'"
  by (rule act_withinD [OF within_bind])

end

definition untouched :: "'w process_state \<Rightarrow> 'w process_state \<Rightarrow> bool" where
  "untouched s s' \<longleftrightarrow> ts_world (ps_tool s') = ts_world (ps_tool s) \<and> ps_processes s' = ps_processes s \<and>
     ps_inbox s' = ps_inbox s \<and> ps_gates s' = ps_gates s"

interpretation quiet: action_relation untouched
  by unfold_locales (auto simp: untouched_def)

lemma on_tool_quiet: "act_within same_world m \<Longrightarrow> act_within untouched (on_tool m)"
  by (force simp: act_within_def on_tool_def untouched_def same_world_def split: prod.splits sum.splits)

lemma on_tool_Inr: "on_tool m s = (Inr a, t) \<longleftrightarrow> (\<exists>u. m (ps_tool s) = (Inr a, u) \<and> t = s\<lparr>ps_tool := u\<rparr>)"
  by (auto simp: on_tool_def split: prod.splits sum.splits)

section \<open>Governance only reads the world\<close>

lemma rule_paths_read_only: "act_within (=) (resolve_execpolicy_rule_paths fs thread_root rules)"
  by (induction rules)
    (auto intro!: ro.within_intros resolve_file_reads_only simp: Let_def)

lemma merge_rules_read_only: "act_within (=) (merge_rules env thread_root failed rules base)"
  unfolding merge_rules_def load_mode_exec_policy_def
  by (auto intro!: ro.within_intros rule_paths_read_only)

lemma load_effective_reads_only:
  "act_within (=) (load_effective_process_exec_policy env thread_root base mode rules argv)"
  unfolding load_effective_process_exec_policy_def by (intro ro.within_intros merge_rules_read_only)

lemma on_world_attempt_same: "act_within (=) m \<Longrightarrow> act_within same_world (on_world_attempt m)"
  by (force simp: act_within_def on_world_attempt_def same_world_def split: prod.splits)

lemma authorize_same: "act_within same_world (authorize_process_exec env fresh ctx base params)"
  unfolding authorize_process_exec_def exec_approval_def Let_def
  by (auto intro!: world.parts on_world_attempt_same load_effective_reads_only
      split: option.split sum.split policy_load_error.split)

lemma governance_same: "act_within same_world (evaluate_process_exec_governance env fresh ctx base params)"
  unfolding evaluate_process_exec_governance_def
  by (auto intro!: world.parts authorize_same split: option.split)

section \<open>What governance allows\<close>

text \<open>
  The conditions under which a command may run: the sandbox lets commands run, and use the
  network or prove that they do not; the mode is known and does not deny; no rule of the
  server, of the mode or of the thread that matches forbids; a strict rule is met by an approval
  the request names, anything else that asks is granted by the gate.
\<close>

definition boundary_open :: "'w exec_env \<Rightarrow> exec_context \<Rightarrow> 'w \<Rightarrow> bool" where
  "boundary_open env ctx w \<longleftrightarrow>
     sn_sandbox_policy (xc_snapshot ctx) \<noteq> ReadOnly \<and>
     (sn_sandbox_network_access (xc_snapshot ctx) = NetworkDeny \<longrightarrow>
        \<not> command_uses_network (xe_words env) (xc_argv ctx) \<and> \<not> command_hides_network_intent (xc_argv ctx)) \<and>
     (sn_sandbox_policy (xc_snapshot ctx) \<noteq> FullAccess \<longrightarrow>
        (\<forall>request. process_exec_gateway_request env (xc_argv ctx) (xc_cwd ctx) (xc_thread_root ctx) = Some request \<longrightarrow>
           (\<forall>err. xe_preflight env w request = Inl err \<longrightarrow> left_to_launch err)))"

lemma boundary_open:
  "process_exec_boundary_denial env w (xc_argv ctx) (xc_cwd ctx) (xc_thread_root ctx)
     (sn_sandbox_policy (xc_snapshot ctx)) (sn_sandbox_network_access (xc_snapshot ctx)) = None \<Longrightarrow>
   boundary_open env ctx w"
  by (auto simp: process_exec_boundary_denial_def boundary_open_def split: if_splits option.splits sum.splits)

definition judged_mode ::
  "'w exec_env \<Rightarrow> exec_context \<Rightarrow> (mode_def \<Rightarrow> mode_decision) \<Rightarrow> 'w \<Rightarrow> mode_def \<Rightarrow> mode_decision" where
  "judged_mode env ctx base w mode =
     audit_decision (resolve_mode_and_role_decision_audit (load_modes (xe_tool env) (xc_thread_root ctx) w) mode
       (Some (sn_role_name (xc_snapshot ctx))) (xc_action ctx) base)"

definition effective_policy ::
  "'w exec_env \<Rightarrow> exec_context \<Rightarrow> 'w \<Rightarrow> mode_def \<Rightarrow> policy_load_error + loaded_exec_policy" where
  "effective_policy env ctx w mode =
     fst (load_effective_process_exec_policy env (xc_thread_root ctx) (te_exec_policy (xe_tool env)) mode
       (sn_execpolicy_rules (xc_snapshot ctx)) (xc_argv ctx) w)"

text \<open>An approval that the request names: the last decision about a request for exactly this.\<close>

definition named_approval :: "exec_context \<Rightarrow> json \<Rightarrow> server \<Rightarrow> bool" where
  "named_approval ctx params v \<longleftrightarrow>
     (\<exists>i. xc_approval_id ctx = Some i \<and>
        last_request (core (log_of v (xc_thread_id ctx))) i = Some (xc_action ctx, params) \<and>
        last_decision (core (log_of v (xc_thread_id ctx))) i = Some Approved)"

definition may_run ::
  "'w exec_env \<Rightarrow> approval_id \<Rightarrow> exec_context \<Rightarrow> (mode_def \<Rightarrow> mode_decision) \<Rightarrow>
     (approval_requirement_kind \<Rightarrow> json) \<Rightarrow> 'w tool_state \<Rightarrow> bool" where
  "may_run env fresh ctx base params s \<longleftrightarrow>
     boundary_open env ctx (ts_world s) \<and>
     (\<exists>mode effective.
        catalog_mode (load_modes (xe_tool env) (xc_thread_root ctx) (ts_world s)) (sn_mode_name (xc_snapshot ctx)) =
          Some mode \<and>
        judged_mode env ctx base (ts_world s) mode \<noteq> Deny \<and>
        effective_policy env ctx (ts_world s) mode = Inr effective \<and>
        ExecForbidden \<notin> match_decision ` set (lp_matches effective) \<and>
        (ExecPromptStrict \<in> match_decision ` set (lp_matches effective) \<longrightarrow>
           named_approval ctx (params RequirePromptStrict) (ts_server s)) \<and>
        (lp_matches effective = [] \<or> ExecPrompt \<in> match_decision ` set (lp_matches effective) \<or>
           judged_mode env ctx base (ts_world s) mode = Prompt \<longrightarrow>
           (\<exists>kind u. exec_approval env fresh (lp_policy effective) ctx (params kind) s = (Inr GateApproved, u))))"

lemma judged_matches:
  assumes "load_effective_process_exec_policy env thread_root base mode rules argv w = (Inr effective, w')"
  shows "lp_decision effective = (case max_decision (lp_matches effective) of Some d \<Rightarrow> d | None \<Rightarrow> ExecPrompt)"
  using assms by (auto simp: load_effective_process_exec_policy_def act_bind_Inr act_simps judge_command_def Let_def)

lemma strictest_match:
  fixes ms :: "rule_match list"
  defines "d \<equiv> (case max_decision ms of Some d \<Rightarrow> d | None \<Rightarrow> ExecPrompt)"
  shows "ms = [] \<Longrightarrow> d = ExecPrompt" "m \<in> set ms \<Longrightarrow> match_decision m \<le> d"
  by (auto simp: d_def max_decision_Max max_decision_None split: option.split)
    (metis Max_ge finite_imageI finite_set imageI max_decision_Max max_decision_None option.sel option.discI)

text \<open>A gate that grants a strict request does so by an approval it names.\<close>

lemma named_gate:
  assumes "gate_approval_with_deps env lib policy fresh tid turn_id approval_policy request s = (Inr GateApproved, s')"
    and "approval_requirement (ar_params request) = RequirePromptStrict"
  shows "\<exists>i. ar_approval_id request = Some i \<and>
    last_request (core (log_of s tid)) i = Some (ar_action request, ar_params request) \<and>
    last_decision (core (log_of s tid)) i = Some Approved"
proof (cases "ar_approval_id request")
  case (Some i)
  with assms have "ensure_approval lib tid i (ar_action request) (ar_params request) s = (Inr (), s')"
    by (auto simp: gate_with_id act_bind_eq act_return_def)
  with ensure_approval_outcome [OF this] Some show ?thesis by simp
next
  case None
  with assms have False
    by (cases approval_policy)
      (auto simp: gate_approval_with_deps_def dest: request_only_outcome(1) request_and_decide_outcome(1))
  then show ?thesis ..
qed

lemma governance_of_gate_allowed: "governance_of_gate gate = ExecAllowed \<longleftrightarrow> gate = GateApproved"
  by (cases gate) (simp_all add: governance_of_gate_def)

text \<open>What the gate is asked, and when, follows from the matching rules.\<close>

lemma authorize_allowedE:
  assumes "authorize_process_exec env fresh ctx base params s = (Inr ExecAllowed, s')"
  obtains mode effective where
    "catalog_mode (load_modes (xe_tool env) (xc_thread_root ctx) (ts_world s)) (sn_mode_name (xc_snapshot ctx)) = Some mode"
    "judged_mode env ctx base (ts_world s) mode \<noteq> Deny"
    "load_effective_process_exec_policy env (xc_thread_root ctx) (te_exec_policy (xe_tool env)) mode
       (sn_execpolicy_rules (xc_snapshot ctx)) (xc_argv ctx) (ts_world s) = (Inr effective, ts_world s)"
    "lp_decision effective \<noteq> ExecForbidden"
    "\<forall>requirement. exec_requirement (lp_decision effective) (judged_mode env ctx base (ts_world s) mode) = Some requirement
       \<longrightarrow> exec_approval env fresh (lp_policy effective) ctx (params requirement) s = (Inr GateApproved, s')"
proof -
  from assms obtain mode where mode:
    "catalog_mode (load_modes (xe_tool env) (xc_thread_root ctx) (ts_world s)) (sn_mode_name (xc_snapshot ctx)) = Some mode"
    "judged_mode env ctx base (ts_world s) mode \<noteq> Deny"
    by (auto simp: authorize_process_exec_def act_bind_eq act_simps judged_mode_def Let_def split: option.splits if_splits)
  obtain loaded w where load: "load_effective_process_exec_policy env (xc_thread_root ctx) (te_exec_policy (xe_tool env)) mode
       (sn_execpolicy_rules (xc_snapshot ctx)) (xc_argv ctx) (ts_world s) = (loaded, w)"
    by fastforce
  with act_withinD [OF load_effective_reads_only load] have w: "w = ts_world s" by simp
  from assms mode load obtain effective where effective: "loaded = Inr effective"
    by (auto simp: authorize_process_exec_def act_bind_eq act_simps judged_mode_def on_world_attempt_def Let_def
        split: if_splits sum.splits policy_load_error.splits)
  have run: "(if lp_decision effective = ExecForbidden then
                    act_return (ExecDenied (ExecPolicyForbidden (lp_matches effective) (lp_justification effective)))
                  else
                    (case exec_requirement (lp_decision effective) (judged_mode env ctx base (ts_world s) mode) of
                       None \<Rightarrow> act_return ExecAllowed
                     | Some requirement \<Rightarrow>
                         act_bind (exec_approval env fresh (lp_policy effective) ctx (params requirement)) (\<lambda>gate.
                         act_return (governance_of_gate gate)))) s = (Inr ExecAllowed, s')"
    using assms mode load effective w
    by (simp add: authorize_process_exec_def act_bind_step act_simps judged_mode_def on_world_attempt_def Let_def
        split: if_splits)
  then have allowed: "lp_decision effective \<noteq> ExecForbidden" by (auto simp: act_simps)
  have gate: "exec_approval env fresh (lp_policy effective) ctx (params requirement) s = (Inr GateApproved, s')"
    if "exec_requirement (lp_decision effective) (judged_mode env ctx base (ts_world s) mode) = Some requirement"
    for requirement
    using run allowed that by (auto simp: act_bind_Inr act_simps governance_of_gate_allowed)
  from load effective w have "load_effective_process_exec_policy env (xc_thread_root ctx) (te_exec_policy (xe_tool env)) mode
       (sn_execpolicy_rules (xc_snapshot ctx)) (xc_argv ctx) (ts_world s) = (Inr effective, ts_world s)" by simp
  from that [OF mode this allowed] gate show thesis by blast
qed

lemma governance_allowed:
  assumes "evaluate_process_exec_governance env fresh ctx base params s = (Inr ExecAllowed, s')"
    and "approval_requirement (params RequirePromptStrict) = RequirePromptStrict"
  shows "may_run env fresh ctx base params s"
proof -
  from assms(1) have boundary: "process_exec_boundary_denial env (ts_world s) (xc_argv ctx) (xc_cwd ctx) (xc_thread_root ctx)
      (sn_sandbox_policy (xc_snapshot ctx)) (sn_sandbox_network_access (xc_snapshot ctx)) = None"
    and authorized: "authorize_process_exec env fresh ctx base params s = (Inr ExecAllowed, s')"
    by (auto simp: evaluate_process_exec_governance_def act_bind_eq act_simps split: option.splits)
  from authorized obtain mode effective where m:
    "catalog_mode (load_modes (xe_tool env) (xc_thread_root ctx) (ts_world s)) (sn_mode_name (xc_snapshot ctx)) = Some mode"
    "judged_mode env ctx base (ts_world s) mode \<noteq> Deny"
    "load_effective_process_exec_policy env (xc_thread_root ctx) (te_exec_policy (xe_tool env)) mode
       (sn_execpolicy_rules (xc_snapshot ctx)) (xc_argv ctx) (ts_world s) = (Inr effective, ts_world s)"
    "lp_decision effective \<noteq> ExecForbidden"
    "\<forall>requirement. exec_requirement (lp_decision effective) (judged_mode env ctx base (ts_world s) mode) = Some requirement
       \<longrightarrow> exec_approval env fresh (lp_policy effective) ctx (params requirement) s = (Inr GateApproved, s')"
    by (rule authorize_allowedE)
  let ?ds = "match_decision ` set (lp_matches effective)"
  have upper: "d \<le> lp_decision effective" if "d \<in> ?ds" for d
    using that strictest_match(2) unfolding judged_matches [OF m(3)] by blast
  have none: "lp_matches effective = [] \<Longrightarrow> lp_decision effective = ExecPrompt"
    unfolding judged_matches [OF m(3)] by (rule strictest_match(1))
  have forbidden: "ExecForbidden \<notin> ?ds"
    using upper [of ExecForbidden] m(4) by (cases "lp_decision effective") (auto simp: less_eq_exec_decision_def)
  have strict: "named_approval ctx (params RequirePromptStrict) (ts_server s)" if "ExecPromptStrict \<in> ?ds"
  proof -
    have "lp_decision effective = ExecPromptStrict"
      using upper [OF that] m(4) by (cases "lp_decision effective") (auto simp: less_eq_exec_decision_def)
    then have "exec_approval env fresh (lp_policy effective) ctx (params RequirePromptStrict) s = (Inr GateApproved, s')"
      using m(5) by (simp add: exec_requirement_def)
    then show ?thesis
      unfolding exec_approval_def on_server_Inr named_approval_def
      using named_gate assms(2) by fastforce
  qed
  have "\<exists>kind u. exec_approval env fresh (lp_policy effective) ctx (params kind) s = (Inr GateApproved, u)"
    if "lp_matches effective = [] \<or> ExecPrompt \<in> ?ds \<or> judged_mode env ctx base (ts_world s) mode = Prompt"
  proof -
    have "exec_requirement (lp_decision effective) (judged_mode env ctx base (ts_world s) mode) \<noteq> None"
      using that none upper [of ExecPrompt] m(4)
      by (cases "lp_decision effective") (auto simp: exec_requirement_def less_eq_exec_decision_def)
    with m(5) show ?thesis by blast
  qed
  with m forbidden strict boundary_open [OF boundary] show ?thesis
    unfolding may_run_def effective_policy_def by (metis fst_conv)
qed

section \<open>Starting\<close>

lemma trim_strict: "trim ''prompt_strict'' = ''prompt_strict''"
  by code_simp

lemma start_params_strict: "approval_requirement (start_approval_params cwd params RequirePromptStrict) = RequirePromptStrict"
  by (cases "sp_timeout_ms params")
    (simp_all add: start_approval_params_def build_process_exec_approval_params_def approval_requirement_def trim_strict)

lemma execve_params_strict: "approval_requirement (execve_approval_params ctx args RequirePromptStrict) = RequirePromptStrict"
  by (simp add: execve_approval_params_def build_process_exec_approval_params_def approval_requirement_def trim_strict)

lemma deny_start_quiet: "act_within untouched (deny_start env ids params tool_params error response)"
  unfolding deny_start_def emit_process_tool_denied_response_def emit_tool_denied_def
  by (intro on_tool_quiet world.parts world.append_within)

lemma refuse_start_quiet: "act_within untouched (refuse_start env ids params snapshot cwd denied)"
  unfolding refuse_start_def by (rule deny_start_quiet)

lemma start_cwd_quiet: "act_within untouched (resolve_start_cwd env params thread_root snapshot)"
  unfolding resolve_start_cwd_def
  by (auto intro!: on_tool_quiet world.on_world_within ro.within_look quiet.within_intros split: option.split)

lemma start_cwd_resolved:
  "resolve_start_cwd env params thread_root snapshot s = (Inr cwd_path, t) \<longleftrightarrow>
   t = s \<and> (case sp_cwd params of
      Some cwd \<Rightarrow> resolve_dir_for_sandbox (te_fs (pv_tool env)) (ts_world (ps_tool s)) thread_root
        (sn_sandbox_policy snapshot) (components cwd) = Inr cwd_path
    | None \<Rightarrow> cwd_path = thread_root)"
  by (auto simp: resolve_start_cwd_def on_tool_Inr on_world_Inr act_simps split: option.split)

lemma govern_startD:
  assumes "govern_start env ids params extra thread_root snapshot cwd_path s = (r, s')" and "\<not> untouched s s'"
  shows "may_run (pv_exec env) (si_approval_id ids) (start_context thread_root snapshot cwd_path params)
    (\<lambda>mode. mp_command (md_permissions mode)) (start_approval_params cwd_path params) (ps_tool s)"
proof -
  from assms obtain governance t where 1: "on_tool (evaluate_process_exec_governance (pv_exec env) (si_approval_id ids)
       (start_context thread_root snapshot cwd_path params) (\<lambda>mode. mp_command (md_permissions mode))
       (start_approval_params cwd_path params)) s = (Inr governance, t)" "\<not> untouched t s'"
     "(case governance of
         ExecAllowed \<Rightarrow> launch_process env ids params extra thread_root snapshot cwd_path
       | ExecNeedsApproval approval_id \<Rightarrow>
           act_return (process_needs_approval_response (pv_exec env) (sp_thread_id params) approval_id)
       | ExecDenied denied \<Rightarrow> refuse_start env ids params snapshot cwd_path denied) t = (r, s')"
    unfolding govern_start_def by (rule quiet.bindE [OF _ on_tool_quiet [OF governance_same]]) blast
  have "governance = ExecAllowed"
    using 1(2,3) by (cases governance) (auto simp: act_simps quiet.R_refl dest: act_withinD [OF refuse_start_quiet])
  with 1(1) show ?thesis
    by (auto simp: on_tool_Inr intro: governance_allowed start_params_strict)
qed

lemma check_start_allowedD:
  assumes "check_start_allowed env ids params extra thread_root snapshot cwd_path s = (r, s')" and "\<not> untouched s s'"
  shows "(\<forall>tools. sn_allowed_tools snapshot = Some tools \<longrightarrow> ''process/start'' \<in> set tools) \<and>
    govern_start env ids params extra thread_root snapshot cwd_path s = (r, s')"
proof -
  from assms obtain refused t where 1: "on_tool (enforce_thread_allowed_tools (pv_tool env) (sp_thread_id params)
       (si_tool_id ids) (sp_turn_id params) ''process/start''
       (Some (build_process_exec_approval_params (sp_argv params)
          (case sp_cwd params of Some cwd \<Rightarrow> cwd | None \<Rightarrow> path_string thread_root) (sp_timeout_ms params) None))
       (sn_allowed_tools snapshot)) s = (Inr refused, t)" "\<not> untouched t s'"
     "(if refused \<noteq> None then
        act_map_error ProcessToolFailed (act_lift (process_allowed_tools_denied_response (pv_exec env)
          (si_tool_id ids) ''process/start'' (sn_allowed_tools snapshot)))
      else govern_start env ids params extra thread_root snapshot cwd_path) t = (r, s')"
    unfolding check_start_allowed_def Let_def
    by (rule quiet.bindE [OF _ on_tool_quiet [OF world.enforce_allowed_within]]) blast
  have "refused = None"
    using 1(2,3) by (auto simp: act_map_error_def act_simps quiet.R_refl split: if_splits prod.splits sum.splits)
  with 1 show ?thesis by (auto simp: on_tool_Inr dest!: allowed_tools_passed)
qed

text \<open>What \<open>handle_process_start\<close> resolves before it asks for permission.\<close>

definition start_resolved ::
  "'w process_env \<Rightarrow> process_start_params \<Rightarrow> 'w process_state \<Rightarrow> path \<Rightarrow> thread_state \<Rightarrow> path \<Rightarrow> 'w tool_state \<Rightarrow> bool" where
  "start_resolved env params s thread_root state cwd_path t \<longleftrightarrow>
     load_thread_root (pv_tool env) (sp_thread_id params) (ps_tool s) = (Inr thread_root, t) \<and>
     handle_state (sp_thread_id params) (ts_server t) = (Inr state, ts_server t) \<and>
     (case sp_cwd params of
        Some cwd \<Rightarrow> resolve_dir_for_sandbox (te_fs (pv_tool env)) (ts_world (ps_tool s)) thread_root
          (st_sandbox_policy state) (components cwd) = Inr cwd_path
      | None \<Rightarrow> cwd_path = thread_root)"

text \<open>
  C3: no process without permission. Unless every gate lets it, starting a process leaves the
  world, the table of processes and their gates as they were: the thread allows the tool, the
  directory lies where the sandbox lets it, the boundary is open, the mode is known and does not
  deny commands, no rule forbids the command, a strict rule is met by an approval the call
  names, and whatever else asks for an approval is granted one.
\<close>

theorem process_start_only_permitted:
  assumes "handle_process_start env ids params s = (r, s')" and "\<not> untouched s s'"
  shows "sp_argv params \<noteq> [] \<and>
    (\<exists>thread_root state cwd_path t. start_resolved env params s thread_root state cwd_path t \<and>
       (\<forall>tools. st_allowed_tools state = Some tools \<longrightarrow> ''process/start'' \<in> set tools) \<and>
       may_run (pv_exec env) (si_approval_id ids)
         (start_context thread_root (load_thread_process_exec_snapshot state) cwd_path params)
         (\<lambda>mode. mp_command (md_permissions mode)) (start_approval_params cwd_path params) t)"
proof -
  let ?snapshot = load_thread_process_exec_snapshot
  have argv: "sp_argv params \<noteq> []"
    and run: "act_bind (on_tool (load_thread_root (pv_tool env) (sp_thread_id params))) (\<lambda>thread_root.
        act_bind (on_tool (on_server (handle_state (sp_thread_id params)))) (\<lambda>state.
        act_bind (resolve_start_cwd env params thread_root (?snapshot state)) (\<lambda>cwd_path.
        check_start_allowed env ids params [] thread_root (?snapshot state) cwd_path))) s = (r, s')"
    using assms
    by (auto simp: handle_process_start_def handle_process_start_inner_def act_simps quiet.R_refl split: if_splits)
  from run obtain thread_root s1 where 1:
    "on_tool (load_thread_root (pv_tool env) (sp_thread_id params)) s = (Inr thread_root, s1)"
    "untouched s s1" "\<not> untouched s1 s'"
    "act_bind (on_tool (on_server (handle_state (sp_thread_id params)))) (\<lambda>state.
        act_bind (resolve_start_cwd env params thread_root (?snapshot state)) (\<lambda>cwd_path.
        check_start_allowed env ids params [] thread_root (?snapshot state) cwd_path)) s1 = (r, s')"
    by (rule quiet.bindE [OF _ on_tool_quiet [OF world.load_thread_root_within] assms(2)]) blast
  from 1(4) obtain state s2 where 2: "on_tool (on_server (handle_state (sp_thread_id params))) s1 = (Inr state, s2)"
    "act_bind (resolve_start_cwd env params thread_root (?snapshot state)) (\<lambda>cwd_path.
        check_start_allowed env ids params [] thread_root (?snapshot state) cwd_path) s2 = (r, s')"
    by (rule quiet.bindE [OF _ on_tool_quiet [OF world.on_server_within [OF safe_handle_state]] 1(3)]) blast
  from 2(1) have state: "handle_state (sp_thread_id params) (ts_server (ps_tool s1)) = (Inr state, ts_server (ps_tool s1))"
    "s2 = s1"
    by (auto simp: on_tool_Inr on_server_Inr dest: handle_state_same)
  from 2(2) [unfolded state(2)] obtain cwd_path where cwd:
    "resolve_start_cwd env params thread_root (?snapshot state) s1 = (Inr cwd_path, s1)"
    "check_start_allowed env ids params [] thread_root (?snapshot state) cwd_path s1 = (r, s')"
    by (rule quiet.bindE [OF _ start_cwd_quiet 1(3)]) (auto simp: start_cwd_resolved)
  from check_start_allowedD [OF cwd(2) 1(3)] govern_startD [OF _ 1(3)] cwd(1) argv 1(1,2) state(1) show ?thesis
    by (fastforce simp: start_resolved_def on_tool_Inr untouched_def load_thread_process_exec_snapshot_def start_cwd_resolved
        split: option.splits)
qed

section \<open>Commands of a watched shell\<close>


lemma first_decision_in: "first_decision i es = Some answer \<Longrightarrow>
    \<exists>e \<in> set es. \<exists>d remember reason. ev_kind e = ApprovalDecided i d remember reason \<and>
      answer = WaitDecided d remember reason"
  by (induction es) (auto split: thread_event_kind.splits if_splits)

lemma read_log_Inr: "read_log tid v = (Inr es, v') \<longleftrightarrow> v' = v \<and> sv_logs v tid = Some es"
  by (auto simp: read_log_def split: option.splits)

lemma wait_loop_sound:
  assumes "wait_loop ctx args rounds since s = (Inr (Some (WaitDecided d remember reason)), s')"
  shows "\<exists>e \<in> set (log_of (ts_server (ps_tool s')) (eg_thread_id ctx)).
    ev_kind e = ApprovalDecided (ew_approval_id args) d remember reason"
  using assms
proof (induction rounds arbitrary: since s)
  case (Cons r rounds)
  define t where "t = s\<lparr>ps_tool := (ps_tool s)\<lparr>ts_server := wr_meanwhile r (ts_server (ps_tool s))\<rparr>\<rparr>"
  from Cons.prems obtain es where t: "sv_logs (ts_server (ps_tool t)) (eg_thread_id ctx) = Some es"
    and step: "(let new = filter (\<lambda>e. since < ev_seq e) es in
        case first_decision (ew_approval_id args) new of
          Some answer \<Rightarrow> act_return (Some answer)
        | None \<Rightarrow> wait_loop ctx args rounds (last_seq since new)) t = (Inr (Some (WaitDecided d remember reason)), s')"
    by (auto simp: act_bind_Inr act_simps on_tool_Inr on_server_Inr read_log_Inr t_def split: if_splits)
  show ?case
  proof (cases "first_decision (ew_approval_id args) (filter (\<lambda>e. since < ev_seq e) es)")
    case None
    with step Cons.IH show ?thesis by (auto simp: Let_def)
  next
    case (Some answer)
    with step have "answer = WaitDecided d remember reason" "s' = t" by (auto simp: Let_def act_simps)
    with first_decision_in [OF Some] t show ?thesis by (auto simp: log_of_def)
  qed
qed (simp add: act_simps)

text \<open>
  The gate makes no decision up. Whatever happens on the server while a wrapper waits, when
  it is answered with a decision, the log of the gate's thread holds that decision for the
  approval that the wrapper named, with its note and reason.
\<close>

theorem execve_wait_sound:
  assumes "handle_execve_gate_wait ctx args rounds s = (Inr (Some (WaitDecided d remember reason)), s')"
  shows "ew_token args = eg_token ctx \<and>
    (\<exists>e \<in> set (log_of (ts_server (ps_tool s')) (eg_thread_id ctx)).
       ev_kind e = ApprovalDecided (ew_approval_id args) d remember reason)"
  using assms wait_loop_sound by (fastforce simp: handle_execve_gate_wait_def act_simps split: if_splits)

section \<open>Killing and interrupting\<close>

definition unsignalled :: "'w process_state \<Rightarrow> 'w process_state \<Rightarrow> bool" where
  "unsignalled s s' \<longleftrightarrow> ts_world (ps_tool s') = ts_world (ps_tool s) \<and> ps_inbox s' = ps_inbox s"

interpretation calm: action_relation unsignalled
  by unfold_locales (auto simp: unsignalled_def)

lemma quiet_calm: "act_within untouched m \<Longrightarrow> act_within unsignalled m"
  by (auto simp: act_within_def untouched_def unsignalled_def)

lemmas on_tool_calm = quiet_calm [OF on_tool_quiet]

lemma update_processes_calm: "act_within unsignalled (update_processes f)"
  by (auto simp: act_within_def update_processes_def unsignalled_def)

lemma read_logs_same: "act_within same_world (read_logs tids)"
  by (induction tids) (auto intro!: world.parts)

lemma process_list_quiet: "act_within untouched (handle_process_list env only)"
  unfolding handle_process_list_def
  by (auto intro!: quiet.within_intros on_tool_quiet read_logs_same)

lemma resolve_process_quiet: "act_within untouched (resolve_process_info env pid)"
  unfolding resolve_process_info_def
  by (auto intro!: quiet.within_intros process_list_quiet split: option.split)

lemma signal_target_calm: "act_within unsignalled (load_process_signal_target env pid)"
  unfolding load_process_signal_target_def
  by (auto intro!: calm.within_intros update_processes_calm quiet_calm [OF resolve_process_quiet] split: option.split)

lemma refuse_process_same: "act_within same_world (refuse_process env req error response)"
  unfolding refuse_process_def emit_process_tool_denied_response_def emit_tool_denied_def
  by (intro world.parts world.append_within)

lemma process_mode_gate_same: "act_within same_world (enforce_process_mode_gate env thread_root req base)"
  unfolding enforce_process_mode_gate_def Let_def
  by (auto intro!: world.parts refuse_process_same split: option.split)

lemma process_gate_same: "act_within same_world (enforce_process_mode_and_approval env fresh thread_root req base)"
  unfolding enforce_process_mode_and_approval_def
  by (auto intro!: world.parts refuse_process_same process_mode_gate_same split: process_mode_gate.split approval_gate.split)

text \<open>What lets a request pass the gate of the process tools.\<close>

definition may_signal ::
  "'w exec_env \<Rightarrow> approval_id \<Rightarrow> path \<Rightarrow> process_request \<Rightarrow> (mode_def \<Rightarrow> mode_decision) \<Rightarrow> 'w tool_state \<Rightarrow> bool" where
  "may_signal env fresh thread_root req base s \<longleftrightarrow>
     (\<exists>mode decision.
        catalog_mode (load_modes (xe_tool env) thread_root (ts_world s)) (pq_mode_name req) = Some mode \<and>
        decision = audit_decision (resolve_mode_and_role_decision_audit (load_modes (xe_tool env) thread_root (ts_world s))
          mode (Some (pq_role_name req)) (pq_action req) base) \<and>
        decision \<noteq> Deny \<and>
        (decision = Prompt \<longrightarrow>
           (\<exists>v. gate_approval_with_deps (te_server (xe_tool env)) (te_lib (xe_tool env)) (te_exec_policy (xe_tool env))
              fresh (pq_thread_id req) (pq_turn_id req) (pq_approval_policy req)
              \<lparr>ar_approval_id = pq_approval_id req, ar_action = pq_action req, ar_params = pq_params req\<rparr> (ts_server s) =
            (Inr GateApproved, v))))"

lemma process_mode_gate_passed:
  "enforce_process_mode_gate env thread_root req base s = (Inr (ProcessModeAllowed audit), t) \<Longrightarrow>
   t = s \<and> (\<exists>mode. catalog_mode (load_modes (xe_tool env) thread_root (ts_world s)) (pq_mode_name req) = Some mode \<and>
     audit = resolve_mode_and_role_decision_audit (load_modes (xe_tool env) thread_root (ts_world s)) mode
       (Some (pq_role_name req)) (pq_action req) base \<and> audit_decision audit \<noteq> Deny)"
  by (auto simp: enforce_process_mode_gate_def act_bind_eq act_simps Let_def split: option.splits if_splits)

lemma process_gate_passed:
  assumes "enforce_process_mode_and_approval env fresh thread_root req base s = (Inr None, t)"
  shows "may_signal env fresh thread_root req base s"
proof -
  from assms obtain audit u where 1: "enforce_process_mode_gate env thread_root req base s = (Inr (ProcessModeAllowed audit), u)"
  proof (cases "enforce_process_mode_gate env thread_root req base s")
    case (Pair answer u)
    with assms that show ?thesis
      by (cases answer; cases "projr answer")
        (auto simp: enforce_process_mode_and_approval_def act_bind_step act_simps)
  qed
  from process_mode_gate_passed [OF 1] obtain mode where m: "u = s"
    "catalog_mode (load_modes (xe_tool env) thread_root (ts_world s)) (pq_mode_name req) = Some mode"
    "audit = resolve_mode_and_role_decision_audit (load_modes (xe_tool env) thread_root (ts_world s)) mode
       (Some (pq_role_name req)) (pq_action req) base" "audit_decision audit \<noteq> Deny" by blast
  let ?gate = "gate_approval_with_deps (te_server (xe_tool env)) (te_lib (xe_tool env)) (te_exec_policy (xe_tool env))
      fresh (pq_thread_id req) (pq_turn_id req) (pq_approval_policy req)
      \<lparr>ar_approval_id = pq_approval_id req, ar_action = pq_action req, ar_params = pq_params req\<rparr> (ts_server s)"
  have "\<exists>v. ?gate = (Inr GateApproved, v)" if "audit_decision audit = Prompt"
  proof (cases ?gate)
    case (Pair answer v)
    with assms that 1 m(1) show ?thesis
      by (cases answer; cases "projr answer")
        (auto simp: enforce_process_mode_and_approval_def act_bind_step on_server_def act_bind_def act_simps
          split: prod.splits sum.splits)
  qed
  with m show ?thesis unfolding may_signal_def by blast
qed

lemma signal_target_loaded:
  assumes "load_process_signal_target env pid s = (Inr target, t)"
  shows "(case target of
      ManagedTarget info \<Rightarrow> t = s \<and> map_of (ps_processes s) pid = Some info
    | ExternalTarget info \<Rightarrow> map_of (ps_processes s) pid = None \<and> pi_status info = ProcessIsRunning \<and>
        still_runs env (ts_world (ps_tool s)) info)"
  using assms by (auto simp: load_process_signal_target_def act_bind_Inr act_simps split: option.splits if_splits)

lemma send_signalD:
  assumes "send_process_signal pid cmd s = (r, s')" and "\<not> untouched s s'"
  shows "\<exists>info. map_of (ps_processes s) pid = Some info \<and> pi_status info = ProcessIsRunning"
  using assms
  by (auto simp: send_process_signal_def act_bind_eq act_simps push_command_def quiet.R_refl split: option.splits if_splits)

lemma proc_append_quiet: "act_within untouched (proc_append env tid kind)"
  unfolding proc_append_def by (intro on_tool_quiet world.append_within)

lemma perform_signalD:
  assumes "perform_signal env tool_id params action cmd (ManagedTarget info) s = (r, s')" and "\<not> untouched s s'"
  shows "\<exists>i. map_of (ps_processes s) (pi_process_id info) = Some i \<and> pi_status i = ProcessIsRunning"
proof -
  let ?finish = "\<lambda>outcome. case outcome of
        Inr _ \<Rightarrow>
          act_bind (proc_append env (pi_thread_id info) (ToolCompleted tool_id ToolStatusCompleted None None
              (Some (signal_response env (sg_process_id params) True)))) (\<lambda>_.
          act_return (signal_response env (sg_process_id params) True))
      | Inl err \<Rightarrow>
          act_bind (proc_append env (pi_thread_id info) (ToolCompleted tool_id ToolStatusFailed None
              (Some (pv_show_error env err)) (Some (signal_response env (sg_process_id params) False)))) (\<lambda>_.
          act_fail err)"
  have finish: "act_within untouched (?finish outcome)" for outcome
    by (auto intro!: quiet.within_intros proc_append_quiet split: sum.split)
  from assms obtain t where t: "untouched s t" "\<not> untouched t s'"
    "act_bind (act_attempt (send_process_signal (pi_process_id info) cmd)) ?finish t = (r, s')"
    unfolding perform_signal_def deliver_signal_def signal_target.case target_info.simps Let_def
    by (rule quiet.bindE [OF _ proc_append_quiet]) blast
  from t(3) obtain outcome u where u: "act_attempt (send_process_signal (pi_process_id info) cmd) t = (Inr outcome, u)"
    "?finish outcome u = (r, s')"
    unfolding act_bind_eq by (auto simp: act_attempt_eq)
  with t(2) act_withinD [OF finish u(2)] have "\<not> untouched t u" by (metis quiet.R_trans)
  with u(1) obtain a where "send_process_signal (pi_process_id info) cmd t = (a, u)"
    by (auto simp: act_attempt_eq)
  from send_signalD [OF this \<open>\<not> untouched t u\<close>] t(1) show ?thesis by (simp add: untouched_def)
qed

lemma govern_signalD:
  assumes "govern_signal env tool_id fresh params action cmd target thread_root state s = (r, s')" and "\<not> untouched s s'"
  obtains t where "untouched s t" "perform_signal env tool_id params action cmd target t = (r, s')" "\<not> untouched t s'"
    "may_signal (pv_exec env) fresh thread_root
       (signal_gate_request env tool_id params action (pi_thread_id (target_info target)) state)
       (\<lambda>mode. proc_kill (mp_process (md_permissions mode))) (ps_tool s)"
proof -
  from assms obtain answer t where 1: "on_tool (enforce_process_mode_and_approval (pv_exec env) fresh thread_root
         (signal_gate_request env tool_id params action (pi_thread_id (target_info target)) state)
         (\<lambda>mode. proc_kill (mp_process (md_permissions mode)))) s = (Inr answer, t)" "untouched s t" "\<not> untouched t s'"
     "(case answer of Some result \<Rightarrow> act_return result
       | None \<Rightarrow> perform_signal env tool_id params action cmd target) t = (r, s')"
    unfolding govern_signal_def by (rule quiet.bindE [OF _ on_tool_quiet [OF process_gate_same]]) blast
  have "answer = None" using 1(3,4) by (cases answer) (auto simp: act_simps quiet.R_refl)
  with 1 that show thesis by (auto simp: on_tool_Inr intro: process_gate_passed)
qed

lemma check_signal_allowedD:
  assumes "check_signal_allowed env tool_id fresh params action cmd target thread_root state s = (r, s')" and "\<not> untouched s s'"
  shows "(\<forall>tools. st_allowed_tools state = Some tools \<longrightarrow> action \<in> set tools) \<and>
    govern_signal env tool_id fresh params action cmd target thread_root state s = (r, s')"
proof -
  from assms obtain refused t where 1: "on_tool (enforce_thread_allowed_tools (pv_tool env)
       (pi_thread_id (target_info target)) tool_id (sg_turn_id params) action (Some (signal_request env params))
       (st_allowed_tools state)) s = (Inr refused, t)" "\<not> untouched t s'"
     "(if refused \<noteq> None then
        act_map_error ProcessToolFailed (act_lift (process_allowed_tools_denied_response (pv_exec env) tool_id action
          (st_allowed_tools state)))
      else govern_signal env tool_id fresh params action cmd target thread_root state) t = (r, s')"
    unfolding check_signal_allowed_def
    by (rule quiet.bindE [OF _ on_tool_quiet [OF world.enforce_allowed_within]]) blast
  have "refused = None"
    using 1(2,3) by (auto simp: act_map_error_def act_simps quiet.R_refl split: if_splits prod.splits sum.splits)
  with 1 show ?thesis by (auto simp: on_tool_Inr dest!: allowed_tools_passed)
qed

text \<open>
  C7: no signal without permission. Killing or interrupting a process reaches it, through its
  actor or through the operating system, only when the process is known to run, the thread it
  belongs to allows the tool, and that thread's mode and role allow it or ask for an approval
  that the gate grants. The caller's own thread plays no part.
\<close>

theorem process_signal_only_permitted:
  assumes "handle_process_signal env tool_id fresh params action command s = (r, s')"
    and "\<not> unsignalled s s'"
  shows "\<exists>target u tid thread_root state t.
    load_process_signal_target env (sg_process_id params) s = (Inr target, u) \<and>
    tid = pi_thread_id (target_info target) \<and>
    (case target of
       ManagedTarget info \<Rightarrow> map_of (ps_processes s) (sg_process_id params) = Some info \<and>
         (\<exists>i. map_of (ps_processes s) (pi_process_id info) = Some i \<and> pi_status i = ProcessIsRunning)
     | ExternalTarget info \<Rightarrow> pi_status info = ProcessIsRunning \<and> still_runs env (ts_world (ps_tool s)) info) \<and>
    load_thread_root (pv_tool env) tid (ps_tool u) = (Inr thread_root, t) \<and>
    handle_state tid (ts_server t) = (Inr state, ts_server t) \<and>
    (\<forall>tools. st_allowed_tools state = Some tools \<longrightarrow> action \<in> set tools) \<and>
    may_signal (pv_exec env) fresh thread_root (signal_gate_request env tool_id params action tid state)
      (\<lambda>mode. proc_kill (mp_process (md_permissions mode))) t"
proof -
  from assms(1) [unfolded handle_process_signal_def] obtain target u where 1:
    "load_process_signal_target env (sg_process_id params) s = (Inr target, u)" "\<not> unsignalled u s'"
    "act_bind (on_tool (load_thread_root (pv_tool env) (pi_thread_id (target_info target)))) (\<lambda>thread_root.
     act_bind (on_tool (on_server (handle_state (pi_thread_id (target_info target))))) (\<lambda>state.
     check_signal_allowed env tool_id fresh params action (command (sg_reason params)) target thread_root state)) u = (r, s')"
    by (rule calm.bindE [OF _ signal_target_calm assms(2)]) blast
  let ?tid = "pi_thread_id (target_info target)"
  from 1(2) have n: "\<not> untouched u s'" by (auto simp: untouched_def unsignalled_def)
  from 1(3) obtain thread_root s1 where 2: "on_tool (load_thread_root (pv_tool env) ?tid) u = (Inr thread_root, s1)"
    "untouched u s1" "\<not> untouched s1 s'"
    "act_bind (on_tool (on_server (handle_state ?tid))) (\<lambda>state.
     check_signal_allowed env tool_id fresh params action (command (sg_reason params)) target thread_root state) s1 = (r, s')"
    by (rule quiet.bindE [OF _ on_tool_quiet [OF world.load_thread_root_within] n]) blast
  from 2(4) obtain state s2 where 3: "on_tool (on_server (handle_state ?tid)) s1 = (Inr state, s2)"
    "check_signal_allowed env tool_id fresh params action (command (sg_reason params)) target thread_root state s2 = (r, s')"
    by (rule quiet.bindE [OF _ on_tool_quiet [OF world.on_server_within [OF safe_handle_state]] 2(3)]) blast
  from 3(1) have state: "handle_state ?tid (ts_server (ps_tool s1)) = (Inr state, ts_server (ps_tool s1))" "s2 = s1"
    by (auto simp: on_tool_Inr on_server_Inr dest: handle_state_same)
  note check = check_signal_allowedD [OF 3(2) [unfolded state(2)] 2(3)]
  obtain t where t: "untouched s1 t" "perform_signal env tool_id params action (command (sg_reason params)) target t = (r, s')"
    "\<not> untouched t s'"
    "may_signal (pv_exec env) fresh thread_root (signal_gate_request env tool_id params action ?tid state)
       (\<lambda>mode. proc_kill (mp_process (md_permissions mode))) (ps_tool s1)"
    by (rule govern_signalD [OF conjunct2 [OF check] 2(3)])
  have target: "case target of
       ManagedTarget info \<Rightarrow> map_of (ps_processes s) (sg_process_id params) = Some info \<and>
         (\<exists>i. map_of (ps_processes s) (pi_process_id info) = Some i \<and> pi_status i = ProcessIsRunning)
     | ExternalTarget info \<Rightarrow> pi_status info = ProcessIsRunning \<and> still_runs env (ts_world (ps_tool s)) info"
  proof (cases target)
    case (ManagedTarget info)
    with signal_target_loaded [OF 1(1)] have "u = s" "map_of (ps_processes s) (sg_process_id params) = Some info" by auto
    moreover from this(1) t(1) 2(2) have "ps_processes t = ps_processes s" by (simp add: untouched_def)
    ultimately show ?thesis
      using perform_signalD [OF t(2) [unfolded ManagedTarget] t(3)] ManagedTarget by simp
  next
    case (ExternalTarget info)
    with signal_target_loaded [OF 1(1)] show ?thesis by simp
  qed
  from 2(1) have root: "load_thread_root (pv_tool env) ?tid (ps_tool u) = (Inr thread_root, ps_tool s1)"
    by (auto simp: on_tool_Inr)
  show ?thesis
    by (rule exI [of _ target], rule exI [of _ u], rule exI [of _ ?tid], rule exI [of _ thread_root],
        rule exI [of _ state], rule exI [of _ "ps_tool s1"], rule conjI [OF 1(1)], rule conjI [OF refl],
        rule conjI [OF target], rule conjI [OF root], rule conjI [OF state(1)], rule conjI [OF conjunct1 [OF check] t(4)])
qed

end
