(* ===== verification/ProcessActor.thy ===== *)
theory ProcessActor
  imports ProcessRuns
begin

text \<open>
  The actor of a process (\<open>process_control/actor.rs\<close>): it receives the commands for the process,
  forwards them to the operating system, records what was asked and how the process ended, and
  takes the entry and the gate away. The streams of output and the connections to MCP servers
  that go through the process are not modelled.
\<close>

section \<open>The actor\<close>

record actor =
  ac_process_id :: process_id
  ac_thread_id :: thread_id
  ac_info :: process_info
  ac_interrupt_reason :: "string option"
  ac_interrupt_logged :: bool
  ac_kill_reason :: "string option"
  ac_kill_logged :: bool
  ac_channel_closed :: bool

text \<open>Signals to the group of the process, and its termination, which tells no result.\<close>

record 'w actor_env = "'w process_env" +
  av_interrupt :: "process_info \<Rightarrow> ('w, string, unit) state_action"
  av_terminate :: "process_info \<Rightarrow> 'w \<Rightarrow> 'w"

definition new_actor :: "process_info \<Rightarrow> actor" where
  "new_actor info =
     \<lparr>ac_process_id = pi_process_id info, ac_thread_id = pi_thread_id info, ac_info = info,
      ac_interrupt_reason = None, ac_interrupt_logged = False, ac_kill_reason = None, ac_kill_logged = False,
      ac_channel_closed = False\<rparr>"

definition initiate_process_tree_termination :: "'w actor_env \<Rightarrow> actor \<Rightarrow> ('w, unit) process_action" where
  "initiate_process_tree_termination env a s =
     (Inr (), s\<lparr>ps_tool := (ps_tool s)\<lparr>ts_world := av_terminate env (ac_info a) (ts_world (ps_tool s))\<rparr>\<rparr>)"

text \<open>An event whose recording may fail.\<close>

definition append_or_warn :: "'w actor_env \<Rightarrow> actor \<Rightarrow> thread_event_kind \<Rightarrow> ('w, process_error + thread_event) process_action" where
  "append_or_warn env a kind = act_attempt (proc_append (process_env.truncate env) (ac_thread_id a) kind)"

definition opt_first :: "'a option \<Rightarrow> 'a option \<Rightarrow> 'a option" where
  "opt_first a b = (case a of Some _ \<Rightarrow> a | None \<Rightarrow> b)"

fun actor_command :: "'w actor_env \<Rightarrow> actor \<Rightarrow> process_command \<Rightarrow> ('w, actor) process_action" where
  "actor_command env a (InterruptCommand reason) =
     (let a1 = a\<lparr>ac_interrupt_reason := opt_first (ac_interrupt_reason a) reason\<rparr> in
      act_bind
        (if ac_interrupt_logged a then act_return ()
         else act_bind (append_or_warn env a (ProcessInterruptRequested (ac_process_id a) (ac_interrupt_reason a1)))
                (\<lambda>_. act_return ())) (\<lambda>_.
      act_bind (act_attempt (on_os SignalFailed (av_interrupt env (ac_info a)))) (\<lambda>sent.
      act_bind (if isl sent then initiate_process_tree_termination env a else act_return ()) (\<lambda>_.
      act_return (a1\<lparr>ac_interrupt_logged := True\<rparr>)))))"
| "actor_command env a (KillCommand reason) =
     (let a1 = a\<lparr>ac_kill_reason := opt_first (ac_kill_reason a) reason\<rparr> in
      act_bind
        (if ac_kill_logged a then act_return ()
         else act_bind (append_or_warn env a (ProcessKillRequested (ac_process_id a) (ac_kill_reason a1)))
                (\<lambda>_. act_return ())) (\<lambda>_.
      act_bind (initiate_process_tree_termination env a) (\<lambda>_.
      act_return (a1\<lparr>ac_kill_logged := True\<rparr>))))"

definition pop_command :: "process_id \<Rightarrow> process_command list \<Rightarrow> ('w, unit) process_action" where
  "pop_command p cs s = (Inr (), s\<lparr>ps_inbox := (ps_inbox s)(p := cs)\<rparr>)"

text \<open>
  The branch of \<open>select!\<close> that receives. The channel is closed once no entry of the table and no
  timer of the call holds a sender and every command sent has been received; \<open>None\<close> means that
  there is nothing to receive yet.
\<close>

definition actor_receive :: "'w actor_env \<Rightarrow> bool \<Rightarrow> actor \<Rightarrow> ('w, actor option) process_action" where
  "actor_receive env timer_holds_sender a =
     (if ac_channel_closed a then act_return None
      else
        act_bind (act_look (\<lambda>s. Inr (ps_inbox s (ac_process_id a), map_of (ps_processes s) (ac_process_id a)))) (\<lambda>(queue, entry).
        case queue of
          cmd # rest \<Rightarrow>
            act_bind (pop_command (ac_process_id a) rest) (\<lambda>_.
            act_bind (actor_command env a cmd) (\<lambda>a. act_return (Some a)))
        | [] \<Rightarrow>
            if entry \<noteq> None \<or> timer_holds_sender then act_return None
            else
              act_bind (initiate_process_tree_termination env a) (\<lambda>_.
              act_return (Some (a\<lparr>ac_channel_closed := True,
                ac_kill_reason := opt_first (ac_kill_reason a) (Some ''process control dropped'')\<rparr>)))))"

section \<open>The end of a process\<close>

definition process_command_label :: "string list \<Rightarrow> string option" where
  "process_command_label argv =
     (case argv of
        [] \<Rightarrow> None
      | first_raw # rest \<Rightarrow>
          let first = trim first_raw in
          if first = [] then None
          else case rest of
            second # _ \<Rightarrow>
              if to_ascii_lowercase first = ''cargo'' \<and> trim second \<noteq> [] then Some (first @ '' '' @ trim second)
              else Some first
          | [] \<Rightarrow> Some first)"

definition second_is_test :: "string list \<Rightarrow> bool" where
  "second_is_test argv = (case tl argv of v # _ \<Rightarrow> to_ascii_lowercase (trim v) = ''test'' | [] \<Rightarrow> False)"

definition looks_like_test_command :: "string list \<Rightarrow> bool" where
  "looks_like_test_command argv =
     (case argv of
        [] \<Rightarrow> False
      | first_raw # _ \<Rightarrow>
          let first = to_ascii_lowercase (trim first_raw) in
          if first = [] then False
          else if first \<in> {''cargo'', ''go'', ''npm'', ''pnpm'', ''yarn'', ''bun''} then second_is_test argv
          else first \<in> {''pytest'', ''vitest'', ''jest'', ''ctest'', ''nose2'', ''nosetests''})"

definition finalize_process :: "actor \<Rightarrow> ('w, unit) process_action" where
  "finalize_process a =
     act_bind (shutdown_gate (ac_process_id a)) (\<lambda>_.
     update_processes (AList.delete (ac_process_id a)))"

text \<open>The marker for a test command, set when it failed and cleared when it did not.\<close>

definition test_marker :: "actor \<Rightarrow> i32 option \<Rightarrow> thread_event_kind option" where
  "test_marker a exit_code =
     (let info = ac_info a in
      if \<not> looks_like_test_command (pi_argv info) then None
      else if (case exit_code of Some c \<Rightarrow> c \<noteq> 0 | None \<Rightarrow> False) then
        Some (AttentionMarkerSet
          \<lparr>atm_marker = TestFailed, atm_turn_id = pi_turn_id info, atm_artifact_id = None, atm_artifact_type = None,
           atm_process_id = Some (ac_process_id a), atm_exit_code = exit_code,
           atm_command = process_command_label (pi_argv info)\<rparr>)
      else Some (AttentionMarkerCleared TestFailed (pi_turn_id info) (Some ''test command succeeded'')))"

definition exit_reason :: "actor \<Rightarrow> string option" where
  "exit_reason a = opt_first (ac_kill_reason a) (ac_interrupt_reason a)"

definition record_exit :: "'w actor_env \<Rightarrow> actor \<Rightarrow> i32 option \<Rightarrow> ('w, unit) process_action" where
  "record_exit env a exit_code =
     act_bind (append_or_warn env a (ProcessExited (ac_process_id a) exit_code (exit_reason a))) (\<lambda>_.
     act_bind (case test_marker a exit_code of
         Some kind \<Rightarrow> act_bind (append_or_warn env a kind) (\<lambda>_. act_return ())
       | None \<Rightarrow> act_return ()) (\<lambda>_.
     finalize_process a))"

text \<open>What \<open>try_wait\<close> finds.\<close>

datatype exit_probe = ChildRuns | ChildExited "i32 option" | ProbeFailed

text \<open>
  One pass of the loop: a command or the passing of 200 ms, then a look at the child, which a
  pass that finds the channel closed leaves out. The answer is the actor, or \<open>None\<close> when it ends.
\<close>

definition actor_probe :: "'w actor_env \<Rightarrow> exit_probe \<Rightarrow> actor \<Rightarrow> ('w, actor option) process_action" where
  "actor_probe env probe a =
     (case probe of
        ChildRuns \<Rightarrow> act_return (Some a)
      | ChildExited exit_code \<Rightarrow> act_bind (record_exit env a exit_code) (\<lambda>_. act_return None)
      | ProbeFailed \<Rightarrow> act_bind (finalize_process a) (\<lambda>_. act_return None))"

record actor_round =
  ard_receives :: bool
  ard_timer_holds_sender :: bool
  ard_probe :: exit_probe

definition actor_pass :: "'w actor_env \<Rightarrow> actor_round \<Rightarrow> actor \<Rightarrow> ('w, actor option) process_action" where
  "actor_pass env r a =
     act_bind (if ard_receives r then actor_receive env (ard_timer_holds_sender r) a else act_return None) (\<lambda>received.
     case received of
       Some b \<Rightarrow>
         if ac_channel_closed b then act_return (Some b) else actor_probe env (ard_probe r) b
     | None \<Rightarrow> actor_probe env (ard_probe r) a)"

text \<open>
  The passes one after another; what the rest of the server does between them is a change of
  the state.
\<close>

fun run_process_actor ::
  "'w actor_env \<Rightarrow> (('w process_state \<Rightarrow> 'w process_state) \<times> actor_round) list \<Rightarrow> actor \<Rightarrow> ('w, actor option) process_action" where
  "run_process_actor env [] a = act_return (Some a)"
| "run_process_actor env ((meanwhile, r) # rounds) a =
     act_bind (\<lambda>s. (Inr (), meanwhile s)) (\<lambda>_.
     act_bind (actor_pass env r a) (\<lambda>next.
     case next of None \<Rightarrow> act_return None | Some b \<Rightarrow> run_process_actor env rounds b))"

section \<open>What is left of a process\<close>

lemma finalize_process_eq:
  "finalize_process a s = (Inr (), s\<lparr>ps_gates := ps_gates s - {ac_process_id a},
     ps_processes := AList.delete (ac_process_id a) (ps_processes s)\<rparr>)"
  by (simp add: finalize_process_def act_bind_def shutdown_gate_def update_processes_def)

lemma actor_probe_None:
  assumes "actor_probe env probe a s = (Inr None, s')"
  obtains t where "finalize_process a t = (Inr (), s')"
  using assms by (cases probe) (auto simp: actor_probe_def record_exit_def act_bind_Inr act_simps)

lemma actor_command_same: "actor_command env a cmd s = (Inr b, s') \<Longrightarrow>
    ac_process_id b = ac_process_id a \<and> ac_thread_id b = ac_thread_id a \<and> ac_info b = ac_info a \<and>
    ac_channel_closed b = ac_channel_closed a"
  by (cases cmd) (auto simp: act_bind_Inr act_simps Let_def)

lemma actor_receive_same: "actor_receive env h a s = (Inr (Some b), s') \<Longrightarrow>
    ac_process_id b = ac_process_id a \<and> ac_thread_id b = ac_thread_id a \<and> ac_info b = ac_info a"
  by (auto simp: actor_receive_def act_bind_Inr act_simps dest: actor_command_same split: list.splits if_splits)

lemma actor_pass_cases:
  assumes "actor_pass env r a s = (Inr x, s')"
  obtains b t where "ac_process_id b = ac_process_id a" "actor_probe env (ard_probe r) b t = (Inr x, s')"
  | b where "x = Some b" "ac_process_id b = ac_process_id a"
proof -
  from assms obtain received t where 1:
    "(if ard_receives r then actor_receive env (ard_timer_holds_sender r) a else act_return None) s = (Inr received, t)"
    "(case received of
       Some b \<Rightarrow> if ac_channel_closed b then act_return (Some b) else actor_probe env (ard_probe r) b
     | None \<Rightarrow> actor_probe env (ard_probe r) a) t = (Inr x, s')"
    unfolding actor_pass_def act_bind_Inr by blast
  show thesis
  proof (cases received)
    case None
    with 1(2) show thesis by (intro that(1) [OF refl]) simp
  next
    case (Some b)
    with 1(1) have "ac_process_id b = ac_process_id a"
      by (auto simp: act_simps dest: actor_receive_same split: if_splits)
    with 1(2) Some that show thesis by (auto simp: act_simps split: if_splits)
  qed
qed

lemma actor_probe_Some: "actor_probe env probe a s = (Inr (Some b), s') \<Longrightarrow> b = a"
  by (cases probe) (auto simp: actor_probe_def act_bind_Inr act_simps)

text \<open>
  C18: a process that has ended leaves nothing behind. However its end came about, once its
  actor is done, no entry answers for the process and no gate server of it runs.
\<close>

theorem finished_process_released:
  assumes "run_process_actor env rounds a s = (Inr None, s')"
  shows "map_of (ps_processes s') (ac_process_id a) = None \<and> ac_process_id a \<notin> ps_gates s'"
  using assms
proof (induction rounds arbitrary: a s)
  case (Cons round rounds)
  obtain meanwhile r where round: "round = (meanwhile, r)" by (cases round)
  from Cons.prems obtain x t where pass: "actor_pass env r a (meanwhile s) = (Inr x, t)"
    and rest: "(case x of None \<Rightarrow> act_return None | Some b \<Rightarrow> run_process_actor env rounds b) t = (Inr None, s')"
    unfolding round run_process_actor.simps act_bind_Inr by auto
  have gone: ?case if "finalize_process b u = (Inr (), s')" "ac_process_id b = ac_process_id a" for b u
    using that by (auto simp: finalize_process_eq AList.delete_conv')
  from pass show ?case
  proof (cases rule: actor_pass_cases)
    case (1 b u)
    show ?thesis
    proof (cases x)
      case None
      with rest 1 show ?thesis by (auto simp: act_simps elim!: actor_probe_None intro!: gone)
    next
      case (Some c)
      with 1(2) have "c = b" by (auto dest: actor_probe_Some)
      with Cons.IH [of b t] 1(1) rest Some show ?thesis by simp
    qed
  next
    case (2 b)
    with rest Cons.IH [of b t] show ?thesis by simp
  qed
qed (simp add: act_simps)

section \<open>What the actor records\<close>

datatype actor_record = KillRecord | InterruptRecord | ExitRecord

fun recorded :: "actor_record \<Rightarrow> process_id \<Rightarrow> thread_event_kind \<Rightarrow> bool" where
  "recorded KillRecord pid (ProcessKillRequested p _) \<longleftrightarrow> p = pid"
| "recorded InterruptRecord pid (ProcessInterruptRequested p _) \<longleftrightarrow> p = pid"
| "recorded ExitRecord pid (ProcessExited p _ _) \<longleftrightarrow> p = pid"
| "recorded _ pid _ \<longleftrightarrow> False"

text \<open>How many records of a process the log of a thread holds, and how many the actor still owes.\<close>

definition tally :: "actor_record \<Rightarrow> process_id \<Rightarrow> thread_id \<Rightarrow> 'w process_state \<Rightarrow> nat" where
  "tally k pid tid s = length (filter (recorded k pid) (core (log_of (ts_server (ps_tool s)) tid)))"

fun due :: "actor_record \<Rightarrow> actor \<Rightarrow> nat" where
  "due KillRecord a = (if ac_kill_logged a then 0 else 1)"
| "due InterruptRecord a = (if ac_interrupt_logged a then 0 else 1)"
| "due ExitRecord a = 1"

lemma recorded_redact [simp]: "recorded k pid (redact_thread_event_kind ra kind) = recorded k pid kind"
  by (cases kind; cases k) auto

lemma marker_not_recorded: "is_marker kind \<Longrightarrow> \<not> recorded k pid kind"
  by (cases kind; cases k) auto

lemma tally_same: "ts_server (ps_tool s') = ts_server (ps_tool s) \<Longrightarrow> tally k pid tid s' = tally k pid tid s"
  by (simp add: tally_def)

lemma append_or_warn_tally:
  assumes "append_or_warn env a kind s = (r, s')"
  shows "tally k pid tid s' \<le> tally k pid tid s + (if recorded k pid kind then 1 else 0)"
proof -
  let ?env = "te_server (pv_tool (process_env.truncate env))"
  from assms obtain x v where v: "rt_append_event ?env (ac_thread_id a) kind (ts_server (ps_tool s)) = (x, v)"
    and s': "ts_server (ps_tool s') = v"
    by (auto simp: append_or_warn_def act_attempt_eq proc_append_def on_tool_def tool_append_def on_server_def
        split: prod.splits sum.splits)
  show ?thesis
  proof (cases x)
    case (Inl err)
    with v s' show ?thesis by (auto simp: tally_def dest: rt_append_event_Inl)
  next
    case (Inr e)
    note app = rt_append_event_Inr [OF v [unfolded Inr]]
    show ?thesis
    proof (cases "tid = ac_thread_id a")
      case True
      have "length (filter (recorded k pid) (core [e])) \<le> (if recorded k pid kind then 1 else 0)"
        unfolding app(2) by (simp add: core_def next_event_def)
      with True app(3) s' show ?thesis by (simp add: tally_def)
    next
      case False
      with app(4) s' show ?thesis by (simp add: tally_def log_of_def)
    qed
  qed
qed

lemma on_os_server: "on_os wrap m s = (r, s') \<Longrightarrow> ts_server (ps_tool s') = ts_server (ps_tool s)"
  by (auto simp: on_os_def split: prod.splits)

lemma terminate_server: "initiate_process_tree_termination env a s = (r, s') \<Longrightarrow>
    ts_server (ps_tool s') = ts_server (ps_tool s)"
  by (auto simp: initiate_process_tree_termination_def)

lemma actor_command_tally:
  assumes "actor_command env a cmd s = (Inr b, s')"
  shows "tally k (ac_process_id a) tid s' + due k b \<le> tally k (ac_process_id a) tid s + due k a"
proof (cases cmd)
  case (InterruptCommand reason)
  let ?kind = "ProcessInterruptRequested (ac_process_id a) (opt_first (ac_interrupt_reason a) reason)"
  from assms obtain t where t: "(if ac_interrupt_logged a then t = s else \<exists>x. append_or_warn env a ?kind s = (Inr x, t))"
    and s': "ts_server (ps_tool s') = ts_server (ps_tool t)"
    and b: "ac_interrupt_logged b" "ac_kill_logged b = ac_kill_logged a"
    unfolding InterruptCommand actor_command.simps Let_def
    by (auto simp: act_bind_Inr act_simps act_attempt_eq split: if_splits sum.splits
        dest!: on_os_server terminate_server)
  from t have "tally k (ac_process_id a) tid t \<le> tally k (ac_process_id a) tid s +
      (if ac_interrupt_logged a \<or> k \<noteq> InterruptRecord then 0 else 1)"
    using append_or_warn_tally [of env a ?kind s _ t k "ac_process_id a" tid] by (cases k) (auto split: if_splits)
  with b tally_same [OF s'] show ?thesis by (cases k) (auto split: if_splits)
next
  case (KillCommand reason)
  let ?kind = "ProcessKillRequested (ac_process_id a) (opt_first (ac_kill_reason a) reason)"
  from assms obtain t where t: "(if ac_kill_logged a then t = s else \<exists>x. append_or_warn env a ?kind s = (Inr x, t))"
    and s': "ts_server (ps_tool s') = ts_server (ps_tool t)"
    and b: "ac_kill_logged b" "ac_interrupt_logged b = ac_interrupt_logged a"
    unfolding KillCommand actor_command.simps Let_def
    by (auto simp: act_bind_Inr act_simps split: if_splits dest!: terminate_server)
  from t have "tally k (ac_process_id a) tid t \<le> tally k (ac_process_id a) tid s +
      (if ac_kill_logged a \<or> k \<noteq> KillRecord then 0 else 1)"
    using append_or_warn_tally [of env a ?kind s _ t k "ac_process_id a" tid] by (cases k) (auto split: if_splits)
  with b tally_same [OF s'] show ?thesis by (cases k) (auto split: if_splits)
qed

lemma actor_receive_tally:
  assumes "actor_receive env h a s = (Inr x, s')"
  shows "tally k (ac_process_id a) tid s' + (case x of Some b \<Rightarrow> due k b | None \<Rightarrow> due k a) \<le>
    tally k (ac_process_id a) tid s + due k a"
proof (cases x)
  case None
  with assms have "s' = s"
    by (auto simp: actor_receive_def act_bind_Inr act_simps split: list.splits if_splits)
  with None show ?thesis by simp
next
  case (Some b)
  with assms consider cmd rest where "actor_command env a cmd (s\<lparr>ps_inbox := (ps_inbox s)(ac_process_id a := rest)\<rparr>) = (Inr b, s')"
    | "b = a\<lparr>ac_channel_closed := True,
        ac_kill_reason := opt_first (ac_kill_reason a) (Some ''process control dropped'')\<rparr>"
      "ts_server (ps_tool s') = ts_server (ps_tool s)"
    by (auto simp: actor_receive_def act_bind_Inr act_simps pop_command_def dest!: terminate_server
        split: list.splits if_splits)
  then show ?thesis
  proof cases
    case (1 cmd rest)
    have "tally k (ac_process_id a) tid (s\<lparr>ps_inbox := (ps_inbox s)(ac_process_id a := rest)\<rparr>) = tally k (ac_process_id a) tid s"
      by (rule tally_same) simp
    with actor_command_tally [OF 1, of k tid] Some show ?thesis by simp
  next
    case 2
    with Some tally_same [OF 2(2), of k "ac_process_id a" tid] show ?thesis by (cases k) auto
  qed
qed

lemma finalize_server: "finalize_process a s = (r, s') \<Longrightarrow> ts_server (ps_tool s') = ts_server (ps_tool s)"
  by (auto simp: finalize_process_eq)

lemma test_marker_is_marker: "test_marker a exit_code = Some kind \<Longrightarrow> is_marker kind"
  by (auto simp: test_marker_def Let_def split: if_splits)

lemma record_exit_tally:
  assumes "record_exit env a exit_code s = (Inr u, s')"
  shows "tally k pid tid s' \<le> tally k pid tid s + (if k = ExitRecord then 1 else 0)"
proof -
  let ?exit = "ProcessExited (ac_process_id a) exit_code (exit_reason a)"
  from assms obtain x t v where t: "append_or_warn env a ?exit s = (Inr x, t)"
    and v: "(case test_marker a exit_code of
         Some kind \<Rightarrow> act_bind (append_or_warn env a kind) (\<lambda>_. act_return ())
       | None \<Rightarrow> act_return ()) t = (Inr (), v)"
    and s': "ts_server (ps_tool s') = ts_server (ps_tool v)"
    unfolding record_exit_def by (auto simp: act_bind_Inr dest!: finalize_server)
  have "tally k pid tid t \<le> tally k pid tid s + (if k = ExitRecord then 1 else 0)"
    using append_or_warn_tally [OF t, of k pid tid] by (cases k) (auto split: if_splits)
  moreover have "tally k pid tid v \<le> tally k pid tid t"
  proof (cases "test_marker a exit_code")
    case None
    with v show ?thesis by (simp add: act_simps)
  next
    case (Some kind)
    with v obtain y where "append_or_warn env a kind t = (Inr y, v)" by (auto simp: act_bind_Inr act_simps)
    from append_or_warn_tally [OF this, of k pid tid] marker_not_recorded [OF test_marker_is_marker [OF Some], of k pid]
    show ?thesis by simp
  qed
  ultimately show ?thesis using tally_same [OF s', of k pid tid] by simp
qed

lemma actor_probe_tally:
  assumes "actor_probe env probe a s = (Inr x, s')"
  shows "tally k pid tid s' + (case x of Some b \<Rightarrow> due k b | None \<Rightarrow> 0) \<le> tally k pid tid s + due k a"
proof (cases probe)
  case (ChildExited exit_code)
  with assms obtain u t where "record_exit env a exit_code s = (Inr u, s')" "x = None"
    by (auto simp: actor_probe_def act_bind_Inr act_simps)
  with record_exit_tally [of env a exit_code s u s' k pid tid] show ?thesis by (cases k) auto
next
  case ProbeFailed
  with assms obtain u where "finalize_process a s = (Inr u, s')" "x = None"
    by (auto simp: actor_probe_def act_bind_Inr act_simps)
  with tally_same [OF finalize_server] show ?thesis by fastforce
qed (use assms in \<open>auto simp: actor_probe_def act_simps\<close>)

lemma actor_pass_tally:
  assumes "actor_pass env r a s = (Inr x, s')"
  shows "tally k (ac_process_id a) tid s' + (case x of Some b \<Rightarrow> due k b | None \<Rightarrow> 0) \<le>
    tally k (ac_process_id a) tid s + due k a"
proof -
  from assms obtain received t where 1:
    "(if ard_receives r then actor_receive env (ard_timer_holds_sender r) a else act_return None) s = (Inr received, t)"
    "(case received of
       Some b \<Rightarrow> if ac_channel_closed b then act_return (Some b) else actor_probe env (ard_probe r) b
     | None \<Rightarrow> actor_probe env (ard_probe r) a) t = (Inr x, s')"
    unfolding actor_pass_def act_bind_Inr by blast
  from 1(1) have t: "tally k (ac_process_id a) tid t + (case received of Some b \<Rightarrow> due k b | None \<Rightarrow> due k a) \<le>
      tally k (ac_process_id a) tid s + due k a"
    by (cases "ard_receives r") (auto simp: act_simps dest!: actor_receive_tally [of _ _ _ _ _ _ k tid] split: option.splits)
  show ?thesis
  proof (cases received)
    case None
    with 1(2) have "actor_probe env (ard_probe r) a t = (Inr x, s')" by simp
    from actor_probe_tally [OF this, of k "ac_process_id a" tid] t None show ?thesis by simp
  next
    case (Some b)
    show ?thesis
    proof (cases "ac_channel_closed b")
      case True
      with 1(2) Some t show ?thesis by (auto simp: act_simps)
    next
      case False
      with 1(2) Some have "actor_probe env (ard_probe r) b t = (Inr x, s')" by simp
      from actor_probe_tally [OF this, of k "ac_process_id a" tid] t Some show ?thesis by simp
    qed
  qed
qed

text \<open>
  C17: a process's actor records each thing once. However many commands it receives and
  whatever fails, it adds to the log at most one request to kill, one request to interrupt and
  one end of the process, as long as nothing else on the server records them for that process.
\<close>

theorem actor_records_once:
  assumes "run_process_actor env rounds (new_actor info) s = (Inr x, s')"
    and "\<forall>(meanwhile, r) \<in> set rounds. \<forall>t. tally k (pi_process_id info) tid (meanwhile t) = tally k (pi_process_id info) tid t"
  shows "tally k (pi_process_id info) tid s' \<le> tally k (pi_process_id info) tid s + 1"
proof -
  have "tally k (ac_process_id a) tid s' \<le> tally k (ac_process_id a) tid s + due k a"
    if "run_process_actor env rounds a s = (Inr x, s')"
      and "\<forall>(meanwhile, r) \<in> set rounds. \<forall>t. tally k (ac_process_id a) tid (meanwhile t) = tally k (ac_process_id a) tid t"
    for a
    using that
  proof (induction rounds arbitrary: a s)
    case (Cons round rounds)
    obtain meanwhile r where round: "round = (meanwhile, r)" by (cases round)
    from Cons.prems(1) obtain y t where pass: "actor_pass env r a (meanwhile s) = (Inr y, t)"
      and rest: "(case y of None \<Rightarrow> act_return None | Some b \<Rightarrow> run_process_actor env rounds b) t = (Inr x, s')"
      unfolding round run_process_actor.simps act_bind_Inr by auto
    have pid: "ac_process_id b = ac_process_id a" if "y = Some b" for b
      using pass that by (cases rule: actor_pass_cases) (auto dest: actor_probe_Some)
    from Cons.prems(2) have m: "tally k (ac_process_id a) tid (meanwhile s) = tally k (ac_process_id a) tid s"
      by (simp add: round)
    show ?case
    proof (cases y)
      case None
      with actor_pass_tally [OF pass, of k tid] rest m show ?thesis by (simp add: act_simps)
    next
      case (Some b)
      with Cons.IH [of b t] Cons.prems(2) rest pid [OF Some] actor_pass_tally [OF pass, of k tid] m
      show ?thesis by (simp add: round)
    qed
  qed (simp add: act_simps)
  from this [of "new_actor info"] assms show ?thesis
    by (cases k) (auto simp: new_actor_def)
qed

section \<open>A process that the server takes for another\<close>

text \<open>
  C8: a process can be killed without any permission. When the command line that the system
  reports for a process that runs has another number of parts than its command, as after an
  empty argument or for a script that names its interpreter, asking to kill it, or only to
  interrupt it, is answered that it no longer runs, before the thread's tools, its mode or an
  approval are looked at. The entry goes with the request, and unless a timeout holds the
  channel open the actor then terminates the process; no request is recorded.
\<close>

theorem mismatched_process_killed_ungated:
  fixes env :: "'w actor_env" and s :: "'w process_state" and params :: process_signal_params
  defines "w \<equiv> ts_world (ps_tool s)" and "pid \<equiv> sg_process_id params"
  assumes "map_of (ps_processes s) pid = Some info" and "ps_inbox s pid = []"
    and "pi_process_id info = pid" and "pi_status info = ProcessIsRunning" and "pi_os_pid info = Some os"
    and "pv_pid_exists env w os" and "pv_cmdline env w os = Some parts" and "pi_argv info \<noteq> []"
    and "filter (\<lambda>p. p \<noteq> []) parts \<noteq> []"
    and "length (filter (\<lambda>p. p \<noteq> []) parts) \<noteq> length (pi_argv info)"
    and "ard_receives round" and "\<not> ard_timer_holds_sender round"
  shows "\<exists>s1 b s2.
    handle_process_signal (process_env.truncate env) tool_id fresh params action command s = (Inl (NoLongerRunning pid), s1) \<and>
    actor_pass env round (new_actor info) s1 = (Inr (Some b), s2) \<and>
    ac_kill_reason b = Some ''process control dropped'' \<and>
    ts_world (ps_tool s2) = av_terminate env info w \<and>
    ts_server (ps_tool s2) = ts_server (ps_tool s)"
proof -
  have "\<not> still_runs (process_env.truncate env) w info"
    using assms(7-12) by (simp add: still_runs_def os_process_matches_argv_def process_env.truncate_def Let_def)
  then have "load_process_signal_target (process_env.truncate env) pid s =
      (Inl (NoLongerRunning pid), s\<lparr>ps_processes := AList.delete pid (ps_processes s)\<rparr>)"
    using assms(3,6,7)
    by (simp add: load_process_signal_target_def act_bind_def act_simps update_processes_def w_def)
  then have "handle_process_signal (process_env.truncate env) tool_id fresh params action command s =
      (Inl (NoLongerRunning pid), s\<lparr>ps_processes := AList.delete pid (ps_processes s)\<rparr>)"
    by (simp add: handle_process_signal_def act_bind_def pid_def)
  moreover have "actor_receive env False (new_actor info) (s\<lparr>ps_processes := AList.delete pid (ps_processes s)\<rparr>) =
      (Inr (Some ((new_actor info)\<lparr>ac_channel_closed := True, ac_kill_reason := Some ''process control dropped''\<rparr>)),
       s\<lparr>ps_processes := AList.delete pid (ps_processes s), ps_tool := (ps_tool s)\<lparr>ts_world := av_terminate env info w\<rparr>\<rparr>)"
    using assms(4,5)
    by (simp add: actor_receive_def act_bind_def act_simps new_actor_def initiate_process_tree_termination_def opt_first_def
        AList.delete_conv' w_def)
  ultimately show ?thesis
    using assms(13,14) by (simp add: actor_pass_def act_bind_def act_simps)
qed

section \<open>The actor puts up with every failure\<close>

definition never_fails :: "('w, 'a) process_action \<Rightarrow> bool" where
  "never_fails m \<longleftrightarrow> (\<forall>s. \<exists>a s'. m s = (Inr a, s'))"

lemma never_fails_bind: "never_fails m \<Longrightarrow> (\<And>a. never_fails (f a)) \<Longrightarrow> never_fails (act_bind m f)"
  unfolding never_fails_def by (metis act_bind_step(1))

lemma never_fails_basic:
  "never_fails (act_return a)" "never_fails (act_attempt m)" "never_fails (act_look (\<lambda>s. Inr (g s)))"
  "never_fails (initiate_process_tree_termination env b)" "never_fails (append_or_warn env b kind)"
  "never_fails (pop_command p cs)" "never_fails (finalize_process b)" "never_fails (\<lambda>s. (Inr (), h s))"
  by (auto simp: never_fails_def act_simps act_attempt_def initiate_process_tree_termination_def append_or_warn_def
      pop_command_def finalize_process_eq split: prod.split)

lemmas never_fails_intros = never_fails_bind never_fails_basic

lemma actor_command_never_fails: "never_fails (actor_command env a cmd)"
  by (cases cmd) (auto simp: Let_def intro!: never_fails_intros)

lemma actor_pass_never_fails: "never_fails (actor_pass env r a)"
  unfolding actor_pass_def actor_receive_def actor_probe_def record_exit_def
  by (auto intro!: never_fails_intros actor_command_never_fails
      split: option.split list.split exit_probe.split)

lemma run_never_fails: "never_fails (run_process_actor env rounds a)"
proof (induction rounds arbitrary: a)
  case (Cons round rounds)
  then show ?case
    by (cases round) (auto intro!: never_fails_intros actor_pass_never_fails split: option.split)
qed (simp add: never_fails_basic)

text \<open>
  An actor never gives up. Whatever the log, the operating system or the other parts of the
  server do, it goes on until the process has ended; no failure on the way ends it early.
\<close>

theorem actor_never_fails: "\<exists>x s'. run_process_actor env rounds a s = (Inr x, s')"
  using run_never_fails unfolding never_fails_def by blast

end
