(* ===== verification/ProcessSamples.thy ===== *)
theory ProcessSamples
  imports ProcessActor FileSamples
begin

text \<open>
  The properties of processes at concrete calls: the thread rooted at \<open>/w\<close> starts \<open>ls\<close> in the
  builtin mode, which asks for an approval that the policy grants.
\<close>

section \<open>A start\<close>

definition sample_process_tools :: "path set tool_env" where
  "sample_process_tools = sample_tools\<lparr>te_fs := sample_fs\<lparr>fs_create_dir_all := (\<lambda>p w. (Inr (), insert p w))\<rparr>\<rparr>"

definition sample_exec :: "path set exec_env" where
  "sample_exec = \<lparr>xe_tool = sample_process_tools, xe_words = (\<lambda>_. None), xe_join = (\<lambda>_. None),
     xe_evaluate = (\<lambda>_ _. Inl []), xe_read_file = (\<lambda>_ _. None), xe_programs = (\<lambda>_. []),
     xe_hardening = HardeningOff, xe_isolation_supported = False, xe_preflight = (\<lambda>_ _. Inr ()),
     xe_show_rules_error = (\<lambda>_. []), xe_show_network = (\<lambda>_. JNull)\<rparr>"

text \<open>Spawning a process and ending one leave a mark in the world.\<close>

definition spawned :: path where "spawned = [Normal ''spawned'']"
definition killed :: path where "killed = [Normal ''killed'']"

definition sample_process_env :: "path set process_env" where
  "sample_process_env = \<lparr>pv_exec = sample_exec, pv_thread_dir = (\<lambda>_. [RootDir, Normal ''t'']), pv_show_process = (\<lambda>_. ''p''),
     pv_show_turn = (\<lambda>_. []),
     pv_environment = \<lparr>ev_keys = [], ev_value = Map.empty, ev_unicode = (\<lambda>_. True)\<rparr>, pv_env_globs = sample_globs,
     pv_search_path = (\<lambda>_. []), pv_is_file = (\<lambda>_ _. False),
     pv_resolve = (\<lambda>_ request. \<lparr>rv_program = xr_program request, rv_cwd = xr_cwd request\<rparr>),
     pv_prepare = (\<lambda>_ _ _. Inr ()), pv_spawn_gate = (\<lambda>_ w. (Inr (), w)),
     pv_spawn = (\<lambda>_ w. (Inr (Some 7), insert spawned w)), pv_capture = (\<lambda>w. (Inr (), w)), pv_kill_child = insert killed,
     pv_pid_exists = (\<lambda>_ _. True), pv_cmdline = (\<lambda>_ _. Some [''ls'', ''x'']),
     pv_signal = (\<lambda>_ _ w. (Inr (), w)), pv_wait_exit = (\<lambda>_ w. (Inr (), w)), pv_summary_json = (\<lambda>_. JNull),
     pv_threads = (\<lambda>_. [sample_thread]), pv_show_error = (\<lambda>_. [])\<rparr>"

definition sample_process_state :: "path set process_state" where
  "sample_process_state = \<lparr>ps_tool = sample_tool_state, ps_processes = [], ps_inbox = (\<lambda>_. []), ps_gates = {}\<rparr>"

definition sample_start :: process_start_params where
  "sample_start = \<lparr>sp_thread_id = sample_thread, sp_turn_id = None, sp_approval_id = None, sp_argv = [''ls''],
     sp_cwd = None, sp_timeout_ms = None\<rparr>"

definition sample_start_ids :: start_ids where
  "sample_start_ids = \<lparr>si_tool_id = ToolId 1, si_approval_id = ApprovalId 1, si_process_id = ProcessId 1, si_token = ''t''\<rparr>"

abbreviation sample_root :: path where "sample_root \<equiv> [RootDir, Normal ''w'']"

lemma sample_process_root:
  "load_thread_root sample_process_tools sample_thread sample_tool_state = (Inr sample_root, sample_tool_state)"
proof -
  have "get_or_load_thread sample_env sample_thread sample_tool_server = (Inr (), sample_tool_server)"
    by (simp add: get_or_load_thread_def sample_tool_server_def)
  then show ?thesis
    using sample_handle_state
    by (simp add: load_thread_root_def act_bind_def on_server_def on_world_def act_simps sample_tools_def
        sample_process_tools_def sample_tool_state_def sample_thread_state_def resolve_thread_root_from_cwd_def
        sample_components resolve_dir_def candidate_path_def strip_cur_dir_components_def path_is_absolute_def
        join_path_def sample_fs_def canonicalize_def require_dir_def reject_parent_components_def)
qed

abbreviation sample_snapshot :: process_exec_snapshot where
  "sample_snapshot \<equiv> load_thread_process_exec_snapshot sample_thread_state"

lemma sample_snapshot:
  "sn_allowed_tools sample_snapshot = None" "sn_sandbox_policy sample_snapshot = WorkspaceWrite"
  "sn_mode_name sample_snapshot = ''code''" "sn_role_name sample_snapshot = ''coder''"
  "sn_approval_policy sample_snapshot = AutoApprove" "sn_execpolicy_rules sample_snapshot = []"
  by (simp_all add: load_thread_process_exec_snapshot_def sample_thread_state_def new_state_def)

lemma sample_quiet: "\<not> command_uses_network (\<lambda>_. None) [''ls'']" "\<not> command_hides_network_intent [''ls'']"
proof -
  have "normalized_program_name ''ls'' = ''ls''" by code_simp
  then show "\<not> command_uses_network (\<lambda>_. None) [''ls'']" "\<not> command_hides_network_intent [''ls'']"
    by (simp_all add: command_uses_network_def command_hides_network_intent_def argv_uses_network.simps(2)
        argv_hides_network_intent.simps(2) program_uses_network_def network_programs_def shells_def node_programs_def
        eval_nat_numeral)
qed

abbreviation sample_command_decision :: "mode_def \<Rightarrow> mode_decision" where
  "sample_command_decision \<equiv> \<lambda>mode. mp_command (md_permissions mode)"

lemma sample_command_audit:
  "action = ''process/start'' \<or> action = ''process/execve'' \<Longrightarrow>
   audit_decision (resolve_mode_and_role_decision_audit (builtin_catalog sample_globs) (builtin_code sample_globs)
     (Some ''coder'') action sample_command_decision) = Prompt"
proof -
  have "permission_mode_name ''coder'' = Some ''coder''" "usable_role (Some ''coder'') = Some ''coder''"
    by code_simp+
  then show "action = ''process/start'' \<or> action = ''process/execve'' \<Longrightarrow> ?thesis"
    by (auto simp: resolve_mode_and_role_decision_audit_def resolve_mode_decision_audit_def with_override_def sample_mode
        builtin_code_def builtin_coder_def builtin_mode_def combine_def Let_def)
qed

lemma sample_exec_parts: "xe_tool sample_exec = sample_process_tools" "te_exec_policy sample_process_tools = empty_policy"
  "te_server sample_process_tools = sample_env" "te_lib sample_process_tools = sample_lib"
  by (simp_all add: sample_exec_def sample_process_tools_def sample_tools_def)

lemma sample_process_catalog: "load_modes sample_process_tools root w = builtin_catalog sample_globs"
  by (simp add: load_modes_def load_catalog_def select_config_path_def sample_tools_def sample_process_tools_def Let_def)

text \<open>A request that the policy approves.\<close>

lemma sample_auto_approved:
  assumes "approval_requirement params = RequirePrompt"
  obtains v where "gate_approval_with_deps sample_env sample_lib policy fresh sample_thread None AutoApprove
      \<lparr>ar_approval_id = None, ar_action = action, ar_params = params\<rparr> sample_tool_server = (Inr GateApproved, v)"
    "live sample_thread v"
proof -
  let ?request = "\<lparr>ar_approval_id = None, ar_action = action, ar_params = params\<rparr>"
  have log: "sv_logs sample_tool_server sample_thread \<noteq> None" by (simp add: sample_tool_server_def)
  from sample_tool_live(2) have writes: "env_writes sample_env" by (simp add: sample_tools_def)
  have "\<exists>key. approval_rule_key sample_lib action params = Inr key"
    by (auto simp: approval_rule_key_def json_text_def sample_lib_def fingerprint_value_def Let_def split: option.split)
  then have "remembered_approval_decision sample_lib sample_thread action params sample_tool_server = (Inr None, sample_tool_server)"
    by (auto simp: remembered_approval_decision_def act_bind_def act_simps read_log_def sample_tool_server_def
        sample_event_def)
  moreover obtain v where v: "request_and_decide sample_env sample_thread fresh None ?request Approved
      ''auto-approved by policy'' GateApproved sample_tool_server = (Inr GateApproved, v)"
    by (rule request_and_decide_succeeds [OF writes sample_tool_live(1) log])
  ultimately have gate: "gate_approval_with_deps sample_env sample_lib policy fresh sample_thread None AutoApprove
      ?request sample_tool_server = (Inr GateApproved, v)"
    using assms by (simp add: gate_approval_with_deps_def act_bind_step)
  moreover have "live sample_thread v"
    by (rule live_safe [OF _ act_withinD [OF safe_gate_approval gate]])
      (use sample_tool_live(1) log in \<open>simp add: live_def\<close>)
  ultimately show ?thesis by (rule that)
qed

lemma sample_governance:
  assumes "xc_action ctx = ''process/start'' \<or> xc_action ctx = ''process/execve''"
    and "xc_snapshot ctx = sample_snapshot" and "xc_argv ctx = [''ls'']" and "xc_thread_id ctx = sample_thread"
    and "xc_turn_id ctx = None" and "xc_approval_id ctx = None"
    and "approval_requirement (params RequirePrompt) = RequirePrompt"
  obtains v where "evaluate_process_exec_governance sample_exec fresh ctx sample_command_decision params sample_tool_state =
      (Inr ExecAllowed, sample_tool_state\<lparr>ts_server := v\<rparr>)" "live sample_thread v"
proof -
  have boundary: "process_exec_boundary_denial sample_exec w (xc_argv ctx) (xc_cwd ctx) (xc_thread_root ctx)
      (sn_sandbox_policy sample_snapshot) network = None" for w network
    using sample_quiet by (simp add: process_exec_boundary_denial_def assms sample_snapshot sample_exec_def
        process_exec_gateway_request_def Let_def)
  have rules: "load_effective_process_exec_policy sample_exec (xc_thread_root ctx) empty_policy (builtin_code sample_globs) []
      (xc_argv ctx) w = (Inr (judge_command empty_policy [''ls'']), w)" for w
    by (simp add: load_effective_process_exec_policy_def merge_rules_def act_bind_def act_simps assms
        builtin_code_def builtin_mode_def)
  have asks: "lp_decision (judge_command empty_policy [''ls'']) = ExecPrompt"
    by (simp add: judge_command_def matches_for_command_def empty_policy_def Let_def)
  obtain v where v: "gate_approval_with_deps sample_env sample_lib (lp_policy (judge_command empty_policy [''ls''])) fresh
      sample_thread None AutoApprove
      \<lparr>ar_approval_id = None, ar_action = xc_action ctx, ar_params = params RequirePrompt\<rparr> sample_tool_server = (Inr GateApproved, v)"
    "live sample_thread v"
    by (rule sample_auto_approved [OF assms(7)])
  have gate: "exec_approval sample_exec fresh (lp_policy (judge_command empty_policy [''ls''])) ctx (params RequirePrompt)
      sample_tool_state = (Inr GateApproved, sample_tool_state\<lparr>ts_server := v\<rparr>)"
    using v(1) by (simp add: exec_approval_def assms sample_snapshot on_server_def sample_tool_state_def sample_exec_def
        sample_process_tools_def sample_tools_def)
  have "authorize_process_exec sample_exec fresh ctx sample_command_decision params sample_tool_state =
      (Inr ExecAllowed, sample_tool_state\<lparr>ts_server := v\<rparr>)"
    using sample_command_audit [OF assms(1)] rules asks gate
    by (simp add: authorize_process_exec_def act_bind_def act_simps assms(2) sample_snapshot sample_exec_parts
        sample_process_catalog sample_mode on_world_attempt_def exec_requirement_def governance_of_gate_def Let_def)
  then show thesis
    using v(2) by (intro that) (simp_all add: evaluate_process_exec_governance_def act_bind_def act_simps boundary assms(2))
qed

lemma sample_launch:
  assumes "live sample_thread v"
  obtains r s' where
    "launch_process sample_process_env sample_start_ids sample_start [] sample_root sample_snapshot sample_root
       (sample_process_state\<lparr>ps_tool := sample_tool_state\<lparr>ts_server := v\<rparr>\<rparr>) = (Inr r, s')"
    "spawned \<in> ts_world (ps_tool s')" "map_of (ps_processes s') (ProcessId 1) \<noteq> None"
proof -
  let ?env = sample_process_env
  let ?dir = "process_dir ?env sample_start_ids sample_start"
  have "parse_csv None = []" by code_simp
  then obtain h where h: "apply_child_process_hardening ?env combined cmd_env = Inr (h combined cmd_env)" for combined cmd_env
    by (simp add: apply_child_process_hardening_def env_scrub_config_from_raw_def sample_process_env_def parse_csv_def
        build_pattern_set_def)
  define combined where "combined = combined_environment sample_root [] []"
  define cmd where "cmd = build_command ?env (insert ?dir {}) sample_root sample_root sample_start combined"
  define t where "t = sample_tool_state\<lparr>ts_server := v, ts_world := insert spawned (insert ?dir {})\<rparr>"
  have writes: "env_writes (te_server (pv_tool ?env))"
    using sample_tool_live(2) by (simp add: sample_process_env_def sample_exec_def sample_process_tools_def)
  from assms obtain es st where log: "sv_logs v sample_thread = Some es" "replay es (new_state sample_thread) = Inr st"
    unfolding live_def server_ok_def by blast
  have "\<exists>e u. rt_append_event (te_server (pv_tool ?env)) sample_thread (started_event ?env sample_start_ids sample_start
      (cmd\<lparr>cm_env := snd (h combined (cm_env cmd))\<rparr>) (Some 7)) v = (Inr e, u)"
    by (rule append_succeeds [OF writes log]) (simp add: started_event_def)
  then have "\<exists>e u. tool_append (pv_tool ?env) sample_thread (started_event ?env sample_start_ids sample_start
      (cmd\<lparr>cm_env := snd (h combined (cm_env cmd))\<rparr>) (Some 7)) t = (Inr e, t\<lparr>ts_server := u\<rparr>)"
    by (auto simp: tool_append_def on_server_def t_def)
  then obtain e u where u: "tool_append (pv_tool ?env) sample_thread (started_event ?env sample_start_ids sample_start
      (cmd\<lparr>cm_env := snd (h combined (cm_env cmd))\<rparr>) (Some 7)) t = (Inr e, t\<lparr>ts_server := u\<rparr>)" by blast
  have os: "te_fs (pv_tool ?env) = sample_fs\<lparr>fs_create_dir_all := (\<lambda>p w. (Inr (), insert p w))\<rparr>"
    "ev_value (pv_environment ?env) = Map.empty" "pv_prepare ?env = (\<lambda>_ _ _. Inr ())"
    "pv_spawn ?env = (\<lambda>_ w. (Inr (Some 7), insert spawned w))" "pv_capture ?env = (\<lambda>w. (Inr (), w))"
    "al_format (te_lib (pv_tool ?env)) = (\<lambda>_. Some [])" "xe_hardening (pv_exec ?env) = HardeningOff"
    by (simp_all add: sample_process_env_def sample_exec_def sample_process_tools_def sample_tools_def sample_lib_def)
  have prepared: "prepare_process_exec_gateway_command ?env w [''ls''] sample_root sample_root WorkspaceWrite c = Inr ()" for w c
    by (simp add: prepare_process_exec_gateway_command_def process_exec_gateway_request_def os Let_def)
  let ?s = "sample_process_state\<lparr>ps_tool := sample_tool_state\<lparr>ts_server := v, ts_world := insert ?dir {}\<rparr>\<rparr>"
  have "spawn_process ?env sample_start_ids sample_start cmd combined ?s =
      (Inr (start_response ?env sample_start_ids sample_start (fst (h combined (cm_env cmd)))),
       sample_process_state\<lparr>ps_tool := t\<lparr>ts_server := u\<rparr>,
         ps_processes := [(ProcessId 1, started_info ?env sample_start_ids sample_start
           (cmd\<lparr>cm_env := snd (h combined (cm_env cmd))\<rparr>) (Some 7))]\<rparr>)"
    using u
    by (simp add: spawn_process_def act_bind_def act_simps act_map_error_def h act_cleanup_def act_attempt_def on_os_def os
        proc_append_def on_tool_def t_def sample_start_ids_def sample_start_def update_processes_def sample_process_state_def Let_def)
  then have "launch_process ?env sample_start_ids sample_start [] sample_root sample_snapshot sample_root
       (sample_process_state\<lparr>ps_tool := sample_tool_state\<lparr>ts_server := v\<rparr>\<rparr>) =
      (Inr (start_response ?env sample_start_ids sample_start (fst (h combined (cm_env cmd)))),
       sample_process_state\<lparr>ps_tool := t\<lparr>ts_server := u\<rparr>,
         ps_processes := [(ProcessId 1, started_info ?env sample_start_ids sample_start
           (cmd\<lparr>cm_env := snd (h combined (cm_env cmd))\<rparr>) (Some 7))]\<rparr>)"
    using prepared
    by (simp add: launch_process_def act_bind_def act_simps on_os_def os setup_wrapper_def sample_snapshot
        sample_start_def combined_def cmd_def sample_process_state_def sample_tool_state_def Let_def)
  then show thesis by (rule that) (simp_all add: t_def)
qed

section \<open>Witnesses\<close>

lemma trim_prompt: "trim ''prompt'' = ''prompt''"
  by code_simp

lemma sample_start_params: "approval_requirement (start_approval_params cwd sample_start RequirePrompt) = RequirePrompt"
  by (simp add: start_approval_params_def build_process_exec_approval_params_def approval_requirement_def sample_start_def)

theorem process_start_only_permitted_witness:
  "\<exists>r s'. handle_process_start sample_process_env sample_start_ids sample_start sample_process_state = (Inr r, s') \<and>
     map_of (ps_processes s') (ProcessId 1) \<noteq> None \<and>
     (\<exists>thread_root state cwd_path t. start_resolved sample_process_env sample_start sample_process_state thread_root state cwd_path t \<and>
       may_run sample_exec (ApprovalId 1) (start_context thread_root (load_thread_process_exec_snapshot state) cwd_path sample_start)
         sample_command_decision (start_approval_params cwd_path sample_start) t)"
proof -
  let ?ctx = "start_context sample_root sample_snapshot sample_root sample_start"
  obtain v where v: "evaluate_process_exec_governance sample_exec (ApprovalId 1) ?ctx sample_command_decision
      (start_approval_params sample_root sample_start) sample_tool_state = (Inr ExecAllowed, sample_tool_state\<lparr>ts_server := v\<rparr>)"
    "live sample_thread v"
    by (rule sample_governance [of ?ctx "start_approval_params sample_root sample_start" "ApprovalId 1"])
      (auto simp: start_context_def sample_start_def sample_start_params [unfolded sample_start_def])
  obtain r s' where launch: "launch_process sample_process_env sample_start_ids sample_start [] sample_root sample_snapshot sample_root
       (sample_process_state\<lparr>ps_tool := sample_tool_state\<lparr>ts_server := v\<rparr>\<rparr>) = (Inr r, s')"
    "spawned \<in> ts_world (ps_tool s')" "map_of (ps_processes s') (ProcessId 1) \<noteq> None"
    by (rule sample_launch [OF v(2)])
  have env: "pv_exec sample_process_env = sample_exec" by (simp add: sample_process_env_def)
  have state: "ts_server sample_tool_state = sample_tool_server" "sample_tool_state\<lparr>ts_server := sample_tool_server\<rparr> = sample_tool_state"
    by (simp_all add: sample_tool_state_def)
  have ids: "si_approval_id sample_start_ids = ApprovalId 1" by (simp add: sample_start_ids_def)
  have start: "sp_argv sample_start = [''ls'']" "sp_thread_id sample_start = sample_thread" "sp_cwd sample_start = None"
    "sp_timeout_ms sample_start = None" by (simp_all add: sample_start_def)
  have "govern_start sample_process_env sample_start_ids sample_start [] sample_root sample_snapshot sample_root sample_process_state = (Inr r, s')"
    using v(1) launch(1) by (simp add: govern_start_def act_bind_def on_tool_def env ids sample_process_state_def)
  then have run: "handle_process_start sample_process_env sample_start_ids sample_start sample_process_state = (Inr r, s')"
    using sample_process_root sample_handle_state
    by (simp add: handle_process_start_def handle_process_start_inner_def start act_bind_def on_tool_def on_server_def env
        sample_exec_parts check_start_allowed_def enforce_thread_allowed_tools_def act_simps sample_snapshot state
        resolve_start_cwd_def sample_process_state_def)
  moreover have "\<not> untouched sample_process_state s'"
    using launch(3) by (auto simp: untouched_def sample_process_state_def)
  ultimately show ?thesis
    using process_start_only_permitted [OF run] launch(3) unfolding env ids by blast
qed

definition sample_gate_context :: execve_gate_context where
  "sample_gate_context = \<lparr>eg_thread_id = sample_thread, eg_turn_id = None, eg_token = ''t'', eg_thread_root = sample_root\<rparr>"

definition sample_gate_ask :: execve_decide_args where
  "sample_gate_ask = \<lparr>ed_token = ''t'', ed_argv = [''ls''], ed_cwd = None\<rparr>"


definition sample_decided_state :: "path set process_state" where
  "sample_decided_state = sample_process_state\<lparr>ps_tool := sample_tool_state\<lparr>ts_server := sample_tool_server\<lparr>sv_logs := [sample_thread \<mapsto>
     [sample_event 1 (ThreadCreated ''/w''), sample_event 2 (ApprovalDecided (ApprovalId 5) Approved False None)]]\<rparr>\<rparr>\<rparr>"

theorem execve_wait_sound_witness:
  "\<exists>s'. handle_execve_gate_wait sample_gate_context \<lparr>ew_token = ''t'', ew_approval_id = ApprovalId 5\<rparr>
       [\<lparr>wr_cancelled = False, wr_past_deadline = False, wr_meanwhile = (\<lambda>v. v)\<rparr>] sample_decided_state =
     (Inr (Some (WaitDecided Approved False None)), s') \<and>
     (\<exists>e \<in> set (log_of (ts_server (ps_tool s')) sample_thread). ev_kind e = ApprovalDecided (ApprovalId 5) Approved False None)"
proof -
  have run: "handle_execve_gate_wait sample_gate_context \<lparr>ew_token = ''t'', ew_approval_id = ApprovalId 5\<rparr>
       [\<lparr>wr_cancelled = False, wr_past_deadline = False, wr_meanwhile = (\<lambda>v. v)\<rparr>] sample_decided_state =
     (Inr (Some (WaitDecided Approved False None)), sample_decided_state)"
    by (simp add: handle_execve_gate_wait_def act_bind_def act_simps on_tool_def on_server_def read_log_def
        sample_gate_context_def sample_decided_state_def sample_process_state_def sample_tool_state_def sample_event_def)
  from execve_wait_sound [OF run] show ?thesis
    using run by (simp add: sample_gate_context_def)
qed

section \<open>A process that runs\<close>

definition sample_info :: "string list \<Rightarrow> process_info" where
  "sample_info argv = \<lparr>pi_process_id = ProcessId 1, pi_thread_id = sample_thread, pi_turn_id = None, pi_os_pid = Some 7,
     pi_argv = argv, pi_cwd = ''/w'', pi_status = ProcessIsRunning, pi_exit_code = None\<rparr>"

definition sample_managed :: "string list \<Rightarrow> path set process_state" where
  "sample_managed argv = sample_process_state\<lparr>ps_processes := [(ProcessId 1, sample_info argv)], ps_gates := {ProcessId 1}\<rparr>"

definition sample_signal :: process_signal_params where
  "sample_signal = \<lparr>sg_process_id = ProcessId 1, sg_turn_id = None, sg_approval_id = None, sg_reason = None\<rparr>"

definition sample_actor_env :: "path set actor_env" where
  "sample_actor_env = process_env.extend sample_process_env
     (actor_env.fields (\<lambda>_ w. (Inr (), w)) (\<lambda>_ w. insert killed w))"

lemma sample_actor_env: "process_env.truncate sample_actor_env = sample_process_env"
  "av_terminate sample_actor_env info w = insert killed w" "av_interrupt sample_actor_env info = (\<lambda>w. (Inr (), w))"
  by (simp_all add: sample_actor_env_def process_env.defs actor_env.defs sample_process_env_def)

lemma sample_kill_audit:
  "audit_decision (resolve_mode_and_role_decision_audit (builtin_catalog sample_globs) (builtin_code sample_globs)
     (Some ''coder'') ''process/interrupt'' (\<lambda>mode. proc_kill (mp_process (md_permissions mode)))) = Prompt"
proof -
  have "permission_mode_name ''coder'' = Some ''coder''" "usable_role (Some ''coder'') = Some ''coder''"
    by code_simp+
  then show ?thesis
    by (simp add: resolve_mode_and_role_decision_audit_def resolve_mode_decision_audit_def with_override_def sample_mode
        builtin_code_def builtin_coder_def builtin_mode_def combine_def Let_def)
qed

lemma sample_interrupt:
  obtains r s' where "handle_process_signal sample_process_env (ToolId 2) (ApprovalId 2) sample_signal ''process/interrupt''
      InterruptCommand (sample_managed [''ls'', ''x'']) = (Inr r, s')"
    "ps_inbox s' (ProcessId 1) = [InterruptCommand None]"
proof -
  let ?s = "sample_managed [''ls'', ''x'']"
  let ?env = sample_process_env
  let ?req = "signal_gate_request ?env (ToolId 2) sample_signal ''process/interrupt'' sample_thread sample_thread_state"
  have env: "pv_exec ?env = sample_exec" by (simp add: sample_process_env_def)
  have state: "ts_server sample_tool_state = sample_tool_server" "sample_tool_state\<lparr>ts_server := sample_tool_server\<rparr> = sample_tool_state"
    by (simp_all add: sample_tool_state_def)
  have tool: "ps_tool ?s = sample_tool_state" "ps_inbox ?s = (\<lambda>_. [])"
    by (simp_all add: sample_managed_def sample_process_state_def)
  have "components ''ls'' = [Normal ''ls'']" by code_simp
  then have runs: "still_runs ?env w (sample_info [''ls'', ''x''])" for w
    by (simp add: still_runs_def sample_info_def os_process_matches_argv_def sample_process_env_def arg0_matches_def Let_def)
  have target: "load_process_signal_target ?env (ProcessId 1) ?s = (Inr (ManagedTarget (sample_info [''ls'', ''x''])), ?s)"
    using runs by (simp add: load_process_signal_target_def act_bind_def act_simps sample_managed_def)
  have policy: "st_allowed_tools sample_thread_state = None" "st_mode sample_thread_state = ''code''"
    "st_role sample_thread_state = ''coder''" "st_approval_policy sample_thread_state = AutoApprove"
    by (simp_all add: sample_thread_state_def new_state_def)
  have "approval_requirement (signal_request ?env sample_signal) = RequirePrompt"
    by (simp add: signal_request_def approval_requirement_def trim_prompt)
  then obtain v where v: "gate_approval_with_deps sample_env sample_lib empty_policy (ApprovalId 2) sample_thread None AutoApprove
      \<lparr>ar_approval_id = None, ar_action = ''process/interrupt'', ar_params = signal_request ?env sample_signal\<rparr>
      sample_tool_server = (Inr GateApproved, v)" "live sample_thread v"
    by (rule sample_auto_approved)
  have gate: "enforce_process_mode_and_approval sample_exec (ApprovalId 2) sample_root ?req
      (\<lambda>mode. proc_kill (mp_process (md_permissions mode))) sample_tool_state = (Inr None, sample_tool_state\<lparr>ts_server := v\<rparr>)"
    using sample_kill_audit v(1)
    by (simp add: enforce_process_mode_and_approval_def enforce_process_mode_gate_def act_bind_def act_simps sample_exec_parts
        sample_process_catalog sample_mode signal_gate_request_def policy on_server_def sample_signal_def state Let_def)
  have writes: "env_writes (te_server sample_process_tools)"
    using sample_tool_live(2) by (simp add: sample_process_tools_def)
  have live: "live sample_thread (ts_server (sample_tool_state\<lparr>ts_server := v\<rparr>))" using v(2) by simp
  obtain e u where u: "tool_append sample_process_tools sample_thread (ToolStarted (ToolId 2) None ''process/interrupt''
      (Some (signal_request ?env sample_signal))) (sample_tool_state\<lparr>ts_server := v\<rparr>) = (Inr e, sample_tool_state\<lparr>ts_server := u\<rparr>)"
    "live sample_thread u"
    by (rule append_succeeds_tool [OF writes live, of "ToolStarted (ToolId 2) None ''process/interrupt''
      (Some (signal_request ?env sample_signal))"]) auto
  have live: "live sample_thread (ts_server (sample_tool_state\<lparr>ts_server := u\<rparr>))" using u(2) by simp
  obtain f x where x: "tool_append sample_process_tools sample_thread (ToolCompleted (ToolId 2) ToolStatusCompleted None None
      (Some (signal_response ?env (ProcessId 1) True))) (sample_tool_state\<lparr>ts_server := u\<rparr>) = (Inr f, sample_tool_state\<lparr>ts_server := x\<rparr>)"
    by (rule append_succeeds_tool [OF writes live, of "ToolCompleted (ToolId 2) ToolStatusCompleted None None
      (Some (signal_response ?env (ProcessId 1) True))"]) auto
  have info: "pi_thread_id (sample_info argv) = sample_thread" "pi_process_id (sample_info argv) = ProcessId 1"
    "pi_status (sample_info argv) = ProcessIsRunning" for argv by (simp_all add: sample_info_def)
  have signal: "sg_process_id sample_signal = ProcessId 1" "sg_turn_id sample_signal = None" "sg_reason sample_signal = None"
    by (simp_all add: sample_signal_def)
  have entry: "map_of (ps_processes ?s) (ProcessId 1) = Some (sample_info [''ls'', ''x''])" by (simp add: sample_managed_def)
  have perform: "perform_signal ?env (ToolId 2) sample_signal ''process/interrupt'' (InterruptCommand None)
      (ManagedTarget (sample_info [''ls'', ''x''])) (?s\<lparr>ps_tool := sample_tool_state\<lparr>ts_server := v\<rparr>\<rparr>) =
    (Inr (signal_response ?env (ProcessId 1) True), ?s\<lparr>ps_tool := sample_tool_state\<lparr>ts_server := x\<rparr>,
       ps_inbox := (\<lambda>_. [])(ProcessId 1 := [InterruptCommand None])\<rparr>)"
    using u(1) x
    by (simp add: perform_signal_def deliver_signal_def send_process_signal_def act_bind_def act_simps act_attempt_def
        proc_append_def on_tool_def env sample_exec_parts info signal entry push_command_def tool Let_def)
  have "handle_process_signal ?env (ToolId 2) (ApprovalId 2) sample_signal ''process/interrupt'' InterruptCommand ?s =
      (Inr (signal_response ?env (ProcessId 1) True), ?s\<lparr>ps_tool := sample_tool_state\<lparr>ts_server := x\<rparr>,
       ps_inbox := (\<lambda>_. [])(ProcessId 1 := [InterruptCommand None])\<rparr>)"
    using sample_process_root sample_handle_state gate perform target
    by (simp add: handle_process_signal_def check_signal_allowed_def govern_signal_def act_bind_def on_tool_def on_server_def
        enforce_thread_allowed_tools_def act_simps env sample_exec_parts info signal policy state tool)
  then show thesis by (rule that) simp
qed

theorem process_signal_only_permitted_witness:
  "\<exists>target thread_root state t.
     load_process_signal_target sample_process_env (ProcessId 1) (sample_managed [''ls'', ''x'']) = (Inr target, sample_managed [''ls'', ''x'']) \<and>
     may_signal sample_exec (ApprovalId 2) thread_root
       (signal_gate_request sample_process_env (ToolId 2) sample_signal ''process/interrupt''
          (pi_thread_id (target_info target)) state)
       (\<lambda>mode. proc_kill (mp_process (md_permissions mode))) t"
proof -
  obtain r s' where run: "handle_process_signal sample_process_env (ToolId 2) (ApprovalId 2) sample_signal ''process/interrupt''
      InterruptCommand (sample_managed [''ls'', ''x'']) = (Inr r, s')" "ps_inbox s' (ProcessId 1) = [InterruptCommand None]"
    by (rule sample_interrupt)
  have "\<not> unsignalled (sample_managed [''ls'', ''x'']) s'"
    using run(2) by (auto simp: unsignalled_def sample_managed_def sample_process_state_def)
  from process_signal_only_permitted [OF run(1) this] obtain target u thread_root state t where
    "load_process_signal_target sample_process_env (ProcessId 1) (sample_managed [''ls'', ''x'']) = (Inr target, u)"
    "may_signal sample_exec (ApprovalId 2) thread_root
       (signal_gate_request sample_process_env (ToolId 2) sample_signal ''process/interrupt''
          (pi_thread_id (target_info target)) state)
       (\<lambda>mode. proc_kill (mp_process (md_permissions mode))) t"
    by (auto simp: sample_signal_def sample_process_env_def)
  moreover from this(1) have "u = sample_managed [''ls'', ''x'']"
    using signal_target_loaded by (fastforce simp: sample_managed_def split: signal_target.splits)
  ultimately show ?thesis by blast
qed

theorem mismatched_process_killed_ungated_witness:
  "\<exists>s1 b s2.
    handle_process_signal sample_process_env (ToolId 2) (ApprovalId 2) sample_signal ''process/interrupt'' InterruptCommand
      (sample_managed [''ls'']) = (Inl (NoLongerRunning (ProcessId 1)), s1) \<and>
    actor_pass sample_actor_env \<lparr>ard_receives = True, ard_timer_holds_sender = False, ard_probe = ChildRuns\<rparr>
      (new_actor (sample_info [''ls''])) s1 = (Inr (Some b), s2) \<and>
    killed \<in> ts_world (ps_tool s2) \<and> ts_server (ps_tool s2) = sample_tool_server"
proof -
  let ?s = "sample_managed [''ls'']"
  have "\<exists>s1 b s2.
    handle_process_signal (process_env.truncate sample_actor_env) (ToolId 2) (ApprovalId 2) sample_signal ''process/interrupt''
      InterruptCommand ?s = (Inl (NoLongerRunning (sg_process_id sample_signal)), s1) \<and>
    actor_pass sample_actor_env \<lparr>ard_receives = True, ard_timer_holds_sender = False, ard_probe = ChildRuns\<rparr>
      (new_actor (sample_info [''ls''])) s1 = (Inr (Some b), s2) \<and>
    ac_kill_reason b = Some ''process control dropped'' \<and>
    ts_world (ps_tool s2) = av_terminate sample_actor_env (sample_info [''ls'']) (ts_world (ps_tool ?s)) \<and>
    ts_server (ps_tool s2) = ts_server (ps_tool ?s)"
    by (rule mismatched_process_killed_ungated [where os = 7 and parts = "[''ls'', ''x'']"])
      (simp_all add: sample_signal_def sample_managed_def sample_info_def sample_process_state_def
        sample_actor_env_def process_env.defs sample_process_env_def)
  then show ?thesis
    unfolding sample_actor_env
    by (auto simp: sample_signal_def sample_managed_def sample_process_state_def sample_tool_state_def)
qed

theorem finished_process_released_witness:
  "\<exists>s'. run_process_actor sample_actor_env [(\<lambda>s. s, \<lparr>ard_receives = False, ard_timer_holds_sender = False, ard_probe = ProbeFailed\<rparr>)]
       (new_actor (sample_info [''ls''])) (sample_managed [''ls'']) = (Inr None, s') \<and>
     map_of (ps_processes s') (ProcessId 1) = None \<and> ProcessId 1 \<notin> ps_gates s'"
proof -
  have "\<exists>s'. run_process_actor sample_actor_env [(\<lambda>s. s, \<lparr>ard_receives = False, ard_timer_holds_sender = False, ard_probe = ProbeFailed\<rparr>)]
       (new_actor (sample_info [''ls''])) (sample_managed [''ls'']) = (Inr None, s')"
    by (simp add: actor_pass_def actor_probe_def act_bind_def act_simps finalize_process_eq)
  then obtain s' where run: "run_process_actor sample_actor_env [(\<lambda>s. s, \<lparr>ard_receives = False, ard_timer_holds_sender = False, ard_probe = ProbeFailed\<rparr>)]
       (new_actor (sample_info [''ls''])) (sample_managed [''ls'']) = (Inr None, s')" ..
  from finished_process_released [OF run] run show ?thesis by (auto simp: new_actor_def sample_info_def)
qed

text \<open>Two requests to kill, of which the log holds one.\<close>

theorem actor_records_once_witness:
  "\<exists>x s'. run_process_actor sample_actor_env
       (replicate 2 (\<lambda>s. s, \<lparr>ard_receives = True, ard_timer_holds_sender = False, ard_probe = ChildRuns\<rparr>))
       (new_actor (sample_info [''ls'']))
       ((sample_managed [''ls''])\<lparr>ps_inbox := (\<lambda>_. [KillCommand None, KillCommand (Some ''again'')])\<rparr>) = (Inr x, s') \<and>
     tally KillRecord (ProcessId 1) sample_thread s' \<le> 1"
proof -
  let ?s = "(sample_managed [''ls''])\<lparr>ps_inbox := (\<lambda>_. [KillCommand None, KillCommand (Some ''again'')])\<rparr>"
  let ?rounds = "replicate 2 (\<lambda>s. s, \<lparr>ard_receives = True, ard_timer_holds_sender = False, ard_probe = ChildRuns\<rparr>)"
  from run_never_fails obtain x s' where run: "run_process_actor sample_actor_env ?rounds (new_actor (sample_info [''ls''])) ?s = (Inr x, s')"
    unfolding never_fails_def by blast
  have "tally KillRecord (pi_process_id (sample_info [''ls''])) sample_thread s' \<le>
      tally KillRecord (pi_process_id (sample_info [''ls''])) sample_thread ?s + 1"
    by (rule actor_records_once [OF run]) simp
  moreover have "tally KillRecord (ProcessId 1) sample_thread ?s = 0"
    by (simp add: tally_def sample_managed_def sample_process_state_def sample_tool_state_def sample_tool_server_def log_of_def
        core_def sample_event_def)
  ultimately show ?thesis using run by (auto simp: sample_info_def)
qed


end
