(* ===== verification/ThreadConfigure.thy ===== *)
theory ThreadConfigure
  imports FileGates
begin

text \<open>
  Changing the settings of a thread (\<open>crates/app-server/src/main/thread_manage/config.rs\<close>): what
  is requested is normalised and checked against the modes, the roles and the file system, and
  recorded as one event if it changes anything. The handler reads the settings and appends
  the event under separate locks; what others do in between is a parameter.
\<close>

section \<open>Requests and their errors\<close>

record configure_params =
  cf_thread_id :: thread_id
  cf_approval_policy :: "approval_policy option"
  cf_sandbox_policy :: "write_scope option"
  cf_sandbox_writable_roots :: "string list option"
  cf_sandbox_network_access :: "sandbox_network_access option"
  cf_mode :: "string option"
  cf_role :: "string option"
  cf_model :: "string option"
  cf_clear_model :: bool
  cf_thinking :: "string option"
  cf_clear_thinking :: bool
  cf_show_thinking :: "bool option"
  cf_clear_show_thinking :: bool
  cf_openai_base_url :: "string option"
  cf_clear_openai_base_url :: bool
  cf_allowed_tools :: "string list option option"
  cf_execpolicy_rules :: "string list option"
  cf_clear_execpolicy_rules :: bool

datatype configure_error =
    ConfigureFailed tool_error
  | UnknownMode string string
  | UnknownRole string string
  | UnknownAllowedTool string string
  | AllowedToolDeniedByMode string string
  | AllowedToolDeniedByRole string string string
  | AllowedToolDecisionMappingMissing string
  | InvalidThinking string
  | SandboxWritableRootInvalid string sandbox_error

fun thread_configure_error_code :: "configure_error \<Rightarrow> string option" where
  "thread_configure_error_code (ConfigureFailed _) = None"
| "thread_configure_error_code (UnknownMode _ _) = Some ''mode_unknown''"
| "thread_configure_error_code (UnknownRole _ _) = Some ''role_unknown''"
| "thread_configure_error_code (UnknownAllowedTool _ _) = Some ''allowed_tools_unknown_tool''"
| "thread_configure_error_code (AllowedToolDeniedByMode _ _) = Some ''allowed_tools_mode_denied''"
| "thread_configure_error_code (AllowedToolDeniedByRole _ _ _) = Some ''allowed_tools_mode_denied''"
| "thread_configure_error_code (AllowedToolDecisionMappingMissing _) = Some ''allowed_tools_mapping_missing''"
| "thread_configure_error_code (InvalidThinking _) = Some ''thinking_invalid''"
| "thread_configure_error_code (SandboxWritableRootInvalid _ _) = Some ''sandbox_writable_root_invalid''"

section \<open>Normalising a request\<close>

definition normalize_thread_configure_text_value :: "string option \<Rightarrow> string option" where
  "normalize_thread_configure_text_value v =
     Option.bind v (\<lambda>s. if trim s = [] then None else Some (trim s))"

definition thinking_levels :: "string list" where
  "thinking_levels = [''small'', ''medium'', ''high'', ''xhigh'', ''unsupported'']"

definition parse_thread_configure_thinking :: "string option \<Rightarrow> configure_error + string option" where
  "parse_thread_configure_thinking thinking =
     (case normalize_thread_configure_text_value thinking of
        None \<Rightarrow> Inr None
      | Some v \<Rightarrow>
          if to_ascii_lowercase v \<in> set thinking_levels then Inr (Some v) else Inl (InvalidThinking v))"

text \<open>The loop over the roots that are not empty once trimmed.\<close>

fun resolve_writable_roots ::
  "'w fs_ops \<Rightarrow> 'w \<Rightarrow> path \<Rightarrow> string set \<Rightarrow> string list \<Rightarrow> configure_error + string list" where
  "resolve_writable_roots fs w thread_root seen [] = Inr []"
| "resolve_writable_roots fs w thread_root seen (root # roots) =
     (case resolve_dir_unrestricted fs w thread_root (components root) of
        Inl err \<Rightarrow> Inl (SandboxWritableRootInvalid root err)
      | Inr p \<Rightarrow>
          let resolved = path_string p in
          rbind (resolve_writable_roots fs w thread_root (insert resolved seen) roots) (\<lambda>rest.
          Inr (if resolved \<in> seen then rest else resolved # rest)))"

definition normalize_writable_roots ::
  "'w fs_ops \<Rightarrow> 'w \<Rightarrow> path \<Rightarrow> string list option \<Rightarrow> configure_error + string list option" where
  "normalize_writable_roots fs w thread_root roots =
     (case roots of
        None \<Rightarrow> Inr None
      | Some rs \<Rightarrow>
          rbind (resolve_writable_roots fs w thread_root {} (filter (\<lambda>r. r \<noteq> []) (map trim rs))) (\<lambda>out.
          Inr (Some out)))"

definition normalize_execpolicy_rules :: "string list \<Rightarrow> string list" where
  "normalize_execpolicy_rules rules = push_unique_trimmed {} rules"

section \<open>Checking a request\<close>

definition unknown_mode :: "mode_catalog \<Rightarrow> string \<Rightarrow> configure_error" where
  "unknown_mode catalog mode = UnknownMode mode (join_names (mode_names catalog))"

definition role_names :: "string list" where
  "role_names = [''architect'', ''reviewer'', ''builder'', ''code'', ''coder'', ''codder'', ''default'', ''chatter'',
     ''chat'', ''roleplay'', ''author'', ''doc_organizer'', ''doc-organizer'', author_alias, doc_organizer_alias]"

lemma set_role_names: "set role_names = dom builtin_roles"
  by (auto simp: role_names_def builtin_roles_def)

definition available_role_names :: string where
  "available_role_names = join_names (sorted_list_of_set (set role_names))"

definition unknown_role :: "string \<Rightarrow> configure_error" where
  "unknown_role role = UnknownRole role available_role_names"

definition validate_thread_configure_mode :: "mode_catalog \<Rightarrow> string \<Rightarrow> configure_error + unit" where
  "validate_thread_configure_mode catalog mode =
     (if catalog_mode catalog mode \<noteq> None then Inr () else Inl (unknown_mode catalog mode))"

definition validate_thread_configure_role :: "string \<Rightarrow> configure_error + unit" where
  "validate_thread_configure_role role =
     (if builtin_roles role \<noteq> None then Inr () else Inl (unknown_role role))"

definition normalize_thread_configure_allowed_tools :: "string list \<Rightarrow> configure_error + string list" where
  "normalize_thread_configure_allowed_tools tools =
     (case normalize_allowed_tools tools of
        Inl tool \<Rightarrow> Inl (UnknownAllowedTool tool (join_names known_allowed_tools))
      | Inr out \<Rightarrow> Inr out)"

text \<open>The checks of one tool; the role is that of \<open>permission_mode\<close>, with its mode.\<close>

definition validate_tool ::
  "string \<Rightarrow> mode_def \<Rightarrow> (string \<times> string \<times> mode_def) option \<Rightarrow> string \<Rightarrow> configure_error + unit" where
  "validate_tool mode_name mode role tool =
     (case effective_mode_decision_for_tool mode tool of
        None \<Rightarrow> Inl (AllowedToolDecisionMappingMissing tool)
      | Some d \<Rightarrow>
          if d = Deny then Inl (AllowedToolDeniedByMode mode_name tool)
          else (case role of
            None \<Rightarrow> Inr ()
          | Some (role_name, permission_mode, role_mode) \<Rightarrow>
              (case effective_mode_decision_for_tool role_mode tool of
                 None \<Rightarrow> Inl (AllowedToolDecisionMappingMissing tool)
               | Some d \<Rightarrow>
                   if d = Deny then Inl (AllowedToolDeniedByRole role_name permission_mode tool) else Inr ())))"

fun validate_tools ::
  "string \<Rightarrow> mode_def \<Rightarrow> (string \<times> string \<times> mode_def) option \<Rightarrow> string list \<Rightarrow> configure_error + unit" where
  "validate_tools mode_name mode role [] = Inr ()"
| "validate_tools mode_name mode role (tool # tools) =
     rbind (validate_tool mode_name mode role tool) (\<lambda>_. validate_tools mode_name mode role tools)"

definition validate_thread_configure_allowed_tools_for_mode_and_role ::
  "mode_catalog \<Rightarrow> string \<Rightarrow> string option \<Rightarrow> string list \<Rightarrow> configure_error + unit" where
  "validate_thread_configure_allowed_tools_for_mode_and_role catalog mode_name role_name tools =
     (case catalog_mode catalog mode_name of
        None \<Rightarrow> Inl (unknown_mode catalog mode_name)
      | Some mode \<Rightarrow>
          rbind (case role_name of
              None \<Rightarrow> Inr None
            | Some role \<Rightarrow>
                (case permission_mode_name role of
                   None \<Rightarrow> Inl (unknown_role role)
                 | Some permission_mode \<Rightarrow>
                     (case catalog_mode catalog permission_mode of
                        None \<Rightarrow> Inl (unknown_role role)
                      | Some role_mode \<Rightarrow> Inr (Some (role, permission_mode, role_mode))))) (\<lambda>role.
          validate_tools mode_name mode role tools))"

text \<open>The role whose permissions the tools are checked against.\<close>

definition effective_role_name :: "string option \<Rightarrow> string \<Rightarrow> string option" where
  "effective_role_name role current_role =
     (case role of
        Some r \<Rightarrow> Some r
      | None \<Rightarrow> if builtin_roles current_role \<noteq> None then Some current_role else None)"

definition check_allowed_tools ::
  "mode_catalog \<Rightarrow> thread_state \<Rightarrow> string option \<Rightarrow> string option \<Rightarrow> string list option option \<Rightarrow>
     configure_error + string list option option" where
  "check_allowed_tools catalog state mode role requested =
     (case requested of
        None \<Rightarrow> Inr None
      | Some None \<Rightarrow> Inr (Some None)
      | Some (Some tools) \<Rightarrow>
          rbind (normalize_thread_configure_allowed_tools tools) (\<lambda>tools.
          let role_name = effective_role_name role (st_role state) in
          rbind (case role_name of Some r \<Rightarrow> validate_thread_configure_role r | None \<Rightarrow> Inr ()) (\<lambda>_.
          rbind (validate_thread_configure_allowed_tools_for_mode_and_role catalog
              (case mode of Some m \<Rightarrow> m | None \<Rightarrow> st_mode state) role_name tools) (\<lambda>_.
          Inr (Some (Some tools))))))"

section \<open>The handler\<close>

text \<open>The event that is recorded for a request, in the order of the handler's checks.\<close>

definition requested_update ::
  "'w tool_env \<Rightarrow> 'w \<Rightarrow> path \<Rightarrow> thread_state \<Rightarrow> configure_params \<Rightarrow> configure_error + config_update" where
  "requested_update env w thread_root state p =
     (let catalog = load_modes env thread_root w;
          mode = normalize_thread_configure_text_value (cf_mode p);
          role = normalize_thread_configure_text_value (cf_role p) in
      rbind (normalize_writable_roots (te_fs env) w thread_root (cf_sandbox_writable_roots p)) (\<lambda>roots.
      rbind (case mode of Some m \<Rightarrow> validate_thread_configure_mode catalog m | None \<Rightarrow> Inr ()) (\<lambda>_.
      rbind (case role of Some r \<Rightarrow> validate_thread_configure_role r | None \<Rightarrow> Inr ()) (\<lambda>_.
      rbind (parse_thread_configure_thinking (cf_thinking p)) (\<lambda>thinking.
      rbind (check_allowed_tools catalog state mode role (cf_allowed_tools p)) (\<lambda>allowed_tools.
      Inr \<lparr>cu_approval_policy = (case cf_approval_policy p of Some a \<Rightarrow> a | None \<Rightarrow> st_approval_policy state),
           cu_sandbox_policy = cf_sandbox_policy p, cu_sandbox_writable_roots = roots,
           cu_sandbox_network_access = cf_sandbox_network_access p, cu_mode = mode, cu_role = role,
           cu_model = normalize_thread_configure_text_value (cf_model p), cu_clear_model = cf_clear_model p,
           cu_thinking = thinking, cu_clear_thinking = cf_clear_thinking p,
           cu_show_thinking = cf_show_thinking p, cu_clear_show_thinking = cf_clear_show_thinking p,
           cu_openai_base_url = normalize_thread_configure_text_value (cf_openai_base_url p),
           cu_clear_openai_base_url = cf_clear_openai_base_url p, cu_allowed_tools = allowed_tools,
           cu_execpolicy_rules = map_option normalize_execpolicy_rules (cf_execpolicy_rules p),
           cu_clear_execpolicy_rules = cf_clear_execpolicy_rules p\<rparr>))))))"

definition option_changed :: "bool \<Rightarrow> 'a option \<Rightarrow> 'a option \<Rightarrow> bool" where
  "option_changed clear requested current \<longleftrightarrow>
     (if clear then current \<noteq> None
      else case requested of Some v \<Rightarrow> current \<noteq> Some v | None \<Rightarrow> False)"

definition differs :: "'a option \<Rightarrow> 'a \<Rightarrow> bool" where
  "differs requested current \<longleftrightarrow> (case requested of Some v \<Rightarrow> v \<noteq> current | None \<Rightarrow> False)"

definition config_changed :: "config_update \<Rightarrow> thread_state \<Rightarrow> bool" where
  "config_changed u s \<longleftrightarrow>
     cu_approval_policy u \<noteq> st_approval_policy s \<or>
     differs (cu_sandbox_policy u) (st_sandbox_policy s) \<or>
     differs (cu_sandbox_writable_roots u) (st_sandbox_writable_roots s) \<or>
     differs (cu_sandbox_network_access u) (st_sandbox_network_access s) \<or>
     differs (cu_mode u) (st_mode s) \<or> differs (cu_role u) (st_role s) \<or>
     option_changed (cu_clear_model u) (cu_model u) (st_model s) \<or>
     option_changed (cu_clear_thinking u) (cu_thinking u) (st_thinking s) \<or>
     option_changed (cu_clear_show_thinking u) (cu_show_thinking u) (st_show_thinking s) \<or>
     option_changed (cu_clear_openai_base_url u) (cu_openai_base_url u) (st_openai_base_url s) \<or>
     differs (cu_allowed_tools u) (st_allowed_tools s) \<or>
     (if cu_clear_execpolicy_rules u then st_execpolicy_rules s \<noteq> []
      else differs (cu_execpolicy_rules u) (st_execpolicy_rules s))"

type_synonym ('w, 'a) configure_action = "('w tool_state, configure_error, 'a) state_action"

definition record_change ::
  "'w tool_env \<Rightarrow> (server \<Rightarrow> server) \<Rightarrow> thread_id \<Rightarrow> thread_state \<Rightarrow> config_update \<Rightarrow> ('w, unit) configure_action" where
  "record_change env others tid state update =
     (if config_changed update state then
       act_bind (act_map_error ConfigureFailed (on_server (\<lambda>v. (Inr (), others v)))) (\<lambda>_.
       act_bind (act_map_error ConfigureFailed (tool_append env tid (ThreadConfigUpdated update))) (\<lambda>_.
       act_return ()))
     else act_return ())"

definition handle_thread_configure ::
  "'w tool_env \<Rightarrow> (server \<Rightarrow> server) \<Rightarrow> configure_params \<Rightarrow> ('w, unit) configure_action" where
  "handle_thread_configure env others p =
     act_bind (act_map_error ConfigureFailed (load_thread_root env (cf_thread_id p))) (\<lambda>thread_root.
     act_bind (act_map_error ConfigureFailed (on_server (handle_state (cf_thread_id p)))) (\<lambda>state.
     act_bind (act_look (\<lambda>s. requested_update env (ts_world s) thread_root state p)) (\<lambda>update.
     record_change env others (cf_thread_id p) state update)))"

section \<open>Settings\<close>

text \<open>What of a thread's state a configuration can set.\<close>

definition settings :: "thread_state \<Rightarrow> thread_state" where
  "settings s = (new_state (ThreadId 0))\<lparr>
     st_approval_policy := st_approval_policy s, st_sandbox_policy := st_sandbox_policy s,
     st_sandbox_writable_roots := st_sandbox_writable_roots s,
     st_sandbox_network_access := st_sandbox_network_access s, st_mode := st_mode s, st_role := st_role s,
     st_model := st_model s, st_thinking := st_thinking s, st_show_thinking := st_show_thinking s,
     st_openai_base_url := st_openai_base_url s, st_allowed_tools := st_allowed_tools s,
     st_execpolicy_rules := st_execpolicy_rules s\<rparr>"

lemma unchanged_iff:
  "(case r of Some v \<Rightarrow> v | None \<Rightarrow> c) = c \<longleftrightarrow> \<not> differs r c"
  "(if clear then None else case q of Some v \<Rightarrow> Some v | None \<Rightarrow> d) = d \<longleftrightarrow> \<not> option_changed clear q d"
  "(if clear then [] else case l of Some v \<Rightarrow> v | None \<Rightarrow> e) = e \<longleftrightarrow> \<not> (if clear then e \<noteq> [] else differs l e)"
  by (auto simp: differs_def option_changed_def split: option.split)

lemma config_changed_iff: "config_changed u s \<longleftrightarrow> apply_config u s \<noteq> s"
proof -
  have "apply_config u s = s \<longleftrightarrow>
      cu_approval_policy u = st_approval_policy s \<and>
      (case cu_sandbox_policy u of Some p \<Rightarrow> p | None \<Rightarrow> st_sandbox_policy s) = st_sandbox_policy s \<and>
      (case cu_sandbox_writable_roots u of Some r \<Rightarrow> r | None \<Rightarrow> st_sandbox_writable_roots s) = st_sandbox_writable_roots s \<and>
      (case cu_sandbox_network_access u of Some a \<Rightarrow> a | None \<Rightarrow> st_sandbox_network_access s) = st_sandbox_network_access s \<and>
      (case cu_mode u of Some m \<Rightarrow> m | None \<Rightarrow> st_mode s) = st_mode s \<and>
      (case cu_role u of Some r \<Rightarrow> r | None \<Rightarrow> st_role s) = st_role s \<and>
      (if cu_clear_model u then None else case cu_model u of Some m \<Rightarrow> Some m | None \<Rightarrow> st_model s) = st_model s \<and>
      (if cu_clear_thinking u then None else case cu_thinking u of Some m \<Rightarrow> Some m | None \<Rightarrow> st_thinking s) = st_thinking s \<and>
      (if cu_clear_show_thinking u then None else case cu_show_thinking u of Some m \<Rightarrow> Some m | None \<Rightarrow> st_show_thinking s) =
        st_show_thinking s \<and>
      (if cu_clear_openai_base_url u then None
       else case cu_openai_base_url u of Some m \<Rightarrow> Some m | None \<Rightarrow> st_openai_base_url s) = st_openai_base_url s \<and>
      (case cu_allowed_tools u of Some r \<Rightarrow> r | None \<Rightarrow> st_allowed_tools s) = st_allowed_tools s \<and>
      (if cu_clear_execpolicy_rules u then [] else case cu_execpolicy_rules u of Some r \<Rightarrow> r | None \<Rightarrow> st_execpolicy_rules s) =
        st_execpolicy_rules s"
    unfolding apply_config_def by (cases s) simp
  then show ?thesis unfolding unchanged_iff config_changed_def by blast
qed

text \<open>A configuration sets the settings alone, and nothing else does.\<close>

lemma settings_apply_config: "settings (apply_config c s) = apply_config c (settings s)"
  by (simp add: settings_def apply_config_def cong: option.case_cong if_cong)

fun set_settings :: "thread_state \<Rightarrow> thread_event_kind \<Rightarrow> thread_state" where
  "set_settings s (ThreadConfigUpdated c) = apply_config c s"
| "set_settings s _ = s"

lemma settings_seq [simp]: "settings (s\<lparr>st_last_seq := n\<rparr>) = settings s"
  by (simp add: settings_def)

lemma settings_tokens [simp]: "settings (record_token_usage s r u) = settings s"
  by (auto simp: settings_def record_token_usage_def add_usage_def split: option.split)

lemma settings_apply_kind: "apply_kind t k s = Inr s' \<Longrightarrow> settings s' = set_settings (settings s) k"
  by (cases k; auto simp: settings_apply_config split: if_splits option.splits; simp add: settings_def)

lemma replay_settings: "replay es s = Inr s' \<Longrightarrow> settings s' = foldl set_settings (settings s) (core es)"
proof (induction es arbitrary: s)
  case (Cons e es)
  then obtain m where m: "apply_event e s = Inr m" "replay es m = Inr s'" by (auto simp: rbind_eq_Inr)
  from m(1) have "settings m = set_settings (settings s) (ev_kind e)"
    by (auto simp: apply_event_Inr dest: settings_apply_kind)
  moreover have "is_marker (ev_kind e) \<Longrightarrow> set_settings c (ev_kind e) = c" for c by (cases "ev_kind e") simp_all
  ultimately show ?case using Cons.IH [OF m(2)] by (simp add: core_def)
qed (simp add: core_def)

lemma handle_state_Inr: "handle_state tid v = (Inr st, v') \<longleftrightarrow>
    v' = v \<and> (\<exists>es. sv_logs v tid = Some es \<and> replay es (new_state tid) = Inr st)"
  by (auto simp: handle_state_def split: option.splits sum.splits)

lemma append_settings:
  assumes "tool_append env tid k s = (Inr e, s')" and "server_ok (ts_server s)" and "\<not> is_marker k"
  obtains st st' where "handle_state tid (ts_server s) = (Inr st, ts_server s)"
    "handle_state tid (ts_server s') = (Inr st', ts_server s')"
    "settings st' = set_settings (settings st) (redact_thread_event_kind (env_redact (te_server env)) k)"
    "ts_world s' = ts_world s"
proof -
  from assms(1) obtain v where v: "rt_append_event (te_server env) tid k (ts_server s) = (Inr e, v)" "s' = s\<lparr>ts_server := v\<rparr>"
    by (auto simp: tool_append_def on_server_Inr)
  note app = rt_append_event_Inr [OF v(1)]
  from safe_actionD [OF safe_append_event v(1)] assms(2) have ok: "logs_grow (ts_server s) v" "server_ok v" by blast+
  from app(1) assms(2) obtain st where st: "replay (log_of (ts_server s) tid) (new_state tid) = Inr st"
    unfolding server_ok_def by metis
  from logs_grow_Some [OF ok(1) app(1)] obtain fs where fs: "sv_logs v tid = Some (log_of (ts_server s) tid @ fs)" by blast
  with ok(2) obtain st' where st': "replay (log_of v tid) (new_state tid) = Inr st'"
    unfolding server_ok_def log_of_def by fastforce
  have "core (log_of v tid) = core (log_of (ts_server s) tid) @ [redact_thread_event_kind (env_redact (te_server env)) k]"
    using app(3) core_event [OF assms(3)] by (simp add: app(2))
  with replay_settings [OF st] replay_settings [OF st']
  have "settings st' = set_settings (settings st) (redact_thread_event_kind (env_redact (te_server env)) k)" by simp
  moreover have "handle_state tid (ts_server s) = (Inr st, ts_server s)"
    using app(1) st unfolding handle_state_Inr log_of_def by fastforce
  moreover have "handle_state tid (ts_server s') = (Inr st', ts_server s')"
    using fs st' unfolding handle_state_Inr log_of_def v(2) by simp
  moreover have "ts_world s' = ts_world s" by (simp add: v(2))
  ultimately show thesis using that by blast
qed

section \<open>What a configuration does\<close>

lemma record_change_Inr:
  "record_change env others tid state u t = (Inr (), s') \<longleftrightarrow>
     (if config_changed u state
      then \<exists>e. tool_append env tid (ThreadConfigUpdated u) (t\<lparr>ts_server := others (ts_server t)\<rparr>) = (Inr e, s')
      else s' = t)"
proof (cases "config_changed u state")
  case True
  have "act_map_error ConfigureFailed (on_server (\<lambda>v. (Inr (), others v))) t =
      (Inr (), t\<lparr>ts_server := others (ts_server t)\<rparr>)"
    by (simp add: act_map_error_def on_server_def)
  with True show ?thesis
    by (simp add: record_change_def act_bind_def [of "act_map_error ConfigureFailed (on_server _)"])
      (simp add: act_bind_Inr act_map_error_eq act_return_def)
next
  case False
  then show ?thesis by (auto simp: record_change_def act_return_def)
qed

lemma handle_thread_configureE:
  assumes "handle_thread_configure env others p s = (Inr (), s')"
  obtains thread_root t state u where
    "load_thread_root env (cf_thread_id p) s = (Inr thread_root, t)"
    "handle_state (cf_thread_id p) (ts_server t) = (Inr state, ts_server t)"
    "requested_update env (ts_world t) thread_root state p = Inr u"
    "if config_changed u state
     then \<exists>e. tool_append env (cf_thread_id p) (ThreadConfigUpdated u) (t\<lparr>ts_server := others (ts_server t)\<rparr>) = (Inr e, s')
     else s' = t"
proof -
  from assms obtain thread_root t state t' u where 1: "load_thread_root env (cf_thread_id p) s = (Inr thread_root, t)"
    "on_server (handle_state (cf_thread_id p)) t = (Inr state, t')"
    "requested_update env (ts_world t') thread_root state p = Inr u"
    "record_change env others (cf_thread_id p) state u t' = (Inr (), s')"
    unfolding handle_thread_configure_def act_bind_Inr act_map_error_eq act_look_def prod.inject by blast
  from 1(2) have t': "t' = t" "handle_state (cf_thread_id p) (ts_server t) = (Inr state, ts_server t)"
    by (auto simp: on_server_Inr dest: handle_state_same)
  from 1(4) show thesis
    unfolding t'(1) record_change_Inr by (rule that [OF 1(1) t'(2) 1(3) [unfolded t'(1)]])
qed


text \<open>
  C27: a configuration may undo another. A request that leaves the approval policy alone records
  the one it read, so that whatever policy another request sets before the event is appended,
  the thread ends with the policy it had when this one looked.
\<close>

theorem configure_reverts_policy:
  assumes "handle_thread_configure env others p s = (Inr (), s')" and "cf_approval_policy p = None"
    and "server_ok (ts_server s)" and "\<And>v. server_ok v \<Longrightarrow> server_ok (others v)"
    and "load_thread_root env (cf_thread_id p) s = (Inr thread_root, t)"
    and "handle_state (cf_thread_id p) (ts_server t) = (Inr state, ts_server t)"
    and "\<And>u. requested_update env (ts_world s) thread_root state p = Inr u \<Longrightarrow> apply_config u state \<noteq> state"
  shows "\<exists>state'. handle_state (cf_thread_id p) (ts_server s') = (Inr state', ts_server s') \<and>
    st_approval_policy state' = st_approval_policy state"
proof -
  from act_withinD [OF world.load_thread_root_within assms(5)] have w: "ts_world t = ts_world s" by (simp add: same_world_def)
  from act_withinD [OF logs.load_thread_root_within assms(5)] assms(3) have ok: "server_ok (ts_server t)"
    by (simp add: tool_step_def safe_step_def)
  from assms(1,5,6) obtain u where u: "requested_update env (ts_world s) thread_root state p = Inr u"
    "if config_changed u state
     then \<exists>e. tool_append env (cf_thread_id p) (ThreadConfigUpdated u) (t\<lparr>ts_server := others (ts_server t)\<rparr>) = (Inr e, s')
     else s' = t"
    by (auto elim!: handle_thread_configureE simp: w)
  from u(2) assms(7) [OF u(1)] obtain e where
    e: "tool_append env (cf_thread_id p) (ThreadConfigUpdated u) (t\<lparr>ts_server := others (ts_server t)\<rparr>) = (Inr e, s')"
    by (auto simp: config_changed_iff)
  from u(1) assms(2) have policy: "cu_approval_policy u = st_approval_policy state"
    by (auto simp: requested_update_def rbind_eq_Inr Let_def)
  have ok': "server_ok (ts_server (t\<lparr>ts_server := others (ts_server t)\<rparr>))" using assms(4) ok by simp
  obtain st st' where
    "handle_state (cf_thread_id p) (ts_server s') = (Inr st', ts_server s')"
    "settings st' = apply_config (redact_config (env_redact (te_server env)) u) (settings st)"
    by (rule append_settings [OF e ok']) simp_all
  moreover from this(2) have "st_approval_policy (settings st') = cu_approval_policy u"
    by (simp add: apply_config_def redact_config_def)
  then have "st_approval_policy st' = st_approval_policy state" using policy by (simp add: settings_def)
  ultimately show ?thesis by blast
qed

section \<open>What is accepted\<close>

lemma validate_tools_Inr:
  "validate_tools mode_name mode role tools = Inr () \<longleftrightarrow> (\<forall>tool \<in> set tools. validate_tool mode_name mode role tool = Inr ())"
  by (induction tools) (auto simp: rbind_eq_Inr)

lemma validate_tool_Inr:
  "validate_tool mode_name mode role tool = Inr () \<longleftrightarrow>
     effective_mode_decision_for_tool mode tool \<notin> {None, Some Deny} \<and>
     (\<forall>r m role_mode. role = Some (r, m, role_mode) \<longrightarrow> effective_mode_decision_for_tool role_mode tool \<notin> {None, Some Deny})"
  by (auto simp: validate_tool_def split: option.splits if_splits)

lemma resolve_writable_roots_Inr:
  "resolve_writable_roots fs world base seen roots = Inr out \<Longrightarrow>
     distinct out \<and> set out \<inter> seen = {} \<and>
     (\<forall>r \<in> set out. \<exists>root p. resolve_dir_unrestricted fs world base (components root) = Inr p \<and> r = path_string p)"
proof (induction roots arbitrary: seen out)
  case (Cons root roots)
  from Cons.prems obtain p rest where p: "resolve_dir_unrestricted fs world base (components root) = Inr p" and
    rest: "resolve_writable_roots fs world base (insert (path_string p) seen) roots = Inr rest" and
    out: "out = (if path_string p \<in> seen then rest else path_string p # rest)"
    by (cases "resolve_dir_unrestricted fs world base (components root)") (auto simp: rbind_eq_Inr Let_def)
  from Cons.IH [OF rest] p show ?case by (auto simp: out)
qed simp

text \<open>
  Only sound settings are recorded. A mode or role in the event is known; allowed tools are
  known, listed once, and denied neither by the mode nor by the mode of the role they will be
  used with; writable roots are existing directories, links followed, listed once; a rule is
  never blank.
\<close>

theorem requested_update_sound:
  assumes "requested_update env w thread_root state p = Inr u"
  defines "catalog \<equiv> load_modes env thread_root w"
  shows "(\<forall>m. cu_mode u = Some m \<longrightarrow> catalog_mode catalog m \<noteq> None) \<and>
    (\<forall>r. cu_role u = Some r \<longrightarrow> builtin_roles r \<noteq> None) \<and>
    (\<forall>roots. cu_sandbox_writable_roots u = Some roots \<longrightarrow> distinct roots \<and>
       (\<forall>r \<in> set roots. \<exists>root p. resolve_dir_unrestricted (te_fs env) w thread_root (components root) = Inr p \<and>
          r = path_string p)) \<and>
    (\<forall>rules. cu_execpolicy_rules u = Some rules \<longrightarrow> distinct rules \<and> [] \<notin> set rules) \<and>
    (\<forall>tools. cu_allowed_tools u = Some (Some tools) \<longrightarrow> distinct tools \<and>
       (\<exists>mode. catalog_mode catalog (case cu_mode u of Some m \<Rightarrow> m | None \<Rightarrow> st_mode state) = Some mode \<and>
          (\<forall>tool \<in> set tools. is_known_allowed_tool tool \<and> effective_mode_decision_for_tool mode tool \<noteq> Some Deny \<and>
             (\<forall>role role_mode. effective_role_name (cu_role u) (st_role state) = Some role \<longrightarrow>
                Option.bind (permission_mode_name role) (catalog_mode catalog) = Some role_mode \<longrightarrow>
                effective_mode_decision_for_tool role_mode tool \<noteq> Some Deny))))"
proof -
  let ?mode = "normalize_thread_configure_text_value (cf_mode p)" and ?role = "normalize_thread_configure_text_value (cf_role p)"
  from assms(1) obtain roots thinking tools where
    roots: "normalize_writable_roots (te_fs env) w thread_root (cf_sandbox_writable_roots p) = Inr roots" and
    mode: "(case ?mode of Some m \<Rightarrow> validate_thread_configure_mode catalog m | None \<Rightarrow> Inr ()) = Inr ()" and
    role: "(case ?role of Some r \<Rightarrow> validate_thread_configure_role r | None \<Rightarrow> Inr ()) = Inr ()" and
    tools: "check_allowed_tools catalog state ?mode ?role (cf_allowed_tools p) = Inr tools" and
    u: "cu_mode u = ?mode" "cu_role u = ?role" "cu_sandbox_writable_roots u = roots" "cu_allowed_tools u = tools"
      "cu_execpolicy_rules u = map_option normalize_execpolicy_rules (cf_execpolicy_rules p)"
    unfolding requested_update_def Let_def rbind_eq_Inr catalog_def [symmetric] by (elim exE conjE) (rule that, assumption+, auto)
  have 1: "\<forall>m. cu_mode u = Some m \<longrightarrow> catalog_mode catalog m \<noteq> None"
    using mode by (auto simp: u validate_thread_configure_mode_def split: if_splits)
  have 2: "\<forall>r. cu_role u = Some r \<longrightarrow> builtin_roles r \<noteq> None"
    using role by (auto simp: u validate_thread_configure_role_def split: if_splits)
  have 3: "\<forall>rs. cu_sandbox_writable_roots u = Some rs \<longrightarrow> distinct rs \<and>
       (\<forall>r \<in> set rs. \<exists>root p. resolve_dir_unrestricted (te_fs env) w thread_root (components root) = Inr p \<and> r = path_string p)"
    using roots by (auto simp: u normalize_writable_roots_def rbind_eq_Inr dest!: resolve_writable_roots_Inr split: option.splits)
  have 4: "\<forall>rules. cu_execpolicy_rules u = Some rules \<longrightarrow> distinct rules \<and> [] \<notin> set rules"
    by (auto simp: u normalize_execpolicy_rules_def distinct_push_unique_trimmed set_push_unique_trimmed)
  have 5: "distinct ts \<and>
       (\<exists>mode. catalog_mode catalog (case cu_mode u of Some m \<Rightarrow> m | None \<Rightarrow> st_mode state) = Some mode \<and>
          (\<forall>tool \<in> set ts. is_known_allowed_tool tool \<and> effective_mode_decision_for_tool mode tool \<noteq> Some Deny \<and>
             (\<forall>role role_mode. effective_role_name (cu_role u) (st_role state) = Some role \<longrightarrow>
                Option.bind (permission_mode_name role) (catalog_mode catalog) = Some role_mode \<longrightarrow>
                effective_mode_decision_for_tool role_mode tool \<noteq> Some Deny)))"
    if ts: "cu_allowed_tools u = Some (Some ts)" for ts
  proof -
    from tools ts obtain requested where req: "normalize_allowed_tools requested = Inr ts" and
      valid: "validate_thread_configure_allowed_tools_for_mode_and_role catalog
        (case ?mode of Some m \<Rightarrow> m | None \<Rightarrow> st_mode state) (effective_role_name ?role (st_role state)) ts = Inr ()"
      by (auto simp: u check_allowed_tools_def normalize_thread_configure_allowed_tools_def rbind_eq_Inr Let_def
          split: option.splits sum.splits)
    have "ts = push_unique_trimmed {} requested"
      using req by (auto simp: normalize_allowed_tools_def normalize_tools_eq split: option.splits)
    then have "distinct ts" by (simp add: distinct_push_unique_trimmed)
    moreover obtain mode where m: "catalog_mode catalog (case ?mode of Some m \<Rightarrow> m | None \<Rightarrow> st_mode state) = Some mode"
      using valid by (auto simp: validate_thread_configure_allowed_tools_for_mode_and_role_def split: option.splits)
    moreover have "is_known_allowed_tool tool \<and> effective_mode_decision_for_tool mode tool \<noteq> Some Deny \<and>
             (\<forall>role role_mode. effective_role_name ?role (st_role state) = Some role \<longrightarrow>
                Option.bind (permission_mode_name role) (catalog_mode catalog) = Some role_mode \<longrightarrow>
                effective_mode_decision_for_tool role_mode tool \<noteq> Some Deny)" if "tool \<in> set ts" for tool
      using valid m that effective_decision_known [of mode tool]
      by (auto simp: validate_thread_configure_allowed_tools_for_mode_and_role_def rbind_eq_Inr validate_tools_Inr
          validate_tool_Inr split: option.splits)
    ultimately show ?thesis by (auto simp: u)
  qed
  from 1 2 3 4 5 show ?thesis by blast
qed

end
