(* ===== verification/ThreadConfigureSamples.thy ===== *)
theory ThreadConfigureSamples
  imports ThreadConfigure FileSamples
begin

text \<open>
  The properties of thread configuration at a concrete request: a thread rooted at \<open>/w\<close> is given
  another model, while, for the last one, somebody else denies all approvals.
\<close>

definition sample_configure :: configure_params where
  "sample_configure = \<lparr>cf_thread_id = sample_thread, cf_approval_policy = None, cf_sandbox_policy = None,
     cf_sandbox_writable_roots = None, cf_sandbox_network_access = None, cf_mode = None, cf_role = None,
     cf_model = Some '' m '', cf_clear_model = False, cf_thinking = None, cf_clear_thinking = False,
     cf_show_thinking = None, cf_clear_show_thinking = False, cf_openai_base_url = None,
     cf_clear_openai_base_url = False, cf_allowed_tools = None, cf_execpolicy_rules = Some [''a'', '' '', ''a''],
     cf_clear_execpolicy_rules = False\<rparr>"

definition sample_update :: config_update where
  "sample_update = \<lparr>cu_approval_policy = AutoApprove, cu_sandbox_policy = None, cu_sandbox_writable_roots = None,
     cu_sandbox_network_access = None, cu_mode = None, cu_role = None, cu_model = Some ''m'', cu_clear_model = False,
     cu_thinking = None, cu_clear_thinking = False, cu_show_thinking = None, cu_clear_show_thinking = False,
     cu_openai_base_url = None, cu_clear_openai_base_url = False, cu_allowed_tools = None,
     cu_execpolicy_rules = Some [''a''], cu_clear_execpolicy_rules = False\<rparr>"

lemma sample_trims: "trim '' m '' = ''m''" "trim ''a'' = ''a''" "trim '' '' = []"
  by code_simp+

lemma sample_requested: "requested_update sample_tools w root sample_thread_state sample_configure = Inr sample_update"
  by (simp add: requested_update_def sample_configure_def sample_update_def normalize_writable_roots_def
      parse_thread_configure_thinking_def normalize_thread_configure_text_value_def check_allowed_tools_def
      normalize_execpolicy_rules_def sample_trims sample_thread_state_def new_state_def Let_def)

lemma sample_changes: "apply_config sample_update sample_thread_state \<noteq> sample_thread_state"
  by (simp add: apply_config_def sample_update_def sample_thread_state_def new_state_def)

lemma config_append_succeeds:
  assumes "server_ok v" and "sv_logs v tid \<noteq> None"
  obtains e v' where "rt_append_event sample_env tid (ThreadConfigUpdated u) v = (Inr e, v')" "server_ok v'"
    "sv_logs v' tid \<noteq> None"
proof -
  from assms obtain es st where es: "sv_logs v tid = Some es" "replay es (new_state tid) = Inr st"
    unfolding server_ok_def by blast
  have "env_writes sample_env" using sample_tool_live(2) by (simp add: sample_tools_def)
  from append_succeeds [OF this es, of "ThreadConfigUpdated u"] obtain e v' where
    v': "rt_append_event sample_env tid (ThreadConfigUpdated u) v = (Inr e, v')" by auto
  from safe_actionD [OF safe_append_event v'] assms(1) have "logs_grow v v'" "server_ok v'" by blast+
  with logs_grow_Some [OF this(1) es(1)] v' that show thesis by auto
qed

lemma sample_configure_simps:
  "cf_thread_id sample_configure = sample_thread" "cf_approval_policy sample_configure = None"
  "ts_server sample_tool_state = sample_tool_server" "ts_world sample_tool_state = {}"
  "te_server sample_tools = sample_env"
  by (simp_all add: sample_configure_def sample_tool_state_def sample_tools_def)

lemma sample_configured:
  assumes "server_ok (others sample_tool_server)" and "sv_logs (others sample_tool_server) sample_thread \<noteq> None"
  shows "\<exists>s'. handle_thread_configure sample_tools others sample_configure sample_tool_state = (Inr (), s')"
proof -
  note c = sample_configure_simps
  obtain e v where v: "rt_append_event sample_env sample_thread (ThreadConfigUpdated sample_update) (others sample_tool_server)
      = (Inr e, v)"
    by (rule config_append_succeeds [OF assms])
  have "tool_append sample_tools sample_thread (ThreadConfigUpdated sample_update)
      (sample_tool_state\<lparr>ts_server := others sample_tool_server\<rparr>) = (Inr e, sample_tool_state\<lparr>ts_server := v\<rparr>)"
    using v by (simp add: tool_append_def on_server_def c)
  then have "record_change sample_tools others sample_thread sample_thread_state sample_update sample_tool_state
      = (Inr (), sample_tool_state\<lparr>ts_server := v\<rparr>)"
    using sample_changes by (simp add: record_change_Inr config_changed_iff c)
  then have "handle_thread_configure sample_tools others sample_configure sample_tool_state
      = (Inr (), sample_tool_state\<lparr>ts_server := v\<rparr>)"
    by (simp add: handle_thread_configure_def act_bind_def act_map_error_def act_look_def on_server_def c
        sample_load_root sample_handle_state sample_requested)
       (simp add: sample_tool_state_def)
  then show ?thesis by blast
qed


text \<open>A second request restricts the tools of the thread.\<close>

definition sample_restrict :: configure_params where
  "sample_restrict = sample_configure\<lparr>cf_mode := Some '' coder'', cf_allowed_tools := Some (Some [''file/read'', '' '', ''file/read''])\<rparr>"

lemma sample_tools_known: "normalize_allowed_tools [''file/read'', '' '', ''file/read''] = Inr [''file/read'']"
  by code_simp

lemma sample_roles: "builtin_roles ''coder'' \<noteq> None" "permission_mode_name ''coder'' = Some ''coder''" "trim '' coder'' = ''coder''"
  by code_simp+

lemma sample_allowed:
  "effective_mode_decision_for_tool (builtin_coder sample_globs) ''file/read'' = Some Allow"
  by (simp add: effective_mode_decision_for_tool_def base_mode_decision_for_tool_def with_override_def builtin_coder_def
      builtin_mode_def Let_def)

lemma sample_restrict_requested:
  "requested_update sample_tools w root sample_thread_state sample_restrict =
     Inr (sample_update\<lparr>cu_mode := Some ''coder'', cu_allowed_tools := Some (Some [''file/read''])\<rparr>)"
  by (simp add: requested_update_def sample_restrict_def sample_configure_def sample_update_def normalize_writable_roots_def
      parse_thread_configure_thinking_def normalize_thread_configure_text_value_def check_allowed_tools_def
      normalize_execpolicy_rules_def sample_trims sample_thread_state_def new_state_def Let_def sample_tools_known
      sample_roles sample_allowed sample_catalog sample_mode validate_thread_configure_mode_def
      validate_thread_configure_role_def normalize_thread_configure_allowed_tools_def effective_role_name_def
      validate_thread_configure_allowed_tools_for_mode_and_role_def validate_tool_def)

lemma requested_update_sound_witness:
  "\<exists>u. requested_update sample_tools {} [] sample_thread_state sample_restrict = Inr u \<and>
    cu_allowed_tools u = Some (Some [''file/read'']) \<and> is_known_allowed_tool ''file/read'' \<and>
    distinct (the (cu_execpolicy_rules u)) \<and> [] \<notin> set (the (cu_execpolicy_rules u))"
proof -
  obtain u where u: "requested_update sample_tools {} [] sample_thread_state sample_restrict = Inr u"
    "cu_allowed_tools u = Some (Some [''file/read''])" "cu_execpolicy_rules u = Some [''a'']"
    using sample_restrict_requested by (simp add: sample_update_def)
  from requested_update_sound [OF u(1)] u(2) have "is_known_allowed_tool ''file/read''"
    by (elim conjE allE [where x = "[''file/read'']"]) auto
  moreover from requested_update_sound [OF u(1)] u(3)
  have "distinct (the (cu_execpolicy_rules u)) \<and> [] \<notin> set (the (cu_execpolicy_rules u))" by simp
  ultimately show ?thesis using u by blast
qed

definition deny_all :: "server \<Rightarrow> server" where
  "deny_all v = snd (rt_append_event sample_env sample_thread
     (ThreadConfigUpdated (sample_update\<lparr>cu_approval_policy := AutoDeny\<rparr>)) v)"

lemma deny_all_ok: "server_ok v \<Longrightarrow> server_ok (deny_all v)"
  unfolding deny_all_def using safe_actionD [OF safe_append_event] by (metis prod.collapse)

lemma configure_reverts_policy_witness:
  "(\<exists>state. handle_state sample_thread (deny_all sample_tool_server) = (Inr state, deny_all sample_tool_server) \<and>
      st_approval_policy state = AutoDeny) \<and>
   (\<exists>s' state'. handle_thread_configure sample_tools deny_all sample_configure sample_tool_state = (Inr (), s') \<and>
      handle_state sample_thread (ts_server s') = (Inr state', ts_server s') \<and>
      st_approval_policy state' = AutoApprove)"
proof
  have ok: "server_ok sample_tool_server" "sv_logs sample_tool_server sample_thread \<noteq> None"
    using sample_tool_live(1) by (simp_all add: sample_tool_server_def)
  let ?deny = "sample_update\<lparr>cu_approval_policy := AutoDeny\<rparr>"
  obtain e v where v: "rt_append_event sample_env sample_thread (ThreadConfigUpdated ?deny) sample_tool_server = (Inr e, v)"
    "server_ok v" "sv_logs v sample_thread \<noteq> None"
    by (rule config_append_succeeds [OF ok])
  then have deny: "deny_all sample_tool_server = v" by (simp add: deny_all_def)
  have app: "tool_append sample_tools sample_thread (ThreadConfigUpdated ?deny) sample_tool_state
      = (Inr e, sample_tool_state\<lparr>ts_server := v\<rparr>)"
    using v(1) by (simp add: tool_append_def on_server_def sample_tool_state_def sample_tools_def)
  obtain st st' where st': "handle_state sample_thread v = (Inr st', v)"
    "settings st' = apply_config (redact_config (env_redact sample_env) ?deny) (settings st)"
    by (rule append_settings [OF app]) (simp_all add: sample_tool_state_def sample_tools_def ok(1))
  from st'(2) have "st_approval_policy (settings st') = AutoDeny" by (simp add: apply_config_def redact_config_def)
  with st'(1) show "\<exists>state. handle_state sample_thread (deny_all sample_tool_server) = (Inr state, deny_all sample_tool_server) \<and>
      st_approval_policy state = AutoDeny"
    by (simp add: deny settings_def)
  obtain s' where s': "handle_thread_configure sample_tools deny_all sample_configure sample_tool_state = (Inr (), s')"
    using sample_configured [of deny_all] v(2,3) by (auto simp: deny)
  note c = sample_configure_simps
  have "\<exists>state'. handle_state (cf_thread_id sample_configure) (ts_server s') = (Inr state', ts_server s') \<and>
      st_approval_policy state' = st_approval_policy sample_thread_state"
    by (rule configure_reverts_policy [OF s' c(2), where thread_root = "[RootDir, Normal ''w'']" and t = sample_tool_state])
      (simp_all add: c ok(1) deny_all_ok sample_load_root sample_handle_state sample_requested,
       use sample_changes in blast)
  with s' show "\<exists>s' state'. handle_thread_configure sample_tools deny_all sample_configure sample_tool_state = (Inr (), s') \<and>
      handle_state sample_thread (ts_server s') = (Inr state', ts_server s') \<and> st_approval_policy state' = AutoApprove"
    by (auto simp: c sample_thread_state_def new_state_def)
qed

end
