(* ===== verification/Spec2Isabelle.thy ===== *)
theory Spec2Isabelle
  imports EventTags ThreadReplay EventLog Redaction Threads ExecPolicy Modes ToolGate Server
    Approval ApprovalList Sandbox FsRuntime FileTools FileGates FileRuns FileContents FileConfinement FileSamples
    TurnRuns ThreadLifecycle Fork ForkSamples ScheduleLoop ScheduleApprovals NetIntent ChildEnv ProcessSamples
    ThreadConfigureSamples
begin

text \<open>
  The agent server of this repository runs conversations ("threads") of a language model with
  tools that read and change files and start processes. Its core is written in Rust under
  \<open>crates/\<close>. This library models the parts that decide what an agent may do and that keep the
  record of what it did, and proves them correct.

  \<^bold>\<open>How the program works.\<close> Everything that happens in a thread is an event of its log
  (\<open>crates/agent-protocol\<close>), an append-only file of JSON lines (\<open>crates/eventlog\<close>). The state of
  a thread is the fold of its events (\<open>ThreadState::apply\<close>). A handle holds the state and the
  writer of one thread (\<open>crates/core/src/threads.rs\<close>); the server loads handles on demand and
  closes what an earlier process left open (\<open>crates/app-server/src/main/preamble/server.rs\<close>). A
  tool call passes, in this order, the thread's allowed tools, the sandbox policy, the mode and
  the role, and the approval; it is then recorded as started, performed and recorded as
  completed.

  \<^bold>\<open>Which theory models what.\<close>

  \<^item> \<open>Prelude\<close>: machine integers, result and string operations, folds that may fail, and
    operations on a state (\<open>state_action\<close>) with their relational rules (locale
    \<open>action_relation\<close>). \<open>Json\<close>: \<open>serde_json::Value\<close>.
  \<^item> \<open>Protocol\<close>, \<open>EventTags\<close>: the events and their tags (\<open>agent-protocol/src/lib.rs\<close>).
  \<^item> \<open>ThreadState\<close>, \<open>ThreadReplay\<close>, \<open>EventLog\<close>: the reducer, its replay and the log file as
    a list of bytes with the repair of a damaged tail (\<open>eventlog/src/lib.rs\<close>).
  \<^item> \<open>Redaction\<close> (\<open>core/src/redaction.rs\<close>) and \<open>Threads\<close> (\<open>core/src/threads.rs\<close>).
  \<^item> \<open>Server\<close>: appending with token budget markers, loading, recovery. A server is a record of
    the logs, the loaded threads and the last markers.
  \<^item> \<open>ExecPolicy\<close> (\<open>crates/execpolicy\<close> and the merge of \<open>process_control/start.rs\<close>), \<open>Modes\<close>
    (\<open>core/src/modes.rs\<close>), \<open>ToolGate\<close> (\<open>core/src/roles.rs\<close>, \<open>core/src/allowed_tools.rs\<close>,
    \<open>app-server/src/main/mode_gate.rs\<close>): what commands, modes and roles allow.
  \<^item> \<open>Approval\<close>, \<open>ApprovalList\<close>: the approvals (\<open>app-server/src/main/approval.rs\<close>).
  \<^item> \<open>Sandbox\<close>: protected names, path resolution and write targets (\<open>crates/fs-policy\<close>,
    \<open>core/src/sandbox.rs\<close>, \<open>approval.rs\<close>). \<open>FsRuntime\<close>: the operations on files
    (\<open>crates/fs-runtime\<close>).
  \<^item> \<open>ToolEvents\<close>, \<open>FileTools\<close>: the handlers of the file tools (\<open>file_write_patch.rs\<close>,
    \<open>file_edit_delete.rs\<close>, \<open>fs.rs\<close>, \<open>file_read_glob_grep/\<close>). A handler runs on a pair of a server
    and the world of the file system.
  \<^item> \<open>Turns\<close>: the runtimes of the loaded threads and the start, interruption and completion of
    their turns (\<open>preamble/server.rs\<close>, \<open>app/turn.rs\<close>). \<open>TurnRuns\<close>: their interleavings as a step
    relation. \<open>ThreadConfigure\<close>, \<open>ThreadLifecycle\<close>, \<open>Fork\<close>: configuring, pausing, archiving and forking threads
    (\<open>thread_manage/\<close>).
  \<^item> \<open>SpawnPlan\<close>: the checks of a request for subagents (\<open>agent/tools/dispatch/run_tool_call_once.rs\<close>).
    \<open>Schedule\<close>, \<open>ScheduleProxy\<close>: the schedule of the subagents' tasks, its operations and its loop, and
    the approvals it forwards between a subagent and its parent (\<open>subagents_schedule.rs\<close>).
    \<open>ScheduleRuns\<close>, \<open>ScheduleLoop\<close>, \<open>ScheduleApprovals\<close> hold their lemmas.
  \<^item> \<open>NetIntent\<close>: which commands use the network (\<open>crates/process-runtime\<close>). \<open>ChildEnv\<close>: the
    environment of child processes (\<open>preamble/hardening.rs\<close>). \<open>ProcessGate\<close>: what must allow a
    command (\<open>process_stream/common.rs\<close>). \<open>ProcessControl\<close>: starting, listing, killing and
    interrupting processes and the gate of a watched shell (\<open>process_control/\<close>); the state adds the
    table of processes, the commands under way to their actors and the gates that run.
    \<open>ProcessActor\<close>: the actor of a process (\<open>process_control/actor.rs\<close>). \<open>ProcessRuns\<close> and
    \<open>ProcessSamples\<close> hold the lemmas and the concrete calls.

  \<^bold>\<open>What the lemmas show.\<close> Logs: an append survives a crash after any number of bytes, is read
  back, and the state is the replay (\<open>EventLog\<close>, \<open>Threads\<close>); replays are well-formed and count
  tokens exactly (\<open>ThreadReplay\<close>); nothing is lost or rewritten (\<open>Server\<close>, \<open>FileGates\<close>).
  Decisions: the strictest rule of an execution policy wins, merging only tightens
  (\<open>ExecPolicy\<close>); the mode gate is at least as strict as mode, override and role (\<open>ToolGate\<close>);
  the gate approves only what an approval, a remembered decision or the policy covers, and a
  pending approval can always be decided (\<open>Approval\<close>). Files: paths are resolved below the
  roots, the previewed target is the written one (\<open>Sandbox\<close>), edits are all or nothing
  (\<open>FsRuntime\<close>), a call changes the world only after every gate (\<open>FileGates\<close>), only below the
  thread's roots (\<open>FileConfinement\<close>), and leaves no tool running (\<open>FileRuns\<close>). \<open>FileSamples\<close>
  holds a concrete call for each of these. Turns: under every interleaving the turns of a log
  follow a small abstract machine, and the runtime agrees with the log (\<open>TurnRuns\<close>); a fork is a
  settled copy when nothing runs beside it (\<open>Fork\<close>); where pausing and forking are not atomic
  the theorems give the run that goes wrong. A configuration sets what it requests and nothing else,
  but undoes the approval policy another one sets meanwhile (\<open>ThreadConfigure\<close>). Subagents: a request is accepted exactly when its
  tasks are sound and acyclic (\<open>SpawnPlan\<close>); every run of the scheduler is a run of an abstract
  machine on the graph of dependencies, never runs more subagents at once than the limit, and can
  always go on until every task has ended (\<open>ScheduleRuns\<close>,
  \<open>ScheduleLoop\<close>); it grants nothing that was not granted on the other side
  (\<open>ScheduleApprovals\<close>). Processes: no call starts, answers for or signals a process without
  every gate (\<open>ProcessRuns\<close>), but a process the server takes for another is killed without any
  (\<open>ProcessActor\<close>); an actor records each thing once and leaves nothing behind; the classifier of
  network use looks through wrappers, with one hole (\<open>NetIntent\<close>).

  \<^bold>\<open>Interfaces.\<close> The locales state what a client relies on: \<open>fallible_fold\<close> for folds that may
  fail, \<open>action_relation\<close> for relations between the state before and after an operation, with
  \<open>server_relation\<close> for the handlers; they are interpreted on the reducer, the approval index, the
  server, the file system and the handlers.

  \<^bold>\<open>Bounds.\<close> There is no fuel: every loop of the modelled code is structural or has a measure
  (the loop over a path that need not exist shortens the path, the search for text shortens the
  text); the sort of the graph of tasks in \<open>SpawnPlan\<close> alone is a partial function, which the
  theorems on accepted requests show to return. \<open>u64\<close> and \<open>u32\<close> values are words with the saturation and the checks of the source.

  \<^bold>\<open>Parameters.\<close> Third-party code is an argument: regular expressions, globs, the Starlark
  evaluation of a policy file, \<open>omne_fs\<close>, the text catalog, SHA-256, the parsing and printing of
  identifiers and timestamps, the clock, which writes fail, the execution gateway, the splitting
  of shell words, and what the operating system does with processes. What a theorem assumes of them
  is a named predicate (\<open>fs_lawful\<close>, \<open>fs_local\<close>, \<open>library_local\<close>, \<open>env_writes\<close>, \<open>catalog_valid\<close>).

  \<^bold>\<open>Not modelled.\<close> Model calls and the dispatch of tool calls, the output of processes, artifacts, checkpoints, workflow files, the command line and terminal
  client, the generated protocol types: they are I/O around the parts above or are left for a
  later extension. Concurrent requests on one thread are sequences of whole operations, and a
  file system that other processes change during a call is not considered; cancellation and
  panics of the runtime are not modelled.
\<close>

end
